(* ===== verification/Go_Base.thy ===== *)
theory Go_Base
  imports Main "HOL-Library.Sublist" "HOL-Library.Word"
begin

text \<open>
  The prelude: what the modelled packages use of Go and of its standard library.

  A Go string is a sequence of bytes, so it is a \<^typ>\<open>string\<close> (a list of eight-bit
  characters) here. A Go \<open>int\<close> is a 64-bit two's complement number: the model keeps it as an
  \<^typ>\<open>int\<close>, reads numbers with the range check of \<open>strconv.Atoi\<close> and writes
  the wrap-around out with \<open>wrap64\<close> wherever the code adds to a number it read from text.
  A function that returns an error is a sum, \<open>Inl\<close> the error.

  The groups below are: sums, 64-bit numbers in decimal, the byte-wise functions of the package
  \<open>strings\<close>, UTF-8 and the functions of \<open>strings\<close> that look at runes.
\<close>

named_theorems go_simps \<open>evaluation of the modelled standard library\<close>
named_theorems go_splits \<open>case distinctions of the modelled standard library\<close>

section \<open>Errors as values\<close>

definition and_then :: "'e + 'a \<Rightarrow> ('a \<Rightarrow> 'e + 'b) \<Rightarrow> 'e + 'b" where
  "and_then m f = (case m of Inl e \<Rightarrow> Inl e | Inr x \<Rightarrow> f x)"

lemma and_then_simps [simp, go_simps]:
  "and_then (Inl e) f = Inl e"
  "and_then (Inr x) f = f x"
  by (simp_all add: and_then_def)

lemma and_then_Inr_iff: "and_then m f = Inr y \<longleftrightarrow> (\<exists>x. m = Inr x \<and> f x = Inr y)"
  by (cases m) auto

lemma and_then_InrE [elim]:
  assumes "and_then m f = Inr y"
  obtains x where "m = Inr x" "f x = Inr y"
  using assms by (auto simp: and_then_Inr_iff)

definition succeeds :: "'e + 'a \<Rightarrow> bool" where
  "succeeds m = (case m of Inl _ \<Rightarrow> False | Inr _ \<Rightarrow> True)"

lemma succeeds_simps [simp]: "succeeds (Inr x)" "\<not> succeeds (Inl e)"
  by (simp_all add: succeeds_def)

lemma succeeds_iff: "succeeds m \<longleftrightarrow> (\<exists>x. m = Inr x)"
  by (cases m) auto

text \<open>A loop that hands each item to a step and stops at the first error.\<close>

fun each_in_turn :: "('s \<Rightarrow> 'a \<Rightarrow> 'e + 's) \<Rightarrow> 's \<Rightarrow> 'a list \<Rightarrow> 'e + 's" where
  "each_in_turn f s [] = Inr s"
| "each_in_turn f s (x # xs) = and_then (f s x) (\<lambda>t. each_in_turn f t xs)"

lemma each_in_turn_append:
  "each_in_turn f s (xs @ ys) = and_then (each_in_turn f s xs) (\<lambda>t. each_in_turn f t ys)"
proof (induction xs arbitrary: s)
  case (Cons x xs)
  then show ?case by (cases "f s x") auto
qed simp

lemma each_in_turn_keeps:
  assumes run: "each_in_turn f s xs = Inr t" and start: "I s"
    and step: "\<And>s x t. I s \<Longrightarrow> x \<in> set xs \<Longrightarrow> f s x = Inr t \<Longrightarrow> I t"
  shows "I t"
  using run start step
proof (induction xs arbitrary: s)
  case (Cons x xs)
  from Cons.prems(1) obtain u where u: "f s x = Inr u" "each_in_turn f u xs = Inr t"
    by (auto simp: and_then_Inr_iff)
  have "I u" by (rule Cons.prems(3)[OF Cons.prems(2) _ u(1)]) simp
  show ?case
  proof (rule Cons.IH[OF u(2) \<open>I u\<close>])
    fix a x' b
    assume "I a" "x' \<in> set xs" "f a x' = Inr b"
    then show "I b" using Cons.prems(3)[of a x' b] by simp
  qed
qed simp

section \<open>64-bit numbers\<close>

definition max_int :: int where "max_int = 9223372036854775807"

text \<open>A sum computed on 64 bits.\<close>

definition wrap64 :: "int \<Rightarrow> int" where
  "wrap64 n = signed_take_bit 63 n"

lemma wrap64_id [simp]: "-(2^63) \<le> n \<Longrightarrow> n < 2^63 \<Longrightarrow> wrap64 n = n"
  unfolding wrap64_def by (rule signed_take_bit_int_eq_self) simp_all

lemma wrap64_small: "0 \<le> n \<Longrightarrow> n \<le> max_int \<Longrightarrow> wrap64 n = n"
  by (rule wrap64_id) (simp_all add: max_int_def)

lemma wrap64_le_max: "wrap64 n \<le> max_int"
proof -
  have "signed_take_bit 63 n < 2 ^ 63" by (rule signed_take_bit_int_less_exp)
  then show ?thesis by (simp add: wrap64_def max_int_def)
qed

definition is_digit :: "char \<Rightarrow> bool" where
  "is_digit c \<longleftrightarrow> 48 \<le> (of_char c :: nat) \<and> (of_char c :: nat) \<le> 57"

definition digit_char :: "nat \<Rightarrow> char" where
  "digit_char n = char_of (48 + n)"

definition digit_value :: "char \<Rightarrow> nat" where
  "digit_value c = of_char c - 48"

lemma of_digit_char [simp]: "n < 10 \<Longrightarrow> (of_char (digit_char n) :: nat) = 48 + n"
  by (simp add: digit_char_def)

lemma digit_char_0: "digit_char 0 = CHR ''0''"
  by (simp add: digit_char_def char_of_eq_iff)

lemma is_digit_digit_char [simp]: "n < 10 \<Longrightarrow> is_digit (digit_char n)"
  by (simp add: is_digit_def)

lemma digit_value_digit_char [simp]: "n < 10 \<Longrightarrow> digit_value (digit_char n) = n"
  by (simp add: digit_value_def)

lemma digit_value_less: "is_digit c \<Longrightarrow> digit_value c < 10"
  unfolding is_digit_def digit_value_def by linarith

lemma digit_char_digit_value: "is_digit c \<Longrightarrow> digit_char (digit_value c) = c"
  by (simp add: is_digit_def digit_value_def digit_char_def)

fun nat_digits :: "nat \<Rightarrow> string" where
  "nat_digits n =
     (if n < 10 then [digit_char n] else nat_digits (n div 10) @ [digit_char (n mod 10)])"

declare nat_digits.simps [simp del]

text \<open>\<open>strconv.Itoa\<close>, and the \<open>%d\<close> of \<open>fmt\<close>.\<close>

definition itoa :: "int \<Rightarrow> string" where
  "itoa n = (if n < 0 then CHR ''-'' # nat_digits (nat (- n)) else nat_digits (nat n))"

definition digits_value :: "string \<Rightarrow> nat" where
  "digits_value s = foldl (\<lambda>v c. 10 * v + digit_value c) 0 s"

text \<open>\<open>strconv.Atoi\<close>: an optional sign, digits and nothing else, within 64 bits.\<close>

definition atoi :: "string \<Rightarrow> int option" where
  "atoi s =
     (let negative = (s \<noteq> [] \<and> hd s = CHR ''-'');
          digits = (if s \<noteq> [] \<and> (hd s = CHR ''-'' \<or> hd s = CHR ''+'') then tl s else s);
          value = (if negative then - int (digits_value digits) else int (digits_value digits))
      in if digits \<noteq> [] \<and> list_all is_digit digits \<and> - max_int - 1 \<le> value \<and> value \<le> max_int
         then Some value else None)"

lemma digits_value_snoc [simp]: "digits_value (s @ [c]) = 10 * digits_value s + digit_value c"
  by (simp add: digits_value_def)

lemma digits_value_Nil [simp]: "digits_value [] = 0"
  by (simp add: digits_value_def)

lemma nat_digits_nonempty [simp]: "nat_digits n \<noteq> []"
  by (subst nat_digits.simps) simp

lemma nat_digits_all_digits [simp]: "list_all is_digit (nat_digits n)"
proof (induction n rule: nat_digits.induct)
  case (1 n)
  then show ?case by (subst nat_digits.simps) simp
qed

lemma digits_value_nat_digits [simp]: "digits_value (nat_digits n) = n"
proof (induction n rule: nat_digits.induct)
  case (1 n)
  show ?case
  proof (cases "n < 10")
    case True
    then show ?thesis by (subst nat_digits.simps) (simp add: digits_value_def)
  next
    case False
    with 1 show ?thesis by (subst nat_digits.simps) simp
  qed
qed

lemma hd_nat_digits: "0 < n \<Longrightarrow> hd (nat_digits n) \<noteq> CHR ''0''"
proof (induction n rule: nat_digits.induct)
  case (1 n)
  show ?case
  proof (cases "n < 10")
    case True
    have "digit_char n \<noteq> CHR ''0''"
    proof
      assume "digit_char n = CHR ''0''"
      then have "(of_char (digit_char n) :: nat) = 48" by simp
      with True 1 show False by simp
    qed
    with True show ?thesis by (subst nat_digits.simps) simp
  next
    case False
    with 1 show ?thesis by (subst nat_digits.simps) simp
  qed
qed

lemma hd_nat_digits_digit [simp]: "is_digit (hd (nat_digits n))"
  using nat_digits_all_digits[of n] nat_digits_nonempty[of n]
  by (metis hd_in_set list_all_iff)

lemma not_digit_signs [simp]: "\<not> is_digit (CHR ''-'')" "\<not> is_digit (CHR ''+'')"
    "\<not> is_digit (CHR '' '')" "\<not> is_digit (CHR ''.'')" "\<not> is_digit (CHR '','')"
  by (simp_all add: is_digit_def)

lemma nat_digits_no_sign [simp]:
  "hd (nat_digits n) \<noteq> CHR ''-''" "hd (nat_digits n) \<noteq> CHR ''+''"
  using hd_nat_digits_digit[of n] by (metis not_digit_signs)+

lemma atoi_itoa [simp]: "- max_int - 1 \<le> n \<Longrightarrow> n \<le> max_int \<Longrightarrow> atoi (itoa n) = Some n"
  by (simp add: atoi_def itoa_def Let_def)

lemma nat_digits_digits_value:
  "list_all is_digit s \<Longrightarrow> s \<noteq> [] \<Longrightarrow> hd s \<noteq> CHR ''0'' \<Longrightarrow>
    nat_digits (digits_value s) = s \<and> 0 < digits_value s"
proof (induction s rule: rev_induct)
  case (snoc c s)
  have c: "is_digit c" using snoc.prems by simp
  note less = digit_value_less[OF c]
  show ?case
  proof (cases "s = []")
    case True
    then have "c \<noteq> CHR ''0''" using snoc.prems by simp
    then have "0 < digit_value c"
      using digit_char_digit_value[OF c] by (cases "digit_value c") (auto simp: digit_char_0)
    then show ?thesis using True less digit_char_digit_value[OF c]
      by (subst nat_digits.simps) (simp add: digits_value_def)
  next
    case False
    then have IH: "nat_digits (digits_value s) = s" "0 < digits_value s"
      using snoc by auto
    then have "\<not> 10 * digits_value s + digit_value c < 10" by simp
    moreover have "(10 * digits_value s + digit_value c) div 10 = digits_value s"
      "(10 * digits_value s + digit_value c) mod 10 = digit_value c"
      using less by simp_all
    ultimately show ?thesis using IH digit_char_digit_value[OF c]
      by (subst nat_digits.simps) simp
  qed
qed simp

lemma itoa_no_char: "\<not> is_digit c \<Longrightarrow> 0 \<le> n \<Longrightarrow> c \<notin> set (itoa n)"
  using nat_digits_all_digits[of "nat n"] by (auto simp: itoa_def list_all_iff)

lemma itoa_nonempty [simp]: "itoa n \<noteq> []"
  by (simp add: itoa_def)

end
