(* ===== verification/Go_Strings.thy ===== *)
theory Go_Strings
  imports Go_Base
begin

text \<open>
  The functions of the package \<open>strings\<close> that work byte by byte, and the cutting and
  joining facts every reader and printer of the records rests on. \<open>clean_before\<close> and
  \<open>clean_after\<close> say of a piece of text that a separator put behind it, or in front of it,
  is the first, or the last, one a reader finds.
\<close>

named_theorems cutting \<open>cutting a text at a separator its pieces do not hide\<close>

section \<open>Prefixes and suffixes\<close>

definition cut_prefix :: "string \<Rightarrow> string \<Rightarrow> string option" where
  "cut_prefix s p = (if prefix p s then Some (drop (length p) s) else None)"

definition cut_suffix :: "string \<Rightarrow> string \<Rightarrow> string option" where
  "cut_suffix s p = (if suffix p s then Some (take (length s - length p) s) else None)"

definition trim_suffix :: "string \<Rightarrow> string \<Rightarrow> string" where
  "trim_suffix s p = (case cut_suffix s p of Some t \<Rightarrow> t | None \<Rightarrow> s)"

lemma cut_prefix_append [simp, cutting]: "cut_prefix (p @ s) p = Some s"
  by (simp add: cut_prefix_def)

lemma cut_prefix_Some_iff: "cut_prefix s p = Some t \<longleftrightarrow> s = p @ t"
  by (auto simp: cut_prefix_def prefix_def)

lemma cut_prefix_None_iff: "cut_prefix s p = None \<longleftrightarrow> \<not> prefix p s"
  by (simp add: cut_prefix_def)

lemma cut_prefix_Nil [simp]: "cut_prefix s [] = Some s"
  by (simp add: cut_prefix_def)

lemma cut_prefix_Nil_Cons [simp]: "cut_prefix [] (c # p) = None"
  by (simp add: cut_prefix_def)

lemma cut_prefix_Cons [simp]:
  "cut_prefix (c # s) (d # p) = (if c = d then cut_prefix s p else None)"
  by (auto simp: cut_prefix_def)

lemma cut_suffix_append [simp, cutting]: "cut_suffix (s @ p) p = Some s"
  by (simp add: cut_suffix_def suffix_def)

lemma cut_suffix_Some_iff: "cut_suffix s p = Some t \<longleftrightarrow> s = t @ p"
  by (auto simp: cut_suffix_def suffix_def)

lemma cut_suffix_None_iff: "cut_suffix s p = None \<longleftrightarrow> \<not> suffix p s"
  by (simp add: cut_suffix_def)

lemma cut_suffix_snoc [simp]:
  "cut_suffix (s @ [c]) (p @ [d]) = (if c = d then cut_suffix s p else None)"
  by (auto simp: cut_suffix_def suffix_def)

lemma trim_suffix_append [simp]: "trim_suffix (s @ p) p = s"
  by (simp add: trim_suffix_def)

section \<open>The first and the last place of a text in another\<close>

text \<open>\<open>strings.Index\<close> and \<open>strings.LastIndex\<close>, \<open>None\<close> for minus one.\<close>

fun str_index :: "string \<Rightarrow> string \<Rightarrow> nat option" where
  "str_index [] p = (if p = [] then Some 0 else None)"
| "str_index (c # s) p = (if prefix p (c # s) then Some 0 else map_option Suc (str_index s p))"

fun last_index :: "string \<Rightarrow> string \<Rightarrow> nat option" where
  "last_index [] p = (if p = [] then Some 0 else None)"
| "last_index (c # s) p =
     (case last_index s p of
        Some i \<Rightarrow> Some (Suc i)
      | None \<Rightarrow> if prefix p (c # s) then Some 0 else None)"

definition contains_text :: "string \<Rightarrow> string \<Rightarrow> bool" where
  "contains_text s p \<longleftrightarrow> str_index s p \<noteq> None"

lemma str_index_None_iff: "str_index s p = None \<longleftrightarrow> \<not> sublist p s"
proof (induction s)
  case (Cons c s)
  then show ?case by (cases p) (auto simp: sublist_Cons_right)
qed simp

lemma last_index_None_iff: "last_index s p = None \<longleftrightarrow> \<not> sublist p s"
proof (induction s)
  case (Cons c s)
  then show ?case by (cases p) (auto simp: sublist_Cons_right split: option.splits)
qed simp

lemma str_index_length: "str_index s p = Some i \<Longrightarrow> i + length p \<le> length s"
proof (induction s arbitrary: i)
  case (Cons c s)
  then show ?case
    by (auto split: if_splits dest!: prefix_length_le)
qed (simp split: if_splits)

lemma str_index_split:
  "str_index s p = Some i \<Longrightarrow> s = take i s @ p @ drop (i + length p) s"
proof (induction s arbitrary: i)
  case (Cons c s)
  then show ?case by (auto simp: prefix_def split: if_splits)
qed (simp split: if_splits)

lemma last_index_length: "last_index s p = Some i \<Longrightarrow> i + length p \<le> length s"
proof (induction s arbitrary: i)
  case (Cons c s)
  then show ?case
    by (auto split: if_splits option.splits dest!: prefix_length_le)
qed (simp split: if_splits)

lemma last_index_prefix: "last_index s p = Some i \<Longrightarrow> prefix p (drop i s)"
proof (induction s arbitrary: i)
  case (Cons c s)
  then show ?case by (auto split: if_splits option.splits)
qed (simp split: if_splits)

lemma last_index_split:
  assumes "last_index s p = Some i"
  shows "s = take i s @ p @ drop (i + length p) s"
proof -
  obtain rest where rest: "drop i s = p @ rest"
    using last_index_prefix[OF assms] by (auto simp: prefix_def)
  have "drop (length p) (drop i s) = rest" by (simp add: rest)
  then have "drop (i + length p) s = rest" by (simp add: add.commute)
  then show ?thesis by (metis append_take_drop_id rest)
qed

lemma last_index_append_Some:
  "last_index t p = Some i \<Longrightarrow> last_index (a @ t) p = Some (length a + i)"
  by (induction a) auto

lemma sublist_char [simp]: "sublist [c] s \<longleftrightarrow> c \<in> set s"
  by (induction s) (auto simp: sublist_Cons_right)

lemma contains_char [simp]: "contains_text s [c] \<longleftrightarrow> c \<in> set s"
  using str_index_None_iff[of s "[c]"] by (auto simp: contains_text_def)

section \<open>Cutting\<close>

text \<open>\<open>strings.Cut\<close>: before, after, and whether the separator was there.\<close>

definition cut :: "string \<Rightarrow> string \<Rightarrow> string \<times> string \<times> bool" where
  "cut s sep = (case str_index s sep of
      Some i \<Rightarrow> (take i s, drop (i + length sep) s, True)
    | None \<Rightarrow> (s, [], False))"

definition clean_before :: "string \<Rightarrow> string \<Rightarrow> bool" where
  "clean_before sep a \<longleftrightarrow> str_index (a @ sep) sep = Some (length a)"

definition clean_after :: "string \<Rightarrow> string \<Rightarrow> bool" where
  "clean_after sep b \<longleftrightarrow> last_index (sep @ b) sep = Some 0"

lemma str_index_append_clean:
  "clean_before sep a \<Longrightarrow> str_index (a @ sep @ b) sep = Some (length a)"
proof (induction a)
  case Nil
  have "prefix sep (sep @ b)" by simp
  then show ?case by (cases "sep @ b") simp_all
next
  case (Cons c a)
  have no: "\<not> prefix sep (c # a @ sep)"
    using Cons.prems by (auto simp: clean_before_def)
  then have "\<not> prefix sep (c # a @ sep @ b)"
    using prefix_length_prefix[of sep "c # a @ sep @ b" "c # a @ sep"]
    by (auto simp: prefix_def)
  moreover have "clean_before sep a"
    using Cons.prems no by (auto simp: clean_before_def)
  ultimately show ?case using Cons.IH by simp
qed

lemma last_index_append_clean:
  "clean_after sep b \<Longrightarrow> last_index (a @ sep @ b) sep = Some (length a)"
  using last_index_append_Some[of "sep @ b" sep 0 a] by (simp add: clean_after_def)

lemma clean_before_char [simp]: "clean_before [c] a \<longleftrightarrow> c \<notin> set a"
  by (induction a) (auto simp: clean_before_def)

lemma clean_after_char [simp]: "clean_after [c] b \<longleftrightarrow> c \<notin> set b"
  using last_index_None_iff[of b "[c]"]
  by (auto simp: clean_after_def split: option.splits)

lemma cut_clean [cutting]: "clean_before sep a \<Longrightarrow> cut (a @ sep @ b) sep = (a, b, True)"
  by (simp add: cut_def str_index_append_clean)

lemma cut_char [cutting]: "c \<notin> set a \<Longrightarrow> cut (a @ c # b) [c] = (a, b, True)"
  using cut_clean[of "[c]" a b] by simp

lemma cut_char_missing [cutting]: "c \<notin> set a \<Longrightarrow> cut a [c] = (a, [], False)"
proof -
  assume "c \<notin> set a"
  then have "str_index a [c] = None" by (simp add: str_index_None_iff)
  then show ?thesis by (simp add: cut_def)
qed

lemma cut_TrueD: "cut s sep = (a, b, True) \<Longrightarrow> s = a @ sep @ b"
  using str_index_split[of s sep] by (auto simp: cut_def split: option.splits)

lemma str_index_char_before: "str_index s [c] = Some i \<Longrightarrow> c \<notin> set (take i s)"
proof (induction s arbitrary: i)
  case (Cons d s)
  then show ?case by (auto split: if_splits)
qed simp

lemma cut_char_True_iff: "cut s [c] = (a, b, True) \<longleftrightarrow> s = a @ c # b \<and> c \<notin> set a"
proof
  assume h: "cut s [c] = (a, b, True)"
  then have "c \<notin> set a"
    by (auto simp: cut_def dest: str_index_char_before split: option.splits)
  with cut_TrueD[OF h] show "s = a @ c # b \<and> c \<notin> set a" by simp
next
  assume "s = a @ c # b \<and> c \<notin> set a"
  then show "cut s [c] = (a, b, True)" by (simp add: cut_char)
qed

section \<open>Splitting and joining\<close>

text \<open>\<open>strings.Split\<close> with a separator that is not empty, and \<open>strings.Join\<close>.\<close>

function split_on :: "string \<Rightarrow> string \<Rightarrow> string list" where
  "split_on s sep =
     (case str_index s sep of
        None \<Rightarrow> [s]
      | Some i \<Rightarrow> if sep = [] then [s]
                  else take i s # split_on (drop (i + length sep) s) sep)"
  by pat_completeness auto
termination
proof (relation "measure (\<lambda>(s, sep). length s)")
  fix s sep :: string and i
  assume "str_index s sep = Some i" "sep \<noteq> []"
  then have "i + length sep \<le> length s" "0 < length sep" by (auto dest: str_index_length)
  then have "length s - (i + length sep) < length s" by linarith
  then show "((drop (i + length sep) s, sep), s, sep) \<in> measure (\<lambda>(s, sep). length s)"
    by simp
qed simp

declare split_on.simps [simp del]

lemma split_on_nonempty [simp]: "split_on s sep \<noteq> []"
  by (subst split_on.simps) (simp split: option.split)

fun join :: "string \<Rightarrow> string list \<Rightarrow> string" where
  "join sep [] = []"
| "join sep [x] = x"
| "join sep (x # y # xs) = x @ sep @ join sep (y # xs)"

lemma join_Cons: "xs \<noteq> [] \<Longrightarrow> join sep (x # xs) = x @ sep @ join sep xs"
  by (cases xs) simp_all

lemma join_append:
  "xs \<noteq> [] \<Longrightarrow> ys \<noteq> [] \<Longrightarrow> join sep (xs @ ys) = join sep xs @ sep @ join sep ys"
proof (induction xs)
  case (Cons x xs)
  then show ?case by (cases xs) (auto simp: join_Cons)
qed simp

lemma split_on_missing: "sep \<noteq> [] \<Longrightarrow> \<not> sublist sep s \<Longrightarrow> split_on s sep = [s]"
  by (subst split_on.simps) (simp add: str_index_None_iff[THEN iffD2])

lemma split_on_clean:
  "sep \<noteq> [] \<Longrightarrow> clean_before sep a \<Longrightarrow> split_on (a @ sep @ b) sep = a # split_on b sep"
  by (subst split_on.simps) (simp add: str_index_append_clean)

lemma split_on_join:
  assumes "sep \<noteq> []" and "xs \<noteq> []"
    and "\<forall>x \<in> set (butlast xs). clean_before sep x" and "\<not> sublist sep (last xs)"
  shows "split_on (join sep xs) sep = xs"
  using assms(2-)
proof (induction xs)
  case (Cons x xs)
  show ?case
  proof (cases "xs = []")
    case True
    with Cons.prems assms(1) show ?thesis by (simp add: split_on_missing)
  next
    case False
    with Cons show ?thesis by (simp add: join_Cons split_on_clean[OF assms(1)])
  qed
qed simp

lemma split_on_join_char:
  assumes "xs \<noteq> []" and "\<forall>x \<in> set xs. c \<notin> set x"
  shows "split_on (join [c] xs) [c] = xs"
  using assms by (intro split_on_join) (auto dest: in_set_butlastD)

lemma join_split_on: "sep \<noteq> [] \<Longrightarrow> join sep (split_on s sep) = s"
proof (induction s sep rule: split_on.induct)
  case (1 s sep)
  show ?case
  proof (cases "str_index s sep")
    case None
    then show ?thesis by (subst split_on.simps) simp
  next
    case (Some i)
    have "join sep (split_on (drop (i + length sep) s) sep) = drop (i + length sep) s"
      using 1 Some by simp
    moreover have "split_on (drop (i + length sep) s) sep \<noteq> []"
      by (subst split_on.simps) (simp split: option.split)
    ultimately show ?thesis
      using 1(2) Some str_index_split[OF Some]
      by (subst split_on.simps) (simp add: join_Cons)
  qed
qed

section \<open>Replacing and trimming single bytes\<close>

text \<open>\<open>strings.ReplaceAll\<close> of one byte, and trimming with a test on bytes.\<close>

definition replace_char :: "char \<Rightarrow> string \<Rightarrow> string \<Rightarrow> string" where
  "replace_char c by_text s = concat (map (\<lambda>d. if d = c then by_text else [d]) s)"

definition trim_right_bytes :: "(char \<Rightarrow> bool) \<Rightarrow> string \<Rightarrow> string" where
  "trim_right_bytes out s = rev (dropWhile out (rev s))"

lemma replace_char_simps [simp]:
  "replace_char c t [] = []"
  "replace_char c t (d # s) = (if d = c then t else [d]) @ replace_char c t s"
  "replace_char c t (a @ b) = replace_char c t a @ replace_char c t b"
  by (simp_all add: replace_char_def)

end
