(* ===== verification/Identifier.thy ===== *)
theory Identifier
  imports Go_Strings
begin

text \<open>
  \<open>internal/contract/identifier.go\<close>: the labels a record and its log are written with
  (\<open>r7\<close>, \<open>j4.2\<close>, \<open>t31\<close>, \<open>C1\<close>, \<open>D1\<close>, \<open>F1\<close>), their
  readers, and the key a record's events are logged under. The locale \<open>label_scheme\<close> is the
  contract between a writer of labels and their reader: the reader takes exactly what the writer
  writes. The record's lists rely on nothing else.
\<close>

section \<open>Kinds of records\<close>

text \<open>\<open>RecordKind\<close> is a Go string with two known values.\<close>

type_synonym record_kind = string

definition record_task :: record_kind where "record_task = ''task''"
definition record_job :: record_kind where "record_job = ''job''"

lemma record_kinds_differ [simp]: "record_task \<noteq> record_job" "record_job \<noteq> record_task"
  by (simp_all add: record_task_def record_job_def)

section \<open>Reading a positive number\<close>

text \<open>
  The Go loop ranges over the runes of the text; every rune outside ASCII is above \<open>'9'\<close>, as
  every byte of one is, so the test on bytes answers the same.
\<close>

definition positive_number :: "string \<Rightarrow> bool" where
  "positive_number s \<longleftrightarrow> s \<noteq> [] \<and> hd s \<noteq> CHR ''0'' \<and> list_all is_digit s"

definition positive_number_value :: "string \<Rightarrow> int option" where
  "positive_number_value s = (if positive_number s then atoi s else None)"

definition parse_numbered_id :: "string \<Rightarrow> string \<Rightarrow> int option" where
  "parse_numbered_id s p = (case cut_prefix s p of None \<Rightarrow> None | Some r \<Rightarrow> positive_number_value r)"

lemma positive_number_itoa [simp]: "1 \<le> n \<Longrightarrow> positive_number (itoa n)"
  using hd_nat_digits[of "nat n"] by (simp add: positive_number_def itoa_def)

lemma positive_number_value_itoa [simp]:
  "1 \<le> n \<Longrightarrow> n \<le> max_int \<Longrightarrow> positive_number_value (itoa n) = Some n"
  using atoi_itoa[of n] by (simp add: positive_number_value_def max_int_def)

lemma positive_number_digits:
  "positive_number s \<Longrightarrow> itoa (int (digits_value s)) = s \<and> 0 < digits_value s"
  using nat_digits_digits_value[of s] by (simp add: positive_number_def itoa_def)

lemma atoi_positive_number:
  "positive_number s \<Longrightarrow>
     atoi s = (if int (digits_value s) \<le> max_int then Some (int (digits_value s)) else None)"
  by (cases s) (auto simp: positive_number_def atoi_def Let_def max_int_def)

lemma positive_number_value_Some:
  assumes "positive_number_value s = Some n"
  shows "1 \<le> n" "n \<le> max_int" "itoa n = s"
  using assms positive_number_digits[of s] atoi_positive_number[of s]
  by (auto simp: positive_number_value_def split: if_splits)

section \<open>The labels\<close>

definition result_id :: "int \<Rightarrow> string" where "result_id n = ''r'' @ itoa n"

definition parse_result_id :: "string \<Rightarrow> int option" where
  "parse_result_id s = parse_numbered_id s ''r''"

definition report_id :: "string \<Rightarrow> int \<Rightarrow> string" where
  "report_id job n = ''j'' @ job @ ''.'' @ itoa n"

definition parse_report_id :: "string \<Rightarrow> (string \<times> int) option" where
  "parse_report_id s =
     (case cut_prefix s ''j'' of
        None \<Rightarrow> None
      | Some rest \<Rightarrow>
          (case cut rest ''.'' of
             (job, number_text, split) \<Rightarrow>
               if \<not> split \<or> contains_text number_text ''.'' then None
               else if \<not> positive_number job then None
               else (case positive_number_value number_text of
                       None \<Rightarrow> None | Some number \<Rightarrow> Some (job, number))))"

definition task_id :: "int \<Rightarrow> string" where "task_id n = ''t'' @ itoa n"

definition parse_task_id :: "string \<Rightarrow> int option" where
  "parse_task_id s = parse_numbered_id s ''t''"

definition correction_id :: "int \<Rightarrow> string" where "correction_id n = ''C'' @ itoa n"
definition decision_id :: "int \<Rightarrow> string" where "decision_id n = ''D'' @ itoa n"
definition failure_id :: "int \<Rightarrow> string" where "failure_id n = ''F'' @ itoa n"
definition element_ref :: "int \<Rightarrow> string" where "element_ref n = ''e'' @ itoa n"

definition record_log_key :: "record_kind \<Rightarrow> string \<Rightarrow> string" where
  "record_log_key kind i = (if kind = record_job then ''j'' @ i else i)"

section \<open>Writers and readers of labels\<close>

locale label_scheme =
  fixes ok :: "'k \<Rightarrow> bool"
    and mk :: "'k \<Rightarrow> int \<Rightarrow> string"
    and rd :: "'k \<Rightarrow> string \<Rightarrow> int option"
  assumes rd_mk: "ok k \<Longrightarrow> 1 \<le> n \<Longrightarrow> n \<le> max_int \<Longrightarrow> rd k (mk k n) = Some n"
    and mk_rd: "ok k \<Longrightarrow> rd k s = Some n \<Longrightarrow> 1 \<le> n \<and> n \<le> max_int \<and> mk k n = s"
begin

lemma rd_iff: "ok k \<Longrightarrow> rd k s = Some n \<longleftrightarrow> 1 \<le> n \<and> n \<le> max_int \<and> s = mk k n"
  using rd_mk mk_rd by metis

lemma mk_inj:
  "ok k \<Longrightarrow> 1 \<le> n \<Longrightarrow> n \<le> max_int \<Longrightarrow> 1 \<le> m \<Longrightarrow> m \<le> max_int \<Longrightarrow>
     mk k n = mk k m \<longleftrightarrow> n = m"
  using rd_mk by (metis option.inject)

lemma rd_inj: "ok k \<Longrightarrow> rd k s = Some n \<Longrightarrow> rd k t = Some n \<Longrightarrow> s = t"
  using rd_iff by simp

text \<open>A label counted up from the highest one of a list is not on the list.\<close>

lemma next_is_fresh:
  assumes "ok k" and "\<And>t. t \<in> ts \<Longrightarrow> (case rd k t of None \<Rightarrow> True | Some m \<Rightarrow> m \<le> n)"
    and "0 \<le> n" "n < max_int"
  shows "mk k (n + 1) \<notin> ts"
proof
  assume "mk k (n + 1) \<in> ts"
  with assms(2) have "case rd k (mk k (n + 1)) of None \<Rightarrow> True | Some m \<Rightarrow> m \<le> n" by blast
  with rd_mk[OF assms(1), of "n + 1"] assms(3,4) show False by simp
qed

end

lemma parse_numbered_id_write:
  "1 \<le> n \<Longrightarrow> n \<le> max_int \<Longrightarrow> parse_numbered_id (p @ itoa n) p = Some n"
  by (simp add: parse_numbered_id_def)

lemma parse_numbered_id_read:
  "parse_numbered_id s p = Some n \<Longrightarrow> 1 \<le> n \<and> n \<le> max_int \<and> p @ itoa n = s"
  by (auto simp: parse_numbered_id_def cut_prefix_Some_iff positive_number_value_Some
      split: option.splits)

interpretation result_label: label_scheme "\<lambda>_::unit. True" "\<lambda>_. result_id" "\<lambda>_. parse_result_id"
  by unfold_locales
    (simp_all only: result_id_def parse_result_id_def parse_numbered_id_write parse_numbered_id_read)

interpretation task_label: label_scheme "\<lambda>_::unit. True" "\<lambda>_. task_id" "\<lambda>_. parse_task_id"
  by unfold_locales
    (simp_all only: task_id_def parse_task_id_def parse_numbered_id_write parse_numbered_id_read)

lemma parse_report_id_write:
  assumes "positive_number job" "1 \<le> n" "n \<le> max_int"
  shows "parse_report_id (report_id job n) = Some (job, n)"
proof -
  have dot: "CHR ''.'' \<notin> set job"
    using assms(1) by (auto simp: positive_number_def list_all_iff)
  have "CHR ''.'' \<notin> set (itoa n)" using assms(2) by (intro itoa_no_char) simp_all
  then show ?thesis
    using assms cut_char[OF dot, of "itoa n"] by (simp add: parse_report_id_def report_id_def)
qed

lemma parse_report_id_read:
  assumes "parse_report_id s = Some (job, n)"
  shows "positive_number job \<and> 1 \<le> n \<and> n \<le> max_int \<and> report_id job n = s"
proof -
  from assms obtain rest num where r: "s = ''j'' @ rest" and c: "cut rest ''.'' = (job, num, True)"
    and j: "positive_number job" and n: "positive_number_value num = Some n"
    by (auto simp: parse_report_id_def cut_prefix_Some_iff split: option.splits prod.splits if_splits)
  from c have "rest = job @ ''.'' @ num" by (simp add: cut_char_True_iff)
  with r j positive_number_value_Some[OF n] show ?thesis by (simp add: report_id_def)
qed

definition parse_report_of :: "string \<Rightarrow> string \<Rightarrow> int option" where
  "parse_report_of job s =
     (case parse_report_id s of None \<Rightarrow> None | Some (j, n) \<Rightarrow> if j = job then Some n else None)"

interpretation report_label: label_scheme positive_number report_id parse_report_of
proof
  fix k s and n :: int
  show "positive_number k \<Longrightarrow> 1 \<le> n \<Longrightarrow> n \<le> max_int \<Longrightarrow> parse_report_of k (report_id k n) = Some n"
    by (simp add: parse_report_of_def parse_report_id_write)
  show "positive_number k \<Longrightarrow> parse_report_of k s = Some n \<Longrightarrow>
      1 \<le> n \<and> n \<le> max_int \<and> report_id k n = s"
    using parse_report_id_read[of s k n]
    by (auto simp: parse_report_of_def split: option.splits if_splits)
qed

text \<open>A task and a job never share a key of the log, however they are numbered.\<close>

lemma log_keys_apart:
  assumes "positive_number i" "positive_number j" "kind = record_task \<or> kind = record_job"
    "kind' = record_task \<or> kind' = record_job" "record_log_key kind i = record_log_key kind' j"
  shows "kind = kind' \<and> i = j"
proof -
  have "\<not> positive_number (CHR ''j'' # t)" for t
    by (simp add: positive_number_def is_digit_def)
  then show ?thesis using assms by (auto simp: record_log_key_def)
qed

end
