(* ===== verification/Record_Types.thy ===== *)
theory Record_Types
  imports Identifier
begin

text \<open>
  \<open>internal/contract/record.go\<close>: the four parts of a task's or a job's record, field by field,
  and \<open>internal/record/errors.go\<close>: the named rules a refusal can break. A Go error is kept as
  what a caller can ask of it: the rule \<open>errors.Is\<close> finds in it, and the line of the text a
  reader stopped at; the words of the message are not modelled.

  A Go slice is a list. The difference between a nil and an empty slice is kept where the code
  looks at it, in the lists of an update (\<open>Record_Rules\<close>); a record holds nil in place of every
  empty list, because each writer passes it through \<open>keepOrDrop\<close> or appends to it.
\<close>

section \<open>The record\<close>

type_synonym record_status = string

definition status_running :: record_status where "status_running = ''running''"
definition status_waiting :: record_status where "status_waiting = ''waiting''"
definition status_stopped :: record_status where "status_stopped = ''stopped''"
definition status_failed :: record_status where "status_failed = ''failed''"
definition status_done :: record_status where "status_done = ''done''"

record cost_line =
  input_tokens :: int
  cached_input_tokens :: int
  output_tokens :: int

record header =
  h_kind :: record_kind
  h_id :: string
  h_status :: record_status
  h_origin :: string
  h_rounds_left :: int
  h_no_round_budget :: bool
  h_minutes_left :: int
  h_no_time_budget :: bool
  h_cost :: cost_line
  h_tasks_done :: int
  h_tasks_total :: int
  h_next_due :: string

record done_line =
  dl_text :: string
  dl_done :: bool
  dl_result :: string
  dl_reply :: string

record goal =
  g_ask :: string
  g_name :: string
  g_why :: string
  g_done_when :: "done_line list"

record correction =
  co_id :: string
  co_text :: string

record rules =
  r_corrections :: "correction list"
  r_stop_when :: "string list"

record plan_step =
  ps_number :: int
  ps_text :: string
  ps_done :: bool
  ps_result :: string

record job_task =
  jt_id :: string
  jt_text :: string
  jt_done :: bool
  jt_report :: string
  jt_due :: string

record result_line =
  rl_id :: string
  rl_summary :: string
  rl_pinned :: bool

record work =
  w_situation :: "string list"
  w_plan :: "plan_step list"
  w_tasks :: "job_task list"
  w_results :: "result_line list"

record decision =
  de_id :: string
  de_text :: string
  de_reason :: string

record failure =
  fa_id :: string
  fa_text :: string
  fa_cause :: string

record lessons =
  l_decisions :: "decision list"
  l_failures :: "failure list"

record record_of_work =
  r_header :: header
  r_goal :: goal
  r_rules :: rules
  r_work :: work
  r_lessons :: lessons

text \<open>Go's zero values, which a reader and a new record start from.\<close>

definition no_cost :: cost_line where
  "no_cost = \<lparr>input_tokens = 0, cached_input_tokens = 0, output_tokens = 0\<rparr>"

definition empty_header :: header where
  "empty_header = \<lparr>h_kind = [], h_id = [], h_status = [], h_origin = [], h_rounds_left = 0,
     h_no_round_budget = False, h_minutes_left = 0, h_no_time_budget = False, h_cost = no_cost,
     h_tasks_done = 0, h_tasks_total = 0, h_next_due = []\<rparr>"

definition empty_goal :: goal where
  "empty_goal = \<lparr>g_ask = [], g_name = [], g_why = [], g_done_when = []\<rparr>"

definition empty_rules :: rules where
  "empty_rules = \<lparr>r_corrections = [], r_stop_when = []\<rparr>"

definition empty_work :: work where
  "empty_work = \<lparr>w_situation = [], w_plan = [], w_tasks = [], w_results = []\<rparr>"

definition empty_lessons :: lessons where
  "empty_lessons = \<lparr>l_decisions = [], l_failures = []\<rparr>"

definition empty_record :: record_of_work where
  "empty_record = \<lparr>r_header = empty_header, r_goal = empty_goal, r_rules = empty_rules,
     r_work = empty_work, r_lessons = empty_lessons\<rparr>"

lemmas empty_defs = empty_record_def empty_header_def empty_goal_def empty_rules_def
  empty_work_def empty_lessons_def no_cost_def

text \<open>\<open>knownStatus\<close> of \<open>internal/record/parse.go\<close>.\<close>

definition known_status :: "record_status \<Rightarrow> bool" where
  "known_status s \<longleftrightarrow> s = status_running \<or> s = status_waiting \<or> s = status_stopped
     \<or> s = status_failed \<or> s = status_done"

section \<open>The rules a refusal names\<close>

datatype rule =
    ErrDoneLineNeedsProof
  | ErrPlanStepNeedsResult
  | ErrJobTaskNeedsReport
  | ErrDoneListTooLong
  | ErrPlanTooLong
  | ErrDecisionNeedsReason
  | ErrFailureNeedsCause
  | ErrTasksOutOfOrder
  | ErrIdentifiersOutOfOrder
  | ErrCorrectionIsFixed
  | ErrWrongKind
  | ErrWhyIsSet
  | ErrNameIsSet
  | ErrFinishedTaskRemoved
  | ErrBeforeTheFirstCheckpoint
  | ErrAskIsElsewhere
  | ErrNoSuchResult
  | ErrStepAlreadyDone
  | ErrFailureAlreadyWritten
  | ErrRecordTooLarge

text \<open>
  \<open>Unnamed\<close> is an error with no rule behind it, \<open>Breaks\<close> wraps a rule, \<open>AtLine\<close>
  is an error a reader prefixes with the line it stopped at, \<open>LogRefused\<close> an error of the event
  log. \<open>wraps\<close> is \<open>errors.Is\<close>.
\<close>

datatype record_error = Unnamed | Breaks rule | AtLine nat record_error | LogRefused

fun wraps :: "record_error \<Rightarrow> rule \<Rightarrow> bool" where
  "wraps (Breaks r) q \<longleftrightarrow> r = q"
| "wraps (AtLine n e) q \<longleftrightarrow> wraps e q"
| "wraps _ q \<longleftrightarrow> False"

end
