(* ===== verification/Record_Text.thy ===== *)
theory Record_Text
  imports Record_Types
begin

text \<open>
  \<open>internal/record/text.go\<close> and the readers of single words of \<open>parseitems.go\<close>: folding
  a text onto one line and back, quoting the user's own words, counts and counts in thousands. The
  lemmas show that each printer here is undone by its reader, and that what is printed carries no
  line break, which is what lets a record hold one item per line.
\<close>

section \<open>Folding\<close>

text \<open>\<open>foldText\<close>: three replacements, in the order the code makes them.\<close>

abbreviation backslash :: char where "backslash \<equiv> CHR 0x5C"
abbreviation newline :: char where "newline \<equiv> CHR 0x0A"
abbreviation return :: char where "return \<equiv> CHR 0x0D"
abbreviation quote :: char where "quote \<equiv> CHR 0x22"

definition fold_text :: "string \<Rightarrow> string" where
  "fold_text s =
     replace_char return [backslash, CHR ''r'']
       (replace_char newline [backslash, CHR ''n'']
         (replace_char backslash [backslash, backslash] s))"

text \<open>\<open>unfoldText\<close>: a backslash in front of anything else stays, with what follows it.\<close>

fun unfold_text :: "string \<Rightarrow> string" where
  "unfold_text [] = []"
| "unfold_text [c] = [c]"
| "unfold_text (c # d # s) =
     (if c \<noteq> backslash then c # unfold_text (d # s)
      else (if d = backslash then [backslash]
            else if d = CHR ''n'' then [newline]
            else if d = CHR ''r'' then [return]
            else [backslash, d]) @ unfold_text s)"

lemma unfold_text_Cons: "c \<noteq> backslash \<Longrightarrow> unfold_text (c # s) = c # unfold_text s"
  by (cases s) simp_all

lemma fold_text_simps [simp]:
  "fold_text [] = []"
  "fold_text (c # s) =
     (if c = backslash then [backslash, backslash]
      else if c = newline then [backslash, CHR ''n'']
      else if c = return then [backslash, CHR ''r'']
      else [c]) @ fold_text s"
  "fold_text (a @ b) = fold_text a @ fold_text b"
  by (simp_all add: fold_text_def)

lemma unfold_fold_text [simp]: "unfold_text (fold_text s) = s"
  by (induction s) (simp_all add: unfold_text_Cons)

lemma fold_text_eq_Nil [simp]: "fold_text s = [] \<longleftrightarrow> s = []"
  by (cases s) simp_all

lemma fold_text_inj [simp]: "fold_text s = fold_text t \<longleftrightarrow> s = t"
  by (metis unfold_fold_text)

lemma fold_text_one_line [simp]: "newline \<notin> set (fold_text s)" "return \<notin> set (fold_text s)"
  by (induction s) simp_all

definition plain_text :: "string \<Rightarrow> bool" where
  "plain_text s \<longleftrightarrow> backslash \<notin> set s \<and> newline \<notin> set s \<and> return \<notin> set s"

lemma fold_text_plain: "plain_text s \<Longrightarrow> fold_text s = s"
  by (induction s) (auto simp: plain_text_def)

lemma unfold_text_plain: "plain_text s \<Longrightarrow> unfold_text s = s"
  using unfold_fold_text[of s] by (simp add: fold_text_plain)

lemma plain_text_simps [simp]:
  "plain_text []"
  "plain_text (c # s) \<longleftrightarrow> c \<noteq> backslash \<and> c \<noteq> newline \<and> c \<noteq> return \<and> plain_text s"
  "plain_text (a @ b) \<longleftrightarrow> plain_text a \<and> plain_text b"
  by (auto simp: plain_text_def)

lemma plain_itoa [simp]: "0 \<le> n \<Longrightarrow> plain_text (itoa n)"
  unfolding plain_text_def
  using itoa_no_char[of backslash n] itoa_no_char[of newline n] itoa_no_char[of return n]
  by (simp add: is_digit_def)

section \<open>Quoting\<close>

definition quoted :: "string \<Rightarrow> string" where
  "quoted s = [quote] @ fold_text s @ [quote]"

text \<open>\<open>unquote\<close>: the words, when the quotes were there.\<close>

definition unquote :: "string \<Rightarrow> string option" where
  "unquote s =
     (if length s < 2 \<or> \<not> prefix [quote] s \<or> \<not> suffix [quote] s then None
      else Some (unfold_text (take (length s - 2) (drop 1 s))))"

lemma unquote_quoted [simp]: "unquote (quoted s) = Some s"
  by (simp add: unquote_def quoted_def suffix_def)

lemma quoted_one_line [simp]: "newline \<notin> set (quoted s)"
  by (simp add: quoted_def)

section \<open>Counts\<close>

text \<open>\<open>readCount\<close> of \<open>parseitems.go\<close>.\<close>

definition read_count :: "string \<Rightarrow> int option" where
  "read_count s =
     (if s = [] \<or> hd s = CHR ''0'' then None
      else if \<not> list_all is_digit s then None
      else atoi s)"

lemma read_count_eq: "read_count s = positive_number_value s"
  by (auto simp: read_count_def positive_number_value_def positive_number_def)

text \<open>\<open>thousands\<close> of \<open>print.go\<close> and \<open>readThousands\<close> of \<open>text.go\<close>.\<close>

definition thousands :: "int \<Rightarrow> string" where
  "thousands tokens =
     (let t = (if tokens < 0 then 0 else tokens)
      in itoa (t div 1000) @ ''.'' @ itoa (t mod 1000 div 100) @ ''k'')"

definition read_thousands :: "string \<Rightarrow> string \<Rightarrow> int option" where
  "read_thousands s after =
     (case cut_suffix s after of
        None \<Rightarrow> None
      | Some number \<Rightarrow>
          (case cut_suffix number ''k'' of
             None \<Rightarrow> None
           | Some digits \<Rightarrow>
               (case cut digits ''.'' of
                  (whole, tenth, split) \<Rightarrow>
                    if \<not> split \<or> length tenth \<noteq> 1 then None
                    else
                      (case (if whole = ''0'' then Some 0 else read_count whole,
                             if tenth = ''0'' then Some 0 else read_count tenth) of
                         (Some w, Some t) \<Rightarrow> Some (wrap64 (w * 1000 + t * 100))
                       | _ \<Rightarrow> None))))"

lemma itoa_0 [simp]: "itoa 0 = ''0''"
  by (simp add: itoa_def nat_digits.simps digit_char_0)

lemma itoa_digit: "0 \<le> n \<Longrightarrow> n < 10 \<Longrightarrow> itoa n = [digit_char (nat n)]"
  by (simp add: itoa_def nat_digits.simps)

lemma itoa_eq_0: "0 \<le> n \<Longrightarrow> itoa n = ''0'' \<longleftrightarrow> n = 0"
proof
  assume n: "0 \<le> n" "itoa n = ''0''"
  have "digits_value (nat_digits (nat n)) = digits_value ''0''" using n by (simp add: itoa_def)
  moreover have "digits_value ''0'' = 0" by (simp add: digits_value_def digit_value_def)
  ultimately have "nat n = 0" by (simp only: digits_value_nat_digits)
  then show "n = 0" using n(1) by simp
qed simp

lemma read_count_or_zero:
  "0 \<le> n \<Longrightarrow> n \<le> max_int \<Longrightarrow>
     (if itoa n = ''0'' then Some 0 else read_count (itoa n)) = Some n"
  by (cases "n = 0") (simp_all add: itoa_eq_0 read_count_eq)

text \<open>The cost line keeps whole hundreds of tokens, and those come back as they were.\<close>

lemma read_thousands_thousands:
  assumes "0 \<le> t" "t \<le> max_int"
  shows "read_thousands (thousands t @ after) after = Some (t div 100 * 100)"
proof -
  have dot: "CHR ''.'' \<notin> set (itoa (t div 1000))" using assms by (intro itoa_no_char) auto
  have parts: "0 \<le> t div 1000" "t div 1000 \<le> max_int" "0 \<le> t mod 1000 div 100"
    "t mod 1000 div 100 < 10" "t mod 1000 div 100 \<le> max_int"
  proof -
    have m: "0 \<le> t mod 1000" "t mod 1000 < 1000" by simp_all
    show "0 \<le> t div 1000" using assms(1) by (simp add: pos_imp_zdiv_nonneg_iff)
    show "t div 1000 \<le> max_int" using zdiv_mono2[OF assms(1), of 1 1000] assms(2) by simp
    show "0 \<le> t mod 1000 div 100" using m(1) by (simp add: pos_imp_zdiv_nonneg_iff)
    have "t mod 1000 div 100 * 100 \<le> t mod 1000"
      using minus_mod_eq_div_mult[of "t mod 1000" 100, symmetric] by simp
    then show less: "t mod 1000 div 100 < 10" using m by linarith
    show "t mod 1000 div 100 \<le> max_int" using less unfolding max_int_def by linarith
  qed
  have len: "length (itoa (t mod 1000 div 100)) = 1" using parts by (simp add: itoa_digit)
  have "t div 1000 = t div 100 div 10" using zdiv_zmult2_eq[of 10 t 100] by simp
  moreover have "t mod 1000 div 100 = t div 100 mod 10"
    using zmod_zmult2_eq[of 10 t 100] by (simp add: pos_mod_bound zdiv_eq_0_iff)
  ultimately have sum: "t div 1000 * 1000 + t mod 1000 div 100 * 100 = t div 100 * 100"
    using div_mult_mod_eq[of "t div 100" 10] by linarith
  have "t div 100 * 100 \<le> t" using minus_mod_eq_div_mult[of t 100, symmetric] by simp
  then have "0 \<le> t div 100 * 100" "t div 100 * 100 \<le> max_int"
    using assms by (simp_all add: pos_imp_zdiv_nonneg_iff)
  then have wrap: "wrap64 (t div 1000 * 1000 + t mod 1000 div 100 * 100) = t div 100 * 100"
    unfolding sum by (rule wrap64_small)
  have "thousands t @ after = ((itoa (t div 1000) @ ''.'' @ itoa (t mod 1000 div 100)) @ ''k'') @ after"
    using assms by (simp add: thousands_def Let_def)
  then show ?thesis
    unfolding read_thousands_def
    using len wrap read_count_or_zero[OF parts(1,2)] read_count_or_zero[OF parts(3,5)]
      cut_char[OF dot, of "itoa (t mod 1000 div 100)"]
    by (simp only: cut_suffix_append option.case) simp
qed

text \<open>\<open>roundToHundred\<close> of \<open>harness.go\<close>.\<close>

definition go_div :: "int \<Rightarrow> int \<Rightarrow> int" where
  "go_div a b = sgn a * sgn b * (\<bar>a\<bar> div \<bar>b\<bar>)"

definition round_to_hundred :: "int \<Rightarrow> int" where
  "round_to_hundred tokens = (if tokens < 0 then 0 else go_div (wrap64 (tokens + 50)) 100 * 100)"

lemma go_div_nonneg: "0 \<le> a \<Longrightarrow> 0 < b \<Longrightarrow> go_div a b = a div b"
  by (cases "a = 0") (simp_all add: go_div_def)

lemma round_to_hundred_hundreds:
  assumes "tokens \<le> max_int - 50"
  shows "0 \<le> round_to_hundred tokens \<and> round_to_hundred tokens \<le> max_int
    \<and> round_to_hundred tokens div 100 * 100 = round_to_hundred tokens"
proof (cases "tokens < 0")
  case False
  then have "wrap64 (tokens + 50) = tokens + 50" using assms by (intro wrap64_small) auto
  then have "round_to_hundred tokens = (tokens + 50) div 100 * 100"
    using False by (simp add: round_to_hundred_def go_div_nonneg)
  moreover have "(tokens + 50) div 100 * 100 \<le> tokens + 50" by presburger
  ultimately show ?thesis using False assms by (simp add: pos_imp_zdiv_nonneg_iff)
qed (simp add: round_to_hundred_def max_int_def)

end
