(* ===== verification/Go_Runes.thy ===== *)
theory Go_Runes
  imports Go_Strings
begin

text \<open>
  UTF-8 the way Go reads it. Ranging over a string, and converting it to \<open>[]rune\<close>, reads one
  code point at a time; a byte that starts no well-formed sequence is read alone, as U+FFFD.
  \<open>rune_chunks\<close> is that reading: each rune with the bytes it was read from. The functions of
  \<open>strings\<close> that look at runes (\<open>TrimSpace\<close>, \<open>Fields\<close>, \<open>FieldsFunc\<close>) are
  built from it.
\<close>

abbreviation byte :: "char \<Rightarrow> nat" where "byte c \<equiv> of_char c"

definition replacement :: nat where "replacement = 65533"

definition is_cont :: "char \<Rightarrow> bool" where
  "is_cont c \<longleftrightarrow> 128 \<le> byte c \<and> byte c \<le> 191"

text \<open>\<open>utf8.DecodeRuneInString\<close>: the first code point and the number of bytes it took.\<close>

definition three_follows :: "nat \<Rightarrow> char \<Rightarrow> char \<Rightarrow> bool" where
  "three_follows b c1 c2 \<longleftrightarrow>
     is_cont c1 \<and> is_cont c2 \<and> (b = 224 \<longrightarrow> 160 \<le> byte c1) \<and> (b = 237 \<longrightarrow> byte c1 \<le> 159)"

definition four_follows :: "nat \<Rightarrow> char \<Rightarrow> char \<Rightarrow> char \<Rightarrow> bool" where
  "four_follows b c1 c2 c3 \<longleftrightarrow>
     is_cont c1 \<and> is_cont c2 \<and> is_cont c3
     \<and> (b = 240 \<longrightarrow> 144 \<le> byte c1) \<and> (b = 244 \<longrightarrow> byte c1 \<le> 143)"

definition decode_two :: "nat \<Rightarrow> string \<Rightarrow> nat \<times> nat" where
  "decode_two b s = (case s of
      c1 # _ \<Rightarrow> if is_cont c1 then ((b - 192) * 64 + (byte c1 - 128), 2) else (replacement, 1)
    | [] \<Rightarrow> (replacement, 1))"

definition decode_three :: "nat \<Rightarrow> string \<Rightarrow> nat \<times> nat" where
  "decode_three b s = (case s of
      c1 # c2 # _ \<Rightarrow>
        if three_follows b c1 c2
        then ((b - 224) * 4096 + (byte c1 - 128) * 64 + (byte c2 - 128), 3) else (replacement, 1)
    | _ \<Rightarrow> (replacement, 1))"

definition decode_four :: "nat \<Rightarrow> string \<Rightarrow> nat \<times> nat" where
  "decode_four b s = (case s of
      c1 # c2 # c3 # _ \<Rightarrow>
        if four_follows b c1 c2 c3
        then ((b - 240) * 262144 + (byte c1 - 128) * 4096 + (byte c2 - 128) * 64 + (byte c3 - 128), 4)
        else (replacement, 1)
    | _ \<Rightarrow> (replacement, 1))"

definition decode_rune :: "char \<Rightarrow> string \<Rightarrow> nat \<times> nat" where
  "decode_rune c s =
     (let b = byte c in
      if b < 128 then (b, 1)
      else if 194 \<le> b \<and> b \<le> 223 then decode_two b s
      else if 224 \<le> b \<and> b \<le> 239 then decode_three b s
      else if 240 \<le> b \<and> b \<le> 244 then decode_four b s
      else (replacement, 1))"

lemmas decode_defs = decode_rune_def decode_two_def decode_three_def decode_four_def

lemma decode_rune_ascii [simp]: "byte c < 128 \<Longrightarrow> decode_rune c s = (byte c, 1)"
  by (simp add: decode_rune_def)

lemma decode_width:
  "1 \<le> snd (decode_rune c s) \<and> snd (decode_rune c s) \<le> Suc (length s)"
  by (auto simp: decode_defs Let_def split: list.splits)

function rune_chunks :: "string \<Rightarrow> (nat \<times> string) list" where
  "rune_chunks [] = []"
| "rune_chunks (c # s) =
     (fst (decode_rune c s), take (snd (decode_rune c s)) (c # s))
       # rune_chunks (drop (snd (decode_rune c s)) (c # s))"
  by pat_completeness auto
termination
proof (relation "measure length")
  fix c :: char and s
  show "(drop (snd (decode_rune c s)) (c # s), c # s) \<in> measure length"
    using decode_width[of c s] by simp
qed simp

declare rune_chunks.simps(2) [simp del]

definition runes :: "string \<Rightarrow> nat list" where
  "runes s = map fst (rune_chunks s)"

definition chunk_text :: "(nat \<times> string) list \<Rightarrow> string" where
  "chunk_text cs = concat (map snd cs)"

lemma chunk_text_simps [simp]:
  "chunk_text [] = []"
  "chunk_text (p # cs) = snd p @ chunk_text cs"
  "chunk_text (cs @ ds) = chunk_text cs @ chunk_text ds"
  by (simp_all add: chunk_text_def)

lemma rune_chunks_ascii [simp]:
  "byte c < 128 \<Longrightarrow> rune_chunks (c # s) = (byte c, [c]) # rune_chunks s"
  by (simp add: rune_chunks.simps)

text \<open>For evaluation: a byte of ASCII is read without looking at what follows it.\<close>

lemma rune_chunks_code [code]:
  "rune_chunks [] = []"
  "rune_chunks (c # s) =
     (if byte c < 128 then (byte c, [c]) # rune_chunks s
      else (case decode_rune c s of (r, n) \<Rightarrow> (r, take n (c # s)) # rune_chunks (drop n (c # s))))"
  by (simp_all add: rune_chunks.simps(2) case_prod_unfold)

lemma runes_Nil [simp]: "runes [] = []"
  by (simp add: runes_def)

lemma runes_ascii [simp]: "byte c < 128 \<Longrightarrow> runes (c # s) = byte c # runes s"
  by (simp add: runes_def)

lemma chunk_text_rune_chunks [simp]: "chunk_text (rune_chunks s) = s"
proof (induction s rule: rune_chunks.induct)
  case (2 c s)
  then show ?case by (simp add: rune_chunks.simps)
qed simp

lemma length_runes_le: "length (runes s) \<le> length s"
proof (induction s rule: rune_chunks.induct)
  case (2 c s)
  have "length (drop (snd (decode_rune c s)) (c # s)) \<le> length s"
    using decode_width[of c s] by auto
  then show ?case using le_trans[OF 2] by (simp add: runes_def rune_chunks.simps)
qed simp

text \<open>A chunk is one ASCII byte, which is its own rune, or bytes that are all above 127.\<close>

lemma follows_cont:
  "three_follows b c1 c2 \<Longrightarrow> is_cont c1 \<and> is_cont c2"
  "four_follows b c1 c2 c3 \<Longrightarrow> is_cont c1 \<and> is_cont c2 \<and> is_cont c3"
  by (simp_all add: three_follows_def four_follows_def)

lemma is_cont_high: "is_cont c \<Longrightarrow> 128 \<le> byte c"
  by (simp add: is_cont_def)

lemma three_value:
  assumes "three_follows b c1 c2" "224 \<le> b"
  shows "128 \<le> (b - 224) * 4096 + (byte c1 - 128) * 64 + (byte c2 - 128)"
proof (cases "b = 224")
  case True
  with assms have "160 \<le> byte c1" by (simp add: three_follows_def)
  then have "32 \<le> byte c1 - 128" by linarith
  then show ?thesis by linarith
next
  case False
  with assms have "1 \<le> b - 224" by simp
  then show ?thesis by linarith
qed

lemma four_value:
  assumes "four_follows b c1 c2 c3" "240 \<le> b"
  shows "128 \<le> (b - 240) * 262144 + (byte c1 - 128) * 4096 + (byte c2 - 128) * 64 + (byte c3 - 128)"
proof (cases "b = 240")
  case True
  with assms have "144 \<le> byte c1" by (simp add: four_follows_def)
  then have "16 \<le> byte c1 - 128" by linarith
  then show ?thesis by linarith
next
  case False
  with assms have "1 \<le> b - 240" by simp
  then show ?thesis by linarith
qed

lemma decode_two_cases:
  "decode_two b s = (replacement, 1) \<or>
   (\<exists>c1 t. s = c1 # t \<and> is_cont c1 \<and> decode_two b s = ((b - 192) * 64 + (byte c1 - 128), 2))"
  by (auto simp: decode_two_def split: list.split)

lemma decode_three_cases:
  "decode_three b s = (replacement, 1) \<or>
   (\<exists>c1 c2 t. s = c1 # c2 # t \<and> three_follows b c1 c2 \<and>
      decode_three b s = ((b - 224) * 4096 + (byte c1 - 128) * 64 + (byte c2 - 128), 3))"
  by (auto simp: decode_three_def split: list.split)

lemma decode_four_cases:
  "decode_four b s = (replacement, 1) \<or>
   (\<exists>c1 c2 c3 t. s = c1 # c2 # c3 # t \<and> four_follows b c1 c2 c3 \<and>
      decode_four b s = ((b - 240) * 262144 + (byte c1 - 128) * 4096 + (byte c2 - 128) * 64
        + (byte c3 - 128), 4))"
  by (auto simp: decode_four_def split: list.split)

lemma decode_three_high:
  assumes c: "128 \<le> byte c" and b: "224 \<le> b"
  shows "128 \<le> fst (decode_three b s)
    \<and> (\<forall>d \<in> set (take (snd (decode_three b s)) (c # s)). 128 \<le> byte d)"
  using decode_three_cases[of b s]
proof (elim disjE exE conjE)
  fix c1 c2 t
  assume s: "s = c1 # c2 # t" and f: "three_follows b c1 c2"
    and d: "decode_three b s = ((b - 224) * 4096 + (byte c1 - 128) * 64 + (byte c2 - 128), 3)"
  have "take 3 (c # s) = [c, c1, c2]" by (simp add: s numeral_3_eq_3)
  moreover have "128 \<le> byte c1" "128 \<le> byte c2"
    using follows_cont(1)[OF f] by (auto dest: is_cont_high)
  ultimately show ?thesis using three_value[OF f b] c by (simp only: d fst_conv snd_conv) simp
qed (use c in \<open>simp add: replacement_def\<close>)

lemma decode_four_high:
  assumes c: "128 \<le> byte c" and b: "240 \<le> b"
  shows "128 \<le> fst (decode_four b s)
    \<and> (\<forall>d \<in> set (take (snd (decode_four b s)) (c # s)). 128 \<le> byte d)"
  using decode_four_cases[of b s]
proof (elim disjE exE conjE)
  fix c1 c2 c3 t
  assume s: "s = c1 # c2 # c3 # t" and f: "four_follows b c1 c2 c3"
    and d: "decode_four b s = ((b - 240) * 262144 + (byte c1 - 128) * 4096 + (byte c2 - 128) * 64
        + (byte c3 - 128), 4)"
  have "take 4 (c # s) = [c, c1, c2, c3]" by (simp add: s eval_nat_numeral)
  moreover have "128 \<le> byte c1" "128 \<le> byte c2" "128 \<le> byte c3"
    using follows_cont(2)[OF f] by (auto dest: is_cont_high)
  ultimately show ?thesis using four_value[OF f b] c by (simp only: d fst_conv snd_conv) simp
qed (use c in \<open>simp add: replacement_def\<close>)

lemma decode_two_high:
  assumes c: "128 \<le> byte c" and b: "194 \<le> b"
  shows "128 \<le> fst (decode_two b s)
    \<and> (\<forall>d \<in> set (take (snd (decode_two b s)) (c # s)). 128 \<le> byte d)"
proof -
  have "2 \<le> b - 192" using b by linarith
  then have v: "128 \<le> (b - 192) * 64 + k" for k by linarith
  show ?thesis
    using decode_two_cases[of b s]
  proof (elim disjE exE conjE)
    fix c1 t
    assume s: "s = c1 # t" "is_cont c1"
      and d: "decode_two b s = ((b - 192) * 64 + (byte c1 - 128), 2)"
    then show ?thesis using v[of "byte c1 - 128"] c by (simp only: d fst_conv) (simp add: is_cont_high)
  qed (use c in \<open>simp add: replacement_def\<close>)
qed

lemma decode_high:
  assumes c: "128 \<le> byte c"
  shows "128 \<le> fst (decode_rune c s)
    \<and> (\<forall>d \<in> set (take (snd (decode_rune c s)) (c # s)). 128 \<le> byte d)"
  using c decode_two_high[OF c, of "byte c" s] decode_three_high[OF c, of "byte c" s]
    decode_four_high[OF c, of "byte c" s]
  by (simp add: decode_rune_def Let_def replacement_def)

lemma chunk_cases:
  assumes "(r, b) \<in> set (rune_chunks s)"
  shows "(\<exists>c. b = [c] \<and> r = byte c \<and> r < 128) \<or> (128 \<le> r \<and> (\<forall>d \<in> set b. 128 \<le> byte d))"
  using assms
proof (induction s rule: rune_chunks.induct)
  case (2 c s)
  consider "(r, b) \<in> set (rune_chunks (drop (snd (decode_rune c s)) (c # s)))"
    | "r = fst (decode_rune c s)" "b = take (snd (decode_rune c s)) (c # s)"
    using 2(2) by (auto simp: rune_chunks.simps)
  then show ?case
  proof cases
    case 2
    then show ?thesis
      using decode_high[of c s] by (cases "byte c < 128") auto
  qed (use 2(1) in blast)
qed simp

lemma decode_append:
  assumes t: "t = [] \<or> \<not> is_cont (hd t)"
  shows "decode_rune c (s @ t) = decode_rune c s"
proof -
  have "decode_two b (s @ t) = decode_two b s" for b
    using t by (auto simp: decode_two_def split: list.split)
  moreover have "decode_three b (s @ t) = decode_three b s" for b
    using t by (cases s; cases "tl s"; cases t)
      (auto simp: decode_three_def split: list.split dest!: follows_cont(1))
  moreover have "decode_four b (s @ t) = decode_four b s" for b
    using t by (cases s; cases "tl s"; cases "tl (tl s)"; cases t)
      (auto simp: decode_four_def split: list.split dest!: follows_cont(2))
  ultimately show ?thesis by (simp add: decode_rune_def Let_def)
qed

text \<open>A text that starts with a byte no sequence continues with is read apart from what is
  before it.\<close>

lemma rune_chunks_append:
  assumes "t = [] \<or> \<not> is_cont (hd t)"
  shows "rune_chunks (s @ t) = rune_chunks s @ rune_chunks t"
proof (induction s rule: rune_chunks.induct)
  case (2 c s)
  define w where "w = snd (decode_rune c s)"
  have w: "w \<le> length (c # s)" using decode_width[of c s] by (simp add: w_def)
  have "rune_chunks ((c # s) @ t) = (fst (decode_rune c s), take w ((c # s) @ t)) # rune_chunks (drop w ((c # s) @ t))"
    by (simp add: rune_chunks.simps decode_append[OF assms] w_def)
  moreover have "take w ((c # s) @ t) = take w (c # s)" "drop w ((c # s) @ t) = drop w (c # s) @ t"
    using w by (simp_all only: take_append drop_append) simp_all
  ultimately show ?case using 2 by (simp add: rune_chunks.simps w_def)
qed simp

lemma rune_chunks_append_ascii:
  "byte c < 128 \<Longrightarrow> rune_chunks (s @ c # t) = rune_chunks s @ (byte c, [c]) # rune_chunks t"
  using rune_chunks_append[of "c # t" s] by (simp add: is_cont_def)

section \<open>Writing runes\<close>

text \<open>\<open>utf8.AppendRune\<close>: a number that is no code point is written as U+FFFD.\<close>

definition is_scalar :: "nat \<Rightarrow> bool" where
  "is_scalar r \<longleftrightarrow> r < 1114112 \<and> \<not> (55296 \<le> r \<and> r \<le> 57343)"

definition encode_three :: "nat \<Rightarrow> string" where
  "encode_three r = map char_of [224 + r div 4096, 128 + r div 64 mod 64, 128 + r mod 64]"

definition encode_rune :: "nat \<Rightarrow> string" where
  "encode_rune r =
     (if r < 128 then [char_of r]
      else if r < 2048 then map char_of [192 + r div 64, 128 + r mod 64]
      else if \<not> is_scalar r then encode_three replacement
      else if r < 65536 then encode_three r
      else map char_of [240 + r div 262144, 128 + r div 4096 mod 64, 128 + r div 64 mod 64,
                        128 + r mod 64])"

definition text_of_runes :: "nat list \<Rightarrow> string" where
  "text_of_runes rs = concat (map encode_rune rs)"

text \<open>A text is valid UTF-8 when reading and writing it gives it back.\<close>

definition valid_utf8 :: "string \<Rightarrow> bool" where
  "valid_utf8 s \<longleftrightarrow> text_of_runes (runes s) = s"

lemma text_of_runes_simps [simp]:
  "text_of_runes [] = []"
  "text_of_runes (r # rs) = encode_rune r @ text_of_runes rs"
  "text_of_runes (rs @ qs) = text_of_runes rs @ text_of_runes qs"
  by (simp_all add: text_of_runes_def)

lemma encode_rune_ascii [simp]: "r < 128 \<Longrightarrow> encode_rune r = [char_of r]"
  by (simp add: encode_rune_def)

lemma valid_utf8_ascii: "\<forall>c \<in> set s. byte c < 128 \<Longrightarrow> valid_utf8 s"
  by (induction s) (auto simp: valid_utf8_def)

lemma cont_char:
  assumes "m < 64"
  shows "is_cont (char_of (128 + m))" "byte (char_of (128 + m)) = 128 + m"
proof -
  have "128 + m < 256" "128 + m \<le> 191" using assms by linarith+
  then show "byte (char_of (128 + m)) = 128 + m" "is_cont (char_of (128 + m))"
    by (simp_all add: is_cont_def)
qed

lemma lead_char: "n < 256 \<Longrightarrow> byte (char_of n) = n"
  by simp

lemma decode_two_parts:
  assumes "2 \<le> a" "a < 32" "m < 64"
  shows "decode_rune (char_of (192 + a)) (char_of (128 + m) # s) = (a * 64 + m, 2)"
proof -
  have lead: "byte (char_of (192 + a)) = 192 + a" using assms by (intro lead_char) linarith
  show ?thesis
    using assms cont_char[OF assms(3)]
    unfolding decode_rune_def Let_def lead decode_two_def by simp
qed

lemma decode_three_parts:
  assumes "a < 16" "b < 64" "m < 64" "a = 0 \<longrightarrow> 32 \<le> b" "a = 13 \<longrightarrow> b \<le> 31"
  shows "decode_rune (char_of (224 + a)) (char_of (128 + b) # char_of (128 + m) # s)
           = (a * 4096 + b * 64 + m, 3)"
proof -
  have lead: "byte (char_of (224 + a)) = 224 + a" using assms by (intro lead_char) linarith
  have "three_follows (224 + a) (char_of (128 + b)) (char_of (128 + m))"
    using assms cont_char[OF assms(2)] cont_char[OF assms(3)] by (auto simp: three_follows_def)
  then show ?thesis
    using assms cont_char[OF assms(2)] cont_char[OF assms(3)]
    unfolding decode_rune_def Let_def lead decode_three_def by simp
qed

lemma decode_four_parts:
  assumes "d < 5" "a < 64" "b < 64" "m < 64" "d = 0 \<longrightarrow> 16 \<le> a" "d = 4 \<longrightarrow> a \<le> 15"
  shows "decode_rune (char_of (240 + d))
           (char_of (128 + a) # char_of (128 + b) # char_of (128 + m) # s)
         = (d * 262144 + a * 4096 + b * 64 + m, 4)"
proof -
  have lead: "byte (char_of (240 + d)) = 240 + d" using assms by (intro lead_char) linarith
  have "four_follows (240 + d) (char_of (128 + a)) (char_of (128 + b)) (char_of (128 + m))"
    using assms cont_char[OF assms(2)] cont_char[OF assms(3)] cont_char[OF assms(4)]
    by (auto simp: four_follows_def)
  then show ?thesis
    using assms cont_char[OF assms(2)] cont_char[OF assms(3)] cont_char[OF assms(4)]
    unfolding decode_rune_def Let_def lead decode_four_def by simp
qed

lemma split_64: "r = r div 64 * 64 + r mod (64::nat)"
  by simp

lemma decode_encode:
  assumes "is_scalar r"
  shows "\<exists>c t. encode_rune r = c # t \<and>
           (\<forall>s. decode_rune c (t @ s) = (r, length (encode_rune r)))"
proof -
  define m b a d where defs: "m = r mod 64" "b = r div 64 mod 64" "a = r div 4096 mod 64" "d = r div 262144"
  have small: "m < 64" "b < 64" "a < 64" by (simp_all add: defs)
  have a': "r div 4096 = d * 64 + a"
    using split_64[of "r div 4096"] by (simp add: defs div_mult2_eq[symmetric])
  have b': "r div 64 = r div 4096 * 64 + b"
    using split_64[of "r div 64"] by (simp add: defs div_mult2_eq[symmetric])
  have r: "r = r div 64 * 64 + m" by (simp add: defs)
  consider "r < 128" | "128 \<le> r" "r < 2048" | "2048 \<le> r" "r < 65536" | "65536 \<le> r"
    by linarith
  then show ?thesis
  proof cases
    case 2
    then have "2 \<le> r div 64" "r div 64 < 32" by linarith+
    from decode_two_parts[OF this small(1)] r 2 show ?thesis
      by (simp add: encode_rune_def defs)
  next
    case 3
    then have d: "d = 0" by (simp add: defs)
    have "r div 4096 < 16" "r div 4096 = 0 \<longrightarrow> 32 \<le> b" "r div 4096 = 13 \<longrightarrow> b \<le> 31"
      using 3 assms r b' small unfolding is_scalar_def by linarith+
    from decode_three_parts[OF this(1) small(2) small(1) this(2,3)]
    have "decode_rune (char_of (224 + r div 4096)) (char_of (128 + b) # char_of (128 + m) # s) = (r, 3)" for s
      using r b' by simp
    then show ?thesis using 3 assms by (simp add: encode_rune_def encode_three_def defs)
  next
    case 4
    have "d < 5" "d = 0 \<longrightarrow> 16 \<le> a" "d = 4 \<longrightarrow> a \<le> 15"
      using 4 assms r b' a' small unfolding is_scalar_def by linarith+
    from decode_four_parts[OF this(1) small(3) small(2) small(1) this(2,3)]
    have "decode_rune (char_of (240 + d))
        (char_of (128 + a) # char_of (128 + b) # char_of (128 + m) # s) = (r, 4)" for s
      using r b' a' by simp
    then show ?thesis using 4 assms by (simp add: encode_rune_def defs is_scalar_def)
  qed simp
qed

lemma rune_chunks_encode:
  "is_scalar r \<Longrightarrow> rune_chunks (encode_rune r @ s) = (r, encode_rune r) # rune_chunks s"
  using decode_encode[of r] by (auto simp: rune_chunks.simps)

text \<open>Runes written and read again are the same runes.\<close>

lemma runes_text_of_runes: "list_all is_scalar rs \<Longrightarrow> runes (text_of_runes rs) = rs"
  by (induction rs) (auto simp: runes_def rune_chunks_encode)

lemma decode_scalar: "is_scalar (fst (decode_rune c s))"
proof -
  have rep: "is_scalar replacement" by (simp add: is_scalar_def replacement_def)
  have c64: "is_cont x \<Longrightarrow> byte x - 128 < 64" for x unfolding is_cont_def by linarith
  have two: "is_scalar (fst (decode_two (byte c) s))" if "194 \<le> byte c" "byte c \<le> 223"
    using decode_two_cases[of "byte c" s]
  proof (elim disjE exE conjE)
    fix c1 t
    assume "is_cont c1" and d: "decode_two (byte c) s = ((byte c - 192) * 64 + (byte c1 - 128), 2)"
    then have k: "byte c1 - 128 < 64" using c64 by simp
    show ?thesis using k that unfolding d fst_conv is_scalar_def by linarith
  qed (simp add: rep)
  have three: "is_scalar (fst (decode_three (byte c) s))" if b: "224 \<le> byte c" "byte c \<le> 239"
    using decode_three_cases[of "byte c" s]
  proof (elim disjE exE conjE)
    fix c1 c2 t
    assume f: "three_follows (byte c) c1 c2"
      and d: "decode_three (byte c) s = ((byte c - 224) * 4096 + (byte c1 - 128) * 64 + (byte c2 - 128), 3)"
    have k: "byte c1 - 128 < 64" "byte c2 - 128 < 64" using follows_cont(1)[OF f] c64 by auto
    have e: "byte c = 237 \<longrightarrow> byte c1 - 128 \<le> 31" using f by (auto simp: three_follows_def)
    have e13: "byte c - 224 = 13 \<Longrightarrow> byte c1 - 128 \<le> 31" using e b by linarith
    consider "byte c - 224 \<le> 12" | "byte c - 224 = 13" | "14 \<le> byte c - 224" by linarith
    then show ?thesis
    proof cases
      case 2
      then show ?thesis using e13[OF 2] k unfolding d fst_conv is_scalar_def by linarith
    next
      case 1
      then show ?thesis using k unfolding d fst_conv is_scalar_def by linarith
    next
      case 3
      have "57344 \<le> (byte c - 224) * 4096" using 3 by linarith
      moreover have "byte c - 224 \<le> 15" using b by linarith
      ultimately show ?thesis using k unfolding d fst_conv is_scalar_def by linarith
    qed
  qed (simp add: rep)
  have four: "is_scalar (fst (decode_four (byte c) s))" if b: "240 \<le> byte c" "byte c \<le> 244"
    using decode_four_cases[of "byte c" s]
  proof (elim disjE exE conjE)
    fix c1 c2 c3 t
    assume f: "four_follows (byte c) c1 c2 c3"
      and d: "decode_four (byte c) s = ((byte c - 240) * 262144 + (byte c1 - 128) * 4096
        + (byte c2 - 128) * 64 + (byte c3 - 128), 4)"
    have k: "byte c1 - 128 < 64" "byte c2 - 128 < 64" "byte c3 - 128 < 64"
      using follows_cont(2)[OF f] c64 by auto
    have e: "byte c = 244 \<longrightarrow> byte c1 - 128 \<le> 15" "byte c = 240 \<longrightarrow> 16 \<le> byte c1 - 128"
      using f by (auto simp: four_follows_def)
    show ?thesis using k b e unfolding d fst_conv is_scalar_def by linarith
  qed (simp add: rep)
  show ?thesis using rep two three four by (auto simp: decode_rune_def Let_def is_scalar_def)
qed

lemma runes_scalar: "list_all is_scalar (runes s)"
proof (induction s rule: rune_chunks.induct)
  case (2 c s)
  then show ?case using decode_scalar[of c s] by (simp add: runes_def rune_chunks.simps)
qed (simp add: runes_def)

lemma list_all_take: "list_all P xs \<Longrightarrow> list_all P (take n xs)"
  by (auto simp: list_all_iff dest: in_set_takeD)

lemma runes_of_taken [simp]: "runes (text_of_runes (take n (runes s))) = take n (runes s)"
  by (rule runes_text_of_runes) (rule list_all_take[OF runes_scalar])

lemma valid_text_of_runes: "valid_utf8 (text_of_runes (runes s))"
  by (simp add: valid_utf8_def runes_text_of_runes runes_scalar)

section \<open>White space, trimming and text_fields\<close>

text \<open>\<open>unicode.IsSpace\<close> and \<open>unicode.IsControl\<close>.\<close>

definition is_space :: "nat \<Rightarrow> bool" where
  "is_space r \<longleftrightarrow>
     (9 \<le> r \<and> r \<le> 13) \<or> r = 32 \<or> r = 133 \<or> r = 160 \<or> r = 5760 \<or> (8192 \<le> r \<and> r \<le> 8202)
     \<or> r = 8232 \<or> r = 8233 \<or> r = 8239 \<or> r = 8287 \<or> r = 12288"

definition is_control :: "nat \<Rightarrow> bool" where
  "is_control r \<longleftrightarrow> r < 32 \<or> (127 \<le> r \<and> r < 160)"

definition trim_runes :: "(nat \<Rightarrow> bool) \<Rightarrow> string \<Rightarrow> string" where
  "trim_runes out s =
     chunk_text (rev (dropWhile (\<lambda>(r, _). out r)
       (rev (dropWhile (\<lambda>(r, _). out r) (rune_chunks s)))))"

definition trim_space :: "string \<Rightarrow> string" where
  "trim_space s = trim_runes is_space s"

text \<open>\<open>strings.FieldsFunc\<close>: the runs of runes that are not separators.\<close>

function runs_of :: "(nat \<Rightarrow> bool) \<Rightarrow> (nat \<times> string) list \<Rightarrow> string list" where
  "runs_of sep [] = []"
| "runs_of sep (p # cs) =
     (if sep (fst p) then runs_of sep cs
      else chunk_text (p # takeWhile (\<lambda>q. \<not> sep (fst q)) cs)
             # runs_of sep (dropWhile (\<lambda>q. \<not> sep (fst q)) cs))"
  by pat_completeness auto
termination
  by (relation "measure (\<lambda>(sep, cs). length cs)") (auto simp: less_Suc_eq_le length_dropWhile_le)

definition fields_func :: "(nat \<Rightarrow> bool) \<Rightarrow> string \<Rightarrow> string list" where
  "fields_func sep s = runs_of sep (rune_chunks s)"

definition text_fields :: "string \<Rightarrow> string list" where
  "text_fields s = fields_func is_space s"

lemma is_space_space [simp]: "is_space 32" by (simp add: is_space_def)

lemma trim_runes_Nil [simp]: "trim_runes out [] = []"
  by (simp add: trim_runes_def)

lemma trim_space_Nil [simp]: "trim_space [] = []"
  by (simp add: trim_space_def)

text \<open>A text with a byte that is not white space does not trim to nothing.\<close>

lemma chunk_text_eq_Nil: "(\<forall>p \<in> set cs. snd p \<noteq> []) \<Longrightarrow> chunk_text cs = [] \<longleftrightarrow> cs = []"
  by (cases cs) auto

lemma rune_chunks_nonempty: "p \<in> set (rune_chunks s) \<Longrightarrow> snd p \<noteq> []"
proof (induction s rule: rune_chunks.induct)
  case (2 c s)
  then show ?case using decode_width[of c s] by (auto simp: rune_chunks.simps)
qed simp

lemma trim_runes_eq_Nil: "trim_runes out s = [] \<longleftrightarrow> (\<forall>r \<in> set (runes s). out r)"
proof -
  let ?cs = "rune_chunks s"
  let ?o = "\<lambda>(r, _). out r"
  have sub: "set (rev (dropWhile ?o (rev (dropWhile ?o ?cs)))) \<subseteq> set ?cs"
    by (auto dest!: set_dropWhileD)
  have "trim_runes out s = [] \<longleftrightarrow> rev (dropWhile ?o (rev (dropWhile ?o ?cs))) = []"
    unfolding trim_runes_def using sub rune_chunks_nonempty
    by (intro chunk_text_eq_Nil) blast
  also have "\<dots> \<longleftrightarrow> (\<forall>p \<in> set (dropWhile ?o ?cs). ?o p)" by simp
  also have "\<dots> \<longleftrightarrow> (\<forall>p \<in> set ?cs. ?o p)"
    by (metis (mono_tags, lifting) dropWhile_eq_Nil_conv set_dropWhileD hd_dropWhile hd_in_set)
  also have "\<dots> \<longleftrightarrow> (\<forall>r \<in> set (runes s). out r)" by (force simp: runes_def)
  finally show ?thesis .
qed

lemma ascii_in_runes:
  assumes "byte c < 128" "c \<in> set s" shows "byte c \<in> set (runes s)"
proof -
  obtain a b where "s = a @ c # b" using assms(2) by (auto simp: in_set_conv_decomp)
  then show ?thesis using rune_chunks_append_ascii[OF assms(1), of a b] by (simp add: runes_def)
qed

lemma trim_space_not_Nil: "byte c < 128 \<Longrightarrow> \<not> is_space (byte c) \<Longrightarrow> c \<in> set s \<Longrightarrow> trim_space s \<noteq> []"
  using ascii_in_runes[of c s] by (auto simp: trim_space_def trim_runes_eq_Nil)

text \<open>No field holds an ASCII separator, and none is empty.\<close>

lemma runs_of_parts:
  "w \<in> set (runs_of sep cs) \<Longrightarrow>
     \<exists>ds. set ds \<subseteq> set cs \<and> ds \<noteq> [] \<and> w = chunk_text ds \<and> (\<forall>q \<in> set ds. \<not> sep (fst q))"
proof (induction sep cs rule: runs_of.induct)
  case (2 sep p cs)
  show ?case
  proof (cases "sep (fst p)")
    case True
    then obtain ds where ds: "set ds \<subseteq> set cs" "ds \<noteq> []"
        "w = chunk_text ds" "\<forall>q \<in> set ds. \<not> sep (fst q)"
      using 2 by auto
    have "set ds \<subseteq> set (p # cs)" using ds(1) by auto
    with ds show ?thesis by blast
  next
    case False
    let ?ds = "p # takeWhile (\<lambda>q. \<not> sep (fst q)) cs"
    consider "w = chunk_text ?ds" | "w \<in> set (runs_of sep (dropWhile (\<lambda>q. \<not> sep (fst q)) cs))"
      using 2(3) False by auto
    then show ?thesis
    proof cases
      case 1
      have "set ?ds \<subseteq> set (p # cs)" "\<forall>q \<in> set ?ds. \<not> sep (fst q)"
        using False by (auto dest: set_takeWhileD)
      with 1 show ?thesis by blast
    next
      case 2
      then obtain ds where ds: "set ds \<subseteq> set (dropWhile (\<lambda>q. \<not> sep (fst q)) cs)" "ds \<noteq> []"
          "w = chunk_text ds" "\<forall>q \<in> set ds. \<not> sep (fst q)"
        using "2.IH"(2)[OF False] by blast
      have "set ds \<subseteq> set (p # cs)" using ds(1) by (auto dest!: set_dropWhileD)
      with ds show ?thesis by blast
    qed
  qed
qed simp

lemma fields_func_no_sep:
  assumes "w \<in> set (fields_func sep s)" "byte c < 128" "sep (byte c)"
  shows "c \<notin> set w"
proof
  assume c: "c \<in> set w"
  obtain ds where ds: "set ds \<subseteq> set (rune_chunks s)" "w = chunk_text ds" "\<forall>q \<in> set ds. \<not> sep (fst q)"
    using runs_of_parts assms(1) unfolding fields_func_def by blast
  obtain r b where rb: "(r, b) \<in> set ds" "c \<in> set b"
    using c unfolding ds(2) chunk_text_def by auto
  have "b = [c] \<and> r = byte c"
    using chunk_cases[of r b s] rb ds(1) assms(2) by fastforce
  with rb(1) ds(3) assms(3) show False by auto
qed

lemma fields_func_nonempty: "w \<in> set (fields_func sep s) \<Longrightarrow> w \<noteq> []"
  using runs_of_parts[of w sep "rune_chunks s"] rune_chunks_nonempty[of _ s] chunk_text_eq_Nil
  unfolding fields_func_def by (metis subset_iff)

end
