(* ===== verification/Workorder_Check.thy ===== *)
theory Workorder_Check
  imports Go_Runes
begin

text \<open>
  \<open>internal/workorder/check.go\<close>: the check in brackets at the end of a done line, which the
  harness can run by itself. \<open>print.go\<close> counts the done lines that carry one.
\<close>

text \<open>
  Lower case, as far as a comparison with an ASCII word can tell: the capital letters of ASCII and
  the two code points outside it, U+0130 and U+212A, whose lower case is an ASCII letter. Every
  other code point stays outside ASCII, whichever letter it becomes.
\<close>

definition lower_to_ascii :: "nat \<Rightarrow> nat" where
  "lower_to_ascii r =
     (if 65 \<le> r \<and> r \<le> 90 then r + 32 else if r = 304 then 105 else if r = 8490 then 107 else r)"

definition lower_ascii :: "string \<Rightarrow> string" where
  "lower_ascii s = text_of_runes (map lower_to_ascii (runes s))"

definition max_looks_widths :: nat where "max_looks_widths = 4"
definition narrowest_looks :: int where "narrowest_looks = 320"
definition widest_looks :: int where "widest_looks = 3840"
definition the_default_looks :: int where "the_default_looks = 1440"

record check =
  ck_kind :: string
  ck_argument :: string
  ck_text :: string
  ck_url :: string
  ck_widths :: "int list"
  ck_line :: string

definition the_kinds :: "string list" where
  "the_kinds = [''tests pass'', ''exit 0'', ''shows'', ''exists'', ''looks'']"

definition is_a_kind :: "string \<Rightarrow> bool" where
  "is_a_kind k \<longleftrightarrow> k \<in> set the_kinds"

definition is_an_address :: "string \<Rightarrow> bool" where
  "is_an_address s \<longleftrightarrow>
     CHR '' '' \<notin> set s \<and> CHR 0x09 \<notin> set s
     \<and> (prefix ''http://'' s \<or> prefix ''https://'' s \<or> prefix ''file://'' s)"

fun read_widths :: "string list \<Rightarrow> int list option" where
  "read_widths [] = Some []"
| "read_widths (w # ws) =
     (case atoi (trim_space w) of
        None \<Rightarrow> None
      | Some n \<Rightarrow>
          if n < narrowest_looks \<or> n > widest_looks then None
          else map_option (Cons n) (read_widths ws))"

definition read_looks :: "string \<Rightarrow> (string \<times> int list) option" where
  "read_looks argument =
     (case cut argument '' at '' of
        (before, widths_text, has_widths) \<Rightarrow>
          let url = trim_space before in
          if \<not> is_an_address url then None
          else if \<not> has_widths then Some (url, [the_default_looks])
          else (case read_widths (split_on widths_text '','') of
                  None \<Rightarrow> None
                | Some widths \<Rightarrow>
                    if widths = [] \<or> max_looks_widths < length widths then None
                    else Some (url, widths)))"

definition read_shows :: "string \<Rightarrow> (string \<times> string) option" where
  "read_shows argument =
     (if \<not> prefix [CHR 0x22] argument then None
      else (case str_index (drop 1 argument) [CHR 0x22] of
              None \<Rightarrow> None
            | Some closing \<Rightarrow>
                let shown = take closing (drop 1 argument);
                    rest = trim_space (drop (closing + 2) argument)
                in (case cut_prefix rest ''at '' of
                      None \<Rightarrow> None
                    | Some address \<Rightarrow>
                        let url = trim_space address
                        in if shown = [] \<or> url = [] then None else Some (shown, url))))"

definition read_check :: "string \<Rightarrow> check option" where
  "read_check line =
     (let trimmed = trim_space line in
      if \<not> suffix '']'' trimmed then None
      else (case last_index trimmed ''['' of
        None \<Rightarrow> None
      | Some open_at \<Rightarrow>
          (case cut (drop (open_at + 1) (take (length trimmed - 1) trimmed)) '':'' of
             (before, after, has_colon) \<Rightarrow>
               if \<not> has_colon then None
               else
                 let kind = lower_ascii (trim_space before);
                     argument = trim_space after;
                     found = \<lparr>ck_kind = kind, ck_argument = argument, ck_text = [], ck_url = [],
                       ck_widths = [], ck_line = trim_space (take open_at trimmed)\<rparr>
                 in if \<not> is_a_kind kind \<or> argument = [] then None
                    else if kind = ''shows'' then
                      (case read_shows argument of
                         None \<Rightarrow> None
                       | Some (shown, url) \<Rightarrow> Some (found\<lparr>ck_text := shown, ck_url := url\<rparr>))
                    else if kind = ''looks'' then
                      (case read_looks argument of
                         None \<Rightarrow> None
                       | Some (url, widths) \<Rightarrow> Some (found\<lparr>ck_url := url, ck_widths := widths\<rparr>))
                    else Some found)))"

text \<open>A check that is read is one the harness knows how to run.\<close>

lemma read_widths_bounds:
  "read_widths ws = Some ns \<Longrightarrow>
     length ns = length ws \<and> (\<forall>n \<in> set ns. narrowest_looks \<le> n \<and> n \<le> widest_looks)"
  by (induction ws arbitrary: ns) (auto split: option.splits if_splits)

lemma read_looks_bounds:
  assumes "read_looks a = Some (url, widths)"
  shows "is_an_address url" "widths \<noteq> []" "length widths \<le> max_looks_widths"
    "\<forall>n \<in> set widths. narrowest_looks \<le> n \<and> n \<le> widest_looks"
proof -
  have d: "length [the_default_looks] \<le> max_looks_widths"
    "narrowest_looks \<le> the_default_looks" "the_default_looks \<le> widest_looks"
    by (simp_all add: max_looks_widths_def narrowest_looks_def the_default_looks_def widest_looks_def)
  show "is_an_address url" "widths \<noteq> []" "length widths \<le> max_looks_widths"
    "\<forall>n \<in> set widths. narrowest_looks \<le> n \<and> n \<le> widest_looks"
    using assms d
    by (auto simp: read_looks_def Let_def dest: read_widths_bounds
        split: prod.splits option.splits if_splits)
qed

lemma read_check_kind: "read_check line = Some c \<Longrightarrow> is_a_kind (ck_kind c) \<and> ck_argument c \<noteq> []"
  by (auto simp: read_check_def Let_def split: option.splits prod.splits if_splits)

lemma read_check_looks:
  assumes "read_check line = Some c" "ck_kind c = ''looks''"
  shows "is_an_address (ck_url c) \<and> ck_widths c \<noteq> [] \<and> length (ck_widths c) \<le> max_looks_widths
    \<and> (\<forall>n \<in> set (ck_widths c). narrowest_looks \<le> n \<and> n \<le> widest_looks)"
  using assms
  by (auto simp: read_check_def Let_def dest: read_looks_bounds
      split: option.splits prod.splits if_splits)

end
