(* ===== verification/Record_Print.thy ===== *)
theory Record_Print
  imports Record_Text Workorder_Check
begin

text \<open>
  \<open>internal/record/print.go\<close>: the one text form of a record, printed line by line. The order
  of the definitions is the file's. \<open>printed_lines\<close> is the list the code joins with line breaks.
\<close>

named_theorems label_defs \<open>the words the format is built from\<close>

section \<open>The words of the format\<close>

definition heading_goal :: string where [label_defs]: "heading_goal = ''## Goal''"
definition heading_rules :: string where [label_defs]: "heading_rules = ''## Rules''"
definition heading_work :: string where [label_defs]: "heading_work = ''## Work''"
definition heading_lessons :: string where [label_defs]: "heading_lessons = ''## Lessons''"

definition label_proved :: string where [label_defs]: "label_proved = ''done lines proved: ''"
definition label_ask :: string where [label_defs]: "label_ask = ''Ask: ''"
definition label_name :: string where [label_defs]: "label_name = ''Name: ''"
definition label_why :: string where [label_defs]: "label_why = ''Why: ''"
definition label_done_when :: string where [label_defs]: "label_done_when = ''Done when:''"
definition label_corrections :: string where [label_defs]: "label_corrections = ''Corrections:''"
definition label_stop_when :: string where
  [label_defs]: "label_stop_when = ''Stop and tell the user if:''"
definition label_situation :: string where [label_defs]: "label_situation = ''Situation:''"
definition label_plan :: string where [label_defs]: "label_plan = ''Plan:''"
definition label_tasks :: string where [label_defs]: "label_tasks = ''Tasks:''"
definition label_results :: string where
  [label_defs]: "label_results = ''Results (read any of them in full with `read r7`):''"
definition label_reports :: string where
  [label_defs]: "label_reports = ''Reports (read any of them in full with `read j4.2`):''"
definition label_decisions :: string where [label_defs]: "label_decisions = ''Decisions:''"
definition label_failures :: string where [label_defs]: "label_failures = ''Failures:''"

definition label_budget :: string where [label_defs]: "label_budget = ''budget left: ''"
definition field_no_budget :: string where [label_defs]: "field_no_budget = ''no budget''"

definition header_gap :: string where [label_defs]: "header_gap = ''   ''"
definition item_mark :: string where [label_defs]: "item_mark = ''- ''"
definition mark_done :: string where [label_defs]: "mark_done = ''[x]''"
definition mark_waiting :: string where [label_defs]: "mark_waiting = ''[ ]''"
definition mark_pinned :: string where [label_defs]: "mark_pinned = ''[pinned]''"
definition arrow :: string where [label_defs]: "arrow = '' -> ''"
definition arrow_end :: string where [label_defs]: "arrow_end = '' ->''"
definition reason_join :: string where [label_defs]: "reason_join = ''. Reason: ''"
definition cause_join :: string where [label_defs]: "cause_join = ''. Cause: ''"
definition full_stop :: string where [label_defs]: "full_stop = ''.''"

text \<open>A space, the middle dot in UTF-8, and \<open>due\<close> between spaces.\<close>

definition due_mark :: string where
  [label_defs]: "due_mark = [CHR '' '', CHR 0xC2, CHR 0xB7] @ '' due ''"

section \<open>The header\<close>

text \<open>The count of the done lines that carry a check, and how many of them are proved.\<close>

definition proved_checked_lines :: "done_line list \<Rightarrow> nat \<times> nat" where
  "proved_checked_lines lines =
     (let checked = filter (\<lambda>l. read_check (dl_text l) \<noteq> None) lines
      in (length (filter dl_done checked), length checked))"

definition print_budget :: "header \<Rightarrow> string" where
  "print_budget h =
     (let left = (if h_no_round_budget h then [] else [itoa (h_rounds_left h) @ '' rounds''])
               @ (if h_no_time_budget h then [] else [itoa (h_minutes_left h) @ '' minutes''])
      in if left = [] then field_no_budget else label_budget @ join '', '' left)"

definition print_cost_line :: "cost_line \<Rightarrow> string" where
  "print_cost_line c =
     ''this turn: '' @ thousands (input_tokens c) @ '' tokens in, ''
       @ thousands (cached_input_tokens c) @ '' of them cached, ''
       @ thousands (output_tokens c) @ '' out''"

definition print_progress :: "int \<Rightarrow> int \<Rightarrow> string" where
  "print_progress finished all_tasks = itoa finished @ '' of '' @ itoa all_tasks @ '' tasks done''"

definition header_fields :: "header \<Rightarrow> string list" where
  "header_fields h =
     [''# '' @ h_kind h @ '' '' @ fold_text (h_id h), h_status h]
     @ (if h_origin h = [] then [] else [''from '' @ fold_text (h_origin h)])
     @ (if h_kind h = record_job
        then [print_progress (h_tasks_done h) (h_tasks_total h)]
             @ (if h_next_due h = [] then [] else [''next: '' @ fold_text (h_next_due h)])
        else [print_budget h])"

definition print_header :: "header \<Rightarrow> string list" where
  "print_header h =
     (if h_kind h = record_job then [join header_gap (header_fields h)]
      else [join header_gap (header_fields h), print_cost_line (h_cost h)])"

section \<open>The goal\<close>

definition check_mark :: "bool \<Rightarrow> string" where
  "check_mark d = (if d then mark_done else mark_waiting)"

definition proof_of :: "done_line \<Rightarrow> string" where
  "proof_of l =
     (if dl_result l \<noteq> [] then fold_text (dl_result l)
      else if dl_reply l \<noteq> [] then quoted (dl_reply l)
      else [])"

definition arrows_are_needed :: "done_line list \<Rightarrow> bool" where
  "arrows_are_needed lines \<longleftrightarrow>
     list_ex (\<lambda>l. proof_of l \<noteq> [] \<or> suffix arrow_end (dl_text l)) lines"

definition print_done_line :: "bool \<Rightarrow> done_line \<Rightarrow> string" where
  "print_done_line arrows l =
     (let line = item_mark @ check_mark (dl_done l) @ '' '' @ fold_text (dl_text l)
      in if proof_of l \<noteq> [] then line @ arrow @ proof_of l
         else if arrows then line @ arrow_end
         else line)"

definition print_goal :: "goal \<Rightarrow> string list" where
  "print_goal g =
     [heading_goal]
     @ (if g_ask g = [] then [] else [label_ask @ quoted (g_ask g)])
     @ (if g_name g = [] then [] else [label_name @ fold_text (g_name g)])
     @ (if g_why g = [] then [] else [label_why @ fold_text (g_why g)])
     @ (if g_done_when g = [] then []
        else label_done_when # map (print_done_line (arrows_are_needed (g_done_when g))) (g_done_when g))"

section \<open>The rules\<close>

definition print_correction :: "correction \<Rightarrow> string" where
  "print_correction c = item_mark @ fold_text (co_id c) @ '' '' @ quoted (co_text c)"

definition print_plain :: "string \<Rightarrow> string" where
  "print_plain s = item_mark @ fold_text s"

definition print_list :: "string \<Rightarrow> ('a \<Rightarrow> string) \<Rightarrow> 'a list \<Rightarrow> string list" where
  "print_list label line items = (if items = [] then [] else label # map line items)"

definition print_rules_part :: "rules \<Rightarrow> string list" where
  "print_rules_part r =
     [heading_rules]
     @ print_list label_corrections print_correction (r_corrections r)
     @ print_list label_stop_when print_plain (r_stop_when r)"

section \<open>The work\<close>

definition print_result_line :: "result_line \<Rightarrow> string" where
  "print_result_line r =
     item_mark @ (if rl_pinned r then mark_pinned @ '' '' else [])
       @ fold_text (rl_id r) @ '' '' @ fold_text (rl_summary r)"

definition print_plan_step :: "plan_step \<Rightarrow> string" where
  "print_plan_step s =
     item_mark @ check_mark (ps_done s) @ '' '' @ itoa (ps_number s) @ '' '' @ fold_text (ps_text s)
       @ (if ps_result s = [] then [] else arrow @ fold_text (ps_result s))"

definition print_job_task :: "job_task \<Rightarrow> string" where
  "print_job_task t =
     item_mark @ check_mark (jt_done t) @ '' '' @ fold_text (jt_id t) @ '' '' @ fold_text (jt_text t)
       @ (if jt_due t = [] then [] else due_mark @ fold_text (jt_due t))
       @ (if jt_report t = [] then [] else arrow @ fold_text (jt_report t))"

definition results_label :: "record_kind \<Rightarrow> string" where
  "results_label kind = (if kind = record_job then label_reports else label_results)"

definition print_plan_or_tasks :: "work \<Rightarrow> record_kind \<Rightarrow> string list" where
  "print_plan_or_tasks w kind =
     (if kind = record_job then print_list label_tasks print_job_task (w_tasks w)
      else print_list label_plan print_plan_step (w_plan w))"

definition print_work :: "work \<Rightarrow> header \<Rightarrow> string list" where
  "print_work w h =
     [heading_work]
     @ print_list label_situation print_plain (w_situation w)
     @ print_plan_or_tasks w (h_kind h)
     @ print_list (results_label (h_kind h)) print_result_line (w_results w)"

section \<open>The lessons\<close>

definition print_lesson :: "string \<Rightarrow> string \<Rightarrow> string \<Rightarrow> string \<Rightarrow> string" where
  "print_lesson label what join_words why =
     item_mark @ fold_text label @ '' '' @ fold_text what @ join_words @ fold_text why @ full_stop"

definition print_decision :: "decision \<Rightarrow> string" where
  "print_decision d = print_lesson (de_id d) (de_text d) reason_join (de_reason d)"

definition print_failure :: "failure \<Rightarrow> string" where
  "print_failure f = print_lesson (fa_id f) (fa_text f) cause_join (fa_cause f)"

definition print_lessons :: "lessons \<Rightarrow> string list" where
  "print_lessons l =
     [heading_lessons]
     @ print_list label_decisions print_decision (l_decisions l)
     @ print_list label_failures print_failure (l_failures l)"

section \<open>The whole record\<close>

definition with_the_proved_count :: "record_of_work \<Rightarrow> string list \<Rightarrow> string list" where
  "with_the_proved_count r lines =
     (case proved_checked_lines (g_done_when (r_goal r)) of
        (proved, checked) \<Rightarrow>
          if h_kind (r_header r) = record_job \<and> 0 < checked
          then (hd lines @ header_gap @ label_proved @ itoa (int proved) @ '' of '' @ itoa (int checked))
                 # tl lines
          else lines)"

definition printed_lines :: "record_of_work \<Rightarrow> string list" where
  "printed_lines r =
     with_the_proved_count r (print_header (r_header r))
     @ [[]] @ print_goal (r_goal r)
     @ [[]] @ print_rules_part (r_rules r)
     @ [[]] @ print_work (r_work r) (r_header r)
     @ [[]] @ print_lessons (r_lessons r)"

definition print_whole :: "record_of_work \<Rightarrow> string" where
  "print_whole r = join [newline] (printed_lines r) @ [newline]"

section \<open>The view the model is shown\<close>

definition tokens_per_hundred_words :: nat where "tokens_per_hundred_words = 130"
definition max_record_tokens :: nat where "max_record_tokens = 3000"
definition max_ask_tokens :: nat where "max_ask_tokens = max_record_tokens div 4"

text \<open>\<open>EstimateTokens\<close> of \<open>size.go\<close>.\<close>

definition estimate_tokens :: "string \<Rightarrow> nat" where
  "estimate_tokens s = length (text_fields s) * tokens_per_hundred_words div 100"

definition ask_cut_note :: string where "ask_cut_note = ''[the ask goes on:''"
definition ask_label :: string where "ask_label = ''ask''"

text \<open>\<open>askForTheModel\<close>: the ask, or its start with the note that stands for the rest.\<close>

definition ask_for_the_model :: "string \<Rightarrow> string \<times> string" where
  "ask_for_the_model ask =
     (let words = text_fields ask;
          allowed = max_ask_tokens * 100 div tokens_per_hundred_words
      in if length words \<le> allowed then (ask, [])
         else (join '' '' (take allowed words),
               ask_cut_note @ '' about ''
                 @ itoa (int (estimate_tokens (join '' '' (drop allowed words))))
                 @ '' more tokens, which are stored whole. Read all of it with `read '' @ ask_label @ ''`.]''))"

fun insert_after_ask :: "string \<Rightarrow> string list \<Rightarrow> string list" where
  "insert_after_ask note [] = []"
| "insert_after_ask note (l # ls) =
     (if prefix label_ask l then l # note # ls else l # insert_after_ask note ls)"

definition trim_newlines :: "string \<Rightarrow> string" where
  "trim_newlines s = trim_right_bytes (\<lambda>c. c = newline) s"

definition print_for_the_model :: "record_of_work \<Rightarrow> string" where
  "print_for_the_model r =
     (case ask_for_the_model (g_ask (r_goal r)) of
        (shown, note) \<Rightarrow>
          if note = [] then print_whole r
          else
            let cut_record = r\<lparr>r_goal := (r_goal r)\<lparr>g_ask := shown\<rparr>\<rparr>;
                lines = split_on (trim_newlines (print_whole cut_record)) [newline]
            in join [newline] (insert_after_ask note lines) @ [newline])"

end
