(* ===== verification/Record_Parse.thy ===== *)
theory Record_Parse
  imports Record_Print
begin

text \<open>
  \<open>internal/record/parse.go\<close> and \<open>parseitems.go\<close>: the one reader of the text
  form. The Go \<open>reader\<close> is the record \<open>reader\<close>; its methods, which change it in place,
  are functions to \<open>record_error + reader\<close>. Every error of a method is made by \<open>fail\<close> or
  \<open>failRule\<close>, which put the line in front, so the line is added once, in \<open>read_next\<close>.
\<close>

section \<open>Labels of results\<close>

text \<open>\<open>knownResultID\<close> of \<open>text.go\<close>, \<open>ResultNumber\<close>, \<open>nextResultID\<close> and
  \<open>labelNumber\<close>. The last strips the bytes before the first digit: no byte of a rune outside ASCII
  is a digit, so stripping runes does the same.\<close>

definition known_result_id :: "record_kind \<Rightarrow> string \<Rightarrow> string \<Rightarrow> bool" where
  "known_result_id kind record_id i =
     (if kind = record_job
      then (case parse_report_id i of None \<Rightarrow> False | Some (job, _) \<Rightarrow> job = record_id)
      else parse_result_id i \<noteq> None)"

definition result_number :: "header \<Rightarrow> string \<Rightarrow> int option" where
  "result_number h i =
     (if h_kind h = record_job
      then (case parse_report_id i of
              None \<Rightarrow> None | Some (job, n) \<Rightarrow> if job = h_id h then Some n else None)
      else parse_result_id i)"

definition next_result_id :: "header \<Rightarrow> int \<Rightarrow> string" where
  "next_result_id h sofar =
     (if h_kind h = record_job then report_id (h_id h) (wrap64 (sofar + 1))
      else result_id (wrap64 (sofar + 1)))"

definition label_number :: "string \<Rightarrow> int option" where
  "label_number i = read_count (dropWhile (\<lambda>c. \<not> is_digit c) i)"

section \<open>Single items\<close>

definition read_plain_line :: "string \<Rightarrow> record_error + string" where
  "read_plain_line s = (if s = [] then Inl Unnamed else Inr (unfold_text s))"

definition read_check_mark :: "string \<Rightarrow> record_error + (bool \<times> string)" where
  "read_check_mark s =
     (case cut_prefix s (mark_done @ '' '') of
        Some rest \<Rightarrow> Inr (True, rest)
      | None \<Rightarrow>
          (case cut_prefix s (mark_waiting @ '' '') of
             Some rest \<Rightarrow> Inr (False, rest)
           | None \<Rightarrow> Inl Unnamed))"

definition split_at_arrow :: "(string \<Rightarrow> bool) \<Rightarrow> string \<Rightarrow> string \<times> string" where
  "split_at_arrow is_proof s =
     (case cut_suffix s arrow_end of
        Some body \<Rightarrow> (body, [])
      | None \<Rightarrow>
          (case last_index s arrow of
             None \<Rightarrow> (s, [])
           | Some at \<Rightarrow>
               let candidate = drop (at + length arrow) s
               in if \<not> is_proof candidate then (s, []) else (take at s, candidate)))"

definition counts_upwards :: "int \<Rightarrow> string \<Rightarrow> int \<Rightarrow> bool" where
  "counts_upwards number earlier before_number \<longleftrightarrow> earlier = [] \<or> before_number < number"

definition number_or_zero :: "int option \<Rightarrow> int" where
  "number_or_zero n = (case n of None \<Rightarrow> 0 | Some k \<Rightarrow> k)"

definition proves_a_done_line :: "header \<Rightarrow> string \<Rightarrow> bool" where
  "proves_a_done_line h candidate =
     (case unquote candidate of
        Some words \<Rightarrow> words \<noteq> []
      | None \<Rightarrow> known_result_id (h_kind h) (h_id h) candidate)"

definition read_done_line :: "header \<Rightarrow> string \<Rightarrow> record_error + done_line" where
  "read_done_line h s =
     and_then (read_check_mark s) (\<lambda>(marked, rest).
       case split_at_arrow (proves_a_done_line h) rest of (body, proof) \<Rightarrow>
         if body = [] then Inl Unnamed
         else
           let line = (case unquote proof of
                 Some reply \<Rightarrow>
                   \<lparr>dl_text = unfold_text body, dl_done = marked, dl_result = [], dl_reply = reply\<rparr>
               | None \<Rightarrow>
                   \<lparr>dl_text = unfold_text body, dl_done = marked, dl_result = unfold_text proof,
                     dl_reply = []\<rparr>)
           in if marked \<and> dl_result line = [] \<and> dl_reply line = []
              then Inl (Breaks ErrDoneLineNeedsProof) else Inr line)"

definition read_correction :: "correction list \<Rightarrow> string \<Rightarrow> record_error + correction" where
  "read_correction corrections s =
     (case cut s '' '' of
        (i, words, split) \<Rightarrow>
          if \<not> split \<or> i \<noteq> correction_id (int (length corrections) + 1)
          then Inl (Breaks ErrIdentifiersOutOfOrder)
          else (case unquote words of
                  None \<Rightarrow> Inl Unnamed
                | Some said \<Rightarrow>
                    if said = [] then Inl Unnamed else Inr \<lparr>co_id = i, co_text = said\<rparr>))"

definition is_result_id :: "string \<Rightarrow> bool" where
  "is_result_id candidate \<longleftrightarrow> parse_result_id candidate \<noteq> None"

definition read_plan_step :: "plan_step list \<Rightarrow> string \<Rightarrow> record_error + plan_step" where
  "read_plan_step plan s =
     and_then (read_check_mark s) (\<lambda>(marked, rest).
       case split_at_arrow is_result_id rest of (body, proof) \<Rightarrow>
         (case cut body '' '' of (number_text, what, split) \<Rightarrow>
            if \<not> split \<or> read_count number_text \<noteq> Some (int (length plan) + 1) then Inl Unnamed
            else if what = [] then Inl Unnamed
            else if marked \<and> proof = [] then Inl (Breaks ErrPlanStepNeedsResult)
            else Inr \<lparr>ps_number = int (length plan) + 1, ps_text = unfold_text what,
                   ps_done = marked, ps_result = unfold_text proof\<rparr>))"

definition is_report_of_this_job :: "header \<Rightarrow> string \<Rightarrow> bool" where
  "is_report_of_this_job h candidate =
     (case parse_report_id candidate of None \<Rightarrow> False | Some (job, _) \<Rightarrow> job = h_id h)"

definition split_due_date :: "string \<Rightarrow> string \<times> string" where
  "split_due_date s =
     (case last_index s due_mark of
        None \<Rightarrow> (s, [])
      | Some at \<Rightarrow>
          if length s \<le> at + length due_mark then (s, [])
          else (take at s, drop (at + length due_mark) s))"

text \<open>\<open>checkTaskOrder\<close>: the number of the last task on the list, or none.\<close>

definition task_in_order :: "job_task list \<Rightarrow> int \<Rightarrow> bool" where
  "task_in_order tasks number \<longleftrightarrow>
     tasks = [] \<or> number_or_zero (parse_task_id (jt_id (last tasks))) < number"

definition read_job_task :: "header \<Rightarrow> job_task list \<Rightarrow> string \<Rightarrow> record_error + job_task" where
  "read_job_task h tasks s =
     and_then (read_check_mark s) (\<lambda>(marked, rest).
       case split_at_arrow (is_report_of_this_job h) rest of (body, proof) \<Rightarrow>
         (case cut body '' '' of (i, what, split) \<Rightarrow>
            (case parse_task_id i of
               None \<Rightarrow> Inl Unnamed
             | Some number \<Rightarrow>
                 if \<not> split \<or> what = [] then Inl Unnamed
                 else if \<not> task_in_order tasks number then Inl (Breaks ErrTasksOutOfOrder)
                 else if marked \<and> proof = [] then Inl (Breaks ErrJobTaskNeedsReport)
                 else (case split_due_date what of (txt, due) \<Rightarrow>
                   Inr \<lparr>jt_id = i, jt_text = unfold_text txt, jt_done = marked,
                     jt_report = unfold_text proof, jt_due = unfold_text due\<rparr>))))"

definition read_result_line :: "header \<Rightarrow> result_line list \<Rightarrow> string \<Rightarrow> record_error + result_line" where
  "read_result_line h results s =
     (case (case cut_prefix s (mark_pinned @ '' '') of Some rest \<Rightarrow> (True, rest) | None \<Rightarrow> (False, s)) of
        (pinned, rest) \<Rightarrow>
          (case cut rest '' '' of (i, summary, split) \<Rightarrow>
             (case result_number h i of
                None \<Rightarrow> Inl Unnamed
              | Some number \<Rightarrow>
                  if \<not> split then Inl Unnamed
                  else if summary = [] then Inl Unnamed
                  else if results \<noteq> []
                    \<and> \<not> counts_upwards number (rl_id (last results))
                          (number_or_zero (result_number h (rl_id (last results))))
                  then Inl (Breaks ErrIdentifiersOutOfOrder)
                  else Inr \<lparr>rl_id = i, rl_summary = unfold_text summary, rl_pinned = pinned\<rparr>)))"

definition split_at_join :: "string \<Rightarrow> string \<Rightarrow> rule \<Rightarrow> record_error + (string \<times> string)" where
  "split_at_join body join_words rule_broken =
     (case cut_suffix body full_stop of
        None \<Rightarrow> Inl Unnamed
      | Some trimmed \<Rightarrow>
          (case last_index trimmed join_words of
             None \<Rightarrow> Inl (Breaks rule_broken)
           | Some at \<Rightarrow>
               let what = take at trimmed; why = drop (at + length join_words) trimmed
               in if what = [] \<or> why = [] then Inl (Breaks rule_broken)
                  else Inr (unfold_text what, unfold_text why)))"

text \<open>What \<open>readDecision\<close> and \<open>readFailure\<close> share: the label, its order, and the two halves.
  \<open>labels\<close> are those of the list so far.\<close>

definition read_lesson ::
  "(int \<Rightarrow> string) \<Rightarrow> string \<Rightarrow> rule \<Rightarrow> string list \<Rightarrow> string \<Rightarrow> record_error + (string \<times> string \<times> string)"
where
  "read_lesson write_label join_words needs labels s =
     (case cut s '' '' of (i, body, split) \<Rightarrow>
        (case label_number i of
           None \<Rightarrow> Inl (Breaks ErrIdentifiersOutOfOrder)
         | Some number \<Rightarrow>
             if \<not> split \<or> write_label number \<noteq> i then Inl (Breaks ErrIdentifiersOutOfOrder)
             else if labels \<noteq> []
               \<and> \<not> counts_upwards number (last labels) (number_or_zero (label_number (last labels)))
             then Inl (Breaks ErrIdentifiersOutOfOrder)
             else and_then (split_at_join body join_words needs) (\<lambda>(what, why). Inr (i, what, why))))"

definition read_decision :: "decision list \<Rightarrow> string \<Rightarrow> record_error + decision" where
  "read_decision decisions s =
     and_then (read_lesson decision_id reason_join ErrDecisionNeedsReason (map de_id decisions) s)
       (\<lambda>(i, what, why). Inr \<lparr>de_id = i, de_text = what, de_reason = why\<rparr>)"

definition read_failure :: "failure list \<Rightarrow> string \<Rightarrow> record_error + failure" where
  "read_failure failures s =
     and_then (read_lesson failure_id cause_join ErrFailureNeedsCause (map fa_id failures) s)
       (\<lambda>(i, what, why). Inr \<lparr>fa_id = i, fa_text = what, fa_cause = why\<rparr>)"

section \<open>The reader\<close>

record reader =
  rd_record :: record_of_work
  rd_headings :: nat
  rd_list :: string
  rd_line :: nat
  rd_saw_budget :: bool
  rd_saw_progress :: bool

definition start_reader :: reader where
  "start_reader = \<lparr>rd_record = empty_record, rd_headings = 0, rd_list = [], rd_line = 0,
     rd_saw_budget = False, rd_saw_progress = False\<rparr>"

abbreviation rd_header :: "reader \<Rightarrow> header" where
  "rd_header rd \<equiv> r_header (rd_record rd)"

definition with_header :: "header \<Rightarrow> reader \<Rightarrow> reader" where
  "with_header h rd = rd\<lparr>rd_record := (rd_record rd)\<lparr>r_header := h\<rparr>\<rparr>"

definition with_goal :: "(goal \<Rightarrow> goal) \<Rightarrow> reader \<Rightarrow> reader" where
  "with_goal f rd = rd\<lparr>rd_record := (rd_record rd)\<lparr>r_goal := f (r_goal (rd_record rd))\<rparr>\<rparr>"

definition with_rules :: "(rules \<Rightarrow> rules) \<Rightarrow> reader \<Rightarrow> reader" where
  "with_rules f rd = rd\<lparr>rd_record := (rd_record rd)\<lparr>r_rules := f (r_rules (rd_record rd))\<rparr>\<rparr>"

definition with_work :: "(work \<Rightarrow> work) \<Rightarrow> reader \<Rightarrow> reader" where
  "with_work f rd = rd\<lparr>rd_record := (rd_record rd)\<lparr>r_work := f (r_work (rd_record rd))\<rparr>\<rparr>"

definition with_lessons :: "(lessons \<Rightarrow> lessons) \<Rightarrow> reader \<Rightarrow> reader" where
  "with_lessons f rd = rd\<lparr>rd_record := (rd_record rd)\<lparr>r_lessons := f (r_lessons (rd_record rd))\<rparr>\<rparr>"

lemmas with_defs = with_header_def with_goal_def with_rules_def with_work_def with_lessons_def

section \<open>The header\<close>

definition read_words_field :: "string \<Rightarrow> record_error + string" where
  "read_words_field v =
     (if v = [] \<or> v \<noteq> trim_space v then Inl Unnamed else Inr (unfold_text v))"

definition read_budget_part :: "header \<Rightarrow> string \<Rightarrow> record_error + header" where
  "read_budget_part h part =
     (case cut part '' '' of (count_text, unit, _) \<Rightarrow>
        (case atoi count_text of
           None \<Rightarrow> Inl Unnamed
         | Some number \<Rightarrow>
             if number < 0 then Inl Unnamed
             else if unit = ''rounds'' then Inr (h\<lparr>h_rounds_left := number, h_no_round_budget := False\<rparr>)
             else if unit = ''minutes'' then Inr (h\<lparr>h_minutes_left := number, h_no_time_budget := False\<rparr>)
             else Inr h))"

definition read_budget_field :: "reader \<Rightarrow> string \<Rightarrow> record_error + reader" where
  "read_budget_field rd field =
     (let h = (rd_header rd)\<lparr>h_no_round_budget := True, h_no_time_budget := True\<rparr> in
      if field = field_no_budget then Inr ((with_header h rd)\<lparr>rd_saw_budget := True\<rparr>)
      else (case cut_prefix field label_budget of
              None \<Rightarrow> Inl Unnamed
            | Some rest \<Rightarrow>
                and_then (each_in_turn read_budget_part h (split_on rest '', '')) (\<lambda>h'.
                  if print_budget h' \<noteq> field then Inl Unnamed
                  else Inr ((with_header h' rd)\<lparr>rd_saw_budget := True\<rparr>))))"

text \<open>The two numbers \<open>fmt.Sscanf\<close> reads are printed again and have to give the field back, so
  the field is the printed form of two numbers or it is refused, whatever else the scanner takes.\<close>

definition scan_progress :: "string \<Rightarrow> (int \<times> int) option" where
  "scan_progress field =
     (case cut field '' of '' of (done_text, rest, _) \<Rightarrow>
        (case (atoi done_text, cut_suffix rest '' tasks done'') of
           (Some finished, Some total_text) \<Rightarrow>
             map_option (\<lambda>all_tasks. (finished, all_tasks)) (atoi total_text)
         | _ \<Rightarrow> None))"

definition read_progress_field :: "reader \<Rightarrow> string \<Rightarrow> record_error + reader" where
  "read_progress_field rd field =
     (case scan_progress field of
        None \<Rightarrow> Inl Unnamed
      | Some (finished, all_tasks) \<Rightarrow>
          if finished < 0 \<or> all_tasks < 0 \<or> print_progress finished all_tasks \<noteq> field then Inl Unnamed
          else Inr ((with_header ((rd_header rd)\<lparr>h_tasks_done := finished, h_tasks_total := all_tasks\<rparr>) rd)
                      \<lparr>rd_saw_progress := True\<rparr>))"

definition read_header_field :: "reader \<Rightarrow> string \<Rightarrow> record_error + reader" where
  "read_header_field rd field =
     (case cut_prefix field ''from '' of
        Some origin \<Rightarrow>
          and_then (read_words_field origin) (\<lambda>w. Inr (with_header ((rd_header rd)\<lparr>h_origin := w\<rparr>) rd))
      | None \<Rightarrow>
          if h_kind (rd_header rd) = record_task then read_budget_field rd field
          else (case cut_prefix field ''next: '' of
                  Some due \<Rightarrow>
                    and_then (read_words_field due)
                      (\<lambda>w. Inr (with_header ((rd_header rd)\<lparr>h_next_due := w\<rparr>) rd))
                | None \<Rightarrow>
                    if prefix label_proved field then Inr rd else read_progress_field rd field))"

definition check_header_is_whole :: "reader \<Rightarrow> record_error + reader" where
  "check_header_is_whole rd =
     (if h_kind (rd_header rd) = record_task \<and> \<not> rd_saw_budget rd then Inl Unnamed
      else if h_kind (rd_header rd) = record_job \<and> \<not> rd_saw_progress rd then Inl Unnamed
      else Inr rd)"

definition read_header :: "reader \<Rightarrow> string \<Rightarrow> record_error + reader" where
  "read_header rd s =
     (case cut_prefix s ''# '' of
        None \<Rightarrow> Inl Unnamed
      | Some rest \<Rightarrow>
          let header_parts = split_on rest header_gap in
          (case cut (hd header_parts) '' '' of (kind, i, split) \<Rightarrow>
             if \<not> split \<or> read_count i = None then Inl Unnamed
             else if kind \<noteq> record_task \<and> kind \<noteq> record_job then Inl Unnamed
             else if length header_parts < 2 \<or> \<not> known_status (header_parts ! 1) then Inl Unnamed
             else
               let rd' = with_header ((rd_header rd)\<lparr>h_kind := kind, h_id := unfold_text i,
                           h_status := header_parts ! 1\<rparr>) rd
               in and_then (each_in_turn read_header_field rd' (drop 2 header_parts)) check_header_is_whole))"

definition read_cost_line :: "reader \<Rightarrow> string \<Rightarrow> record_error + reader" where
  "read_cost_line rd s =
     (case cut_prefix s ''this turn: '' of
        None \<Rightarrow> Inl Unnamed
      | Some rest \<Rightarrow>
          let parts = split_on rest '', '' in
          if length parts \<noteq> 3 then Inl Unnamed
          else (case (read_thousands (parts ! 0) '' tokens in'',
                      read_thousands (parts ! 1) '' of them cached'',
                      read_thousands (parts ! 2) '' out'') of
                  (Some tokens_in, Some cached, Some tokens_out) \<Rightarrow>
                    let cost = \<lparr>input_tokens = tokens_in, cached_input_tokens = cached,
                                output_tokens = tokens_out\<rparr>
                    in if print_cost_line cost \<noteq> s then Inl Unnamed
                       else Inr (with_header ((rd_header rd)\<lparr>h_cost := cost\<rparr>) rd)
                | _ \<Rightarrow> Inl Unnamed))"

section \<open>Parts, lists and items\<close>

definition heading_order :: "string list" where
  "heading_order = [heading_goal, heading_rules, heading_work, heading_lessons]"

definition open_section :: "reader \<Rightarrow> string \<Rightarrow> record_error + reader" where
  "open_section rd s =
     (if length heading_order \<le> rd_headings rd \<or> s \<noteq> heading_order ! rd_headings rd then Inl Unnamed
      else Inr (rd\<lparr>rd_headings := rd_headings rd + 1, rd_list := []\<rparr>))"

definition open_one_of_the_labels :: "string list \<Rightarrow> reader \<Rightarrow> string \<Rightarrow> record_error + reader" where
  "open_one_of_the_labels labels rd s =
     (if s \<in> set labels then Inr (rd\<lparr>rd_list := s\<rparr>) else Inl Unnamed)"

definition open_goal_list :: "reader \<Rightarrow> string \<Rightarrow> record_error + reader" where
  "open_goal_list rd s =
     (case cut_prefix s label_ask of
        Some ask \<Rightarrow>
          (case unquote ask of
             None \<Rightarrow> Inl Unnamed
           | Some words \<Rightarrow>
               if words = [] then Inl Unnamed
               else Inr ((with_goal (\<lambda>g. g\<lparr>g_ask := words\<rparr>) rd)\<lparr>rd_list := []\<rparr>))
      | None \<Rightarrow>
          (case cut_prefix s label_name of
             Some nm \<Rightarrow>
               if nm = [] then Inl Unnamed
               else Inr ((with_goal (\<lambda>g. g\<lparr>g_name := unfold_text nm\<rparr>) rd)\<lparr>rd_list := []\<rparr>)
           | None \<Rightarrow>
               (case cut_prefix s label_why of
                  Some why \<Rightarrow>
                    if why = [] then Inl Unnamed
                    else Inr ((with_goal (\<lambda>g. g\<lparr>g_why := unfold_text why\<rparr>) rd)\<lparr>rd_list := []\<rparr>)
                | None \<Rightarrow> open_one_of_the_labels [label_done_when] rd s)))"

definition open_work_list :: "reader \<Rightarrow> string \<Rightarrow> record_error + reader" where
  "open_work_list rd s =
     (if h_kind (rd_header rd) = record_job
      then open_one_of_the_labels [label_situation, label_tasks, label_reports] rd s
      else open_one_of_the_labels [label_situation, label_plan, label_results] rd s)"

definition open_list :: "reader \<Rightarrow> string \<Rightarrow> record_error + reader" where
  "open_list rd s =
     (if rd_headings rd = 1 then open_goal_list rd s
      else if rd_headings rd = 2 then open_one_of_the_labels [label_corrections, label_stop_when] rd s
      else if rd_headings rd = 3 then open_work_list rd s
      else if rd_headings rd = 4 then open_one_of_the_labels [label_decisions, label_failures] rd s
      else Inl Unnamed)"

definition read_item :: "reader \<Rightarrow> string \<Rightarrow> record_error + reader" where
  "read_item rd s =
     (let r = rd_record rd; h = r_header r; l = rd_list rd in
      if l = label_done_when then
        and_then (read_done_line h s)
          (\<lambda>x. Inr (with_goal (\<lambda>g. g\<lparr>g_done_when := g_done_when g @ [x]\<rparr>) rd))
      else if l = label_corrections then
        and_then (read_correction (r_corrections (r_rules r)) s)
          (\<lambda>x. Inr (with_rules (\<lambda>r. r\<lparr>r_corrections := r_corrections r @ [x]\<rparr>) rd))
      else if l = label_stop_when then
        and_then (read_plain_line s)
          (\<lambda>x. Inr (with_rules (\<lambda>r. r\<lparr>r_stop_when := r_stop_when r @ [x]\<rparr>) rd))
      else if l = label_situation then
        and_then (read_plain_line s)
          (\<lambda>x. Inr (with_work (\<lambda>w. w\<lparr>w_situation := w_situation w @ [x]\<rparr>) rd))
      else if l = label_plan then
        and_then (read_plan_step (w_plan (r_work r)) s)
          (\<lambda>x. Inr (with_work (\<lambda>w. w\<lparr>w_plan := w_plan w @ [x]\<rparr>) rd))
      else if l = label_tasks then
        and_then (read_job_task h (w_tasks (r_work r)) s)
          (\<lambda>x. Inr (with_work (\<lambda>w. w\<lparr>w_tasks := w_tasks w @ [x]\<rparr>) rd))
      else if l = label_results \<or> l = label_reports then
        and_then (read_result_line h (w_results (r_work r)) s)
          (\<lambda>x. Inr (with_work (\<lambda>w. w\<lparr>w_results := w_results w @ [x]\<rparr>) rd))
      else if l = label_decisions then
        and_then (read_decision (l_decisions (r_lessons r)) s)
          (\<lambda>x. Inr (with_lessons (\<lambda>l. l\<lparr>l_decisions := l_decisions l @ [x]\<rparr>) rd))
      else if l = label_failures then
        and_then (read_failure (l_failures (r_lessons r)) s)
          (\<lambda>x. Inr (with_lessons (\<lambda>l. l\<lparr>l_failures := l_failures l @ [x]\<rparr>) rd))
      else Inl Unnamed)"

definition read_line :: "reader \<Rightarrow> string \<Rightarrow> record_error + reader" where
  "read_line rd s =
     (if rd_line rd = 1 then read_header rd s
      else if rd_line rd = 2 \<and> h_kind (rd_header rd) = record_task then read_cost_line rd s
      else if trim_space s = [] then Inr (rd\<lparr>rd_list := []\<rparr>)
      else if prefix ''## '' s then open_section rd s
      else (case cut_prefix s item_mark of
              Some item \<Rightarrow> read_item rd item
            | None \<Rightarrow> open_list rd s))"

section \<open>The whole text\<close>

definition max_record_bytes :: nat where "max_record_bytes = 1048576"
definition max_record_lines :: nat where "max_record_lines = 20000"

definition read_next :: "reader \<Rightarrow> string \<Rightarrow> record_error + reader" where
  "read_next rd s =
     (let rd' = rd\<lparr>rd_line := rd_line rd + 1\<rparr>
      in (case read_line rd' s of Inl e \<Rightarrow> Inl (AtLine (rd_line rd') e) | Inr r \<Rightarrow> Inr r))"

definition finish_reading :: "reader \<Rightarrow> record_error + record_of_work" where
  "finish_reading rd =
     (if rd_headings rd \<noteq> length heading_order then Inl Unnamed
      else if g_ask (r_goal (rd_record rd)) = [] then Inl Unnamed
      else Inr (rd_record rd))"

definition parse_record :: "string \<Rightarrow> record_error + record_of_work" where
  "parse_record s =
     (if max_record_bytes < length s then Inl Unnamed
      else let lines = split_on (trim_suffix s [newline]) [newline] in
           if max_record_lines < length lines then Inl Unnamed
           else and_then (each_in_turn read_next start_reader lines) finish_reading)"

end
