(* ===== verification/Record_Lists.thy ===== *)
theory Record_Lists
  imports Record_Parse
begin

text \<open>
  The lists of a record as the reader and the printer see them. The locale \<open>record_list\<close> is
  what they agree on for one list: the label that opens it, where its items are kept, how one item is
  read after the items before it. Its lemmas reduce reading a printed list to reading its items one
  after another (\<open>reads_list\<close>), and it is interpreted on each of the record's lists.
\<close>

section \<open>Items read one after another\<close>

fun read_all :: "('a list \<Rightarrow> string \<Rightarrow> record_error + 'a) \<Rightarrow> 'a list \<Rightarrow> string list \<Rightarrow> 'a list option"
where
  "read_all rd earlier [] = Some earlier"
| "read_all rd earlier (s # ss) =
     (case rd earlier s of Inl e \<Rightarrow> None | Inr x \<Rightarrow> read_all rd (earlier @ [x]) ss)"

fun reads_list :: "('a list \<Rightarrow> string \<Rightarrow> record_error + 'a) \<Rightarrow> ('a \<Rightarrow> string) \<Rightarrow> 'a list \<Rightarrow> 'a list \<Rightarrow> bool"
where
  "reads_list rd pr earlier [] = True"
| "reads_list rd pr earlier (x # xs) \<longleftrightarrow>
     rd earlier (pr x) = Inr x \<and> reads_list rd pr (earlier @ [x]) xs"

lemma read_all_extends:
  "read_all rd earlier ss = Some zs \<Longrightarrow> \<exists>ys. zs = earlier @ ys \<and> length ys = length ss"
proof (induction ss arbitrary: earlier)
  case (Cons s ss)
  then obtain x where "rd earlier s = Inr x" "read_all rd (earlier @ [x]) ss = Some zs"
    by (auto split: sum.splits)
  with Cons.IH[of "earlier @ [x]"] show ?case by force
qed simp

lemma read_all_reads_list:
  "read_all rd earlier (map pr xs) = Some (earlier @ xs) \<longleftrightarrow> reads_list rd pr earlier xs"
proof (induction xs arbitrary: earlier)
  case (Cons x xs)
  show ?case
  proof (cases "rd earlier (pr x)")
    case (Inr y)
    have "y = x" if "read_all rd (earlier @ [y]) (map pr xs) = Some (earlier @ x # xs)"
      using read_all_extends[OF that] by auto
    then show ?thesis using Inr Cons.IH[of "earlier @ [x]"] by auto
  qed simp
qed simp

lemma reads_list_append:
  "reads_list rd pr earlier (xs @ ys) \<longleftrightarrow>
     reads_list rd pr earlier xs \<and> reads_list rd pr (earlier @ xs) ys"
  by (induction xs arbitrary: earlier) auto

section \<open>Lines of a reader\<close>

definition past_header :: "reader \<Rightarrow> bool" where
  "past_header rd \<longleftrightarrow> 2 \<le> rd_line rd \<or> (rd_line rd = 1 \<and> h_kind (rd_header rd) \<noteq> record_task)"

definition body_line :: "reader \<Rightarrow> string \<Rightarrow> record_error + reader" where
  "body_line rd s =
     (if trim_space s = [] then Inr (rd\<lparr>rd_list := []\<rparr>)
      else if prefix ''## '' s then open_section rd s
      else (case cut_prefix s item_mark of
              Some item \<Rightarrow> read_item rd item
            | None \<Rightarrow> open_list rd s))"

lemma read_line_body:
  "rd_line rd \<noteq> 1 \<Longrightarrow> rd_line rd \<noteq> 2 \<or> h_kind (rd_header rd) \<noteq> record_task \<Longrightarrow>
     read_line rd s = body_line rd s"
  by (auto simp: read_line_def body_line_def)

lemma read_next_body:
  assumes "past_header rd"
  shows "read_next rd s =
       (case body_line (rd\<lparr>rd_line := rd_line rd + 1\<rparr>) s of
          Inl e \<Rightarrow> Inl (AtLine (rd_line rd + 1) e) | Inr r \<Rightarrow> Inr r)"
proof -
  have "read_line (rd\<lparr>rd_line := rd_line rd + 1\<rparr>) s = body_line (rd\<lparr>rd_line := rd_line rd + 1\<rparr>) s"
    using assms by (intro read_line_body) (auto simp: past_header_def)
  then show ?thesis by (simp add: read_next_def Let_def split: sum.split)
qed

lemma past_header_simps [simp]:
  "past_header rd \<Longrightarrow> past_header (rd\<lparr>rd_line := rd_line rd + k\<rparr>)"
  "past_header (rd\<lparr>rd_list := l\<rparr>) = past_header rd"
  "past_header (rd\<lparr>rd_headings := n\<rparr>) = past_header rd"
  by (auto simp: past_header_def)

lemma visible_line: "c \<in> set s \<Longrightarrow> byte c < 128 \<Longrightarrow> \<not> is_space (byte c) \<Longrightarrow> trim_space s \<noteq> []"
  using trim_space_not_Nil by blast

lemma trim_space_first:
  "byte c < 128 \<Longrightarrow> \<not> is_space (byte c) \<Longrightarrow> trim_space (c # s) = [] \<longleftrightarrow> False"
  using trim_space_not_Nil[of c "c # s"] by simp

lemma body_line_item: "body_line rd (item_mark @ s) = read_item rd s"
proof -
  have "trim_space (CHR ''-'' # CHR '' '' # s) \<noteq> []"
    using trim_space_first[of "CHR ''-''"] by (simp add: is_space_def)
  then show ?thesis by (simp add: body_line_def item_mark_def)
qed

lemma body_line_blank: "body_line rd [] = Inr (rd\<lparr>rd_list := []\<rparr>)"
  by (simp add: body_line_def)

lemma body_line_heading: "body_line rd (''## '' @ s) = open_section rd (''## '' @ s)"
  using trim_space_first[of "CHR ''#''"] by (simp add: body_line_def is_space_def)

lemma body_line_label:
  assumes "c \<noteq> CHR ''#''" "c \<noteq> CHR ''-''" "byte c < 128" "\<not> is_space (byte c)"
  shows "body_line rd (c # s) = open_list rd (c # s)"
  using trim_space_first[OF assms(3,4)] assms(1,2) by (simp add: body_line_def item_mark_def)

section \<open>One list\<close>

locale record_list =
  fixes label :: string
    and get :: "record_of_work \<Rightarrow> 'a list"
    and put :: "'a list \<Rightarrow> record_of_work \<Rightarrow> record_of_work"
    and rd_one :: "header \<Rightarrow> 'a list \<Rightarrow> string \<Rightarrow> record_error + 'a"
  assumes get_put: "get (put xs r) = xs"
    and put_put: "put xs (put ys r) = put xs r"
    and put_get: "put (get r) r = r"
    and header_put: "r_header (put xs r) = r_header r"
    and read_one: "rd_list rd = label \<Longrightarrow>
      read_item rd s =
        and_then (rd_one (rd_header rd) (get (rd_record rd)) s)
          (\<lambda>x. Inr (rd\<lparr>rd_record := put (get (rd_record rd) @ [x]) (rd_record rd)\<rparr>))"
begin

lemma past_header_put [simp]:
  "past_header (rd\<lparr>rd_record := put xs (rd_record rd)\<rparr>) = past_header rd"
  by (simp add: past_header_def header_put)

text \<open>Printed items read after one another are the items of the list read in order.\<close>

lemma read_items:
  assumes "past_header rd" "rd_list rd = label"
  shows "each_in_turn read_next rd (map ((@) item_mark) ss) = Inr rd' \<longleftrightarrow>
    (\<exists>xs. read_all (rd_one (rd_header rd)) (get (rd_record rd)) ss = Some xs \<and>
       rd' = rd\<lparr>rd_record := put xs (rd_record rd), rd_line := rd_line rd + length ss\<rparr>)"
  using assms
proof (induction ss arbitrary: rd)
  case Nil
  then show ?case by (auto simp: put_get)
next
  case (Cons s ss)
  let ?next = "rd\<lparr>rd_line := rd_line rd + 1\<rparr>"
  have item: "body_line ?next (item_mark @ s) =
      and_then (rd_one (rd_header rd) (get (rd_record rd)) s)
        (\<lambda>x. Inr (?next\<lparr>rd_record := put (get (rd_record rd) @ [x]) (rd_record rd)\<rparr>))"
    using Cons.prems read_one[of ?next s] by (simp add: body_line_item)
  show ?case
  proof (cases "rd_one (rd_header rd) (get (rd_record rd)) s")
    case (Inl e)
    then show ?thesis using Cons.prems item by (simp add: read_next_body)
  next
    case (Inr x)
    let ?after = "?next\<lparr>rd_record := put (get (rd_record rd) @ [x]) (rd_record rd)\<rparr>"
    have step: "read_next rd (item_mark @ s) = Inr ?after"
      using Cons.prems item Inr by (simp add: read_next_body)
    have past: "past_header ?after"
      using Cons.prems(1) by (auto simp: past_header_def header_put)
    have "each_in_turn read_next ?after (map ((@) item_mark) ss) = Inr rd' \<longleftrightarrow>
      (\<exists>xs. read_all (rd_one (rd_header ?after)) (get (rd_record ?after)) ss = Some xs \<and>
         rd' = ?after\<lparr>rd_record := put xs (rd_record ?after), rd_line := rd_line ?after + length ss\<rparr>)"
      using Cons.prems(2) by (intro Cons.IH[OF past]) simp
    then show ?thesis
      using step Inr by (simp add: get_put put_put header_put)
  qed
qed

text \<open>A whole printed list, its label in front.\<close>

lemma read_printed_list:
  assumes past: "past_header rd"
    and opens: "\<And>rd'. rd_headings rd' = rd_headings rd \<Longrightarrow> rd_header rd' = rd_header rd \<Longrightarrow>
      body_line rd' label = Inr (rd'\<lparr>rd_list := label\<rparr>)"
    and empty: "get (rd_record rd) = []"
    and item: "\<And>x. x \<in> set items \<Longrightarrow> line x = item_mark @ pr x"
  shows "each_in_turn read_next rd (print_list label line items) = Inr rd' \<longleftrightarrow>
    (if items = [] then rd' = rd
     else \<exists>xs. read_all (rd_one (rd_header rd)) [] (map pr items) = Some xs \<and>
       rd' = rd\<lparr>rd_list := label, rd_record := put xs (rd_record rd),
                rd_line := rd_line rd + 1 + length items\<rparr>)"
proof (cases "items = []")
  case False
  let ?open = "rd\<lparr>rd_line := rd_line rd + 1, rd_list := label\<rparr>"
  have first: "read_next rd label = Inr ?open"
    using past opens[of "rd\<lparr>rd_line := rd_line rd + 1\<rparr>"] by (simp add: read_next_body)
  have past_open: "past_header ?open"
    using past by (auto simp: past_header_def)
  have "map line items = map ((@) item_mark) (map pr items)" using item by simp
  then have "each_in_turn read_next rd (print_list label line items) =
      each_in_turn read_next ?open (map ((@) item_mark) (map pr items))"
    using False first by (simp add: print_list_def del: map_map)
  then show ?thesis
    using False empty read_items[OF past_open, of "map pr items" rd'] by simp
qed (auto simp: print_list_def)

end

section \<open>The lists of the record\<close>

lemma list_labels_apart [simp]:
  "label_corrections \<noteq> label_done_when" "label_stop_when \<noteq> label_done_when"
  "label_stop_when \<noteq> label_corrections" "label_situation \<noteq> label_done_when"
  "label_situation \<noteq> label_corrections" "label_situation \<noteq> label_stop_when"
  "label_plan \<noteq> label_done_when" "label_plan \<noteq> label_corrections" "label_plan \<noteq> label_stop_when"
  "label_plan \<noteq> label_situation" "label_tasks \<noteq> label_done_when" "label_tasks \<noteq> label_corrections"
  "label_tasks \<noteq> label_stop_when" "label_tasks \<noteq> label_situation" "label_tasks \<noteq> label_plan"
  by (simp_all add: label_defs)

lemma result_labels_apart [simp]:
  "label_results \<noteq> label_done_when" "label_results \<noteq> label_corrections"
  "label_results \<noteq> label_stop_when" "label_results \<noteq> label_situation" "label_results \<noteq> label_plan"
  "label_results \<noteq> label_tasks"
  "label_reports \<noteq> label_done_when" "label_reports \<noteq> label_corrections"
  "label_reports \<noteq> label_stop_when" "label_reports \<noteq> label_situation" "label_reports \<noteq> label_plan"
  "label_reports \<noteq> label_tasks"
  by (simp_all add: label_defs)

lemma lesson_labels_apart [simp]:
  "label_decisions \<noteq> label_done_when" "label_decisions \<noteq> label_corrections"
  "label_decisions \<noteq> label_stop_when" "label_decisions \<noteq> label_situation"
  "label_decisions \<noteq> label_plan" "label_decisions \<noteq> label_tasks" "label_decisions \<noteq> label_results"
  "label_decisions \<noteq> label_reports" "label_failures \<noteq> label_done_when"
  "label_failures \<noteq> label_corrections" "label_failures \<noteq> label_stop_when"
  "label_failures \<noteq> label_situation" "label_failures \<noteq> label_plan" "label_failures \<noteq> label_tasks"
  "label_failures \<noteq> label_results" "label_failures \<noteq> label_reports"
  "label_failures \<noteq> label_decisions"
  by (simp_all add: label_defs)

definition put_done_when :: "done_line list \<Rightarrow> record_of_work \<Rightarrow> record_of_work" where
  "put_done_when xs r = r\<lparr>r_goal := (r_goal r)\<lparr>g_done_when := xs\<rparr>\<rparr>"
definition put_corrections :: "correction list \<Rightarrow> record_of_work \<Rightarrow> record_of_work" where
  "put_corrections xs r = r\<lparr>r_rules := (r_rules r)\<lparr>r_corrections := xs\<rparr>\<rparr>"
definition put_stop_when :: "string list \<Rightarrow> record_of_work \<Rightarrow> record_of_work" where
  "put_stop_when xs r = r\<lparr>r_rules := (r_rules r)\<lparr>r_stop_when := xs\<rparr>\<rparr>"
definition put_situation :: "string list \<Rightarrow> record_of_work \<Rightarrow> record_of_work" where
  "put_situation xs r = r\<lparr>r_work := (r_work r)\<lparr>w_situation := xs\<rparr>\<rparr>"
definition put_plan :: "plan_step list \<Rightarrow> record_of_work \<Rightarrow> record_of_work" where
  "put_plan xs r = r\<lparr>r_work := (r_work r)\<lparr>w_plan := xs\<rparr>\<rparr>"
definition put_tasks :: "job_task list \<Rightarrow> record_of_work \<Rightarrow> record_of_work" where
  "put_tasks xs r = r\<lparr>r_work := (r_work r)\<lparr>w_tasks := xs\<rparr>\<rparr>"
definition put_results :: "result_line list \<Rightarrow> record_of_work \<Rightarrow> record_of_work" where
  "put_results xs r = r\<lparr>r_work := (r_work r)\<lparr>w_results := xs\<rparr>\<rparr>"
definition put_decisions :: "decision list \<Rightarrow> record_of_work \<Rightarrow> record_of_work" where
  "put_decisions xs r = r\<lparr>r_lessons := (r_lessons r)\<lparr>l_decisions := xs\<rparr>\<rparr>"
definition put_failures :: "failure list \<Rightarrow> record_of_work \<Rightarrow> record_of_work" where
  "put_failures xs r = r\<lparr>r_lessons := (r_lessons r)\<lparr>l_failures := xs\<rparr>\<rparr>"

lemmas put_defs = put_done_when_def put_corrections_def put_stop_when_def put_situation_def
  put_plan_def put_tasks_def put_results_def put_decisions_def put_failures_def

interpretation done_when_list: record_list label_done_when "\<lambda>r. g_done_when (r_goal r)"
  put_done_when "\<lambda>h _. read_done_line h"
  by unfold_locales (simp_all add: put_defs read_item_def with_defs Let_def)

interpretation corrections_list: record_list label_corrections "\<lambda>r. r_corrections (r_rules r)"
  put_corrections "\<lambda>_. read_correction"
  by unfold_locales (simp_all add: put_defs read_item_def with_defs Let_def)

interpretation stop_when_list: record_list label_stop_when "\<lambda>r. r_stop_when (r_rules r)"
  put_stop_when "\<lambda>_ _. read_plain_line"
  by unfold_locales (simp_all add: put_defs read_item_def with_defs Let_def)

interpretation situation_list: record_list label_situation "\<lambda>r. w_situation (r_work r)"
  put_situation "\<lambda>_ _. read_plain_line"
  by unfold_locales (simp_all add: put_defs read_item_def with_defs Let_def)

interpretation plan_list: record_list label_plan "\<lambda>r. w_plan (r_work r)"
  put_plan "\<lambda>_. read_plan_step"
  by unfold_locales (simp_all add: put_defs read_item_def with_defs Let_def)

interpretation tasks_list: record_list label_tasks "\<lambda>r. w_tasks (r_work r)"
  put_tasks read_job_task
  by unfold_locales (simp_all add: put_defs read_item_def with_defs Let_def)

interpretation results_list: record_list label_results "\<lambda>r. w_results (r_work r)"
  put_results read_result_line
  by unfold_locales (simp_all add: put_defs read_item_def with_defs Let_def)

interpretation reports_list: record_list label_reports "\<lambda>r. w_results (r_work r)"
  put_results read_result_line
  by unfold_locales (simp_all add: put_defs read_item_def with_defs Let_def)

interpretation decisions_list: record_list label_decisions "\<lambda>r. l_decisions (r_lessons r)"
  put_decisions "\<lambda>_. read_decision"
  by unfold_locales (simp_all add: put_defs read_item_def with_defs Let_def)

interpretation failures_list: record_list label_failures "\<lambda>r. l_failures (r_lessons r)"
  put_failures "\<lambda>_. read_failure"
  by unfold_locales (simp_all add: put_defs read_item_def with_defs Let_def)

end
