(* ===== verification/Record_Reads_Back.thy ===== *)
theory Record_Reads_Back
  imports Record_Lists
begin

text \<open>
  Which records their own text brings back. \<open>reads_back\<close> is the check the keeper makes before
  every change; \<open>reads_back_iff\<close> takes it apart into the header, the ask and one condition for
  each list, so that a change to one list leaves the others alone. \<open>outcome\<close> is what a reader
  holds after some lines, without the line it stands at.
\<close>

section \<open>Outcomes\<close>

definition outcome :: "reader \<Rightarrow> string list \<Rightarrow> (nat \<times> record_of_work) option" where
  "outcome rd ls =
     (case each_in_turn read_next rd ls of
        Inl e \<Rightarrow> None | Inr rd' \<Rightarrow> Some (rd_headings rd', rd_record rd'))"

lemma body_line_keeps_line: "body_line rd s = Inr rd' \<Longrightarrow> rd_line rd' = rd_line rd"
  by (auto simp: body_line_def open_section_def open_list_def open_goal_list_def open_work_list_def
      open_one_of_the_labels_def read_item_def with_defs Let_def
      split: if_splits option.splits)

lemma read_next_line: "past_header rd \<Longrightarrow> read_next rd s = Inr rd' \<Longrightarrow> rd_line rd' = rd_line rd + 1"
  by (auto simp: read_next_body dest!: body_line_keeps_line split: sum.splits)

lemma read_next_past: "past_header rd \<Longrightarrow> read_next rd s = Inr rd' \<Longrightarrow> past_header rd'"
  using read_next_line[of rd s rd'] by (auto simp: past_header_def)

lemma each_past: "past_header rd \<Longrightarrow> each_in_turn read_next rd ls = Inr rd' \<Longrightarrow> past_header rd'"
  by (rule each_in_turn_keeps[where I = past_header]) (auto dest: read_next_past)

lemma outcome_Nil [simp]: "outcome rd [] = Some (rd_headings rd, rd_record rd)"
  by (simp add: outcome_def)

lemma outcome_append:
  assumes past: "past_header rd"
    and rest: "\<And>rd'. past_header rd' \<Longrightarrow> outcome rd (as) = Some (rd_headings rd', rd_record rd') \<Longrightarrow>
      outcome rd' bs = f (rd_headings rd') (rd_record rd')"
  shows "outcome rd (as @ bs) = (case outcome rd as of None \<Rightarrow> None | Some (n, r) \<Rightarrow> f n r)"
proof (cases "each_in_turn read_next rd as")
  case (Inl e)
  then show ?thesis by (simp add: outcome_def each_in_turn_append)
next
  case (Inr rd')
  then have "outcome rd as = Some (rd_headings rd', rd_record rd')" by (simp add: outcome_def)
  moreover from this have "outcome rd' bs = f (rd_headings rd') (rd_record rd')"
    using rest each_past[OF past Inr] by blast
  moreover have "outcome rd (as @ bs) = outcome rd' bs"
    using Inr by (simp add: outcome_def each_in_turn_append)
  ultimately show ?thesis by simp
qed

section \<open>Headings and labels\<close>

lemma open_part:
  assumes past: "past_header rd" and k: "rd_headings rd = k" "k < 4"
  shows "\<exists>rd'. past_header rd' \<and> rd_headings rd' = k + 1 \<and> rd_record rd' = rd_record rd \<and>
    outcome rd ([] # heading_order ! k # ls) = outcome rd' ls"
proof -
  let ?blank = "rd\<lparr>rd_line := rd_line rd + 1, rd_list := []\<rparr>"
  let ?opened = "?blank\<lparr>rd_line := rd_line rd + 2, rd_headings := k + 1, rd_list := []\<rparr>"
  have blank: "read_next rd [] = Inr ?blank"
    using past by (simp add: read_next_body body_line_blank)
  have past': "past_header ?blank" using past by (auto simp: past_header_def)
  obtain s where s: "heading_order ! k = ''## '' @ s"
    using k(2) by (auto simp: heading_order_def label_defs less_Suc_eq numeral_eq_Suc)
  have "read_next ?blank (heading_order ! k) = Inr ?opened"
    using past' k s body_line_heading[of "?blank\<lparr>rd_line := rd_line ?blank + 1\<rparr>" s]
    by (simp add: read_next_body open_section_def heading_order_def)
  with blank have "outcome rd ([] # heading_order ! k # ls) = outcome ?opened ls"
    by (simp add: outcome_def)
  moreover have "past_header ?opened" using past' by (auto simp: past_header_def)
  ultimately show ?thesis by (intro exI[of _ ?opened]) simp
qed

lemma label_line:
  assumes "l = c # s" "c \<in> set ''DCSPTRF''"
  shows "body_line rd l = open_list rd l"
  unfolding assms(1) using assms(2) by (intro body_line_label) (auto simp: is_space_def)

lemma opens_done_when:
  assumes "rd_headings rd = 1"
  shows "body_line rd label_done_when = Inr (rd\<lparr>rd_list := label_done_when\<rparr>)"
proof -
  have "body_line rd label_done_when = open_list rd label_done_when"
    by (rule label_line[of _ "CHR ''D''" "''one when:''"]) (simp_all add: label_defs)
  then show ?thesis
    using assms
    by (simp add: open_list_def open_goal_list_def open_one_of_the_labels_def label_defs)
qed

lemma opens_rules:
  assumes "rd_headings rd = 2" "l \<in> {label_corrections, label_stop_when}"
  shows "body_line rd l = Inr (rd\<lparr>rd_list := l\<rparr>)"
proof -
  have "body_line rd l = open_list rd l"
    using assms(2) by (cases l; intro label_line) (auto simp: label_defs)
  then show ?thesis using assms by (auto simp: open_list_def open_one_of_the_labels_def)
qed

lemma opens_work:
  assumes "rd_headings rd = 3"
    "l \<in> (if h_kind (rd_header rd) = record_job then {label_situation, label_tasks, label_reports}
          else {label_situation, label_plan, label_results})"
  shows "body_line rd l = Inr (rd\<lparr>rd_list := l\<rparr>)"
proof -
  have "l \<in> {label_situation, label_tasks, label_reports, label_plan, label_results}"
    using assms(2) by (auto split: if_splits)
  then have "body_line rd l = open_list rd l"
    by (cases l; intro label_line) (auto simp: label_defs)
  moreover have "open_list rd l = Inr (rd\<lparr>rd_list := l\<rparr>)"
    using assms
    by (cases "h_kind (rd_header rd) = record_job")
      (simp_all add: open_list_def open_work_list_def open_one_of_the_labels_def)
  ultimately show ?thesis by simp
qed

lemma opens_lessons:
  assumes "rd_headings rd = 4" "l \<in> {label_decisions, label_failures}"
  shows "body_line rd l = Inr (rd\<lparr>rd_list := l\<rparr>)"
proof -
  have "body_line rd l = open_list rd l"
    using assms(2) by (cases l; intro label_line) (auto simp: label_defs)
  then show ?thesis using assms by (auto simp: open_list_def open_one_of_the_labels_def)
qed

definition item_text :: "('a \<Rightarrow> string) \<Rightarrow> 'a \<Rightarrow> string" where
  "item_text pr x = drop (length item_mark) (pr x)"

lemma item_text [simp]: "pr x = item_mark @ s \<Longrightarrow> item_text pr x = s"
  by (simp add: item_text_def)

lemma printed_items:
  "print_done_line a l = item_mark @ item_text (print_done_line a) l"
  "print_correction c = item_mark @ item_text print_correction c"
  "print_plain s = item_mark @ item_text print_plain s"
  "print_plan_step p = item_mark @ item_text print_plan_step p"
  "print_job_task t = item_mark @ item_text print_job_task t"
  "print_result_line r = item_mark @ item_text print_result_line r"
  "print_decision d = item_mark @ item_text print_decision d"
  "print_failure f = item_mark @ item_text print_failure f"
  by (simp_all add: item_text_def print_done_line_def print_correction_def print_plain_def
      print_plan_step_def print_job_task_def print_result_line_def print_decision_def
      print_failure_def print_lesson_def Let_def)

context record_list
begin

lemma outcome_list:
  assumes past: "past_header rd"
    and opens: "\<And>rd'. rd_headings rd' = rd_headings rd \<Longrightarrow> rd_header rd' = rd_header rd \<Longrightarrow>
      body_line rd' label = Inr (rd'\<lparr>rd_list := label\<rparr>)"
    and empty: "get (rd_record rd) = []"
    and item: "\<And>x. line x = item_mark @ item_text line x"
  shows "outcome rd (print_list label line items) =
    (case read_all (rd_one (rd_header rd)) [] (map (item_text line) items) of
       None \<Rightarrow> None
     | Some xs \<Rightarrow> Some (rd_headings rd, put xs (rd_record rd)))"
proof (cases "items = []")
  case True
  have "put [] (rd_record rd) = rd_record rd" using put_get[of "rd_record rd"] empty by simp
  then show ?thesis using True by (simp add: print_list_def)
next
  case False
  have list: "each_in_turn read_next rd (print_list label line items) = Inr rd' \<longleftrightarrow>
    (\<exists>xs. read_all (rd_one (rd_header rd)) [] (map (item_text line) items) = Some xs \<and>
       rd' = rd\<lparr>rd_list := label, rd_record := put xs (rd_record rd),
                rd_line := rd_line rd + 1 + length items\<rparr>)" for rd'
    using read_printed_list[OF past opens empty, where items = items and line = line
        and pr = "item_text line" and rd' = rd', OF _ _ item] False by simp
  show ?thesis
  proof (cases "read_all (rd_one (rd_header rd)) [] (map (item_text line) items)")
    case None
    have "\<exists>e. each_in_turn read_next rd (print_list label line items) = Inl e"
    proof (cases "each_in_turn read_next rd (print_list label line items)")
      case (Inr rd')
      then show ?thesis using list[of rd'] False None by simp
    qed simp
    then show ?thesis using None by (auto simp: outcome_def)
  next
    case (Some xs)
    have "each_in_turn read_next rd (print_list label line items) =
        Inr (rd\<lparr>rd_list := label, rd_record := put xs (rd_record rd),
               rd_line := rd_line rd + 1 + length items\<rparr>)"
      using list Some by simp
    then show ?thesis using Some by (simp add: outcome_def)
  qed
qed

end

section \<open>The goal\<close>

lemma one_goal_line:
  assumes past: "past_header rd" and at: "rd_headings rd = 1"
    and skip: "b \<Longrightarrow> f (r_goal (rd_record rd)) = r_goal (rd_record rd)"
    and line: "\<And>rd'. \<not> b \<Longrightarrow> rd_headings rd' = 1 \<Longrightarrow>
      body_line rd' l = Inr ((with_goal f rd')\<lparr>rd_list := []\<rparr>)"
  shows "\<exists>rd'. past_header rd' \<and> rd_headings rd' = 1 \<and>
    rd_record rd' = (rd_record rd)\<lparr>r_goal := f (r_goal (rd_record rd))\<rparr> \<and>
    (\<forall>ls. outcome rd ((if b then [] else [l]) @ ls) = outcome rd' ls)"
proof (cases b)
  case True
  then show ?thesis using past at skip by (intro exI[of _ rd]) simp
next
  case False
  let ?rd = "(with_goal f (rd\<lparr>rd_line := rd_line rd + 1\<rparr>))\<lparr>rd_list := []\<rparr>"
  have step: "read_next rd l = Inr ?rd"
    using past at line[OF False, of "rd\<lparr>rd_line := rd_line rd + 1\<rparr>"] by (simp add: read_next_body)
  have "past_header ?rd" using past by (auto simp: past_header_def with_goal_def)
  then show ?thesis using False at step
    by (intro exI[of _ ?rd]) (simp add: outcome_def with_goal_def)
qed

lemma goal_lines:
  "rd_headings rd = 1 \<Longrightarrow> s \<noteq> [] \<Longrightarrow>
     body_line rd (label_ask @ quoted s) =
       Inr ((with_goal (\<lambda>g. g\<lparr>g_ask := s\<rparr>) rd)\<lparr>rd_list := []\<rparr>)"
  "rd_headings rd = 1 \<Longrightarrow> s \<noteq> [] \<Longrightarrow>
     body_line rd (label_name @ fold_text s) =
       Inr ((with_goal (\<lambda>g. g\<lparr>g_name := s\<rparr>) rd)\<lparr>rd_list := []\<rparr>)"
  "rd_headings rd = 1 \<Longrightarrow> s \<noteq> [] \<Longrightarrow>
     body_line rd (label_why @ fold_text s) =
       Inr ((with_goal (\<lambda>g. g\<lparr>g_why := s\<rparr>) rd)\<lparr>rd_list := []\<rparr>)"
proof -
  have open_it: "body_line rd (l @ t) = open_list rd (l @ t)"
    if l: "l \<in> {label_ask, label_name, label_why}" for l t
  proof -
    obtain c s where "l = c # s" "c \<in> {CHR ''A'', CHR ''N'', CHR ''W''}"
      using l by (auto simp: label_defs)
    then show ?thesis using body_line_label[of c rd "s @ t"] by (auto simp: is_space_def)
  qed
  show "rd_headings rd = 1 \<Longrightarrow> s \<noteq> [] \<Longrightarrow>
     body_line rd (label_ask @ quoted s) =
       Inr ((with_goal (\<lambda>g. g\<lparr>g_ask := s\<rparr>) rd)\<lparr>rd_list := []\<rparr>)"
    by (simp add: open_it open_list_def open_goal_list_def)
  show "rd_headings rd = 1 \<Longrightarrow> s \<noteq> [] \<Longrightarrow>
     body_line rd (label_name @ fold_text s) =
       Inr ((with_goal (\<lambda>g. g\<lparr>g_name := s\<rparr>) rd)\<lparr>rd_list := []\<rparr>)"
    by (simp add: open_it open_list_def open_goal_list_def) (simp add: label_defs)
  show "rd_headings rd = 1 \<Longrightarrow> s \<noteq> [] \<Longrightarrow>
     body_line rd (label_why @ fold_text s) =
       Inr ((with_goal (\<lambda>g. g\<lparr>g_why := s\<rparr>) rd)\<lparr>rd_list := []\<rparr>)"
    by (simp add: open_it open_list_def open_goal_list_def) (simp add: label_defs)
qed

definition done_list_read :: "header \<Rightarrow> done_line list \<Rightarrow> done_line list option" where
  "done_list_read h ls =
     read_all (\<lambda>_. read_done_line h) [] (map (item_text (print_done_line (arrows_are_needed ls))) ls)"

lemma outcome_goal:
  assumes past: "past_header rd" and at: "rd_headings rd = 0"
    and empty: "r_goal (rd_record rd) = empty_goal"
  shows "outcome rd ([] # print_goal g) =
    (case done_list_read (rd_header rd) (g_done_when g) of
       None \<Rightarrow> None
     | Some xs \<Rightarrow> Some (1, (rd_record rd)\<lparr>r_goal := g\<lparr>g_done_when := xs\<rparr>\<rparr>))"
proof -
  let ?ask = "if g_ask g = [] then [] else [label_ask @ quoted (g_ask g)]"
  let ?name = "if g_name g = [] then [] else [label_name @ fold_text (g_name g)]"
  let ?why = "if g_why g = [] then [] else [label_why @ fold_text (g_why g)]"
  let ?list = "print_list label_done_when
      (print_done_line (arrows_are_needed (g_done_when g))) (g_done_when g)"
  have lines: "[] # print_goal g = [] # heading_order ! 0 # ?ask @ ?name @ ?why @ ?list"
    by (simp add: print_goal_def print_list_def heading_order_def)
  obtain rd1 where rd1: "past_header rd1" "rd_headings rd1 = 1" "rd_record rd1 = rd_record rd"
    and o1: "outcome rd ([] # print_goal g) = outcome rd1 (?ask @ ?name @ ?why @ ?list)"
    using open_part[OF past at, of "?ask @ ?name @ ?why @ ?list"] unfolding lines by auto
  obtain rd2 where rd2: "past_header rd2" "rd_headings rd2 = 1"
      "rd_record rd2 = (rd_record rd1)\<lparr>r_goal := (r_goal (rd_record rd1))\<lparr>g_ask := g_ask g\<rparr>\<rparr>"
    and o2: "\<And>ls. outcome rd1 (?ask @ ls) = outcome rd2 ls"
    using one_goal_line[OF rd1(1,2), of "g_ask g = []" "\<lambda>x. x\<lparr>g_ask := g_ask g\<rparr>"
        "label_ask @ quoted (g_ask g)"] rd1(3) empty
    by (auto simp: goal_lines empty_goal_def)
  obtain rd3 where rd3: "past_header rd3" "rd_headings rd3 = 1"
      "rd_record rd3 = (rd_record rd2)\<lparr>r_goal := (r_goal (rd_record rd2))\<lparr>g_name := g_name g\<rparr>\<rparr>"
    and o3: "\<And>ls. outcome rd2 (?name @ ls) = outcome rd3 ls"
    using one_goal_line[OF rd2(1,2), of "g_name g = []" "\<lambda>x. x\<lparr>g_name := g_name g\<rparr>"
        "label_name @ fold_text (g_name g)"] rd1(3) rd2(3) empty
    by (auto simp: goal_lines empty_goal_def)
  obtain rd4 where rd4: "past_header rd4" "rd_headings rd4 = 1"
      "rd_record rd4 = (rd_record rd3)\<lparr>r_goal := (r_goal (rd_record rd3))\<lparr>g_why := g_why g\<rparr>\<rparr>"
    and o4: "\<And>ls. outcome rd3 (?why @ ls) = outcome rd4 ls"
    using one_goal_line[OF rd3(1,2), of "g_why g = []" "\<lambda>x. x\<lparr>g_why := g_why g\<rparr>"
        "label_why @ fold_text (g_why g)"] rd1(3) rd2(3) rd3(3) empty
    by (auto simp: goal_lines empty_goal_def)
  have rec: "rd_record rd4 = (rd_record rd)\<lparr>r_goal := g\<lparr>g_done_when := []\<rparr>\<rparr>"
    using rd1(3) rd2(3) rd3(3) rd4(3) empty by (simp add: empty_goal_def)
  have "outcome rd4 ?list =
    (case read_all (\<lambda>_. read_done_line (rd_header rd4)) []
        (map (item_text (print_done_line (arrows_are_needed (g_done_when g)))) (g_done_when g)) of
       None \<Rightarrow> None
     | Some xs \<Rightarrow> Some (rd_headings rd4, put_done_when xs (rd_record rd4)))"
    by (rule done_when_list.outcome_list[OF rd4(1) _ _ printed_items(1)])
      (simp_all add: rec opens_done_when rd4(2))
  then show ?thesis
    using o1 rec rd4(2) by (simp add: o2 o3 o4 put_done_when_def done_list_read_def split: option.split)
qed

section \<open>The rules\<close>

lemma outcome_rules:
  assumes past: "past_header rd" and at: "rd_headings rd = 1"
    and empty: "r_rules (rd_record rd) = empty_rules"
  shows "outcome rd ([] # print_rules_part ru) =
    (case read_all read_correction [] (map (item_text print_correction) (r_corrections ru)) of
       None \<Rightarrow> None
     | Some cs \<Rightarrow>
        (case read_all (\<lambda>_. read_plain_line) [] (map (item_text print_plain) (r_stop_when ru)) of
           None \<Rightarrow> None
         | Some ss \<Rightarrow> Some (2, (rd_record rd)\<lparr>r_rules := \<lparr>r_corrections = cs, r_stop_when = ss\<rparr>\<rparr>)))"
proof -
  let ?first = "print_list label_corrections print_correction (r_corrections ru)"
  let ?second = "print_list label_stop_when print_plain (r_stop_when ru)"
  let ?cs = "read_all read_correction [] (map (item_text print_correction) (r_corrections ru))"
  have lines: "[] # print_rules_part ru = [] # heading_order ! 1 # ?first @ ?second"
    by (simp add: print_rules_part_def heading_order_def)
  obtain rd1 where rd1: "past_header rd1" "rd_headings rd1 = 2" "rd_record rd1 = rd_record rd"
    and o1: "outcome rd ([] # print_rules_part ru) = outcome rd1 (?first @ ?second)"
    using open_part[OF past at, of "?first @ ?second"] unfolding lines by auto
  have first: "outcome rd1 ?first =
    (case ?cs of None \<Rightarrow> None | Some xs \<Rightarrow> Some (rd_headings rd1, put_corrections xs (rd_record rd1)))"
    by (rule corrections_list.outcome_list[OF rd1(1) _ _ printed_items(2)])
      (simp_all add: rd1 opens_rules empty empty_rules_def)
  have "outcome rd1 (?first @ ?second) = (case outcome rd1 ?first of None \<Rightarrow> None | Some (n, r) \<Rightarrow>
    (case read_all (\<lambda>_. read_plain_line) [] (map (item_text print_plain) (r_stop_when ru)) of
       None \<Rightarrow> None | Some xs \<Rightarrow> Some (n, put_stop_when xs r)))"
  proof (rule outcome_append[OF rd1(1)])
    fix rd' assume "past_header rd'" "outcome rd1 ?first = Some (rd_headings rd', rd_record rd')"
    then show "outcome rd' ?second =
      (case read_all (\<lambda>_. read_plain_line) [] (map (item_text print_plain) (r_stop_when ru)) of
       None \<Rightarrow> None | Some xs \<Rightarrow> Some (rd_headings rd', put_stop_when xs (rd_record rd')))"
      by (intro stop_when_list.outcome_list[OF _ _ _ printed_items(3)])
        (auto simp: first rd1 opens_rules empty empty_rules_def put_corrections_def
          split: option.splits dest!: sym[of _ "rd_record rd'"])
  qed
  then show ?thesis
    unfolding o1 first
    by (auto simp: put_corrections_def put_stop_when_def rd1 empty empty_rules_def split: option.split)
qed

section \<open>The lessons\<close>

lemma outcome_lessons:
  assumes past: "past_header rd" and at: "rd_headings rd = 3"
    and empty: "r_lessons (rd_record rd) = empty_lessons"
  shows "outcome rd ([] # print_lessons l) =
    (case read_all read_decision [] (map (item_text print_decision) (l_decisions l)) of
       None \<Rightarrow> None
     | Some ds \<Rightarrow>
        (case read_all read_failure [] (map (item_text print_failure) (l_failures l)) of
           None \<Rightarrow> None
         | Some fs \<Rightarrow> Some (4, (rd_record rd)\<lparr>r_lessons := \<lparr>l_decisions = ds, l_failures = fs\<rparr>\<rparr>)))"
proof -
  let ?first = "print_list label_decisions print_decision (l_decisions l)"
  let ?second = "print_list label_failures print_failure (l_failures l)"
  let ?ds = "read_all read_decision [] (map (item_text print_decision) (l_decisions l))"
  have lines: "[] # print_lessons l = [] # heading_order ! 3 # ?first @ ?second"
    by (simp add: print_lessons_def heading_order_def)
  obtain rd1 where rd1: "past_header rd1" "rd_headings rd1 = 4" "rd_record rd1 = rd_record rd"
    and o1: "outcome rd ([] # print_lessons l) = outcome rd1 (?first @ ?second)"
    using open_part[OF past at, of "?first @ ?second"] unfolding lines by auto
  have first: "outcome rd1 ?first =
    (case ?ds of None \<Rightarrow> None | Some xs \<Rightarrow> Some (rd_headings rd1, put_decisions xs (rd_record rd1)))"
    by (rule decisions_list.outcome_list[OF rd1(1) _ _ printed_items(7)])
      (simp_all add: rd1 opens_lessons empty empty_lessons_def)
  have "outcome rd1 (?first @ ?second) = (case outcome rd1 ?first of None \<Rightarrow> None | Some (n, r) \<Rightarrow>
    (case read_all read_failure [] (map (item_text print_failure) (l_failures l)) of
       None \<Rightarrow> None | Some xs \<Rightarrow> Some (n, put_failures xs r)))"
  proof (rule outcome_append[OF rd1(1)])
    fix rd' assume "past_header rd'" "outcome rd1 ?first = Some (rd_headings rd', rd_record rd')"
    then show "outcome rd' ?second =
      (case read_all read_failure [] (map (item_text print_failure) (l_failures l)) of
       None \<Rightarrow> None | Some xs \<Rightarrow> Some (rd_headings rd', put_failures xs (rd_record rd')))"
      by (intro failures_list.outcome_list[OF _ _ _ printed_items(8)])
        (auto simp: first rd1 opens_lessons empty empty_lessons_def put_decisions_def
          split: option.splits dest!: sym[of _ "rd_record rd'"])
  qed
  then show ?thesis
    unfolding o1 first
    by (auto simp: put_decisions_def put_failures_def rd1 empty empty_lessons_def split: option.split)
qed

section \<open>The work\<close>

definition plan_read :: "header \<Rightarrow> record_kind \<Rightarrow> work \<Rightarrow> (plan_step list \<times> job_task list) option" where
  "plan_read h kind w =
     (if kind = record_job
      then map_option (\<lambda>xs. ([], xs))
             (read_all (read_job_task h) [] (map (item_text print_job_task) (w_tasks w)))
      else map_option (\<lambda>xs. (xs, []))
             (read_all read_plan_step [] (map (item_text print_plan_step) (w_plan w))))"

lemma outcome_plan:
  assumes past: "past_header rd" and at: "rd_headings rd = 3"
    and empty: "w_plan (r_work (rd_record rd)) = []" "w_tasks (r_work (rd_record rd)) = []"
    and kind: "h_kind (rd_header rd) = kind"
  shows "outcome rd (print_plan_or_tasks w kind) =
    (case plan_read (rd_header rd) kind w of
       None \<Rightarrow> None
     | Some (ps, ts) \<Rightarrow> Some (3, put_tasks ts (put_plan ps (rd_record rd))))"
proof (cases "kind = record_job")
  case True
  have "outcome rd (print_list label_tasks print_job_task (w_tasks w)) =
    (case read_all (read_job_task (rd_header rd)) [] (map (item_text print_job_task) (w_tasks w)) of
       None \<Rightarrow> None | Some xs \<Rightarrow> Some (rd_headings rd, put_tasks xs (rd_record rd)))"
    by (rule tasks_list.outcome_list[OF past _ _ printed_items(5)])
      (simp_all add: opens_work empty at kind True)
  moreover have "put_plan [] (rd_record rd) = rd_record rd"
    using plan_list.put_get[of "rd_record rd"] empty by simp
  ultimately show ?thesis
    by (auto simp: print_plan_or_tasks_def plan_read_def True at split: option.split)
next
  case False
  have "outcome rd (print_list label_plan print_plan_step (w_plan w)) =
    (case read_all read_plan_step [] (map (item_text print_plan_step) (w_plan w)) of
       None \<Rightarrow> None | Some xs \<Rightarrow> Some (rd_headings rd, put_plan xs (rd_record rd)))"
    by (rule plan_list.outcome_list[OF past _ _ printed_items(4)])
      (simp_all add: opens_work empty at kind False)
  moreover have "put_tasks [] (put_plan ps (rd_record rd)) = put_plan ps (rd_record rd)" for ps
    using empty by (simp add: put_defs)
  ultimately show ?thesis
    by (auto simp: print_plan_or_tasks_def plan_read_def False at split: option.split)
qed

lemma outcome_work:
  assumes past: "past_header rd" and at: "rd_headings rd = 2"
    and empty: "r_work (rd_record rd) = empty_work"
    and same: "rd_header rd = h"
  shows "outcome rd ([] # print_work w h) =
    (case read_all (\<lambda>_. read_plain_line) [] (map (item_text print_plain) (w_situation w)) of
       None \<Rightarrow> None
     | Some facts \<Rightarrow>
        (case plan_read h (h_kind h) w of
           None \<Rightarrow> None
         | Some (ps, ts) \<Rightarrow>
            (case read_all (read_result_line h) [] (map (item_text print_result_line) (w_results w)) of
               None \<Rightarrow> None
             | Some rs \<Rightarrow>
                Some (3, (rd_record rd)\<lparr>r_work :=
                  \<lparr>w_situation = facts, w_plan = ps, w_tasks = ts, w_results = rs\<rparr>\<rparr>))))"
proof -
  let ?first = "print_list label_situation print_plain (w_situation w)"
  let ?second = "print_plan_or_tasks w (h_kind h)"
  let ?third = "print_list (results_label (h_kind h)) print_result_line (w_results w)"
  let ?facts = "read_all (\<lambda>_. read_plain_line) [] (map (item_text print_plain) (w_situation w))"
  let ?rs = "read_all (read_result_line h) [] (map (item_text print_result_line) (w_results w))"
  have lines: "[] # print_work w h = [] # heading_order ! 2 # ?first @ ?second @ ?third"
    by (simp add: print_work_def heading_order_def)
  obtain rd1 where rd1: "past_header rd1" "rd_headings rd1 = 3" "rd_record rd1 = rd_record rd"
    and o1: "outcome rd ([] # print_work w h) = outcome rd1 (?first @ ?second @ ?third)"
    using open_part[OF past at, of "?first @ ?second @ ?third"] unfolding lines by auto
  have first: "outcome rd1 ?first =
    (case ?facts of None \<Rightarrow> None | Some xs \<Rightarrow> Some (rd_headings rd1, put_situation xs (rd_record rd1)))"
    by (rule situation_list.outcome_list[OF rd1(1) _ _ printed_items(3)])
      (simp_all add: rd1 opens_work empty empty_work_def)
  have third: "outcome rd' ?third =
      (case ?rs of None \<Rightarrow> None | Some xs \<Rightarrow> Some (rd_headings rd', put_results xs (rd_record rd')))"
    if "past_header rd'" "rd_headings rd' = 3" "rd_header rd' = h" "w_results (r_work (rd_record rd')) = []"
    for rd'
  proof (cases "h_kind h = record_job")
    case True
    have "outcome rd' (print_list label_reports print_result_line (w_results w)) =
      (case read_all (read_result_line (rd_header rd')) []
          (map (item_text print_result_line) (w_results w)) of
         None \<Rightarrow> None | Some xs \<Rightarrow> Some (rd_headings rd', put_results xs (rd_record rd')))"
      by (rule reports_list.outcome_list[OF that(1) _ _ printed_items(6)])
        (simp_all add: that opens_work True)
    then show ?thesis using True that by (simp add: results_label_def)
  next
    case False
    have "outcome rd' (print_list label_results print_result_line (w_results w)) =
      (case read_all (read_result_line (rd_header rd')) []
          (map (item_text print_result_line) (w_results w)) of
         None \<Rightarrow> None | Some xs \<Rightarrow> Some (rd_headings rd', put_results xs (rd_record rd')))"
      by (rule results_list.outcome_list[OF that(1) _ _ printed_items(6)])
        (simp_all add: that opens_work False)
    then show ?thesis using False that by (simp add: results_label_def)
  qed
  have rest: "outcome rd' (?second @ ?third) =
      (case plan_read h (h_kind h) w of
         None \<Rightarrow> None
       | Some (ps, ts) \<Rightarrow>
           (case ?rs of None \<Rightarrow> None
            | Some rs \<Rightarrow> Some (3, put_results rs (put_tasks ts (put_plan ps (rd_record rd'))))))"
    if rd': "past_header rd'" "rd_headings rd' = 3" "rd_header rd' = h"
      "w_plan (r_work (rd_record rd')) = []" "w_tasks (r_work (rd_record rd')) = []"
      "w_results (r_work (rd_record rd')) = []" for rd'
  proof -
    have second: "outcome rd' ?second = (case plan_read h (h_kind h) w of None \<Rightarrow> None
        | Some (ps, ts) \<Rightarrow> Some (3, put_tasks ts (put_plan ps (rd_record rd'))))"
      using outcome_plan[OF rd'(1,2,4,5) refl, of w] rd'(3) by simp
    have "outcome rd' (?second @ ?third) = (case outcome rd' ?second of None \<Rightarrow> None
        | Some (n, r) \<Rightarrow> (case ?rs of None \<Rightarrow> None | Some xs \<Rightarrow> Some (n, put_results xs r)))"
    proof (rule outcome_append[OF rd'(1)])
      fix rd'' assume past'': "past_header rd''"
        and "outcome rd' ?second = Some (rd_headings rd'', rd_record rd'')"
      then have "rd_headings rd'' = 3" "rd_header rd'' = h" "w_results (r_work (rd_record rd'')) = []"
        using rd' by (auto simp: second put_defs split: option.splits
            dest!: sym[of _ "rd_record rd''"])
      then show "outcome rd'' ?third = (case ?rs of None \<Rightarrow> None
          | Some xs \<Rightarrow> Some (rd_headings rd'', put_results xs (rd_record rd'')))"
        using third[OF past''] by simp
    qed
    then show ?thesis unfolding second by (auto split: option.split)
  qed
  have "outcome rd1 (?first @ ?second @ ?third) = (case outcome rd1 ?first of None \<Rightarrow> None
      | Some (n, r) \<Rightarrow> (case plan_read h (h_kind h) w of None \<Rightarrow> None
         | Some (ps, ts) \<Rightarrow> (case ?rs of None \<Rightarrow> None
            | Some rs \<Rightarrow> Some (3, put_results rs (put_tasks ts (put_plan ps r))))))"
  proof (rule outcome_append[OF rd1(1)])
    fix rd' assume past': "past_header rd'"
      and "outcome rd1 ?first = Some (rd_headings rd', rd_record rd')"
    then have "rd_headings rd' = 3" "rd_header rd' = h" "w_plan (r_work (rd_record rd')) = []"
      "w_tasks (r_work (rd_record rd')) = []" "w_results (r_work (rd_record rd')) = []"
      using rd1 empty same
      by (auto simp: first put_defs empty_work_def split: option.splits
          dest!: sym[of _ "rd_record rd'"])
    then show "outcome rd' (?second @ ?third) = (case plan_read h (h_kind h) w of None \<Rightarrow> None
         | Some (ps, ts) \<Rightarrow> (case ?rs of None \<Rightarrow> None
            | Some rs \<Rightarrow> Some (3, put_results rs (put_tasks ts (put_plan ps (rd_record rd'))))))"
      by (rule rest[OF past'])
  qed
  then show ?thesis
    unfolding o1 first
    by (auto simp: put_defs rd1 empty empty_work_def split: option.split)
qed

end
