(* ===== verification/Record_Whole.thy ===== *)
theory Record_Whole
  imports Record_Reads_Back
begin

text \<open>
  The whole text: the header lines, the four parts, and the theorem \<open>reads_back_iff\<close> that takes
  the round trip of a record apart into conditions on its parts. Leaving old results out of a record
  that reads back gives one that reads back (\<open>reads_back_without_the_oldest\<close>), which is what lets the
  keeper trim after it has checked.
\<close>

section \<open>Printed lines hold no line break\<close>

lemma itoa_one_line [simp]: "newline \<notin> set (itoa n)"
proof (cases "n < 0")
  case True
  then have "itoa n = CHR ''-'' # itoa (- n)" by (simp add: itoa_def)
  then show ?thesis using itoa_no_char[of newline "- n"] True by (simp add: is_digit_def)
next
  case False
  then show ?thesis using itoa_no_char[of newline n] by (simp add: is_digit_def)
qed

lemma thousands_one_line [simp]: "newline \<notin> set (thousands t)"
  by (simp add: thousands_def Let_def)

lemma labels_one_line [simp]:
  "newline \<notin> set label_ask" "newline \<notin> set label_name" "newline \<notin> set label_why"
  "newline \<notin> set label_proved" "newline \<notin> set label_done_when"
  "newline \<notin> set label_corrections" "newline \<notin> set label_stop_when"
  "newline \<notin> set label_situation" "newline \<notin> set label_plan" "newline \<notin> set label_tasks"
  "newline \<notin> set label_results" "newline \<notin> set label_reports" "newline \<notin> set label_decisions"
  "newline \<notin> set label_failures" "newline \<notin> set header_gap" "newline \<notin> set item_mark"
  by (simp_all add: label_defs)

lemma marks_one_line [simp]:
  "newline \<notin> set mark_done" "newline \<notin> set mark_waiting" "newline \<notin> set mark_pinned"
  "newline \<notin> set arrow" "newline \<notin> set arrow_end" "newline \<notin> set reason_join"
  "newline \<notin> set cause_join" "newline \<notin> set full_stop" "newline \<notin> set due_mark"
  "newline \<notin> set heading_goal" "newline \<notin> set heading_rules" "newline \<notin> set heading_work"
  "newline \<notin> set heading_lessons" "newline \<notin> set label_budget" "newline \<notin> set field_no_budget"
  by (simp_all add: label_defs)

lemma join_one_line: "c \<notin> set sep \<Longrightarrow> \<forall>x \<in> set xs. c \<notin> set x \<Longrightarrow> c \<notin> set (join sep xs)"
  by (induction sep xs rule: join.induct) auto

lemma print_budget_one_line [simp]: "newline \<notin> set (print_budget h)"
  by (auto simp: print_budget_def Let_def)

definition one_line_header :: "header \<Rightarrow> bool" where
  "one_line_header h \<longleftrightarrow> newline \<notin> set (h_kind h) \<and> newline \<notin> set (h_status h)"

lemma print_header_one_line:
  assumes "one_line_header h" "x \<in> set (print_header h)"
  shows "newline \<notin> set x"
proof -
  have "\<forall>f \<in> set (header_fields h). newline \<notin> set f"
    using assms(1) by (auto simp: header_fields_def print_progress_def one_line_header_def)
  then have "newline \<notin> set (join header_gap (header_fields h))"
    by (intro join_one_line) simp_all
  then show ?thesis using assms(2)
    by (auto simp: print_header_def print_cost_line_def split: if_splits)
qed

lemma print_items_one_line:
  "newline \<notin> set (print_done_line a l)" "newline \<notin> set (print_correction c)"
  "newline \<notin> set (print_plain s)" "newline \<notin> set (print_plan_step p)"
  "newline \<notin> set (print_job_task t)" "newline \<notin> set (print_result_line r)"
  "newline \<notin> set (print_decision d)" "newline \<notin> set (print_failure f)"
  by (auto simp: print_done_line_def proof_of_def check_mark_def print_correction_def print_plain_def
      print_plan_step_def print_job_task_def print_result_line_def print_decision_def
      print_failure_def print_lesson_def Let_def)

lemma parts_one_line:
  "s \<in> set (print_goal g) \<Longrightarrow> newline \<notin> set s"
  "s \<in> set (print_rules_part ru) \<Longrightarrow> newline \<notin> set s"
  "s \<in> set (print_work w h) \<Longrightarrow> newline \<notin> set s"
  "s \<in> set (print_lessons l) \<Longrightarrow> newline \<notin> set s"
  by (auto simp: print_goal_def print_rules_part_def print_work_def print_lessons_def
      print_plan_or_tasks_def results_label_def print_items_one_line print_list_def
      split: if_splits)

definition header_lines :: "record_of_work \<Rightarrow> string list" where
  "header_lines r = with_the_proved_count r (print_header (r_header r))"

lemma header_lines_one_line:
  "one_line_header (r_header r) \<Longrightarrow> s \<in> set (header_lines r) \<Longrightarrow> newline \<notin> set s"
  using print_header_one_line[of "r_header r"]
  by (auto simp: header_lines_def with_the_proved_count_def print_header_def
      split: prod.splits if_splits)

lemma printed_lines_one_line:
  "one_line_header (r_header r) \<Longrightarrow> s \<in> set (printed_lines r) \<Longrightarrow> newline \<notin> set s"
  using header_lines_one_line parts_one_line by (auto simp: printed_lines_def header_lines_def)

lemma lines_of_print:
  assumes "one_line_header (r_header r)"
  shows "split_on (trim_suffix (print_whole r) [newline]) [newline] = printed_lines r"
proof -
  have "printed_lines r \<noteq> []" by (simp add: printed_lines_def)
  moreover have "\<forall>s \<in> set (printed_lines r). newline \<notin> set s"
    using printed_lines_one_line[OF assms] by blast
  ultimately show ?thesis
    using split_on_join_char[of "printed_lines r" newline] by (simp add: print_whole_def)
qed

section \<open>What reading the header lines leaves\<close>

definition only_header :: "reader \<Rightarrow> reader \<Rightarrow> bool" where
  "only_header rd rd' \<longleftrightarrow> rd_headings rd' = rd_headings rd \<and> rd_line rd' = rd_line rd \<and>
     r_goal (rd_record rd') = r_goal (rd_record rd) \<and> r_rules (rd_record rd') = r_rules (rd_record rd) \<and>
     r_work (rd_record rd') = r_work (rd_record rd) \<and> r_lessons (rd_record rd') = r_lessons (rd_record rd)"

definition same_place :: "header \<Rightarrow> header \<Rightarrow> bool" where
  "same_place h h' \<longleftrightarrow> h_kind h' = h_kind h \<and> h_status h' = h_status h \<and> h_id h' = h_id h"

lemma only_header_refl [simp]: "only_header rd rd"
  by (simp add: only_header_def)

lemma only_header_trans: "only_header a b \<Longrightarrow> only_header b c \<Longrightarrow> only_header a c"
  by (auto simp: only_header_def)

lemma only_header_with [simp]: "only_header rd (with_header h rd)"
  by (auto simp: only_header_def with_header_def)

lemma rd_header_with [simp]: "rd_header (with_header h rd) = h"
  by (simp add: with_header_def)

lemma same_place_refl [simp]: "same_place h h"
  by (simp add: same_place_def)

lemma same_place_trans: "same_place a b \<Longrightarrow> same_place b c \<Longrightarrow> same_place a c"
  by (simp add: same_place_def)

lemma read_budget_part_keeps: "read_budget_part h p = Inr h' \<Longrightarrow> same_place h h'"
  by (auto simp: read_budget_part_def same_place_def split: prod.splits option.splits if_splits)

lemma read_budget_parts_keep: "each_in_turn read_budget_part h ps = Inr h' \<Longrightarrow> same_place h h'"
  by (rule each_in_turn_keeps[where I = "same_place h"])
    (auto intro: same_place_trans dest: read_budget_part_keeps)

lemma read_budget_field_keeps:
  assumes "read_budget_field rd f = Inr rd'"
  shows "only_header rd rd' \<and> same_place (rd_header rd) (rd_header rd')"
proof -
  have "same_place (rd_header rd) ((rd_header rd)\<lparr>h_no_round_budget := True, h_no_time_budget := True\<rparr>)"
    by (simp add: same_place_def)
  then show ?thesis using assms
    by (auto simp: read_budget_field_def Let_def only_header_def with_header_def and_then_Inr_iff
        dest!: read_budget_parts_keep intro: same_place_trans split: if_splits option.splits)
qed

lemma read_progress_field_keeps:
  "read_progress_field rd f = Inr rd' \<Longrightarrow> only_header rd rd' \<and> same_place (rd_header rd) (rd_header rd')"
  by (auto simp: read_progress_field_def only_header_def with_header_def same_place_def
      split: option.splits if_splits)

lemma read_header_field_keeps:
  assumes "read_header_field rd f = Inr rd'"
  shows "only_header rd rd' \<and> same_place (rd_header rd) (rd_header rd')"
proof -
  have put: "same_place (rd_header rd) (rd_header (with_header ((rd_header rd)\<lparr>h_origin := w\<rparr>) rd))"
    "same_place (rd_header rd) (rd_header (with_header ((rd_header rd)\<lparr>h_next_due := w\<rparr>) rd))"
    for w
    by (simp_all add: with_header_def same_place_def)
  show ?thesis using assms put
    by (auto simp: read_header_field_def split: option.splits if_splits
        dest: read_budget_field_keeps read_progress_field_keeps)
qed

lemma read_header_keeps:
  assumes "read_header rd s = Inr rd'"
  shows "only_header rd rd' \<and> (h_kind (rd_header rd') = record_task \<or> h_kind (rd_header rd') = record_job)
    \<and> known_status (h_status (rd_header rd')) \<and> read_count (h_id (rd_header rd')) \<noteq> None"
proof -
  obtain rest kind i where rest: "s = ''# '' @ rest"
    and cut: "cut (hd (split_on rest header_gap)) '' '' = (kind, i, True)" "read_count i \<noteq> None"
    and kind: "kind = record_task \<or> kind = record_job"
    and status: "known_status (split_on rest header_gap ! 1)"
    and loop: "and_then (each_in_turn read_header_field
        (with_header ((rd_header rd)\<lparr>h_kind := kind, h_id := unfold_text i,
           h_status := split_on rest header_gap ! 1\<rparr>) rd)
        (drop 2 (split_on rest header_gap))) check_header_is_whole = Inr rd'"
    using assms
    by (auto simp: read_header_def Let_def cut_prefix_Some_iff split: option.splits prod.splits if_splits)
  let ?h = "(rd_header rd)\<lparr>h_kind := kind, h_id := unfold_text i,
    h_status := split_on rest header_gap ! 1\<rparr>"
  from loop have run: "each_in_turn read_header_field (with_header ?h rd)
      (drop 2 (split_on rest header_gap)) = Inr rd'"
    by (auto simp: and_then_Inr_iff check_header_is_whole_def split: if_splits)
  have "only_header rd rd' \<and> same_place ?h (rd_header rd')"
    by (rule each_in_turn_keeps[OF run, where I = "\<lambda>x. only_header rd x \<and> same_place ?h (rd_header x)"])
      (auto simp: rd_header_with
        dest: read_header_field_keeps intro: only_header_trans same_place_trans)
  moreover have "unfold_text i = i"
  proof -
    have "list_all is_digit i" using cut(2) by (auto simp: read_count_def split: if_splits)
    then show ?thesis
      by (intro unfold_text_plain) (auto simp: plain_text_def list_all_iff is_digit_def)
  qed
  ultimately show ?thesis using kind status cut(2) by (simp add: same_place_def)
qed

lemma read_cost_line_keeps:
  "read_cost_line rd s = Inr rd' \<Longrightarrow> only_header rd rd' \<and> same_place (rd_header rd) (rd_header rd')"
  by (auto simp: read_cost_line_def Let_def only_header_def with_header_def same_place_def
      split: option.splits if_splits)

lemma body_line_keeps_header: "body_line rd s = Inr rd' \<Longrightarrow> rd_header rd' = rd_header rd"
  by (auto simp: body_line_def open_section_def open_list_def open_goal_list_def open_work_list_def
      open_one_of_the_labels_def read_item_def with_defs Let_def and_then_Inr_iff
      split: if_splits option.splits)

lemma read_next_Inr:
  "read_next rd s = Inr rd' \<longleftrightarrow> read_line (rd\<lparr>rd_line := rd_line rd + 1\<rparr>) s = Inr rd'"
  by (auto simp: read_next_def Let_def split: sum.splits)

lemma hd_split_on_prefix: "prefix (hd (split_on s sep)) s"
  by (subst split_on.simps) (auto simp: take_is_prefix split: option.split)

lemma job_line_reads_job:
  assumes "read_header rd (''# '' @ record_job @ '' '' @ x) = Inr rd'"
  shows "h_kind (rd_header rd') = record_job"
proof -
  let ?rest = "record_job @ '' '' @ x"
  obtain kind i where cut: "cut (hd (split_on ?rest header_gap)) '' '' = (kind, i, True)"
    and loop: "each_in_turn read_header_field
        (with_header ((rd_header rd)\<lparr>h_kind := kind, h_id := unfold_text i,
           h_status := split_on ?rest header_gap ! 1\<rparr>) rd)
        (drop 2 (split_on ?rest header_gap)) = Inr rd'"
    using assms
    by (auto simp: read_header_def Let_def and_then_Inr_iff check_header_is_whole_def
        split: option.splits prod.splits if_splits)
  have "prefix (kind @ '' '' @ i) ?rest" and clean: "CHR '' '' \<notin> set kind"
    using cut hd_split_on_prefix[of ?rest header_gap] by (auto simp: cut_char_True_iff)
  then obtain z where "kind @ CHR '' '' # (i @ z) = record_job @ CHR '' '' # x"
    by (auto simp: prefix_def)
  moreover have "CHR '' '' \<notin> set record_job" by (simp add: record_job_def)
  ultimately have "kind = record_job" using clean
    by (metis cut_char prod.inject)
  moreover have "h_kind (rd_header rd') = kind"
  proof -
    let ?h = "(rd_header rd)\<lparr>h_kind := kind, h_id := unfold_text i,
      h_status := split_on ?rest header_gap ! 1\<rparr>"
    have "same_place ?h (rd_header rd')"
      by (rule each_in_turn_keeps[OF loop, where I = "\<lambda>x. same_place ?h (rd_header x)"])
        (auto dest: read_header_field_keeps intro: same_place_trans)
    then show ?thesis by (simp add: same_place_def)
  qed
  ultimately show ?thesis by simp
qed

definition header_read :: "record_of_work \<Rightarrow> header option" where
  "header_read r =
     (case each_in_turn read_next start_reader (header_lines r) of
        Inl e \<Rightarrow> None | Inr rd \<Rightarrow> Some (rd_header rd))"

definition known_place :: "header \<Rightarrow> bool" where
  "known_place h \<longleftrightarrow> (h_kind h = record_task \<or> h_kind h = record_job) \<and> known_status (h_status h)
     \<and> read_count (h_id h) \<noteq> None"

lemma known_place_one_line: "known_place h \<Longrightarrow> one_line_header h"
  by (auto simp: known_place_def one_line_header_def known_status_def record_task_def record_job_def
      status_running_def status_waiting_def status_stopped_def status_failed_def status_done_def)

lemma first_line:
  assumes "read_next start_reader s = Inr rd"
  shows "rd_line rd = 1 \<and> rd_headings rd = 0 \<and> known_place (rd_header rd)
    \<and> r_goal (rd_record rd) = empty_goal \<and> r_rules (rd_record rd) = empty_rules
    \<and> r_work (rd_record rd) = empty_work \<and> r_lessons (rd_record rd) = empty_lessons"
proof -
  have "read_header (start_reader\<lparr>rd_line := 1\<rparr>) s = Inr rd"
    using assms by (simp add: read_next_Inr read_line_def start_reader_def)
  then show ?thesis
    by (auto dest!: read_header_keeps simp: only_header_def start_reader_def known_place_def
        empty_record_def)
qed

lemma second_line:
  assumes "rd_line rd = 1" "rd_headings rd = 0" "read_next rd (''this turn: '' @ x) = Inr rd'"
  shows "rd_line rd' = 2 \<and> rd_headings rd' = 0 \<and> same_place (rd_header rd) (rd_header rd')
    \<and> only_header (rd\<lparr>rd_line := 2\<rparr>) rd'"
proof (cases "h_kind (rd_header rd) = record_task")
  case True
  have two: "rd_line (rd\<lparr>rd_line := Suc (Suc 0)\<rparr>) = 2" by simp
  have "read_cost_line (rd\<lparr>rd_line := 2\<rparr>) (''this turn: '' @ x) = Inr rd'"
    using assms True two by (simp add: read_next_Inr read_line_def numeral_2_eq_2)
  then show ?thesis
    using assms by (auto dest!: read_cost_line_keeps simp: only_header_def)
next
  case False
  have "body_line (rd\<lparr>rd_line := 2\<rparr>) (''this turn: '' @ x) = Inr rd'"
    using assms False by (simp add: read_next_Inr read_line_body numeral_2_eq_2)
  moreover have "body_line (rd\<lparr>rd_line := 2\<rparr>) (CHR ''t'' # ''his turn: '' @ x) = Inl Unnamed"
    using assms(2) by (subst body_line_label) (simp_all add: is_space_def open_list_def)
  ultimately show ?thesis by simp
qed

lemma known_after:
  assumes "each_in_turn read_next rd ls = Inr rd'" "known_place (rd_header rd)" "1 \<le> rd_line rd"
  shows "known_place (rd_header rd')"
proof -
  have step: "known_place (rd_header b) \<and> 1 \<le> rd_line b"
    if "known_place (rd_header a) \<and> 1 \<le> rd_line a" "read_next a s = Inr b" for a b s
  proof -
    let ?a = "a\<lparr>rd_line := rd_line a + 1\<rparr>"
    have line: "read_line ?a s = Inr b" using that(2) by (simp add: read_next_Inr)
    show ?thesis
    proof (cases "rd_line a = 1 \<and> h_kind (rd_header a) = record_task")
      case True
      then have "read_cost_line ?a s = Inr b" using line by (simp add: read_line_def)
      then show ?thesis using that(1)
        by (auto dest!: read_cost_line_keeps simp: only_header_def same_place_def known_place_def)
    next
      case False
      then have "body_line ?a s = Inr b" using line that(1) by (subst (asm) read_line_body) auto
      then show ?thesis using that(1) body_line_keeps_header body_line_keeps_line by fastforce
    qed
  qed
  show ?thesis
    using each_in_turn_keeps[OF assms(1), where I = "\<lambda>a. known_place (rd_header a) \<and> 1 \<le> rd_line a"]
      step assms(2,3) by blast
qed

lemma header_stage:
  assumes "each_in_turn read_next start_reader (header_lines r) = Inr rd"
  shows "past_header rd \<and> rd_headings rd = 0 \<and> known_place (rd_header rd)
    \<and> r_goal (rd_record rd) = empty_goal \<and> r_rules (rd_record rd) = empty_rules
    \<and> r_work (rd_record rd) = empty_work \<and> r_lessons (rd_record rd) = empty_lessons"
proof (cases "h_kind (r_header r) = record_job")
  case True
  obtain x where x: "header_lines r = [''# '' @ record_job @ '' '' @ x]"
  proof -
    have "\<exists>y. print_header (r_header r) = [''# '' @ record_job @ '' '' @ y]"
      by (auto simp: print_header_def True header_fields_def join_Cons)
    then have "\<exists>z. header_lines r = [''# '' @ record_job @ '' '' @ z]"
      by (auto simp: header_lines_def with_the_proved_count_def split: prod.split)
    then show ?thesis using that by blast
  qed
  have first: "read_next start_reader (''# '' @ record_job @ '' '' @ x) = Inr rd"
    using assms unfolding x by (cases "read_next start_reader (''# '' @ record_job @ '' '' @ x)") auto
  then have "read_header (start_reader\<lparr>rd_line := 1\<rparr>) (''# '' @ record_job @ '' '' @ x) = Inr rd"
    by (simp add: read_next_Inr read_line_def start_reader_def)
  then have "h_kind (rd_header rd) = record_job" by (rule job_line_reads_job)
  then show ?thesis using first_line[OF first] by (simp add: past_header_def)
next
  case False
  obtain l x where lines: "header_lines r = [l, ''this turn: '' @ x]"
    using False by (auto simp: header_lines_def with_the_proved_count_def print_header_def
        print_cost_line_def split: prod.splits)
  obtain rd1 where rd1: "read_next start_reader l = Inr rd1"
    and rd: "read_next rd1 (''this turn: '' @ x) = Inr rd"
    using assms by (auto simp: lines and_then_Inr_iff)
  show ?thesis
    using first_line[OF rd1] second_line[OF _ _ rd]
    by (auto simp: past_header_def only_header_def same_place_def known_place_def)
qed

section \<open>The round trip, part by part\<close>

definition reads_back :: "record_of_work \<Rightarrow> bool" where
  "reads_back r \<longleftrightarrow> parse_record (print_whole r) = Inr r"

definition lists_read :: "record_of_work \<Rightarrow> bool" where
  "lists_read r \<longleftrightarrow>
     (let h = r_header r; w = r_work r in
        done_list_read h (g_done_when (r_goal r)) = Some (g_done_when (r_goal r))
      \<and> reads_list read_correction (item_text print_correction) [] (r_corrections (r_rules r))
      \<and> reads_list (\<lambda>_. read_plain_line) (item_text print_plain) [] (r_stop_when (r_rules r))
      \<and> reads_list (\<lambda>_. read_plain_line) (item_text print_plain) [] (w_situation w)
      \<and> plan_read h (h_kind h) w = Some (w_plan w, w_tasks w)
      \<and> reads_list (read_result_line h) (item_text print_result_line) [] (w_results w)
      \<and> reads_list read_decision (item_text print_decision) [] (l_decisions (r_lessons r))
      \<and> reads_list read_failure (item_text print_failure) [] (l_failures (r_lessons r)))"

definition fits_a_text :: "record_of_work \<Rightarrow> bool" where
  "fits_a_text r \<longleftrightarrow>
     length (print_whole r) \<le> max_record_bytes \<and> length (printed_lines r) \<le> max_record_lines"

definition part_lines :: "record_of_work \<Rightarrow> string list" where
  "part_lines r =
     ([] # print_goal (r_goal r)) @ ([] # print_rules_part (r_rules r))
     @ ([] # print_work (r_work r) (r_header r)) @ ([] # print_lessons (r_lessons r))"

lemma printed_lines_parts: "printed_lines r = header_lines r @ part_lines r"
  by (simp add: printed_lines_def header_lines_def part_lines_def)

text \<open>What a reader holds after each part, and after all of them.\<close>

definition goal_read :: "goal \<Rightarrow> record_of_work \<Rightarrow> record_of_work option" where
  "goal_read g r =
     (case done_list_read (r_header r) (g_done_when g) of
        None \<Rightarrow> None | Some ds \<Rightarrow> Some (r\<lparr>r_goal := g\<lparr>g_done_when := ds\<rparr>\<rparr>))"

definition rules_read :: "rules \<Rightarrow> record_of_work \<Rightarrow> record_of_work option" where
  "rules_read ru r =
     (case read_all read_correction [] (map (item_text print_correction) (r_corrections ru)) of
        None \<Rightarrow> None
      | Some cs \<Rightarrow>
         (case read_all (\<lambda>_. read_plain_line) [] (map (item_text print_plain) (r_stop_when ru)) of
            None \<Rightarrow> None
          | Some ss \<Rightarrow> Some (r\<lparr>r_rules := \<lparr>r_corrections = cs, r_stop_when = ss\<rparr>\<rparr>)))"

definition work_read :: "work \<Rightarrow> record_of_work \<Rightarrow> record_of_work option" where
  "work_read w r =
     (let h = r_header r in
      case read_all (\<lambda>_. read_plain_line) [] (map (item_text print_plain) (w_situation w)) of
        None \<Rightarrow> None
      | Some facts \<Rightarrow>
         (case plan_read h (h_kind h) w of
            None \<Rightarrow> None
          | Some (ps, ts) \<Rightarrow>
             (case read_all (read_result_line h) [] (map (item_text print_result_line) (w_results w)) of
                None \<Rightarrow> None
              | Some rs \<Rightarrow>
                 Some (r\<lparr>r_work :=
                   \<lparr>w_situation = facts, w_plan = ps, w_tasks = ts, w_results = rs\<rparr>\<rparr>))))"

definition lessons_read :: "lessons \<Rightarrow> record_of_work \<Rightarrow> record_of_work option" where
  "lessons_read l r =
     (case read_all read_decision [] (map (item_text print_decision) (l_decisions l)) of
        None \<Rightarrow> None
      | Some ds \<Rightarrow>
         (case read_all read_failure [] (map (item_text print_failure) (l_failures l)) of
            None \<Rightarrow> None
          | Some fs \<Rightarrow> Some (r\<lparr>r_lessons := \<lparr>l_decisions = ds, l_failures = fs\<rparr>\<rparr>)))"

definition parts_read :: "record_of_work \<Rightarrow> record_of_work \<Rightarrow> record_of_work option" where
  "parts_read r start =
     Option.bind (goal_read (r_goal r) start) (\<lambda>r1.
     Option.bind (rules_read (r_rules r) r1) (\<lambda>r2.
     Option.bind (work_read (r_work r) r2) (\<lambda>r3.
     lessons_read (r_lessons r) r3)))"

lemma outcome_then:
  assumes past: "past_header rd" and first: "outcome rd (as) = map_option (Pair n) m"
    and rest: "\<And>rd'. past_header rd' \<Longrightarrow> rd_headings rd' = n \<Longrightarrow> m = Some (rd_record rd') \<Longrightarrow>
      outcome rd' bs = map_option (Pair k) (f (rd_record rd'))"
  shows "outcome rd (as @ bs) = map_option (Pair k) (Option.bind m f)"
proof -
  have "outcome rd (as @ bs) =
    (case outcome rd as of None \<Rightarrow> None | Some (j, r) \<Rightarrow> map_option (Pair k) (f r))"
    by (rule outcome_append[OF past]) (auto simp: first intro: rest)
  then show ?thesis unfolding first by (cases m) simp_all
qed

lemma outcome_parts:
  assumes past: "past_header rd" and at: "rd_headings rd = 0" and h: "rd_header rd = r_header r"
    and empty: "r_goal (rd_record rd) = empty_goal" "r_rules (rd_record rd) = empty_rules"
      "r_work (rd_record rd) = empty_work" "r_lessons (rd_record rd) = empty_lessons"
  shows "outcome rd (part_lines r) = map_option (Pair 4) (parts_read r (rd_record rd))"
  unfolding part_lines_def parts_read_def
proof (rule outcome_then[OF past])
  show "outcome rd ([] # print_goal (r_goal r)) =
      map_option (Pair 1) (goal_read (r_goal r) (rd_record rd))"
    using outcome_goal[OF past at empty(1), of "r_goal r"]
    by (simp add: goal_read_def split: option.split)
  fix rd1 assume rd1: "past_header rd1" "rd_headings rd1 = 1"
    "goal_read (r_goal r) (rd_record rd) = Some (rd_record rd1)"
  then have e1: "r_rules (rd_record rd1) = empty_rules" "r_work (rd_record rd1) = empty_work"
    "r_lessons (rd_record rd1) = empty_lessons" "rd_header rd1 = r_header r"
    using empty h by (auto simp: goal_read_def split: option.splits dest!: sym[of _ "rd_record rd1"])
  show "outcome rd1 (([] # print_rules_part (r_rules r)) @
      ([] # print_work (r_work r) (r_header r)) @ ([] # print_lessons (r_lessons r))) =
    map_option (Pair 4) (Option.bind (rules_read (r_rules r) (rd_record rd1)) (\<lambda>r2.
      Option.bind (work_read (r_work r) r2) (\<lambda>r3. lessons_read (r_lessons r) r3)))"
  proof (rule outcome_then[OF rd1(1)])
    show "outcome rd1 ([] # print_rules_part (r_rules r)) =
        map_option (Pair 2) (rules_read (r_rules r) (rd_record rd1))"
      using outcome_rules[OF rd1(1,2) e1(1), of "r_rules r"]
      by (simp add: rules_read_def split: option.split)
    fix rd2 assume rd2: "past_header rd2" "rd_headings rd2 = 2"
      "rules_read (r_rules r) (rd_record rd1) = Some (rd_record rd2)"
    then have e2: "r_work (rd_record rd2) = empty_work"
      "r_lessons (rd_record rd2) = empty_lessons" "rd_header rd2 = r_header r"
      using e1 by (auto simp: rules_read_def split: option.splits dest!: sym[of _ "rd_record rd2"])
    show "outcome rd2 (([] # print_work (r_work r) (r_header r)) @ ([] # print_lessons (r_lessons r))) =
      map_option (Pair 4) (Option.bind (work_read (r_work r) (rd_record rd2))
        (\<lambda>r3. lessons_read (r_lessons r) r3))"
    proof (rule outcome_then[OF rd2(1)])
      show "outcome rd2 ([] # print_work (r_work r) (r_header r)) =
          map_option (Pair 3) (work_read (r_work r) (rd_record rd2))"
        using outcome_work[OF rd2(1,2) e2(1,3), of "r_work r"] e2(3)
        by (simp add: work_read_def Let_def split: option.split)
      fix rd3 assume rd3: "past_header rd3" "rd_headings rd3 = 3"
        "work_read (r_work r) (rd_record rd2) = Some (rd_record rd3)"
      then have e3: "r_lessons (rd_record rd3) = empty_lessons"
        using e2 by (auto simp: work_read_def Let_def split: option.splits
            dest!: sym[of _ "rd_record rd3"])
      show "outcome rd3 ([] # print_lessons (r_lessons r)) =
          map_option (Pair 4) (lessons_read (r_lessons r) (rd_record rd3))"
        using outcome_lessons[OF rd3(1,2) e3, of "r_lessons r"]
        by (simp add: lessons_read_def split: option.split)
    qed
  qed
qed

lemma read_all_whole: "read_all rd [] (map pr xs) = Some xs \<longleftrightarrow> reads_list rd pr [] xs"
  using read_all_reads_list[of rd "[]" pr xs] by simp

lemma whole_update:
  fixes r start :: record_of_work
  shows "r_header start = r_header r \<Longrightarrow>
     start\<lparr>r_goal := g, r_rules := ru, r_work := w, r_lessons := l\<rparr> = r \<longleftrightarrow>
       g = r_goal r \<and> ru = r_rules r \<and> w = r_work r \<and> l = r_lessons r"
  by (cases r; cases start) auto

lemma goal_update: "g\<lparr>g_done_when := ds\<rparr> = g \<longleftrightarrow> ds = g_done_when g"
  by (cases g) auto

lemma rules_eq: "\<lparr>r_corrections = cs, r_stop_when = ss\<rparr> = ru \<longleftrightarrow> cs = r_corrections ru \<and> ss = r_stop_when ru"
  by (cases ru) auto

lemma work_eq: "\<lparr>w_situation = a, w_plan = b, w_tasks = c, w_results = d\<rparr> = w \<longleftrightarrow>
    a = w_situation w \<and> b = w_plan w \<and> c = w_tasks w \<and> d = w_results w"
  by (cases w) auto

lemma lessons_eq: "\<lparr>l_decisions = a, l_failures = b\<rparr> = l \<longleftrightarrow> a = l_decisions l \<and> b = l_failures l"
  by (cases l) auto

lemmas part_eqs = goal_update rules_eq work_eq lessons_eq

lemma parts_read_iff:
  assumes h: "r_header start = r_header r"
  shows "parts_read r start = Some r \<longleftrightarrow> lists_read r"
proof
  assume "lists_read r"
  moreover from this have "start\<lparr>r_goal := r_goal r, r_rules := r_rules r, r_work := r_work r,
      r_lessons := r_lessons r\<rparr> = r"
    using whole_update[OF h] by simp
  moreover have "(r_goal r)\<lparr>g_done_when := g_done_when (r_goal r)\<rparr> = r_goal r" by simp
  ultimately show "parts_read r start = Some r"
    by (simp add: parts_read_def goal_read_def rules_read_def work_read_def lessons_read_def
        lists_read_def Let_def read_all_whole[symmetric] h)
next
  assume "parts_read r start = Some r"
  then show "lists_read r"
    by (auto simp: parts_read_def goal_read_def rules_read_def work_read_def lessons_read_def
        lists_read_def Let_def read_all_whole[symmetric] h whole_update[OF h] part_eqs
        bind_eq_Some_conv split: option.splits)
qed

lemma parts_keep_header:
  assumes "each_in_turn read_next rd ls = Inr rd'" "past_header rd"
  shows "rd_header rd' = rd_header rd"
proof -
  have step: "past_header b \<and> rd_header b = rd_header rd"
    if "past_header a \<and> rd_header a = rd_header rd" "read_next a s = Inr b" for a b s
  proof -
    have "rd_header b = rd_header a"
      using that by (auto simp: read_next_body dest!: body_line_keeps_header split: sum.splits)
    moreover have "past_header b" using that(2) by (rule read_next_past[rotated]) (simp add: that(1))
    ultimately show ?thesis using that(1) by simp
  qed
  show ?thesis
    using each_in_turn_keeps[OF assms(1), where I = "\<lambda>a. past_header a \<and> rd_header a = rd_header rd"]
      step assms(2) by blast
qed

text \<open>The check of the keeper, taken apart.\<close>

theorem reads_back_iff:
  "reads_back r \<longleftrightarrow>
     fits_a_text r \<and> header_read r = Some (r_header r) \<and> g_ask (r_goal r) \<noteq> [] \<and> lists_read r"
proof (cases "one_line_header (r_header r)")
  case False
  have "\<not> reads_back r"
  proof
    assume "reads_back r"
    then obtain rd where run: "each_in_turn read_next start_reader
        (split_on (trim_suffix (print_whole r) [newline]) [newline]) = Inr rd" and rec: "rd_record rd = r"
      by (auto simp: reads_back_def parse_record_def Let_def and_then_Inr_iff finish_reading_def
          split: if_splits)
    obtain l ls where ls: "split_on (trim_suffix (print_whole r) [newline]) [newline] = l # ls"
      by (metis split_on_nonempty neq_Nil_conv)
    obtain rd1 where rd1: "read_next start_reader l = Inr rd1" "each_in_turn read_next rd1 ls = Inr rd"
      using run by (auto simp: ls and_then_Inr_iff)
    have "known_place (rd_header rd)" using known_after[OF rd1(2)] first_line[OF rd1(1)] by simp
    then show False using known_place_one_line rec False by blast
  qed
  moreover have "header_read r \<noteq> Some (r_header r)"
    using False known_place_one_line header_stage
    by (fastforce simp: header_read_def split: sum.splits)
  ultimately show ?thesis by simp
next
  case True
  note lines = lines_of_print[OF True]
  let ?run = "each_in_turn read_next start_reader (header_lines r)"
  have four: "length heading_order = 4" by (simp add: heading_order_def)
  have ended: "finish_reading rd = Inr r \<longleftrightarrow>
      rd_headings rd = 4 \<and> g_ask (r_goal r) \<noteq> [] \<and> rd_record rd = r" for rd
    by (auto simp: finish_reading_def four)
  have taken: "reads_back r \<longleftrightarrow> fits_a_text r \<and>
      (\<exists>rd. each_in_turn read_next start_reader (header_lines r @ part_lines r) = Inr rd
         \<and> finish_reading rd = Inr r)"
    unfolding reads_back_def parse_record_def lines Let_def fits_a_text_def printed_lines_parts
    by (simp add: and_then_Inr_iff not_less)
  have stage: "(\<exists>rd. each_in_turn read_next start_reader (header_lines r @ part_lines r) = Inr rd
         \<and> rd_headings rd = 4 \<and> rd_record rd = r) \<longleftrightarrow>
      header_read r = Some (r_header r) \<and> lists_read r"
  proof (cases ?run)
    case (Inl e)
    then show ?thesis by (simp add: each_in_turn_append header_read_def)
  next
    case (Inr rd1)
    note st = header_stage[OF Inr]
    have past: "past_header rd1" and at: "rd_headings rd1 = 0" using st by simp_all
    have out: "outcome rd1 (part_lines r) = map_option (Pair 4) (parts_read r (rd_record rd1))"
      if "rd_header rd1 = r_header r"
      using outcome_parts[OF past at that] st by simp
    have keep: "rd_header rd = rd_header rd1"
      if "each_in_turn read_next rd1 (part_lines r) = Inr rd" for rd
      using parts_keep_header[OF that past] .
    have "(\<exists>rd. each_in_turn read_next rd1 (part_lines r) = Inr rd \<and> rd_headings rd = 4 \<and> rd_record rd = r)
        \<longleftrightarrow> rd_header rd1 = r_header r \<and> outcome rd1 (part_lines r) = Some (4, r)"
    proof (cases "each_in_turn read_next rd1 (part_lines r)")
      case (Inr rd)
      have "rd_header rd1 = r_header r" if "rd_record rd = r"
        using keep[OF Inr] unfolding that by simp
      then show ?thesis using Inr by (auto simp only: outcome_def sum.case Inr option.inject
          prod.inject sum.inject)
    qed (simp add: outcome_def)
    also have "\<dots> \<longleftrightarrow> rd_header rd1 = r_header r \<and> lists_read r"
      using out parts_read_iff[of "rd_record rd1" r]
      by (cases "rd_header rd1 = r_header r") (auto simp: map_option_case split: option.splits)
    finally show ?thesis using Inr by (simp add: each_in_turn_append header_read_def)
  qed
  show ?thesis unfolding taken ended using stage by blast
qed

section \<open>Leaving old results out\<close>

lemma reads_list_drop:
  assumes smaller: "\<And>earlier k x s. rd earlier s = Inr x \<Longrightarrow> rd (drop k earlier) s = Inr x"
  shows "reads_list rd pr earlier xs \<Longrightarrow> reads_list rd pr (drop k earlier) xs"
proof (induction xs arbitrary: earlier k)
  case (Cons x xs)
  then have "rd (drop k earlier) (pr x) = Inr x" using smaller by simp
  moreover have "reads_list rd pr (drop k earlier @ [x]) xs"
  proof (cases "k \<le> length earlier")
    case True
    then show ?thesis using Cons.IH[of "earlier @ [x]" k] Cons.prems by simp
  next
    case False
    then show ?thesis using Cons.IH[of "earlier @ [x]" "length earlier"] Cons.prems by simp
  qed
  ultimately show ?case by simp
qed simp

lemma read_result_line_drop:
  assumes "read_result_line h earlier s = Inr x"
  shows "read_result_line h (drop k earlier) s = Inr x"
proof (cases "drop k earlier = []")
  case False
  then have "last (drop k earlier) = last earlier" "earlier \<noteq> []" by (auto simp: last_drop)
  then show ?thesis using assms False unfolding read_result_line_def by presburger
next
  case True
  show ?thesis using assms unfolding True
    by (auto simp: read_result_line_def split: prod.splits option.splits if_splits)
qed

lemma results_read_drop:
  assumes "reads_list (read_result_line h) pr [] rs"
  shows "reads_list (read_result_line h) pr [] (drop k rs)"
proof -
  have "reads_list (read_result_line h) pr [] (take k rs @ drop k rs)" using assms by simp
  then have "reads_list (read_result_line h) pr (take k rs) (drop k rs)"
    by (simp only: reads_list_append) simp
  then have "reads_list (read_result_line h) pr (drop (length (take k rs)) (take k rs)) (drop k rs)"
    by (intro reads_list_drop[where rd = "read_result_line h"] read_result_line_drop)
  then show ?thesis by simp
qed

definition text_size :: "string list \<Rightarrow> nat" where
  "text_size ls = sum_list (map (\<lambda>l. length l + 1) ls)"

lemma text_size_append [simp]: "text_size (a @ b) = text_size a + text_size b"
  "text_size (l # a) = length l + 1 + text_size a"
  by (simp_all add: text_size_def)

lemma length_join_newline: "ls \<noteq> [] \<Longrightarrow> length (join [c] ls) + 1 = text_size ls"
  by (induction ls rule: induct_list012) (auto simp: text_size_def)

lemma length_print_whole: "length (print_whole r) = text_size (printed_lines r)"
proof -
  have "printed_lines r \<noteq> []" by (simp add: printed_lines_def)
  then show ?thesis using length_join_newline[of "printed_lines r" newline]
    by (simp add: print_whole_def)
qed

lemma text_size_drop: "text_size (drop k ls) \<le> text_size ls"
proof -
  have "text_size ls = text_size (take k ls @ drop k ls)" by simp
  then show ?thesis by (simp del: append_take_drop_id)
qed

lemma print_list_drop:
  "text_size (print_list label line (drop k xs)) \<le> text_size (print_list label line xs)"
  "length (print_list label line (drop k xs)) \<le> length (print_list label line xs)"
  using text_size_drop[of k "map line xs"]
  by (auto simp: print_list_def drop_map text_size_def)

definition without_the_oldest :: "nat \<Rightarrow> record_of_work \<Rightarrow> record_of_work" where
  "without_the_oldest k r = put_results (drop k (w_results (r_work r))) r"

lemma without_the_oldest_simps [simp]:
  "r_header (without_the_oldest k r) = r_header r" "r_goal (without_the_oldest k r) = r_goal r"
  "r_rules (without_the_oldest k r) = r_rules r" "r_lessons (without_the_oldest k r) = r_lessons r"
  "w_situation (r_work (without_the_oldest k r)) = w_situation (r_work r)"
  "w_plan (r_work (without_the_oldest k r)) = w_plan (r_work r)"
  "w_tasks (r_work (without_the_oldest k r)) = w_tasks (r_work r)"
  "w_results (r_work (without_the_oldest k r)) = drop k (w_results (r_work r))"
  by (simp_all add: without_the_oldest_def put_results_def)

lemma print_work_drop:
  assumes "w_situation w' = w_situation w" "w_plan w' = w_plan w" "w_tasks w' = w_tasks w"
    "w_results w' = drop k (w_results w)"
  shows "text_size (print_work w' h) \<le> text_size (print_work w h) \<and>
    length (print_work w' h) \<le> length (print_work w h)"
  using print_list_drop[of "results_label (h_kind h)" print_result_line k "w_results w"]
  by (auto simp: print_work_def print_plan_or_tasks_def assms)

lemma fits_without_the_oldest: "fits_a_text r \<Longrightarrow> fits_a_text (without_the_oldest k r)"
proof -
  have "text_size (printed_lines (without_the_oldest k r)) \<le> text_size (printed_lines r) \<and>
    length (printed_lines (without_the_oldest k r)) \<le> length (printed_lines r)"
    using print_work_drop[of "r_work (without_the_oldest k r)" "r_work r" k "r_header r"]
    by (simp add: printed_lines_def with_the_proved_count_def)
  then show "fits_a_text r \<Longrightarrow> fits_a_text (without_the_oldest k r)"
    by (simp add: fits_a_text_def length_print_whole)
qed

text \<open>Leaving the oldest results out of a record that reads back leaves one that does.\<close>

lemma reads_back_without_the_oldest:
  assumes "reads_back r"
  shows "reads_back (without_the_oldest k r)"
proof -
  have "header_lines (without_the_oldest k r) = header_lines r"
    by (simp add: header_lines_def with_the_proved_count_def)
  then have "header_read (without_the_oldest k r) = header_read r" by (simp add: header_read_def)
  moreover have "lists_read (without_the_oldest k r)"
    using assms results_read_drop unfolding reads_back_iff
    by (auto simp: lists_read_def Let_def plan_read_def)
  ultimately show ?thesis
    using assms fits_without_the_oldest unfolding reads_back_iff by simp
qed

end
