(* ===== verification/Record_Roundtrip.thy ===== *)
theory Record_Roundtrip
  imports Record_Whole
begin

text \<open>
  The round trip from the record's own side. \<open>well_formed\<close> says of each piece of a record what
  lets its printed form be read back: labels in order, marked lines with their proof, and no text that
  hides one of the record's own marks where the reader would take it. \<open>well_formed_reads_back\<close> is the
  theorem that such a record comes back as it was.
\<close>

section \<open>Arrows\<close>

definition ends_plainly :: "(string \<Rightarrow> bool) \<Rightarrow> string \<Rightarrow> bool" where
  "ends_plainly is_proof s \<longleftrightarrow>
     \<not> suffix arrow_end s \<and>
     (case last_index s arrow of None \<Rightarrow> True | Some at \<Rightarrow> \<not> is_proof (drop (at + length arrow) s))"

lemma split_at_arrow_plain: "ends_plainly p s \<Longrightarrow> split_at_arrow p s = (s, [])"
  by (auto simp: ends_plainly_def split_at_arrow_def cut_suffix_None_iff[THEN iffD2] Let_def
      split: option.splits)

lemma split_at_arrow_end: "split_at_arrow p (s @ arrow_end) = (s, [])"
  by (simp add: split_at_arrow_def)

lemma suffix_append_long: "length p \<le> length t \<Longrightarrow> suffix p (s @ t) = suffix p t"
proof
  assume len: "length p \<le> length t" and "suffix p (s @ t)"
  then obtain z where z: "s @ t = z @ p" by (auto simp: suffix_def)
  then show "suffix p t" using len by (auto simp: append_eq_append_conv2 suffix_def)
qed (auto simp: suffix_def)

lemma split_at_arrow_proof:
  assumes "p q" "clean_after arrow q" "\<not> suffix arrow_end (arrow @ q)"
  shows "split_at_arrow p (s @ arrow @ q) = (s, q)"
proof -
  have "\<not> suffix arrow_end (s @ arrow @ q)"
    using assms(3) suffix_append_long[of arrow_end "arrow @ q" s] by (simp add: label_defs)
  then show ?thesis
    using assms(1) last_index_append_clean[OF assms(2), of s]
    by (simp add: split_at_arrow_def cut_suffix_None_iff[THEN iffD2] Let_def)
qed

text \<open>A label holds no arrow and does not end in one.\<close>

lemma clean_after_no_space: "CHR '' '' \<notin> set s \<Longrightarrow> clean_after arrow s"
proof -
  assume clean: "CHR '' '' \<notin> set s"
  have "\<not> sublist arrow t" if "CHR '' '' \<notin> set t" for t
    using that set_mono_sublist[of arrow t] by (auto simp: label_defs)
  then have no: "last_index t arrow = None" if "CHR '' '' \<notin> set t" for t
    using that by (simp add: last_index_None_iff)
  have none: "last_index (CHR '' '' # s) arrow = None"
  proof -
    have "\<not> prefix arrow (CHR '' '' # s)"
    proof
      assume "prefix arrow (CHR '' '' # s)"
      then show False using clean by (auto simp: label_defs prefix_def)
    qed
    then show ?thesis using no[OF clean] by simp
  qed
  have "last_index (CHR ''>'' # CHR '' '' # s) arrow = None"
    using none by (simp add: label_defs)
  then have "last_index (CHR ''-'' # CHR ''>'' # CHR '' '' # s) arrow = None"
    by (simp add: label_defs)
  then show "clean_after arrow s"
    by (simp add: clean_after_def arrow_def)
qed

lemma no_arrow_end:
  assumes "s \<noteq> []" "last s \<noteq> CHR ''>''"
  shows "\<not> suffix arrow_end (arrow @ s)"
proof
  assume "suffix arrow_end (arrow @ s)"
  then obtain z where "arrow @ s = z @ arrow_end" by (auto simp: suffix_def)
  then have "last (arrow @ s) = CHR ''>''" by (simp add: arrow_end_def)
  then show False using assms by simp
qed

lemma read_count_digits: "read_count s = Some n \<Longrightarrow> s \<noteq> [] \<and> list_all is_digit s \<and> itoa n = s \<and> 1 \<le> n \<and> n \<le> max_int"
  using positive_number_value_Some[of s n]
  by (auto simp: read_count_eq positive_number_value_def positive_number_def split: if_splits)

lemma digits_clean:
  "list_all is_digit s \<Longrightarrow> \<not> is_digit c \<Longrightarrow> c \<notin> set s"
  by (auto simp: list_all_iff)

definition label_text :: "string \<Rightarrow> bool" where
  "label_text s \<longleftrightarrow> s \<noteq> [] \<and> plain_text s \<and> CHR '' '' \<notin> set s \<and> hd s \<noteq> quote \<and> is_digit (last s)"

lemma itoa_label:
  assumes "1 \<le> n"
  shows "plain_text (itoa n)" "CHR '' '' \<notin> set (itoa n)" "is_digit (last (itoa n))"
proof -
  show "plain_text (itoa n)" using assms by simp
  show "CHR '' '' \<notin> set (itoa n)" using assms by (intro itoa_no_char) simp_all
  have "list_all is_digit (itoa n)" using assms by (simp add: itoa_def)
  then show "is_digit (last (itoa n))" by (simp add: list_all_iff)
qed

lemma parse_result_id_label: "parse_result_id s = Some n \<Longrightarrow> label_text s"
  using result_label.mk_rd[of s n] itoa_label[of n]
  by (auto simp: label_text_def result_id_def)

lemma positive_number_plain:
  "positive_number s \<Longrightarrow> plain_text s \<and> CHR '' '' \<notin> set s"
  by (auto simp: positive_number_def plain_text_def list_all_iff is_digit_def)

lemma parse_report_id_label: "parse_report_id s = Some (j, n) \<Longrightarrow> label_text s"
  using parse_report_id_read[of s j n] itoa_label[of n] positive_number_plain[of j]
  by (auto simp: label_text_def report_id_def)

lemma known_result_id_label: "known_result_id kind i s \<Longrightarrow> label_text s"
  by (auto simp: known_result_id_def parse_result_id_label parse_report_id_label
      split: if_splits option.splits)

lemma label_text_reads:
  assumes "label_text s"
  shows "unfold_text s = s" "fold_text s = s" "clean_after arrow s" "\<not> suffix arrow_end (arrow @ s)"
    "unquote s = None"
proof -
  have "last s \<noteq> CHR ''>''" using assms by (auto simp: label_text_def is_digit_def)
  then show "\<not> suffix arrow_end (arrow @ s)" using assms by (intro no_arrow_end) (auto simp: label_text_def)
  show "unfold_text s = s" "fold_text s = s" "clean_after arrow s"
    using assms by (auto simp: label_text_def unfold_text_plain fold_text_plain clean_after_no_space)
  show "unquote s = None" using assms by (cases s) (auto simp: label_text_def unquote_def)
qed

lemma itoa_char: "0 \<le> n \<Longrightarrow> c \<in> set (itoa n) \<Longrightarrow> is_digit c"
  using itoa_no_char by blast

section \<open>Marked lines\<close>

lemma read_check_mark_print [simp]: "read_check_mark (check_mark d @ CHR '' '' # s) = Inr (d, s)"
proof (cases d)
  case True
  then show ?thesis using cut_prefix_append[of "mark_done @ '' ''" s]
    by (simp add: read_check_mark_def check_mark_def)
next
  case False
  have "cut_prefix (mark_waiting @ '' '' @ s) (mark_done @ '' '') = None"
    by (simp add: label_defs)
  moreover have "cut_prefix (mark_waiting @ '' '' @ s) (mark_waiting @ '' '') = Some s"
    using cut_prefix_append[of "mark_waiting @ '' ''" s] by simp
  ultimately show ?thesis using False by (simp add: read_check_mark_def check_mark_def)
qed

definition wf_done_line :: "header \<Rightarrow> bool \<Rightarrow> done_line \<Rightarrow> bool" where
  "wf_done_line h arrows l \<longleftrightarrow>
     dl_text l \<noteq> [] \<and> (dl_done l \<longrightarrow> dl_result l \<noteq> [] \<or> dl_reply l \<noteq> [])
     \<and> (dl_result l = [] \<or> dl_reply l = [])
     \<and> (dl_result l \<noteq> [] \<longrightarrow> known_result_id (h_kind h) (h_id h) (dl_result l))
     \<and> (dl_reply l \<noteq> [] \<longrightarrow> clean_after arrow (quoted (dl_reply l)))
     \<and> (dl_result l = [] \<and> dl_reply l = [] \<and> \<not> arrows \<longrightarrow>
          ends_plainly (proves_a_done_line h) (fold_text (dl_text l)))"

lemma done_line_round_trip:
  assumes wf: "wf_done_line h arrows l"
  shows "read_done_line h (item_text (print_done_line arrows) l) = Inr l"
proof -
  let ?p = "proves_a_done_line h"
  have printed: "item_text (print_done_line arrows) l = check_mark (dl_done l) @ '' '' @ rest"
    if "rest = (if proof_of l \<noteq> [] then fold_text (dl_text l) @ arrow @ proof_of l
                else if arrows then fold_text (dl_text l) @ arrow_end else fold_text (dl_text l))" for rest
    using that by (auto simp: item_text_def print_done_line_def Let_def)
  consider (result) "dl_result l \<noteq> []" | (reply) "dl_result l = []" "dl_reply l \<noteq> []"
    | (none) "dl_result l = []" "dl_reply l = []" by blast
  then show ?thesis
  proof cases
    case result
    then have known: "known_result_id (h_kind h) (h_id h) (dl_result l)" "dl_reply l = []"
      using wf by (auto simp: wf_done_line_def)
    note lab = label_text_reads[OF known_result_id_label[OF known(1)]]
    have "?p (dl_result l)" by (simp add: proves_a_done_line_def lab known)
    note split = split_at_arrow_proof[where p = ?p, OF this lab(3,4), of "fold_text (dl_text l)"]
    have proof_is: "proof_of l = dl_result l" using result by (simp add: proof_of_def lab)
    show ?thesis using result wf
      by (simp add: printed[OF refl] proof_is read_done_line_def split lab Let_def wf_done_line_def)
  next
    case reply
    then have clean: "clean_after arrow (quoted (dl_reply l))" using wf by (simp add: wf_done_line_def)
    have "?p (quoted (dl_reply l))" using reply by (simp add: proves_a_done_line_def)
    moreover have "\<not> suffix arrow_end (arrow @ quoted (dl_reply l))"
      by (rule no_arrow_end) (simp_all add: quoted_def)
    ultimately have split: "split_at_arrow ?p (fold_text (dl_text l) @ arrow @ quoted (dl_reply l)) =
        (fold_text (dl_text l), quoted (dl_reply l))"
      using clean by (intro split_at_arrow_proof)
    have proof_is: "proof_of l = quoted (dl_reply l)" using reply by (simp add: proof_of_def)
    have "quoted (dl_reply l) \<noteq> []" by (simp add: quoted_def)
    then show ?thesis using reply wf
      by (simp add: printed[OF refl] proof_is read_done_line_def split Let_def wf_done_line_def)
  next
    case none
    have proof_is: "proof_of l = []" using none by (simp add: proof_of_def)
    have "split_at_arrow ?p (if arrows then fold_text (dl_text l) @ arrow_end else fold_text (dl_text l)) =
        (fold_text (dl_text l), [])"
      using none wf by (simp add: split_at_arrow_end split_at_arrow_plain wf_done_line_def)
    then show ?thesis using none wf
      by (simp add: printed[OF refl] proof_is read_done_line_def Let_def unquote_def wf_done_line_def)
  qed
qed

lemma read_plain_line_print: "s \<noteq> [] \<Longrightarrow> read_plain_line (item_text print_plain s) = Inr s"
  by (simp add: item_text_def print_plain_def read_plain_line_def)

section \<open>Lists in order\<close>

lemma reads_list_by_place:
  assumes "\<And>ys x zs. xs = ys @ x # zs \<Longrightarrow> rd (earlier @ ys) (pr x) = Inr x"
  shows "reads_list rd pr earlier xs"
  using assms
proof (induction xs arbitrary: earlier)
  case (Cons x xs)
  have "rd earlier (pr x) = Inr x" using Cons.prems[of "[]"] by simp
  moreover have "reads_list rd pr (earlier @ [x]) xs"
  proof (rule Cons.IH)
    fix ys y zs assume "xs = ys @ y # zs"
    then show "rd ((earlier @ [x]) @ ys) (pr y) = Inr y" using Cons.prems[of "x # ys"] by simp
  qed
  ultimately show ?case by simp
qed simp

text \<open>Labels that count upwards: each has a number, and the numbers grow.\<close>

definition labels_grow :: "(string \<Rightarrow> int option) \<Rightarrow> string list \<Rightarrow> bool" where
  "labels_grow num labels \<longleftrightarrow>
     list_all (\<lambda>i. num i \<noteq> None) labels \<and> sorted_wrt (<) (map (\<lambda>i. number_or_zero (num i)) labels)"

lemma labels_grow_last:
  assumes "labels_grow num (as @ i # bs)"
  shows "num i \<noteq> None" "as \<noteq> [] \<Longrightarrow> number_or_zero (num (last as)) < number_or_zero (num i)"
proof -
  show "num i \<noteq> None" using assms by (simp add: labels_grow_def)
  assume "as \<noteq> []"
  then show "number_or_zero (num (last as)) < number_or_zero (num i)"
    using assms by (simp add: labels_grow_def sorted_wrt_append)
qed

definition wf_corrections :: "correction list \<Rightarrow> bool" where
  "wf_corrections cs \<longleftrightarrow>
     map co_id cs = map (\<lambda>i. correction_id (int i + 1)) [0..<length cs]
     \<and> list_all (\<lambda>c. co_text c \<noteq> []) cs"

lemma map_upt_place:
  assumes "map f xs = map (\<lambda>i. g (int i + 1)) [0..<length xs]" "xs = ys @ x # zs"
  shows "f x = g (int (length ys) + 1)"
proof -
  have less: "length ys < length xs" using assms(2) by simp
  have "map f xs ! length ys = map (\<lambda>i. g (int i + 1)) [0..<length xs] ! length ys"
    by (simp only: assms(1))
  then show ?thesis using less assms(2) by (simp add: nth_append del: upt_Suc)
qed

lemma corrections_round_trip:
  assumes "wf_corrections cs"
  shows "reads_list read_correction (item_text print_correction) [] cs"
proof (rule reads_list_by_place)
  fix ys x zs assume place: "cs = ys @ x # zs"
  have i: "co_id x = correction_id (int (length ys) + 1)" and said: "co_text x \<noteq> []"
  proof -
    show "co_id x = correction_id (int (length ys) + 1)"
      using map_upt_place[where f = co_id and g = correction_id, OF _ place] assms
      unfolding wf_corrections_def by blast
    show "co_text x \<noteq> []" using assms place by (simp add: wf_corrections_def)
  qed
  have lab: "plain_text (co_id x)" "CHR '' '' \<notin> set (co_id x)"
    using itoa_label[of "int (length ys) + 1"] by (simp_all add: i correction_id_def)
  have "item_text print_correction x = co_id x @ CHR '' '' # quoted (co_text x)"
    by (simp add: item_text_def print_correction_def fold_text_plain lab)
  then show "read_correction ([] @ ys) (item_text print_correction x) = Inr x"
    using said lab by (simp add: read_correction_def cut_char i[symmetric])
qed

definition wf_plan_step :: "plan_step \<Rightarrow> bool" where
  "wf_plan_step p \<longleftrightarrow>
     ps_text p \<noteq> [] \<and> (ps_done p \<longrightarrow> ps_result p \<noteq> [])
     \<and> (if ps_result p = []
        then ends_plainly is_result_id (itoa (ps_number p) @ '' '' @ fold_text (ps_text p))
        else is_result_id (ps_result p))"

definition wf_plan :: "plan_step list \<Rightarrow> bool" where
  "wf_plan ps \<longleftrightarrow>
     map ps_number ps = map (\<lambda>i. int i + 1) [0..<length ps] \<and> list_all wf_plan_step ps"

lemma read_count_itoa: "1 \<le> n \<Longrightarrow> n \<le> max_int \<Longrightarrow> read_count (itoa n) = Some n"
  by (simp add: read_count_eq)

lemma plan_round_trip:
  assumes wf: "wf_plan ps" and small: "length ps \<le> max_record_lines"
  shows "reads_list read_plan_step (item_text print_plan_step) [] ps"
proof (rule reads_list_by_place)
  fix ys x zs assume place: "ps = ys @ x # zs"
  have n: "ps_number x = int (length ys) + 1" and step: "wf_plan_step x"
  proof -
    show "ps_number x = int (length ys) + 1"
      using map_upt_place[where f = ps_number and g = "\<lambda>n. n", OF _ place] wf
      unfolding wf_plan_def by blast
    show "wf_plan_step x" using wf place by (simp add: wf_plan_def)
  qed
  let ?body = "itoa (ps_number x) @ '' '' @ fold_text (ps_text x)"
  have lab: "plain_text (itoa (ps_number x))" "CHR '' '' \<notin> set (itoa (ps_number x))"
    using itoa_label[of "ps_number x"] n by simp_all
  have "read_count (itoa (ps_number x)) = Some (ps_number x)"
    using small place n by (intro read_count_itoa) (simp_all add: max_int_def max_record_lines_def)
  then have count: "read_count (itoa (ps_number x)) = Some (int (length ([] @ ys)) + 1)"
    using n by simp
  have cut: "cut ?body '' '' = (itoa (ps_number x), fold_text (ps_text x), True)"
    using lab by (simp add: cut_char)
  have split: "split_at_arrow is_result_id
      (?body @ (if ps_result x = [] then [] else arrow @ fold_text (ps_result x))) = (?body, ps_result x)"
  proof (cases "ps_result x = []")
    case True
    then show ?thesis using step split_at_arrow_plain by (simp add: wf_plan_step_def)
  next
    case False
    then have known: "is_result_id (ps_result x)" using step by (simp add: wf_plan_step_def)
    then obtain k where "parse_result_id (ps_result x) = Some k" by (auto simp: is_result_id_def)
    note lab = label_text_reads[OF parse_result_id_label[OF this]]
    show ?thesis using False split_at_arrow_proof[where p = is_result_id, OF known lab(3,4), of ?body]
      by (simp add: lab)
  qed
  have result: "unfold_text (ps_result x) = ps_result x"
    using step parse_result_id_label label_text_reads(1)
    by (cases "ps_result x = []") (auto simp: wf_plan_step_def is_result_id_def)
  have mark: "read_check_mark (item_text print_plan_step x) = Inr (ps_done x,
      ?body @ (if ps_result x = [] then [] else arrow @ fold_text (ps_result x)))"
    by (simp add: item_text_def print_plan_step_def)
  have "x = \<lparr>ps_number = int (length ([] @ ys)) + 1, ps_text = ps_text x, ps_done = ps_done x,
      ps_result = ps_result x\<rparr>" using n by simp
  then show "read_plan_step ([] @ ys) (item_text print_plan_step x) = Inr x"
    using step
    by (simp only: read_plan_step_def mark and_then_simps prod.case split cut count)
      (simp add: wf_plan_step_def result)
qed

section \<open>Tasks, results and lessons\<close>

definition wf_job_task :: "header \<Rightarrow> job_task \<Rightarrow> bool" where
  "wf_job_task h t \<longleftrightarrow>
     jt_text t \<noteq> [] \<and> (jt_done t \<longrightarrow> jt_report t \<noteq> [])
     \<and> (if jt_due t = [] then split_due_date (fold_text (jt_text t)) = (fold_text (jt_text t), [])
        else clean_after due_mark (fold_text (jt_due t)))
     \<and> (if jt_report t = []
        then ends_plainly (is_report_of_this_job h)
               (jt_id t @ '' '' @ fold_text (jt_text t)
                 @ (if jt_due t = [] then [] else due_mark @ fold_text (jt_due t)))
        else is_report_of_this_job h (jt_report t))"

definition wf_tasks :: "header \<Rightarrow> job_task list \<Rightarrow> bool" where
  "wf_tasks h ts \<longleftrightarrow> labels_grow parse_task_id (map jt_id ts) \<and> list_all (wf_job_task h) ts"

lemma parse_task_id_label: "parse_task_id s = Some n \<Longrightarrow> plain_text s \<and> CHR '' '' \<notin> set s \<and> s \<noteq> []"
  using task_label.mk_rd[of s n] itoa_label[of n] by (auto simp: task_id_def)

lemma tasks_round_trip:
  assumes wf: "wf_tasks h ts"
  shows "reads_list (read_job_task h) (item_text print_job_task) [] ts"
proof (rule reads_list_by_place)
  fix ys x zs assume place: "ts = ys @ x # zs"
  have task: "wf_job_task h x" using wf place by (simp add: wf_tasks_def)
  have grow: "labels_grow parse_task_id (map jt_id ys @ jt_id x # map jt_id zs)"
    using wf place by (simp add: wf_tasks_def)
  obtain k where k: "parse_task_id (jt_id x) = Some k" using labels_grow_last(1)[OF grow] by blast
  have order: "task_in_order ys k"
    using labels_grow_last(2)[OF grow] k
    by (cases "ys = []") (simp_all add: task_in_order_def number_or_zero_def last_map)
  note lab = parse_task_id_label[OF k]
  let ?what = "fold_text (jt_text x) @ (if jt_due x = [] then [] else due_mark @ fold_text (jt_due x))"
  let ?body = "jt_id x @ '' '' @ ?what"
  have cut: "cut ?body '' '' = (jt_id x, ?what, True)" using lab by (simp add: cut_char)
  have due: "split_due_date ?what = (fold_text (jt_text x), fold_text (jt_due x))"
  proof (cases "jt_due x = []")
    case True
    then show ?thesis using task by (simp add: wf_job_task_def)
  next
    case False
    then have "last_index ?what due_mark = Some (length (fold_text (jt_text x)))"
      using task last_index_append_clean by (simp add: wf_job_task_def)
    then show ?thesis using False by (simp add: split_due_date_def)
  qed
  have split: "split_at_arrow (is_report_of_this_job h)
      (?body @ (if jt_report x = [] then [] else arrow @ fold_text (jt_report x))) = (?body, jt_report x)"
  proof (cases "jt_report x = []")
    case True
    then show ?thesis using task split_at_arrow_plain by (simp add: wf_job_task_def)
  next
    case False
    then have known: "is_report_of_this_job h (jt_report x)" using task by (simp add: wf_job_task_def)
    then obtain j m where "parse_report_id (jt_report x) = Some (j, m)"
      by (auto simp: is_report_of_this_job_def split: option.splits)
    note rep = label_text_reads[OF parse_report_id_label[OF this]]
    show ?thesis
      using False split_at_arrow_proof[where p = "is_report_of_this_job h", OF known rep(3,4), of ?body]
      by (simp add: rep)
  qed
  have report: "unfold_text (jt_report x) = jt_report x"
    using task parse_report_id_label label_text_reads(1)
    by (cases "jt_report x = []")
      (auto simp: wf_job_task_def is_report_of_this_job_def split: option.splits)
  have mark: "read_check_mark (item_text print_job_task x) = Inr (jt_done x,
      ?body @ (if jt_report x = [] then [] else arrow @ fold_text (jt_report x)))"
    using lab by (simp add: item_text_def print_job_task_def fold_text_plain)
  have "?what \<noteq> []" "jt_done x \<longrightarrow> jt_report x \<noteq> []" using task by (simp_all add: wf_job_task_def)
  then show "read_job_task h ([] @ ys) (item_text print_job_task x) = Inr x"
    using order
    by (simp only: read_job_task_def mark and_then_simps prod.case split cut k option.case due)
      (simp add: report)
qed

definition wf_result_line :: "result_line \<Rightarrow> bool" where
  "wf_result_line r \<longleftrightarrow> rl_summary r \<noteq> []"

definition wf_results :: "header \<Rightarrow> result_line list \<Rightarrow> bool" where
  "wf_results h rs \<longleftrightarrow> labels_grow (result_number h) (map rl_id rs) \<and> list_all wf_result_line rs"

lemma result_number_label:
  assumes "result_number h s = Some n"
  shows "label_text s \<and> hd s \<noteq> CHR ''[''"
proof
  show "label_text s" using assms parse_result_id_label parse_report_id_label
    by (auto simp: result_number_def split: if_splits option.splits)
  show "hd s \<noteq> CHR ''[''" using assms result_label.mk_rd[of s n] parse_report_id_read[of s "h_id h" n]
    by (auto simp: result_number_def result_id_def report_id_def split: if_splits option.splits)
qed

lemma results_round_trip:
  assumes wf: "wf_results h rs"
  shows "reads_list (read_result_line h) (item_text print_result_line) [] rs"
proof (rule reads_list_by_place)
  fix ys x zs assume place: "rs = ys @ x # zs"
  have summary: "rl_summary x \<noteq> []" using wf place by (simp add: wf_results_def wf_result_line_def)
  have grow: "labels_grow (result_number h) (map rl_id ys @ rl_id x # map rl_id zs)"
    using wf place by (simp add: wf_results_def)
  obtain k where k: "result_number h (rl_id x) = Some k" using labels_grow_last(1)[OF grow] by blast
  have order: "ys = [] \<or> counts_upwards k (rl_id (last ys))
      (number_or_zero (result_number h (rl_id (last ys))))"
    using labels_grow_last(2)[OF grow] k
    by (cases "ys = []") (simp_all add: counts_upwards_def number_or_zero_def last_map)
  have lab: "label_text (rl_id x)" "hd (rl_id x) \<noteq> CHR ''[''" using result_number_label[OF k] by simp_all
  then have plain: "fold_text (rl_id x) = rl_id x" and clean: "CHR '' '' \<notin> set (rl_id x)"
    using label_text_reads by (simp_all add: label_text_def)
  let ?rest = "rl_id x @ '' '' @ fold_text (rl_summary x)"
  have cut: "cut ?rest '' '' = (rl_id x, fold_text (rl_summary x), True)" using clean by (simp add: cut_char)
  have pin: "(case cut_prefix (item_text print_result_line x) (mark_pinned @ '' '') of
      Some rest \<Rightarrow> (True, rest) | None \<Rightarrow> (False, item_text print_result_line x)) = (rl_pinned x, ?rest)"
  proof (cases "rl_pinned x")
    case True
    then have "item_text print_result_line x = (mark_pinned @ '' '') @ ?rest"
      by (simp add: item_text_def print_result_line_def plain)
    then show ?thesis using True by (simp only: cut_prefix_append option.case)
  next
    case False
    then have it: "item_text print_result_line x = ?rest"
      by (simp add: item_text_def print_result_line_def plain)
    have "cut_prefix ?rest (mark_pinned @ '' '') = None"
      using lab by (cases "rl_id x") (simp_all add: label_defs label_text_def)
    then show ?thesis using False by (simp only: it option.case)
  qed
  show "read_result_line h ([] @ ys) (item_text print_result_line x) = Inr x"
    using order summary
    by (simp only: read_result_line_def pin prod.case cut k option.case) simp
qed

text \<open>A lesson: its label is one the record writes, and its second half hides no join.\<close>

definition wf_lesson :: "(int \<Rightarrow> string) \<Rightarrow> string \<Rightarrow> string \<times> string \<times> string \<Rightarrow> bool" where
  "wf_lesson write_label join_words l \<longleftrightarrow>
     (case l of (i, what, why) \<Rightarrow>
        what \<noteq> [] \<and> why \<noteq> [] \<and> clean_after join_words (fold_text why)
        \<and> (case label_number i of None \<Rightarrow> False | Some n \<Rightarrow> write_label n = i))"

definition wf_lessons :: "(int \<Rightarrow> string) \<Rightarrow> string \<Rightarrow> (string \<times> string \<times> string) list \<Rightarrow> bool" where
  "wf_lessons write_label join_words ls \<longleftrightarrow>
     labels_grow label_number (map fst ls) \<and> list_all (wf_lesson write_label join_words) ls"

lemma split_at_join_print:
  assumes "what \<noteq> []" "why \<noteq> []" "clean_after join_words (fold_text why)"
  shows "split_at_join (fold_text what @ join_words @ fold_text why @ full_stop) join_words q =
    Inr (what, why)"
proof -
  have "cut_suffix ((fold_text what @ join_words @ fold_text why) @ full_stop) full_stop =
      Some (fold_text what @ join_words @ fold_text why)" by (rule cut_suffix_append)
  then show ?thesis using assms last_index_append_clean[OF assms(3), of "fold_text what"]
    by (simp add: split_at_join_def Let_def)
qed

lemma label_number_Some: "label_number i = Some n \<Longrightarrow> 1 \<le> n \<and> i \<noteq> []"
  using read_count_digits[of "dropWhile (\<lambda>c. \<not> is_digit c) i" n] by (auto simp: label_number_def)

lemma lesson_round_trip:
  assumes wf: "wf_lessons write_label join_words ls" and place: "ls = ys @ (i, what, why) # zs"
    and plain: "\<And>n. 1 \<le> n \<Longrightarrow> plain_text (write_label n) \<and> CHR '' '' \<notin> set (write_label n)"
  shows "read_lesson write_label join_words q (map fst ys)
      (fold_text i @ '' '' @ fold_text what @ join_words @ fold_text why @ full_stop) = Inr (i, what, why)"
proof -
  have one: "what \<noteq> []" "why \<noteq> []" "clean_after join_words (fold_text why)"
    using wf place by (simp_all add: wf_lessons_def wf_lesson_def)
  obtain n where n: "label_number i = Some n" "write_label n = i"
    using wf place by (auto simp: wf_lessons_def wf_lesson_def split: option.splits)
  have lab: "fold_text i = i" "CHR '' '' \<notin> set i"
    using plain[of n] label_number_Some[OF n(1)] n(2) by (auto simp: fold_text_plain)
  have "labels_grow label_number (map fst ys @ i # map fst zs)"
    using wf place by (simp add: wf_lessons_def)
  note grow = labels_grow_last(2)[OF this]
  have order: "map fst ys = [] \<or> counts_upwards n (last (map fst ys))
      (number_or_zero (label_number (last (map fst ys))))"
    using grow n(1) by (cases "ys = []") (auto simp: counts_upwards_def number_or_zero_def)
  have cut: "cut (fold_text i @ '' '' @ fold_text what @ join_words @ fold_text why @ full_stop) '' '' =
      (i, fold_text what @ join_words @ fold_text why @ full_stop, True)"
    using lab by (simp add: cut_char)
  show ?thesis
    using order split_at_join_print[OF one]
    by (simp only: read_lesson_def cut prod.case n option.case) auto
qed

lemma reads_list_lessons:
  assumes wf: "wf_lessons write_label join_words (map triple xs)"
    and plain: "\<And>n. 1 \<le> n \<Longrightarrow> plain_text (write_label n) \<and> CHR '' '' \<notin> set (write_label n)"
    and rd: "\<And>earlier s. rd earlier s = and_then (read_lesson write_label join_words q (map (fst \<circ> triple) earlier) s)
      (\<lambda>l. Inr (build l))"
    and pr: "\<And>x. pr x = fold_text (fst (triple x)) @ '' '' @ fold_text (fst (snd (triple x)))
      @ join_words @ fold_text (snd (snd (triple x))) @ full_stop"
    and build: "\<And>x. build (triple x) = x"
  shows "reads_list rd pr [] xs"
proof (rule reads_list_by_place)
  fix ys x zs assume "xs = ys @ x # zs"
  then have place: "map triple xs = map triple ys @ (fst (triple x), fst (snd (triple x)), snd (snd (triple x)))
      # map triple zs" by simp
  show "rd ([] @ ys) (pr x) = Inr x"
    using lesson_round_trip[OF wf place plain, of q]
    by (simp only: rd pr append_Nil map_map[symmetric] and_then_simps prod.collapse build)
qed

definition decision_triple :: "decision \<Rightarrow> string \<times> string \<times> string" where
  "decision_triple d = (de_id d, de_text d, de_reason d)"

definition failure_triple :: "failure \<Rightarrow> string \<times> string \<times> string" where
  "failure_triple f = (fa_id f, fa_text f, fa_cause f)"

lemma decisions_round_trip:
  assumes "wf_lessons decision_id reason_join (map decision_triple ds)"
  shows "reads_list read_decision (item_text print_decision) [] ds"
  by (rule reads_list_lessons[OF assms, where q = ErrDecisionNeedsReason
        and build = "\<lambda>(i, what, why). \<lparr>de_id = i, de_text = what, de_reason = why\<rparr>"])
    (simp_all add: decision_id_def itoa_label read_decision_def decision_triple_def comp_def
      case_prod_unfold item_text_def print_decision_def print_lesson_def)

lemma failures_round_trip:
  assumes "wf_lessons failure_id cause_join (map failure_triple fs)"
  shows "reads_list read_failure (item_text print_failure) [] fs"
  by (rule reads_list_lessons[OF assms, where q = ErrFailureNeedsCause
        and build = "\<lambda>(i, what, why). \<lparr>fa_id = i, fa_text = what, fa_cause = why\<rparr>"])
    (simp_all add: failure_id_def itoa_label read_failure_def failure_triple_def comp_def
      case_prod_unfold item_text_def print_failure_def print_lesson_def)

section \<open>The header\<close>

lemma clean_before_first:
  "hd sep \<notin> set a \<Longrightarrow> sep \<noteq> [] \<Longrightarrow> clean_before sep a"
proof (induction a)
  case Nil
  then show ?case by (cases sep) (auto simp: clean_before_def)
next
  case (Cons c a)
  then have "\<not> prefix sep (c # a @ sep)" by (cases sep) auto
  then show ?case using Cons by (simp add: clean_before_def)
qed

lemma clean_before_no_sublist: "clean_before sep a \<Longrightarrow> sep \<noteq> [] \<Longrightarrow> \<not> sublist sep a"
proof
  assume clean: "clean_before sep a" and sep: "sep \<noteq> []" and "sublist sep a"
  then obtain x y where a: "a = x @ sep @ y" by (auto simp: sublist_def)
  have "\<exists>i \<le> length x. str_index (x @ sep @ z) sep = Some i" for z
  proof (induction x)
    case Nil
    have "prefix sep (sep @ z)" by simp
    then show ?case using sep by (cases "sep @ z") auto
  next
    case (Cons c x)
    then show ?case by (auto split: if_splits)
  qed
  from this[of "y @ sep"] obtain i where "i \<le> length x" "str_index (a @ sep) sep = Some i"
    by (auto simp: a)
  then show False using clean sep by (simp add: clean_before_def a)
qed

text \<open>A field with no two spaces together and none at its end.\<close>

fun single_spaced :: "bool \<Rightarrow> string \<Rightarrow> bool" where
  "single_spaced after_space [] \<longleftrightarrow> \<not> after_space"
| "single_spaced after_space (c # s) \<longleftrightarrow>
     (if c = CHR '' '' then \<not> after_space \<and> single_spaced True s else single_spaced False s)"

lemma single_spaced_word:
  "CHR '' '' \<notin> set a \<Longrightarrow> a \<noteq> [] \<Longrightarrow> single_spaced p (a @ s) = single_spaced False s"
proof (induction a arbitrary: p)
  case (Cons c a)
  then show ?case by (cases "a = []") auto
qed simp

lemma single_spaced_clean: "single_spaced p a \<Longrightarrow> clean_before header_gap a"
proof (induction a arbitrary: p)
  case Nil
  show ?case by (simp add: clean_before_def header_gap_def)
next
  case (Cons c a)
  have "\<not> prefix header_gap (c # a @ header_gap)"
  proof (cases "c = CHR '' ''")
    case True
    then have "single_spaced True a" using Cons.prems by simp
    then obtain d b where "a = d # b" "d \<noteq> CHR '' ''" by (cases a) (auto split: if_splits)
    then show ?thesis by (simp add: header_gap_def)
  qed (simp add: header_gap_def)
  moreover have "clean_before header_gap a"
    using Cons by (cases "c = CHR '' ''") auto
  ultimately show ?case by (simp add: clean_before_def)
qed

lemma itoa_no_space [simp]: "0 \<le> n \<Longrightarrow> CHR '' '' \<notin> set (itoa n)" "0 \<le> n \<Longrightarrow> CHR '','' \<notin> set (itoa n)"
  by (simp_all add: itoa_no_char)

lemma single_spaced_itoa [simp]: "0 \<le> n \<Longrightarrow> single_spaced p (itoa n @ s) = single_spaced False s"
  by (simp add: single_spaced_word)

definition wf_budget :: "header \<Rightarrow> bool" where
  "wf_budget h \<longleftrightarrow>
     0 \<le> h_rounds_left h \<and> h_rounds_left h \<le> max_int \<and> (h_no_round_budget h \<longrightarrow> h_rounds_left h = 0)
     \<and> 0 \<le> h_minutes_left h \<and> h_minutes_left h \<le> max_int \<and> (h_no_time_budget h \<longrightarrow> h_minutes_left h = 0)"

definition with_budget_of :: "header \<Rightarrow> header \<Rightarrow> header" where
  "with_budget_of h h0 = h0\<lparr>h_rounds_left := h_rounds_left h, h_no_round_budget := h_no_round_budget h,
     h_minutes_left := h_minutes_left h, h_no_time_budget := h_no_time_budget h\<rparr>"

lemma print_budget_same [simp]: "print_budget (with_budget_of h h0) = print_budget h"
  by (simp add: print_budget_def with_budget_of_def)

lemma atoi_count [simp]: "0 \<le> n \<Longrightarrow> n \<le> max_int \<Longrightarrow> atoi (itoa n) = Some n"
  by (rule atoi_itoa) (simp_all add: max_int_def)

lemma read_budget_part_print:
  assumes "0 \<le> n" "n \<le> max_int"
  shows "read_budget_part h (itoa n @ '' rounds'') = Inr (h\<lparr>h_rounds_left := n, h_no_round_budget := False\<rparr>)"
    "read_budget_part h (itoa n @ '' minutes'') = Inr (h\<lparr>h_minutes_left := n, h_no_time_budget := False\<rparr>)"
proof -
  have "cut (itoa n @ CHR '' '' # ''rounds'') '' '' = (itoa n, ''rounds'', True)"
    "cut (itoa n @ CHR '' '' # ''minutes'') '' '' = (itoa n, ''minutes'', True)"
    using assms by (intro cut_char; simp)+
  then show "read_budget_part h (itoa n @ '' rounds'') = Inr (h\<lparr>h_rounds_left := n, h_no_round_budget := False\<rparr>)"
    "read_budget_part h (itoa n @ '' minutes'') = Inr (h\<lparr>h_minutes_left := n, h_no_time_budget := False\<rparr>)"
    using assms by (simp_all add: read_budget_part_def)
qed

lemma split_budget:
  assumes "0 \<le> n" "0 \<le> m"
  shows "split_on (itoa n @ '' rounds'') '', '' = [itoa n @ '' rounds'']"
    "split_on (itoa m @ '' minutes'') '', '' = [itoa m @ '' minutes'']"
    "split_on ((itoa n @ '' rounds'') @ '', '' @ (itoa m @ '' minutes'')) '', '' =
       [itoa n @ '' rounds'', itoa m @ '' minutes'']"
proof -
  have clean: "clean_before '', '' (itoa n @ '' rounds'')" "clean_before '', '' (itoa m @ '' minutes'')"
    using assms by (auto intro!: clean_before_first)
  note none = clean[THEN clean_before_no_sublist]
  show one: "split_on (itoa n @ '' rounds'') '', '' = [itoa n @ '' rounds'']"
    "split_on (itoa m @ '' minutes'') '', '' = [itoa m @ '' minutes'']"
    using none by (simp_all add: split_on_missing)
  show "split_on ((itoa n @ '' rounds'') @ '', '' @ (itoa m @ '' minutes'')) '', '' =
       [itoa n @ '' rounds'', itoa m @ '' minutes'']"
    using split_on_clean[OF _ clean(1), of "itoa m @ '' minutes''"] one(2) by simp
qed

lemma budget_round_trip:
  assumes wf: "wf_budget h" and fresh: "h_rounds_left (rd_header rd) = 0" "h_minutes_left (rd_header rd) = 0"
  shows "read_budget_field rd (print_budget h) =
    Inr ((with_header (with_budget_of h (rd_header rd)) rd)\<lparr>rd_saw_budget := True\<rparr>)"
proof -
  let ?n = "h_rounds_left h" and ?m = "h_minutes_left h"
  let ?h0 = "(rd_header rd)\<lparr>h_no_round_budget := True, h_no_time_budget := True\<rparr>"
  have range: "0 \<le> ?n" "?n \<le> max_int" "0 \<le> ?m" "?m \<le> max_int" using wf by (simp_all add: wf_budget_def)
  define rest where "rest = join '', '' ((if h_no_round_budget h then [] else [itoa ?n @ '' rounds''])
      @ (if h_no_time_budget h then [] else [itoa ?m @ '' minutes'']))"
  show ?thesis
  proof (cases "h_no_round_budget h \<and> h_no_time_budget h")
    case True
    then have "with_budget_of h (rd_header rd) = ?h0"
      using wf fresh by (cases "rd_header rd") (simp add: with_budget_of_def wf_budget_def)
    then show ?thesis using True by (simp add: print_budget_def read_budget_field_def Let_def)
  next
    case False
    then have shown: "print_budget h = label_budget @ rest" "label_budget @ rest \<noteq> field_no_budget"
      by (auto simp: print_budget_def Let_def rest_def label_defs)
    have "each_in_turn read_budget_part ?h0 (split_on rest '', '') = Inr (with_budget_of h (rd_header rd))"
    proof (cases "h_no_round_budget h"; cases "h_no_time_budget h")
      assume c: "\<not> h_no_round_budget h" "\<not> h_no_time_budget h"
      then have "split_on rest '', '' = [itoa ?n @ '' rounds'', itoa ?m @ '' minutes'']"
        using split_budget(3)[OF range(1,3)] by (simp add: rest_def)
      then show ?thesis using c range by (simp add: read_budget_part_print with_budget_of_def)
    next
      assume c: "\<not> h_no_round_budget h" "h_no_time_budget h"
      then have "split_on rest '', '' = [itoa ?n @ '' rounds'']"
        using split_budget(1)[OF range(1,3)] by (simp add: rest_def)
      then show ?thesis using c range fresh wf
        by (cases "rd_header rd") (simp add: read_budget_part_print with_budget_of_def wf_budget_def)
    next
      assume c: "h_no_round_budget h" "\<not> h_no_time_budget h"
      then have "split_on rest '', '' = [itoa ?m @ '' minutes'']"
        using split_budget(2)[OF range(1,3)] by (simp add: rest_def)
      then show ?thesis using c range fresh wf
        by (cases "rd_header rd") (simp add: read_budget_part_print with_budget_of_def wf_budget_def)
    qed (use False in simp)
    then show ?thesis using shown
      by (simp add: read_budget_field_def Let_def)
  qed
qed

definition wf_tokens :: "int \<Rightarrow> bool" where
  "wf_tokens t \<longleftrightarrow> 0 \<le> t \<and> t \<le> max_int \<and> t div 100 * 100 = t"

definition wf_cost :: "cost_line \<Rightarrow> bool" where
  "wf_cost c \<longleftrightarrow> wf_tokens (input_tokens c) \<and> wf_tokens (cached_input_tokens c) \<and> wf_tokens (output_tokens c)"

lemma thousands_no_comma:
  assumes "0 \<le> t"
  shows "CHR '','' \<notin> set (thousands t)"
proof -
  have "0 \<le> t div 1000" "0 \<le> t mod 1000 div 100"
    using assms by (simp_all add: pos_imp_zdiv_nonneg_iff)
  then show ?thesis using assms by (simp add: thousands_def Let_def)
qed

lemma cost_round_trip:
  assumes "wf_cost c"
  shows "read_cost_line rd (print_cost_line c) = Inr (with_header ((rd_header rd)\<lparr>h_cost := c\<rparr>) rd)"
proof -
  let ?a = "thousands (input_tokens c) @ '' tokens in''"
  let ?b = "thousands (cached_input_tokens c) @ '' of them cached''"
  let ?c = "thousands (output_tokens c) @ '' out''"
  have t: "wf_tokens (input_tokens c)" "wf_tokens (cached_input_tokens c)" "wf_tokens (output_tokens c)"
    using assms by (simp_all add: wf_cost_def)
  have clean: "clean_before '', '' ?a" "clean_before '', '' ?b" "clean_before '', '' ?c"
    using t by (auto intro!: clean_before_first simp: wf_tokens_def thousands_no_comma)
  have "split_on (?a @ '', '' @ ?b @ '', '' @ ?c) '', '' = [?a, ?b, ?c]"
    using split_on_clean[OF _ clean(1), of "?b @ '', '' @ ?c"] split_on_clean[OF _ clean(2), of ?c]
      split_on_missing[of "'', ''" ?c] clean_before_no_sublist[OF clean(3)] by simp
  moreover have "read_thousands ?a '' tokens in'' = Some (input_tokens c)"
    "read_thousands ?b '' of them cached'' = Some (cached_input_tokens c)"
    "read_thousands ?c '' out'' = Some (output_tokens c)"
    using t read_thousands_thousands by (simp_all add: wf_tokens_def)
  moreover have "print_cost_line c = ''this turn: '' @ ?a @ '', '' @ ?b @ '', '' @ ?c"
    by (simp add: print_cost_line_def)
  ultimately show ?thesis
    by (cases c) (simp add: read_cost_line_def Let_def)
qed

lemma progress_round_trip:
  assumes "0 \<le> n" "n \<le> max_int" "0 \<le> m" "m \<le> max_int"
  shows "read_progress_field rd (print_progress n m) =
    Inr ((with_header ((rd_header rd)\<lparr>h_tasks_done := n, h_tasks_total := m\<rparr>) rd)\<lparr>rd_saw_progress := True\<rparr>)"
proof -
  have "cut (itoa n @ '' of '' @ (itoa m @ '' tasks done'')) '' of '' = (itoa n, itoa m @ '' tasks done'', True)"
    using assms by (intro cut_clean clean_before_first) simp_all
  moreover have "cut_suffix (itoa m @ '' tasks done'') '' tasks done'' = Some (itoa m)"
    by (rule cut_suffix_append)
  ultimately have "scan_progress (print_progress n m) = Some (n, m)"
    using assms by (simp add: scan_progress_def print_progress_def)
  then show ?thesis using assms by (simp add: read_progress_field_def)
qed

text \<open>A word of the header: trimmed, and with no gap of the header in it or made by its end.\<close>

definition wf_header_word :: "string \<Rightarrow> string \<Rightarrow> bool" where
  "wf_header_word field w \<longleftrightarrow>
     w = [] \<or> (trim_space (fold_text w) = fold_text w \<and> clean_before header_gap (field @ fold_text w))"

lemma header_word_round_trip:
  "wf_header_word field w \<Longrightarrow> w \<noteq> [] \<Longrightarrow> read_words_field (fold_text w) = Inr w"
  by (simp add: wf_header_word_def read_words_field_def)

definition wf_header :: "header \<Rightarrow> bool" where
  "wf_header h \<longleftrightarrow>
     read_count (h_id h) \<noteq> None \<and> known_status (h_status h) \<and> wf_header_word ''from '' (h_origin h)
     \<and> (if h_kind h = record_job
        then 0 \<le> h_tasks_done h \<and> h_tasks_done h \<le> max_int \<and> 0 \<le> h_tasks_total h
           \<and> h_tasks_total h \<le> max_int \<and> wf_header_word ''next: '' (h_next_due h)
           \<and> h_rounds_left h = 0 \<and> \<not> h_no_round_budget h \<and> h_minutes_left h = 0
           \<and> \<not> h_no_time_budget h \<and> h_cost h = no_cost
        else h_kind h = record_task \<and> wf_budget h \<and> wf_cost (h_cost h) \<and> h_tasks_done h = 0
           \<and> h_tasks_total h = 0 \<and> h_next_due h = [])"

lemma known_status_single: "known_status s \<Longrightarrow> s \<noteq> [] \<and> CHR '' '' \<notin> set s"
  by (auto simp: known_status_def status_running_def status_waiting_def status_stopped_def
      status_failed_def status_done_def)

lemma split_header:
  assumes "\<forall>f \<in> set fs. clean_before header_gap f" "fs \<noteq> []"
  shows "split_on (join header_gap fs) header_gap = fs"
proof (rule split_on_join)
  show "header_gap \<noteq> []" by (simp add: header_gap_def)
  show "\<forall>x \<in> set (butlast fs). clean_before header_gap x" using assms by (auto dest: in_set_butlastD)
  show "\<not> sublist header_gap (last fs)"
    using assms clean_before_no_sublist[of header_gap "last fs"] by (simp add: header_gap_def)
qed (rule assms(2))

lemma join_first: "join sep ((a @ x) # ys) = a @ join sep (x # ys)"
  by (cases ys) simp_all

text \<open>What the two first fields of a header say, and the loop over the others.\<close>

lemma read_header_fields:
  assumes kind: "kind = record_task \<or> kind = record_job" and i: "read_count i \<noteq> None"
    and status: "known_status status"
    and fields: "\<forall>f \<in> set fs. clean_before header_gap f"
  shows "read_header rd (join header_gap ((''# '' @ kind @ '' '' @ i) # status # fs)) =
    and_then (each_in_turn read_header_field
        (with_header ((rd_header rd)\<lparr>h_kind := kind, h_id := i, h_status := status\<rparr>) rd) fs)
      check_header_is_whole"
proof -
  obtain n where "read_count i = Some n" using i by blast
  note digits = read_count_digits[OF this]
  have i_plain: "plain_text i" "CHR '' '' \<notin> set i" "i \<noteq> []"
    using digits itoa_label[of n] by auto
  have kind_plain: "kind \<noteq> []" "CHR '' '' \<notin> set kind"
    using kind by (auto simp: record_task_def record_job_def)
  have "single_spaced False (kind @ '' '' @ i)"
    using kind_plain i_plain single_spaced_word[of i False "[]"] single_spaced_word[of i True "[]"]
    by (simp add: single_spaced_word)
  moreover have "single_spaced False status"
    using known_status_single[OF status] single_spaced_word[of status False "[]"] by simp
  ultimately have "split_on (join header_gap ((kind @ '' '' @ i) # status # fs)) header_gap =
      (kind @ '' '' @ i) # status # fs"
    using fields single_spaced_clean by (intro split_header) auto
  moreover have "cut (kind @ CHR '' '' # i) '' '' = (kind, i, True)" using kind_plain by (intro cut_char)
  ultimately show ?thesis
    using kind i status i_plain
    by (simp only: join_first read_header_def cut_prefix_append option.case Let_def)
      (auto simp: unfold_text_plain)
qed

lemma origin_field:
  assumes "wf_header_word ''from '' w" "h_origin (rd_header rd) = []"
  shows "each_in_turn read_header_field rd ((if w = [] then [] else [''from '' @ fold_text w]) @ fs) =
    each_in_turn read_header_field (with_header ((rd_header rd)\<lparr>h_origin := w\<rparr>) rd) fs"
proof (cases "w = []")
  case True
  have "with_header ((rd_header rd)\<lparr>h_origin := []\<rparr>) rd = rd"
    using assms(2) by (cases rd; cases "rd_record rd"; cases "rd_header rd") (simp add: with_header_def)
  then show ?thesis using True by simp
next
  case False
  have "read_header_field rd (''from '' @ fold_text w) = Inr (with_header ((rd_header rd)\<lparr>h_origin := w\<rparr>) rd)"
    using header_word_round_trip[OF assms(1) False] by (simp add: read_header_field_def)
  then show ?thesis using False by simp
qed

lemma print_budget_first: "cut_prefix (print_budget h) ''from '' = None"
  by (auto simp: print_budget_def Let_def label_defs)

lemma print_budget_clean:
  assumes "wf_budget h"
  shows "clean_before header_gap (print_budget h)"
proof -
  have n: "0 \<le> h_rounds_left h" "0 \<le> h_minutes_left h" using assms by (simp_all add: wf_budget_def)
  have "single_spaced False (print_budget h)"
    using n by (auto simp: print_budget_def Let_def label_defs)
  then show ?thesis by (rule single_spaced_clean)
qed

lemma word_clean: "wf_header_word field w \<Longrightarrow> w \<noteq> [] \<Longrightarrow> clean_before header_gap (field @ fold_text w)"
  by (simp add: wf_header_word_def)

lemma id_plain: "read_count i \<noteq> None \<Longrightarrow> fold_text i = i"
proof -
  assume "read_count i \<noteq> None"
  then obtain n where "read_count i = Some n" by blast
  then have "itoa n = i" "1 \<le> n" using read_count_digits by blast+
  then show ?thesis using itoa_label(1)[of n] by (auto simp: fold_text_plain)
qed

lemma task_header_round_trip:
  assumes wf: "wf_header h" and kind: "h_kind h = record_task"
  shows "\<exists>rd. each_in_turn read_next start_reader (print_header h) = Inr rd \<and> rd_header rd = h"
proof -
  have w: "read_count (h_id h) \<noteq> None" "known_status (h_status h)" "wf_header_word ''from '' (h_origin h)"
    "wf_budget h" "wf_cost (h_cost h)" "h_tasks_done h = 0" "h_tasks_total h = 0" "h_next_due h = []"
    using wf kind by (simp_all add: wf_header_def)
  let ?origin = "if h_origin h = [] then [] else [''from '' @ fold_text (h_origin h)]"
  let ?line = "join header_gap ((''# '' @ h_kind h @ '' '' @ h_id h) # h_status h # (?origin @ [print_budget h]))"
  let ?rd0 = "start_reader\<lparr>rd_line := 1\<rparr>"
  let ?h1 = "(rd_header ?rd0)\<lparr>h_kind := h_kind h, h_id := h_id h, h_status := h_status h\<rparr>"
  let ?h2 = "?h1\<lparr>h_origin := h_origin h\<rparr>"
  let ?rd2 = "with_header ?h2 (with_header ?h1 ?rd0)"
  let ?rd3 = "(with_header (with_budget_of h ?h2) ?rd2)\<lparr>rd_saw_budget := True\<rparr>"
  have lines: "print_header h = [?line, print_cost_line (h_cost h)]"
    by (simp add: print_header_def kind header_fields_def id_plain[OF w(1)])
  have read: "read_header ?rd0 ?line = and_then (each_in_turn read_header_field (with_header ?h1 ?rd0)
      (?origin @ [print_budget h])) check_header_is_whole"
    using w kind print_budget_clean[OF w(4)] word_clean[OF w(3)]
    by (intro read_header_fields) auto
  have o: "each_in_turn read_header_field (with_header ?h1 ?rd0) (?origin @ [print_budget h]) =
      each_in_turn read_header_field ?rd2 [print_budget h]"
    using origin_field[OF w(3), of "with_header ?h1 ?rd0" "[print_budget h]"]
    by (simp add: start_reader_def empty_defs)
  have b: "read_header_field ?rd2 (print_budget h) = Inr ?rd3"
    using budget_round_trip[OF w(4), of ?rd2] kind
    by (simp add: read_header_field_def print_budget_first start_reader_def empty_defs)
  have all_read: "each_in_turn read_header_field (with_header ?h1 ?rd0) (?origin @ [print_budget h]) = Inr ?rd3"
    unfolding o by (simp only: each_in_turn.simps b and_then_simps)
  have "read_header ?rd0 ?line = Inr ?rd3"
    unfolding read all_read using kind by (simp add: check_header_is_whole_def with_budget_of_def)
  then have first: "read_next start_reader ?line = Inr ?rd3"
    by (simp add: read_next_Inr read_line_def start_reader_def)
  let ?rd4 = "?rd3\<lparr>rd_line := 2\<rparr>"
  have "read_next ?rd3 (print_cost_line (h_cost h)) =
      Inr (with_header ((rd_header ?rd4)\<lparr>h_cost := h_cost h\<rparr>) ?rd4)"
    using cost_round_trip[OF w(5), of ?rd4] kind
    by (simp add: read_next_Inr read_line_def start_reader_def with_header_def with_budget_of_def
        numeral_2_eq_2)
  then have "each_in_turn read_next start_reader (print_header h) =
      Inr (with_header ((rd_header ?rd4)\<lparr>h_cost := h_cost h\<rparr>) ?rd4)"
    using first by (simp add: lines)
  moreover have "(rd_header ?rd4)\<lparr>h_cost := h_cost h\<rparr> = h"
    using w by (cases h) (simp add: with_budget_of_def start_reader_def empty_defs)
  ultimately show ?thesis by (intro exI[of _ "with_header ((rd_header ?rd4)\<lparr>h_cost := h_cost h\<rparr>) ?rd4"]) simp
qed

text \<open>The last fields of a job's header: its progress, what is due next, and the proved count.\<close>

lemma progress_field:
  assumes "0 \<le> n" "n \<le> max_int" "0 \<le> m" "m \<le> max_int" "h_kind (rd_header rd) = record_job"
  shows "read_header_field rd (print_progress n m) =
    Inr ((with_header ((rd_header rd)\<lparr>h_tasks_done := n, h_tasks_total := m\<rparr>) rd)\<lparr>rd_saw_progress := True\<rparr>)"
proof -
  obtain c s where itoa: "itoa n = c # s" by (cases "itoa n") simp_all
  then have "is_digit c" using itoa_char[of n c] assms(1) by simp
  then have "c \<notin> {CHR ''f'', CHR ''n'', CHR ''d''}" by (auto simp: is_digit_def)
  then show ?thesis
    using assms progress_round_trip[of n m rd] itoa
    by (auto simp: read_header_field_def print_progress_def label_proved_def)
qed

lemma next_due_field:
  assumes "wf_header_word ''next: '' w" "w \<noteq> []" "h_kind (rd_header rd) = record_job"
  shows "read_header_field rd (''next: '' @ fold_text w) = Inr (with_header ((rd_header rd)\<lparr>h_next_due := w\<rparr>) rd)"
  using header_word_round_trip[OF assms(1,2)] assms(3) by (simp add: read_header_field_def)

lemma proved_field:
  "h_kind (rd_header rd) = record_job \<Longrightarrow> read_header_field rd (label_proved @ s) = Inr rd"
  by (simp add: read_header_field_def label_proved_def)

lemma job_header_round_trip:
  assumes wf: "wf_header (r_header r)" and kind: "h_kind (r_header r) = record_job"
  shows "\<exists>rd. each_in_turn read_next start_reader (header_lines r) = Inr rd \<and> rd_header rd = r_header r"
proof -
  let ?h = "r_header r"
  have w: "read_count (h_id ?h) \<noteq> None" "known_status (h_status ?h)" "wf_header_word ''from '' (h_origin ?h)"
    "0 \<le> h_tasks_done ?h" "h_tasks_done ?h \<le> max_int" "0 \<le> h_tasks_total ?h" "h_tasks_total ?h \<le> max_int"
    "wf_header_word ''next: '' (h_next_due ?h)"
    and rest: "h_rounds_left ?h = 0" "\<not> h_no_round_budget ?h" "h_minutes_left ?h = 0"
      "\<not> h_no_time_budget ?h" "h_cost ?h = no_cost"
    using wf kind by (simp_all add: wf_header_def)
  obtain p c where pc: "proved_checked_lines (g_done_when (r_goal r)) = (p, c)" by (cases "proved_checked_lines (g_done_when (r_goal r))")
  let ?origin = "if h_origin ?h = [] then [] else [''from '' @ fold_text (h_origin ?h)]"
  let ?due = "if h_next_due ?h = [] then [] else [''next: '' @ fold_text (h_next_due ?h)]"
  let ?count = "itoa (int p) @ '' of '' @ itoa (int c)"
  let ?proved = "if 0 < c then [label_proved @ ?count] else []"
  let ?progress = "print_progress (h_tasks_done ?h) (h_tasks_total ?h)"
  let ?fields = "?origin @ ?progress # ?due @ ?proved"
  let ?line = "join header_gap ((''# '' @ h_kind ?h @ '' '' @ h_id ?h) # h_status ?h # ?fields)"
  have lines: "header_lines r = [?line]"
  proof -
    let ?earlier = "(''# '' @ h_kind ?h @ '' '' @ h_id ?h) # h_status ?h # ?origin @ ?progress # ?due"
    have shown: "print_header ?h = [join header_gap ?earlier]"
      by (simp add: print_header_def kind header_fields_def id_plain[OF w(1)])
    have "join header_gap (?earlier @ [label_proved @ ?count]) =
        join header_gap ?earlier @ header_gap @ label_proved @ ?count"
      using join_append[of ?earlier "[label_proved @ ?count]" header_gap] by simp
    then show ?thesis
      using shown by (simp add: header_lines_def with_the_proved_count_def pc kind)
  qed
  have clean: "clean_before header_gap ?progress" "clean_before header_gap (label_proved @ ?count)"
    using w single_spaced_word[of "itoa (int c)" False "[]"] single_spaced_word[of "itoa (int c)" True "[]"]
    by (auto intro!: single_spaced_clean[of False] simp: print_progress_def label_proved_def)
  let ?rd0 = "start_reader\<lparr>rd_line := 1\<rparr>"
  let ?h1 = "(rd_header ?rd0)\<lparr>h_kind := h_kind ?h, h_id := h_id ?h, h_status := h_status ?h\<rparr>"
  let ?rd2 = "with_header (?h1\<lparr>h_origin := h_origin ?h\<rparr>) (with_header ?h1 ?rd0)"
  let ?rd3 = "(with_header ((rd_header ?rd2)\<lparr>h_tasks_done := h_tasks_done ?h,
      h_tasks_total := h_tasks_total ?h\<rparr>) ?rd2)\<lparr>rd_saw_progress := True\<rparr>"
  let ?rd4 = "if h_next_due ?h = [] then ?rd3
      else with_header ((rd_header ?rd3)\<lparr>h_next_due := h_next_due ?h\<rparr>) ?rd3"
  have read: "read_header ?rd0 ?line =
      and_then (each_in_turn read_header_field (with_header ?h1 ?rd0) ?fields) check_header_is_whole"
    using w kind clean word_clean[OF w(3)] word_clean[OF w(8)]
    by (intro read_header_fields) auto
  have o: "each_in_turn read_header_field (with_header ?h1 ?rd0) ?fields =
      each_in_turn read_header_field ?rd2 (?progress # ?due @ ?proved)"
    using origin_field[OF w(3), of "with_header ?h1 ?rd0" "?progress # ?due @ ?proved"]
    by (simp add: start_reader_def empty_defs)
  have pr: "read_header_field ?rd2 ?progress = Inr ?rd3"
    using w kind by (intro progress_field) simp_all
  have kinds: "h_kind (rd_header ?rd3) = record_job" "h_kind (rd_header ?rd4) = record_job"
    using kind by simp_all
  have "each_in_turn read_header_field ?rd3 ?due = Inr ?rd4"
    by (cases "h_next_due ?h = []")
      (simp_all only: simp_thms if_True if_False not_False_eq_True each_in_turn.simps
        next_due_field[OF w(8) _ kinds(1)] and_then_simps)
  moreover have "each_in_turn read_header_field ?rd4 ?proved = Inr ?rd4"
    by (cases "0 < c")
      (simp_all only: if_True if_False each_in_turn.simps proved_field[OF kinds(2)] and_then_simps)
  ultimately have rest_read: "each_in_turn read_header_field ?rd3 (?due @ ?proved) = Inr ?rd4"
    by (simp only: each_in_turn_append and_then_simps)
  have all_read: "each_in_turn read_header_field (with_header ?h1 ?rd0) ?fields = Inr ?rd4"
    unfolding o using pr rest_read by (simp only: each_in_turn.simps and_then_simps)
  have "check_header_is_whole ?rd4 = Inr ?rd4"
    using kind by (simp add: check_header_is_whole_def with_header_def)
  then have "read_header ?rd0 ?line = Inr ?rd4"
    unfolding read all_read by simp
  then have "read_next start_reader ?line = Inr ?rd4"
    by (simp add: read_next_Inr read_line_def start_reader_def del: join.simps)
  then have run: "each_in_turn read_next start_reader (header_lines r) = Inr ?rd4"
    by (simp only: lines each_in_turn.simps and_then_simps)
  have "rd_header ?rd4 = ?h"
    using rest by (cases ?h) (simp add: start_reader_def empty_defs)
  with run show ?thesis by blast
qed

section \<open>The whole record\<close>

definition well_formed :: "record_of_work \<Rightarrow> bool" where
  "well_formed r \<longleftrightarrow>
     (let h = r_header r; w = r_work r; ds = g_done_when (r_goal r) in
      wf_header h \<and> g_ask (r_goal r) \<noteq> []
      \<and> list_all (wf_done_line h (arrows_are_needed ds)) ds
      \<and> wf_corrections (r_corrections (r_rules r))
      \<and> list_all (\<lambda>s. s \<noteq> []) (r_stop_when (r_rules r))
      \<and> list_all (\<lambda>s. s \<noteq> []) (w_situation w)
      \<and> (if h_kind h = record_job then w_plan w = [] \<and> wf_tasks h (w_tasks w)
         else wf_plan (w_plan w) \<and> w_tasks w = [])
      \<and> wf_results h (w_results w)
      \<and> wf_lessons decision_id reason_join (map decision_triple (l_decisions (r_lessons r)))
      \<and> wf_lessons failure_id cause_join (map failure_triple (l_failures (r_lessons r))))"

lemma plain_list_round_trip:
  "list_all (\<lambda>s. s \<noteq> []) xs \<Longrightarrow> reads_list (\<lambda>_. read_plain_line) (item_text print_plain) earlier xs"
  by (induction xs arbitrary: earlier) (simp_all add: read_plain_line_print)

lemma done_list_round_trip:
  assumes "list_all (wf_done_line h (arrows_are_needed ds)) ds"
  shows "done_list_read h ds = Some ds"
proof -
  have "reads_list (\<lambda>_. read_done_line h) (item_text (print_done_line (arrows_are_needed ds))) earlier xs"
    if "list_all (wf_done_line h (arrows_are_needed ds)) xs" for earlier xs
    using that by (induction xs arbitrary: earlier) (simp_all add: done_line_round_trip)
  then show ?thesis using assms by (simp add: done_list_read_def read_all_whole)
qed

lemma plan_is_short:
  assumes "fits_a_text r" "h_kind (r_header r) \<noteq> record_job"
  shows "length (w_plan (r_work r)) \<le> max_record_lines"
proof -
  have "length (w_plan (r_work r)) \<le> length (print_plan_or_tasks (r_work r) (h_kind (r_header r)))"
    using assms(2) by (simp add: print_plan_or_tasks_def print_list_def)
  also have "\<dots> \<le> length (printed_lines r)"
    by (simp add: printed_lines_def print_work_def)
  finally show ?thesis using assms(1) by (simp add: fits_a_text_def)
qed

theorem well_formed_reads_back:
  assumes wf: "well_formed r" and fits: "fits_a_text r"
  shows "reads_back r"
proof -
  let ?h = "r_header r"
  have parts: "wf_header ?h" "g_ask (r_goal r) \<noteq> []"
    "list_all (wf_done_line ?h (arrows_are_needed (g_done_when (r_goal r)))) (g_done_when (r_goal r))"
    "wf_corrections (r_corrections (r_rules r))"
    "list_all (\<lambda>s. s \<noteq> []) (r_stop_when (r_rules r))" "list_all (\<lambda>s. s \<noteq> []) (w_situation (r_work r))"
    "wf_results ?h (w_results (r_work r))"
    "wf_lessons decision_id reason_join (map decision_triple (l_decisions (r_lessons r)))"
    "wf_lessons failure_id cause_join (map failure_triple (l_failures (r_lessons r)))"
    using wf by (simp_all add: well_formed_def Let_def)
  have "header_read r = Some ?h"
  proof (cases "h_kind ?h = record_job")
    case True
    then show ?thesis using job_header_round_trip[OF parts(1)] by (auto simp: header_read_def)
  next
    case False
    then have "h_kind ?h = record_task" using parts(1) by (simp add: wf_header_def)
    moreover have "header_lines r = print_header ?h"
      using False by (simp add: header_lines_def with_the_proved_count_def split: prod.split)
    ultimately show ?thesis using task_header_round_trip[OF parts(1)] by (auto simp: header_read_def)
  qed
  moreover have "plan_read ?h (h_kind ?h) (r_work r) = Some (w_plan (r_work r), w_tasks (r_work r))"
  proof (cases "h_kind ?h = record_job")
    case True
    then have "w_plan (r_work r) = []" "wf_tasks ?h (w_tasks (r_work r))"
      using wf by (simp_all add: well_formed_def Let_def)
    then show ?thesis using True tasks_round_trip
      by (simp add: plan_read_def read_all_whole)
  next
    case False
    then have "w_tasks (r_work r) = []" "wf_plan (w_plan (r_work r))"
      using wf by (simp_all add: well_formed_def Let_def)
    then show ?thesis using False plan_round_trip plan_is_short[OF fits False]
      by (simp add: plan_read_def read_all_whole)
  qed
  ultimately show ?thesis
    using parts fits
    by (simp add: reads_back_iff lists_read_def Let_def done_list_round_trip corrections_round_trip
        plain_list_round_trip results_round_trip decisions_round_trip failures_round_trip)
qed

end
