(* ===== verification/Record_Invariants.thy ===== *)
theory Record_Invariants
  imports Record_Roundtrip
begin

text \<open>
  What the reader refuses. \<open>rules_hold\<close> states the rules of a record that need no other record
  and no log: labels in order, a proof behind every line marked done, a reason and a cause behind every
  lesson. \<open>parsed_record_holds\<close> shows that \<open>parse_record\<close> gives no record that breaks one,
  whatever the text.
\<close>

section \<open>The rules\<close>

definition done_line_holds :: "done_line \<Rightarrow> bool" where
  "done_line_holds l \<longleftrightarrow> dl_text l \<noteq> [] \<and> (dl_done l \<longrightarrow> dl_result l \<noteq> [] \<or> dl_reply l \<noteq> [])
     \<and> (dl_result l = [] \<or> dl_reply l = [])"

definition plan_step_holds :: "plan_step \<Rightarrow> bool" where
  "plan_step_holds p \<longleftrightarrow> ps_text p \<noteq> [] \<and> (ps_done p \<longrightarrow> ps_result p \<noteq> [])"

definition plan_holds :: "plan_step list \<Rightarrow> bool" where
  "plan_holds ps \<longleftrightarrow> map ps_number ps = map (\<lambda>i. int i + 1) [0..<length ps] \<and> list_all plan_step_holds ps"

definition tasks_hold :: "job_task list \<Rightarrow> bool" where
  "tasks_hold ts \<longleftrightarrow> labels_grow parse_task_id (map jt_id ts)
     \<and> list_all (\<lambda>t. jt_done t \<longrightarrow> jt_report t \<noteq> []) ts"

definition decision_holds :: "decision \<Rightarrow> bool" where
  "decision_holds d \<longleftrightarrow> de_text d \<noteq> [] \<and> de_reason d \<noteq> []"

definition failure_holds :: "failure \<Rightarrow> bool" where
  "failure_holds f \<longleftrightarrow> fa_text f \<noteq> [] \<and> fa_cause f \<noteq> []"

definition decisions_hold :: "decision list \<Rightarrow> bool" where
  "decisions_hold ds \<longleftrightarrow> labels_grow label_number (map de_id ds) \<and> list_all decision_holds ds"

definition failures_hold :: "failure list \<Rightarrow> bool" where
  "failures_hold fs \<longleftrightarrow> labels_grow label_number (map fa_id fs) \<and> list_all failure_holds fs"

definition lists_hold :: "record_of_work \<Rightarrow> bool" where
  "lists_hold r \<longleftrightarrow>
     list_all done_line_holds (g_done_when (r_goal r))
     \<and> wf_corrections (r_corrections (r_rules r))
     \<and> list_all (\<lambda>s. s \<noteq> []) (r_stop_when (r_rules r))
     \<and> list_all (\<lambda>s. s \<noteq> []) (w_situation (r_work r))
     \<and> plan_holds (w_plan (r_work r)) \<and> tasks_hold (w_tasks (r_work r))
     \<and> wf_results (r_header r) (w_results (r_work r))
     \<and> decisions_hold (l_decisions (r_lessons r)) \<and> failures_hold (l_failures (r_lessons r))"

definition rules_hold :: "record_of_work \<Rightarrow> bool" where
  "rules_hold r \<longleftrightarrow> known_place (r_header r) \<and> g_ask (r_goal r) \<noteq> [] \<and> lists_hold r"

section \<open>What a reader of one item gives\<close>

lemma unfold_text_eq_Nil [simp]: "unfold_text s = [] \<longleftrightarrow> s = []"
  by (induction s rule: unfold_text.induct) auto

lemma read_done_line_holds: "read_done_line h s = Inr l \<Longrightarrow> done_line_holds l"
  by (auto simp: read_done_line_def and_then_Inr_iff case_prod_unfold Let_def done_line_holds_def
      split: if_splits option.splits)

lemma read_plain_line_holds: "read_plain_line s = Inr t \<Longrightarrow> t \<noteq> []"
  by (auto simp: read_plain_line_def split: if_splits)

lemma read_correction_holds:
  "read_correction cs s = Inr c \<Longrightarrow> co_id c = correction_id (int (length cs) + 1) \<and> co_text c \<noteq> []"
  by (auto simp: read_correction_def case_prod_unfold split: if_splits option.splits)

lemma read_plan_step_holds:
  "read_plan_step ps s = Inr p \<Longrightarrow> ps_number p = int (length ps) + 1 \<and> plan_step_holds p"
  by (auto simp: read_plan_step_def and_then_Inr_iff case_prod_unfold plan_step_holds_def split: if_splits)

lemma read_job_task_holds:
  "read_job_task h ts s = Inr t \<Longrightarrow>
     (\<exists>n. parse_task_id (jt_id t) = Some n \<and> task_in_order ts n) \<and> (jt_done t \<longrightarrow> jt_report t \<noteq> [])"
  by (auto simp: read_job_task_def and_then_Inr_iff case_prod_unfold split: if_splits option.splits)

lemma read_result_line_holds:
  "read_result_line h rs s = Inr r \<Longrightarrow>
     (\<exists>n. result_number h (rl_id r) = Some n \<and>
        (rs = [] \<or> counts_upwards n (rl_id (last rs)) (number_or_zero (result_number h (rl_id (last rs))))))
     \<and> wf_result_line r"
  by (auto simp: read_result_line_def wf_result_line_def case_prod_unfold split: if_splits option.splits)

lemma read_lesson_holds:
  "read_lesson mk j q labels s = Inr (i, what, why) \<Longrightarrow>
     (\<exists>n. label_number i = Some n \<and>
        (labels = [] \<or> counts_upwards n (last labels) (number_or_zero (label_number (last labels)))))
     \<and> what \<noteq> [] \<and> why \<noteq> []"
  by (auto simp: read_lesson_def and_then_Inr_iff case_prod_unfold split_at_join_def Let_def
      split: if_splits option.splits)

lemma read_decision_holds:
  "read_decision ds s = Inr d \<Longrightarrow>
     (\<exists>n. label_number (de_id d) = Some n \<and>
        (ds = [] \<or> counts_upwards n (de_id (last ds)) (number_or_zero (label_number (de_id (last ds))))))
     \<and> decision_holds d"
  by (cases "ds = []") (auto simp: read_decision_def and_then_Inr_iff case_prod_unfold decision_holds_def last_map
      dest!: read_lesson_holds split: if_splits)

lemma read_failure_holds:
  "read_failure fs s = Inr f \<Longrightarrow>
     (\<exists>n. label_number (fa_id f) = Some n \<and>
        (fs = [] \<or> counts_upwards n (fa_id (last fs)) (number_or_zero (label_number (fa_id (last fs))))))
     \<and> failure_holds f"
  by (cases "fs = []") (auto simp: read_failure_def and_then_Inr_iff case_prod_unfold failure_holds_def last_map
      dest!: read_lesson_holds split: if_splits)

section \<open>A list with one more item\<close>

lemma sorted_wrt_snoc:
  assumes "sorted_wrt (<) (xs :: int list)" "xs = [] \<or> last xs < y"
  shows "sorted_wrt (<) (xs @ [y])"
proof (cases "xs = []")
  case False
  have "x \<le> last xs" if "x \<in> set xs" for x
  proof -
    have "xs = butlast xs @ [last xs]" using False by simp
    then have "sorted_wrt (<) (butlast xs @ [last xs])" using assms(1) by simp
    moreover have "x \<in> set (butlast xs) \<or> x = last xs"
      using that False by (metis append_butlast_last_id in_set_butlastD rotate1.simps(2) set_ConsD set_rotate1)
    ultimately show ?thesis by (auto simp: sorted_wrt_append)
  qed
  then show ?thesis using assms False by (force simp: sorted_wrt_append)
qed simp

lemma labels_grow_snoc:
  assumes "labels_grow num is" "num i = Some n"
    "is = [] \<or> last is = [] \<or> number_or_zero (num (last is)) < n" "[] \<notin> set is"
  shows "labels_grow num (is @ [i])"
proof -
  have "is = [] \<or> number_or_zero (num (last is)) < n"
    using assms(3,4) last_in_set[of "is"] by metis
  then have "map (\<lambda>i. number_or_zero (num i)) is = [] \<or>
      last (map (\<lambda>i. number_or_zero (num i)) is) < number_or_zero (num i)"
    using assms(2) by (cases "is = []") (auto simp: number_or_zero_def last_map)
  then show ?thesis
    using assms(1,2) sorted_wrt_snoc[of "map (\<lambda>i. number_or_zero (num i)) is"]
    by (auto simp: labels_grow_def)
qed

lemma map_upt_snoc:
  assumes "map f xs = map (\<lambda>i. g (int i + 1)) [0..<length xs]" "f x = g (int (length xs) + 1)"
  shows "map f (xs @ [x]) = map (\<lambda>i. g (int i + 1)) [0..<length (xs @ [x])]"
  using assms by simp

lemma corrections_snoc:
  "wf_corrections cs \<Longrightarrow> co_id c = correction_id (int (length cs) + 1) \<Longrightarrow> co_text c \<noteq> [] \<Longrightarrow>
     wf_corrections (cs @ [c])"
  by (simp add: wf_corrections_def)

lemma plan_snoc:
  "plan_holds ps \<Longrightarrow> ps_number p = int (length ps) + 1 \<Longrightarrow> plan_step_holds p \<Longrightarrow> plan_holds (ps @ [p])"
  by (simp add: plan_holds_def)

lemma grow_no_empty:
  "labels_grow num is \<Longrightarrow> num [] = None \<Longrightarrow> [] \<notin> set is"
  by (auto simp: labels_grow_def list_all_iff)

lemma no_empty_labels [simp]:
  "parse_task_id [] = None" "label_number [] = None" "result_number h [] = None"
  by (simp_all add: parse_task_id_def parse_numbered_id_def label_number_def read_count_def
      result_number_def parse_result_id_def parse_report_id_def)

lemma tasks_snoc:
  assumes "tasks_hold ts" "parse_task_id (jt_id t) = Some n" "task_in_order ts n"
    "jt_done t \<longrightarrow> jt_report t \<noteq> []"
  shows "tasks_hold (ts @ [t])"
proof -
  have "labels_grow parse_task_id (map jt_id ts @ [jt_id t])"
    using assms grow_no_empty[of parse_task_id "map jt_id ts"]
    by (intro labels_grow_snoc[of _ _ _ n]) (auto simp: tasks_hold_def task_in_order_def last_map)
  then show ?thesis using assms by (simp add: tasks_hold_def)
qed

lemma labelled_snoc:
  assumes "labels_grow num (map lab xs)" "num (lab x) = Some n" "num [] = None"
    "xs = [] \<or> counts_upwards n (lab (last xs)) (number_or_zero (num (lab (last xs))))"
  shows "labels_grow num (map lab (xs @ [x]))"
proof -
  have "labels_grow num (map lab xs @ [lab x])"
  proof (rule labels_grow_snoc[OF assms(1,2)])
    show "[] \<notin> set (map lab xs)" using grow_no_empty[OF assms(1,3)] .
    show "map lab xs = [] \<or> last (map lab xs) = [] \<or> number_or_zero (num (last (map lab xs))) < n"
      using assms(4) by (cases "xs = []") (auto simp: counts_upwards_def last_map)
  qed
  then show ?thesis by simp
qed

lemma labelled_first: "num (lab x) = Some n \<Longrightarrow> labels_grow num [lab x]"
  by (simp add: labels_grow_def)

lemma results_snoc:
  assumes "wf_results h rs" "result_number h (rl_id x) = Some n" "wf_result_line x"
    "rs = [] \<or> counts_upwards n (rl_id (last rs)) (number_or_zero (result_number h (rl_id (last rs))))"
  shows "wf_results h (rs @ [x])"
  using labelled_snoc[of "result_number h" rl_id rs x n] assms by (simp add: wf_results_def)

lemma decisions_snoc:
  assumes "decisions_hold ds" "read_decision ds s = Inr d"
  shows "decisions_hold (ds @ [d])"
proof -
  obtain n where n: "label_number (de_id d) = Some n" "decision_holds d"
    "ds = [] \<or> counts_upwards n (de_id (last ds)) (number_or_zero (label_number (de_id (last ds))))"
    using read_decision_holds[OF assms(2)] by blast
  then show ?thesis
    using labelled_snoc[of label_number de_id ds d n] assms(1) by (simp add: decisions_hold_def)
qed

lemma failures_snoc:
  assumes "failures_hold fs" "read_failure fs s = Inr f"
  shows "failures_hold (fs @ [f])"
proof -
  obtain n where n: "label_number (fa_id f) = Some n" "failure_holds f"
    "fs = [] \<or> counts_upwards n (fa_id (last fs)) (number_or_zero (label_number (fa_id (last fs))))"
    using read_failure_holds[OF assms(2)] by blast
  then show ?thesis
    using labelled_snoc[of label_number fa_id fs f n] assms(1) by (simp add: failures_hold_def)
qed

lemma tasks_one_more:
  assumes "tasks_hold ts" "read_job_task h ts s = Inr t"
  shows "tasks_hold (ts @ [t])"
  using read_job_task_holds[OF assms(2)] tasks_snoc[OF assms(1)] by blast

lemma results_one_more:
  assumes "wf_results h rs" "read_result_line h rs s = Inr x"
  shows "wf_results h (rs @ [x])"
  using read_result_line_holds[OF assms(2)] results_snoc[OF assms(1)] by blast

lemma plan_one_more:
  assumes "plan_holds ps" "read_plan_step ps s = Inr p"
  shows "plan_holds (ps @ [p])"
  using read_plan_step_holds[OF assms(2)] plan_snoc[OF assms(1)] by blast

lemma corrections_one_more:
  assumes "wf_corrections cs" "read_correction cs s = Inr c"
  shows "wf_corrections (cs @ [c])"
  using read_correction_holds[OF assms(2)] corrections_snoc[OF assms(1)] by blast

section \<open>The reader keeps the rules\<close>

lemma lists_hold_simps:
  "lists_hold (r\<lparr>r_header := h\<rparr>) \<longleftrightarrow> lists_hold r" if "same_place (r_header r) h"
proof -
  have "result_number h = result_number (r_header r)"
    using that by (intro ext) (simp add: result_number_def same_place_def cong: option.case_cong)
  then show ?thesis by (simp add: lists_hold_def wf_results_def)
qed

lemma read_item_keeps:
  assumes "read_item rd s = Inr rd'" "lists_hold (rd_record rd)"
  shows "lists_hold (rd_record rd')"
  using assms
  by (auto simp: read_item_def Let_def and_then_Inr_iff with_defs lists_hold_def
      dest: read_done_line_holds read_plain_line_holds
      intro: corrections_one_more plan_one_more tasks_one_more results_one_more
        decisions_snoc failures_snoc
      split: if_splits)

lemma body_line_keeps:
  assumes "body_line rd s = Inr rd'" "lists_hold (rd_record rd)"
  shows "lists_hold (rd_record rd')"
proof -
  have list: "lists_hold (rd_record rd')" if "open_list rd s = Inr rd'"
    using that assms(2)
    by (auto simp: open_list_def open_goal_list_def open_work_list_def open_one_of_the_labels_def
        with_goal_def lists_hold_def split: if_splits option.splits)
  show ?thesis using assms list
    by (auto simp: body_line_def open_section_def dest: read_item_keeps split: if_splits option.splits)
qed

lemma cost_line_keeps_lists:
  assumes "read_cost_line rd s = Inr rd'" "lists_hold (rd_record rd)"
  shows "lists_hold (rd_record rd')"
proof -
  have k: "only_header rd rd'" "same_place (rd_header rd) (rd_header rd')"
    using read_cost_line_keeps[OF assms(1)] by simp_all
  have "lists_hold ((rd_record rd)\<lparr>r_header := rd_header rd'\<rparr>)"
    using lists_hold_simps[OF k(2)] assms(2) by simp
  then show ?thesis using k(1) by (simp add: only_header_def lists_hold_def)
qed

lemma empty_lists_hold: "r_goal r = empty_goal \<Longrightarrow> r_rules r = empty_rules \<Longrightarrow> r_work r = empty_work \<Longrightarrow>
    r_lessons r = empty_lessons \<Longrightarrow> lists_hold r"
  by (simp add: lists_hold_def empty_goal_def empty_rules_def empty_work_def empty_lessons_def
      wf_corrections_def plan_holds_def tasks_hold_def labels_grow_def wf_results_def
      decisions_hold_def failures_hold_def)

lemma lines_keep_lists:
  assumes "each_in_turn read_next rd ls = Inr rd'" "lists_hold (rd_record rd)" "1 \<le> rd_line rd"
  shows "lists_hold (rd_record rd')"
proof -
  have step: "lists_hold (rd_record b) \<and> 1 \<le> rd_line b"
    if "lists_hold (rd_record a) \<and> 1 \<le> rd_line a" "read_next a s = Inr b" for a b s
  proof -
    let ?a = "a\<lparr>rd_line := rd_line a + 1\<rparr>"
    have line: "read_line ?a s = Inr b" using that(2) by (simp add: read_next_Inr)
    show ?thesis
    proof (cases "rd_line a = 1 \<and> h_kind (rd_header a) = record_task")
      case True
      then have cost: "read_cost_line ?a s = Inr b" using line by (simp add: read_line_def)
      then show ?thesis using that(1) cost_line_keeps_lists[OF cost] read_cost_line_keeps[OF cost]
        by (simp add: only_header_def)
    next
      case False
      then have body: "body_line ?a s = Inr b" using line that(1) by (subst (asm) read_line_body) auto
      then show ?thesis using that(1) body_line_keeps[OF body] body_line_keeps_line[OF body] by simp
    qed
  qed
  show ?thesis
    using each_in_turn_keeps[OF assms(1), where I = "\<lambda>a. lists_hold (rd_record a) \<and> 1 \<le> rd_line a"]
      step assms(2,3) by blast
qed

theorem parsed_record_holds:
  assumes "parse_record s = Inr r"
  shows "rules_hold r"
proof -
  obtain rd where run: "each_in_turn read_next start_reader
      (split_on (trim_suffix s [newline]) [newline]) = Inr rd"
    and rec: "rd_record rd = r" "g_ask (r_goal r) \<noteq> []"
    using assms by (auto simp: parse_record_def Let_def and_then_Inr_iff finish_reading_def split: if_splits)
  obtain l ls where ls: "split_on (trim_suffix s [newline]) [newline] = l # ls"
    by (metis split_on_nonempty neq_Nil_conv)
  obtain rd1 where rd1: "read_next start_reader l = Inr rd1" "each_in_turn read_next rd1 ls = Inr rd"
    using run by (auto simp: ls and_then_Inr_iff)
  note first = first_line[OF rd1(1)]
  have "known_place (rd_header rd)" using known_after[OF rd1(2)] first by simp
  moreover have "lists_hold (rd_record rd)"
    using lines_keep_lists[OF rd1(2)] empty_lists_hold first by simp
  ultimately show ?thesis using rec by (simp add: rules_hold_def)
qed

lemma reads_back_holds: "reads_back r \<Longrightarrow> rules_hold r"
  using parsed_record_holds by (auto simp: reads_back_def)

end
