(* ===== verification/Record_Rules.thy ===== *)
theory Record_Rules
  imports Record_Invariants
begin

text \<open>
  The pure half of \<open>internal/record\<close>: the size promise (\<open>size.go\<close>), lessons and
  their sameness (\<open>lessons.go\<close>, \<open>sameness.go\<close>), proof (\<open>proof.go\<close>), the
  done-check (\<open>donecheck.go\<close>) and the rules of the model's update (\<open>model.go\<close>). A
  function that changes the record in place takes it and gives the changed one back, or the error.
\<close>

section \<open>Text of lessons and results\<close>

text \<open>
  \<open>unicode.ToLower\<close>, \<open>unicode.IsLetter\<close> and \<open>unicode.IsDigit\<close> are tables of
  the Unicode standard outside ASCII; the model takes those tables as a parameter.
\<close>

record unicode_tables =
  u_lower :: "nat \<Rightarrow> nat"
  u_letter :: "nat \<Rightarrow> bool"
  u_digit :: "nat \<Rightarrow> bool"

definition lower_rune :: "unicode_tables \<Rightarrow> nat \<Rightarrow> nat" where
  "lower_rune u r =
     (if r < 128 then (if 65 \<le> r \<and> r \<le> 90 then r + 32 else r) else u_lower u r)"

definition letter_rune :: "unicode_tables \<Rightarrow> nat \<Rightarrow> bool" where
  "letter_rune u r \<longleftrightarrow>
     (if r < 128 then (65 \<le> r \<and> r \<le> 90) \<or> (97 \<le> r \<and> r \<le> 122) else u_letter u r)"

definition digit_rune :: "unicode_tables \<Rightarrow> nat \<Rightarrow> bool" where
  "digit_rune u r \<longleftrightarrow> (if r < 128 then 48 \<le> r \<and> r \<le> 57 else u_digit u r)"

text \<open>\<open>strings.ToLower\<close>.\<close>

definition to_lower :: "unicode_tables \<Rightarrow> string \<Rightarrow> string" where
  "to_lower u s = text_of_runes (map (lower_rune u) (runes s))"

definition max_summary_characters :: nat where "max_summary_characters = 70"
definition max_lesson_runes :: nat where "max_lesson_runes = 120"
definition max_failures_kept :: nat where "max_failures_kept = 6"
definition max_decisions_kept :: nat where "max_decisions_kept = 6"

definition cut_to_one_line :: "string \<Rightarrow> string" where
  "cut_to_one_line summary =
     (let letters = runes summary in
      if length letters \<le> max_summary_characters then summary
      else text_of_runes (take (max_summary_characters - 3) letters) @ ''...'')"

definition cut_to_a_lesson :: "string \<Rightarrow> string" where
  "cut_to_a_lesson s =
     (let trimmed = trim_space s; letters = runes trimmed in
      if length letters \<le> max_lesson_runes then trimmed
      else
        let kept = text_of_runes (take (max_lesson_runes - 3) letters);
            shorter = (case last_index kept '' '' of
                         None \<Rightarrow> kept
                       | Some at \<Rightarrow> if max_lesson_runes div 2 < at then take at kept else kept)
        in trim_right_bytes (\<lambda>c. c \<in> set '' ,;:'') shorter @ ''...'')"

definition the_newest :: "'a list \<Rightarrow> nat \<Rightarrow> 'a list" where
  "the_newest xs most = (if length xs \<le> most then xs else drop (length xs - most) xs)"

definition number_after :: "string \<Rightarrow> int" where
  "number_after last_id = (case label_number last_id of None \<Rightarrow> 1 | Some n \<Rightarrow> wrap64 (n + 1))"

definition words_of :: "unicode_tables \<Rightarrow> string \<Rightarrow> string list" where
  "words_of u s = fields_func (\<lambda>r. \<not> letter_rune u r \<and> \<not> digit_rune u r) (to_lower u s)"

definition the_fewest_words_compared :: nat where "the_fewest_words_compared = 4"

text \<open>
  The share is four fifths. The code compares with the float \<open>0.8 * n\<close>, which rounds to the
  whole number where that is one, so on whole counts the comparison is \<open>4 * n \<le> 5 * shared\<close>.
\<close>

definition says_the_same :: "unicode_tables \<Rightarrow> string \<Rightarrow> string \<Rightarrow> bool" where
  "says_the_same u fresh held =
     (let fresh_words = words_of u fresh; held_words = words_of u held in
      if join '' '' fresh_words = join '' '' held_words then True
      else if length fresh_words < the_fewest_words_compared
        \<or> length held_words < the_fewest_words_compared then False
      else
        let distinct_words = remdups fresh_words;
            shared = length (filter (\<lambda>w. w \<in> set held_words) distinct_words)
        in 4 * length distinct_words \<le> 5 * shared)"

definition failure_naming_the_cause :: "unicode_tables \<Rightarrow> failure list \<Rightarrow> string \<Rightarrow> failure option" where
  "failure_naming_the_cause u failures cause =
     (let kept = cut_to_a_lesson cause in find (\<lambda>held. says_the_same u kept (fa_cause held)) failures)"

section \<open>Proof\<close>

fun highest_number :: "header \<Rightarrow> int \<Rightarrow> result_line list \<Rightarrow> int" where
  "highest_number h highest [] = highest"
| "highest_number h highest (r # rs) =
     (case result_number h (rl_id r) of
        None \<Rightarrow> highest_number h highest rs
      | Some n \<Rightarrow> highest_number h (if highest < n then n else highest) rs)"

definition highest_result_number_on :: "record_of_work \<Rightarrow> int" where
  "highest_result_number_on r = highest_number (r_header r) 0 (w_results (r_work r))"

definition record_holds_result :: "record_of_work \<Rightarrow> string \<Rightarrow> bool" where
  "record_holds_result r i =
     (if i = [] then False
      else if list_ex (\<lambda>l. rl_id l = i) (w_results (r_work r)) then True
      else (case result_number (r_header r) i of
              None \<Rightarrow> False | Some n \<Rightarrow> 1 \<le> n \<and> n \<le> highest_result_number_on r))"

definition check_names_a_result :: "record_of_work \<Rightarrow> string \<Rightarrow> record_error + unit" where
  "check_names_a_result r i =
     (if i = [] \<or> record_holds_result r i then Inr () else Inl (Breaks ErrNoSuchResult))"

section \<open>The done-check\<close>

definition unproven :: "record_of_work \<Rightarrow> done_line list" where
  "unproven r =
     filter (\<lambda>l. \<not> (dl_done l \<and> (dl_reply l \<noteq> [] \<or> record_holds_result r (dl_result l))))
       (g_done_when (r_goal r))"

definition done_check :: "record_of_work \<Rightarrow> record_error + unit" where
  "done_check r =
     (if g_done_when (r_goal r) = [] then Inl (Breaks ErrDoneLineNeedsProof)
      else if unproven r = [] then Inr ()
      else Inl (Breaks ErrDoneLineNeedsProof))"

section \<open>The size promise\<close>

definition max_result_lines_kept :: nat where "max_result_lines_kept = 40"
definition min_result_lines_kept :: nat where "min_result_lines_kept = 10"

definition without_the_ask :: "record_of_work \<Rightarrow> record_of_work" where
  "without_the_ask r = r\<lparr>r_goal := (r_goal r)\<lparr>g_ask := ''-''\<rparr>\<rparr>"

definition record_tokens :: "record_of_work \<Rightarrow> nat" where
  "record_tokens r = estimate_tokens (print_whole (without_the_ask r))"

definition check_it_still_fits :: "record_of_work \<Rightarrow> record_error + unit" where
  "check_it_still_fits r =
     (if record_tokens r \<le> max_record_tokens then Inr () else Inl (Breaks ErrRecordTooLarge))"

text \<open>The two loops of \<open>trimTheResultsToFit\<close>; each turn drops the first line.\<close>

definition trim_to_count :: "record_of_work \<Rightarrow> record_of_work" where
  "trim_to_count r = without_the_oldest (length (w_results (r_work r)) - max_result_lines_kept) r"

function trim_to_size :: "record_of_work \<Rightarrow> record_of_work" where
  "trim_to_size r =
     (if min_result_lines_kept < length (w_results (r_work r)) \<and> max_record_tokens < record_tokens r
      then trim_to_size (without_the_oldest 1 r) else r)"
  by pat_completeness auto
termination
  by (relation "measure (\<lambda>r. length (w_results (r_work r)))") auto

declare trim_to_size.simps [simp del]

definition trim_the_results_to_fit :: "record_of_work \<Rightarrow> record_of_work" where
  "trim_the_results_to_fit r = trim_to_size (trim_to_count r)"

text \<open>\<open>longestPartOf\<close>: the part a refusal names.\<close>

definition parts_of :: "record_of_work \<Rightarrow> (string \<times> string) list" where
  "parts_of r =
     [(''why'', g_why (r_goal r)),
      (''done list'', join [newline] (map dl_text (g_done_when (r_goal r)))),
      (''stop list'', join [newline] (r_stop_when (r_rules r))),
      (''corrections'', join [newline] (map co_text (r_corrections (r_rules r)))),
      (''situation'', join [newline] (w_situation (r_work r))),
      (''plan'', join [newline] (map ps_text (w_plan (r_work r)))),
      (''task list'', join [newline] (map jt_text (w_tasks (r_work r)))),
      (''list of results'', join [newline] (map rl_summary (w_results (r_work r)))),
      (''decisions'', join [newline] (map (\<lambda>d. de_text d @ '' '' @ de_reason d) (l_decisions (r_lessons r)))),
      (''failures'', join [newline] (map (\<lambda>f. fa_text f @ '' '' @ fa_cause f) (l_failures (r_lessons r))))]"

definition longest_part_of :: "record_of_work \<Rightarrow> string \<times> nat" where
  "longest_part_of r =
     foldl (\<lambda>(name, cost) (part_name, words).
              let counted = estimate_tokens words
              in if cost < counted then (part_name, counted) else (name, cost))
       (''record'', 0) (parts_of r)"

section \<open>The update of the model\<close>

record new_decision =
  nd_text :: string
  nd_reason :: string

record new_failure =
  nf_text :: string
  nf_cause :: string

record new_job_task =
  nt_id :: string
  nt_text :: string
  nt_due :: string

record step_done =
  sd_number :: int
  sd_result :: string

text \<open>A list of the update is \<open>None\<close> when the Go slice is nil, which leaves the record's alone.\<close>

record update =
  up_name :: string
  up_why :: string
  up_done_when :: "done_line list option"
  up_stop_when :: "string list option"
  up_plan :: "string list option"
  up_tasks :: "new_job_task list option"
  up_decision :: "new_decision option"
  up_failure :: "new_failure option"
  up_step_done :: "step_done option"

definition nothing_to_write :: "update \<Rightarrow> bool" where
  "nothing_to_write up \<longleftrightarrow>
     up_name up = [] \<and> up_why up = [] \<and> up_done_when up = None \<and> up_stop_when up = None
     \<and> up_plan up = None \<and> up_tasks up = None \<and> up_decision up = None \<and> up_failure up = None
     \<and> up_step_done up = None"

definition max_done_lines :: nat where "max_done_lines = 5"
definition max_plan_steps :: nat where "max_plan_steps = 10"
definition long_ask_words :: nat where "long_ask_words = 600"
definition max_plan_steps_for_a_long_ask :: nat where "max_plan_steps_for_a_long_ask = 6"

definition set_goal :: "(goal \<Rightarrow> goal) \<Rightarrow> record_of_work \<Rightarrow> record_of_work" where
  "set_goal f r = r\<lparr>r_goal := f (r_goal r)\<rparr>"

definition apply_name :: "record_of_work \<Rightarrow> update \<Rightarrow> record_error + record_of_work" where
  "apply_name r up =
     (if up_name up = [] \<or> up_name up = g_name (r_goal r) then Inr r
      else if g_name (r_goal r) \<noteq> [] then Inl (Breaks ErrNameIsSet)
      else Inr (set_goal (\<lambda>g. g\<lparr>g_name := up_name up\<rparr>) r))"

definition apply_why :: "record_of_work \<Rightarrow> update \<Rightarrow> record_error + record_of_work" where
  "apply_why r up =
     (if up_why up = [] \<or> up_why up = g_why (r_goal r) then Inr r
      else if g_why (r_goal r) \<noteq> [] then Inl (Breaks ErrWhyIsSet)
      else Inr (set_goal (\<lambda>g. g\<lparr>g_why := up_why up\<rparr>) r))"

definition check_done_line :: "record_of_work \<Rightarrow> done_line \<Rightarrow> record_error + unit" where
  "check_done_line r l =
     (if dl_text l = [] then Inl Unnamed
      else if dl_done l \<and> dl_result l = [] \<and> dl_reply l = [] then Inl (Breaks ErrDoneLineNeedsProof)
      else if dl_result l \<noteq> [] \<and> dl_reply l \<noteq> [] then Inl Unnamed
      else check_names_a_result r (dl_result l))"

definition marked_by_proof :: "done_line \<Rightarrow> done_line" where
  "marked_by_proof l = (if dl_result l \<noteq> [] then l\<lparr>dl_done := True\<rparr> else l)"

definition apply_done_when :: "record_of_work \<Rightarrow> update \<Rightarrow> record_error + record_of_work" where
  "apply_done_when r up =
     (case up_done_when up of
        None \<Rightarrow> Inr r
      | Some lines \<Rightarrow>
          if h_kind (r_header r) = record_task \<and> max_done_lines < length lines
          then Inl (Breaks ErrDoneListTooLong)
          else and_then (each_in_turn (\<lambda>_ l. check_done_line r l) () lines)
                 (\<lambda>_. Inr (put_done_when (map marked_by_proof lines) r)))"

definition apply_stop_when :: "record_of_work \<Rightarrow> update \<Rightarrow> record_error + record_of_work" where
  "apply_stop_when r up =
     (case up_stop_when up of
        None \<Rightarrow> Inr r
      | Some stops \<Rightarrow> if [] \<in> set stops then Inl Unnamed else Inr (put_stop_when stops r))"

definition plan_step_saying :: "plan_step list \<Rightarrow> string \<Rightarrow> plan_step option" where
  "plan_step_saying plan txt = find (\<lambda>s. ps_text s = txt) plan"

fun written_plan :: "plan_step list \<Rightarrow> nat \<Rightarrow> string list \<Rightarrow> record_error + plan_step list" where
  "written_plan old at [] = Inr []"
| "written_plan old at (txt # txts) =
     (if txt = [] then Inl Unnamed
      else
        let fresh = \<lparr>ps_number = int at + 1, ps_text = txt, ps_done = False, ps_result = []\<rparr>;
            step = (case plan_step_saying old txt of
                      None \<Rightarrow> fresh
                    | Some earlier \<Rightarrow>
                        if ps_done earlier then fresh\<lparr>ps_done := True, ps_result := ps_result earlier\<rparr>
                        else fresh)
        in and_then (written_plan old (at + 1) txts) (\<lambda>steps. Inr (step # steps)))"

definition apply_plan :: "record_of_work \<Rightarrow> update \<Rightarrow> record_error + record_of_work" where
  "apply_plan r up =
     (case up_plan up of
        None \<Rightarrow> Inr r
      | Some txts \<Rightarrow>
          if h_kind (r_header r) \<noteq> record_task then Inl (Breaks ErrWrongKind)
          else if max_plan_steps < length txts then Inl (Breaks ErrPlanTooLong)
          else if long_ask_words < length (text_fields (g_ask (r_goal r)))
            \<and> max_plan_steps_for_a_long_ask < length txts then Inl (Breaks ErrPlanTooLong)
          else and_then (written_plan (w_plan (r_work r)) 0 txts) (\<lambda>steps. Inr (put_plan steps r)))"

definition mark_step :: "record_of_work \<Rightarrow> int \<Rightarrow> string \<Rightarrow> record_error + record_of_work" where
  "mark_step r number result =
     (if number < 1 \<or> int (length (w_plan (r_work r))) < number then Inl Unnamed
      else if \<not> record_holds_result r result then Inl (Breaks ErrPlanStepNeedsResult)
      else
        let plan = w_plan (r_work r); at = nat number - 1
        in Inr (put_plan (plan[at := (plan ! at)\<lparr>ps_done := True, ps_result := result\<rparr>]) r))"

definition apply_step_done :: "record_of_work \<Rightarrow> update \<Rightarrow> record_error + record_of_work" where
  "apply_step_done r up =
     (case up_step_done up of
        None \<Rightarrow> Inr r
      | Some sd \<Rightarrow>
          if h_kind (r_header r) \<noteq> record_task then Inl (Breaks ErrWrongKind)
          else if 1 \<le> sd_number sd \<and> sd_number sd \<le> int (length (w_plan (r_work r)))
            \<and> ps_done (w_plan (r_work r) ! (nat (sd_number sd) - 1)) then Inl (Breaks ErrStepAlreadyDone)
          else mark_step r (sd_number sd) (sd_result sd))"

definition job_task_labelled :: "job_task list \<Rightarrow> string \<Rightarrow> job_task option" where
  "job_task_labelled tasks i = find (\<lambda>t. jt_id t = i) tasks"

fun written_tasks :: "job_task list \<Rightarrow> int \<Rightarrow> new_job_task list \<Rightarrow> record_error + job_task list" where
  "written_tasks old highest [] = Inr []"
| "written_tasks old highest (t # ts) =
     (case parse_task_id (nt_id t) of
        None \<Rightarrow> Inl Unnamed
      | Some number \<Rightarrow>
          if nt_text t = [] then Inl Unnamed
          else if number \<le> highest then Inl (Breaks ErrTasksOutOfOrder)
          else
            let fresh = \<lparr>jt_id = nt_id t, jt_text = nt_text t, jt_done = False, jt_report = [],
                         jt_due = nt_due t\<rparr>;
                entry = (case job_task_labelled old (nt_id t) of
                           None \<Rightarrow> fresh
                         | Some earlier \<Rightarrow>
                             if jt_done earlier
                             then fresh\<lparr>jt_done := True, jt_report := jt_report earlier\<rparr> else fresh)
            in and_then (written_tasks old number ts) (\<lambda>rest. Inr (entry # rest)))"

definition apply_tasks :: "record_of_work \<Rightarrow> update \<Rightarrow> record_error + record_of_work" where
  "apply_tasks r up =
     (case up_tasks up of
        None \<Rightarrow> Inr r
      | Some tasks \<Rightarrow>
          if h_kind (r_header r) \<noteq> record_job then Inl (Breaks ErrWrongKind)
          else and_then (written_tasks (w_tasks (r_work r)) 0 tasks) (\<lambda>written.
            if list_ex (\<lambda>earlier. jt_done earlier \<and> \<not> list_ex (\<lambda>t. jt_id t = jt_id earlier) written)
                 (w_tasks (r_work r))
            then Inl (Breaks ErrFinishedTaskRemoved)
            else Inr (put_tasks written r)))"

definition apply_decision :: "record_of_work \<Rightarrow> update \<Rightarrow> record_error + record_of_work" where
  "apply_decision r up =
     (case up_decision up of
        None \<Rightarrow> Inr r
      | Some d \<Rightarrow>
          if nd_text d = [] then Inl Unnamed
          else if nd_reason d = [] then Inl (Breaks ErrDecisionNeedsReason)
          else
            let held = l_decisions (r_lessons r);
                number = (if held = [] then 1 else number_after (de_id (last held)))
            in Inr (put_decisions (the_newest (held @ [\<lparr>de_id = decision_id number,
                   de_text = cut_to_a_lesson (nd_text d), de_reason = cut_to_a_lesson (nd_reason d)\<rparr>])
                   max_decisions_kept) r))"

definition apply_failure :: "unicode_tables \<Rightarrow> record_of_work \<Rightarrow> update \<Rightarrow> record_error + record_of_work"
where
  "apply_failure u r up =
     (case up_failure up of
        None \<Rightarrow> Inr r
      | Some f \<Rightarrow>
          if nf_text f = [] then Inl Unnamed
          else if nf_cause f = [] then Inl (Breaks ErrFailureNeedsCause)
          else
            let held = l_failures (r_lessons r); kept = cut_to_a_lesson (nf_text f) in
            if list_ex (\<lambda>h. says_the_same u kept (fa_text h)) held
            then Inl (Breaks ErrFailureAlreadyWritten)
            else if failure_naming_the_cause u held (nf_cause f) \<noteq> None
            then Inl (Breaks ErrFailureAlreadyWritten)
            else
              let number = (if held = [] then 1 else number_after (fa_id (last held)))
              in Inr (put_failures (the_newest (held @ [\<lparr>fa_id = failure_id number,
                     fa_text = cut_to_a_lesson (nf_text f), fa_cause = cut_to_a_lesson (nf_cause f)\<rparr>])
                     max_failures_kept) r))"

definition apply_update :: "unicode_tables \<Rightarrow> record_of_work \<Rightarrow> update \<Rightarrow> record_error + record_of_work"
where
  "apply_update u r up =
     each_in_turn (\<lambda>held write. write held up) r
       [apply_name, apply_why, apply_done_when, apply_stop_when, apply_plan, apply_step_done,
        apply_tasks, apply_decision, apply_failure u]"

end
