(* ===== verification/Record_Update.thy ===== *)
theory Record_Update
  imports Record_Rules
begin

text \<open>
  What the model's update and the size promise do to a record: the parts an update leaves alone, the
  proof behind what it marks done, the bounds on the lists, the labels it hands out, and that trimming
  the results loses no proof.
\<close>

section \<open>Labels of results\<close>

text \<open>The label of a kind of record and its reader are one scheme, whatever the kind.\<close>

definition result_label_of :: "header \<Rightarrow> int \<Rightarrow> string" where
  "result_label_of h n = (if h_kind h = record_job then report_id (h_id h) n else result_id n)"

lemma known_place_positive: "known_place h \<Longrightarrow> positive_number (h_id h)"
  by (auto simp: known_place_def read_count_eq positive_number_value_def split: if_splits)

interpretation record_label: label_scheme known_place result_label_of result_number
proof
  fix h :: header and s and n :: int
  assume "known_place h"
  then have job: "positive_number (h_id h)" by (rule known_place_positive)
  show "1 \<le> n \<Longrightarrow> n \<le> max_int \<Longrightarrow> result_number h (result_label_of h n) = Some n"
    using job by (simp add: result_number_def result_label_of_def parse_report_id_write result_label.rd_mk)
  show "result_number h s = Some n \<Longrightarrow> 1 \<le> n \<and> n \<le> max_int \<and> result_label_of h n = s"
    using parse_report_id_read[of s "h_id h" n] result_label.mk_rd[of s n]
    by (auto simp: result_number_def result_label_of_def split: if_splits option.splits)
qed

lemma next_result_id_label:
  "0 \<le> n \<Longrightarrow> n < max_int \<Longrightarrow> next_result_id h n = result_label_of h (n + 1)"
  by (simp add: next_result_id_def result_label_of_def wrap64_small)

section \<open>The highest label\<close>

lemma highest_number_least: "a \<le> highest_number h a rs"
proof (induction h a rs rule: highest_number.induct)
  case (2 h a r rs)
  then show ?case by (cases "result_number h (rl_id r)") (auto intro: order_trans[rotated])
qed simp

lemma highest_number_upper:
  "r \<in> set rs \<Longrightarrow> result_number h (rl_id r) = Some n \<Longrightarrow> n \<le> highest_number h a rs"
proof (induction h a rs rule: highest_number.induct)
  case (2 h a q rs)
  show ?case
  proof (cases "r = q")
    case True
    then show ?thesis using 2(4) highest_number_least[of "if a < n then n else a" h rs] by auto
  next
    case False
    then show ?thesis using 2 by (auto split: option.split)
  qed
qed simp

lemma highest_number_reached:
  "highest_number h a rs = a \<or> (\<exists>r \<in> set rs. result_number h (rl_id r) = Some (highest_number h a rs))"
proof (induction h a rs rule: highest_number.induct)
  case (2 h a r rs)
  then show ?case by (cases "result_number h (rl_id r)") auto
qed simp

lemma highest_result_number_range:
  "0 \<le> highest_result_number_on r \<and>
    (known_place (r_header r) \<longrightarrow> highest_result_number_on r \<le> max_int)"
  using highest_number_least[of 0 "r_header r" "w_results (r_work r)"]
    highest_number_reached[of "r_header r" 0 "w_results (r_work r)"] record_label.mk_rd
  by (force simp: highest_result_number_on_def max_int_def)

text \<open>On a list whose labels grow, the highest is the last, so dropping older lines keeps it.\<close>

lemma sorted_wrt_last_greatest:
  "sorted_wrt (<) (xs :: int list) \<Longrightarrow> x \<in> set xs \<Longrightarrow> x \<le> last xs"
proof (induction xs)
  case (Cons y ys)
  then show ?case by (cases "ys = []") (auto simp: order_less_imp_le)
qed simp

lemma highest_of_growing:
  assumes "wf_results h rs" "rs \<noteq> []" "known_place h"
  shows "result_number h (rl_id (last rs)) = Some (highest_number h 0 rs)"
proof -
  let ?num = "\<lambda>r. number_or_zero (result_number h (rl_id r))"
  have all: "\<forall>r \<in> set rs. result_number h (rl_id r) \<noteq> None"
    and grow: "sorted_wrt (<) (map ?num rs)"
    using assms(1) by (auto simp: wf_results_def labels_grow_def list_all_iff comp_def)
  obtain n where n: "result_number h (rl_id (last rs)) = Some n" using all assms(2) by fastforce
  have "1 \<le> n" using record_label.mk_rd[OF assms(3) n] by simp
  have upper: "n \<le> highest_number h 0 rs"
    using highest_number_upper[OF _ n] assms(2) by simp
  moreover have "highest_number h 0 rs \<le> n"
  proof -
    consider "highest_number h 0 rs = 0"
      | r where "r \<in> set rs" "result_number h (rl_id r) = Some (highest_number h 0 rs)"
      using highest_number_reached[of h 0 rs] by blast
    then show ?thesis
    proof cases
      case 2
      have "?num r \<le> last (map ?num rs)"
        using sorted_wrt_last_greatest[OF grow, of "?num r"] imageI[OF 2(1), of ?num]
        by (simp only: set_map)
      then show ?thesis using 2 n assms(2) by (simp add: last_map number_or_zero_def)
    qed (use \<open>1 \<le> n\<close> in simp)
  qed
  ultimately show ?thesis using n by simp
qed

section \<open>Trimming\<close>

definition some_results :: "record_of_work \<Rightarrow> bool" where
  "some_results r \<longleftrightarrow> w_results (r_work r) \<noteq> []"

lemma highest_without_the_oldest:
  assumes "rules_hold r" "k < length (w_results (r_work r))"
  shows "highest_result_number_on (without_the_oldest k r) = highest_result_number_on r"
proof -
  let ?rs = "w_results (r_work r)" and ?h = "r_header r"
  have wf: "wf_results ?h ?rs" and place: "known_place ?h"
    using assms(1) by (simp_all add: rules_hold_def lists_hold_def)
  have "labels_grow (result_number ?h) (map rl_id (take k ?rs) @ map rl_id (drop k ?rs))"
    using wf by (simp add: wf_results_def map_append[symmetric] del: map_append)
  moreover have "list_all wf_result_line (take k ?rs @ drop k ?rs)"
    using wf by (simp add: wf_results_def)
  ultimately have wf': "wf_results ?h (drop k ?rs)"
    by (simp add: wf_results_def labels_grow_def sorted_wrt_append del: append_take_drop_id)
  have ne: "drop k ?rs \<noteq> []" "?rs \<noteq> []" using assms(2) by auto
  have "Some (highest_number ?h 0 (drop k ?rs)) = Some (highest_number ?h 0 ?rs)"
    using highest_of_growing[OF wf' ne(1) place] highest_of_growing[OF wf ne(2) place] assms(2)
    by (simp add: last_drop)
  then show ?thesis by (simp add: highest_result_number_on_def)
qed

lemma holds_without_the_oldest:
  assumes "rules_hold r" "k < length (w_results (r_work r))" "record_holds_result r i"
  shows "record_holds_result (without_the_oldest k r) i"
proof -
  let ?rs = "w_results (r_work r)" and ?h = "r_header r"
  have wf: "wf_results ?h ?rs" and place: "known_place ?h"
    using assms(1) by (simp_all add: rules_hold_def lists_hold_def)
  have i: "i \<noteq> []" using assms(3) by (auto simp: record_holds_result_def)
  have "\<exists>n. result_number ?h i = Some n \<and> 1 \<le> n \<and> n \<le> highest_result_number_on r"
  proof (cases "list_ex (\<lambda>l. rl_id l = i) ?rs")
    case True
    then obtain l where l: "l \<in> set ?rs" "rl_id l = i" by (auto simp: list_ex_iff)
    then obtain n where n: "result_number ?h i = Some n"
      using wf by (fastforce simp: wf_results_def labels_grow_def list_all_iff)
    then show ?thesis
      using record_label.mk_rd[OF place n] highest_number_upper[OF l(1), of ?h n 0] l(2)
      by (simp add: highest_result_number_on_def)
  next
    case False
    then show ?thesis using assms(3) i
      by (auto simp: record_holds_result_def split: option.splits)
  qed
  then show ?thesis
    using i highest_without_the_oldest[OF assms(1,2)] by (auto simp: record_holds_result_def)
qed

lemma rules_hold_without_the_oldest:
  assumes "rules_hold r"
  shows "rules_hold (without_the_oldest k r)"
proof -
  let ?rs = "w_results (r_work r)" and ?h = "r_header r"
  have wf: "wf_results ?h ?rs" using assms by (simp add: rules_hold_def lists_hold_def)
  have "labels_grow (result_number ?h) (map rl_id (take k ?rs) @ map rl_id (drop k ?rs))"
    using wf by (simp add: wf_results_def map_append[symmetric] del: map_append)
  moreover have "list_all wf_result_line (take k ?rs @ drop k ?rs)"
    using wf by (simp add: wf_results_def)
  ultimately have "wf_results ?h (drop k ?rs)"
    by (simp add: wf_results_def labels_grow_def sorted_wrt_append del: append_take_drop_id)
  then show ?thesis using assms by (simp add: rules_hold_def lists_hold_def)
qed

text \<open>A trimming leaves out some of the oldest lines, and never the newest.\<close>

lemma without_the_oldest_twice [simp]:
  "without_the_oldest j (without_the_oldest k r) = without_the_oldest (k + j) r"
  by (simp add: without_the_oldest_def put_results_def add.commute)

lemma without_none [simp]: "without_the_oldest 0 r = r"
  by (simp add: without_the_oldest_def put_results_def)

lemma trim_to_size_is:
  "\<exists>k. trim_to_size r = without_the_oldest k r \<and>
     (k = 0 \<or> k + min_result_lines_kept \<le> length (w_results (r_work r)))"
proof (induction r rule: trim_to_size.induct)
  case (1 r)
  show ?case
  proof (cases "min_result_lines_kept < length (w_results (r_work r)) \<and> max_record_tokens < record_tokens r")
    case True
    then obtain k where k: "trim_to_size (without_the_oldest 1 r) = without_the_oldest (1 + k) r"
      "k = 0 \<or> k + min_result_lines_kept \<le> length (w_results (r_work r)) - 1"
      using 1 by fastforce
    have "trim_to_size r = without_the_oldest (1 + k) r"
      using True k(1) by (subst trim_to_size.simps) simp
    then show ?thesis using True k(2) by (intro exI[of _ "1 + k"]) auto
  next
    case False
    then show ?thesis by (subst trim_to_size.simps) (intro exI[of _ 0], auto)
  qed
qed

lemma trim_is:
  "\<exists>k. trim_the_results_to_fit r = without_the_oldest k r \<and>
     (k = 0 \<or> k + min_result_lines_kept \<le> length (w_results (r_work r)))"
proof -
  let ?n = "length (w_results (r_work r))"
  obtain k where k: "trim_the_results_to_fit r = without_the_oldest (?n - max_result_lines_kept + k) r"
    "k = 0 \<or> k + min_result_lines_kept \<le> ?n - (?n - max_result_lines_kept)"
    using trim_to_size_is[of "trim_to_count r"]
    by (auto simp: trim_the_results_to_fit_def trim_to_count_def)
  have "min_result_lines_kept \<le> max_result_lines_kept"
    by (simp add: min_result_lines_kept_def max_result_lines_kept_def)
  then show ?thesis using k
    by (intro exI[of _ "?n - max_result_lines_kept + k"]) auto
qed

lemma trim_keeps_newest:
  assumes "trim_the_results_to_fit r = without_the_oldest k r"
    "k = 0 \<or> k + min_result_lines_kept \<le> length (w_results (r_work r))"
  shows "w_results (r_work r) = [] \<or> k < length (w_results (r_work r))"
  using assms(2) by (auto simp: min_result_lines_kept_def)

lemma trim_reads_back: "reads_back r \<Longrightarrow> reads_back (trim_the_results_to_fit r)"
  using trim_is[of r] reads_back_without_the_oldest by auto

lemma trim_to_size_bound:
  "length (w_results (r_work (trim_to_size r))) \<le> length (w_results (r_work r)) \<and>
   (min_result_lines_kept < length (w_results (r_work (trim_to_size r))) \<longrightarrow>
     record_tokens (trim_to_size r) \<le> max_record_tokens)"
proof (induction r rule: trim_to_size.induct)
  case (1 r)
  then show ?case
    by (cases "min_result_lines_kept < length (w_results (r_work r)) \<and> max_record_tokens < record_tokens r";
        subst (1 2 3) trim_to_size.simps) auto
qed

lemma trim_bounds:
  "length (w_results (r_work (trim_the_results_to_fit r))) \<le> max_result_lines_kept \<and>
   (min_result_lines_kept < length (w_results (r_work (trim_the_results_to_fit r))) \<longrightarrow>
     record_tokens (trim_the_results_to_fit r) \<le> max_record_tokens)"
  using trim_to_size_bound[of "trim_to_count r"]
  by (auto simp: trim_the_results_to_fit_def trim_to_count_def)

lemma trim_keeps_proof:
  assumes "rules_hold r" "record_holds_result r i"
  shows "record_holds_result (trim_the_results_to_fit r) i"
proof -
  obtain k where k: "trim_the_results_to_fit r = without_the_oldest k r"
    "k = 0 \<or> k + min_result_lines_kept \<le> length (w_results (r_work r))"
    using trim_is[of r] by blast
  show ?thesis
  proof (cases "w_results (r_work r) = []")
    case True
    then have "k = 0" using k(2) by (auto simp: min_result_lines_kept_def)
    then show ?thesis using k(1) assms(2) by simp
  next
    case False
    then have "k < length (w_results (r_work r))" using trim_keeps_newest[OF k] by simp
    then show ?thesis using k(1) holds_without_the_oldest[OF assms(1) _ assms(2)] by simp
  qed
qed

section \<open>The longest part\<close>

lemma longest_fold:
  assumes "foldl (\<lambda>(name, cost) (part_name, words).
      let counted = estimate_tokens words
      in if cost < counted then (part_name, counted) else (name, cost)) (n0, c0) ps = (n, c)"
  shows "c0 \<le> c \<and> (\<forall>p \<in> set ps. estimate_tokens (snd p) \<le> c) \<and>
    ((n, c) = (n0, c0) \<or> (\<exists>w. (n, w) \<in> set ps \<and> estimate_tokens w = c))"
  using assms
proof (induction ps arbitrary: n0 c0)
  case (Cons p ps)
  obtain pn w where p: "p = (pn, w)" by (cases p)
  show ?case
  proof (cases "c0 < estimate_tokens w")
    case True
    then show ?thesis using Cons.IH[of pn "estimate_tokens w"] Cons.prems p by auto
  next
    case False
    then show ?thesis using Cons.IH[of n0 c0] Cons.prems p by auto
  qed
qed simp

section \<open>Bounds on the written text\<close>

lemma runes_append_ascii:
  "byte c < 128 \<Longrightarrow> runes (s @ c # t) = runes s @ byte c # runes t"
  by (simp add: runes_def rune_chunks_append_ascii)

lemma runes_dots: "runes (s @ ''...'') = runes s @ [46, 46, 46]"
  using runes_append_ascii[of "CHR ''.''" s "''..''"] by simp

lemma cut_to_one_line_bound: "length (runes (cut_to_one_line s)) \<le> max_summary_characters"
proof (cases "length (runes s) \<le> max_summary_characters")
  case False
  then have "runes (cut_to_one_line s) = take 67 (runes s) @ [46, 46, 46]"
    by (simp add: cut_to_one_line_def max_summary_characters_def runes_dots)
  then show ?thesis by (simp add: max_summary_characters_def)
qed (simp add: cut_to_one_line_def)

lemma trim_right_ascii_bound:
  assumes "\<And>c. out c \<Longrightarrow> byte c < 128"
  shows "length (runes (trim_right_bytes out s)) \<le> length (runes s)"
proof (induction s rule: rev_induct)
  case (snoc c s)
  show ?case
  proof (cases "out c")
    case True
    then have "runes (s @ [c]) = runes s @ [byte c]"
      using runes_append_ascii[of c s "[]"] assms by simp
    then show ?thesis using snoc True by (simp add: trim_right_bytes_def)
  qed (simp add: trim_right_bytes_def)
qed (simp add: trim_right_bytes_def)

lemma runes_take_space:
  assumes "last_index s '' '' = Some at"
  shows "length (runes (take at s)) \<le> length (runes s)"
proof -
  have "s = take at s @ CHR '' '' # drop (at + 1) s" using last_index_split[OF assms] by simp
  then have "runes s = runes (take at s) @ 32 # runes (drop (at + 1) s)"
    using runes_append_ascii[of "CHR '' ''" "take at s" "drop (at + 1) s"] by simp
  then show ?thesis by simp
qed

lemma cut_to_a_lesson_bound: "length (runes (cut_to_a_lesson s)) \<le> max_lesson_runes"
proof (cases "length (runes (trim_space s)) \<le> max_lesson_runes")
  case False
  let ?kept = "text_of_runes (take (max_lesson_runes - 3) (runes (trim_space s)))"
  let ?shorter = "case last_index ?kept '' '' of None \<Rightarrow> ?kept
      | Some at \<Rightarrow> if max_lesson_runes div 2 < at then take at ?kept else ?kept"
  have "length (runes ?kept) \<le> 117" by (simp add: max_lesson_runes_def)
  then have "length (runes ?shorter) \<le> 117"
    using runes_take_space[of ?kept] by (auto split: option.split intro: order_trans)
  then have "length (runes (trim_right_bytes (\<lambda>c. c \<in> set '' ,;:'') ?shorter)) \<le> 117"
    using trim_right_ascii_bound[of "\<lambda>c. c \<in> set '' ,;:''" ?shorter] by force
  moreover have "runes (cut_to_a_lesson s) =
      runes (trim_right_bytes (\<lambda>c. c \<in> set '' ,;:'') ?shorter) @ [46, 46, 46]"
    using False by (simp only: cut_to_a_lesson_def Let_def if_False runes_dots)
  ultimately show ?thesis by (simp add: max_lesson_runes_def)
qed (simp add: cut_to_a_lesson_def Let_def)

section \<open>Sameness\<close>

lemma says_the_same_refl [simp]: "says_the_same u s s"
  by (simp add: says_the_same_def Let_def)

lemma the_newest_last: "0 < most \<Longrightarrow> xs \<noteq> [] \<Longrightarrow> the_newest xs most \<noteq> [] \<and> last (the_newest xs most) = last xs"
  by (auto simp: the_newest_def)

lemma the_newest_bound: "length (the_newest xs most) \<le> most"
  by (auto simp: the_newest_def)

lemma the_newest_suffix: "suffix (the_newest xs most) xs"
  by (simp add: the_newest_def suffix_drop)

section \<open>What an update leaves alone\<close>

definition harness_half_same :: "record_of_work \<Rightarrow> record_of_work \<Rightarrow> bool" where
  "harness_half_same r r' \<longleftrightarrow>
     r_header r' = r_header r \<and> g_ask (r_goal r') = g_ask (r_goal r)
     \<and> r_corrections (r_rules r') = r_corrections (r_rules r)
     \<and> w_situation (r_work r') = w_situation (r_work r) \<and> w_results (r_work r') = w_results (r_work r)"

lemmas apply_defs = apply_name_def apply_why_def apply_done_when_def apply_stop_when_def
  apply_plan_def apply_step_done_def mark_step_def apply_tasks_def apply_decision_def
  apply_failure_def

lemma writes_keep_harness_half:
  "apply_name r up = Inr r' \<Longrightarrow> harness_half_same r r'"
  "apply_why r up = Inr r' \<Longrightarrow> harness_half_same r r'"
  "apply_done_when r up = Inr r' \<Longrightarrow> harness_half_same r r'"
  "apply_stop_when r up = Inr r' \<Longrightarrow> harness_half_same r r'"
  "apply_plan r up = Inr r' \<Longrightarrow> harness_half_same r r'"
  "mark_step r n i = Inr r' \<Longrightarrow> harness_half_same r r'"
  "apply_step_done r up = Inr r' \<Longrightarrow> harness_half_same r r'"
  "apply_tasks r up = Inr r' \<Longrightarrow> harness_half_same r r'"
  "apply_decision r up = Inr r' \<Longrightarrow> harness_half_same r r'"
  "apply_failure u r up = Inr r' \<Longrightarrow> harness_half_same r r'"
  by (auto simp: apply_defs harness_half_same_def set_goal_def put_defs and_then_Inr_iff Let_def
      split: if_splits option.splits)

definition the_writes :: "unicode_tables \<Rightarrow> (record_of_work \<Rightarrow> update \<Rightarrow> record_error + record_of_work) list"
where
  "the_writes u = [apply_name, apply_why, apply_done_when, apply_stop_when, apply_plan,
     apply_step_done, apply_tasks, apply_decision, apply_failure u]"

text \<open>What every write keeps, the update keeps.\<close>

lemma apply_update_keeps:
  assumes run: "apply_update u r up = Inr r'" and start: "I r"
    and step: "\<And>a b write. I a \<Longrightarrow> harness_half_same r a \<Longrightarrow> write \<in> set (the_writes u) \<Longrightarrow>
      write a up = Inr b \<Longrightarrow> I b"
  shows "I r' \<and> harness_half_same r r'"
proof (rule each_in_turn_keeps[where I = "\<lambda>a. I a \<and> harness_half_same r a"])
  show "each_in_turn (\<lambda>held write. write held up) r (the_writes u) = Inr r'"
    using run by (simp add: apply_update_def the_writes_def)
  show "I r \<and> harness_half_same r r" using start by (simp add: harness_half_same_def)
  fix a wr b
  assume a: "I a \<and> harness_half_same r a" and w: "wr \<in> set (the_writes u)" "wr a up = Inr b"
  have "harness_half_same a b"
    using w writes_keep_harness_half by (auto simp: the_writes_def)
  then show "I b \<and> harness_half_same r b"
    using a w step[of a wr b] by (simp add: harness_half_same_def)
qed

section \<open>The proof behind every mark\<close>

definition proof_holds :: "record_of_work \<Rightarrow> bool" where
  "proof_holds r \<longleftrightarrow>
     (\<forall>l \<in> set (g_done_when (r_goal r)). dl_done l \<longrightarrow> dl_reply l \<noteq> [] \<or> record_holds_result r (dl_result l))
     \<and> (\<forall>p \<in> set (w_plan (r_work r)). ps_done p \<longrightarrow> record_holds_result r (ps_result p))
     \<and> (\<forall>t \<in> set (w_tasks (r_work r)). jt_done t \<longrightarrow> record_holds_result r (jt_report t))"

lemma holds_result_same:
  assumes "harness_half_same r r'"
  shows "record_holds_result r' i = record_holds_result r i"
proof -
  have "highest_result_number_on r' = highest_result_number_on r"
    using assms by (simp add: harness_half_same_def highest_result_number_on_def)
  then show ?thesis using assms
    by (simp add: harness_half_same_def record_holds_result_def split: option.split)
qed

lemma proof_holds_mono:
  assumes "proof_holds r" "\<And>i. record_holds_result r i \<Longrightarrow> record_holds_result r' i"
    "g_done_when (r_goal r') = g_done_when (r_goal r)" "w_plan (r_work r') = w_plan (r_work r)"
    "w_tasks (r_work r') = w_tasks (r_work r)"
  shows "proof_holds r'"
  using assms by (fastforce simp: proof_holds_def)

lemma each_check: "each_in_turn (\<lambda>_ x. f x) () xs = Inr () \<longleftrightarrow> (\<forall>x \<in> set xs. f x = Inr ())"
  by (induction xs) (auto simp: and_then_Inr_iff)

lemma written_plan_marks:
  "written_plan old k txts = Inr steps \<Longrightarrow> p \<in> set steps \<Longrightarrow> ps_done p \<Longrightarrow>
     \<exists>q \<in> set old. ps_done q \<and> ps_result q = ps_result p \<and> ps_text q = ps_text p"
proof (induction old k txts arbitrary: steps rule: written_plan.induct)
  case (2 old k t ts)
  from 2(2) obtain rest where rest: "written_plan old (k + 1) ts = Inr rest"
    and steps: "steps = (case plan_step_saying old t of
        None \<Rightarrow> \<lparr>ps_number = int k + 1, ps_text = t, ps_done = False, ps_result = []\<rparr>
      | Some earlier \<Rightarrow>
          if ps_done earlier
          then \<lparr>ps_number = int k + 1, ps_text = t, ps_done = True, ps_result = ps_result earlier\<rparr>
          else \<lparr>ps_number = int k + 1, ps_text = t, ps_done = False, ps_result = []\<rparr>) # rest"
    by (auto simp: and_then_Inr_iff Let_def split: if_splits option.splits)
  show ?case
  proof (cases "p \<in> set rest")
    case True
    then show ?thesis using 2 rest steps by (auto split: if_splits)
  next
    case False
    show ?thesis
    proof (cases "plan_step_saying old t")
      case None
      then show ?thesis using False 2(3,4) steps by simp
    next
      case (Some earlier)
      then have "earlier \<in> set old" "ps_text earlier = t"
        by (auto simp: plan_step_saying_def find_Some_iff)
      then show ?thesis using Some False 2(3,4) steps by (cases "ps_done earlier") auto
    qed
  qed
qed simp

lemma written_tasks_marks:
  "written_tasks old n ts = Inr ws \<Longrightarrow> w \<in> set ws \<Longrightarrow> jt_done w \<Longrightarrow>
     \<exists>q \<in> set old. jt_done q \<and> jt_report q = jt_report w \<and> jt_id q = jt_id w"
proof (induction old n ts arbitrary: ws rule: written_tasks.induct)
  case (2 old n t ts)
  from 2(2) obtain k rest where k: "parse_task_id (nt_id t) = Some k" "nt_text t \<noteq> []" "\<not> k \<le> n"
    and rest: "written_tasks old k ts = Inr rest"
    and ws: "ws = (case job_task_labelled old (nt_id t) of
        None \<Rightarrow> \<lparr>jt_id = nt_id t, jt_text = nt_text t, jt_done = False, jt_report = [], jt_due = nt_due t\<rparr>
      | Some earlier \<Rightarrow>
          if jt_done earlier
          then \<lparr>jt_id = nt_id t, jt_text = nt_text t, jt_done = True, jt_report = jt_report earlier, jt_due = nt_due t\<rparr>
          else \<lparr>jt_id = nt_id t, jt_text = nt_text t, jt_done = False, jt_report = [], jt_due = nt_due t\<rparr>) # rest"
    by (auto simp: and_then_Inr_iff Let_def split: if_splits option.splits)
  show ?case
  proof (cases "w \<in> set rest")
    case True
    then show ?thesis using 2(1)[OF k(1,2,3) refl refl] 2(4) rest by blast
  next
    case False
    show ?thesis
    proof (cases "job_task_labelled old (nt_id t)")
      case None
      then show ?thesis using False 2(3,4) ws by simp
    next
      case (Some earlier)
      then have "earlier \<in> set old" "jt_id earlier = nt_id t"
        by (auto simp: job_task_labelled_def find_Some_iff)
      then show ?thesis using Some False 2(3,4) ws by (cases "jt_done earlier") auto
    qed
  qed
qed simp

lemma apply_done_when_proof:
  assumes "apply_done_when r up = Inr r'" "proof_holds r"
  shows "proof_holds r'"
proof -
  have same: "record_holds_result r' i = record_holds_result r i" for i
    using assms(1) by (intro holds_result_same writes_keep_harness_half)
  show ?thesis
  proof (cases "up_done_when up")
    case None
    then show ?thesis using assms by (simp add: apply_done_when_def)
  next
    case (Some lines)
    then have checked: "\<forall>l \<in> set lines. check_done_line r l = Inr ()"
      and r': "r' = put_done_when (map marked_by_proof lines) r"
      using assms(1) by (auto simp: apply_done_when_def and_then_Inr_iff each_check split: if_splits)
    have "dl_done (marked_by_proof l) \<longrightarrow>
        dl_reply (marked_by_proof l) \<noteq> [] \<or> record_holds_result r (dl_result (marked_by_proof l))"
      if "l \<in> set lines" for l
      using checked that
      by (auto simp: check_done_line_def check_names_a_result_def marked_by_proof_def split: if_splits)
    then show ?thesis using assms(2)
      unfolding proof_holds_def same by (simp add: r' put_done_when_def)
  qed
qed

lemma apply_plan_proof:
  assumes "apply_plan r up = Inr r'" "proof_holds r"
  shows "proof_holds r'"
proof -
  have same: "record_holds_result r' i = record_holds_result r i" for i
    using assms(1) by (intro holds_result_same writes_keep_harness_half)
  show ?thesis
  proof (cases "up_plan up")
    case None
    then show ?thesis using assms by (simp add: apply_plan_def)
  next
    case (Some txts)
    then obtain steps where "written_plan (w_plan (r_work r)) 0 txts = Inr steps" "r' = put_plan steps r"
      using assms(1) by (auto simp: apply_plan_def and_then_Inr_iff split: if_splits)
    then show ?thesis using assms(2) written_plan_marks
      unfolding proof_holds_def same by (fastforce simp: put_plan_def)
  qed
qed

lemma apply_tasks_proof:
  assumes "apply_tasks r up = Inr r'" "proof_holds r"
  shows "proof_holds r'"
proof -
  have same: "record_holds_result r' i = record_holds_result r i" for i
    using assms(1) by (intro holds_result_same writes_keep_harness_half)
  show ?thesis
  proof (cases "up_tasks up")
    case None
    then show ?thesis using assms by (simp add: apply_tasks_def)
  next
    case (Some ts)
    then obtain ws where "written_tasks (w_tasks (r_work r)) 0 ts = Inr ws" "r' = put_tasks ws r"
      using assms(1) by (auto simp: apply_tasks_def and_then_Inr_iff split: if_splits)
    then show ?thesis using assms(2) written_tasks_marks
      unfolding proof_holds_def same by (fastforce simp: put_tasks_def)
  qed
qed

lemma mark_step_proof:
  assumes "mark_step r n i = Inr r'" "proof_holds r"
  shows "proof_holds r'"
proof -
  have same: "record_holds_result r' j = record_holds_result r j" for j
    using assms(1) by (intro holds_result_same writes_keep_harness_half)
  have holds: "record_holds_result r i"
    and r': "r' = put_plan ((w_plan (r_work r))[nat n - 1 :=
      (w_plan (r_work r) ! (nat n - 1))\<lparr>ps_done := True, ps_result := i\<rparr>]) r"
    using assms(1) by (auto simp: mark_step_def Let_def split: if_splits)
  show ?thesis using assms(2) holds set_update_subset_insert
    unfolding proof_holds_def same by (fastforce simp: r' put_plan_def)
qed

definition marks_same :: "record_of_work \<Rightarrow> record_of_work \<Rightarrow> bool" where
  "marks_same r r' \<longleftrightarrow> g_done_when (r_goal r') = g_done_when (r_goal r)
     \<and> w_plan (r_work r') = w_plan (r_work r) \<and> w_tasks (r_work r') = w_tasks (r_work r)"

lemma marks_same_proof:
  "marks_same r r' \<Longrightarrow> harness_half_same r r' \<Longrightarrow> proof_holds r \<Longrightarrow> proof_holds r'"
  using proof_holds_mono[of r r'] holds_result_same[of r r'] by (simp add: marks_same_def)

lemma other_writes_marks:
  "apply_name r up = Inr r' \<Longrightarrow> marks_same r r'"
  "apply_why r up = Inr r' \<Longrightarrow> marks_same r r'"
  "apply_stop_when r up = Inr r' \<Longrightarrow> marks_same r r'"
  "apply_decision r up = Inr r' \<Longrightarrow> marks_same r r'"
  "apply_failure u r up = Inr r' \<Longrightarrow> marks_same r r'"
  by (auto simp: apply_defs marks_same_def set_goal_def put_defs Let_def
      split: if_splits option.splits)

lemma other_writes_proof:
  assumes "proof_holds r"
  shows "apply_name r up = Inr r' \<Longrightarrow> proof_holds r'"
    "apply_why r up = Inr r' \<Longrightarrow> proof_holds r'"
    "apply_stop_when r up = Inr r' \<Longrightarrow> proof_holds r'"
    "apply_decision r up = Inr r' \<Longrightarrow> proof_holds r'"
    "apply_failure u r up = Inr r' \<Longrightarrow> proof_holds r'"
  by (rule marks_same_proof[OF _ _ assms], erule other_writes_marks, erule writes_keep_harness_half)+

lemma apply_step_done_proof:
  "apply_step_done r up = Inr r' \<Longrightarrow> proof_holds r \<Longrightarrow> proof_holds r'"
  using mark_step_proof by (auto simp: apply_step_done_def split: option.splits if_splits)

lemma apply_update_proof:
  assumes "apply_update u r up = Inr r'" "proof_holds r"
  shows "proof_holds r' \<and> harness_half_same r r'"
  using assms
proof (rule apply_update_keeps)
  fix a b wr
  assume "proof_holds a" "wr \<in> set (the_writes u)" "wr a up = Inr b"
  note a = this
  then consider "wr = apply_name" | "wr = apply_why" | "wr = apply_done_when" | "wr = apply_stop_when"
    | "wr = apply_plan" | "wr = apply_step_done" | "wr = apply_tasks" | "wr = apply_decision"
    | "wr = apply_failure u"
    by (auto simp: the_writes_def)
  then show "proof_holds b"
    using a(1,3) other_writes_proof(1-4)[OF a(1), of up b]
      other_writes_proof(5)[OF a(1), of u up b] apply_done_when_proof[of a up b]
      apply_plan_proof[of a up b] apply_tasks_proof[of a up b] apply_step_done_proof[of a up b]
    by cases simp_all
qed

section \<open>What an update writes\<close>

text \<open>An update that goes through is the nine writes one after another.\<close>

lemma apply_update_steps:
  assumes "apply_update u r up = Inr r'"
  obtains r1 r2 r3 r4 r5 r6 r7 r8 where
    "apply_name r up = Inr r1" "apply_why r1 up = Inr r2" "apply_done_when r2 up = Inr r3"
    "apply_stop_when r3 up = Inr r4" "apply_plan r4 up = Inr r5" "apply_step_done r5 up = Inr r6"
    "apply_tasks r6 up = Inr r7" "apply_decision r7 up = Inr r8" "apply_failure u r8 up = Inr r'"
  using assms by (auto simp: apply_update_def and_then_Inr_iff)

definition lessons_same :: "record_of_work \<Rightarrow> record_of_work \<Rightarrow> bool" where
  "lessons_same r r' \<longleftrightarrow> r_lessons r' = r_lessons r"

lemma goal_writes_keep:
  "apply_name r up = Inr r' \<Longrightarrow> r_work r' = r_work r \<and> r_lessons r' = r_lessons r"
  "apply_why r up = Inr r' \<Longrightarrow> r_work r' = r_work r \<and> r_lessons r' = r_lessons r"
  "apply_done_when r up = Inr r' \<Longrightarrow> r_work r' = r_work r \<and> r_lessons r' = r_lessons r"
  "apply_stop_when r up = Inr r' \<Longrightarrow> r_work r' = r_work r \<and> r_lessons r' = r_lessons r"
  "apply_decision r up = Inr r' \<Longrightarrow> r_work r' = r_work r \<and> r_goal r' = r_goal r"
  "apply_failure u r up = Inr r' \<Longrightarrow> r_work r' = r_work r \<and> r_goal r' = r_goal r"
  by (auto simp: apply_defs set_goal_def put_defs and_then_Inr_iff Let_def
      split: if_splits option.splits)

lemma work_writes_keep:
  "apply_plan r up = Inr r' \<Longrightarrow> w_tasks (r_work r') = w_tasks (r_work r)
     \<and> r_lessons r' = r_lessons r \<and> r_goal r' = r_goal r"
  "apply_step_done r up = Inr r' \<Longrightarrow> w_tasks (r_work r') = w_tasks (r_work r)
     \<and> r_lessons r' = r_lessons r \<and> r_goal r' = r_goal r"
  "apply_tasks r up = Inr r' \<Longrightarrow> w_plan (r_work r') = w_plan (r_work r)
     \<and> r_lessons r' = r_lessons r \<and> r_goal r' = r_goal r"
  by (auto simp: apply_defs set_goal_def put_defs and_then_Inr_iff Let_def
      split: if_splits option.splits)

lemma job_task_labelled_grow:
  assumes "labels_grow parse_task_id (map jt_id ts)" "t \<in> set ts"
  shows "job_task_labelled ts (jt_id t) = Some t"
proof -
  have distinct: "distinct (map jt_id ts)"
  proof -
    let ?num = "\<lambda>t. number_or_zero (parse_task_id (jt_id t))"
    have "sorted_wrt (<) (map ?num ts)" using assms(1) by (simp add: labels_grow_def comp_def)
    then have "distinct (map ?num ts)" by (simp add: strict_sorted_iff)
    then have "distinct (map (\<lambda>i. number_or_zero (parse_task_id i)) (map jt_id ts))" by (simp add: comp_def)
    then show ?thesis using distinct_map by blast
  qed
  obtain i where i: "i < length ts" "ts ! i = t" using assms(2) by (auto simp: in_set_conv_nth)
  have "jt_id (ts ! j) \<noteq> jt_id t" if "j < i" for j
    using distinct that i nth_eq_iff_index_eq[OF distinct, of j i] by auto
  then show ?thesis using i by (auto simp: job_task_labelled_def find_Some_iff)
qed

lemma written_tasks_keep:
  assumes "written_tasks old n ts = Inr ws" "w \<in> set ws" "job_task_labelled old (jt_id w) = Some t" "jt_done t"
  shows "jt_done w \<and> jt_report w = jt_report t"
  using assms
proof (induction old n ts arbitrary: ws rule: written_tasks.induct)
  case (2 old n q ts)
  from 2(2) obtain k rest where k: "parse_task_id (nt_id q) = Some k" "nt_text q \<noteq> []" "\<not> k \<le> n"
    and rest: "written_tasks old k ts = Inr rest"
    and ws: "ws = (case job_task_labelled old (nt_id q) of
        None \<Rightarrow> \<lparr>jt_id = nt_id q, jt_text = nt_text q, jt_done = False, jt_report = [], jt_due = nt_due q\<rparr>
      | Some earlier \<Rightarrow>
          if jt_done earlier
          then \<lparr>jt_id = nt_id q, jt_text = nt_text q, jt_done = True, jt_report = jt_report earlier, jt_due = nt_due q\<rparr>
          else \<lparr>jt_id = nt_id q, jt_text = nt_text q, jt_done = False, jt_report = [], jt_due = nt_due q\<rparr>) # rest"
    by (auto simp: and_then_Inr_iff Let_def split: if_splits option.splits)
  show ?case
  proof (cases "w \<in> set rest")
    case True
    then show ?thesis using 2(1)[OF k(1,2,3) refl refl rest _ 2(4,5)] by simp
  next
    case False
    then have "w = hd ws" using 2(3) ws by simp
    moreover have "jt_id (hd ws) = nt_id q" using ws by (auto split: option.split)
    ultimately show ?thesis using 2(4,5) ws by simp
  qed
qed simp

text \<open>A finished task stays on the list, finished by the same report.\<close>

lemma finished_tasks_stay:
  assumes up: "apply_update u r up = Inr r'" and rules: "tasks_hold (w_tasks (r_work r))"
    and t: "t \<in> set (w_tasks (r_work r))" "jt_done t"
  shows "\<exists>t' \<in> set (w_tasks (r_work r')). jt_id t' = jt_id t \<and> jt_done t' \<and> jt_report t' = jt_report t"
proof -
  obtain r1 r2 r3 r4 r5 r6 r7 r8 where s:
    "apply_name r up = Inr r1" "apply_why r1 up = Inr r2" "apply_done_when r2 up = Inr r3"
    "apply_stop_when r3 up = Inr r4" "apply_plan r4 up = Inr r5" "apply_step_done r5 up = Inr r6"
    "apply_tasks r6 up = Inr r7" "apply_decision r7 up = Inr r8" "apply_failure u r8 up = Inr r'"
    using apply_update_steps[OF up] .
  have earlier: "w_tasks (r_work r6) = w_tasks (r_work r)"
    using goal_writes_keep(1)[OF s(1)] goal_writes_keep(2)[OF s(2)] goal_writes_keep(3)[OF s(3)]
      goal_writes_keep(4)[OF s(4)] work_writes_keep(1)[OF s(5)] work_writes_keep(2)[OF s(6)] by simp
  have after: "w_tasks (r_work r') = w_tasks (r_work r7)"
    using goal_writes_keep(5)[OF s(8)] goal_writes_keep(6)[OF s(9)] by simp
  show ?thesis
  proof (cases "up_tasks up")
    case None
    then have "r7 = r6" using s(7) by (simp add: apply_tasks_def)
    then show ?thesis using earlier after t by auto
  next
    case (Some ts)
    then obtain ws where ws: "written_tasks (w_tasks (r_work r)) 0 ts = Inr ws"
      and kept: "\<not> list_ex (\<lambda>b. jt_done b \<and> \<not> list_ex (\<lambda>t. jt_id t = jt_id b) ws) (w_tasks (r_work r))"
      and r7: "r7 = put_tasks ws r6"
      using s(7) by (auto simp: apply_tasks_def and_then_Inr_iff earlier split: if_splits)
    obtain w where w: "w \<in> set ws" "jt_id w = jt_id t"
      using kept t by (fastforce simp: list_ex_iff)
    have "job_task_labelled (w_tasks (r_work r)) (jt_id w) = Some t"
      using job_task_labelled_grow[OF _ t(1)] rules w(2) by (simp add: tasks_hold_def)
    then show ?thesis
      using written_tasks_keep[OF ws w(1) _ t(2)] w after r7 by (auto simp: put_tasks_def)
  qed
qed

text \<open>The name and the why stand once they are set.\<close>

lemma name_and_why_stand:
  assumes "apply_update u r up = Inr r'"
  shows "(g_name (r_goal r) \<noteq> [] \<longrightarrow> g_name (r_goal r') = g_name (r_goal r)) \<and>
    (g_why (r_goal r) \<noteq> [] \<longrightarrow> g_why (r_goal r') = g_why (r_goal r))"
proof -
  let ?I = "\<lambda>a. (g_name (r_goal r) \<noteq> [] \<longrightarrow> g_name (r_goal a) = g_name (r_goal r)) \<and>
    (g_why (r_goal r) \<noteq> [] \<longrightarrow> g_why (r_goal a) = g_why (r_goal r))"
  have "?I r' \<and> harness_half_same r r'"
  proof (rule apply_update_keeps[OF assms])
    fix a b wr
    assume a: "?I a" "wr \<in> set (the_writes u)" "wr a up = Inr b"
    then consider "wr = apply_name" | "wr = apply_why" | "wr = apply_done_when" | "wr = apply_stop_when"
      | "wr = apply_plan" | "wr = apply_step_done" | "wr = apply_tasks" | "wr = apply_decision"
      | "wr = apply_failure u"
      by (auto simp: the_writes_def)
    then show "?I b"
    proof cases
      case 1 with a show ?thesis by (auto simp: apply_name_def set_goal_def split: if_splits)
    next
      case 2 with a show ?thesis by (auto simp: apply_why_def set_goal_def split: if_splits)
    next
      case 3 with a show ?thesis
        by (auto simp: apply_done_when_def put_done_when_def and_then_Inr_iff split: if_splits option.splits)
    next
      case 4 with a show ?thesis
        by (auto simp: apply_stop_when_def put_stop_when_def split: if_splits option.splits)
    next
      case 5 with a show ?thesis using work_writes_keep(1)[of a up b] by simp
    next
      case 6 with a show ?thesis using work_writes_keep(2)[of a up b] by simp
    next
      case 7 with a show ?thesis using work_writes_keep(3)[of a up b] by simp
    next
      case 8 with a show ?thesis using goal_writes_keep(5)[of a up b] by simp
    next
      case 9 with a show ?thesis using goal_writes_keep(6)[of u a up b] by simp
    qed
  qed simp
  then show ?thesis by simp
qed

section \<open>Lessons\<close>

lemma apply_decision_bound:
  assumes "apply_decision r up = Inr r'" "length (l_decisions (r_lessons r)) \<le> max_decisions_kept"
  shows "length (l_decisions (r_lessons r')) \<le> max_decisions_kept"
  using assms the_newest_bound
  by (auto simp: apply_decision_def put_decisions_def Let_def split: if_splits option.splits)

lemma apply_failure_bound:
  assumes "apply_failure u r up = Inr r'" "length (l_failures (r_lessons r)) \<le> max_failures_kept"
  shows "length (l_failures (r_lessons r')) \<le> max_failures_kept"
  using assms the_newest_bound
  by (auto simp: apply_failure_def put_failures_def Let_def split: if_splits option.splits)

lemma failure_written:
  assumes "apply_failure u r up = Inr r'" "up_failure up = Some f"
  shows "\<exists>x \<in> set (l_failures (r_lessons r')).
    fa_text x = cut_to_a_lesson (nf_text f) \<and> fa_cause x = cut_to_a_lesson (nf_cause f)"
proof -
  obtain n where r': "l_failures (r_lessons r') = the_newest (l_failures (r_lessons r) @
      [\<lparr>fa_id = n, fa_text = cut_to_a_lesson (nf_text f), fa_cause = cut_to_a_lesson (nf_cause f)\<rparr>])
      max_failures_kept"
    using assms by (auto simp: apply_failure_def put_failures_def Let_def split: if_splits)
  let ?x = "\<lparr>fa_id = n, fa_text = cut_to_a_lesson (nf_text f), fa_cause = cut_to_a_lesson (nf_cause f)\<rparr>"
  have "last (l_failures (r_lessons r')) = ?x" "l_failures (r_lessons r') \<noteq> []"
    unfolding r' using the_newest_last[of max_failures_kept "l_failures (r_lessons r) @ [?x]"]
    by (simp_all add: max_failures_kept_def)
  then have "?x \<in> set (l_failures (r_lessons r'))" by (metis last_in_set)
  then show ?thesis by force
qed

text \<open>A failure once written is refused when it comes again, by its words or by its cause.\<close>

lemma failure_again_refused:
  assumes held: "x \<in> set (l_failures (r_lessons r))" and again: "up_failure up = Some f"
    and words: "nf_text f \<noteq> []" "nf_cause f \<noteq> []"
    and same: "fa_text x = cut_to_a_lesson (nf_text f) \<or> fa_cause x = cut_to_a_lesson (nf_cause f)"
  shows "apply_failure u r up = Inl (Breaks ErrFailureAlreadyWritten)"
proof (cases "list_ex (\<lambda>h. says_the_same u (cut_to_a_lesson (nf_text f)) (fa_text h)) (l_failures (r_lessons r))")
  case True
  then show ?thesis using again words by (simp add: apply_failure_def Let_def)
next
  case False
  then have "fa_cause x = cut_to_a_lesson (nf_cause f)"
    using held same by (auto simp: list_ex_iff)
  then have "failure_naming_the_cause u (l_failures (r_lessons r)) (nf_cause f) \<noteq> None"
    using held by (auto simp: failure_naming_the_cause_def Let_def find_None_iff)
  then show ?thesis using False again words by (simp add: apply_failure_def Let_def)
qed

end
