(* ===== verification/Job_Types.thy ===== *)
theory Job_Types
  imports Record_Types
begin

text \<open>
  The types of a job: \<open>internal/contract/job.go\<close>, and the state kept beside a job's record
  (\<open>internal/job/state.go\<close>, \<open>Incident\<close> of \<open>internal/job/notepad.go\<close>).

  A moment is the number of nanoseconds since Go's zero time, so \<open>IsZero\<close> is \<open>= 0\<close> and
  \<open>After\<close> and \<open>Before\<close> are the order. The zone a moment is shown in and the monotonic reading
  of the clock are not kept; what depends on the zone is asked of the machine (\<open>Job_Schedule\<close>). A
  length of time is its nanoseconds. The map from a task's label to its facts is an association list, a
  pointer that may be nil an option.
\<close>

type_synonym moment = int
type_synonym duration = int

section \<open>Schedules\<close>

type_synonym schedule_kind = string

definition schedule_at :: schedule_kind where "schedule_at = ''at''"
definition schedule_every :: schedule_kind where "schedule_every = ''every''"
definition schedule_cron :: schedule_kind where "schedule_cron = ''cron''"

lemma schedule_kinds_differ [simp]:
  "schedule_at \<noteq> schedule_every" "schedule_at \<noteq> schedule_cron" "schedule_every \<noteq> schedule_cron"
  "schedule_every \<noteq> schedule_at" "schedule_cron \<noteq> schedule_at" "schedule_cron \<noteq> schedule_every"
  by (simp_all add: schedule_at_def schedule_every_def schedule_cron_def)

record schedule =
  sc_kind :: schedule_kind
  sc_at :: moment
  sc_every :: duration
  sc_cron :: string
  sc_timezone :: string

section \<open>Where a job stands\<close>

type_synonym job_standing = string

definition job_running :: job_standing where "job_running = ''running''"
definition job_paused :: job_standing where "job_paused = ''paused''"
definition job_off :: job_standing where "job_off = ''off''"
definition job_done :: job_standing where "job_done = ''done''"

lemma job_standings_differ [simp]:
  "job_running \<noteq> job_paused" "job_running \<noteq> job_off" "job_running \<noteq> job_done"
  "job_paused \<noteq> job_running" "job_off \<noteq> job_running" "job_done \<noteq> job_running"
  "job_paused \<noteq> job_off" "job_paused \<noteq> job_done" "job_off \<noteq> job_done"
  "job_off \<noteq> job_paused" "job_done \<noteq> job_paused" "job_done \<noteq> job_off"
  "job_running \<noteq> []" "job_paused \<noteq> []" "job_off \<noteq> []" "job_done \<noteq> []"
  by (simp_all add: job_running_def job_paused_def job_off_def job_done_def)

definition record_status_of_job :: "job_standing \<Rightarrow> record_status" where
  "record_status_of_job s =
     (if s = job_paused then status_waiting
      else if s = job_off then status_stopped
      else if s = job_done then status_done
      else status_running)"

section \<open>What a job is asked\<close>

record new_job =
  nj_ask :: string
  nj_name :: string
  nj_why :: string
  nj_schedule :: "schedule option"
  nj_template :: string
  nj_done_when :: "string list"
  nj_rules :: "string list"
  nj_folder :: string

record new_task =
  nk_job :: string
  nk_text :: string
  nk_due :: moment

record task_to_run =
  tr_job :: string
  tr_task :: string
  tr_text :: string
  tr_unattended :: bool

record put_down_mark =
  pd_task :: task_to_run
  pd_run :: string
  pd_has_record :: bool
  pd_waiting :: bool
  pd_question :: string

definition run_number_of :: "string \<Rightarrow> int" where
  "run_number_of run = (case atoi run of None \<Rightarrow> 0 | Some n \<Rightarrow> n)"

record job_summary =
  jy_id :: string
  jy_title :: string
  jy_state :: job_standing
  jy_tasks_done :: nat
  jy_tasks_total :: nat
  jy_next_task :: string
  jy_next_due :: moment
  jy_last_run :: moment
  jy_next_run :: moment
  jy_failures :: int

record task_timing =
  ti_started :: moment
  ti_finished :: moment

record job_timing =
  jg_started :: moment
  jg_finished :: moment
  jg_tasks :: "(string \<times> task_timing) list"

definition project_folder_line :: string where "project_folder_line = ''project folder: ''"

section \<open>The state beside the record\<close>

record incident =
  in_signature :: string
  in_error :: string
  in_first_seen :: moment
  in_last_seen :: moment
  in_count :: int

record task_facts =
  tf_due :: moment
  tf_unattended :: bool
  tf_picked_up :: bool
  tf_deferred :: bool
  tf_started :: moment
  tf_finished :: moment

definition no_facts :: task_facts where
  "no_facts = \<lparr>tf_due = 0, tf_unattended = False, tf_picked_up = False, tf_deferred = False,
     tf_started = 0, tf_finished = 0\<rparr>"

record job_state =
  jb_state :: job_standing
  jb_schedule :: "schedule option"
  jb_template :: string
  jb_monitor :: bool
  jb_failures :: int
  jb_keep_running :: bool
  jb_started :: moment
  jb_finished :: moment
  jb_last_run :: moment
  jb_next_run :: moment
  jb_backoff :: duration
  jb_output_hash :: string
  jb_output_report :: string
  jb_incidents :: "incident list"
  jb_tasks :: "(string \<times> task_facts) list"
  jb_put_down :: "put_down_mark option"
  jb_notepad :: string

definition no_job_state :: job_state where
  "no_job_state = \<lparr>jb_state = [], jb_schedule = None, jb_template = [], jb_monitor = False,
     jb_failures = 0, jb_keep_running = False, jb_started = 0, jb_finished = 0, jb_last_run = 0,
     jb_next_run = 0, jb_backoff = 0, jb_output_hash = [], jb_output_report = [], jb_incidents = [],
     jb_tasks = [], jb_put_down = None, jb_notepad = []\<rparr>"

definition state_facts :: "job_state \<Rightarrow> string \<Rightarrow> task_facts" where
  "state_facts st task = (case map_of (jb_tasks st) task of None \<Rightarrow> no_facts | Some f \<Rightarrow> f)"

fun put_facts :: "string \<Rightarrow> task_facts \<Rightarrow> (string \<times> task_facts) list \<Rightarrow> (string \<times> task_facts) list" where
  "put_facts task f [] = [(task, f)]"
| "put_facts task f ((i, g) # fs) = (if i = task then (i, f) # fs else (i, g) # put_facts task f fs)"

definition with_task :: "string \<Rightarrow> task_facts \<Rightarrow> job_state \<Rightarrow> job_state" where
  "with_task task f st = st\<lparr>jb_tasks := put_facts task f (jb_tasks st)\<rparr>"

lemma map_of_put_facts [simp]: "map_of (put_facts t f fs) = (map_of fs)(t \<mapsto> f)"
  by (induction t f fs rule: put_facts.induct) auto

lemma facts_with_task [simp]:
  "state_facts (with_task t f st) i = (if i = t then f else state_facts st i)"
  by (simp add: state_facts_def with_task_def)

lemma with_task_same [simp]:
  "jb_state (with_task t f st) = jb_state st" "jb_schedule (with_task t f st) = jb_schedule st"
  "jb_template (with_task t f st) = jb_template st" "jb_monitor (with_task t f st) = jb_monitor st"
  "jb_failures (with_task t f st) = jb_failures st" "jb_keep_running (with_task t f st) = jb_keep_running st"
  "jb_started (with_task t f st) = jb_started st" "jb_finished (with_task t f st) = jb_finished st"
  "jb_last_run (with_task t f st) = jb_last_run st" "jb_next_run (with_task t f st) = jb_next_run st"
  "jb_backoff (with_task t f st) = jb_backoff st" "jb_output_hash (with_task t f st) = jb_output_hash st"
  "jb_output_report (with_task t f st) = jb_output_report st" "jb_incidents (with_task t f st) = jb_incidents st"
  "jb_put_down (with_task t f st) = jb_put_down st" "jb_notepad (with_task t f st) = jb_notepad st"
  by (simp_all add: with_task_def)

section \<open>One change in the log\<close>

definition state_marker :: string where "state_marker = ''job state''"

record state_event =
  se_marker :: string
  se_snapshot :: "job_state option"
  se_note :: string

end
