(* ===== verification/Event_Log.thy ===== *)
theory Event_Log
  imports Record_Update Job_Types
begin

text \<open>
  \<open>internal/log\<close> and the interface \<open>contract.Store\<close>: the append-only table of events.
  The file is a list of rows and the number the next row gets (the key is \<open>AUTOINCREMENT\<close>, so it
  is one above every number ever given). What the database answers is outside the sources: each call
  takes the next entry of a script, \<open>True\<close> for an answer and \<open>False\<close> for a refusal, and an
  empty script answers.

  The body of an event is JSON. It is kept as what its readers get of it: whether it is JSON at all,
  and what it unmarshals to as a checkpoint and as a stored result (\<open>internal/record\<close>), as a change
  of a job's state, and as the id of a message (\<open>internal/job\<close>).
  \<open>encoding/json\<close> writes a string as its runes, U+FFFD for a byte that is no part of one, and
  reads back what it wrote (\<open>json_text\<close>). The moment of an event is kept only as whether it reads.
\<close>

section \<open>Bodies\<close>

definition json_text :: "string \<Rightarrow> string" where
  "json_text s = text_of_runes (runes s)"

record checkpoint =
  cp_number :: int
  cp_text :: string
  cp_ask_from :: int

record stored_result =
  sr_id :: string
  sr_call_id :: string
  sr_summary :: string
  sr_text :: string

record event_body =
  b_is_json :: bool
  b_checkpoint :: "checkpoint option"
  b_result :: "stored_result option"
  b_state :: "state_event option"
  b_message :: "string option"

text \<open>The bodies \<open>json.Marshal\<close> writes. An object with a \<open>text\<close> of its own also reads as the
  other of the two, with the other fields at their zero values; one without the marker of a job's state
  reads as a change that is none.\<close>

definition no_state_event :: state_event where
  "no_state_event = \<lparr>se_marker = [], se_snapshot = None, se_note = []\<rparr>"

definition checkpoint_body :: "checkpoint \<Rightarrow> event_body" where
  "checkpoint_body c =
     \<lparr>b_is_json = True, b_checkpoint = Some (c\<lparr>cp_text := json_text (cp_text c)\<rparr>),
      b_result = Some \<lparr>sr_id = [], sr_call_id = [], sr_summary = [], sr_text = json_text (cp_text c)\<rparr>,
      b_state = Some no_state_event, b_message = Some []\<rparr>"

definition result_body :: "stored_result \<Rightarrow> event_body" where
  "result_body s =
     \<lparr>b_is_json = True,
      b_checkpoint = Some \<lparr>cp_number = 0, cp_text = json_text (sr_text s), cp_ask_from = 0\<rparr>,
      b_result = Some \<lparr>sr_id = json_text (sr_id s), sr_call_id = json_text (sr_call_id s),
        sr_summary = json_text (sr_summary s), sr_text = json_text (sr_text s)\<rparr>,
      b_state = Some no_state_event, b_message = Some (json_text (sr_id s))\<rparr>"

section \<open>Events and rows\<close>

type_synonym event_kind = string

definition event_message :: event_kind where "event_message = ''message''"
definition event_tool_call :: event_kind where "event_tool_call = ''tool call''"
definition event_tool_result :: event_kind where "event_tool_result = ''tool result''"
definition event_permission :: event_kind where "event_permission = ''permission decision''"
definition event_file_change :: event_kind where "event_file_change = ''file change''"
definition event_record_change :: event_kind where "event_record_change = ''record change''"
definition event_checkpoint :: event_kind where "event_checkpoint = ''checkpoint''"
definition event_reply :: event_kind where "event_reply = ''reply''"
definition event_question :: event_kind where "event_question = ''question''"

lemmas event_kind_defs = event_message_def event_tool_call_def event_tool_result_def
  event_permission_def event_file_change_def event_record_change_def event_checkpoint_def
  event_reply_def event_question_def

definition known_event_kind :: "event_kind \<Rightarrow> bool" where
  "known_event_kind k \<longleftrightarrow>
     k \<in> {event_message, event_tool_call, event_tool_result, event_permission, event_file_change,
          event_record_change, event_checkpoint, event_reply, event_question}"

record event =
  ev_sequence :: int
  ev_task :: string
  ev_kind :: event_kind
  ev_body :: event_body

record row =
  rw_sequence :: int
  rw_time_reads :: bool
  rw_task :: string
  rw_kind :: string
  rw_body :: event_body

definition decode_event :: "row \<Rightarrow> record_error + event" where
  "decode_event w =
     (if rw_sequence w < 1 then Inl Unnamed
      else if \<not> rw_time_reads w then Inl Unnamed
      else if \<not> known_event_kind (rw_kind w) then Inl Unnamed
      else if \<not> b_is_json (rw_body w) then Inl Unnamed
      else Inr \<lparr>ev_sequence = rw_sequence w, ev_task = rw_task w, ev_kind = rw_kind w,
             ev_body = rw_body w\<rparr>)"

record event_log =
  lg_rows :: "row list"
  lg_next :: int
  lg_answers :: "bool list"

definition empty_log :: "bool list \<Rightarrow> event_log" where
  "empty_log answers = \<lparr>lg_rows = [], lg_next = 1, lg_answers = answers\<rparr>"

definition answers_now :: "event_log \<Rightarrow> bool" where
  "answers_now lg \<longleftrightarrow> lg_answers lg = [] \<or> hd (lg_answers lg)"

definition one_call_later :: "event_log \<Rightarrow> event_log" where
  "one_call_later lg = lg\<lparr>lg_answers := tl (lg_answers lg)\<rparr>"

section \<open>Append\<close>

definition log_append :: "event_log \<Rightarrow> event \<Rightarrow> (record_error + int) \<times> event_log" where
  "log_append lg e =
     (if \<not> known_event_kind (ev_kind e) then (Inl Unnamed, lg)
      else if \<not> b_is_json (ev_body e) then (Inl Unnamed, lg)
      else if \<not> answers_now lg \<or> max_int < lg_next lg then (Inl LogRefused, one_call_later lg)
      else (Inr (lg_next lg),
            (one_call_later lg)\<lparr>lg_rows := lg_rows lg @ [\<lparr>rw_sequence = lg_next lg, rw_time_reads = True,
                 rw_task = ev_task e, rw_kind = ev_kind e, rw_body = ev_body e\<rparr>],
               lg_next := lg_next lg + 1\<rparr>))"

section \<open>Reads\<close>

definition max_events_per_read :: nat where "max_events_per_read = 10000"

text \<open>\<open>boundedLimit\<close>.\<close>

definition bounded_limit :: "int \<Rightarrow> nat" where
  "bounded_limit limit =
     (if limit < 1 \<or> int max_events_per_read < limit then max_events_per_read else nat limit)"

fun decode_rows :: "row list \<Rightarrow> record_error + event list" where
  "decode_rows [] = Inr []"
| "decode_rows (w # ws) =
     and_then (decode_event w) (\<lambda>e. and_then (decode_rows ws) (\<lambda>es. Inr (e # es)))"

text \<open>
  \<open>events\<close>: one row more than the limit is asked for, and an answer that fills it comes back cut,
  with an error beside it. The rows are in the order of their numbers (\<open>ORDER BY sequence\<close>).
\<close>

definition log_events ::
  "event_log \<Rightarrow> (row \<Rightarrow> bool) \<Rightarrow> int \<Rightarrow> (event list \<times> record_error option) \<times> event_log" where
  "log_events lg condition limit =
     (let bounded = bounded_limit limit;
          found_rows = take (bounded + 1) (filter condition (sort_key rw_sequence (lg_rows lg)))
      in (if \<not> answers_now lg then ([], Some LogRefused)
          else (case decode_rows found_rows of
                  Inl e \<Rightarrow> ([], Some e)
                | Inr found \<Rightarrow>
                    if bounded < length found then (take bounded found, Some Unnamed) else (found, None)),
          one_call_later lg))"

definition by_task :: "event_log \<Rightarrow> string \<Rightarrow> (event list \<times> record_error option) \<times> event_log" where
  "by_task lg task =
     (if task = [] then (([], Some Unnamed), lg)
      else log_events lg (\<lambda>w. rw_task w = task) (int max_events_per_read))"

definition by_kind :: "event_log \<Rightarrow> event_kind \<Rightarrow> (event list \<times> record_error option) \<times> event_log" where
  "by_kind lg kind =
     (if \<not> known_event_kind kind then (([], Some Unnamed), lg)
      else log_events lg (\<lambda>w. rw_kind w = kind) (int max_events_per_read))"

definition by_range :: "event_log \<Rightarrow> int \<Rightarrow> int \<Rightarrow> (event list \<times> record_error option) \<times> event_log" where
  "by_range lg from_number to_number =
     (if from_number < 1 then (([], Some Unnamed), lg)
      else if to_number < from_number then (([], Some Unnamed), lg)
      else log_events lg (\<lambda>w. from_number \<le> rw_sequence w \<and> rw_sequence w \<le> to_number)
             (int max_events_per_read))"

definition by_id :: "event_log \<Rightarrow> int \<Rightarrow> (record_error + event) \<times> event_log" where
  "by_id lg number =
     (if number < 1 then (Inl Unnamed, lg)
      else (if \<not> answers_now lg then Inl LogRefused
            else (case find (\<lambda>w. rw_sequence w = number) (lg_rows lg) of
                    None \<Rightarrow> Inl Unnamed | Some w \<Rightarrow> decode_event w),
            one_call_later lg))"

text \<open>\<open>Replay\<close>: the rows one at a time, the hand's error first and then the context's.\<close>

fun replay_rows ::
  "('s \<Rightarrow> event \<Rightarrow> record_error + 's) \<Rightarrow> ('s \<Rightarrow> bool) \<Rightarrow> 's \<Rightarrow> row list \<Rightarrow> record_error + 's" where
  "replay_rows hand cancelled s [] = Inr s"
| "replay_rows hand cancelled s (w # ws) =
     and_then (decode_event w) (\<lambda>e.
     and_then (hand s e) (\<lambda>t.
       if cancelled t then Inl LogRefused else replay_rows hand cancelled t ws))"

definition log_replay ::
  "('s \<Rightarrow> event \<Rightarrow> record_error + 's) \<Rightarrow> ('s \<Rightarrow> bool) \<Rightarrow> 's \<Rightarrow> event_log \<Rightarrow> (record_error + 's) \<times> event_log"
where
  "log_replay hand cancelled s lg =
     (if answers_now lg then replay_rows hand cancelled s (sort_key rw_sequence (lg_rows lg))
      else Inl LogRefused, one_call_later lg)"

section \<open>The rows of a log that was only appended to\<close>

definition sound_row :: "row \<Rightarrow> bool" where
  "sound_row w \<longleftrightarrow> 1 \<le> rw_sequence w \<and> rw_time_reads w \<and> known_event_kind (rw_kind w) \<and> b_is_json (rw_body w)"

definition sound_log :: "event_log \<Rightarrow> bool" where
  "sound_log lg \<longleftrightarrow> list_all sound_row (lg_rows lg) \<and> sorted_wrt (<) (map rw_sequence (lg_rows lg))
     \<and> list_all (\<lambda>w. rw_sequence w < lg_next lg) (lg_rows lg) \<and> 1 \<le> lg_next lg"

definition row_event :: "row \<Rightarrow> event" where
  "row_event w = \<lparr>ev_sequence = rw_sequence w, ev_task = rw_task w, ev_kind = rw_kind w, ev_body = rw_body w\<rparr>"

definition log_contents :: "event_log \<Rightarrow> event list" where
  "log_contents lg = map row_event (lg_rows lg)"

lemma sound_empty [simp]: "sound_log (empty_log answers)"
  by (simp add: sound_log_def empty_log_def)

lemma sound_one_call_later [simp]: "sound_log (one_call_later lg) = sound_log lg"
  by (simp add: sound_log_def one_call_later_def)

lemma contents_one_call_later [simp]: "log_contents (one_call_later lg) = log_contents lg"
  by (simp add: log_contents_def one_call_later_def)

lemma append_sound:
  assumes "sound_log lg"
  shows "sound_log (snd (log_append lg e))"
  using assms
  by (auto simp: log_append_def sound_log_def one_call_later_def sound_row_def sorted_wrt_append
      list_all_iff)

lemma append_Inr:
  assumes "log_append lg e = (Inr n, lg')"
  shows "lg_rows lg' = lg_rows lg @ [\<lparr>rw_sequence = n, rw_time_reads = True, rw_task = ev_task e,
      rw_kind = ev_kind e, rw_body = ev_body e\<rparr>] \<and> n = lg_next lg \<and> lg_next lg' = n + 1
    \<and> log_contents lg' = log_contents lg @ [e\<lparr>ev_sequence := n\<rparr>]"
  using assms by (auto simp: log_append_def log_contents_def row_event_def split: if_splits)

lemma append_Inl:
  assumes "log_append lg e = (Inl err, lg')"
  shows "lg_rows lg' = lg_rows lg \<and> lg_next lg' = lg_next lg \<and> log_contents lg' = log_contents lg"
  using assms by (auto simp: log_append_def one_call_later_def log_contents_def split: if_splits)

lemma decode_sound: "sound_row w \<Longrightarrow> decode_event w = Inr (row_event w)"
  by (auto simp: sound_row_def decode_event_def row_event_def)

lemma decode_rows_sound: "list_all sound_row ws \<Longrightarrow> decode_rows ws = Inr (map row_event ws)"
  by (induction ws) (simp_all add: decode_sound)

lemma sorted_rows: "sound_log lg \<Longrightarrow> sort_key rw_sequence (lg_rows lg) = lg_rows lg"
proof -
  assume "sound_log lg"
  then have "sorted (map rw_sequence (lg_rows lg))" by (simp add: sound_log_def strict_sorted_iff)
  then show ?thesis by (simp add: sort_key_id_if_sorted)
qed

lemma list_all_filter: "list_all P xs \<Longrightarrow> list_all P (filter Q xs)"
  by (auto simp: list_all_iff)

text \<open>A list read gives everything that matches, in order, or says that it does not.\<close>

lemma log_events_sound:
  assumes "sound_log lg"
  shows "fst (log_events lg cond limit) =
    (let matching = map row_event (filter cond (lg_rows lg)) in
     if \<not> answers_now lg then ([], Some LogRefused)
     else if bounded_limit limit < length matching then (take (bounded_limit limit) matching, Some Unnamed)
     else (matching, None))"
proof -
  let ?ws = "take (bounded_limit limit + 1) (filter cond (lg_rows lg))"
  have "list_all sound_row ?ws"
    using assms by (intro list_all_take list_all_filter) (simp add: sound_log_def)
  then have "decode_rows ?ws = Inr (map row_event ?ws)" by (rule decode_rows_sound)
  then show ?thesis
    by (simp add: log_events_def Let_def sorted_rows[OF assms] take_map min_def)
qed

lemma log_events_log: "snd (log_events lg cond limit) = one_call_later lg"
  by (simp add: log_events_def Let_def)

lemma by_task_log: "lg_rows (snd (by_task lg t)) = lg_rows lg \<and> lg_next (snd (by_task lg t)) = lg_next lg"
  by (simp add: by_task_def log_events_log one_call_later_def)

lemma bounded_limit_max [simp]: "bounded_limit (int max_events_per_read) = max_events_per_read"
  by (simp add: bounded_limit_def max_events_per_read_def)

lemma map_filter_event: "map row_event (filter (\<lambda>w. rw_task w = t) ws) = filter (\<lambda>e. ev_task e = t) (map row_event ws)"
  by (induction ws) (simp_all add: row_event_def)

lemma by_task_answer:
  assumes "sound_log lg" "by_task lg t = ((es, None), lg')"
  shows "es = filter (\<lambda>e. ev_task e = t) (log_contents lg) \<and> length es \<le> max_events_per_read"
  using assms log_events_sound[OF assms(1), of "\<lambda>w. rw_task w = t" "int max_events_per_read"]
  by (auto simp: by_task_def Let_def map_filter_event log_contents_def split: if_splits)

section \<open>The store behind a record\<close>

text \<open>
  What \<open>internal/record\<close> relies on of its store: an event appended is the last of the contents and
  nothing else changes, a refused one changes nothing, and a read changes nothing and gives, when it
  answers, every event of the task in order.
\<close>

locale event_store =
  fixes ok :: "'l \<Rightarrow> bool"
    and contents :: "'l \<Rightarrow> event list"
    and app :: "'l \<Rightarrow> event \<Rightarrow> (record_error + int) \<times> 'l"
    and task_events :: "'l \<Rightarrow> string \<Rightarrow> (event list \<times> record_error option) \<times> 'l"
  assumes app_ok: "ok l \<Longrightarrow> ok (snd (app l e))"
    and app_Inr: "ok l \<Longrightarrow> app l e = (Inr n, l') \<Longrightarrow> contents l' = contents l @ [e\<lparr>ev_sequence := n\<rparr>]"
    and app_Inl: "ok l \<Longrightarrow> app l e = (Inl err, l') \<Longrightarrow> contents l' = contents l"
    and app_grows: "ok l \<Longrightarrow> app l e = (Inr n, l') \<Longrightarrow> \<forall>x \<in> set (contents l). ev_sequence x < n"
    and task_ok: "ok l \<Longrightarrow> ok (snd (task_events l t))"
    and task_same: "ok l \<Longrightarrow> contents (snd (task_events l t)) = contents l"
    and task_answer: "ok l \<Longrightarrow> task_events l t = ((es, None), l') \<Longrightarrow>
      es = filter (\<lambda>e. ev_task e = t) (contents l)"
begin

lemma app_prefix: "ok l \<Longrightarrow> prefix (contents l) (contents (snd (app l e)))"
proof -
  assume ok: "ok l"
  show ?thesis
  proof (cases "app l e")
    case (Pair r l')
    then show ?thesis using app_Inr[OF ok] app_Inl[OF ok] by (cases r) auto
  qed
qed

lemma app_then_read:
  assumes "ok l" "app l e = (Inr n, l')" "task_events l' t = ((es, None), l'')"
  shows "es = filter (\<lambda>e. ev_task e = t) (contents l) @ (if ev_task e = t then [e\<lparr>ev_sequence := n\<rparr>] else [])"
proof -
  have "ok l'" using app_ok[OF assms(1), of e] assms(2) by simp
  then show ?thesis using task_answer[OF _ assms(3)] app_Inr[OF assms(1,2)] by simp
qed

text \<open>A sequence of appends, refused or not, only lengthens the contents.\<close>

fun app_all :: "'l \<Rightarrow> event list \<Rightarrow> 'l" where
  "app_all l [] = l"
| "app_all l (e # es) = app_all (snd (app l e)) es"

lemma app_all_prefix: "ok l \<Longrightarrow> ok (app_all l es) \<and> prefix (contents l) (contents (app_all l es))"
proof (induction es arbitrary: l)
  case (Cons e es)
  then have "ok (snd (app l e))" by (simp add: app_ok)
  then show ?case using Cons app_prefix[of l e] by (auto intro: prefix_order.trans)
qed simp

end

interpretation log_store: event_store sound_log log_contents log_append by_task
proof
  fix l :: event_log and e n l' err t es
  assume ok: "sound_log l"
  show "sound_log (snd (log_append l e))" using ok by (rule append_sound)
  show "log_append l e = (Inr n, l') \<Longrightarrow> log_contents l' = log_contents l @ [e\<lparr>ev_sequence := n\<rparr>]"
    using append_Inr[of l e n l'] by simp
  show "log_append l e = (Inl err, l') \<Longrightarrow> log_contents l' = log_contents l"
    using append_Inl[of l e err l'] by simp
  show "log_append l e = (Inr n, l') \<Longrightarrow> \<forall>x \<in> set (log_contents l). ev_sequence x < n"
    using append_Inr[of l e n l'] ok
    by (auto simp: sound_log_def log_contents_def row_event_def list_all_iff)
  show "sound_log (snd (by_task l t))" using ok by (simp add: by_task_def log_events_log)
  show "log_contents (snd (by_task l t)) = log_contents l" by (simp add: by_task_def log_events_log)
  show "by_task l t = ((es, None), l') \<Longrightarrow> es = filter (\<lambda>e. ev_task e = t) (log_contents l)"
    using by_task_answer[OF ok, of t es l'] by simp
qed

end
