(* ===== verification/Record_Keeper.thy ===== *)
theory Record_Keeper
  imports Event_Log
begin

text \<open>
  \<open>keeper.go\<close>, \<open>checkpoint.go\<close>, \<open>harness.go\<close>, \<open>reports.go\<close> and the two
  methods of \<open>donecheck.go\<close> and \<open>model.go\<close> that go through the keeper. A keeper and the log
  behind it are passed along; every method gives its answer, the keeper and the log afterwards, also
  when it fails. A nil store has no counterpart.
\<close>

record keeper =
  kp_record :: record_of_work
  kp_checkpoint :: int
  kp_ask_from :: int
  kp_once_per_round :: bool
  kp_unsaved :: bool

type_synonym 'a answer = "(record_error + 'a) \<times> keeper \<times> event_log"

section \<open>Checks before a change\<close>

definition check_it_reads_back :: "record_of_work \<Rightarrow> record_error + unit" where
  "check_it_reads_back held =
     (case parse_record (print_whole held) of
        Inl e \<Rightarrow> Inl e
      | Inr read \<Rightarrow> if read \<noteq> held then Inl Unnamed else Inr ())"

section \<open>Saving\<close>

definition ask_held_elsewhere :: string where
  "ask_held_elsewhere = ''(the ask is in the checkpoint this one names)''"

definition with_the_ask_standing_in :: "record_of_work \<Rightarrow> record_of_work" where
  "with_the_ask_standing_in held = held\<lparr>r_goal := (r_goal held)\<lparr>g_ask := ask_held_elsewhere\<rparr>\<rparr>"

definition keeper_kind :: "keeper \<Rightarrow> record_kind" where
  "keeper_kind k = h_kind (r_header (kp_record k))"

definition keeper_id :: "keeper \<Rightarrow> string" where
  "keeper_id k = h_id (r_header (kp_record k))"

definition log_key :: "keeper \<Rightarrow> string" where
  "log_key k = record_log_key (keeper_kind k) (keeper_id k)"

definition keeper_text :: "keeper \<Rightarrow> string" where
  "keeper_text k = print_whole (kp_record k)"

definition new_event :: "string \<Rightarrow> event_kind \<Rightarrow> event_body \<Rightarrow> event" where
  "new_event task kind body = \<lparr>ev_sequence = 0, ev_task = task, ev_kind = kind, ev_body = body\<rparr>"

definition next_checkpoint :: "keeper \<Rightarrow> checkpoint" where
  "next_checkpoint k =
     \<lparr>cp_number = wrap64 (kp_checkpoint k + 1),
      cp_text = (if kp_ask_from k \<noteq> 0 then print_whole (with_the_ask_standing_in (kp_record k))
                 else print_whole (kp_record k)),
      cp_ask_from = kp_ask_from k\<rparr>"

definition save :: "keeper \<Rightarrow> event_log \<Rightarrow> unit answer" where
  "save k lg =
     (let c = next_checkpoint k in
      case log_append lg (new_event (log_key k) event_checkpoint (checkpoint_body c)) of
        (Inl e, lg') \<Rightarrow> (Inl e, k, lg')
      | (Inr _, lg') \<Rightarrow>
          (Inr (), k\<lparr>kp_checkpoint := cp_number c, kp_unsaved := False,
                     kp_ask_from := (if kp_ask_from k = 0 then cp_number c else kp_ask_from k)\<rparr>, lg'))"

definition save_once_per_round :: "keeper \<Rightarrow> keeper" where
  "save_once_per_round k = k\<lparr>kp_once_per_round := True\<rparr>"

definition save_the_round :: "keeper \<Rightarrow> event_log \<Rightarrow> unit answer" where
  "save_the_round k lg = (if \<not> kp_unsaved k then (Inr (), k, lg) else save k lg)"

section \<open>A new record\<close>

record start_of_record =
  st_kind :: record_kind
  st_id :: string
  st_origin :: string
  st_ask :: string
  st_rounds_left :: int
  st_no_round_budget :: bool
  st_minutes_left :: int
  st_no_time_budget :: bool

record budget =
  bu_rounds_left :: int
  bu_no_round_budget :: bool
  bu_minutes_left :: int
  bu_no_time_budget :: bool

definition kept :: "budget \<Rightarrow> budget" where
  "kept left = left\<lparr>bu_rounds_left := (if bu_no_round_budget left then 0 else bu_rounds_left left),
     bu_minutes_left := (if bu_no_time_budget left then 0 else bu_minutes_left left)\<rparr>"

definition put_budget :: "budget \<Rightarrow> header \<Rightarrow> header" where
  "put_budget left h = h\<lparr>h_rounds_left := bu_rounds_left left, h_no_round_budget := bu_no_round_budget left,
     h_minutes_left := bu_minutes_left left, h_no_time_budget := bu_no_time_budget left\<rparr>"

definition start_header :: "start_of_record \<Rightarrow> header" where
  "start_header st =
     (let h = empty_header\<lparr>h_kind := st_kind st, h_id := st_id st, h_status := status_running,
                h_origin := st_origin st\<rparr>
      in if st_kind st = record_task
         then put_budget (kept \<lparr>bu_rounds_left = st_rounds_left st,
                bu_no_round_budget = st_no_round_budget st, bu_minutes_left = st_minutes_left st,
                bu_no_time_budget = st_no_time_budget st\<rparr>) h
         else h)"

definition start_record :: "start_of_record \<Rightarrow> record_of_work" where
  "start_record st = empty_record\<lparr>r_header := start_header st, r_goal := empty_goal\<lparr>g_ask := st_ask st\<rparr>\<rparr>"

definition new_keeper :: "start_of_record \<Rightarrow> event_log \<Rightarrow> (record_error + keeper) \<times> event_log" where
  "new_keeper st lg =
     (if st_kind st \<noteq> record_task \<and> st_kind st \<noteq> record_job then (Inl Unnamed, lg)
      else if read_count (st_id st) = None then (Inl Unnamed, lg)
      else if st_ask st = [] then (Inl Unnamed, lg)
      else if st_rounds_left st < 0 \<or> st_minutes_left st < 0 then (Inl Unnamed, lg)
      else
        let k = \<lparr>kp_record = start_record st, kp_checkpoint = 0, kp_ask_from = 0,
                 kp_once_per_round = False, kp_unsaved = False\<rparr>
        in (case check_it_reads_back (kp_record k) of
              Inl e \<Rightarrow> (Inl e, lg)
            | Inr _ \<Rightarrow>
                (case save k lg of
                   (Inl e, _, lg') \<Rightarrow> (Inl e, lg')
                 | (Inr _, k', lg') \<Rightarrow> (Inr k', lg'))))"

section \<open>A change\<close>

definition change_or_wait ::
  "(record_of_work \<Rightarrow> record_error + record_of_work) \<Rightarrow> bool \<Rightarrow> keeper \<Rightarrow> event_log \<Rightarrow> unit answer" where
  "change_or_wait change_it wait k lg =
     (case and_then (change_it (kp_record k)) (\<lambda>changing.
             and_then (check_it_reads_back changing) (\<lambda>_.
             let trimmed = trim_the_results_to_fit changing
             in and_then (check_it_still_fits trimmed) (\<lambda>_. Inr trimmed))) of
        Inl e \<Rightarrow> (Inl e, k, lg)
      | Inr changed \<Rightarrow>
          let k' = k\<lparr>kp_record := changed\<rparr> in
          if wait then (Inr (), k'\<lparr>kp_unsaved := True\<rparr>, lg)
          else (case save k' lg of
                  (Inl e, k'', lg') \<Rightarrow> (Inl e, k''\<lparr>kp_record := kp_record k\<rparr>, lg')
                | (Inr _, k'', lg') \<Rightarrow> (Inr (), k'', lg')))"

definition change_it_now ::
  "(record_of_work \<Rightarrow> record_error + record_of_work) \<Rightarrow> keeper \<Rightarrow> event_log \<Rightarrow> unit answer" where
  "change_it_now f k lg = change_or_wait f (kp_once_per_round k) k lg"

definition change_and_save ::
  "(record_of_work \<Rightarrow> record_error + record_of_work) \<Rightarrow> keeper \<Rightarrow> event_log \<Rightarrow> unit answer" where
  "change_and_save f k lg = change_or_wait f False k lg"

definition keeper_apply :: "unicode_tables \<Rightarrow> update \<Rightarrow> keeper \<Rightarrow> event_log \<Rightarrow> unit answer" where
  "keeper_apply u up k lg =
     (if nothing_to_write up then (Inr (), k, lg)
      else change_it_now (\<lambda>r. apply_update u r up) k lg)"

section \<open>The harness's half\<close>

definition must_be :: "record_kind \<Rightarrow> keeper \<Rightarrow> bool" where
  "must_be kind k \<longleftrightarrow> keeper_kind k = kind"

definition set_header :: "(header \<Rightarrow> header) \<Rightarrow> record_of_work \<Rightarrow> record_of_work" where
  "set_header f r = r\<lparr>r_header := f (r_header r)\<rparr>"

definition set_budget :: "budget \<Rightarrow> keeper \<Rightarrow> event_log \<Rightarrow> unit answer" where
  "set_budget left k lg =
     (if \<not> must_be record_task k then (Inl (Breaks ErrWrongKind), k, lg)
      else change_it_now (\<lambda>r.
        if bu_rounds_left left < 0 \<or> bu_minutes_left left < 0 then Inl Unnamed
        else Inr (set_header (put_budget (kept left)) r)) k lg)"

definition set_cost :: "cost_line \<Rightarrow> keeper \<Rightarrow> event_log \<Rightarrow> unit answer" where
  "set_cost cost k lg =
     (if \<not> must_be record_task k then (Inl (Breaks ErrWrongKind), k, lg)
      else change_it_now (\<lambda>r.
        if input_tokens cost < 0 \<or> cached_input_tokens cost < 0 \<or> output_tokens cost < 0 then Inl Unnamed
        else Inr (set_header (\<lambda>h. h\<lparr>h_cost :=
               \<lparr>input_tokens = round_to_hundred (input_tokens cost),
                cached_input_tokens = round_to_hundred (cached_input_tokens cost),
                output_tokens = round_to_hundred (output_tokens cost)\<rparr>\<rparr>) r)) k lg)"

definition set_progress :: "int \<Rightarrow> int \<Rightarrow> string \<Rightarrow> keeper \<Rightarrow> event_log \<Rightarrow> unit answer" where
  "set_progress finished all_tasks next_due k lg =
     (if \<not> must_be record_job k then (Inl (Breaks ErrWrongKind), k, lg)
      else change_it_now (\<lambda>r.
        if finished < 0 \<or> all_tasks < 0 \<or> all_tasks < finished then Inl Unnamed
        else Inr (set_header (\<lambda>h. h\<lparr>h_tasks_done := finished, h_tasks_total := all_tasks,
                    h_next_due := next_due\<rparr>) r)) k lg)"

definition set_situation :: "string list \<Rightarrow> keeper \<Rightarrow> event_log \<Rightarrow> unit answer" where
  "set_situation facts k lg =
     change_it_now (\<lambda>r. if [] \<in> set facts then Inl Unnamed else Inr (put_situation facts r)) k lg"

definition next_correction :: "record_of_work \<Rightarrow> string" where
  "next_correction r = correction_id (int (length (r_corrections (r_rules r))) + 1)"

definition add_correction :: "string \<Rightarrow> keeper \<Rightarrow> event_log \<Rightarrow> string answer" where
  "add_correction said k lg =
     (if said = [] then (Inl (Breaks ErrCorrectionIsFixed), k, lg)
      else (case change_it_now (\<lambda>r. Inr (put_corrections
                    (r_corrections (r_rules r) @ [\<lparr>co_id = next_correction r, co_text = said\<rparr>]) r)) k lg of
              (Inl e, k', lg') \<Rightarrow> (Inl e, k', lg')
            | (Inr _, k', lg') \<Rightarrow> (Inr (next_correction (kp_record k)), k', lg')))"

text \<open>\<open>nextResultLabel\<close>: one above the highest label of the record and of its log.\<close>

fun highest_in_events :: "header \<Rightarrow> int \<Rightarrow> event list \<Rightarrow> int" where
  "highest_in_events h highest [] = highest"
| "highest_in_events h highest (e # es) =
     highest_in_events h
       (if ev_kind e \<noteq> event_tool_result then highest
        else (case b_result (ev_body e) of
                None \<Rightarrow> highest
              | Some stored \<Rightarrow>
                  (case result_number h (sr_id stored) of
                     None \<Rightarrow> highest | Some n \<Rightarrow> if highest < n then n else highest))) es"

definition next_result_label :: "keeper \<Rightarrow> event_log \<Rightarrow> (record_error + string) \<times> event_log" where
  "next_result_label k lg =
     (case by_task lg (log_key k) of
        ((_, Some e), lg') \<Rightarrow> (Inl e, lg')
      | ((events, None), lg') \<Rightarrow>
          let h = r_header (kp_record k)
          in (Inr (next_result_id h (highest_in_events h (highest_result_number_on (kp_record k)) events)), lg'))"

definition store_result :: "stored_result \<Rightarrow> keeper \<Rightarrow> event_log \<Rightarrow> (record_error + unit) \<times> event_log" where
  "store_result s k lg =
     (case log_append lg (new_event (log_key k) event_tool_result (result_body s)) of
        (Inl e, lg') \<Rightarrow> (Inl e, lg') | (Inr _, lg') \<Rightarrow> (Inr (), lg'))"

definition add_result_line :: "string \<Rightarrow> string \<Rightarrow> string \<Rightarrow> keeper \<Rightarrow> event_log \<Rightarrow> string answer" where
  "add_result_line call_id summary txt k lg =
     (if summary = [] then (Inl Unnamed, k, lg)
      else
        let line = cut_to_one_line summary in
        (case next_result_label k lg of
           (Inl e, lg1) \<Rightarrow> (Inl e, k, lg1)
         | (Inr i, lg1) \<Rightarrow>
             (case store_result \<lparr>sr_id = i, sr_call_id = call_id, sr_summary = line, sr_text = txt\<rparr> k lg1 of
                (Inl e, lg2) \<Rightarrow> (Inl e, k, lg2)
              | (Inr _, lg2) \<Rightarrow>
                  (case change_it_now (\<lambda>r. Inr (put_results (w_results (r_work r)
                           @ [\<lparr>rl_id = i, rl_summary = line, rl_pinned = False\<rparr>]) r)) k lg2 of
                     (Inl e, k', lg3) \<Rightarrow> (Inl e, k', lg3)
                   | (Inr _, k', lg3) \<Rightarrow> (Inr i, k', lg3)))))"

definition add_result :: "string \<Rightarrow> string \<Rightarrow> keeper \<Rightarrow> event_log \<Rightarrow> string answer" where
  "add_result summary txt k lg =
     (if \<not> must_be record_task k then (Inl (Breaks ErrWrongKind), k, lg)
      else add_result_line [] summary txt k lg)"

definition add_result_of_call :: "string \<Rightarrow> string \<Rightarrow> string \<Rightarrow> keeper \<Rightarrow> event_log \<Rightarrow> string answer" where
  "add_result_of_call call_id summary txt k lg =
     (if \<not> must_be record_task k then (Inl (Breaks ErrWrongKind), k, lg)
      else add_result_line call_id summary txt k lg)"

definition add_report :: "string \<Rightarrow> string \<Rightarrow> keeper \<Rightarrow> event_log \<Rightarrow> string answer" where
  "add_report summary txt k lg =
     (if \<not> must_be record_job k then (Inl (Breaks ErrWrongKind), k, lg)
      else add_result_line [] summary txt k lg)"

fun pin_line :: "string \<Rightarrow> bool \<Rightarrow> result_line list \<Rightarrow> result_line list option" where
  "pin_line i pinned [] = None"
| "pin_line i pinned (r # rs) =
     (if rl_id r = i then Some (r\<lparr>rl_pinned := pinned\<rparr> # rs)
      else map_option (Cons r) (pin_line i pinned rs))"

definition pin :: "string \<Rightarrow> bool \<Rightarrow> keeper \<Rightarrow> event_log \<Rightarrow> unit answer" where
  "pin i pinned k lg =
     change_it_now (\<lambda>r. case pin_line i pinned (w_results (r_work r)) of
         None \<Rightarrow> Inl (Breaks ErrNoSuchResult) | Some rs \<Rightarrow> Inr (put_results rs r)) k lg"

definition mark_plan_step :: "int \<Rightarrow> string \<Rightarrow> keeper \<Rightarrow> event_log \<Rightarrow> unit answer" where
  "mark_plan_step number result k lg =
     (if \<not> must_be record_task k then (Inl (Breaks ErrWrongKind), k, lg)
      else change_it_now (\<lambda>r. mark_step r number result) k lg)"

fun mark_task_done :: "string \<Rightarrow> string \<Rightarrow> job_task list \<Rightarrow> job_task list" where
  "mark_task_done i report [] = []"
| "mark_task_done i report (t # ts) =
     (if jt_id t = i then t\<lparr>jt_done := True, jt_report := report\<rparr> # ts
      else t # mark_task_done i report ts)"

definition mark_job_task :: "string \<Rightarrow> string \<Rightarrow> keeper \<Rightarrow> event_log \<Rightarrow> unit answer" where
  "mark_job_task task report k lg =
     (if \<not> must_be record_job k then (Inl (Breaks ErrWrongKind), k, lg)
      else change_it_now (\<lambda>r.
        if job_task_labelled (w_tasks (r_work r)) task = None then Inl Unnamed
        else if \<not> record_holds_result r report then Inl (Breaks ErrJobTaskNeedsReport)
        else Inr (put_tasks (mark_task_done task report (w_tasks (r_work r))) r)) k lg)"

definition set_status :: "record_status \<Rightarrow> keeper \<Rightarrow> event_log \<Rightarrow> unit answer" where
  "set_status status k lg =
     (if \<not> known_status status then (Inl Unnamed, k, lg)
      else change_and_save (\<lambda>r.
        and_then (if status = status_done then done_check r else Inr ())
          (\<lambda>_. Inr (set_header (\<lambda>h. h\<lparr>h_status := status\<rparr>) r))) k lg)"

section \<open>Reading a result\<close>

fun last_stored :: "string \<Rightarrow> string option \<Rightarrow> event list \<Rightarrow> string option" where
  "last_stored i found [] = found"
| "last_stored i found (e # es) =
     last_stored i
       (if ev_kind e \<noteq> event_tool_result then found
        else (case b_result (ev_body e) of
                None \<Rightarrow> found
              | Some stored \<Rightarrow> if sr_id stored = i then Some (sr_text stored) else found)) es"

definition keeper_read :: "string \<Rightarrow> keeper \<Rightarrow> event_log \<Rightarrow> (record_error + string) \<times> event_log" where
  "keeper_read i k lg =
     (if i = ask_label then (Inr (g_ask (r_goal (kp_record k))), lg)
      else if result_number (r_header (kp_record k)) i = None then (Inl (Breaks ErrNoSuchResult), lg)
      else (case by_task lg (log_key k) of
              ((_, Some e), lg') \<Rightarrow> (Inl e, lg')
            | ((events, None), lg') \<Rightarrow>
                (case last_stored i None events of
                   None \<Rightarrow> (Inl (Breaks ErrNoSuchResult), lg') | Some txt \<Rightarrow> (Inr txt, lg'))))"

section \<open>Checkpoints\<close>

definition max_checkpoints :: nat where "max_checkpoints = 10000"

definition carries_the_ask :: "checkpoint \<Rightarrow> bool" where
  "carries_the_ask c \<longleftrightarrow> cp_ask_from c = 0"

text \<open>\<open>Checkpoint.Read\<close>.\<close>

definition read_checkpoint :: "checkpoint \<Rightarrow> string \<Rightarrow> record_error + record_of_work" where
  "read_checkpoint c ask =
     and_then (parse_record (cp_text c)) (\<lambda>held.
       if cp_ask_from c = 0 then Inr held
       else if ask = [] then Inl (Breaks ErrAskIsElsewhere)
       else Inr (set_goal (\<lambda>g. g\<lparr>g_ask := ask\<rparr>) held))"

fun collect_checkpoints :: "nat \<Rightarrow> event list \<Rightarrow> record_error + checkpoint list" where
  "collect_checkpoints sofar [] = Inr []"
| "collect_checkpoints sofar (e # es) =
     (if ev_kind e \<noteq> event_checkpoint then collect_checkpoints sofar es
      else (case b_checkpoint (ev_body e) of
              None \<Rightarrow> Inl Unnamed
            | Some c \<Rightarrow>
                if max_checkpoints < sofar + 1 then Inl Unnamed
                else and_then (collect_checkpoints (sofar + 1) es) (\<lambda>cs. Inr (c # cs))))"

definition checkpoints_of ::
  "event_log \<Rightarrow> record_kind \<Rightarrow> string \<Rightarrow> (record_error + checkpoint list) \<times> event_log" where
  "checkpoints_of lg kind i =
     (if i = [] then (Inl Unnamed, lg)
      else (case by_task lg (record_log_key kind i) of
              ((_, Some e), lg') \<Rightarrow> (Inl e, lg')
            | ((events, None), lg') \<Rightarrow>
                (and_then (collect_checkpoints 0 events) (\<lambda>saved.
                   if saved = [] then Inl Unnamed else Inr saved), lg')))"

definition the_ask_among :: "checkpoint list \<Rightarrow> checkpoint \<Rightarrow> string" where
  "the_ask_among saved one =
     (if carries_the_ask one then []
      else (case find (\<lambda>c. cp_number c = cp_ask_from one) saved of
              None \<Rightarrow> []
            | Some carrying \<Rightarrow>
                (case parse_record (cp_text carrying) of
                   Inl _ \<Rightarrow> [] | Inr held \<Rightarrow> g_ask (r_goal held))))"

definition ask_carried_by :: "checkpoint \<Rightarrow> int" where
  "ask_carried_by one = (if carries_the_ask one then cp_number one else cp_ask_from one)"

definition hold :: "record_of_work \<Rightarrow> int \<Rightarrow> int \<Rightarrow> record_error + keeper" where
  "hold held number ask_from =
     (if h_id (r_header held) = [] then Inl Unnamed
      else if number < 1 then Inl Unnamed
      else if ask_from < 1 then Inl Unnamed
      else Inr \<lparr>kp_record = held, kp_checkpoint = number, kp_ask_from = ask_from,
             kp_once_per_round = False, kp_unsaved = False\<rparr>)"

definition hold_checkpoint :: "record_kind \<Rightarrow> checkpoint list \<Rightarrow> checkpoint \<Rightarrow> record_error + keeper" where
  "hold_checkpoint kind saved one =
     and_then (read_checkpoint one (the_ask_among saved one)) (\<lambda>held.
       if h_kind (r_header held) \<noteq> kind then Inl (Breaks ErrWrongKind)
       else hold held (cp_number one) (ask_carried_by one))"

definition load :: "event_log \<Rightarrow> record_kind \<Rightarrow> string \<Rightarrow> (record_error + keeper) \<times> event_log" where
  "load lg kind i =
     (case checkpoints_of lg kind i of
        (saved, lg') \<Rightarrow> (and_then saved (\<lambda>cs. hold_checkpoint kind cs (last cs)), lg'))"

definition load_checkpoint ::
  "event_log \<Rightarrow> record_kind \<Rightarrow> string \<Rightarrow> int \<Rightarrow> (record_error + keeper) \<times> event_log" where
  "load_checkpoint lg kind i number =
     (case checkpoints_of lg kind i of
        (saved, lg') \<Rightarrow>
          (and_then saved (\<lambda>cs. case find (\<lambda>c. cp_number c = number) cs of
               None \<Rightarrow> Inl Unnamed | Some one \<Rightarrow> hold_checkpoint kind cs one), lg'))"

definition wind_back ::
  "event_log \<Rightarrow> record_kind \<Rightarrow> string \<Rightarrow> int \<Rightarrow> (record_error + keeper) \<times> event_log" where
  "wind_back lg kind i steps =
     (if steps < 1 then (Inl Unnamed, lg)
      else (case checkpoints_of lg kind i of
              (Inl e, lg1) \<Rightarrow> (Inl e, lg1)
            | (Inr saved, lg1) \<Rightarrow>
                let latest = cp_number (last saved); wanted = wrap64 (latest - steps) in
                if wanted < 1 then (Inl (Breaks ErrBeforeTheFirstCheckpoint), lg1)
                else (case load_checkpoint lg1 kind i wanted of
                        (Inl e, lg2) \<Rightarrow> (Inl e, lg2)
                      | (Inr k, lg2) \<Rightarrow>
                          (case save (k\<lparr>kp_checkpoint := latest\<rparr>) lg2 of
                             (Inl e, _, lg3) \<Rightarrow> (Inl e, lg3)
                           | (Inr _, k', lg3) \<Rightarrow> (Inr k', lg3)))))"

section \<open>Reports of jobs\<close>

definition reports_read :: "string \<Rightarrow> event_log \<Rightarrow> (record_error + string) \<times> event_log" where
  "reports_read i lg =
     (case parse_report_id i of
        None \<Rightarrow> (Inl (Breaks ErrNoSuchResult), lg)
      | Some (job, _) \<Rightarrow>
          (case load lg record_job job of
             (Inl e, lg') \<Rightarrow> (Inl e, lg')
           | (Inr k, lg') \<Rightarrow> keeper_read i k lg'))"

end
