(* ===== verification/Keeper_Changes.thy ===== *)
theory Keeper_Changes
  imports Record_Keeper
begin

text \<open>
  What a keeper's methods do to the record, over an abstract relation. \<open>record_change\<close> lists the
  few ways a record may change, without the log, the saving or the order of the checks; every method of
  the keeper is shown to make one of them or to leave the record alone. What the relation keeps, the
  keeper then keeps.
\<close>

section \<open>The ways a record changes\<close>

inductive record_change :: "unicode_tables \<Rightarrow> record_of_work \<Rightarrow> record_of_work \<Rightarrow> bool" for u where
  by_the_model: "apply_update u r up = Inr r' \<Longrightarrow> record_change u r r'"
| of_the_header: "h_kind h = h_kind (r_header r) \<Longrightarrow> h_id h = h_id (r_header r) \<Longrightarrow>
    (h_status h = status_done \<longrightarrow> h_status (r_header r) = status_done \<or> done_check r = Inr ()) \<Longrightarrow>
    record_change u r (r\<lparr>r_header := h\<rparr>)"
| of_the_situation: "record_change u r (put_situation facts r)"
| one_correction_more: "co_id c = next_correction r \<Longrightarrow>
    record_change u r (put_corrections (r_corrections (r_rules r) @ [c]) r)"
| one_result_more: "rl_id l = next_result_id (r_header r) n \<Longrightarrow> highest_result_number_on r \<le> n \<Longrightarrow>
    length (runes (rl_summary l)) \<le> max_summary_characters \<Longrightarrow>
    record_change u r (put_results (w_results (r_work r) @ [l]) r)"
| a_pinning: "map rl_id rs = map rl_id (w_results (r_work r)) \<Longrightarrow> record_change u r (put_results rs r)"
| a_step_marked: "mark_step r n i = Inr r' \<Longrightarrow> record_change u r r'"
| a_task_marked: "record_holds_result r i \<Longrightarrow>
    record_change u r (put_tasks (mark_task_done t i (w_tasks (r_work r))) r)"

section \<open>What every change keeps\<close>

text \<open>A held result stays held when lines are only added and the place stays the same.\<close>

lemma highest_number_append: "highest_number h a (xs @ ys) = highest_number h (highest_number h a xs) ys"
  by (induction h a xs rule: highest_number.induct) (auto split: option.split)

lemma result_number_place:
  "h_kind h' = h_kind h \<Longrightarrow> h_id h' = h_id h \<Longrightarrow> result_number h' i = result_number h i"
  by (simp add: result_number_def split: option.split)

lemma highest_number_ids:
  "h_kind h' = h_kind h \<Longrightarrow> h_id h' = h_id h \<Longrightarrow> map rl_id rs = map rl_id qs \<Longrightarrow>
    highest_number h' a rs = highest_number h a qs"
proof (induction h a qs arbitrary: rs rule: highest_number.induct)
  case (2 h a q qs)
  then obtain r rs' where rs: "rs = r # rs'" "rl_id r = rl_id q" "map rl_id rs' = map rl_id qs" by auto
  have "result_number h' (rl_id q) = result_number h (rl_id q)" by (rule result_number_place) (rule 2)+
  then show ?case using 2 rs by (auto split: option.split)
qed simp

definition same_results :: "record_of_work \<Rightarrow> record_of_work \<Rightarrow> bool" where
  "same_results r r' \<longleftrightarrow> h_kind (r_header r') = h_kind (r_header r) \<and> h_id (r_header r') = h_id (r_header r)
     \<and> (\<exists>more. map rl_id (w_results (r_work r')) = map rl_id (w_results (r_work r)) @ more)"

lemma held_result_stays:
  assumes same: "same_results r r'" and held: "record_holds_result r i"
  shows "record_holds_result r' i"
proof -
  obtain more where more: "map rl_id (w_results (r_work r')) = map rl_id (w_results (r_work r)) @ more"
    using same by (auto simp: same_results_def)
  let ?h = "r_header r" and ?old = "w_results (r_work r)"
  let ?qs = "?old @ map (\<lambda>m. \<lparr>rl_id = m, rl_summary = [], rl_pinned = False\<rparr>) more"
  have "map rl_id (w_results (r_work r')) = map rl_id ?qs" using more by (simp add: comp_def)
  then have "highest_result_number_on r' = highest_number ?h 0 ?qs"
    using same by (simp add: highest_result_number_on_def highest_number_ids same_results_def)
  then have upper: "highest_result_number_on r \<le> highest_result_number_on r'"
    using highest_number_least[of "highest_number ?h 0 ?old"]
    by (simp add: highest_number_append highest_result_number_on_def)
  have number: "result_number (r_header r') i = result_number ?h i"
    using same by (intro result_number_place) (simp_all add: same_results_def)
  have "list_ex (\<lambda>l. rl_id l = i) ?old \<Longrightarrow> list_ex (\<lambda>l. rl_id l = i) (w_results (r_work r'))"
    using more by (metis (mono_tags, lifting) Un_iff image_iff list_ex_iff set_append set_map)
  then show ?thesis using held number upper
    by (auto simp: record_holds_result_def split: if_splits option.splits)
qed

lemma harness_half_results: "harness_half_same r r' \<Longrightarrow> same_results r r'"
  by (simp add: harness_half_same_def same_results_def)

lemma change_keeps_results: "record_change u r r' \<Longrightarrow> same_results r r'"
proof (induction rule: record_change.induct)
  case (by_the_model r up r')
  then show ?case
    using apply_update_keeps[where I = "\<lambda>_. True"] by (auto intro: harness_half_results)
next
  case (a_step_marked r n i r')
  then show ?case using writes_keep_harness_half(6) by (auto intro: harness_half_results)
qed (auto simp: same_results_def put_defs)

lemma mark_task_done_marks:
  "x \<in> set (mark_task_done t i ts) \<Longrightarrow> jt_done x \<Longrightarrow> jt_report x = i \<or> x \<in> set ts"
  by (induction t i ts rule: mark_task_done.induct) (auto split: if_splits)

lemma change_keeps_proof:
  assumes "record_change u r r'" "proof_holds r"
  shows "proof_holds r'"
  using assms
proof (induction rule: record_change.induct)
  case (by_the_model r up r')
  then show ?case using apply_update_proof by blast
next
  case (a_step_marked r n i r')
  then show ?case using mark_step_proof by blast
next
  case (a_task_marked r i t)
  have "record_holds_result (put_tasks ts r) j = record_holds_result r j" for ts j
    by (rule holds_result_same) (simp add: harness_half_same_def put_tasks_def)
  then show ?case using a_task_marked mark_task_done_marks[of _ t i "w_tasks (r_work r)"]
    unfolding proof_holds_def by (fastforce simp: put_tasks_def)
next
  case (of_the_header h r)
  show ?case
    by (rule proof_holds_mono[OF of_the_header(4)]) (auto simp: same_results_def of_the_header
        intro!: held_result_stays[of r])
next
  case (of_the_situation r facts)
  show ?case
    by (rule proof_holds_mono[OF of_the_situation]) (auto simp: same_results_def put_defs
        intro!: held_result_stays[of r])
next
  case (one_correction_more c r)
  show ?case
    by (rule proof_holds_mono[OF one_correction_more(2)]) (auto simp: same_results_def put_defs
        intro!: held_result_stays[of r])
next
  case (one_result_more l r n)
  show ?case
    by (rule proof_holds_mono[OF one_result_more(4)]) (auto simp: same_results_def put_defs
        intro!: held_result_stays[of r])
next
  case (a_pinning rs r)
  show ?case
    by (rule proof_holds_mono[OF a_pinning(2)]) (auto simp: same_results_def put_defs a_pinning
        intro!: held_result_stays[of r])
qed

text \<open>The kind, the number and the ask never change, and corrections are only added.\<close>

definition fixed_part :: "record_of_work \<Rightarrow> record_of_work \<Rightarrow> bool" where
  "fixed_part r r' \<longleftrightarrow> h_kind (r_header r') = h_kind (r_header r) \<and> h_id (r_header r') = h_id (r_header r)
     \<and> g_ask (r_goal r') = g_ask (r_goal r)
     \<and> prefix (r_corrections (r_rules r)) (r_corrections (r_rules r'))"

lemma fixed_part_refl [simp]: "fixed_part r r"
  by (simp add: fixed_part_def)

lemma fixed_part_trans: "fixed_part a b \<Longrightarrow> fixed_part b c \<Longrightarrow> fixed_part a c"
  by (auto simp: fixed_part_def intro: prefix_order.trans)

lemma fixed_part_trim [simp]: "fixed_part r (without_the_oldest k r)"
  by (simp add: fixed_part_def)

lemma change_keeps_fixed_part: "record_change u r r' \<Longrightarrow> fixed_part r r'"
proof (induction rule: record_change.induct)
  case (by_the_model r up r')
  then show ?case
    using apply_update_keeps[where I = "\<lambda>_. True"] by (auto simp: fixed_part_def harness_half_same_def)
next
  case (a_step_marked r n i r')
  then show ?case using writes_keep_harness_half(6) by (auto simp: fixed_part_def harness_half_same_def)
qed (auto simp: fixed_part_def put_defs)

text \<open>The lessons stay few and short.\<close>

definition short_lessons :: "record_of_work \<Rightarrow> bool" where
  "short_lessons r \<longleftrightarrow>
     length (l_decisions (r_lessons r)) \<le> max_decisions_kept
     \<and> length (l_failures (r_lessons r)) \<le> max_failures_kept
     \<and> (\<forall>d \<in> set (l_decisions (r_lessons r)).
          length (runes (de_text d)) \<le> max_lesson_runes \<and> length (runes (de_reason d)) \<le> max_lesson_runes)
     \<and> (\<forall>f \<in> set (l_failures (r_lessons r)).
          length (runes (fa_text f)) \<le> max_lesson_runes \<and> length (runes (fa_cause f)) \<le> max_lesson_runes)"

lemma the_newest_set: "x \<in> set (the_newest xs n) \<Longrightarrow> x \<in> set xs"
  by (auto simp: the_newest_def split: if_splits dest: in_set_dropD)

lemma same_lessons_short: "r_lessons r' = r_lessons r \<Longrightarrow> short_lessons r' = short_lessons r"
  by (simp add: short_lessons_def)

lemma apply_decision_short:
  "apply_decision r up = Inr r' \<Longrightarrow> short_lessons r \<Longrightarrow> short_lessons r'"
  by (auto simp: apply_decision_def short_lessons_def put_decisions_def Let_def the_newest_bound
      cut_to_a_lesson_bound split: if_splits option.splits dest!: the_newest_set)

lemma apply_failure_short:
  "apply_failure u r up = Inr r' \<Longrightarrow> short_lessons r \<Longrightarrow> short_lessons r'"
  by (auto simp: apply_failure_def short_lessons_def put_failures_def Let_def the_newest_bound
      cut_to_a_lesson_bound split: if_splits option.splits dest!: the_newest_set)

lemma mark_step_lessons: "mark_step r n i = Inr r' \<Longrightarrow> r_lessons r' = r_lessons r"
  by (auto simp: mark_step_def put_plan_def Let_def split: if_splits)

lemma apply_update_short:
  assumes "apply_update u r up = Inr r'" "short_lessons r"
  shows "short_lessons r'"
proof -
  have "short_lessons r' \<and> harness_half_same r r'"
    using assms
  proof (rule apply_update_keeps)
    fix a b wr
    assume a: "short_lessons a" "wr \<in> set (the_writes u)" "wr a up = Inr b"
    then consider "wr = apply_decision" | "wr = apply_failure u" | "r_lessons b = r_lessons a"
      using goal_writes_keep(1-4)[of a up b] work_writes_keep[of a up b]
      by (auto simp: the_writes_def)
    then show "short_lessons b"
      using a(1,3) apply_decision_short[of a up b] apply_failure_short[of u a up b]
        same_lessons_short[of b a] by cases simp_all
  qed
  then show ?thesis by simp
qed

lemma change_keeps_short: "record_change u r r' \<Longrightarrow> short_lessons r \<Longrightarrow> short_lessons r'"
proof (induction rule: record_change.induct)
  case (by_the_model r up r')
  then show ?case by (simp add: apply_update_short)
next
  case (a_step_marked r n i r')
  then show ?case using mark_step_lessons same_lessons_short by blast
qed (simp_all add: short_lessons_def put_defs)

text \<open>A finished task of a job stays finished.\<close>

lemma mark_task_done_stays:
  "x \<in> set ts \<Longrightarrow> jt_done x \<Longrightarrow> \<exists>y \<in> set (mark_task_done t i ts). jt_id y = jt_id x \<and> jt_done y"
  by (induction t i ts rule: mark_task_done.induct) auto

lemma change_keeps_finished:
  assumes "record_change u r r'" "tasks_hold (w_tasks (r_work r))" "t \<in> set (w_tasks (r_work r))" "jt_done t"
  shows "\<exists>t' \<in> set (w_tasks (r_work r')). jt_id t' = jt_id t \<and> jt_done t'"
  using assms
proof (induction rule: record_change.induct)
  case (by_the_model r up r')
  then show ?case using finished_tasks_stay by blast
next
  case (a_step_marked r n i r')
  then have "w_tasks (r_work r') = w_tasks (r_work r)"
    by (auto simp: mark_step_def put_plan_def Let_def split: if_splits)
  then show ?case using a_step_marked by auto
next
  case (a_task_marked r i s)
  then show ?case using mark_task_done_stays by (simp add: put_tasks_def)
qed (auto simp: put_defs)

end
