(* ===== verification/Keeper_Runs.thy ===== *)
theory Keeper_Runs
  imports Keeper_Changes
begin

text \<open>
  A keeper over its log, step by step. \<open>keeper_move\<close> is one of the small moves the methods of a keeper
  are made of. \<open>sound_state\<close> is the invariant: a record that reads back, with
  proof behind every mark and within its bounds, over a log that holds its numbered checkpoints.
\<close>

section \<open>Changes and the log\<close>

lemma reads_back_check: "check_it_reads_back r = Inr () \<longleftrightarrow> reads_back r"
  by (auto simp: check_it_reads_back_def reads_back_def split: sum.split)

lemma fits_check: "check_it_still_fits r = Inr () \<longleftrightarrow> record_tokens r \<le> max_record_tokens"
  by (simp add: check_it_still_fits_def)

lemma unit_check: "and_then x (\<lambda>_::unit. y) = Inr z \<longleftrightarrow> x = Inr () \<and> y = Inr z"
  by (auto simp: and_then_Inr_iff)

text \<open>What a change leaves when it goes through.\<close>

definition went_through ::
  "(record_of_work \<Rightarrow> record_error + record_of_work) \<Rightarrow> record_of_work \<Rightarrow> record_of_work \<Rightarrow> bool" where
  "went_through f r r' \<longleftrightarrow>
     (\<exists>c. f r = Inr c \<and> reads_back c \<and> r' = trim_the_results_to_fit c \<and> record_tokens r' \<le> max_record_tokens)"

lemma save_Inl: "save k lg = (Inl e, k', lg') \<Longrightarrow> k' = k \<and> log_append lg
    (new_event (log_key k) event_checkpoint (checkpoint_body (next_checkpoint k))) = (Inl e, lg')"
  by (auto simp: save_def Let_def split: prod.splits sum.splits)

lemma save_Inr: "save k lg = (Inr x, k', lg') \<Longrightarrow>
    (\<exists>n. log_append lg (new_event (log_key k) event_checkpoint (checkpoint_body (next_checkpoint k))) = (Inr n, lg'))
    \<and> k' = k\<lparr>kp_checkpoint := cp_number (next_checkpoint k), kp_unsaved := False,
         kp_ask_from := (if kp_ask_from k = 0 then cp_number (next_checkpoint k) else kp_ask_from k)\<rparr>"
  by (auto simp: save_def Let_def split: prod.splits sum.splits)

lemma change_or_wait_cases:
  assumes "change_or_wait f wait k lg = (a, k', lg')"
  obtains
    (refused) e where "a = Inl e" "k' = k" "lg' = lg"
  | (unsaved) e c where "a = Inl e" "k' = k" "save (k\<lparr>kp_record := c\<rparr>) lg = (Inl e, k\<lparr>kp_record := c\<rparr>, lg')"
  | (waiting) c where "a = Inr ()" "went_through f (kp_record k) c" "wait"
      "k' = k\<lparr>kp_record := c, kp_unsaved := True\<rparr>" "lg' = lg"
  | (saved) c where "a = Inr ()" "went_through f (kp_record k) c" "\<not> wait"
      "save (k\<lparr>kp_record := c\<rparr>) lg = (Inr (), k', lg')"
proof -
  let ?changed = "and_then (f (kp_record k)) (\<lambda>changing.
             and_then (check_it_reads_back changing) (\<lambda>_.
             let trimmed = trim_the_results_to_fit changing
             in and_then (check_it_still_fits trimmed) (\<lambda>_. Inr trimmed)))"
  show ?thesis
  proof (cases ?changed)
    case (Inl e)
    then show ?thesis using assms by (auto simp: change_or_wait_def intro: refused)
  next
    case (Inr c)
    then have c: "went_through f (kp_record k) c"
      by (auto simp: went_through_def and_then_Inr_iff reads_back_check fits_check Let_def)
    show ?thesis
    proof (cases "wait")
      case True
      then show ?thesis using assms Inr c by (auto simp: change_or_wait_def Let_def intro: waiting)
    next
      case False
      obtain b k2 lg2 where sv: "save (k\<lparr>kp_record := c\<rparr>) lg = (b, k2, lg2)" by (cases "save (k\<lparr>kp_record := c\<rparr>) lg")
      show ?thesis
      proof (cases b)
        case (Inl e)
        then have "k2 = k\<lparr>kp_record := c\<rparr>" using save_Inl sv by blast
        then show ?thesis using assms \<open>?changed = Inr c\<close> False sv Inl
          by (auto simp: change_or_wait_def Let_def intro: unsaved)
      next
        case (Inr u)
        then show ?thesis using assms \<open>?changed = Inr c\<close> c False sv
          by (auto simp: change_or_wait_def Let_def intro: saved)
      qed
    qed
  qed
qed

text \<open>A change that is refused leaves the keeper as it was.\<close>

lemma change_refused: "change_or_wait f w k lg = (Inl e, k', lg') \<Longrightarrow> k' = k"
  by (erule change_or_wait_cases) auto

section \<open>The checkpoints in the log\<close>

definition own_events :: "string \<Rightarrow> event list \<Rightarrow> event list" where
  "own_events key es = filter (\<lambda>e. ev_task e = key) es"

definition checkpoint_events :: "string \<Rightarrow> event list \<Rightarrow> event list" where
  "checkpoint_events key es = filter (\<lambda>e. ev_kind e = event_checkpoint) (own_events key es)"

definition saved_checkpoints :: "string \<Rightarrow> event list \<Rightarrow> checkpoint option list" where
  "saved_checkpoints key es = map (\<lambda>e. b_checkpoint (ev_body e)) (checkpoint_events key es)"

lemma saved_checkpoints_append:
  "saved_checkpoints key (xs @ ys) = saved_checkpoints key xs @ saved_checkpoints key ys"
  by (simp add: saved_checkpoints_def checkpoint_events_def own_events_def)

definition start_key :: "start_of_record \<Rightarrow> string" where
  "start_key st = record_log_key (st_kind st) (st_id st)"

text \<open>The keeper's numbers are those of the checkpoints in the log, and only the first carries the ask.\<close>

definition numbered :: "start_of_record \<Rightarrow> keeper \<Rightarrow> event_log \<Rightarrow> checkpoint list \<Rightarrow> bool" where
  "numbered st k lg cs \<longleftrightarrow>
     saved_checkpoints (start_key st) (log_contents lg) = map Some cs \<and> cs \<noteq> []
     \<and> map cp_number cs = map (\<lambda>i. int i + 1) [0..<length cs]
     \<and> kp_checkpoint k = int (length cs) \<and> kp_ask_from k = 1
     \<and> hd cs = \<lparr>cp_number = 1, cp_text = json_text (print_whole (start_record st)), cp_ask_from = 0\<rparr>
     \<and> (\<forall>c \<in> set (tl cs). cp_ask_from c = 1)"

definition text_for :: "checkpoint list \<Rightarrow> record_of_work \<Rightarrow> string" where
  "text_for cs r = json_text (print_whole (if length cs = 1 then r else with_the_ask_standing_in r))"

definition up_to_date :: "keeper \<Rightarrow> checkpoint list \<Rightarrow> bool" where
  "up_to_date k cs \<longleftrightarrow> (kp_unsaved k \<or> cp_text (last cs) = text_for cs (kp_record k))"

lemma strict_bound: "sorted_wrt (<) (xs :: int list) \<Longrightarrow> \<forall>x \<in> set xs. 1 \<le> x \<and> x < n \<Longrightarrow> 1 \<le> n \<Longrightarrow> int (length xs) < n"
proof (induction xs arbitrary: n rule: rev_induct)
  case (snoc x xs)
  then have "int (length xs) < x" by (intro snoc.IH) (auto simp: sorted_wrt_append)
  then show ?case using snoc.prems by simp
qed simp

lemma rows_bound: "sound_log lg \<Longrightarrow> int (length (lg_rows lg)) < lg_next lg"
  using strict_bound[of "map rw_sequence (lg_rows lg)" "lg_next lg"]
  by (auto simp: sound_log_def list_all_iff sound_row_def)

lemma append_room: "log_append lg e = (Inr n, lg') \<Longrightarrow> lg_next lg \<le> max_int"
  by (auto simp: log_append_def split: if_splits)

lemma checkpoints_bound: "length (saved_checkpoints key (log_contents lg)) \<le> length (lg_rows lg)"
proof -
  have "length (checkpoint_events key es) \<le> length es" for es
    unfolding checkpoint_events_def own_events_def by (intro order_trans[OF length_filter_le]) simp
  then show ?thesis by (metis length_map log_contents_def saved_checkpoints_def)
qed

lemma numbered_room:
  assumes "sound_log lg" "saved_checkpoints key (log_contents lg) = map Some cs" "log_append lg e = (Inr n, lg')"
  shows "int (length cs) < max_int"
proof -
  have "length cs \<le> length (lg_rows lg)" using checkpoints_bound[of key lg] assms(2) by simp
  then show ?thesis using rows_bound[OF assms(1)] append_room[OF assms(3)] by simp
qed

lemma saved_checkpoint_event:
  "saved_checkpoints key [(new_event key event_checkpoint (checkpoint_body c))\<lparr>ev_sequence := n\<rparr>] =
     [Some (c\<lparr>cp_text := json_text (cp_text c)\<rparr>)]"
  by (simp add: saved_checkpoints_def checkpoint_events_def own_events_def new_event_def checkpoint_body_def)

lemma saved_other_event:
  "ev_task e \<noteq> key \<or> ev_kind e \<noteq> event_checkpoint \<Longrightarrow> saved_checkpoints key [e] = []"
  by (auto simp: saved_checkpoints_def checkpoint_events_def own_events_def)

definition first_checkpoint :: "start_of_record \<Rightarrow> checkpoint" where
  "first_checkpoint st = \<lparr>cp_number = 1, cp_text = json_text (print_whole (start_record st)), cp_ask_from = 0\<rparr>"

lemma start_record_place:
  "h_kind (r_header (start_record st)) = st_kind st" "h_id (r_header (start_record st)) = st_id st"
  "g_ask (r_goal (start_record st)) = st_ask st"
  by (simp_all add: start_record_def start_header_def put_budget_def Let_def)

text \<open>A save adds the next number, with the text of the record as it stands.\<close>

lemma save_numbered:
  assumes ok: "sound_log lg" and num: "numbered st k lg cs" and key: "log_key k = start_key st"
    and sv: "save k lg = (Inr x, k', lg')"
  shows "\<exists>cs'. numbered st k' lg' cs' \<and> up_to_date k' cs' \<and> \<not> kp_unsaved k'
    \<and> prefix cs cs' \<and> length cs' = length cs + 1"
proof -
  let ?c = "next_checkpoint k"
  obtain n where app: "log_append lg (new_event (log_key k) event_checkpoint (checkpoint_body ?c)) = (Inr n, lg')"
    and k': "k' = k\<lparr>kp_checkpoint := cp_number ?c, kp_unsaved := False,
         kp_ask_from := (if kp_ask_from k = 0 then cp_number ?c else kp_ask_from k)\<rparr>"
    using save_Inr[OF sv] by blast
  have cs: "saved_checkpoints (start_key st) (log_contents lg) = map Some cs" "cs \<noteq> []"
    "map cp_number cs = map (\<lambda>i. int i + 1) [0..<length cs]" "kp_checkpoint k = int (length cs)"
    "kp_ask_from k = 1" "hd cs = first_checkpoint st" "\<forall>c \<in> set (tl cs). cp_ask_from c = 1"
    using num by (auto simp: numbered_def first_checkpoint_def)
  have room: "int (length cs) < max_int" by (rule numbered_room[OF ok cs(1) app])
  let ?d = "?c\<lparr>cp_text := json_text (cp_text ?c)\<rparr>"
  have d: "cp_number ?c = int (length cs) + 1" "cp_ask_from ?c = 1"
    "cp_text ?c = print_whole (with_the_ask_standing_in (kp_record k))"
    using room cs(4,5) by (simp_all add: next_checkpoint_def wrap64_small)
  have "saved_checkpoints (start_key st) (log_contents lg') = map Some (cs @ [?d])"
    using append_Inr[OF app] by (simp add: saved_checkpoints_append cs(1) saved_checkpoint_event key)
  then have "numbered st k' lg' (cs @ [?d])"
    using cs d by (auto simp: numbered_def k' first_checkpoint_def)
  moreover have "up_to_date k' (cs @ [?d])" "\<not> kp_unsaved k'"
    using cs(2) d by (simp_all add: up_to_date_def text_for_def k')
  ultimately show ?thesis by (intro exI[of _ "cs @ [?d]"]) simp
qed

lemma first_save_numbered:
  assumes ok: "sound_log lg" and none: "saved_checkpoints (start_key st) (log_contents lg) = []"
    and k: "k = \<lparr>kp_record = start_record st, kp_checkpoint = 0, kp_ask_from = 0,
                 kp_once_per_round = False, kp_unsaved = False\<rparr>"
    and sv: "save k lg = (Inr x, k', lg')"
  shows "numbered st k' lg' [first_checkpoint st] \<and> up_to_date k' [first_checkpoint st]
    \<and> kp_record k' = start_record st \<and> \<not> kp_unsaved k'"
proof -
  let ?c = "next_checkpoint k"
  obtain n where app: "log_append lg (new_event (log_key k) event_checkpoint (checkpoint_body ?c)) = (Inr n, lg')"
    and k': "k' = k\<lparr>kp_checkpoint := cp_number ?c, kp_unsaved := False,
         kp_ask_from := (if kp_ask_from k = 0 then cp_number ?c else kp_ask_from k)\<rparr>"
    using save_Inr[OF sv] by blast
  have key: "log_key k = start_key st"
    by (simp add: log_key_def keeper_kind_def keeper_id_def k start_record_place start_key_def)
  have c: "?c\<lparr>cp_text := json_text (cp_text ?c)\<rparr> = first_checkpoint st"
    by (simp add: next_checkpoint_def k first_checkpoint_def wrap64_small max_int_def)
  then have n1: "cp_number ?c = 1" by (simp add: next_checkpoint_def k wrap64_small max_int_def)
  have "saved_checkpoints (start_key st) (log_contents lg') = [Some (first_checkpoint st)]"
    using append_Inr[OF app] by (simp add: saved_checkpoints_append none saved_checkpoint_event key c)
  then show ?thesis
    by (simp add: numbered_def k' k n1[unfolded k] first_checkpoint_def up_to_date_def text_for_def)
qed

section \<open>The methods of a keeper, one call at a time\<close>

datatype keeper_call =
    Apply update | SetBudget budget | SetCost cost_line | SetProgress int int string
  | SetSituation "string list" | AddCorrection string | AddResult string string
  | AddResultOfCall string string string | AddReport string string | Pin string bool
  | MarkPlanStep int string | MarkJobTask string string | SetStatus record_status
  | SaveTheRound | SaveOncePerRound | Read string

definition without_answer :: "'a answer \<Rightarrow> unit answer" where
  "without_answer = (\<lambda>(a, k, lg). (map_sum id (\<lambda>_. ()) a, k, lg))"

fun perform :: "unicode_tables \<Rightarrow> keeper_call \<Rightarrow> keeper \<Rightarrow> event_log \<Rightarrow> unit answer" where
  "perform u (Apply up) k lg = keeper_apply u up k lg"
| "perform u (SetBudget left) k lg = set_budget left k lg"
| "perform u (SetCost cost) k lg = set_cost cost k lg"
| "perform u (SetProgress finished all_tasks due) k lg = set_progress finished all_tasks due k lg"
| "perform u (SetSituation facts) k lg = set_situation facts k lg"
| "perform u (AddCorrection said) k lg = without_answer (add_correction said k lg)"
| "perform u (AddResult summary txt) k lg = without_answer (add_result summary txt k lg)"
| "perform u (AddResultOfCall i summary txt) k lg = without_answer (add_result_of_call i summary txt k lg)"
| "perform u (AddReport summary txt) k lg = without_answer (add_report summary txt k lg)"
| "perform u (Pin i pinned) k lg = pin i pinned k lg"
| "perform u (MarkPlanStep n i) k lg = mark_plan_step n i k lg"
| "perform u (MarkJobTask t i) k lg = mark_job_task t i k lg"
| "perform u (SetStatus s) k lg = set_status s k lg"
| "perform u SaveTheRound k lg = save_the_round k lg"
| "perform u SaveOncePerRound k lg = (Inr (), save_once_per_round k, lg)"
| "perform u (Read i) k lg = (case keeper_read i k lg of (a, lg') \<Rightarrow> (map_sum id (\<lambda>_. ()) a, k, lg'))"

text \<open>The small moves a call is made of.\<close>

inductive keeper_move :: "unicode_tables \<Rightarrow> keeper \<times> event_log \<Rightarrow> keeper \<times> event_log \<Rightarrow> bool" for u where
  a_read: "by_task lg key = (x, lg') \<Longrightarrow> keeper_move u (k, lg) (k, lg')"
| a_result_stored: "next_result_label k lg = (Inr (sr_id s), lg1) \<Longrightarrow> store_result s k lg1 = (x, lg2) \<Longrightarrow>
    keeper_move u (k, lg) (k, lg2)"
| a_change: "(\<And>c. f (kp_record k) = Inr c \<Longrightarrow> record_change u (kp_record k) c) \<Longrightarrow>
    change_or_wait f w k lg = (a, k', lg') \<Longrightarrow> keeper_move u (k, lg) (k', lg')"
| a_save: "save k lg = (a, k', lg') \<Longrightarrow> keeper_move u (k, lg) (k', lg')"
| once_per_round: "keeper_move u (k, lg) (save_once_per_round k, lg)"

inductive_cases keeper_moveE: "keeper_move u (k, lg) (k', lg')"

abbreviation keeper_moves :: "unicode_tables \<Rightarrow> keeper \<times> event_log \<Rightarrow> keeper \<times> event_log \<Rightarrow> bool" where
  "keeper_moves u \<equiv> (keeper_move u)\<^sup>*\<^sup>*"

lemma change_moves:
  assumes "change_it_now f k lg = (a, k', lg')"
    "\<And>c. f (kp_record k) = Inr c \<Longrightarrow> record_change u (kp_record k) c"
  shows "keeper_moves u (k, lg) (k', lg')"
  using assms by (intro r_into_rtranclp) (rule a_change, auto simp: change_it_now_def)

lemma header_change:
  "h_kind h = h_kind (r_header r) \<Longrightarrow> h_id h = h_id (r_header r) \<Longrightarrow> h_status h = h_status (r_header r) \<Longrightarrow>
    record_change u r (r\<lparr>r_header := h\<rparr>)"
  by (rule of_the_header) simp_all

lemma without_answer_eq: "without_answer x = (a, k', lg') \<Longrightarrow> \<exists>b. x = (b, k', lg')"
  by (cases x) (auto simp: without_answer_def)

lemma pin_line_ids: "pin_line i p rs = Some qs \<Longrightarrow> map rl_id qs = map rl_id rs"
  by (induction i p rs arbitrary: qs rule: pin_line.induct) (auto split: if_splits)

lemma add_correction_moves:
  assumes "add_correction said k lg = (a, k', lg')"
  shows "keeper_moves u (k, lg) (k', lg')"
proof (cases "said = []")
  case False
  let ?f = "\<lambda>r. Inr (put_corrections (r_corrections (r_rules r) @ [\<lparr>co_id = next_correction r, co_text = said\<rparr>]) r)"
  obtain b where "change_it_now ?f k lg = (b, k', lg')"
    using assms False by (auto simp: add_correction_def split: prod.splits sum.splits)
  then show ?thesis by (rule change_moves) (auto intro!: one_correction_more)
qed (use assms in \<open>auto simp: add_correction_def\<close>)

lemma highest_in_events_least: "n \<le> highest_in_events h n es"
proof (induction h n es rule: highest_in_events.induct)
  case (2 h n e es)
  then show ?case by (auto split: option.split intro: order_trans[rotated])
qed simp

lemma next_result_label_gives:
  assumes "next_result_label k lg = (Inr i, lg')"
  obtains es where "by_task lg (log_key k) = ((es, None), lg')"
    "i = next_result_id (r_header (kp_record k))
       (highest_in_events (r_header (kp_record k)) (highest_result_number_on (kp_record k)) es)"
  using assms by (auto simp: next_result_label_def Let_def split: prod.splits option.splits)

lemma next_result_label_log: "next_result_label k lg = (x, lg') \<Longrightarrow> lg' = snd (by_task lg (log_key k))"
  by (auto simp: next_result_label_def Let_def split: prod.splits option.splits)

definition with_a_result :: "string \<Rightarrow> string \<Rightarrow> record_of_work \<Rightarrow> record_error + record_of_work" where
  "with_a_result i line r =
     Inr (put_results (w_results (r_work r) @ [\<lparr>rl_id = i, rl_summary = line, rl_pinned = False\<rparr>]) r)"

text \<open>The stages of adding a result: the label, the full text in the log, the line on the record.\<close>

lemma add_result_line_cases:
  assumes "add_result_line call summary txt k lg = (a, k', lg')"
  obtains
    (empty) e where "a = Inl e" "k' = k" "lg' = lg"
  | (no_label) e where "a = Inl e" "k' = k" "next_result_label k lg = (Inl e, lg')"
  | (not_stored) i lg1 e where "a = Inl e" "k' = k" "next_result_label k lg = (Inr i, lg1)"
      "store_result \<lparr>sr_id = i, sr_call_id = call, sr_summary = cut_to_one_line summary, sr_text = txt\<rparr> k lg1
         = (Inl e, lg')"
  | (written) i lg1 lg2 b where "next_result_label k lg = (Inr i, lg1)"
      "store_result \<lparr>sr_id = i, sr_call_id = call, sr_summary = cut_to_one_line summary, sr_text = txt\<rparr> k lg1
         = (Inr (), lg2)"
      "change_it_now (with_a_result i (cut_to_one_line summary)) k lg2 = (b, k', lg')"
      "a = map_sum id (\<lambda>_. i) b"
proof (cases "summary = []")
  case True
  then show ?thesis using assms empty by (auto simp: add_result_line_def)
next
  case False
  let ?line = "cut_to_one_line summary"
  obtain x lg1 where x: "next_result_label k lg = (x, lg1)" by (cases "next_result_label k lg")
  show ?thesis
  proof (cases x)
    case (Inl e)
    then show ?thesis using assms x False by (auto simp: add_result_line_def intro: no_label)
  next
    case (Inr i)
    obtain y lg2 where y: "store_result \<lparr>sr_id = i, sr_call_id = call, sr_summary = ?line, sr_text = txt\<rparr> k lg1
      = (y, lg2)" by (cases "store_result \<lparr>sr_id = i, sr_call_id = call, sr_summary = ?line, sr_text = txt\<rparr> k lg1")
    show ?thesis
    proof (cases y)
      case (Inl e)
      then show ?thesis using assms x \<open>x = Inr i\<close> y False by (auto simp: add_result_line_def intro: not_stored)
    next
      case (Inr v)
      obtain b k2 lg3 where z: "change_it_now (with_a_result i ?line) k lg2 = (b, k2, lg3)"
        by (cases "change_it_now (with_a_result i ?line) k lg2")
      have "a = map_sum id (\<lambda>_. i) b \<and> k' = k2 \<and> lg' = lg3"
        using assms x \<open>x = Inr i\<close> y Inr False z[unfolded with_a_result_def]
        by (cases b) (auto simp: add_result_line_def)
      then show ?thesis using x \<open>x = Inr i\<close> y Inr z written[of i lg1 lg2 b] by simp
    qed
  qed
qed

lemma next_label_bound:
  "next_result_label k lg = (Inr i, lg') \<Longrightarrow>
    \<exists>n \<ge> highest_result_number_on (kp_record k). i = next_result_id (r_header (kp_record k)) n"
  using highest_in_events_least by (elim next_result_label_gives) blast

lemma add_result_line_moves:
  assumes "add_result_line call summary txt k lg = (a, k', lg')"
  shows "keeper_moves u (k, lg) (k', lg')"
proof -
  have label: "keeper_moves u (k, lg) (k, lg1)" if "next_result_label k lg = (x, lg1)" for x lg1
    using next_result_label_log[OF that] a_read[of lg "log_key k" "fst (by_task lg (log_key k))" lg1 u k]
    by auto
  show ?thesis
    using assms
  proof (cases rule: add_result_line_cases)
    case (no_label e)
    then show ?thesis using label by auto
  next
    case (not_stored i lg1 e)
    then show ?thesis using a_result_stored[OF _ not_stored(4), of lg u] by auto
  next
    case (written i lg1 lg2 b)
    obtain n where n: "highest_result_number_on (kp_record k) \<le> n" "i = next_result_id (r_header (kp_record k)) n"
      using next_label_bound[OF written(1)] by blast
    have "keeper_moves u (k, lg2) (k', lg')"
    proof (rule change_moves[OF written(3)])
      fix c assume "with_a_result i (cut_to_one_line summary) (kp_record k) = Inr c"
      then show "record_change u (kp_record k) c"
        using n cut_to_one_line_bound by (auto simp: with_a_result_def intro!: one_result_more)
    qed
    moreover have "keeper_move u (k, lg) (k, lg2)" using a_result_stored[OF _ written(2), of lg u] written(1) by simp
    ultimately show ?thesis by simp
  qed simp
qed

lemma keeper_read_log: "keeper_read i k lg = (a, lg') \<Longrightarrow> lg' = lg \<or> lg' = snd (by_task lg (log_key k))"
  by (auto simp: keeper_read_def split: if_splits prod.splits option.splits)

lemma header_call_moves:
  assumes "change_it_now (\<lambda>r. if bad r then Inl e else Inr (set_header f r)) k lg = (a, k', lg')"
    "\<And>h. h_kind (f h) = h_kind h \<and> h_id (f h) = h_id h \<and> h_status (f h) = h_status h"
  shows "keeper_moves u (k, lg) (k', lg')"
  using assms by (elim change_moves) (auto simp: set_header_def intro!: header_change split: if_splits)

text \<open>Every call is made of those moves.\<close>

lemma perform_moves:
  assumes "perform u call k lg = (a, k', lg')"
  shows "keeper_moves u (k, lg) (k', lg')"
  using assms
proof (cases call)
  case (Apply up)
  then show ?thesis using assms
    by (auto simp: keeper_apply_def intro: by_the_model split: if_splits elim!: change_moves)
next
  case (SetBudget left)
  then show ?thesis using assms
    by (auto simp: set_budget_def put_budget_def split: if_splits elim!: header_call_moves)
next
  case (SetCost cost)
  then show ?thesis using assms
    by (auto simp: set_cost_def split: if_splits elim!: header_call_moves)
next
  case (SetProgress n m next_date)
  then show ?thesis using assms
    by (auto simp: set_progress_def split: if_splits elim!: header_call_moves)
next
  case (SetSituation facts)
  then show ?thesis using assms
    by (auto simp: set_situation_def intro: of_the_situation split: if_splits elim!: change_moves)
next
  case (AddCorrection said)
  then show ?thesis using assms add_correction_moves by (auto dest!: without_answer_eq)
next
  case (AddResult summary words)
  then show ?thesis using assms add_result_line_moves
    by (auto simp: add_result_def dest!: without_answer_eq split: if_splits)
next
  case (AddResultOfCall i summary words)
  then show ?thesis using assms add_result_line_moves
    by (auto simp: add_result_of_call_def dest!: without_answer_eq split: if_splits)
next
  case (AddReport summary words)
  then show ?thesis using assms add_result_line_moves
    by (auto simp: add_report_def dest!: without_answer_eq split: if_splits)
next
  case (Pin i pinned)
  then show ?thesis using assms
    by (auto simp: pin_def dest!: pin_line_ids intro!: a_pinning split: option.splits elim!: change_moves)
next
  case (MarkPlanStep n i)
  then show ?thesis using assms
    by (auto simp: mark_plan_step_def intro: a_step_marked split: if_splits elim!: change_moves)
next
  case (MarkJobTask t i)
  then show ?thesis using assms
    by (auto simp: mark_job_task_def intro: a_task_marked split: if_splits elim!: change_moves)
next
  case (SetStatus s)
  then show ?thesis
  proof (cases "known_status s")
    case True
    let ?f = "\<lambda>r. and_then (if s = status_done then done_check r else Inr ())
          (\<lambda>_. Inr (set_header (\<lambda>h. h\<lparr>h_status := s\<rparr>) r))"
    have "change_or_wait ?f False k lg = (a, k', lg')"
      using assms SetStatus True by (simp add: set_status_def change_and_save_def)
    then have "keeper_move u (k, lg) (k', lg')"
      by (rule a_change[rotated]) (auto simp: unit_check set_header_def intro!: of_the_header split: if_splits)
    then show ?thesis by simp
  qed (use assms in \<open>auto simp: set_status_def\<close>)
next
  case SaveTheRound
  then show ?thesis using assms by (auto simp: save_the_round_def intro: a_save split: if_splits)
next
  case SaveOncePerRound
  then show ?thesis using assms by (auto intro: once_per_round)
next
  case (Read i)
  then have "k' = k" "lg' = lg \<or> lg' = snd (by_task lg (log_key k))"
    using assms by (auto split: prod.splits dest!: keeper_read_log)
  then show ?thesis using a_read[of lg "log_key k" "fst (by_task lg (log_key k))" lg' u k] by auto
qed

section \<open>The invariant\<close>

definition standing :: "record_of_work \<Rightarrow> bool" where
  "standing r \<longleftrightarrow> reads_back r \<and> proof_holds r \<and> short_lessons r
     \<and> length (w_results (r_work r)) \<le> max_result_lines_kept"

lemma without_the_oldest_parts [simp]:
  "r_header (without_the_oldest n r) = r_header r" "r_goal (without_the_oldest n r) = r_goal r"
  "r_rules (without_the_oldest n r) = r_rules r" "r_lessons (without_the_oldest n r) = r_lessons r"
  "w_plan (r_work (without_the_oldest n r)) = w_plan (r_work r)"
  "w_tasks (r_work (without_the_oldest n r)) = w_tasks (r_work r)"
  "w_situation (r_work (without_the_oldest n r)) = w_situation (r_work r)"
  by (simp_all add: without_the_oldest_def put_results_def)

lemma trimmed_parts:
  "r_header (trim_the_results_to_fit r) = r_header r" "r_goal (trim_the_results_to_fit r) = r_goal r"
  "r_rules (trim_the_results_to_fit r) = r_rules r" "r_lessons (trim_the_results_to_fit r) = r_lessons r"
  "w_plan (r_work (trim_the_results_to_fit r)) = w_plan (r_work r)"
  "w_tasks (r_work (trim_the_results_to_fit r)) = w_tasks (r_work r)"
  using trim_is[of r] by auto

lemma trim_stands:
  assumes "reads_back c" "proof_holds c" "short_lessons c"
  shows "standing (trim_the_results_to_fit c)"
proof -
  have "proof_holds (trim_the_results_to_fit c)"
    using trim_keeps_proof[OF reads_back_holds[OF assms(1)]]
    by (intro proof_holds_mono[OF assms(2)]) (simp_all add: trimmed_parts)
  moreover have "short_lessons (trim_the_results_to_fit c)"
    using assms(3) by (simp add: short_lessons_def trimmed_parts)
  ultimately show ?thesis
    using trim_reads_back[OF assms(1)] trim_bounds[of c] by (simp add: standing_def)
qed

definition changed_rightly :: "record_of_work \<Rightarrow> record_of_work \<Rightarrow> bool" where
  "changed_rightly r r' \<longleftrightarrow> standing r' \<and> fixed_part r r'
     \<and> (r' = r \<or> record_tokens r' \<le> max_record_tokens)"

lemma changed_rightly_refl: "standing r \<Longrightarrow> changed_rightly r r"
  by (simp add: changed_rightly_def)

lemma changed_rightly_trans: "changed_rightly a b \<Longrightarrow> changed_rightly b c \<Longrightarrow> changed_rightly a c"
  using fixed_part_trans by (auto simp: changed_rightly_def)

lemma went_through_rightly:
  assumes "went_through f r r'" "\<And>c. f r = Inr c \<Longrightarrow> record_change u r c" "standing r"
  shows "changed_rightly r r'"
proof -
  obtain c where c: "record_change u r c" "reads_back c" "r' = trim_the_results_to_fit c"
    "record_tokens r' \<le> max_record_tokens"
    using assms(1,2) by (auto simp: went_through_def)
  have "standing r'"
    unfolding c(3) using c(1,2) assms(3) change_keeps_proof[of u r c] change_keeps_short[of u r c]
    by (intro trim_stands) (simp_all add: standing_def)
  moreover have "fixed_part r r'"
    using change_keeps_fixed_part[OF c(1)] by (simp add: c(3) fixed_part_def trimmed_parts)
  ultimately show ?thesis using c(4) by (simp add: changed_rightly_def)
qed

text \<open>What a log gained under one key, and nothing else.\<close>

definition log_gained :: "string \<Rightarrow> event_log \<Rightarrow> event_log \<Rightarrow> bool" where
  "log_gained key lg lg' \<longleftrightarrow> sound_log lg' \<and>
     (\<exists>es. log_contents lg' = log_contents lg @ es \<and> list_all (\<lambda>e. ev_task e = key) es)"

lemma log_gained_refl: "sound_log lg \<Longrightarrow> log_gained key lg lg"
  by (simp add: log_gained_def)

lemma log_gained_trans: "log_gained key a b \<Longrightarrow> log_gained key b c \<Longrightarrow> log_gained key a c"
  by (auto simp: log_gained_def)

lemma log_gained_append:
  assumes "sound_log lg" "log_append lg (new_event key kind b) = (x, lg')"
  shows "log_gained key lg lg'"
proof (cases x)
  case (Inl e)
  then show ?thesis using assms log_store.app_Inl[of lg _ e lg'] log_store.app_ok[OF assms(1)]
    by (metis append_Nil2 list.pred_inject(1) log_gained_def snd_conv)
next
  case (Inr n)
  have "sound_log lg'" using log_store.app_ok[OF assms(1), of "new_event key kind b"] assms(2) by simp
  then show ?thesis using log_store.app_Inr[OF assms(1)] assms(2) Inr
    by (auto simp: log_gained_def new_event_def)
qed

lemma by_task_gained: "sound_log lg \<Longrightarrow> log_gained key lg (snd (by_task lg t))"
  by (simp add: log_gained_def log_store.task_ok log_store.task_same)

lemma save_gained: "sound_log lg \<Longrightarrow> save k lg = (a, k', lg') \<Longrightarrow>
    log_gained (log_key k) lg lg' \<and> kp_record k' = kp_record k"
  by (cases a) (auto dest!: save_Inl save_Inr intro: log_gained_append)

lemma store_result_append:
  "store_result s k lg = (x, lg') \<Longrightarrow>
    \<exists>y. log_append lg (new_event (log_key k) event_tool_result (result_body s)) = (y, lg') \<and> (x = Inr () \<longleftrightarrow> (\<exists>n. y = Inr n))"
  by (auto simp: store_result_def split: prod.splits sum.splits)

lemma next_label_gained: "sound_log lg \<Longrightarrow> next_result_label k lg = (x, lg1) \<Longrightarrow>
    log_gained key lg lg1 \<and> log_contents lg1 = log_contents lg \<and> sound_log lg1"
  using next_result_label_log[of k lg x lg1] by_task_gained by (simp add: log_store.task_same log_store.task_ok)

lemma log_key_place: "fixed_part (kp_record k) (kp_record k') \<Longrightarrow> log_key k' = log_key k"
  by (simp add: fixed_part_def log_key_def keeper_kind_def keeper_id_def)

lemma move_keeps:
  assumes "keeper_move u s s'" "sound_log (snd s)" "standing (kp_record (fst s))"
  shows "changed_rightly (kp_record (fst s)) (kp_record (fst s')) \<and> log_gained (log_key (fst s)) (snd s) (snd s')"
  using assms
proof (induction rule: keeper_move.induct)
  case (a_read lg key x lg' k)
  then show ?case using by_task_gained[of lg "log_key k" key] by (simp add: changed_rightly_refl)
next
  case (a_result_stored k lg s lg1 x lg2)
  then have "log_gained (log_key k) lg lg1" "sound_log lg1" using next_label_gained by simp_all
  then have "log_gained (log_key k) lg lg2"
    using store_result_append[OF a_result_stored(2)] log_gained_append log_gained_trans by blast
  then show ?case using a_result_stored by (simp add: changed_rightly_refl)
next
  case (a_save k lg a k' lg')
  then show ?case using save_gained[of lg k a k' lg'] by (simp add: changed_rightly_refl)
next
  case (once_per_round k lg)
  then show ?case by (simp add: save_once_per_round_def changed_rightly_refl log_gained_refl)
next
  case (a_change f k w lg a k' lg')
  have sound: "sound_log lg" and stands: "standing (kp_record k)" using a_change by simp_all
  from a_change(2) show ?case
  proof (cases rule: change_or_wait_cases)
    case (refused e)
    then show ?thesis using sound stands by (simp add: changed_rightly_refl log_gained_refl)
  next
    case (unsaved e c)
    have "log_append lg (new_event (log_key (k\<lparr>kp_record := c\<rparr>)) event_checkpoint
        (checkpoint_body (next_checkpoint (k\<lparr>kp_record := c\<rparr>)))) = (Inl e, lg')"
      using save_Inl[OF unsaved(3)] by simp
    then have "log_contents lg' = log_contents lg \<and> sound_log lg'"
      using log_store.app_Inl[OF sound] log_store.app_ok[OF sound] by (metis snd_conv)
    then show ?thesis using unsaved stands by (simp add: changed_rightly_refl log_gained_def)
  next
    case (waiting c)
    then show ?thesis using went_through_rightly[OF waiting(2) a_change(1) stands] sound
      by (simp add: log_gained_refl)
  next
    case (saved c)
    have right: "changed_rightly (kp_record k) c" by (rule went_through_rightly[OF saved(2) a_change(1) stands])
    then have "log_key (k\<lparr>kp_record := c\<rparr>) = log_key k"
      by (intro log_key_place) (simp add: changed_rightly_def)
    then show ?thesis using save_gained[OF sound saved(4)] right by simp
  qed
qed

lemma moves_keep:
  assumes "keeper_moves u s s'" "sound_log (snd s)" "standing (kp_record (fst s))"
  shows "changed_rightly (kp_record (fst s)) (kp_record (fst s')) \<and> log_gained (log_key (fst s)) (snd s) (snd s')"
  using assms
proof (induction rule: rtranclp_induct)
  case base
  then show ?case by (simp add: changed_rightly_refl log_gained_refl)
next
  case (step s1 s2)
  have one: "changed_rightly (kp_record (fst s)) (kp_record (fst s1))"
    "log_gained (log_key (fst s)) (snd s) (snd s1)" using step by simp_all
  then have key: "log_key (fst s1) = log_key (fst s)" by (simp add: changed_rightly_def log_key_place)
  have "changed_rightly (kp_record (fst s1)) (kp_record (fst s2)) \<and> log_gained (log_key (fst s1)) (snd s1) (snd s2)"
    using one by (intro move_keeps[OF step(2)]) (simp_all add: changed_rightly_def log_gained_def)
  then show ?case using one key changed_rightly_trans log_gained_trans by (metis (no_types))
qed

section \<open>Numbered checkpoints, kept by every move\<close>

lemma numbered_same_log:
  "log_contents lg' = log_contents lg \<Longrightarrow> numbered st k lg' cs = numbered st k lg cs"
  by (simp add: numbered_def)

lemma numbered_same_keeper [simp]:
  "numbered st (k\<lparr>kp_record := c\<rparr>) lg cs = numbered st k lg cs"
  "numbered st (k\<lparr>kp_record := c, kp_unsaved := b\<rparr>) lg cs = numbered st k lg cs"
  "numbered st (save_once_per_round k) lg cs = numbered st k lg cs"
  by (simp_all add: numbered_def save_once_per_round_def)

lemma numbered_other_event:
  assumes "sound_log lg" "log_append lg e = (x, lg')"
    "ev_task e \<noteq> start_key st \<or> ev_kind e \<noteq> event_checkpoint"
  shows "numbered st k lg' cs \<longleftrightarrow> numbered st k lg cs"
proof (cases x)
  case (Inl err)
  then have "log_contents lg' = log_contents lg" using log_store.app_Inl[OF assms(1)] assms(2) by simp
  then show ?thesis by (rule numbered_same_log)
next
  case (Inr n)
  then have "log_contents lg' = log_contents lg @ [e\<lparr>ev_sequence := n\<rparr>]"
    using log_store.app_Inr[OF assms(1)] assms(2) by simp
  then have "saved_checkpoints (start_key st) (log_contents lg') = saved_checkpoints (start_key st) (log_contents lg)"
    using saved_other_event[of "e\<lparr>ev_sequence := n\<rparr>" "start_key st"] assms(3)
    by (simp add: saved_checkpoints_append)
  then show ?thesis by (simp add: numbered_def)
qed

lemma refused_save_numbered:
  "sound_log lg \<Longrightarrow> save k lg = (Inl e, k', lg') \<Longrightarrow> log_contents lg' = log_contents lg"
  using save_Inl[of k lg e k' lg'] log_store.app_Inl by blast

lemma result_is_no_checkpoint: "event_tool_result \<noteq> event_checkpoint"
  by (simp add: event_kind_defs)

lemma move_numbered:
  assumes "keeper_move u s s'" "sound_log (snd s)" "standing (kp_record (fst s))"
    "log_key (fst s) = start_key st" "numbered st (fst s) (snd s) cs" "up_to_date (fst s) cs"
  shows "\<exists>cs'. numbered st (fst s') (snd s') cs' \<and> up_to_date (fst s') cs' \<and> prefix cs cs'"
  using assms
proof (induction rule: keeper_move.induct)
  case (a_read lg key x lg' k)
  then have "numbered st k lg' cs"
    using numbered_same_log log_store.task_same[of lg key] by (metis fst_conv snd_conv)
  then show ?case using a_read by auto
next
  case (a_result_stored k lg s lg1 x lg2)
  have lg1: "log_contents lg1 = log_contents lg" "sound_log lg1"
    using next_label_gained[OF _ a_result_stored(1)] a_result_stored(3) by simp_all
  obtain y where "log_append lg1 (new_event (log_key k) event_tool_result (result_body s)) = (y, lg2)"
    using store_result_append[OF a_result_stored(2)] by blast
  then have "numbered st k lg2 cs = numbered st k lg1 cs"
    using result_is_no_checkpoint by (intro numbered_other_event[OF lg1(2)]) (auto simp: new_event_def)
  then have "numbered st k lg2 cs" using numbered_same_log[OF lg1(1)] a_result_stored(6) by simp
  then show ?case using a_result_stored by auto
next
  case (a_save k lg a k' lg')
  show ?case
  proof (cases a)
    case (Inl e)
    then have "numbered st k lg' cs = numbered st k lg cs"
      using a_save by (intro numbered_same_log refused_save_numbered[of lg k e k' lg']) simp_all
    then show ?thesis using a_save Inl save_Inl[of k lg e k' lg'] by auto
  next
    case (Inr x)
    then show ?thesis using a_save save_numbered[of lg st k cs x k' lg'] by auto
  qed
next
  case (once_per_round k lg)
  then show ?case by (intro exI[of _ cs]) (simp add: up_to_date_def save_once_per_round_def[of k] numbered_def)
next
  case (a_change f k w lg a k' lg')
  have sound: "sound_log lg" and stands: "standing (kp_record k)" and num: "numbered st k lg cs"
    and key: "log_key k = start_key st" and date: "up_to_date k cs" using a_change by simp_all
  from a_change(2) show ?case
  proof (cases rule: change_or_wait_cases)
    case (refused e)
    then show ?thesis using num date by auto
  next
    case (unsaved e c)
    have "numbered st k lg' cs"
      using num numbered_same_log[OF refused_save_numbered[OF sound unsaved(3)]] by simp
    then show ?thesis using date unsaved(2) by auto
  next
    case (waiting c)
    then show ?thesis using num by (auto simp: up_to_date_def)
  next
    case (saved c)
    have "changed_rightly (kp_record k) c" by (rule went_through_rightly[OF saved(2) a_change(1) stands])
    then have "log_key (k\<lparr>kp_record := c\<rparr>) = start_key st"
      unfolding key[symmetric] by (intro log_key_place) (simp add: changed_rightly_def)
    then show ?thesis using save_numbered[OF sound _ _ saved(4)] num by auto
  qed
qed

section \<open>Runs\<close>

definition sound_state :: "start_of_record \<Rightarrow> keeper \<Rightarrow> event_log \<Rightarrow> bool" where
  "sound_state st k lg \<longleftrightarrow> sound_log lg \<and> standing (start_record st)
     \<and> changed_rightly (start_record st) (kp_record k)
     \<and> (\<exists>cs. numbered st k lg cs \<and> up_to_date k cs)"

lemma sound_state_key: "sound_state st k lg \<Longrightarrow> log_key k = start_key st"
  by (simp add: sound_state_def changed_rightly_def fixed_part_def log_key_def keeper_kind_def
      keeper_id_def start_key_def start_record_place)

lemma move_sound:
  assumes "keeper_move u (k, lg) (k', lg')" "sound_state st k lg"
  shows "sound_state st k' lg'"
proof -
  obtain cs where cs: "numbered st k lg cs" "up_to_date k cs" and sound: "sound_log lg"
    and right: "changed_rightly (start_record st) (kp_record k)"
    using assms(2) by (auto simp: sound_state_def)
  have stands: "standing (kp_record k)" using right by (simp add: changed_rightly_def)
  have "changed_rightly (kp_record k) (kp_record k') \<and> log_gained (log_key k) lg lg'"
    using move_keeps[OF assms(1)] sound stands by simp
  moreover have "\<exists>cs'. numbered st k' lg' cs' \<and> up_to_date k' cs' \<and> prefix cs cs'"
    using move_numbered[OF assms(1)] sound stands cs sound_state_key[OF assms(2)] by simp
  ultimately show ?thesis using right changed_rightly_trans assms(2)
    by (auto simp: sound_state_def log_gained_def)
qed

lemma moves_sound: "keeper_moves u s s' \<Longrightarrow> sound_state st (fst s) (snd s) \<Longrightarrow> sound_state st (fst s') (snd s')"
  by (induction rule: rtranclp_induct) (auto intro: move_sound)

lemma perform_sound: "perform u call k lg = (a, k', lg') \<Longrightarrow> sound_state st k lg \<Longrightarrow> sound_state st k' lg'"
  using moves_sound[OF perform_moves] by fastforce

lemma start_stands:
  assumes "reads_back (start_record st)"
  shows "standing (start_record st)"
  using assms by (simp add: standing_def proof_holds_def short_lessons_def start_record_def empty_defs)

lemma new_keeper_Inr:
  assumes "new_keeper st lg = (Inr k, lg')"
  shows "reads_back (start_record st) \<and> (\<exists>x. save \<lparr>kp_record = start_record st, kp_checkpoint = 0,
      kp_ask_from = 0, kp_once_per_round = False, kp_unsaved = False\<rparr> lg = (Inr x, k, lg'))"
proof -
  let ?k = "\<lparr>kp_record = start_record st, kp_checkpoint = 0, kp_ask_from = 0,
                 kp_once_per_round = False, kp_unsaved = False\<rparr>"
  have "check_it_reads_back (start_record st) = Inr ()"
    using assms by (auto simp: new_keeper_def Let_def split: if_splits sum.splits)
  then show ?thesis using assms
    by (auto simp: new_keeper_def Let_def reads_back_check split: if_splits sum.splits prod.splits)
qed

lemma new_keeper_sound:
  assumes "sound_log lg" "saved_checkpoints (start_key st) (log_contents lg) = []"
    "new_keeper st lg = (Inr k, lg')"
  shows "sound_state st k lg'"
proof -
  let ?k = "\<lparr>kp_record = start_record st, kp_checkpoint = 0, kp_ask_from = 0,
                 kp_once_per_round = False, kp_unsaved = False\<rparr>"
  obtain x where rb: "reads_back (start_record st)" and sv: "save ?k lg = (Inr x, k, lg')"
    using new_keeper_Inr[OF assms(3)] by blast
  have first: "numbered st k lg' [first_checkpoint st] \<and> up_to_date k [first_checkpoint st]
    \<and> kp_record k = start_record st"
    using first_save_numbered[OF assms(1,2) refl sv] by simp
  have "sound_log lg'" using save_gained[OF assms(1) sv] by (simp add: log_gained_def)
  moreover have "changed_rightly (start_record st) (kp_record k)"
    using first start_stands[OF rb] by (simp add: changed_rightly_refl)
  ultimately show ?thesis using first start_stands[OF rb] by (auto simp: sound_state_def)
qed

lemma elsewhere_sound:
  assumes "sound_state st k lg" "log_append lg e = (x, lg')"
    "ev_task e \<noteq> start_key st \<or> ev_kind e \<noteq> event_checkpoint"
  shows "sound_state st k lg'"
proof -
  have sound: "sound_log lg" using assms(1) by (simp add: sound_state_def)
  then have "sound_log lg'" using log_store.app_ok[of lg e] assms(2) by simp
  then show ?thesis using assms(1) numbered_other_event[OF sound assms(2,3)] by (simp add: sound_state_def)
qed

end
