(* ===== verification/Keeper_Checkpoints.thy ===== *)
theory Keeper_Checkpoints
  imports Keeper_Runs
begin

text \<open>
  What comes back out of the log: a record loaded after a save, a record wound back to, the full text
  of a result, and that the label of a new result was never given before.
\<close>

section \<open>Reading the log\<close>

definition answers_for :: "nat \<Rightarrow> event_log \<Rightarrow> bool" where
  "answers_for n lg \<longleftrightarrow> list_all id (take n (lg_answers lg))"

lemma answers_now_for: "answers_for (Suc n) lg \<Longrightarrow> answers_now lg \<and> answers_for n (one_call_later lg)"
  by (cases "lg_answers lg") (auto simp: answers_for_def answers_now_def one_call_later_def)

lemma own_events_rows:
  "own_events key (log_contents lg) = map row_event (filter (\<lambda>w. rw_task w = key) (lg_rows lg))"
  by (simp add: own_events_def log_contents_def map_filter_event)

lemma by_task_answers:
  assumes "sound_log lg" "answers_now lg" "key \<noteq> []"
    "length (own_events key (log_contents lg)) \<le> max_events_per_read"
  shows "by_task lg key = ((own_events key (log_contents lg), None), one_call_later lg)"
proof -
  let ?r = "log_events lg (\<lambda>w. rw_task w = key) (int max_events_per_read)"
  have "fst ?r = (own_events key (log_contents lg), None)"
    using assms by (simp add: log_events_sound own_events_rows)
  moreover have "snd ?r = one_call_later lg" by (rule log_events_log)
  ultimately show ?thesis using assms(3) by (simp add: by_task_def prod_eq_iff)
qed

lemma collect_checkpoints_all:
  "map (\<lambda>e. b_checkpoint (ev_body e)) (filter (\<lambda>e. ev_kind e = event_checkpoint) es) = map Some cs \<Longrightarrow>
    sofar + length cs \<le> max_checkpoints \<Longrightarrow> collect_checkpoints sofar es = Inr cs"
proof (induction sofar es arbitrary: cs rule: collect_checkpoints.induct)
  case (2 sofar e es)
  show ?case
  proof (cases "ev_kind e = event_checkpoint")
    case True
    then obtain c cs' where cs: "cs = c # cs'" "b_checkpoint (ev_body e) = Some c"
      "map (\<lambda>e. b_checkpoint (ev_body e)) (filter (\<lambda>e. ev_kind e = event_checkpoint) es) = map Some cs'"
      using 2(3) by (cases cs) auto
    then have "collect_checkpoints (sofar + 1) es = Inr cs'" using True 2 by simp
    then show ?thesis using True cs 2(4) by simp
  qed (use 2 in simp)
qed simp

lemma sound_state_id: "sound_state st k lg \<Longrightarrow> read_count (st_id st) \<noteq> None \<and> st_id st \<noteq> [] \<and> start_key st \<noteq> []
    \<and> known_place (r_header (kp_record k)) \<and> st_ask st \<noteq> []"
proof -
  assume s: "sound_state st k lg"
  have "rules_hold (kp_record k)"
    using s reads_back_holds by (auto simp: sound_state_def changed_rightly_def standing_def)
  then have "known_place (r_header (kp_record k))" "g_ask (r_goal (kp_record k)) \<noteq> []"
    by (simp_all add: rules_hold_def)
  moreover from this s have "read_count (st_id st) \<noteq> None" "st_ask st \<noteq> []"
    by (auto simp: sound_state_def changed_rightly_def fixed_part_def start_record_place known_place_def)
  moreover from this have "st_id st \<noteq> []"
    by (auto simp: read_count_eq positive_number_value_def positive_number_def)
  ultimately show ?thesis by (auto simp: start_key_def record_log_key_def)
qed

lemma checkpoints_of_numbered:
  assumes s: "sound_state st k lg" and num: "numbered st k lg cs" and ans: "answers_now lg"
    and few: "length (own_events (start_key st) (log_contents lg)) \<le> max_events_per_read"
  shows "checkpoints_of lg (st_kind st) (st_id st) = (Inr cs, one_call_later lg)"
proof -
  let ?es = "own_events (start_key st) (log_contents lg)"
  have sound: "sound_log lg" using s by (simp add: sound_state_def)
  note ids = sound_state_id[OF s]
  have read: "by_task lg (start_key st) = ((?es, None), one_call_later lg)"
    using by_task_answers[OF sound ans _ few] ids by simp
  have cs: "saved_checkpoints (start_key st) (log_contents lg) = map Some cs" "cs \<noteq> []"
    using num by (simp_all add: numbered_def)
  have "length cs \<le> length ?es"
    using arg_cong[OF cs(1), of length]
    by (simp add: saved_checkpoints_def checkpoint_events_def)
      (metis length_filter_le)
  then have "collect_checkpoints 0 ?es = Inr cs"
    using cs(1) few
    by (intro collect_checkpoints_all) (simp_all add: saved_checkpoints_def checkpoint_events_def
        max_checkpoints_def max_events_per_read_def)
  then show ?thesis using read ids cs(2) by (simp add: checkpoints_of_def start_key_def[symmetric])
qed

section \<open>A checkpoint read back\<close>

text \<open>
  \<open>encoding/json\<close> keeps a text exactly when it is UTF-8, and the stand-in for the ask may make a
  record longer, so a record comes back from the log under these conditions.
\<close>

definition carried :: "start_of_record \<Rightarrow> record_of_work \<Rightarrow> bool" where
  "carried st r \<longleftrightarrow> valid_utf8 (print_whole (start_record st)) \<and> valid_utf8 (print_whole r)
     \<and> valid_utf8 (print_whole (with_the_ask_standing_in r)) \<and> fits_a_text (with_the_ask_standing_in r)"

lemma json_text_valid: "valid_utf8 s \<Longrightarrow> json_text s = s"
  by (simp add: json_text_def valid_utf8_def)

lemma stand_in_reads_back:
  assumes "reads_back r" "fits_a_text (with_the_ask_standing_in r)"
  shows "reads_back (with_the_ask_standing_in r)"
proof -
  let ?s = "with_the_ask_standing_in r"
  have parts: "r_header ?s = r_header r" "g_done_when (r_goal ?s) = g_done_when (r_goal r)"
    "r_rules ?s = r_rules r" "r_work ?s = r_work r" "r_lessons ?s = r_lessons r"
    "g_ask (r_goal ?s) \<noteq> []"
    by (simp_all add: with_the_ask_standing_in_def ask_held_elsewhere_def)
  have "lists_read ?s" using assms(1) by (simp add: reads_back_iff lists_read_def parts)
  moreover have "header_read ?s = Some (r_header ?s)"
    using assms(1) by (simp add: reads_back_iff header_read_def header_lines_def with_the_proved_count_def parts)
  ultimately show ?thesis using assms(2) parts by (simp add: reads_back_iff)
qed

lemma carried_reads:
  assumes "carried st r" "standing r"
  shows "parse_record (text_for cs r) = Inr (if length cs = 1 then r else with_the_ask_standing_in r)"
  using assms stand_in_reads_back[of r]
  by (simp add: carried_def standing_def text_for_def json_text_valid reads_back_def)

lemma start_reads:
  assumes "carried st r" "reads_back (start_record st)"
  shows "parse_record (cp_text (first_checkpoint st)) = Inr (start_record st)"
  using assms by (simp add: carried_def first_checkpoint_def json_text_valid reads_back_def)

lemma numbered_nth:
  assumes "numbered st k lg cs" "j < length cs"
  shows "cp_number (cs ! j) = int j + 1 \<and> (cp_ask_from (cs ! j) = (if j = 0 then 0 else 1))"
proof -
  have nums: "map cp_number cs = map (\<lambda>i. int i + 1) [0..<length cs]"
    and hd_cs: "hd cs = first_checkpoint st" and tl_cs: "\<forall>c \<in> set (tl cs). cp_ask_from c = 1"
    and ne: "cs \<noteq> []"
    using assms(1) by (simp_all add: numbered_def first_checkpoint_def)
  have "cp_number (cs ! j) = int j + 1"
    using arg_cong[OF nums, of "\<lambda>xs. xs ! j"] assms(2) by simp
  moreover have "cp_ask_from (cs ! j) = (if j = 0 then 0 else 1)"
  proof (cases j)
    case 0
    then show ?thesis using hd_cs ne by (simp add: hd_conv_nth first_checkpoint_def)
  next
    case (Suc i)
    then have "cs ! j \<in> set (tl cs)" using assms(2) by (cases cs) auto
    then show ?thesis using tl_cs Suc by simp
  qed
  ultimately show ?thesis by simp
qed

lemma numbered_find:
  assumes "numbered st k lg cs" "j < length cs"
  shows "find (\<lambda>c. cp_number c = int j + 1) cs = Some (cs ! j)"
  unfolding find_Some_iff
  using assms numbered_nth[OF assms(1)] by (intro exI[of _ j]) simp

text \<open>The checkpoint that was saved of a record gives a keeper that holds that record again.\<close>

lemma hold_saved:
  assumes num: "numbered st k lg cs" and j: "j < length cs"
    and saved_text: "cp_text (cs ! j) = text_for (take (j + 1) cs) r"
    and car: "carried st r" and right: "changed_rightly (start_record st) r"
    and start: "reads_back (start_record st)" "st_ask st \<noteq> []"
  shows "hold_checkpoint (st_kind st) cs (cs ! j) =
    Inr \<lparr>kp_record = r, kp_checkpoint = int j + 1, kp_ask_from = 1, kp_once_per_round = False, kp_unsaved = False\<rparr>"
proof -
  have place: "h_kind (r_header r) = st_kind st" "h_id (r_header r) = st_id st" "g_ask (r_goal r) = st_ask st"
    using right by (simp_all add: changed_rightly_def fixed_part_def start_record_place)
  have stands: "standing r" using right by (simp add: changed_rightly_def)
  have "known_place (r_header r)" using stands reads_back_holds by (auto simp: standing_def rules_hold_def)
  then have id: "h_id (r_header r) \<noteq> []"
    by (auto simp: known_place_def read_count_eq positive_number_value_def positive_number_def)
  have printed: "parse_record (cp_text (cs ! j)) = Inr (if j = 0 then r else with_the_ask_standing_in r)"
    unfolding saved_text using j carried_reads[OF car stands, of "take (j + 1) cs"] by auto
  have number: "cp_number (cs ! j) = int j + 1" "cp_ask_from (cs ! j) = (if j = 0 then 0 else 1)"
    using numbered_nth[OF num j] by simp_all
  have read: "read_checkpoint (cs ! j) (the_ask_among cs (cs ! j)) = Inr r"
  proof (cases "j = 0")
    case True
    then show ?thesis using printed number by (simp add: read_checkpoint_def)
  next
    case False
    have "find (\<lambda>c. cp_number c = 1) cs = Some (cs ! 0)" using numbered_find[OF num, of 0] j by force
    moreover have "cs ! 0 = first_checkpoint st"
      using num by (cases cs) (simp_all add: numbered_def first_checkpoint_def)
    ultimately have ask: "the_ask_among cs (cs ! j) = st_ask st"
      using False number start_reads[OF car start(1)]
      by (simp add: the_ask_among_def carries_the_ask_def start_record_place)
    have "set_goal (\<lambda>g. g\<lparr>g_ask := st_ask st\<rparr>) (with_the_ask_standing_in r) = r"
      by (simp add: set_goal_def with_the_ask_standing_in_def place(3)[symmetric])
    then show ?thesis using False printed number start(2) by (simp add: read_checkpoint_def ask)
  qed
  have "ask_carried_by (cs ! j) = 1" using number by (simp add: ask_carried_by_def carries_the_ask_def)
  then show ?thesis using read place id number by (simp add: hold_checkpoint_def hold_def)
qed

lemma numbered_take_last:
  "numbered st k lg cs \<Longrightarrow> take (length cs - 1 + 1) cs = cs \<and> cs ! (length cs - 1) = last cs \<and> 0 < length cs"
  by (auto simp: numbered_def last_conv_nth)

lemma start_stands_back: "changed_rightly (start_record st) r \<Longrightarrow> standing r" by (simp add: changed_rightly_def)

definition few_events :: "start_of_record \<Rightarrow> event_log \<Rightarrow> bool" where
  "few_events st lg \<longleftrightarrow> length (own_events (start_key st) (log_contents lg)) \<le> max_events_per_read"

text \<open>A load gives the keeper that saved last, whatever happened in between elsewhere in the log.\<close>

lemma load_gives:
  assumes s: "sound_state st k lg" and saved: "\<not> kp_unsaved k" and car: "carried st (kp_record k)"
    and ans: "answers_now lg" and few: "few_events st lg"
  shows "load lg (st_kind st) (st_id st) = (Inr (k\<lparr>kp_once_per_round := False\<rparr>), one_call_later lg)"
proof -
  obtain cs where num: "numbered st k lg cs" and date: "up_to_date k cs"
    using s by (auto simp: sound_state_def)
  have right: "changed_rightly (start_record st) (kp_record k)" using s by (simp add: sound_state_def)
  have start: "reads_back (start_record st)" using s by (simp add: sound_state_def standing_def)
  obtain n where n: "length cs = n + 1"
    using numbered_take_last[OF num] by (metis Suc_eq_plus1 gr0_implies_Suc)
  have last_cs: "take (n + 1) cs = cs" "cs ! n = last cs" "n < length cs"
    using numbered_take_last[OF num] n by simp_all
  have "hold_checkpoint (st_kind st) cs (last cs) = Inr \<lparr>kp_record = kp_record k,
      kp_checkpoint = int n + 1, kp_ask_from = 1, kp_once_per_round = False, kp_unsaved = False\<rparr>"
    using hold_saved[OF num, of n "kp_record k"] date saved car right start last_cs
      sound_state_id[OF s]
    by (simp add: up_to_date_def)
  moreover have "int n + 1 = kp_checkpoint k" "kp_ask_from k = 1"
    using num n by (simp_all add: numbered_def)
  ultimately show ?thesis
    using checkpoints_of_numbered[OF s num ans] few saved by (simp add: load_def few_events_def)
qed

section \<open>Winding back\<close>

lemma earlier_checkpoints:
  assumes "numbered st k0 lg0 cs0" "numbered st k lg cs" "prefix (log_contents lg0) (log_contents lg)"
  shows "prefix cs0 cs"
proof -
  obtain es where "log_contents lg = log_contents lg0 @ es" using assms(3) by (auto simp: prefix_def)
  then have "map Some cs = map Some cs0 @ saved_checkpoints (start_key st) es"
    using assms(1,2) by (simp add: numbered_def saved_checkpoints_append)
  then have "prefix (map Some cs0) (map Some cs)" by simp
  then show ?thesis by (auto simp: prefix_def map_eq_append_conv inj_map_eq_map inj_Some)
qed

lemma one_call_later_numbered [simp]: "numbered st k (one_call_later lg) cs = numbered st k lg cs"
  by (simp add: numbered_def)

lemma one_call_later_sound [simp]: "sound_state st k (one_call_later lg) = sound_state st k lg"
  by (simp add: sound_state_def)

lemma append_answers:
  "answers_now lg \<Longrightarrow> lg_next lg \<le> max_int \<Longrightarrow> known_event_kind (ev_kind e) \<Longrightarrow> b_is_json (ev_body e) \<Longrightarrow>
    \<exists>lg'. log_append lg e = (Inr (lg_next lg), lg')"
  by (simp add: log_append_def)

lemma save_answers:
  assumes "answers_now lg" "lg_next lg \<le> max_int"
  shows "\<exists>k' lg'. save k lg = (Inr (), k', lg')"
proof -
  let ?e = "new_event (log_key k) event_checkpoint (checkpoint_body (next_checkpoint k))"
  obtain lg' where "log_append lg ?e = (Inr (lg_next lg), lg')"
    using append_answers[OF assms, of ?e]
    by (auto simp: new_event_def known_event_kind_def checkpoint_body_def)
  then show ?thesis by (simp add: save_def Let_def)
qed

text \<open>Winding back to a state that was saved gives its record again, as the next checkpoint.\<close>

lemma wind_back_gives:
  assumes s0: "sound_state st k0 lg0" and saved: "\<not> kp_unsaved k0" and car: "carried st (kp_record k0)"
    and s: "sound_state st k lg" and past: "prefix (log_contents lg0) (log_contents lg)"
    and steps: "kp_checkpoint k0 < kp_checkpoint k"
    and ans: "answers_for 3 lg" and room: "lg_next lg \<le> max_int" and few: "few_events st lg"
  shows "\<exists>k' lg'. wind_back lg (st_kind st) (st_id st) (kp_checkpoint k - kp_checkpoint k0) = (Inr k', lg')
    \<and> kp_record k' = kp_record k0 \<and> kp_checkpoint k' = kp_checkpoint k + 1
    \<and> sound_state st k' lg' \<and> log_gained (start_key st) lg lg'"
proof -
  obtain cs0 where num0: "numbered st k0 lg0 cs0" and date0: "up_to_date k0 cs0"
    using s0 by (auto simp: sound_state_def)
  obtain cs where num: "numbered st k lg cs" using s by (auto simp: sound_state_def)
  have pre: "prefix cs0 cs" by (rule earlier_checkpoints[OF num0 num past])
  have right: "changed_rightly (start_record st) (kp_record k0)" and start: "reads_back (start_record st)"
    using s0 by (simp_all add: sound_state_def standing_def)
  obtain n where n: "length cs0 = n + 1"
    using numbered_take_last[OF num0] by (metis Suc_eq_plus1 gr0_implies_Suc)
  have at: "kp_checkpoint k0 = int n + 1" "kp_checkpoint k = int (length cs)"
    using num0 num n by (simp_all add: numbered_def)
  have cs0: "take (n + 1) cs = cs0" "cs ! n = last cs0" "n < length cs"
    using pre n numbered_take_last[OF num0] by (auto simp: prefix_def nth_append)
  let ?k1 = "\<lparr>kp_record = kp_record k0, kp_checkpoint = int n + 1, kp_ask_from = 1,
      kp_once_per_round = False, kp_unsaved = False\<rparr>"
  have hold: "hold_checkpoint (st_kind st) cs (cs ! n) = Inr ?k1"
    using hold_saved[OF num cs0(3) _ car right start] date0 saved cs0 sound_state_id[OF s]
    by (simp add: up_to_date_def)
  have ans1: "answers_now lg" "answers_now (one_call_later lg)" "answers_now (one_call_later (one_call_later lg))"
    using ans answers_now_for[of 2 lg] answers_now_for[of 1 "one_call_later lg"]
      answers_now_for[of 0 "one_call_later (one_call_later lg)"] by (simp_all add: numeral_eq_Suc)
  let ?lg2 = "one_call_later (one_call_later lg)"
  have read1: "checkpoints_of lg (st_kind st) (st_id st) = (Inr cs, one_call_later lg)"
    using checkpoints_of_numbered[OF s num ans1(1)] few by (simp add: few_events_def)
  have read2: "checkpoints_of (one_call_later lg) (st_kind st) (st_id st) = (Inr cs, ?lg2)"
    using checkpoints_of_numbered[of st k "one_call_later lg" cs] s num ans1(2) few
    by (simp add: few_events_def)
  have find_n: "find (\<lambda>c. cp_number c = int n + 1) cs = Some (cs ! n)" by (rule numbered_find[OF num cs0(3)])
  have load: "load_checkpoint (one_call_later lg) (st_kind st) (st_id st) (int n + 1) = (Inr ?k1, ?lg2)"
    using read2 find_n hold by (simp add: load_checkpoint_def)
  have last_number: "cp_number (last cs) = int (length cs)"
    using numbered_nth[OF num, of "length cs - 1"] numbered_take_last[OF num] by (simp add: of_nat_diff)
  have sound: "sound_log lg" using s by (simp add: sound_state_def)
  have "length cs \<le> length (lg_rows lg)"
    using num checkpoints_bound[of "start_key st" lg] by (simp add: numbered_def)
  then have "int (length cs) \<le> max_int" using rows_bound[OF sound] room by simp
  then have wanted: "wrap64 (cp_number (last cs) - (kp_checkpoint k - kp_checkpoint k0)) = int n + 1"
    using at last_number cs0(3) by (simp add: wrap64_small)
  let ?k2 = "?k1\<lparr>kp_checkpoint := int (length cs)\<rparr>"
  obtain k' lg' where sv: "save ?k2 ?lg2 = (Inr (), k', lg')"
    using save_answers[OF ans1(3), of ?k2] room by (auto simp: one_call_later_def)
  have wound: "wind_back lg (st_kind st) (st_id st) (kp_checkpoint k - kp_checkpoint k0) = (Inr k', lg')"
    using steps read1 load sv wanted by (simp add: wind_back_def Let_def last_number)
  have key: "log_key ?k2 = start_key st"
    using right by (simp add: changed_rightly_def fixed_part_def log_key_def keeper_kind_def
        keeper_id_def start_key_def start_record_place)
  have num2: "numbered st ?k2 ?lg2 cs" using num by (simp add: numbered_def)
  have rec: "kp_record k' = kp_record k0" and gained: "log_gained (start_key st) ?lg2 lg'"
    using save_gained[OF _ sv] sound key by simp_all
  obtain cs' where cs': "numbered st k' lg' cs'" "up_to_date k' cs'" "length cs' = length cs + 1"
    using save_numbered[OF _ num2 key sv] sound by auto
  have "sound_state st k' lg'"
    using s right rec cs' gained by (auto simp: sound_state_def log_gained_def)
  moreover have "kp_checkpoint k' = kp_checkpoint k + 1"
    using cs'(1,3) at(2) by (simp add: numbered_def)
  moreover have "log_gained (start_key st) lg lg'" using gained by (simp add: log_gained_def)
  ultimately show ?thesis using wound rec by blast
qed

end
