(* ===== verification/Keeper_Life.thy ===== *)
theory Keeper_Life
  imports Keeper_Checkpoints
begin

text \<open>
  A keeper among everything else that writes into the log. The label of a new result was never given
  before, so the text stored under it stays the one that is read back. \<open>keeper_run\<close> is the
  relation of the states a keeper can come to, restarts and winding back included, and
  \<open>keeper_run_sound\<close> its invariant by rule induction.
\<close>

section \<open>Labels are never given twice\<close>

definition stored_results :: "event list \<Rightarrow> stored_result list" where
  "stored_results es = List.map_filter
     (\<lambda>e. if ev_kind e = event_tool_result then b_result (ev_body e) else None) es"

lemma stored_results_simps [simp]:
  "stored_results [] = []"
  "stored_results (e # es) =
     (if ev_kind e = event_tool_result
      then (case b_result (ev_body e) of None \<Rightarrow> stored_results es | Some s \<Rightarrow> s # stored_results es)
      else stored_results es)"
  by (simp_all add: stored_results_def List.map_filter_def split: option.split)

lemma stored_results_append: "stored_results (xs @ ys) = stored_results xs @ stored_results ys"
  by (simp add: stored_results_def List.map_filter_def)

lemma highest_in_events_upper:
  "s \<in> set (stored_results es) \<Longrightarrow> result_number h (sr_id s) = Some n \<Longrightarrow> n \<le> highest_in_events h a es"
proof (induction h a es rule: highest_in_events.induct)
  case (2 h a e es)
  have least: "b \<le> highest_in_events h b es" for b by (rule highest_in_events_least)
  show ?case
  proof (cases "s \<in> set (stored_results es)")
    case True
    then show ?thesis using 2 by simp
  next
    case False
    then have "ev_kind e = event_tool_result" "b_result (ev_body e) = Some s"
      using 2(2) by (auto split: if_splits option.splits)
    then show ?thesis using 2(3) least[of n] least[of a] by (auto intro: order_trans)
  qed
qed simp

lemma highest_in_events_small:
  assumes "known_place h" "a \<le> max_int"
  shows "highest_in_events h a es \<le> max_int"
  using assms
proof (induction h a es rule: highest_in_events.induct)
  case (2 h a e es)
  then show ?case using record_label.mk_rd[OF 2(2)] by (auto split: option.split)
qed simp

lemma wrapped_label_reads_nothing:
  assumes "known_place h"
  shows "result_number h (next_result_id h max_int) = None"
proof (cases "result_number h (next_result_id h max_int)")
  case (Some n)
  have "wrap64 (max_int + 1) = - max_int - 1" by (simp add: wrap64_def max_int_def)
  moreover have "itoa n = itoa (wrap64 (max_int + 1))" "1 \<le> n" "n \<le> max_int"
    using record_label.mk_rd[OF assms Some]
    by (auto simp: result_label_of_def next_result_id_def report_id_def result_id_def split: if_splits)
  ultimately have "atoi (itoa n) = Some (- max_int - 1)" by simp
  then show ?thesis using \<open>1 \<le> n\<close> \<open>n \<le> max_int\<close> by (simp add: max_int_def)
qed

text \<open>A new label is on no line of the record and on no result stored in its log.\<close>

lemma new_label_is_new:
  assumes place: "known_place (r_header (kp_record k))" and sound: "sound_log lg"
    and lab: "next_result_label k lg = (Inr i, lg')"
    and old: "j \<in> rl_id ` set (w_results (r_work (kp_record k)))
      \<union> sr_id ` set (stored_results (own_events (log_key k) (log_contents lg)))"
    and reads: "result_number (r_header (kp_record k)) j \<noteq> None"
  shows "i \<noteq> j"
proof
  assume same: "i = j"
  let ?h = "r_header (kp_record k)" and ?n = "highest_result_number_on (kp_record k)"
  obtain es where es: "by_task lg (log_key k) = ((es, None), lg')"
    and i: "i = next_result_id ?h (highest_in_events ?h ?n es)"
    using next_result_label_gives[OF lab] by blast
  have own: "es = own_events (log_key k) (log_contents lg)"
    using log_store.task_answer[OF sound es] by (simp add: own_events_def)
  let ?m = "highest_in_events ?h ?n es"
  have range: "0 \<le> ?n" "?n \<le> max_int" using highest_result_number_range place by auto
  have m: "?n \<le> ?m" "?m \<le> max_int"
    using highest_in_events_least highest_in_events_small[OF place range(2)] by auto
  have "?m \<noteq> max_int" using wrapped_label_reads_nothing[OF place] i same reads by auto
  then have lt: "?m < max_int" using m(2) by simp
  obtain n where n: "result_number ?h j = Some n" using reads by blast
  have "n \<le> ?m" using old
  proof
    assume "j \<in> rl_id ` set (w_results (r_work (kp_record k)))"
    then have "n \<le> ?n" using n highest_number_upper by (fastforce simp: highest_result_number_on_def)
    then show ?thesis using m by simp
  next
    assume "j \<in> sr_id ` set (stored_results (own_events (log_key k) (log_contents lg)))"
    then show ?thesis using n highest_in_events_upper own by fastforce
  qed
  moreover have "result_number ?h i = Some (?m + 1)"
    using record_label.rd_mk[OF place, of "?m + 1"] lt m range i
    by (simp add: next_result_id_label)
  ultimately show False using n same by simp
qed

section \<open>The text of a result\<close>

definition results_under :: "string \<Rightarrow> event_log \<Rightarrow> stored_result list" where
  "results_under key lg = stored_results (own_events key (log_contents lg))"

lemma last_stored_is:
  "last_stored i found es =
     (case rev (filter (\<lambda>s. sr_id s = i) (stored_results es)) of [] \<Rightarrow> found | s # _ \<Rightarrow> Some (sr_text s))"
  by (induction i found es rule: last_stored.induct) (auto split: option.split list.split)

lemma results_after_append:
  assumes "sound_log lg" "log_append lg e = (x, lg')"
  shows "results_under key lg' =
    (if (\<exists>n. x = Inr n) \<and> ev_task e = key then results_under key lg @ stored_results [e] else results_under key lg)"
proof (cases x)
  case (Inl err)
  then show ?thesis using log_store.app_Inl[OF assms(1)] assms(2) by (simp add: results_under_def)
next
  case (Inr n)
  then show ?thesis using log_store.app_Inr[OF assms(1)] assms(2)
    by (simp add: results_under_def own_events_def stored_results_append)
qed

lemma results_after_save:
  assumes "sound_log lg" "save k lg = (a, k', lg')"
  shows "results_under key lg' = results_under key lg"
proof -
  have none: "stored_results [new_event t event_checkpoint b] = []" for t b
    using result_is_no_checkpoint by (simp add: new_event_def)
  obtain x where "log_append lg (new_event (log_key k) event_checkpoint (checkpoint_body (next_checkpoint k))) = (x, lg')"
    using assms(2) by (cases a) (auto dest: save_Inl save_Inr)
  then show ?thesis using results_after_append[OF assms(1), of _ x lg' key] none by simp
qed

lemma results_after_change:
  assumes "sound_log lg" "change_or_wait f w k lg = (a, k', lg')"
  shows "results_under key lg' = results_under key lg"
  using assms(2) by (cases rule: change_or_wait_cases) (auto dest: results_after_save[OF assms(1)])

lemma itoa_ascii: "c \<in> set (itoa n) \<Longrightarrow> byte c < 128"
proof -
  have "is_digit d \<Longrightarrow> byte d < 128" for d by (auto simp: is_digit_def)
  then show "c \<in> set (itoa n) \<Longrightarrow> byte c < 128"
    using nat_digits_all_digits by (auto simp: itoa_def list_all_iff split: if_splits)
qed

lemma label_is_ascii:
  assumes "known_place h"
  shows "json_text (next_result_id h n) = next_result_id h n"
proof -
  have "is_digit d \<Longrightarrow> byte d < 128" for d by (auto simp: is_digit_def)
  then have "\<forall>c \<in> set (next_result_id h n). byte c < 128"
    using known_place_positive[OF assms] itoa_ascii
    by (auto simp: next_result_id_def report_id_def result_id_def positive_number_def list_all_iff)
  then show ?thesis by (intro json_text_valid valid_utf8_ascii)
qed

lemma new_label_ascii:
  assumes "known_place (r_header (kp_record k))" "next_result_label k lg = (Inr i, lg')"
  shows "json_text i = i"
  using next_label_bound[OF assms(2)] label_is_ascii[OF assms(1)] by auto

text \<open>What is read under a label, once it is stored, no later move of the keeper changes.\<close>

definition read_under :: "string \<Rightarrow> event_log \<Rightarrow> string \<Rightarrow> string option" where
  "read_under key lg i = last_stored i None (own_events key (log_contents lg))"

lemma read_under_is:
  "read_under key lg i = (case rev (filter (\<lambda>s. sr_id s = i) (results_under key lg)) of
     [] \<Rightarrow> None | s # _ \<Rightarrow> Some (sr_text s))"
  by (simp add: read_under_def last_stored_is results_under_def)

lemma read_under_held: "read_under key lg i = Some t \<Longrightarrow> i \<in> sr_id ` set (results_under key lg)"
proof -
  assume "read_under key lg i = Some t"
  then have "filter (\<lambda>s. sr_id s = i) (results_under key lg) \<noteq> []"
    by (auto simp: read_under_is split: list.splits)
  then show ?thesis by (auto simp: filter_empty_conv)
qed

lemma read_under_other:
  "results_under key lg' = results_under key lg @ ss \<Longrightarrow> \<forall>s \<in> set ss. sr_id s \<noteq> i \<Longrightarrow>
    read_under key lg' i = read_under key lg i"
  by (simp add: read_under_is filter_empty_conv)

lemma move_reads_same:
  assumes "keeper_move u (k, lg) (k', lg')" "sound_state st k lg"
    "read_under (start_key st) lg i = Some t" "result_number (r_header (kp_record k)) i \<noteq> None"
  shows "read_under (start_key st) lg' i = Some t"
proof -
  have sound: "sound_log lg" using assms(2) by (simp add: sound_state_def)
  have place: "known_place (r_header (kp_record k))" using sound_state_id[OF assms(2)] by simp
  have key: "log_key k = start_key st" by (rule sound_state_key[OF assms(2)])
  have same: "results_under (start_key st) lg' = results_under (start_key st) lg \<Longrightarrow> ?thesis"
    using assms(3) by (simp add: read_under_is)
  from assms(1) show ?thesis
  proof (cases rule: keeper_moveE[consumes 1, case_names a_read a_result a_change a_save once])
    case (a_read key' x)
    then have "lg' = snd (by_task lg key')" by simp
    then show ?thesis using same log_store.task_same[OF sound] by (simp add: results_under_def)
  next
    case (a_result s lg1 x)
    have lg1: "log_contents lg1 = log_contents lg" "sound_log lg1"
      using next_label_gained[OF sound] a_result by auto
    obtain y where app: "log_append lg1 (new_event (log_key k) event_tool_result (result_body s)) = (y, lg')"
      using store_result_append a_result by blast
    have lab: "next_result_label k lg = (Inr (sr_id s), lg1)" using a_result by simp
    have "sr_id s \<noteq> i"
    proof (rule new_label_is_new[OF place sound lab _ assms(4)])
      show "i \<in> rl_id ` set (w_results (r_work (kp_record k)))
        \<union> sr_id ` set (stored_results (own_events (log_key k) (log_contents lg)))"
        using read_under_held[OF assms(3)] key by (simp add: results_under_def)
    qed
    then have other: "\<forall>s' \<in> set (stored_results [new_event t event_tool_result (result_body s)]). sr_id s' \<noteq> i" for t
      using new_label_ascii[OF place lab] by (simp add: new_event_def result_body_def)
    have "results_under (start_key st) lg1 = results_under (start_key st) lg"
      by (simp add: results_under_def lg1)
    then have "\<exists>ss. results_under (start_key st) lg' = results_under (start_key st) lg @ ss \<and> (\<forall>s' \<in> set ss. sr_id s' \<noteq> i)"
      using results_after_append[OF lg1(2) app, of "start_key st"] other by (metis append_Nil2 empty_iff list.set(1))
    then show ?thesis using read_under_other assms(3) by metis
  next
    case (a_change f w a)
    then show ?thesis using same results_after_change[OF sound] by blast
  next
    case (a_save a)
    then show ?thesis using same results_after_save[OF sound] by blast
  next
    case once
    then show ?thesis using assms(3) by simp
  qed
qed

section \<open>The rest of the world\<close>

text \<open>
  A step of the world is a move of the keeper, an event of anybody else, who writes no checkpoint and no
  result under this record's key, or somebody's read.
\<close>

inductive world_step ::
  "unicode_tables \<Rightarrow> start_of_record \<Rightarrow> keeper \<times> event_log \<Rightarrow> keeper \<times> event_log \<Rightarrow> bool" for u st where
  own_move: "keeper_move u s s' \<Longrightarrow> world_step u st s s'"
| elsewhere: "log_append lg e = (x, lg') \<Longrightarrow>
    ev_task e \<noteq> start_key st \<or> ev_kind e \<notin> {event_checkpoint, event_tool_result} \<Longrightarrow>
    world_step u st (k, lg) (k, lg')"
| a_reader: "world_step u st (k, lg) (k, one_call_later lg)"

abbreviation world_steps ::
  "unicode_tables \<Rightarrow> start_of_record \<Rightarrow> keeper \<times> event_log \<Rightarrow> keeper \<times> event_log \<Rightarrow> bool" where
  "world_steps u st \<equiv> (world_step u st)\<^sup>*\<^sup>*"

lemma moves_are_world_steps: "keeper_moves u s s' \<Longrightarrow> world_steps u st s s'"
  by (induction rule: rtranclp_induct) (auto intro: own_move rtranclp.rtrancl_into_rtrancl)

lemma world_step_sound:
  "world_step u st s s' \<Longrightarrow> sound_state st (fst s) (snd s) \<Longrightarrow> sound_state st (fst s') (snd s')"
proof (induction rule: world_step.induct)
  case (own_move s s')
  then show ?case using move_sound[of u "fst s" "snd s" "fst s'" "snd s'" st] by simp
next
  case (elsewhere lg e x lg' k)
  then show ?case using elsewhere_sound[of st k lg e x lg'] by auto
qed simp

lemma world_steps_sound:
  "world_steps u st s s' \<Longrightarrow> sound_state st (fst s) (snd s) \<Longrightarrow> sound_state st (fst s') (snd s')"
  by (induction rule: rtranclp_induct) (auto intro: world_step_sound)

lemma same_reading_place:
  "sound_state st k lg \<Longrightarrow> sound_state st k' lg' \<Longrightarrow>
    result_number (r_header (kp_record k')) i = result_number (r_header (kp_record k)) i"
  by (intro result_number_place) (simp_all add: sound_state_def changed_rightly_def fixed_part_def)

lemma world_step_reads_same:
  assumes "world_step u st s s'" "sound_state st (fst s) (snd s)"
    "read_under (start_key st) (snd s) i = Some t" "result_number (r_header (kp_record (fst s))) i \<noteq> None"
  shows "read_under (start_key st) (snd s') i = Some t"
  using assms
proof (induction rule: world_step.induct)
  case (own_move s s')
  then show ?case using move_reads_same[of u "fst s" "snd s" "fst s'" "snd s'" st i t] by simp
next
  case (elsewhere lg e x lg' k)
  have sound: "sound_log lg" using elsewhere by (simp add: sound_state_def)
  have "results_under (start_key st) lg' = results_under (start_key st) lg"
    using results_after_append[OF sound elsewhere(1), of "start_key st"] elsewhere(2) by auto
  then show ?case using elsewhere(4) by (simp add: read_under_is)
qed (simp add: read_under_def)

lemma world_steps_read_same:
  assumes "world_steps u st s s'" "sound_state st (fst s) (snd s)"
    "read_under (start_key st) (snd s) i = Some t" "result_number (r_header (kp_record (fst s))) i \<noteq> None"
  shows "read_under (start_key st) (snd s') i = Some t"
  using assms
proof (induction rule: rtranclp_induct)
  case (step s1 s2)
  have s1: "sound_state st (fst s1) (snd s1)" by (rule world_steps_sound[OF step(1,4)])
  have "result_number (r_header (kp_record (fst s1))) i \<noteq> None"
    using same_reading_place[OF step(4) s1, of i] step(6) by simp
  then show ?case using world_step_reads_same[OF step(2) s1] step by blast
qed simp

lemma keeper_read_answers:
  assumes s: "sound_state st k lg" and t: "read_under (start_key st) lg i = Some t"
    and num: "result_number (r_header (kp_record k)) i \<noteq> None"
    and ans: "answers_now lg" and few: "few_events st lg"
  shows "keeper_read i k lg = (Inr t, one_call_later lg)"
proof -
  have "parse_result_id ask_label = None" "parse_report_id ask_label = None"
    by (simp_all add: parse_result_id_def parse_numbered_id_def parse_report_id_def cut_prefix_def ask_label_def)
  then have "i \<noteq> ask_label" using num by (auto simp: result_number_def split: if_splits)
  moreover have "by_task lg (log_key k) = ((own_events (start_key st) (log_contents lg), None), one_call_later lg)"
    using by_task_answers[of lg "start_key st"] s ans few sound_state_id[OF s] sound_state_key[OF s]
    by (simp add: sound_state_def few_events_def)
  ultimately show ?thesis using num t by (simp add: keeper_read_def read_under_def)
qed

text \<open>A result that was added is the newest line, under a new label, and its text is in the log for good.\<close>

lemma change_now_Inr:
  assumes "change_it_now f k lg = (Inr x, k', lg')"
  shows "went_through f (kp_record k) (kp_record k')"
  using assms unfolding change_it_now_def
proof (cases rule: change_or_wait_cases)
  case (saved c)
  then have "kp_record k' = c" using save_Inr[OF saved(4)] by simp
  then show ?thesis using saved by simp
qed simp_all

lemma last_without_the_oldest:
  "n < length (w_results (r_work r)) \<Longrightarrow>
    w_results (r_work (without_the_oldest n r)) \<noteq> [] \<and>
    last (w_results (r_work (without_the_oldest n r))) = last (w_results (r_work r))"
  by (simp add: without_the_oldest_def put_results_def last_drop)

lemma trimmed_last:
  assumes "w_results (r_work r) \<noteq> []"
  shows "w_results (r_work (trim_the_results_to_fit r)) \<noteq> [] \<and>
    last (w_results (r_work (trim_the_results_to_fit r))) = last (w_results (r_work r))"
proof -
  obtain n where n: "trim_the_results_to_fit r = without_the_oldest n r"
    "n = 0 \<or> n + min_result_lines_kept \<le> length (w_results (r_work r))"
    using trim_is[of r] by blast
  then have "n < length (w_results (r_work r))" using trim_keeps_newest[OF n] assms by simp
  then show ?thesis using last_without_the_oldest n(1) by simp
qed

lemma added_result:
  assumes s: "sound_state st k lg" and add: "add_result_line call summary words k lg = (Inr i, k', lg')"
  shows "w_results (r_work (kp_record k')) \<noteq> []
    \<and> last (w_results (r_work (kp_record k'))) = \<lparr>rl_id = i, rl_summary = cut_to_one_line summary, rl_pinned = False\<rparr>
    \<and> result_number (r_header (kp_record k')) i \<noteq> None
    \<and> read_under (start_key st) lg' i = Some (json_text words)
    \<and> sound_state st k' lg'"
  using add
proof (cases rule: add_result_line_cases)
  case (written j lg1 lg2 b)
  let ?line = "\<lparr>rl_id = i, rl_summary = cut_to_one_line summary, rl_pinned = False\<rparr>"
  obtain x where b: "b = Inr x" "j = i" using written(4) by (cases b) auto
  have sound: "sound_log lg" using s by (simp add: sound_state_def)
  have place: "known_place (r_header (kp_record k))" using sound_state_id[OF s] by simp
  have key: "log_key k = start_key st" by (rule sound_state_key[OF s])
  have lg1: "log_contents lg1 = log_contents lg" "sound_log lg1" using next_label_gained[OF sound written(1)] by auto
  let ?s = "\<lparr>sr_id = j, sr_call_id = call, sr_summary = cut_to_one_line summary, sr_text = words\<rparr>"
  obtain n where app: "log_append lg1 (new_event (log_key k) event_tool_result (result_body ?s)) = (Inr n, lg2)"
    using store_result_append[OF written(2)] by auto
  have lg2: "sound_log lg2" using append_sound[OF lg1(2)] app by (metis snd_conv)
  have "results_under (start_key st) lg2 = results_under (start_key st) lg1
      @ stored_results [new_event (log_key k) event_tool_result (result_body ?s)]"
    using results_after_append[OF lg1(2) app, of "start_key st"] key by (simp add: new_event_def)
  then have "read_under (start_key st) lg2 i = Some (json_text words)"
    using new_label_ascii[OF place written(1)] b(2) by (simp add: read_under_is new_event_def result_body_def)
  moreover have "results_under (start_key st) lg' = results_under (start_key st) lg2"
    using results_after_change[OF lg2] written(3) by (simp add: change_it_now_def)
  ultimately have under: "read_under (start_key st) lg' i = Some (json_text words)" by (simp add: read_under_is)
  have "went_through (with_a_result j (cut_to_one_line summary)) (kp_record k) (kp_record k')"
    using written(3) b by (intro change_now_Inr) simp
  then obtain c where c: "reads_back c" "kp_record k' = trim_the_results_to_fit c"
    "c = put_results (w_results (r_work (kp_record k)) @ [?line]) (kp_record k)"
    using b(2) by (auto simp: went_through_def with_a_result_def)
  have "w_results (r_work c) = w_results (r_work (kp_record k)) @ [?line]" by (simp add: c(3) put_results_def)
  then have last_line: "w_results (r_work (kp_record k')) \<noteq> []" "last (w_results (r_work (kp_record k'))) = ?line"
    using trimmed_last[of c] c(2) by simp_all
  have "wf_results (r_header c) (w_results (r_work c))"
    using reads_back_holds[OF c(1)] by (simp add: rules_hold_def lists_hold_def)
  then have "result_number (r_header c) i \<noteq> None"
    by (auto simp: c(3) put_results_def wf_results_def labels_grow_def)
  moreover have "r_header (kp_record k') = r_header c" by (simp add: c(2) trimmed_parts)
  ultimately have reads: "result_number (r_header (kp_record k')) i \<noteq> None" by simp
  have "sound_state st k' lg'"
    using moves_sound[OF add_result_line_moves[OF add]] s by simp
  then show ?thesis using last_line reads under by simp
qed simp_all

section \<open>Runs\<close>

lemma by_task_answered:
  assumes "sound_log lg" "by_task lg key = ((es, None), lg')"
  shows "answers_now lg \<and> length (own_events key (log_contents lg)) \<le> max_events_per_read \<and> lg' = one_call_later lg"
proof -
  have "by_task lg key = log_events lg (\<lambda>w. rw_task w = key) (int max_events_per_read)"
    using assms(2) by (auto simp: by_task_def split: if_splits)
  then have "fst (log_events lg (\<lambda>w. rw_task w = key) (int max_events_per_read)) = (es, None)"
    "lg' = one_call_later lg"
    using assms(2) log_events_log[of lg "\<lambda>w. rw_task w = key" "int max_events_per_read"]
    by (metis fst_conv, metis snd_conv)
  then show ?thesis
    using log_events_sound[OF assms(1), of "\<lambda>w. rw_task w = key" "int max_events_per_read"]
    by (auto simp: Let_def own_events_rows split: if_splits)
qed

lemma checkpoints_of_answered:
  assumes "sound_log lg" "checkpoints_of lg (st_kind st) (st_id st) = (Inr cs, lg')"
  shows "answers_now lg \<and> few_events st lg \<and> lg' = one_call_later lg"
proof -
  obtain es where "by_task lg (start_key st) = ((es, None), lg')"
    using assms(2) by (auto simp: checkpoints_of_def start_key_def split: if_splits prod.splits option.splits)
  then show ?thesis using by_task_answered[OF assms(1)] by (auto simp: few_events_def)
qed

lemma load_answered:
  assumes "sound_log lg" "load lg (st_kind st) (st_id st) = (Inr k, lg')"
  shows "answers_now lg \<and> few_events st lg"
proof -
  obtain cs where "checkpoints_of lg (st_kind st) (st_id st) = (Inr cs, lg')"
    using assms(2) by (auto simp: load_def and_then_Inr_iff split: prod.splits)
  then show ?thesis using checkpoints_of_answered[OF assms(1)] by blast
qed

lemma save_answered: "save k lg = (Inr x, k', lg') \<Longrightarrow> answers_now lg \<and> lg_next lg \<le> max_int"
  using save_Inr[of k lg x k' lg'] by (auto simp: log_append_def split: if_splits)

lemma wind_back_answered:
  assumes sound: "sound_log lg" and wound: "wind_back lg (st_kind st) (st_id st) n = (Inr k, lg')"
  shows "answers_for 3 lg \<and> lg_next lg \<le> max_int \<and> few_events st lg"
proof -
  obtain cs lg1 where c1: "checkpoints_of lg (st_kind st) (st_id st) = (Inr cs, lg1)"
    using wound by (cases "checkpoints_of lg (st_kind st) (st_id st)")
      (auto simp: wind_back_def split: if_splits sum.splits)
  then have first: "answers_now lg" "few_events st lg" "lg1 = one_call_later lg"
    using checkpoints_of_answered[OF sound] by auto
  obtain k1 lg2 m where l: "load_checkpoint lg1 (st_kind st) (st_id st) m = (Inr k1, lg2)"
    and last_save: "\<exists>x j. save (k1\<lparr>kp_checkpoint := j\<rparr>) lg2 = (Inr x, k, lg')"
    using wound c1 by (auto simp: wind_back_def Let_def split: if_splits sum.splits prod.splits)
  then obtain cs' where "checkpoints_of lg1 (st_kind st) (st_id st) = (Inr cs', lg2)"
    by (auto simp: load_checkpoint_def and_then_Inr_iff split: prod.splits)
  then have two: "answers_now lg1" "lg2 = one_call_later lg1"
    using checkpoints_of_answered[of lg1 st cs' lg2] sound first(3) by auto
  have three: "answers_now lg2" "lg_next lg2 \<le> max_int" using last_save save_answered by blast+
  have "answers_for 3 lg"
    using first(1,3) two three(1)
    by (cases "lg_answers lg"; cases "tl (lg_answers lg)"; cases "tl (tl (lg_answers lg))")
      (auto simp: answers_for_def answers_now_def one_call_later_def numeral_eq_Suc)
  moreover have "lg_next lg \<le> max_int" using three two first by (simp add: one_call_later_def)
  ultimately show ?thesis using first by simp
qed

text \<open>A state that was saved still stands over a later log that holds no later checkpoint.\<close>

lemma saved_state_later:
  assumes s0: "sound_state st k0 lg0" and s: "sound_state st k lg"
    and past: "prefix (log_contents lg0) (log_contents lg)" and same: "kp_checkpoint k0 = kp_checkpoint k"
  shows "sound_state st k0 lg"
proof -
  obtain cs0 where num0: "numbered st k0 lg0 cs0" and date0: "up_to_date k0 cs0"
    using s0 by (auto simp: sound_state_def)
  obtain cs where num: "numbered st k lg cs" using s by (auto simp: sound_state_def)
  have "prefix cs0 cs" by (rule earlier_checkpoints[OF num0 num past])
  moreover have "length cs0 = length cs" using num0 num same by (simp add: numbered_def)
  ultimately have "cs0 = cs" by (auto simp: prefix_def)
  then have "numbered st k0 lg cs0" using num num0 by (simp add: numbered_def)
  then show ?thesis using s0 s date0 by (auto simp: sound_state_def)
qed

text \<open>
  The states a keeper can come to. A restart loads the state that was saved last (\<open>k0\<close>), which
  loses what was not saved; winding back loads one that was saved before.
\<close>

inductive keeper_run :: "unicode_tables \<Rightarrow> start_of_record \<Rightarrow> keeper \<Rightarrow> event_log \<Rightarrow> bool" for u st where
  created: "sound_log lg \<Longrightarrow> saved_checkpoints (start_key st) (log_contents lg) = [] \<Longrightarrow>
    new_keeper st lg = (Inr k, lg') \<Longrightarrow> keeper_run u st k lg'"
| went_on: "keeper_run u st k lg \<Longrightarrow> world_step u st (k, lg) (k', lg') \<Longrightarrow> keeper_run u st k' lg'"
| loaded: "keeper_run u st k0 lg0 \<Longrightarrow> \<not> kp_unsaved k0 \<Longrightarrow> carried st (kp_record k0) \<Longrightarrow>
    keeper_run u st k lg \<Longrightarrow> prefix (log_contents lg0) (log_contents lg) \<Longrightarrow>
    kp_checkpoint k0 = kp_checkpoint k \<Longrightarrow>
    load lg (st_kind st) (st_id st) = (Inr k', lg') \<Longrightarrow> keeper_run u st k' lg'"
| wound_back: "keeper_run u st k0 lg0 \<Longrightarrow> \<not> kp_unsaved k0 \<Longrightarrow> carried st (kp_record k0) \<Longrightarrow>
    keeper_run u st k lg \<Longrightarrow> prefix (log_contents lg0) (log_contents lg) \<Longrightarrow>
    kp_checkpoint k0 < kp_checkpoint k \<Longrightarrow>
    wind_back lg (st_kind st) (st_id st) (kp_checkpoint k - kp_checkpoint k0) = (Inr k', lg') \<Longrightarrow>
    keeper_run u st k' lg'"

lemma world_steps_run:
  "world_steps u st s s' \<Longrightarrow> keeper_run u st (fst s) (snd s) \<Longrightarrow> keeper_run u st (fst s') (snd s')"
proof (induction rule: rtranclp_induct)
  case (step y z)
  then show ?case using went_on[of u st "fst y" "snd y" "fst z" "snd z"] by simp
qed

lemma up_to_date_once [simp]: "up_to_date (k\<lparr>kp_once_per_round := b\<rparr>) cs = up_to_date k cs"
  by (simp add: up_to_date_def)

lemma sound_state_once [simp]: "sound_state st (k\<lparr>kp_once_per_round := b\<rparr>) lg = sound_state st k lg"
  by (simp add: sound_state_def numbered_def)

lemma keeper_run_sound:
  assumes "keeper_run u st k lg"
  shows "sound_state st k lg"
  using assms
proof (induction rule: keeper_run.induct)
  case (created lg k lg')
  then show ?case by (rule new_keeper_sound)
next
  case (went_on k lg k' lg')
  then show ?case using world_step_sound by fastforce
next
  case (loaded k0 lg0 k lg k' lg')
  have s: "sound_state st k0 lg"
    using loaded saved_state_later by blast
  have "answers_now lg \<and> few_events st lg"
    using load_answered[OF _ loaded(7)] s by (simp add: sound_state_def)
  then have "k' = k0\<lparr>kp_once_per_round := False\<rparr>" "lg' = one_call_later lg"
    using load_gives[OF s loaded(2,3)] loaded(7) by auto
  then show ?case using s by simp
next
  case (wound_back k0 lg0 k lg k' lg')
  have "answers_for 3 lg \<and> lg_next lg \<le> max_int \<and> few_events st lg"
    using wind_back_answered[OF _ wound_back(7)] wound_back by (simp add: sound_state_def)
  then show ?case
    using wind_back_gives[of st k0 lg0 k lg] wound_back by auto
qed

section \<open>What a change leaves\<close>

text \<open>A change of the record that goes through, and one that does not; the done-check, which a record that
  says done passes.\<close>

lemma done_check_kept:
  assumes "done_check r = Inr ()" "g_done_when (r_goal r') = g_done_when (r_goal r)"
    "\<And>i. record_holds_result r i \<Longrightarrow> record_holds_result r' i"
  shows "done_check r' = Inr ()"
  using assms by (auto simp: done_check_def unproven_def filter_empty_conv split: if_splits)

lemma status_set:
  assumes "set_status status k lg = (Inr (), k', lg')"
  shows "kp_record k' = trim_the_results_to_fit (set_header (\<lambda>h. h\<lparr>h_status := status\<rparr>) (kp_record k))
    \<and> reads_back (set_header (\<lambda>h. h\<lparr>h_status := status\<rparr>) (kp_record k))
    \<and> (status = status_done \<longrightarrow> done_check (kp_record k) = Inr ())"
proof -
  let ?f = "\<lambda>r. and_then (if status = status_done then done_check r else Inr ())
      (\<lambda>_. Inr (set_header (\<lambda>h. h\<lparr>h_status := status\<rparr>) r))"
  have "change_or_wait ?f False k lg = (Inr (), k', lg')"
    using assms by (auto simp: set_status_def change_and_save_def split: if_splits)
  then obtain c where c: "went_through ?f (kp_record k) c" "kp_record k' = c"
  proof (cases rule: change_or_wait_cases)
    case (saved c)
    then show ?thesis using that save_Inr[OF saved(4)] by simp
  qed simp_all
  then show ?thesis by (auto simp: went_through_def unit_check split: if_splits)
qed

lemma set_done_passes:
  assumes "set_status status_done k lg = (Inr (), k', lg')"
  shows "done_check (kp_record k) = Inr () \<and> done_check (kp_record k') = Inr ()
    \<and> h_status (r_header (kp_record k')) = status_done
    \<and> w_tasks (r_work (kp_record k')) = w_tasks (r_work (kp_record k))"
proof -
  let ?d = "set_header (\<lambda>h. h\<lparr>h_status := status_done\<rparr>) (kp_record k)"
  have d: "kp_record k' = trim_the_results_to_fit ?d" "reads_back ?d" "done_check (kp_record k) = Inr ()"
    using status_set[OF assms] by simp_all
  have "same_results (kp_record k) ?d" by (simp add: set_header_def same_results_def)
  then have holds: "record_holds_result (kp_record k) i \<Longrightarrow> record_holds_result (kp_record k') i" for i
    using held_result_stays trim_keeps_proof[OF reads_back_holds[OF d(2)]] d(1) by metis
  have "done_check (kp_record k') = Inr ()"
    by (rule done_check_kept[OF d(3) _ holds]) (simp_all add: d(1) trimmed_parts set_header_def)
  then show ?thesis using d by (simp add: trimmed_parts set_header_def)
qed

lemma change_effect:
  assumes "change_or_wait f w k lg = (a, k', lg')"
  shows "(a = Inr () \<and> went_through f (kp_record k) (kp_record k')) \<or> ((\<exists>e. a = Inl e) \<and> kp_record k' = kp_record k)"
  using assms
proof (cases rule: change_or_wait_cases)
  case (saved c)
  then show ?thesis using save_Inr[OF saved(4)] by simp
qed auto

lemma apply_effect:
  assumes "keeper_apply u up k lg = (a, k', lg')"
  shows "kp_record k' = kp_record k \<or> (\<exists>c. apply_update u (kp_record k) up = Inr c \<and> reads_back c
      \<and> kp_record k' = trim_the_results_to_fit c)"
  using assms change_effect[of "\<lambda>r. apply_update u r up" "kp_once_per_round k" k lg a k' lg']
  by (auto simp: keeper_apply_def change_it_now_def went_through_def split: if_splits)

end
