(* ===== verification/Examples.thy ===== *)
theory Examples
  imports Keeper_Life "HOL-Library.Code_Target_Nat"
begin

text \<open>
  Concrete records, updates and logs, on which the properties of the record are shown to hold of
  something. A task half way through its plan, a job with one task finished, and a log that answers
  every call.
\<close>

definition plain_tables :: unicode_tables where
  "plain_tables = \<lparr>u_lower = (\<lambda>r. r), u_letter = (\<lambda>_. True), u_digit = (\<lambda>_. False)\<rparr>"

definition example_start :: start_of_record where
  "example_start = \<lparr>st_kind = record_task, st_id = ''17'', st_origin = [], st_ask = ''Add a --json flag'',
     st_rounds_left = 40, st_no_round_budget = False, st_minutes_left = 0, st_no_time_budget = True\<rparr>"

definition example_job_start :: start_of_record where
  "example_job_start = \<lparr>st_kind = record_job, st_id = ''3'', st_origin = ''telegram'', st_ask = ''Watch the builds'',
     st_rounds_left = 0, st_no_round_budget = False, st_minutes_left = 0, st_no_time_budget = False\<rparr>"

definition example_task :: record_of_work where
  "example_task = (start_record example_start)\<lparr>
     r_goal := \<lparr>g_ask = ''Add a --json flag'', g_name = ''json flag'', g_why = ''scripts read the output'',
       g_done_when = [\<lparr>dl_text = ''the tests pass'', dl_done = True, dl_result = ''r2'', dl_reply = []\<rparr>,
                      \<lparr>dl_text = ''the flag is documented'', dl_done = False, dl_result = [], dl_reply = []\<rparr>]\<rparr>,
     r_rules := \<lparr>r_corrections = [\<lparr>co_id = ''C1'', co_text = ''keep the old output''\<rparr>],
       r_stop_when = [''a test must be deleted'']\<rparr>,
     r_work := \<lparr>w_situation = [''the tree is clean''],
       w_plan = [\<lparr>ps_number = 1, ps_text = ''write the test'', ps_done = True, ps_result = ''r1''\<rparr>,
                 \<lparr>ps_number = 2, ps_text = ''write the flag'', ps_done = False, ps_result = []\<rparr>],
       w_tasks = [],
       w_results = [\<lparr>rl_id = ''r1'', rl_summary = ''wrote flag_test.go'', rl_pinned = False\<rparr>,
                    \<lparr>rl_id = ''r2'', rl_summary = ''go test: ok'', rl_pinned = True\<rparr>]\<rparr>,
     r_lessons := \<lparr>l_decisions = [\<lparr>de_id = ''D1'', de_text = ''use encoding/json'', de_reason = ''it is there''\<rparr>],
       l_failures = [\<lparr>fa_id = ''F1'', fa_text = ''the first test hung'', fa_cause = ''it read stdin''\<rparr>]\<rparr>\<rparr>"

definition example_job :: record_of_work where
  "example_job = (start_record example_job_start)\<lparr>
     r_work := \<lparr>w_situation = [], w_plan = [],
       w_tasks = [\<lparr>jt_id = ''t1'', jt_text = ''read the first log'', jt_done = True, jt_report = report_id ''3'' 1, jt_due = []\<rparr>,
                  \<lparr>jt_id = ''t2'', jt_text = ''read the second log'', jt_done = False, jt_report = [], jt_due = []\<rparr>],
       w_results = [\<lparr>rl_id = report_id ''3'' 1, rl_summary = ''the first log is clean'', rl_pinned = False\<rparr>]\<rparr>\<rparr>"

definition example_full :: record_of_work where
  "example_full = put_results (map (\<lambda>n. \<lparr>rl_id = result_id (int n), rl_summary = ''read a file'', rl_pinned = False\<rparr>)
     [1..<46]) example_task"

definition no_update :: update where
  "no_update = \<lparr>up_name = [], up_why = [], up_done_when = None, up_stop_when = None, up_plan = None,
     up_tasks = None, up_decision = None, up_failure = None, up_step_done = None\<rparr>"

definition example_update :: update where
  "example_update = no_update\<lparr>up_step_done := Some \<lparr>sd_number = 2, sd_result = ''r2''\<rparr>,
     up_decision := Some \<lparr>nd_text = ''keep the table too'', nd_reason = ''people read it''\<rparr>\<rparr>"

text \<open>
  For the evaluation by the simplifier: a sequence of fallible steps is a case distinction, whose later
  steps wait for the first, and a change is applied where it is made.
\<close>

declare and_then_def [code_unfold]
declare change_or_wait_def [code_unfold]
declare change_it_now_def [code_unfold]
declare change_and_save_def [code_unfold]

text \<open>
  A text of ASCII is its own bytes as runes, and a text has no more words than bytes.
\<close>

definition ascii_text :: "string \<Rightarrow> bool" where
  "ascii_text s \<longleftrightarrow> list_all (\<lambda>c. byte c < 128) s"

lemma runes_quickly [code]: "runes s = (if ascii_text s then map byte s else map fst (rune_chunks s))"
proof -
  have "list_all (\<lambda>c. byte c < 128) s \<Longrightarrow> runes s = map byte s" by (induction s) simp_all
  then show ?thesis by (simp add: ascii_text_def runes_def)
qed

lemma valid_utf8_quickly [code]: "valid_utf8 s \<longleftrightarrow> ascii_text s \<or> text_of_runes (runes s) = s"
  using valid_utf8_ascii[of s] by (auto simp: ascii_text_def list_all_iff valid_utf8_def)

lemma json_text_quickly [code]: "json_text s = (if ascii_text s then s else text_of_runes (runes s))"
  using valid_utf8_ascii[of s] by (auto simp: ascii_text_def list_all_iff json_text_def valid_utf8_def)

lemma runs_of_few: "length (runs_of sep cs) \<le> length cs"
proof (induction sep cs rule: runs_of.induct)
  case (2 sep p cs)
  have "length (dropWhile (\<lambda>q. \<not> sep (fst q)) cs) \<le> length cs" by (rule length_dropWhile_le)
  then show ?case using 2 by (cases "sep (fst p)") auto
qed simp

lemma few_words: "length (text_fields s) \<le> length s"
  using runs_of_few[of is_space "rune_chunks s"] length_runes_le[of s]
  by (simp add: text_fields_def fields_func_def runes_def)

lemma check_it_still_fits_quickly [code]:
  "check_it_still_fits r =
     (if length (print_whole (without_the_ask r)) \<le> 2000 then Inr ()
      else if record_tokens r \<le> max_record_tokens then Inr () else Inl (Breaks ErrRecordTooLarge))"
  using few_words[of "print_whole (without_the_ask r)"]
  by (auto simp: check_it_still_fits_def record_tokens_def estimate_tokens_def max_record_tokens_def
      tokens_per_hundred_words_def)

text \<open>
  A record that is well formed and fits reads back, so the keeper's check of it need not be run letter
  by letter. These records read back.
\<close>

lemma check_it_reads_back_quickly [code]:
  "check_it_reads_back held =
     (if well_formed held \<and> fits_a_text held then Inr ()
      else case parse_record (print_whole held) of
             Inl e \<Rightarrow> Inl e
           | Inr read \<Rightarrow> if read \<noteq> held then Inl Unnamed else Inr ())"
  using well_formed_reads_back[of held] by (auto simp: check_it_reads_back_def reads_back_def)

lemma example_task_reads: "reads_back example_task"
  by (rule well_formed_reads_back) code_simp+

lemma example_full_reads: "reads_back example_full"
  by (rule well_formed_reads_back) code_simp+

lemma example_job_reads: "reads_back example_job"
  by (rule well_formed_reads_back) code_simp+

end
