(* ===== verification/Record_Claims.thy ===== *)
theory Record_Claims
  imports Examples
begin

text \<open>
  The properties of a record and its text, of the model's update and of the size promise, each with a
  concrete case.
\<close>

section \<open>The text of a record\<close>

text \<open>C17: a record whose pieces are well formed, and whose text is within the reader's bounds,
  comes back from its own text as exactly the same record.\<close>

theorem printed_record_comes_back:
  "well_formed r \<Longrightarrow> fits_a_text r \<Longrightarrow> parse_record (print_whole r) = Inr r"
  using well_formed_reads_back by (simp add: reads_back_def)

theorem printed_record_comes_back_witness:
  "parse_record (print_whole example_task) = Inr example_task"
  by (rule printed_record_comes_back) code_simp+

text \<open>C23: whatever the text, a record that is read has its labels in order, proof named on every line
  marked done, a reason behind every decision and a cause behind every failure.\<close>

theorem whatever_is_read_holds:
  "parse_record s = Inr r \<Longrightarrow> rules_hold r"
  by (rule parsed_record_holds)

theorem whatever_is_read_holds_witness: "rules_hold example_task"
  by (rule whatever_is_read_holds[OF example_task_reads[unfolded reads_back_def]])

text \<open>The keeper's check before a change passes exactly on the records whose text fits the reader's
  bounds, whose header reads back, that carry an ask, and whose lists read back one by one.\<close>

theorem check_it_reads_back_is:
  "check_it_reads_back r = Inr () \<longleftrightarrow>
     fits_a_text r \<and> header_read r = Some (r_header r) \<and> g_ask (r_goal r) \<noteq> [] \<and> lists_read r"
  by (simp add: reads_back_check reads_back_iff)

text \<open>An ask or a correction of any bytes goes into a line of the record and comes out unchanged.\<close>

theorem folded_text_comes_back:
  "newline \<notin> set (fold_text s) \<and> unfold_text (fold_text s) = s \<and> unquote (quoted s) = Some s"
  by simp

section \<open>The size promise\<close>

text \<open>C27: trimming leaves at most forty results, stays above the size only when ten or fewer are left, keeps
  the newest line, and loses no result that proves something; the trimmed record reads back when the
  record did.\<close>

theorem trimming_keeps_the_proof:
  assumes "check_it_reads_back r = Inr ()"
  shows "check_it_reads_back (trim_the_results_to_fit r) = Inr ()
    \<and> length (w_results (r_work (trim_the_results_to_fit r))) \<le> 40
    \<and> (10 < length (w_results (r_work (trim_the_results_to_fit r))) \<longrightarrow>
         check_it_still_fits (trim_the_results_to_fit r) = Inr ())
    \<and> suffix (w_results (r_work (trim_the_results_to_fit r))) (w_results (r_work r))
    \<and> (w_results (r_work r) \<noteq> [] \<longrightarrow> w_results (r_work (trim_the_results_to_fit r)) \<noteq> [])
    \<and> (\<forall>i. record_holds_result r i \<longrightarrow> record_holds_result (trim_the_results_to_fit r) i)"
proof -
  obtain k where "trim_the_results_to_fit r = without_the_oldest k r" using trim_is[of r] by blast
  then have "suffix (w_results (r_work (trim_the_results_to_fit r))) (w_results (r_work r))"
    by (simp add: without_the_oldest_def put_results_def suffix_drop)
  then show ?thesis
    using assms trim_reads_back[of r] trim_bounds[of r] trimmed_last[of r] trim_keeps_proof[of r] reads_back_holds[of r]
    by (simp add: reads_back_check fits_check max_result_lines_kept_def min_result_lines_kept_def)
qed

theorem trimming_keeps_the_proof_witness:
  "length (w_results (r_work example_full)) = 45 \<and>
   length (w_results (r_work (trim_the_results_to_fit example_full))) \<le> 40 \<and>
   record_holds_result (trim_the_results_to_fit example_full) ''r1''"
proof -
  have "check_it_reads_back example_full = Inr ()"
    using example_full_reads by (simp add: reads_back_check)
  moreover have "record_holds_result example_full ''r1''"
    "length (w_results (r_work example_full)) = 45" by code_simp+
  ultimately show ?thesis using trimming_keeps_the_proof[of example_full] by blast
qed

text \<open>The part a refusal for size names is one of the record's parts, and no part costs more.\<close>

theorem longest_part_is_longest:
  assumes "longest_part_of r = (name, cost)"
  shows "(\<forall>p \<in> set (parts_of r). estimate_tokens (snd p) \<le> cost) \<and>
    (cost = 0 \<or> (\<exists>w. (name, w) \<in> set (parts_of r) \<and> estimate_tokens w = cost))"
  using longest_fold[OF assms[unfolded longest_part_of_def]] by auto

theorem longest_part_is_longest_witness:
  "list_all (\<lambda>p. estimate_tokens (snd p) \<le> snd (longest_part_of example_full)) (parts_of example_full)"
  using longest_part_is_longest[of example_full "fst (longest_part_of example_full)" "snd (longest_part_of example_full)"]
  by (simp add: list_all_iff)

section \<open>The model's update\<close>

text \<open>C29: an update that goes through leaves the header, the ask, the corrections, the situation and the
  results as they were, and keeps proof behind every line, step and task marked done.\<close>

theorem update_keeps_the_rest_and_the_proof:
  assumes "apply_update u r up = Inr r'"
  shows "r_header r' = r_header r \<and> g_ask (r_goal r') = g_ask (r_goal r)
    \<and> r_corrections (r_rules r') = r_corrections (r_rules r)
    \<and> w_situation (r_work r') = w_situation (r_work r) \<and> w_results (r_work r') = w_results (r_work r)
    \<and> (proof_holds r \<longrightarrow> proof_holds r')"
  using apply_update_keeps[OF assms, of "\<lambda>_. True"] apply_update_proof[OF assms]
  by (auto simp: harness_half_same_def)

definition updated :: "record_error + record_of_work \<Rightarrow> record_of_work" where
  "updated x = (case x of Inl _ \<Rightarrow> empty_record | Inr r \<Rightarrow> r)"

lemma updated_succeeds: "succeeds x \<Longrightarrow> x = Inr (updated x)"
  by (auto simp: succeeds_def updated_def split: sum.splits)

theorem update_keeps_the_rest_and_the_proof_witness:
  "proof_holds (updated (apply_update plain_tables example_task example_update))"
proof -
  have "proof_holds example_task" "succeeds (apply_update plain_tables example_task example_update)" by code_simp+
  then show ?thesis using update_keeps_the_rest_and_the_proof[OF updated_succeeds] by blast
qed

text \<open>A task of a job that is finished stays on the list, finished by the same report, whatever list the
  model writes.\<close>

theorem finished_tasks_are_kept:
  assumes "rules_hold r" "apply_update u r up = Inr r'" "t \<in> set (w_tasks (r_work r))" "jt_done t"
  shows "\<exists>t' \<in> set (w_tasks (r_work r')). jt_id t' = jt_id t \<and> jt_done t' \<and> jt_report t' = jt_report t"
  using finished_tasks_stay[OF assms(2) _ assms(3,4)] assms(1) by (simp add: rules_hold_def lists_hold_def)

definition example_tasks_update :: update where
  "example_tasks_update = no_update\<lparr>up_tasks := Some
     [\<lparr>nt_id = ''t1'', nt_text = ''read the oldest log'', nt_due = []\<rparr>,
      \<lparr>nt_id = ''t4'', nt_text = ''write it up'', nt_due = ''Monday''\<rparr>]\<rparr>"

theorem finished_tasks_are_kept_witness:
  "\<exists>t' \<in> set (w_tasks (r_work (updated (apply_update plain_tables example_job example_tasks_update)))).
     jt_id t' = ''t1'' \<and> jt_done t' \<and> jt_report t' = report_id ''3'' 1"
proof -
  have "succeeds (apply_update plain_tables example_job example_tasks_update)" by code_simp
  from finished_tasks_are_kept[OF reads_back_holds[OF example_job_reads] updated_succeeds[OF this],
      of "hd (w_tasks (r_work example_job))"]
  show ?thesis by (simp add: example_job_def)
qed

text \<open>The name and the why of a record stand once they are written.\<close>

theorem name_and_why_are_set_once:
  assumes "apply_update u r up = Inr r'"
  shows "(g_name (r_goal r) \<noteq> [] \<longrightarrow> g_name (r_goal r') = g_name (r_goal r)) \<and>
    (g_why (r_goal r) \<noteq> [] \<longrightarrow> g_why (r_goal r') = g_why (r_goal r))"
  by (rule name_and_why_stand[OF assms])

theorem name_and_why_are_set_once_witness:
  "g_why (r_goal (updated (apply_update plain_tables example_task example_update))) = ''scripts read the output''"
proof -
  have "succeeds (apply_update plain_tables example_task example_update)" by code_simp
  from name_and_why_are_set_once[OF updated_succeeds[OF this]] show ?thesis
    by (simp add: example_task_def)
qed

text \<open>A failure whose words or whose cause a kept failure already carries is refused as already written.\<close>

theorem same_failure_is_refused:
  assumes "x \<in> set (l_failures (r_lessons r))" "up_failure up = Some f" "nf_text f \<noteq> []" "nf_cause f \<noteq> []"
    "fa_text x = cut_to_a_lesson (nf_text f) \<or> fa_cause x = cut_to_a_lesson (nf_cause f)"
  shows "apply_failure u r up = Inl (Breaks ErrFailureAlreadyWritten)"
  by (rule failure_again_refused[OF assms])

theorem same_failure_is_refused_witness:
  "apply_failure plain_tables example_task
     (no_update\<lparr>up_failure := Some \<lparr>nf_text = ''it hung again'', nf_cause = ''it read stdin''\<rparr>\<rparr>)
   = Inl (Breaks ErrFailureAlreadyWritten)"
proof (rule same_failure_is_refused[where x = "hd (l_failures (r_lessons example_task))"
      and f = "\<lparr>nf_text = ''it hung again'', nf_cause = ''it read stdin''\<rparr>"])
  show "fa_text (hd (l_failures (r_lessons example_task))) =
      cut_to_a_lesson (nf_text \<lparr>nf_text = ''it hung again'', nf_cause = ''it read stdin''\<rparr>) \<or>
    fa_cause (hd (l_failures (r_lessons example_task))) =
      cut_to_a_lesson (nf_cause \<lparr>nf_text = ''it hung again'', nf_cause = ''it read stdin''\<rparr>)"
    by code_simp
qed (simp_all add: example_task_def)

text \<open>The lessons stay at most six of each kind and at most 120 characters long, and the line of a
  result at most 70, whatever is written.\<close>

theorem lessons_stay_short:
  assumes "apply_update u r up = Inr r'" "short_lessons r"
  shows "length (l_decisions (r_lessons r')) \<le> 6 \<and> length (l_failures (r_lessons r')) \<le> 6
    \<and> (\<forall>d \<in> set (l_decisions (r_lessons r')). length (runes (de_text d)) \<le> 120 \<and> length (runes (de_reason d)) \<le> 120)
    \<and> (\<forall>f \<in> set (l_failures (r_lessons r')). length (runes (fa_text f)) \<le> 120 \<and> length (runes (fa_cause f)) \<le> 120)
    \<and> length (runes (cut_to_one_line s)) \<le> 70"
  using apply_update_short[OF assms] cut_to_one_line_bound[of s]
  by (simp add: short_lessons_def max_decisions_kept_def max_failures_kept_def max_lesson_runes_def
      max_summary_characters_def)

theorem lessons_stay_short_witness:
  "length (l_decisions (r_lessons (updated (apply_update plain_tables example_task example_update)))) \<le> 6"
proof -
  have "succeeds (apply_update plain_tables example_task example_update)" "short_lessons example_task" by code_simp+
  then show ?thesis using lessons_stay_short[OF updated_succeeds] by blast
qed

section \<open>Plans\<close>

lemma written_plan_shape:
  "written_plan old at txts = Inr ps \<Longrightarrow>
    map ps_text ps = txts \<and> map ps_number ps = map (\<lambda>i. int (at + i) + 1) [0..<length txts] \<and> [] \<notin> set txts"
proof (induction old at txts arbitrary: ps rule: written_plan.induct)
  case (2 old at t ts)
  obtain p qs where ps: "ps = p # qs" "written_plan old (at + 1) ts = Inr qs" "ps_text p = t"
    "ps_number p = int at + 1" "t \<noteq> []"
    using 2(2) by (auto simp: and_then_Inr_iff Let_def split: if_splits option.splits)
  have up: "[0..<length (t # ts)] = 0 # map Suc [0..<length ts]"
    by (metis length_Cons map_Suc_upt upt_conv_Cons zero_less_Suc)
  show ?case using 2(1)[OF ps(5) refl refl ps(2)] ps unfolding up by (simp add: comp_def)
qed simp

lemma written_plan_keeps_done:
  "written_plan old at txts = Inr ps \<Longrightarrow> q \<in> set old \<Longrightarrow> ps_done q \<Longrightarrow> ps_text q \<in> set txts \<Longrightarrow>
    distinct (map ps_text old) \<Longrightarrow> \<exists>p \<in> set ps. ps_text p = ps_text q \<and> ps_done p \<and> ps_result p = ps_result q"
proof (induction old at txts arbitrary: ps rule: written_plan.induct)
  case (2 old at t ts)
  obtain p qs where ps: "ps = p # qs" "written_plan old (at + 1) ts = Inr qs" "t \<noteq> []"
    using 2(2) by (auto simp: and_then_Inr_iff Let_def split: if_splits)
  show ?case
  proof (cases "ps_text q = t")
    case True
    obtain i where i: "i < length old" "old ! i = q" using 2(3) by (auto simp: in_set_conv_nth)
    have "ps_text (old ! j) \<noteq> t" if "j < i" for j
      using that i True 2(6) nth_eq_iff_index_eq[OF 2(6), of j i] by auto
    then have "plan_step_saying old t = Some q" using i True by (auto simp: plan_step_saying_def find_Some_iff)
    then have "ps_text p = t" "ps_done p" "ps_result p = ps_result q"
      using 2(2) ps 2(4) by (auto simp: and_then_Inr_iff Let_def)
    then show ?thesis using True ps by simp
  next
    case False
    then show ?thesis using 2(1)[OF ps(3) refl refl ps(2) 2(3,4) _ 2(6)] 2(5) ps(1) by auto
  qed
qed simp

text \<open>A plan that is written has at most ten steps, six when the ask is long, numbered from one with the
  words given; a step is done in it only by the result of a done step of the same words in the plan before,
  and when no two steps of that plan had the same words every done step written again stays done.\<close>

theorem plan_is_written:
  assumes "apply_plan r up = Inr r'" "up_plan up = Some steps"
  shows "map ps_text (w_plan (r_work r')) = steps \<and> length steps \<le> 10
    \<and> (600 < length (text_fields (g_ask (r_goal r))) \<longrightarrow> length steps \<le> 6)
    \<and> map ps_number (w_plan (r_work r')) = map (\<lambda>i. int i + 1) [0..<length steps]
    \<and> (\<forall>p \<in> set (w_plan (r_work r')). ps_done p \<longrightarrow>
         (\<exists>q \<in> set (w_plan (r_work r)). ps_done q \<and> ps_text q = ps_text p \<and> ps_result q = ps_result p))
    \<and> (distinct (map ps_text (w_plan (r_work r))) \<longrightarrow>
         (\<forall>q \<in> set (w_plan (r_work r)). ps_done q \<and> ps_text q \<in> set steps \<longrightarrow>
           (\<exists>p \<in> set (w_plan (r_work r')). ps_text p = ps_text q \<and> ps_done p \<and> ps_result p = ps_result q)))"
proof -
  obtain ps where ps: "written_plan (w_plan (r_work r)) 0 steps = Inr ps" "r' = put_plan ps r"
    and few: "length steps \<le> 10" "600 < length (text_fields (g_ask (r_goal r))) \<longrightarrow> length steps \<le> 6"
    using assms by (auto simp: apply_plan_def and_then_Inr_iff max_plan_steps_def long_ask_words_def
        max_plan_steps_for_a_long_ask_def split: if_splits)
  have plan: "w_plan (r_work r') = ps" by (simp add: ps(2) put_plan_def)
  show ?thesis
    unfolding plan using few written_plan_shape[OF ps(1)] written_plan_marks[OF ps(1)]
      written_plan_keeps_done[OF ps(1)] by auto
qed

theorem plan_is_written_witness:
  "\<exists>p \<in> set (w_plan (r_work (updated (apply_plan example_task
       (no_update\<lparr>up_plan := Some [''write the flag'', ''write the test'']\<rparr>))))).
     ps_text p = ''write the test'' \<and> ps_done p \<and> ps_result p = ''r1''"
proof -
  let ?up = "no_update\<lparr>up_plan := Some [''write the flag'', ''write the test'']\<rparr>"
  have "succeeds (apply_plan example_task ?up)" by code_simp
  moreover have "distinct (map ps_text (w_plan (r_work example_task)))" by code_simp
  ultimately have "\<forall>q \<in> set (w_plan (r_work example_task)).
      ps_done q \<and> ps_text q \<in> set [''write the flag'', ''write the test''] \<longrightarrow>
      (\<exists>p \<in> set (w_plan (r_work (updated (apply_plan example_task ?up)))).
         ps_text p = ps_text q \<and> ps_done p \<and> ps_result p = ps_result q)"
    using plan_is_written[OF updated_succeeds, of example_task ?up] by simp
  then show ?thesis by (simp add: example_task_def)
qed

text \<open>The plan is written over by the words alone, so a plan that says the same thing twice gives the
  proof of the first step to the second, which nobody proved.\<close>

definition example_twice :: record_of_work where
  "example_twice = put_plan
     [\<lparr>ps_number = 1, ps_text = ''run the tests'', ps_done = True, ps_result = ''r1''\<rparr>,
      \<lparr>ps_number = 2, ps_text = ''write the flag'', ps_done = False, ps_result = []\<rparr>,
      \<lparr>ps_number = 3, ps_text = ''run the tests'', ps_done = False, ps_result = []\<rparr>] example_task"

theorem plan_said_twice_is_marked_twice:
  "map ps_done (w_plan (r_work example_twice)) = [True, False, False] \<and>
   map ps_done (w_plan (r_work (updated (apply_plan example_twice
     (no_update\<lparr>up_plan := Some (map ps_text (w_plan (r_work example_twice)))\<rparr>)))))
   = [True, False, True]"
  by code_simp

section \<open>The done-check\<close>

text \<open>The done-check passes exactly on a record with a done list on which every line is marked and is
  proved by a reply or by a result the record holds.\<close>

theorem done_check_is:
  "done_check r = Inr () \<longleftrightarrow> g_done_when (r_goal r) \<noteq> [] \<and>
     (\<forall>l \<in> set (g_done_when (r_goal r)). dl_done l \<and> (dl_reply l \<noteq> [] \<or> record_holds_result r (dl_result l)))"
  by (auto simp: done_check_def unproven_def filter_empty_conv)

theorem done_check_is_witness:
  "done_check (example_task\<lparr>r_goal := (r_goal example_task)\<lparr>g_done_when := take 1 (g_done_when (r_goal example_task))\<rparr>\<rparr>) = Inr ()
   \<and> done_check example_task \<noteq> Inr ()"
  by (simp only: done_check_is) (simp add: example_task_def record_holds_result_def)

end
