(* ===== verification/Keeper_Claims.thy ===== *)
theory Keeper_Claims
  imports Examples Workorder_Check
begin

text \<open>
  The properties of the keeper and of the log behind it: what holds in every state a keeper can come to,
  what a refused call leaves, and what comes back out of the log after a restart or a winding back.
\<close>

section \<open>A keeper to show them on\<close>

definition got :: "(record_error + 'a) \<times> event_log \<Rightarrow> 'a \<Rightarrow> 'a" where
  "got x d = (case fst x of Inl _ \<Rightarrow> d | Inr k \<Rightarrow> k)"

definition empty_keeper :: keeper where
  "empty_keeper = \<lparr>kp_record = empty_record, kp_checkpoint = 0, kp_ask_from = 0, kp_once_per_round = False,
     kp_unsaved = False\<rparr>"

definition started_log :: event_log where
  "started_log = snd (new_keeper example_start (empty_log []))"

definition started_keeper :: keeper where
  "started_keeper = got (new_keeper example_start (empty_log [])) empty_keeper"

text \<open>The keeper after some calls, and the log.\<close>

fun after_calls :: "keeper_call list \<Rightarrow> keeper \<times> event_log \<Rightarrow> keeper \<times> event_log" where
  "after_calls [] s = s"
| "after_calls (c # cs) s = after_calls cs (snd (perform plain_tables c (fst s) (snd s)))"

definition example_calls :: "keeper_call list" where
  "example_calls = [AddResult ''go test: ok'' ''ok   flag 0.2s'',
     Apply (no_update\<lparr>up_done_when := Some [\<lparr>dl_text = ''the tests pass'', dl_done = True, dl_result = ''r1'', dl_reply = []\<rparr>]\<rparr>)]"

definition example_later :: "keeper \<times> event_log" where
  "example_later = after_calls example_calls (started_keeper, started_log)"

lemma started: "new_keeper example_start (empty_log []) = (Inr started_keeper, started_log)"
proof -
  have "succeeds (fst (new_keeper example_start (empty_log [])))" by code_simp
  then show ?thesis by (cases "new_keeper example_start (empty_log [])")
    (auto simp: started_keeper_def started_log_def got_def succeeds_iff)
qed

lemma started_run: "keeper_run plain_tables example_start started_keeper started_log"
proof (rule created[OF _ _ started])
  show "saved_checkpoints (start_key example_start) (log_contents (empty_log [])) = []" by code_simp
qed simp

lemma perform_run:
  "keeper_run u st k lg \<Longrightarrow> perform u c k lg = (a, k', lg') \<Longrightarrow> keeper_run u st k' lg'"
  using world_steps_run[OF moves_are_world_steps[OF perform_moves]] by fastforce

lemma after_calls_run:
  "keeper_run plain_tables st (fst s) (snd s) \<Longrightarrow>
    keeper_run plain_tables st (fst (after_calls cs s)) (snd (after_calls cs s))"
proof (induction cs arbitrary: s)
  case (Cons c cs)
  then show ?case using perform_run[of plain_tables st "fst s" "snd s" c]
    by (cases "perform plain_tables c (fst s) (snd s)") auto
qed simp

lemma example_later_run: "keeper_run plain_tables example_start (fst example_later) (snd example_later)"
  unfolding example_later_def by (rule after_calls_run) (simp add: started_run)

text \<open>What is known of the two states, by evaluation.\<close>

lemma example_facts:
  "carried example_start (kp_record started_keeper)" "answers_now started_log" "few_events example_start started_log"
  "\<not> kp_unsaved started_keeper" "kp_checkpoint started_keeper = 1" "keeper_kind started_keeper = record_task"
proof -
  have "case new_keeper example_start (empty_log []) of (x, lg) \<Rightarrow> (case x of Inl _ \<Rightarrow> False | Inr k \<Rightarrow>
      carried example_start (kp_record k) \<and> answers_now lg \<and> few_events example_start lg
      \<and> \<not> kp_unsaved k \<and> kp_checkpoint k = 1 \<and> keeper_kind k = record_task)"
    by code_simp
  then show "carried example_start (kp_record started_keeper)" "answers_now started_log"
    "few_events example_start started_log" "\<not> kp_unsaved started_keeper" "kp_checkpoint started_keeper = 1"
    "keeper_kind started_keeper = record_task"
    by (simp_all add: started)
qed

lemma later_facts:
  "carried example_start (kp_record (fst example_later))" "answers_for 3 (snd example_later)"
  "few_events example_start (snd example_later)" "\<not> kp_unsaved (fst example_later)"
  "kp_checkpoint (fst example_later) = 3" "lg_next (snd example_later) \<le> max_int"
proof -
  have "case example_later of (k, lg) \<Rightarrow> carried example_start (kp_record k) \<and> answers_for 3 lg
      \<and> few_events example_start lg \<and> \<not> kp_unsaved k \<and> kp_checkpoint k = 3 \<and> lg_next lg \<le> max_int"
    by code_simp
  then show "carried example_start (kp_record (fst example_later))" "answers_for 3 (snd example_later)"
    "few_events example_start (snd example_later)" "\<not> kp_unsaved (fst example_later)"
    "kp_checkpoint (fst example_later) = 3" "lg_next (snd example_later) \<le> max_int"
    by (simp_all add: case_prod_unfold)
qed


section \<open>Every state a keeper comes to\<close>



text \<open>Every call leaves the kind, the number and the ask as they are, only adds corrections, and only adds
  to the log, and that under the record's own key.\<close>

theorem calls_only_add:
  assumes "keeper_run u st k lg" "perform u c k lg = (a, k', lg')"
  shows "keeper_kind k' = keeper_kind k \<and> keeper_id k' = keeper_id k
    \<and> g_ask (r_goal (kp_record k')) = g_ask (r_goal (kp_record k))
    \<and> prefix (r_corrections (r_rules (kp_record k))) (r_corrections (r_rules (kp_record k')))
    \<and> (\<exists>es. log_contents lg' = log_contents lg @ es \<and> list_all (\<lambda>e. ev_task e = log_key k) es)"
proof -
  have s: "sound_state st k lg" by (rule keeper_run_sound[OF assms(1)])
  have "changed_rightly (kp_record k) (kp_record k') \<and> log_gained (log_key k) lg lg'"
    using moves_keep[OF perform_moves[OF assms(2)]] s by (simp add: sound_state_def changed_rightly_def)
  then show ?thesis
    by (simp add: changed_rightly_def fixed_part_def log_gained_def keeper_kind_def keeper_id_def)
qed

theorem calls_only_add_witness:
  "g_ask (r_goal (kp_record (fst (snd (perform plain_tables (AddCorrection ''no'') started_keeper started_log)))))
     = g_ask (r_goal (kp_record started_keeper))"
proof -
  obtain a k' lg' where p: "perform plain_tables (AddCorrection ''no'') started_keeper started_log = (a, k', lg')"
    by (cases "perform plain_tables (AddCorrection ''no'') started_keeper started_log")
  show ?thesis unfolding p using calls_only_add[OF started_run p] by simp
qed

lemma add_result_line_refused: "add_result_line call s t k lg = (Inl e, k', lg') \<Longrightarrow> k' = k"
proof (erule add_result_line_cases)
  fix i lg1 lg2 b
  assume "change_it_now (with_a_result i (cut_to_one_line s)) k lg2 = (b, k', lg')"
    "Inl e = map_sum id (\<lambda>_. i) b"
  then show "k' = k" by (cases b) (auto simp: change_it_now_def dest: change_refused)
qed auto

lemma call_refused: "change_it_now f k lg = (Inl e, k', lg') \<Longrightarrow> k' = k"
  by (simp add: change_it_now_def change_refused)

lemma without_answer_Inl: "without_answer x = (Inl e, k', lg') \<Longrightarrow> x = (Inl e, k', lg')"
  by (cases x; cases "fst x") (auto simp: without_answer_def)

text \<open>A call that answers with an error leaves the keeper exactly as it was.\<close>

theorem refused_call_changes_nothing:
  assumes "perform u c k lg = (Inl e, k', lg')"
  shows "k' = k"
  using assms
  by (cases c) (auto simp: keeper_apply_def set_budget_def set_cost_def set_progress_def set_situation_def
      add_correction_def add_result_def add_result_of_call_def add_report_def pin_def mark_plan_step_def
      mark_job_task_def set_status_def save_the_round_def change_and_save_def
      dest!: without_answer_Inl call_refused change_refused add_result_line_refused save_Inl
      split: if_splits prod.splits sum.splits)

theorem refused_call_changes_nothing_witness:
  "fst (snd (perform plain_tables (SetProgress 1 2 []) started_keeper started_log)) = started_keeper"
proof -
  have "perform plain_tables (SetProgress 1 2 []) started_keeper started_log =
      (Inl (Breaks ErrWrongKind), started_keeper, started_log)"
    using example_facts(6) by (simp add: set_progress_def must_be_def)
  from refused_call_changes_nothing[OF this] show ?thesis
    using \<open>perform plain_tables (SetProgress 1 2 []) started_keeper started_log = _\<close> by simp
qed

section \<open>Out of the log again\<close>






text \<open>The label of a new result is on no line of the record and on no result stored under its key,
  so no label is given twice.\<close>

theorem new_labels_are_new:
  assumes "keeper_run u st k lg" "next_result_label k lg = (Inr i, lg')"
    "j \<in> rl_id ` set (w_results (r_work (kp_record k))) \<union> sr_id ` set (results_under (log_key k) lg)"
    "result_number (r_header (kp_record k)) j \<noteq> None"
  shows "i \<noteq> j"
proof -
  have s: "sound_state st k lg" by (rule keeper_run_sound[OF assms(1)])
  then show ?thesis
    using new_label_is_new[OF _ _ assms(2) _ assms(4)] assms(3) sound_state_id[OF s]
    by (simp add: results_under_def sound_state_def)
qed

theorem new_labels_are_new_witness:
  "\<exists>i lg'. next_result_label (fst example_later) (snd example_later) = (Inr i, lg') \<and> i \<noteq> ''r1''"
proof -
  have "case example_later of (k, lg) \<Rightarrow> succeeds (fst (next_result_label k lg))
      \<and> list_ex (\<lambda>l. rl_id l = ''r1'') (w_results (r_work (kp_record k)))
      \<and> result_number (r_header (kp_record k)) ''r1'' = Some 1"
    by code_simp
  then have facts: "succeeds (fst (next_result_label (fst example_later) (snd example_later)))"
    "list_ex (\<lambda>l. rl_id l = ''r1'') (w_results (r_work (kp_record (fst example_later))))"
    and num: "result_number (r_header (kp_record (fst example_later))) ''r1'' \<noteq> None"
    by (simp_all add: case_prod_unfold)
  obtain i lg' where i: "next_result_label (fst example_later) (snd example_later) = (Inr i, lg')"
    using facts(1) by (cases "next_result_label (fst example_later) (snd example_later)") (auto simp: succeeds_iff)
  have old: "''r1'' \<in> rl_id ` set (w_results (r_work (kp_record (fst example_later))))"
    using facts(2) unfolding list_ex_iff image_iff by metis
  have "i \<noteq> ''r1''" by (rule new_labels_are_new[OF example_later_run i _ num]) (use old in simp)
  then show ?thesis using i by blast
qed



section \<open>The end of a task\<close>

text \<open>A record is set to done only when its done-check passes, and the record that is kept then says
  done and passes the done-check itself.\<close>

theorem done_needs_the_done_check:
  assumes "set_status status_done k lg = (Inr (), k', lg')"
  shows "done_check (kp_record k) = Inr () \<and> h_status (r_header (kp_record k')) = status_done
    \<and> done_check (kp_record k') = Inr ()"
  using set_done_passes[OF assms] by simp

theorem done_needs_the_done_check_witness:
  "\<exists>k' lg'. set_status status_done (fst example_later) (snd example_later) = (Inr (), k', lg')
     \<and> done_check (kp_record k') = Inr ()"
proof -
  have "case example_later of (k, lg) \<Rightarrow> succeeds (fst (set_status status_done k lg))" by code_simp
  then obtain k' lg' where s: "set_status status_done (fst example_later) (snd example_later) = (Inr (), k', lg')"
    by (cases "set_status status_done (fst example_later) (snd example_later)")
      (auto simp: case_prod_unfold succeeds_iff)
  then show ?thesis using done_needs_the_done_check[OF s] by blast
qed

text \<open>The check is made when the status is set and not afterwards: an update of a record that is done can
  put a line on its done list that nothing proves.\<close>

definition waiting_line :: update where
  "waiting_line = no_update\<lparr>up_done_when := Some [\<lparr>dl_text = ''it is documented'', dl_done = False,
     dl_result = [], dl_reply = []\<rparr>]\<rparr>"

theorem done_record_can_gain_a_waiting_line:
  "\<exists>k lg. keeper_run plain_tables example_start k lg \<and> h_status (r_header (kp_record k)) = status_done
     \<and> done_check (kp_record k) \<noteq> Inr ()"
proof -
  let ?s = "after_calls [SetStatus status_done, Apply waiting_line] example_later"
  have "keeper_run plain_tables example_start (fst ?s) (snd ?s)"
    by (rule after_calls_run[OF example_later_run])
  moreover have "case ?s of (k, lg) \<Rightarrow> h_status (r_header (kp_record k)) = status_done
      \<and> \<not> succeeds (done_check (kp_record k))" by code_simp
  ultimately show ?thesis by (auto simp: case_prod_unfold succeeds_def)
qed

section \<open>The checkpoints and the log\<close>

text \<open>The checkpoints of a record in the log are numbered one, two, three and so on without a gap, the
  keeper stands at the last, and only the first carries the ask while the others name it.\<close>

theorem checkpoints_are_numbered:
  assumes "keeper_run u st k lg"
  shows "\<exists>cs. saved_checkpoints (start_key st) (log_contents lg) = map Some cs \<and> cs \<noteq> []
    \<and> map cp_number cs = map (\<lambda>i. int i + 1) [0..<length cs] \<and> kp_checkpoint k = int (length cs)
    \<and> cp_ask_from (hd cs) = 0 \<and> (\<forall>c \<in> set (tl cs). cp_ask_from c = 1)"
proof -
  obtain cs where "numbered st k lg cs" using keeper_run_sound[OF assms] by (auto simp: sound_state_def)
  then show ?thesis by (intro exI[of _ cs]) (simp add: numbered_def)
qed

theorem checkpoints_are_numbered_witness:
  "\<exists>cs. saved_checkpoints ''17'' (log_contents (snd example_later)) = map Some cs \<and> length cs = 3"
proof -
  have "start_key example_start = ''17''" by code_simp
  moreover from checkpoints_are_numbered[OF example_later_run] obtain cs where
    "saved_checkpoints (start_key example_start) (log_contents (snd example_later)) = map Some cs"
    "kp_checkpoint (fst example_later) = int (length cs)" by blast
  ultimately show ?thesis using later_facts(5) by auto
qed

text \<open>An append that answers puts the event at the end under a number above every other; one that does not
  leaves the contents as they were; and the log stays one that reads.\<close>

theorem append_only:
  assumes "sound_log lg" "log_append lg e = (x, lg')"
  shows "sound_log lg' \<and> (case x of
      Inr n \<Rightarrow> log_contents lg' = log_contents lg @ [e\<lparr>ev_sequence := n\<rparr>]
        \<and> (\<forall>a \<in> set (log_contents lg). ev_sequence a < n)
    | Inl _ \<Rightarrow> log_contents lg' = log_contents lg)"
  using assms log_store.app_ok[OF assms(1), of e] log_store.app_Inr[OF assms(1)] log_store.app_Inl[OF assms(1)]
    log_store.app_grows[OF assms(1)]
  by (auto split: sum.split)

theorem append_only_witness:
  "\<exists>lg'. log_append (empty_log [True]) (new_event ''17'' event_reply (checkpoint_body \<lparr>cp_number = 1, cp_text = [], cp_ask_from = 0\<rparr>))
      = (Inr 1, lg') \<and> sound_log lg' \<and> length (log_contents lg') = 1"
proof -
  let ?e = "new_event ''17'' event_reply (checkpoint_body \<lparr>cp_number = 1, cp_text = [], cp_ask_from = 0\<rparr>)"
  have "known_event_kind event_reply" by (simp add: known_event_kind_def)
  then obtain lg' where a: "log_append (empty_log [True]) ?e = (Inr 1, lg')"
    by (simp add: log_append_def new_event_def checkpoint_body_def empty_log_def answers_now_def max_int_def)
  show ?thesis using append_only[OF sound_empty a] a by (auto simp: log_contents_def empty_log_def)
qed

text \<open>A read of a task's events gives every one of them, in order, or says that it does not: with an error
  when the file does not answer, and with the first ten thousand and an error when there are more.\<close>

theorem a_read_is_whole_or_says_so:
  assumes "sound_log lg" "task \<noteq> []"
  shows "fst (by_task lg task) =
    (let all_events = filter (\<lambda>e. ev_task e = task) (log_contents lg) in
     if \<not> answers_now lg then ([], Some LogRefused)
     else if 10000 < length all_events then (take 10000 all_events, Some Unnamed)
     else (all_events, None))"
  using assms log_events_sound[OF assms(1), of "\<lambda>w. rw_task w = task" "int max_events_per_read"]
  by (simp add: by_task_def map_filter_event log_contents_def Let_def max_events_per_read_def[symmetric])

theorem a_read_is_whole_or_says_so_witness:
  "fst (by_task (empty_log [False]) ''17'') = ([], Some LogRefused)"
proof -
  have "\<not> answers_now (empty_log [False])" by (simp add: empty_log_def answers_now_def)
  then show ?thesis using a_read_is_whole_or_says_so[OF sound_empty, of "''17''" "[False]"] by (simp add: Let_def)
qed

text \<open>A replay hands over every event of the log in order, one after another, and stops at the first
  error.\<close>

lemma replay_rows_sound:
  "list_all sound_row ws \<Longrightarrow>
    replay_rows hand (\<lambda>_. False) s ws = each_in_turn hand s (map row_event ws)"
  by (induction ws arbitrary: s) (simp_all add: decode_sound)

theorem replay_hands_over_everything:
  assumes "sound_log lg" "answers_now lg"
  shows "fst (log_replay hand (\<lambda>_. False) s lg) = each_in_turn hand s (log_contents lg)"
  using assms replay_rows_sound[of "lg_rows lg" hand s]
  by (simp add: log_replay_def sorted_rows log_contents_def sound_log_def)

theorem replay_hands_over_everything_witness:
  "fst (log_replay (\<lambda>n e. Inr (n + (1::nat))) (\<lambda>_. False) 0 (empty_log [])) = Inr 0"
  using replay_hands_over_everything[of "empty_log []" "\<lambda>n e. Inr (n + (1::nat))" 0]
  by (simp add: empty_log_def answers_now_def log_contents_def sound_log_def)

text \<open>A text that is not UTF-8 is kept by the record and not by the log, so a record with such a byte in
  its ask is another record after a restart.\<close>

definition odd_start :: start_of_record where
  "odd_start = example_start\<lparr>st_ask := [CHR 0xFF]\<rparr>"

theorem a_stray_byte_does_not_survive:
  "\<exists>k lg k' lg'. new_keeper odd_start (empty_log []) = (Inr k, lg)
    \<and> load lg record_task ''17'' = (Inr k', lg')
    \<and> g_ask (r_goal (kp_record k)) = [CHR 0xFF]
    \<and> g_ask (r_goal (kp_record k')) = [CHR 0xEF, CHR 0xBF, CHR 0xBD]"
proof -
  have "case new_keeper odd_start (empty_log []) of (x, lg) \<Rightarrow> (case x of Inl _ \<Rightarrow> False | Inr k \<Rightarrow>
      g_ask (r_goal (kp_record k)) = [CHR 0xFF] \<and>
      (case fst (load lg record_task ''17'') of Inl _ \<Rightarrow> False | Inr k' \<Rightarrow>
         g_ask (r_goal (kp_record k')) = [CHR 0xEF, CHR 0xBF, CHR 0xBD]))"
    by code_simp
  then show ?thesis
    by (cases "new_keeper odd_start (empty_log [])"; cases "load (snd (new_keeper odd_start (empty_log []))) record_task ''17''")
      (auto split: sum.splits)
qed

section \<open>Labels and keys\<close>

text \<open>Each reader of a label, of a result, of a job's task and of a report, reads exactly the labels its
  writer gives for the numbers from one to the greatest integer, and gives the number back.\<close>

theorem labels_read_as_written:
  "(parse_result_id s = Some n \<longleftrightarrow> 1 \<le> n \<and> n \<le> max_int \<and> s = result_id n)
   \<and> (parse_task_id s = Some n \<longleftrightarrow> 1 \<le> n \<and> n \<le> max_int \<and> s = task_id n)
   \<and> (parse_report_id s = Some (job, n) \<longleftrightarrow>
        positive_number job \<and> 1 \<le> n \<and> n \<le> max_int \<and> s = report_id job n)"
  using result_label.rd_iff[of s n] task_label.rd_iff[of s n] parse_report_id_read[of s job n]
    parse_report_id_write[of job n] by auto

text \<open>Two records whose keys in the log are the same are of the same kind and have the same number.\<close>

theorem keys_never_meet:
  assumes "positive_number i" "positive_number j" "kind = record_task \<or> kind = record_job"
    "kind' = record_task \<or> kind' = record_job" "record_log_key kind i = record_log_key kind' j"
  shows "kind = kind' \<and> i = j"
  by (rule log_keys_apart[OF assms])

theorem keys_never_meet_witness:
  "positive_number ''3'' \<and> record_log_key record_job ''3'' = ''j3'' \<and> record_job = record_job \<and> ''3'' = ''3''"
proof -
  have "positive_number ''3''" "record_log_key record_job ''3'' = ''j3''" by code_simp+
  then show ?thesis using keys_never_meet[of "''3''" "''3''" record_job record_job] by simp
qed

section \<open>Checks on done lines\<close>

text \<open>A check read off a done line is of one of the five kinds with an argument, and one that looks at a
  page names an address and one to four widths within the browser's bounds.\<close>

theorem read_checks_can_be_run:
  assumes "read_check line = Some c"
  shows "is_a_kind (ck_kind c) \<and> ck_argument c \<noteq> [] \<and>
    (ck_kind c = ''looks'' \<longrightarrow> is_an_address (ck_url c) \<and> 1 \<le> length (ck_widths c) \<and> length (ck_widths c) \<le> 4
       \<and> (\<forall>n \<in> set (ck_widths c). 320 \<le> n \<and> n \<le> 3840))"
  using read_check_kind[OF assms] read_check_looks[OF assms]
  by (auto simp: max_looks_widths_def narrowest_looks_def widest_looks_def Suc_le_eq)

theorem read_checks_can_be_run_witness:
  "\<exists>c. read_check ''it fits [looks: http://localhost:8080 at 1440, 390]'' = Some c
     \<and> is_an_address (ck_url c) \<and> ck_widths c = [1440, 390]"
proof -
  have "case read_check ''it fits [looks: http://localhost:8080 at 1440, 390]'' of None \<Rightarrow> False
    | Some c \<Rightarrow> ck_kind c = ''looks'' \<and> ck_widths c = [1440, 390]" by code_simp
  then obtain c where c: "read_check ''it fits [looks: http://localhost:8080 at 1440, 390]'' = Some c"
    "ck_kind c = ''looks''" "ck_widths c = [1440, 390]" by (auto split: option.splits)
  then show ?thesis using read_checks_can_be_run[OF c(1)] by auto
qed

end
