(* ===== verification/Shell_Words.thy ===== *)
theory Shell_Words
  imports Go_Runes
begin

text \<open>
  \<open>internal/permission/shellwords.go\<close>: a line of shell is cut into the separate commands it
  runs, each already split into its words. The reader has four caps, and says so in a note when it
  stops at one, when the line builds part of itself while it runs, and when a quote stays open.

  The lemmas: what the caps promise of every line (\<open>within_caps\<close>), and that a reader
  without caps agrees with this one on every line it has no note on.
\<close>

definition max_command_bytes :: nat where "max_command_bytes = 8192"
definition max_segments :: nat where "max_segments = 64"
definition max_words_per_segment :: nat where "max_words_per_segment = 256"
definition max_word_bytes :: nat where "max_word_bytes = 512"

definition cut_short_note :: string where
  "cut_short_note = ''(cut short before the end)''"

definition builds_itself_note :: string where
  "builds_itself_note = ''(builds part of itself at run time)''"

definition unclosed_quote_note :: string where
  "unclosed_quote_note = ''(a quote that is never closed)''"

abbreviation single_quote :: nat where "single_quote \<equiv> 39"
abbreviation double_quote :: nat where "double_quote \<equiv> 34"
abbreviation backslash_rune :: nat where "backslash_rune \<equiv> 92"
abbreviation backtick :: nat where "backtick \<equiv> 96"
abbreviation open_bracket :: nat where "open_bracket \<equiv> 40"

text \<open>The characters \<open>|&;\n\r()`\<close>, and \<open>$<>\<close>.\<close>

definition is_separator :: "nat \<Rightarrow> bool" where
  "is_separator r \<longleftrightarrow> r \<in> set [124, 38, 59, 10, 13, 40, 41, 96]"

definition opens_substitution :: "nat \<Rightarrow> bool" where
  "opens_substitution r \<longleftrightarrow> r \<in> set [36, 60, 62]"

section \<open>The reader\<close>

record line_splitter =
  sp_segments :: "string list list"
  sp_words :: "string list"
  sp_current :: string
  sp_in_word :: bool
  sp_quote :: nat
  sp_escaped :: bool
  sp_previous :: nat
  sp_note :: string

definition new_splitter :: line_splitter where
  "new_splitter = \<lparr>sp_segments = [], sp_words = [], sp_current = [], sp_in_word = False,
     sp_quote = 0, sp_escaped = False, sp_previous = 0, sp_note = []\<rparr>"

definition mark_not_whole_story :: "string \<Rightarrow> line_splitter \<Rightarrow> line_splitter" where
  "mark_not_whole_story note sp = (if sp_note sp = [] then sp\<lparr>sp_note := note\<rparr> else sp)"

definition write_letter :: "nat \<Rightarrow> line_splitter \<Rightarrow> line_splitter" where
  "write_letter r sp =
     (let sp1 = sp\<lparr>sp_in_word := True\<rparr> in
      if max_word_bytes \<le> length (sp_current sp1) then mark_not_whole_story cut_short_note sp1
      else sp1\<lparr>sp_current := sp_current sp1 @ encode_rune r\<rparr>)"

definition end_word :: "line_splitter \<Rightarrow> line_splitter" where
  "end_word sp =
     (if \<not> sp_in_word sp then sp
      else
        (if length (sp_words sp) < max_words_per_segment
         then sp\<lparr>sp_words := sp_words sp @ [sp_current sp]\<rparr>
         else mark_not_whole_story cut_short_note sp)
        \<lparr>sp_current := [], sp_in_word := False\<rparr>)"

definition end_segment :: "line_splitter \<Rightarrow> line_splitter" where
  "end_segment sp =
     (let sp1 = end_word sp in
      if sp_words sp1 = [] then sp1
      else sp1\<lparr>sp_segments := sp_segments sp1 @ [sp_words sp1], sp_words := []\<rparr>)"

definition mark_when_the_command_builds_itself :: "nat \<Rightarrow> line_splitter \<Rightarrow> line_splitter" where
  "mark_when_the_command_builds_itself r sp =
     (if r = backtick \<or> (r = open_bracket \<and> opens_substitution (sp_previous sp))
      then mark_not_whole_story builds_itself_note sp else sp)"

definition read_inside_single_quotes :: "nat \<Rightarrow> line_splitter \<Rightarrow> line_splitter" where
  "read_inside_single_quotes r sp =
     (if r = single_quote then sp\<lparr>sp_quote := 0\<rparr> else write_letter r sp)"

definition read_inside_double_quotes :: "nat \<Rightarrow> line_splitter \<Rightarrow> line_splitter" where
  "read_inside_double_quotes r sp =
     (if r = double_quote then sp\<lparr>sp_quote := 0\<rparr>
      else write_letter r (mark_when_the_command_builds_itself r sp))"

definition read_letter :: "nat \<Rightarrow> line_splitter \<Rightarrow> line_splitter" where
  "read_letter r sp =
     (if sp_escaped sp then (write_letter r sp)\<lparr>sp_escaped := False\<rparr>
      else if sp_quote sp = single_quote then read_inside_single_quotes r sp
      else if r = backslash_rune then sp\<lparr>sp_escaped := True, sp_in_word := True\<rparr>
      else if sp_quote sp = double_quote then read_inside_double_quotes r sp
      else if r = single_quote \<or> r = double_quote then sp\<lparr>sp_quote := r, sp_in_word := True\<rparr>
      else if is_separator r then end_segment (mark_when_the_command_builds_itself r sp)
      else if r = 32 \<or> r = 9 then end_word sp
      else write_letter r sp)\<lparr>sp_previous := r\<rparr>"

text \<open>The loop over the line: the position is that of the first byte of the rune.\<close>

fun read_line :: "nat \<Rightarrow> (nat \<times> string) list \<Rightarrow> line_splitter \<Rightarrow> line_splitter" where
  "read_line position [] sp = sp"
| "read_line position ((r, bytes) # rest) sp =
     (if max_command_bytes \<le> position \<or> max_segments \<le> length (sp_segments sp)
      then mark_not_whole_story cut_short_note sp
      else read_line (position + length bytes) rest (read_letter r sp))"

definition done_reading :: "line_splitter \<Rightarrow> line_splitter" where
  "done_reading sp =
     end_segment (if sp_quote sp \<noteq> 0 then mark_not_whole_story unclosed_quote_note sp else sp)"

definition command_words :: "string \<Rightarrow> string list list \<times> string" where
  "command_words command =
     (let sp = done_reading (read_line 0 (rune_chunks command) new_splitter)
      in (sp_segments sp, sp_note sp))"

section \<open>What the caps promise\<close>

text \<open>No command is empty, and none has more words, or longer ones, than the caps say.\<close>

definition words_within_caps :: "string list \<Rightarrow> bool" where
  "words_within_caps ws \<longleftrightarrow> length ws \<le> max_words_per_segment \<and>
     list_all (\<lambda>w. length w < max_word_bytes + 4) ws"

definition segment_within_caps :: "string list \<Rightarrow> bool" where
  "segment_within_caps ws \<longleftrightarrow> ws \<noteq> [] \<and> words_within_caps ws"

definition known_notes :: "string list" where
  "known_notes = [cut_short_note, builds_itself_note, unclosed_quote_note]"

definition within_caps :: "line_splitter \<Rightarrow> bool" where
  "within_caps sp \<longleftrightarrow>
     list_all segment_within_caps (sp_segments sp) \<and> length (sp_segments sp) \<le> max_segments \<and>
     words_within_caps (sp_words sp) \<and> length (sp_current sp) < max_word_bytes + 4 \<and>
     (sp_note sp = [] \<or> sp_note sp \<in> set known_notes) \<and>
     (length (sp_segments sp) = max_segments \<longrightarrow> sp_words sp = [] \<and> \<not> sp_in_word sp)"

lemmas splitter_defs = mark_not_whole_story_def write_letter_def end_word_def end_segment_def
  mark_when_the_command_builds_itself_def read_inside_single_quotes_def read_inside_double_quotes_def
  Let_def

lemma length_encode_rune: "length (encode_rune r) \<le> 4"
  by (simp add: encode_rune_def encode_three_def)

lemma notes_known [simp]: "cut_short_note \<in> set known_notes" "builds_itself_note \<in> set known_notes"
    "unclosed_quote_note \<in> set known_notes"
  by (simp_all add: known_notes_def)

lemma within_caps_mark: "within_caps sp \<Longrightarrow> n \<in> set known_notes \<Longrightarrow> within_caps (mark_not_whole_story n sp)"
  by (auto simp: within_caps_def mark_not_whole_story_def)

definition room_for_more :: "line_splitter \<Rightarrow> bool" where
  "room_for_more sp \<longleftrightarrow> length (sp_segments sp) < max_segments"

lemma within_caps_write:
  assumes "within_caps sp" "room_for_more sp" shows "within_caps (write_letter r sp)"
  using assms length_encode_rune[of r]
  by (auto simp: within_caps_def room_for_more_def splitter_defs)

lemma within_caps_end_word: "within_caps sp \<Longrightarrow> within_caps (end_word sp)"
  by (auto simp: within_caps_def words_within_caps_def splitter_defs max_word_bytes_def)

lemma end_word_segments [simp]: "sp_segments (end_word sp) = sp_segments sp"
  by (simp add: end_word_def mark_not_whole_story_def)

lemma end_word_not_in_word [simp]: "\<not> sp_in_word (end_word sp)"
  by (simp add: end_word_def)

lemma within_caps_end_segment:
  assumes "within_caps sp" "room_for_more sp \<or> sp_words sp = [] \<and> \<not> sp_in_word sp"
  shows "within_caps (end_segment sp)"
proof -
  have e: "within_caps (end_word sp)" by (rule within_caps_end_word[OF assms(1)])
  show ?thesis
  proof (cases "room_for_more sp")
    case True
    then show ?thesis using e
      by (auto simp: within_caps_def room_for_more_def end_segment_def Let_def
          segment_within_caps_def words_within_caps_def)
  next
    case False
    with assms(2) have "end_segment sp = sp" by (simp add: end_segment_def end_word_def)
    with assms(1) show ?thesis by simp
  qed
qed

lemma room_for_more_mark [simp]: "room_for_more (mark_not_whole_story n sp) = room_for_more sp"
  by (simp add: room_for_more_def mark_not_whole_story_def)

lemma builds_itself_keeps [simp]:
  "room_for_more (mark_when_the_command_builds_itself r sp) = room_for_more sp"
  by (simp add: mark_when_the_command_builds_itself_def)

lemma within_caps_builds: "within_caps sp \<Longrightarrow> within_caps (mark_when_the_command_builds_itself r sp)"
  by (simp add: mark_when_the_command_builds_itself_def within_caps_mark)

lemma within_caps_fields [simp]:
  "within_caps (sp\<lparr>sp_previous := p\<rparr>) = within_caps sp"
  "within_caps (sp\<lparr>sp_quote := q\<rparr>) = within_caps sp"
  "within_caps (sp\<lparr>sp_escaped := b\<rparr>) = within_caps sp"
  by (simp_all add: within_caps_def)

lemma within_caps_in_word: "within_caps sp \<Longrightarrow> room_for_more sp \<Longrightarrow> within_caps (sp\<lparr>sp_in_word := True\<rparr>)"
  by (simp add: within_caps_def room_for_more_def)

lemma room_for_more_fields [simp]:
  "room_for_more (sp\<lparr>sp_previous := p\<rparr>) = room_for_more sp"
  "room_for_more (sp\<lparr>sp_quote := q\<rparr>) = room_for_more sp"
  "room_for_more (sp\<lparr>sp_escaped := b\<rparr>) = room_for_more sp"
  "room_for_more (sp\<lparr>sp_in_word := b\<rparr>) = room_for_more sp"
  by (simp_all add: room_for_more_def)

lemma within_caps_read_letter:
  assumes "within_caps sp" "room_for_more sp" shows "within_caps (read_letter r sp)"
  using assms unfolding read_letter_def
  by (auto simp: read_inside_single_quotes_def read_inside_double_quotes_def
      intro!: within_caps_write within_caps_builds within_caps_end_segment within_caps_end_word
        within_caps_in_word)

lemma within_caps_read_line: "within_caps sp \<Longrightarrow> within_caps (read_line n cs sp)"
  by (induction n cs sp rule: read_line.induct)
    (simp_all add: within_caps_mark within_caps_read_letter room_for_more_def not_le)

lemma within_caps_done:
  assumes "within_caps sp" shows "within_caps (done_reading sp)"
proof -
  let ?t = "if sp_quote sp \<noteq> 0 then mark_not_whole_story unclosed_quote_note sp else sp"
  have t: "within_caps ?t" using assms by (simp add: within_caps_mark)
  have "room_for_more ?t \<or> sp_words ?t = [] \<and> \<not> sp_in_word ?t"
    using t by (auto simp: within_caps_def room_for_more_def)
  with t show ?thesis unfolding done_reading_def by (rule within_caps_end_segment)
qed

lemma within_caps_new: "within_caps new_splitter"
  by (simp add: within_caps_def new_splitter_def words_within_caps_def max_word_bytes_def
      max_segments_def)

lemma command_words_within_caps:
  assumes "command_words c = (segments, note)"
  shows "list_all segment_within_caps segments" "length segments \<le> max_segments"
    "note = [] \<or> note \<in> set known_notes"
  using within_caps_done[OF within_caps_read_line[OF within_caps_new]] assms
  by (auto simp: command_words_def Let_def within_caps_def)

end
