(* ===== verification/Command_Flags.thy ===== *)
theory Command_Flags
  imports Go_Strings Go_Runes "HOL-Library.List_Lexorder" "HOL-Library.Char_ord"
begin

text \<open>
  \<open>internal/permission/flags.go\<close>, with \<open>isFlag\<close> of \<open>reduce.go\<close> and
  \<open>programName\<close> of \<open>nestedshell.go\<close>: the flags of a command, read as flags rather
  than as text, and the second form of a command the rules match on, in which its flags are
  spelled out, in order and each once. A list of bytes is ordered as Go orders strings.
\<close>

section \<open>Programs and flags\<close>

text \<open>\<open>filepath.Base\<close> on Unix.\<close>

definition path_base :: "string \<Rightarrow> string" where
  "path_base path =
     (if path = [] then ''.''
      else
        let stripped = trim_right_bytes (\<lambda>c. c = CHR ''/'') path;
            base = rev (takeWhile (\<lambda>c. c \<noteq> CHR ''/'') (rev stripped))
        in if base = [] then ''/'' else base)"

definition program_name :: "string \<Rightarrow> string" where
  "program_name word = path_base word"

definition flag_letter :: "char \<Rightarrow> bool" where
  "flag_letter c \<longleftrightarrow>
     (let b = byte c in
      (97 \<le> b \<and> b \<le> 122) \<or> (65 \<le> b \<and> b \<le> 90) \<or> (48 \<le> b \<and> b \<le> 57) \<or> b = 45 \<or> b = 61 \<or> b = 95)"

definition is_flag :: "string \<Rightarrow> bool" where
  "is_flag word \<longleftrightarrow> 2 \<le> length word \<and> hd word = CHR ''-'' \<and> list_all flag_letter (tl word)"

text \<open>The flags, by program, whose value is the next word.\<close>

definition flags_that_take_a_value :: "string \<Rightarrow> string list option" where
  "flags_that_take_a_value = map_of
     [(''apt'', [''-o'', ''-c'', ''-t'', ''--option'', ''--config-file'', ''--target-release'']),
      (''apt-get'', [''-o'', ''-c'', ''-t'', ''--option'', ''--config-file'', ''--target-release'']),
      (''bun'', [''--cwd'', ''--config'']),
      (''cargo'', [''--manifest-path'', ''--config'', ''--color'']),
      (''docker'', [''-H'', ''-f'', ''--host'', ''--file'', ''--context'', ''--config'', ''--log-level'']),
      (''gh'', [''-R'', ''--repo'']),
      (''git'', [''-C'', ''-c'', ''--git-dir'', ''--work-tree'', ''--exec-path'', ''--namespace'']),
      (''go'', [''-C'']),
      (''kubectl'', [''-n'', ''-s'', ''--namespace'', ''--context'', ''--kubeconfig'', ''--cluster'', ''--server'']),
      (''make'', [''-C'', ''-f'', ''--directory'', ''--file'', ''--makefile'']),
      (''npm'', [''-w'', ''--prefix'', ''--workspace'']),
      (''pip'', [''--cache-dir'', ''--log'', ''--proxy'']),
      (''systemctl'', [''-H'', ''-M'', ''-t'', ''--host'', ''--machine'', ''--type'', ''--property'']),
      (''sudo'', [''-u'', ''-g'', ''-p'', ''-C'', ''-h'', ''-U'', ''-r'', ''-t'', ''--user'', ''--group'',
         ''--prompt'', ''--host'', ''--role'', ''--type'']),
      (''yarn'', [''--cwd''])]"

text \<open>The loop that takes those flags out, with the word behind each that has no equals sign.\<close>

fun drop_flag_values :: "string list \<Rightarrow> string list \<Rightarrow> string list" where
  "drop_flag_values take_a_value [] = []"
| "drop_flag_values take_a_value (w # ws) =
     (case cut w ''='' of
        (name, _, with_an_equals) \<Rightarrow>
          if name \<notin> set take_a_value then w # drop_flag_values take_a_value ws
          else if with_an_equals then drop_flag_values take_a_value ws
          else drop_flag_values take_a_value (drop 1 ws))"

definition without_the_values_of_flags :: "string list \<Rightarrow> string list" where
  "without_the_values_of_flags words =
     (case words of
        [] \<Rightarrow> words
      | program # rest \<Rightarrow>
          (case flags_that_take_a_value (program_name program) of
             None \<Rightarrow> words
           | Some take_a_value \<Rightarrow> program # drop_flag_values take_a_value rest))"

section \<open>Flags spelled out\<close>

definition spellings_of_a_flag :: "string \<Rightarrow> string list" where
  "spellings_of_a_flag word =
     (let name = fst (cut word ''='') in
      if prefix ''--'' name then [''['' @ name @ '']'']
      else (''['' @ name @ '']'') # map (\<lambda>r. ''[-'' @ encode_rune r @ '']'') (runes (tl name)))"

definition one_command_with_its_flags_spelled_out :: "string \<Rightarrow> string" where
  "one_command_with_its_flags_spelled_out command =
     (let words = text_fields command;
          named = filter (\<lambda>w. \<not> is_flag w) words;
          flags = concat (map spellings_of_a_flag (filter is_flag words))
      in trim_space (join '' '' named @ '' '' @ concat (remdups_adj (sort flags))))"

definition flags_spelled_out :: "string \<Rightarrow> string" where
  "flags_spelled_out readable =
     join '' | '' (map one_command_with_its_flags_spelled_out (split_on readable '' | ''))"

section \<open>Which flags the second form holds\<close>

lemma spelled_each_once:
  "set (remdups_adj (sort (concat (map spellings_of_a_flag fs)))) = (\<Union>f \<in> set fs. set (spellings_of_a_flag f))"
  by simp

lemma flags_no_space: "is_flag w \<Longrightarrow> c \<in> set w \<Longrightarrow> byte c < 128 \<and> \<not> is_space (byte c)"
  by (cases w) (auto simp: is_flag_def list_all_iff flag_letter_def Let_def is_space_def)

lemma concat_sublist: "x \<in> set xs \<Longrightarrow> sublist x (concat xs)"
proof -
  assume "x \<in> set xs"
  then obtain a b where "xs = a @ x # b" by (auto dest: split_list)
  then have "concat xs = concat a @ x @ concat b" by simp
  then show ?thesis unfolding sublist_def by blast
qed

end
