(* ===== verification/Json_Read.thy ===== *)
theory Json_Read
  imports Go_Runes
begin

text \<open>
  Reading JSON, as \<open>encoding/json\<close> does: the arguments of a tool call come as the text of a
  JSON object, and the permission function reads single fields of it. A text is cut into tokens
  first, and the tokens are taken one by one by a machine with a stack, which is how the scanner
  of the library is built: it refuses whatever is no JSON, and a nest deeper than ten thousand.
  A member that is written twice counts as it was written last.
\<close>

section \<open>Tokens\<close>

datatype json =
    JNull
  | JBool bool
  | JNumber string
  | JString string
  | JArray "json list"
  | JObject "(string \<times> json) list"

datatype json_token = LBrace | RBrace | LBracket | RBracket | Comma | Colon | Value_Token json

definition is_json_space :: "char \<Rightarrow> bool" where
  "is_json_space c \<longleftrightarrow> byte c = 32 \<or> byte c = 9 \<or> byte c = 10 \<or> byte c = 13"

definition hex_value :: "char \<Rightarrow> nat option" where
  "hex_value c =
     (let b = byte c in
      if 48 \<le> b \<and> b \<le> 57 then Some (b - 48)
      else if 97 \<le> b \<and> b \<le> 102 then Some (b - 87)
      else if 65 \<le> b \<and> b \<le> 70 then Some (b - 55) else None)"

text \<open>Four hexadecimal digits, and what follows them.\<close>

definition hex_unit :: "string \<Rightarrow> (nat \<times> string) option" where
  "hex_unit s =
     (if length s < 4 then None
      else if list_ex (\<lambda>c. hex_value c = None) (take 4 s) then None
      else Some (foldl (\<lambda>v c. 16 * v + the (hex_value c)) 0 (take 4 s), drop 4 s))"

text \<open>
  What a \<open>\u\<close> escape stands for: a unit that is half of a surrogate pair takes the other half
  from the escape behind it, and is U+FFFD when no other half is there.
\<close>

definition hex_escape :: "nat \<Rightarrow> string \<Rightarrow> nat \<times> string" where
  "hex_escape n s =
     (if n < 55296 \<or> 57343 < n then (n, s)
      else if n \<le> 56319 \<and> take 2 s = [CHR 0x5C, CHR ''u''] then
        (case hex_unit (drop 2 s) of
           Some (m, rest) \<Rightarrow>
             if 56320 \<le> m \<and> m \<le> 57343 then (65536 + (n - 55296) * 1024 + (m - 56320), rest)
             else (replacement, s)
         | None \<Rightarrow> (replacement, s))
      else (replacement, s))"

lemma hex_unit_shorter: "hex_unit s = Some (n, t) \<Longrightarrow> length t < length s"
  by (auto simp: hex_unit_def split: if_splits)

lemma hex_escape_shorter: "length (snd (hex_escape n s)) \<le> length s"
  by (auto simp: hex_escape_def dest!: hex_unit_shorter split: option.splits)

definition short_escape :: "char \<Rightarrow> char option" where
  "short_escape c =
     map_of [(CHR ''b'', CHR 0x08), (CHR ''f'', CHR 0x0C), (CHR ''n'', CHR 0x0A),
             (CHR ''r'', CHR 0x0D), (CHR ''t'', CHR 0x09), (CHR 0x5C, CHR 0x5C),
             (CHR ''/'', CHR ''/''), (CHR 0x22, CHR 0x22)] c"

text \<open>
  The rest of a string behind its opening quote: its bytes with the escapes written out, and what
  follows the closing quote. A byte below a space is refused, as is a backslash before anything
  else than the letters above.
\<close>

function string_rest :: "string \<Rightarrow> (string \<times> string) option" where
  "string_rest [] = None"
| "string_rest (c # s) =
     (if c = CHR 0x22 then Some ([], s)
      else if c = CHR 0x5C then
        (case s of
           [] \<Rightarrow> None
         | e # t \<Rightarrow>
             if e = CHR ''u'' then
               (case hex_unit t of
                  None \<Rightarrow> None
                | Some (n, t1) \<Rightarrow>
                    map_option (apfst ((@) (encode_rune (fst (hex_escape n t1)))))
                      (string_rest (snd (hex_escape n t1))))
             else (case short_escape e of
                     None \<Rightarrow> None
                   | Some d \<Rightarrow> map_option (apfst ((#) d)) (string_rest t)))
      else if byte c < 32 then None
      else map_option (apfst ((#) c)) (string_rest s))"
  by pat_completeness auto
termination
proof (relation "measure length")
  fix c e :: char and s t t1 :: string and n :: nat and p
  assume "s = e # t" "hex_unit t = Some p" "(n, t1) = p"
  then show "(snd (hex_escape n t1), c # s) \<in> measure length"
    using hex_unit_shorter[of t n t1] hex_escape_shorter[of n t1] by simp
qed auto

text \<open>A string is read as its runes, U+FFFD for a byte that is part of none.\<close>

definition read_string :: "string \<Rightarrow> (string \<times> string) option" where
  "read_string s = map_option (apfst (\<lambda>b. text_of_runes (runes b))) (string_rest s)"

text \<open>A number: a sign, digits with no zero in front, a fraction and an exponent.\<close>

definition some_digits :: "string \<Rightarrow> (string \<times> string) option" where
  "some_digits s =
     (if takeWhile is_digit s = [] then None else Some (takeWhile is_digit s, dropWhile is_digit s))"

definition read_whole_part :: "string \<Rightarrow> (string \<times> string) option" where
  "read_whole_part s =
     (if take 1 s = ''0'' then Some (''0'', drop 1 s) else some_digits s)"

definition read_fraction :: "string \<Rightarrow> (string \<times> string) option" where
  "read_fraction s =
     (if take 1 s = ''.'' then map_option (apfst ((#) CHR ''.'')) (some_digits (drop 1 s))
      else Some ([], s))"

definition read_exponent :: "string \<Rightarrow> (string \<times> string) option" where
  "read_exponent s =
     (if take 1 s = ''e'' \<or> take 1 s = ''E'' then
        let sign = (if take 1 (drop 1 s) = ''+'' \<or> take 1 (drop 1 s) = ''-'' then 1 else 0)
        in map_option (apfst ((@) (take (1 + sign) s))) (some_digits (drop (1 + sign) s))
      else Some ([], s))"

definition read_number :: "string \<Rightarrow> (string \<times> string) option" where
  "read_number s =
     (let sign = (if take 1 s = ''-'' then 1 else 0) in
      case read_whole_part (drop sign s) of
        None \<Rightarrow> None
      | Some (whole, s1) \<Rightarrow>
          (case read_fraction s1 of
             None \<Rightarrow> None
           | Some (fraction, s2) \<Rightarrow>
               (case read_exponent s2 of
                  None \<Rightarrow> None
                | Some (exponent, s3) \<Rightarrow> Some (take sign s @ whole @ fraction @ exponent, s3))))"

text \<open>The first token of a text, and what follows it.\<close>

definition word_token :: "string \<Rightarrow> json \<Rightarrow> string \<Rightarrow> (json_token \<times> string) option" where
  "word_token w v s = map_option (Pair (Value_Token v)) (cut_prefix s w)"

definition read_token :: "char \<Rightarrow> string \<Rightarrow> (json_token \<times> string) option" where
  "read_token c s =
     (if c = CHR ''{'' then Some (LBrace, s)
      else if c = CHR ''}'' then Some (RBrace, s)
      else if c = CHR ''['' then Some (LBracket, s)
      else if c = CHR '']'' then Some (RBracket, s)
      else if c = CHR '','' then Some (Comma, s)
      else if c = CHR '':'' then Some (Colon, s)
      else if c = CHR 0x22 then map_option (apfst (Value_Token \<circ> JString)) (read_string s)
      else if c = CHR ''t'' then word_token ''rue'' (JBool True) s
      else if c = CHR ''f'' then word_token ''alse'' (JBool False) s
      else if c = CHR ''n'' then word_token ''ull'' JNull s
      else map_option (apfst (Value_Token \<circ> JNumber)) (read_number (c # s)))"

lemma string_rest_shorter: "string_rest s = Some (b, t) \<Longrightarrow> length t < length s"
proof (induction s arbitrary: b t rule: string_rest.induct)
  case (2 c s)
  show ?case
  proof (cases "c = CHR 0x22 \<or> c \<noteq> CHR 0x5C")
    case True
    with 2 show ?thesis by (fastforce split: if_splits)
  next
    case False
    then obtain e r where s: "s = e # r" using 2(4) by (cases s) auto
    show ?thesis
    proof (cases "e = CHR ''u''")
      case True
      with False 2(4) s obtain n r1 b1 where u: "hex_unit r = Some (n, r1)"
        "string_rest (snd (hex_escape n r1)) = Some (b1, t)"
        by (auto split: option.splits)
      with 2(1) False s True have "length t < length (snd (hex_escape n r1))" by simp
      with hex_unit_shorter[OF u(1)] hex_escape_shorter[of n r1] s show ?thesis by simp
    next
      case other: False
      with False 2(4) s obtain d b1 where "short_escape e = Some d" "string_rest r = Some (b1, t)"
        by (auto split: option.splits)
      with 2(2) False s other have "length t < length r" by simp
      with s show ?thesis by simp
    qed
  qed
qed simp

lemma some_digits_shorter: "some_digits s = Some (d, t) \<Longrightarrow> length t < length s"
proof -
  assume h: "some_digits s = Some (d, t)"
  then have "takeWhile is_digit s \<noteq> []" "t = dropWhile is_digit s"
    by (auto simp: some_digits_def split: if_splits)
  moreover have "length s = length (takeWhile is_digit s) + length (dropWhile is_digit s)"
    by (metis length_append takeWhile_dropWhile_id)
  ultimately show ?thesis by simp
qed

lemma read_whole_part_shorter: "read_whole_part s = Some (d, t) \<Longrightarrow> length t < length s"
  by (cases s) (auto simp: read_whole_part_def dest: some_digits_shorter split: if_splits)

lemma read_fraction_shorter: "read_fraction s = Some (d, t) \<Longrightarrow> length t \<le> length s"
  by (fastforce simp: read_fraction_def dest: some_digits_shorter split: if_splits)

lemma read_exponent_shorter: "read_exponent s = Some (d, t) \<Longrightarrow> length t \<le> length s"
  by (fastforce simp: read_exponent_def Let_def dest: some_digits_shorter split: if_splits)

lemma read_number_shorter: "read_number s = Some (d, t) \<Longrightarrow> length t < length s"
  by (fastforce simp: read_number_def Let_def split: option.splits prod.splits if_splits
      dest: read_whole_part_shorter read_fraction_shorter read_exponent_shorter)

lemma read_token_shorter: "read_token c s = Some (k, t) \<Longrightarrow> length t \<le> length s"
  by (auto simp: read_token_def word_token_def read_string_def cut_prefix_def less_Suc_eq_le
      dest!: string_rest_shorter read_number_shorter split: if_splits)

function json_tokens :: "string \<Rightarrow> json_token list option" where
  "json_tokens [] = Some []"
| "json_tokens (c # s) =
     (if is_json_space c then json_tokens s
      else case read_token c s of
             None \<Rightarrow> None
           | Some (k, rest) \<Rightarrow> map_option ((#) k) (json_tokens rest))"
  by pat_completeness auto
termination
  by (relation "measure length") (auto dest: read_token_shorter simp: less_Suc_eq_le)

section \<open>The machine\<close>

text \<open>
  A frame is an array or an object that is still open, with what it holds so far, the last first.
\<close>

datatype json_frame = In_Array "json list" | In_Object "(string \<times> json) list" string

datatype json_state =
    Wants_Value "json_frame list"
  | Wants_Value_Or_End "json_frame list"
  | Wants_Key "(string \<times> json) list" "json_frame list"
  | Wants_Key_Or_End "json_frame list"
  | Wants_Colon "(string \<times> json) list" string "json_frame list"
  | Has_Value json "json_frame list"

definition max_json_nesting :: nat where "max_json_nesting = 10000"

fun begin_value :: "json_frame list \<Rightarrow> json_token \<Rightarrow> json_state option" where
  "begin_value st LBrace =
     (if length st < max_json_nesting then Some (Wants_Key_Or_End st) else None)"
| "begin_value st LBracket =
     (if length st < max_json_nesting then Some (Wants_Value_Or_End st) else None)"
| "begin_value st (Value_Token v) = Some (Has_Value v st)"
| "begin_value st _ = None"

fun json_step :: "json_state \<Rightarrow> json_token \<Rightarrow> json_state option" where
  "json_step (Wants_Value st) k = begin_value st k"
| "json_step (Wants_Value_Or_End st) k =
     (if k = RBracket then Some (Has_Value (JArray []) st) else begin_value (In_Array [] # st) k)"
| "json_step (Wants_Key_Or_End st) k =
     (if k = RBrace then Some (Has_Value (JObject []) st)
      else case k of Value_Token (JString name) \<Rightarrow> Some (Wants_Colon [] name st) | _ \<Rightarrow> None)"
| "json_step (Wants_Key kvs st) k =
     (case k of Value_Token (JString name) \<Rightarrow> Some (Wants_Colon kvs name st) | _ \<Rightarrow> None)"
| "json_step (Wants_Colon kvs name st) k =
     (if k = Colon then Some (Wants_Value (In_Object kvs name # st)) else None)"
| "json_step (Has_Value v (In_Array vs # st)) k =
     (if k = Comma then Some (Wants_Value (In_Array (v # vs) # st))
      else if k = RBracket then Some (Has_Value (JArray (rev (v # vs))) st) else None)"
| "json_step (Has_Value v (In_Object kvs name # st)) k =
     (if k = Comma then Some (Wants_Key ((name, v) # kvs) st)
      else if k = RBrace then Some (Has_Value (JObject (rev ((name, v) # kvs))) st) else None)"
| "json_step (Has_Value v []) k = None"

fun json_steps :: "json_state \<Rightarrow> json_token list \<Rightarrow> json_state option" where
  "json_steps q [] = Some q"
| "json_steps q (k # ks) = (case json_step q k of None \<Rightarrow> None | Some q' \<Rightarrow> json_steps q' ks)"

definition read_json :: "string \<Rightarrow> json option" where
  "read_json s =
     (case json_tokens s of
        None \<Rightarrow> None
      | Some ks \<Rightarrow>
          (case json_steps (Wants_Value []) ks of Some (Has_Value v []) \<Rightarrow> Some v | _ \<Rightarrow> None))"

text \<open>
  \<open>json.Unmarshal\<close> into a map from names to values: an object, or \<open>null\<close> for no
  members; into a string and into a bool: \<open>null\<close> leaves what is there, the zero value.
\<close>

definition json_members :: "string \<Rightarrow> (string \<times> json) list option" where
  "json_members s =
     (case read_json s of Some (JObject kvs) \<Rightarrow> Some kvs | Some JNull \<Rightarrow> Some [] | _ \<Rightarrow> None)"

definition json_member :: "(string \<times> json) list \<Rightarrow> string \<Rightarrow> json option" where
  "json_member kvs name = map_of (rev kvs) name"

fun json_as_string :: "json \<Rightarrow> string option" where
  "json_as_string (JString s) = Some s"
| "json_as_string JNull = Some []"
| "json_as_string _ = None"

fun json_as_bool :: "json \<Rightarrow> bool option" where
  "json_as_bool (JBool b) = Some b"
| "json_as_bool JNull = Some False"
| "json_as_bool _ = None"

end
