(* ===== verification/Permission_Types.thy ===== *)
theory Permission_Types
  imports Record_Rules Json_Read
begin

text \<open>
  \<open>internal/contract/permission.go\<close> and \<open>internal/contract/toolnames.go\<close>: what a tool
  call put to the permission function is, what it answers, and the names of the tools. Beside them
  stand the fields of a call's arguments (\<open>readFields\<close>, \<open>stringField\<close> and
  \<open>boolField\<close> of \<open>internal/permission/reduce.go\<close>) and what the code asks of the
  machine it runs on.
\<close>

section \<open>Rulings and requests\<close>

type_synonym ruling = string

definition ruling_allow :: ruling where "ruling_allow = ''allow''"
definition ruling_ask :: ruling where "ruling_ask = ''ask''"
definition ruling_deny :: ruling where "ruling_deny = ''deny''"
definition ruling_stop :: ruling where "ruling_stop = ''stop''"

definition known_permission_ruling :: "ruling \<Rightarrow> bool" where
  "known_permission_ruling r \<longleftrightarrow> r \<in> set [ruling_allow, ruling_ask, ruling_deny, ruling_stop]"

lemma rulings_differ [simp]:
  "ruling_allow \<noteq> ruling_ask" "ruling_allow \<noteq> ruling_deny" "ruling_allow \<noteq> ruling_stop"
  "ruling_ask \<noteq> ruling_allow" "ruling_ask \<noteq> ruling_deny" "ruling_ask \<noteq> ruling_stop"
  "ruling_deny \<noteq> ruling_allow" "ruling_deny \<noteq> ruling_ask" "ruling_deny \<noteq> ruling_stop"
  "ruling_stop \<noteq> ruling_allow" "ruling_stop \<noteq> ruling_ask" "ruling_stop \<noteq> ruling_deny"
  by (simp_all add: ruling_allow_def ruling_ask_def ruling_deny_def ruling_stop_def)

record permission_request =
  rq_tool_name :: string
  rq_input :: string
  rq_command_prefix :: string
  rq_unattended :: bool

record permission_decision =
  pd_ruling :: ruling
  pd_reason :: string
  pd_preview_text :: string

record config_rule =
  cr_tool :: string
  cr_pattern :: string
  cr_action :: ruling

definition ask_first_bulk_delete :: string where
  "ask_first_bulk_delete = ''deleting many files at once, such as rm -rf''"

definition ask_first_sudo :: string where
  "ask_first_sudo = ''running a command with sudo''"

definition ask_first_spend_money :: string where
  "ask_first_spend_money = ''spending money''"

definition default_ask_me_first :: "string list" where
  "default_ask_me_first = [ask_first_bulk_delete, ask_first_sudo, ask_first_spend_money]"

section \<open>The names of the tools\<close>

definition tool_read :: string where "tool_read = ''read''"
definition tool_write :: string where "tool_write = ''write''"
definition tool_edit :: string where "tool_edit = ''edit''"
definition tool_search :: string where "tool_search = ''search''"
definition tool_shell :: string where "tool_shell = ''shell''"
definition tool_web :: string where "tool_web = ''web''"
definition tool_skill :: string where "tool_skill = ''skill''"
definition tool_job :: string where "tool_job = ''job''"
definition tool_browser_open :: string where "tool_browser_open = ''browser_open''"
definition tool_browser_read :: string where "tool_browser_read = ''browser_read''"
definition tool_browser_click :: string where "tool_browser_click = ''browser_click''"
definition tool_browser_type :: string where "tool_browser_type = ''browser_type''"
definition tool_browser_act :: string where "tool_browser_act = ''browser_act''"
definition tool_browser_login :: string where "tool_browser_login = ''browser_login''"
definition tool_browser_handoff :: string where "tool_browser_handoff = ''browser_handoff''"
definition tool_computer :: string where "tool_computer = ''computer''"

lemmas tool_names = tool_read_def tool_write_def tool_edit_def tool_search_def tool_shell_def
  tool_web_def tool_skill_def tool_job_def tool_browser_open_def tool_browser_read_def
  tool_browser_click_def tool_browser_type_def tool_browser_act_def tool_browser_login_def
  tool_browser_handoff_def tool_computer_def

section \<open>What the code asks of its machine\<close>

text \<open>
  The tables of Unicode; the smallest rune a rune is the same as when capital letters are ignored,
  which is how the package \<open>regexp\<close> compares letters (used outside ASCII only); what
  \<open>os.Stat\<close> says of a path; the host that \<open>net/url\<close> reads in an address; and how
  \<open>strconv.Quote\<close> writes a text, the \<open>%q\<close> of every reason.
\<close>

record file_info =
  fi_is_dir :: bool
  fi_size :: int

record machine =
  ma_unicode :: unicode_tables
  ma_fold :: "nat \<Rightarrow> nat"
  ma_disk :: "string \<Rightarrow> file_info option"
  ma_address_host :: "string \<Rightarrow> string option"
  ma_quote :: "string \<Rightarrow> string"

text \<open>The size of the file now, zero when there is no such file.\<close>

definition size_on_disk :: "machine \<Rightarrow> string \<Rightarrow> int" where
  "size_on_disk m path =
     (case ma_disk m path of None \<Rightarrow> 0 | Some about \<Rightarrow> if fi_is_dir about then 0 else fi_size about)"

section \<open>The fields of a call\<close>

definition max_input_bytes :: nat where "max_input_bytes = 1048576"

text \<open>The members of the arguments, none when they are no object or too long to read.\<close>

definition read_fields :: "string \<Rightarrow> (string \<times> json) list" where
  "read_fields input =
     (if input = [] \<or> max_input_bytes < length input then []
      else case json_members input of None \<Rightarrow> [] | Some members \<Rightarrow> members)"

definition string_field :: "(string \<times> json) list \<Rightarrow> string \<Rightarrow> string option" where
  "string_field members name =
     (case json_member members name of None \<Rightarrow> None | Some raw \<Rightarrow> json_as_string raw)"

definition bool_field :: "(string \<times> json) list \<Rightarrow> string \<Rightarrow> bool" where
  "bool_field members name =
     (case json_member members name of
        None \<Rightarrow> False
      | Some raw \<Rightarrow> (case json_as_bool raw of None \<Rightarrow> False | Some b \<Rightarrow> b))"

text \<open>The first of some fields that is a text and says something.\<close>

fun first_said :: "(string \<times> json) list \<Rightarrow> string list \<Rightarrow> string option" where
  "first_said members [] = None"
| "first_said members (name # names) =
     (case string_field members name of
        Some value \<Rightarrow> if trim_space value \<noteq> [] then Some value else first_said members names
      | None \<Rightarrow> first_said members names)"

end
