(* ===== verification/Command_Reduce.thy ===== *)
theory Command_Reduce
  imports Shell_Words Command_Flags Permission_Types
begin

text \<open>
  \<open>internal/permission/reduce.go\<close>, \<open>wrappers.go\<close> and \<open>nestedshell.go\<close>:
  the readable form of a tool call. A shell command is cut down to its program and the words that
  matter, read through the programs whose one job is to run another and through the shells that are
  handed a script; any other call is its tool's name and the one field that says what it will do.
\<close>

section \<open>The words that define a command\<close>

definition sudo_program :: string where "sudo_program = ''sudo''"

record command_shape =
  cs_words :: nat
  cs_keep_flags :: bool

definition default_shape :: command_shape where
  "default_shape = \<lparr>cs_words = 1, cs_keep_flags = True\<rparr>"

definition subcommand_shape :: "nat \<Rightarrow> command_shape" where
  "subcommand_shape n = \<lparr>cs_words = n, cs_keep_flags = False\<rparr>"

definition command_shapes :: "string \<Rightarrow> command_shape option" where
  "command_shapes = map_of
     [(''apt'', subcommand_shape 2), (''apt-get'', subcommand_shape 2), (''brew'', subcommand_shape 2),
      (''bun'', subcommand_shape 2), (''bun run'', subcommand_shape 3), (''cargo'', subcommand_shape 2),
      (''docker'', subcommand_shape 2), (''docker compose'', subcommand_shape 3),
      (''gh'', subcommand_shape 3), (''git'', subcommand_shape 2),
      (''git clean'', \<lparr>cs_words = 2, cs_keep_flags = True\<rparr>),
      (''git reset'', \<lparr>cs_words = 2, cs_keep_flags = True\<rparr>),
      (''go'', subcommand_shape 2), (''kubectl'', subcommand_shape 2), (''make'', subcommand_shape 2),
      (''npm'', subcommand_shape 2), (''npm run'', subcommand_shape 3), (''pip'', subcommand_shape 2),
      (''systemctl'', subcommand_shape 2), (''yarn'', subcommand_shape 2)]"

text \<open>The longest leading words the table names, tried from the longest down.\<close>

fun longest_named_shape :: "string list \<Rightarrow> nat \<Rightarrow> command_shape option" where
  "longest_named_shape leading 0 = None"
| "longest_named_shape leading (Suc n) =
     (case command_shapes (join '' '' (take (Suc n) leading)) of
        Some shape \<Rightarrow> Some shape
      | None \<Rightarrow> longest_named_shape leading n)"

definition shape_of :: "string list \<Rightarrow> command_shape" where
  "shape_of words =
     (let plain = take 3 (filter (\<lambda>w. \<not> is_flag w) words);
          leading = (case plain of [] \<Rightarrow> [] | program # rest \<Rightarrow> program_name program # rest)
      in case longest_named_shape leading (length leading) of
           Some shape \<Rightarrow> shape | None \<Rightarrow> default_shape)"

text \<open>The loop that keeps them: it ends at the first argument when the flags do not matter.\<close>

fun keep_words :: "command_shape \<Rightarrow> nat \<Rightarrow> string list \<Rightarrow> string list" where
  "keep_words shape taken [] = []"
| "keep_words shape taken (w # ws) =
     (if is_flag w then
        (if cs_keep_flags shape then w # keep_words shape taken ws else keep_words shape taken ws)
      else if taken < cs_words shape then w # keep_words shape (Suc taken) ws
      else if \<not> cs_keep_flags shape then []
      else keep_words shape taken ws)"

definition words_that_define_the_command :: "string list \<Rightarrow> string" where
  "words_that_define_the_command words = join '' '' (keep_words (shape_of words) 0 words)"

section \<open>What stands before the program\<close>

text \<open>The first byte is looked at as a rune of its own, the rest rune by rune.\<close>

definition is_environment_assignment :: "unicode_tables \<Rightarrow> string \<Rightarrow> bool" where
  "is_environment_assignment u word \<longleftrightarrow>
     (case cut word ''='' of
        (name, _, split) \<Rightarrow>
          if \<not> split \<or> name = [] \<or> is_digit (hd name) then False
          else list_all (\<lambda>r. r = 95 \<or> letter_rune u r \<or> digit_rune u r) (runes name))"

definition without_environment_assignments :: "unicode_tables \<Rightarrow> string list \<Rightarrow> string list" where
  "without_environment_assignments u words = dropWhile (is_environment_assignment u) words"

fun without_sudo_flags :: "string list \<Rightarrow> string list" where
  "without_sudo_flags [] = []"
| "without_sudo_flags (w # ws) =
     (if \<not> is_flag w then w # ws
      else if w \<in> set (case flags_that_take_a_value sudo_program of Some fs \<Rightarrow> fs | None \<Rightarrow> []) \<and> ws \<noteq> []
      then without_sudo_flags (tl ws)
      else without_sudo_flags ws)"

section \<open>The programs that run another\<close>

definition max_wrappers :: nat where "max_wrappers = 4"

record wrapper =
  wr_flags_with_a_value :: "string list"
  wr_words_before_the_command :: nat
  wr_named_in_the_form :: bool

definition wrapper_programs :: "string \<Rightarrow> wrapper option" where
  "wrapper_programs = map_of
     [(''busybox'', \<lparr>wr_flags_with_a_value = [], wr_words_before_the_command = 0, wr_named_in_the_form = True\<rparr>),
      (''doas'', \<lparr>wr_flags_with_a_value = [''-u'', ''-C'', ''-a''], wr_words_before_the_command = 0,
         wr_named_in_the_form = True\<rparr>),
      (''env'', \<lparr>wr_flags_with_a_value = [''-u'', ''--unset'', ''-C'', ''--chdir'', ''-S'', ''--split-string''],
         wr_words_before_the_command = 0, wr_named_in_the_form = False\<rparr>),
      (''nice'', \<lparr>wr_flags_with_a_value = [''-n'', ''--adjustment''], wr_words_before_the_command = 0,
         wr_named_in_the_form = True\<rparr>),
      (''nohup'', \<lparr>wr_flags_with_a_value = [], wr_words_before_the_command = 0, wr_named_in_the_form = True\<rparr>),
      (''setsid'', \<lparr>wr_flags_with_a_value = [], wr_words_before_the_command = 0, wr_named_in_the_form = True\<rparr>),
      (''stdbuf'', \<lparr>wr_flags_with_a_value = [''-i'', ''-o'', ''-e'', ''--input'', ''--output'', ''--error''],
         wr_words_before_the_command = 0, wr_named_in_the_form = True\<rparr>),
      (''timeout'', \<lparr>wr_flags_with_a_value = [''-s'', ''--signal'', ''-k'', ''--kill-after''],
         wr_words_before_the_command = 1, wr_named_in_the_form = True\<rparr>),
      (''xargs'', \<lparr>wr_flags_with_a_value = [''-n'', ''-I'', ''-i'', ''-d'', ''-E'', ''-L'', ''-P'', ''-s'', ''-a'',
           ''--max-args'', ''--replace'', ''--delimiter'', ''--eof'', ''--max-lines'', ''--max-procs'',
           ''--max-chars'', ''--arg-file''],
         wr_words_before_the_command = 0, wr_named_in_the_form = True\<rparr>)]"

fun behind_the_wrapper :: "wrapper \<Rightarrow> nat \<Rightarrow> string list \<Rightarrow> string list option" where
  "behind_the_wrapper runner taken [] = None"
| "behind_the_wrapper runner taken (w # ws) =
     (if is_flag w then
        (case cut w ''='' of
           (name, _, with_an_equals) \<Rightarrow>
             if \<not> with_an_equals \<and> name \<in> set (wr_flags_with_a_value runner)
             then behind_the_wrapper runner taken (drop 1 ws)
             else behind_the_wrapper runner taken ws)
      else if taken < wr_words_before_the_command runner then behind_the_wrapper runner (Suc taken) ws
      else Some (w # ws))"

definition the_command_behind_the_wrapper :: "wrapper \<Rightarrow> string list \<Rightarrow> string list option" where
  "the_command_behind_the_wrapper runner words = behind_the_wrapper runner 0 words"

text \<open>The rounds of the loop that are left, and the names kept so far.\<close>

fun wrapper_rounds ::
  "unicode_tables \<Rightarrow> nat \<Rightarrow> string \<Rightarrow> string list \<Rightarrow> string \<times> string list \<times> string" where
  "wrapper_rounds u 0 kept words = (kept, words, cut_short_note)"
| "wrapper_rounds u (Suc n) kept words =
     (case words of
        [] \<Rightarrow> (kept, words, [])
      | program # rest \<Rightarrow>
          if program_name program = sudo_program then
            wrapper_rounds u n (kept @ sudo_program @ '' '')
              (without_environment_assignments u (without_sudo_flags rest))
          else
            (case wrapper_programs (program_name program) of
               None \<Rightarrow> (kept, words, [])
             | Some runner \<Rightarrow>
                 (case the_command_behind_the_wrapper runner rest of
                    None \<Rightarrow> (kept, words, [])
                  | Some behind \<Rightarrow>
                      wrapper_rounds u n
                        (if wr_named_in_the_form runner then kept @ program_name program @ '' '' else kept)
                        (without_environment_assignments u behind))))"

definition past_the_wrappers :: "unicode_tables \<Rightarrow> string list \<Rightarrow> string \<times> string list \<times> string" where
  "past_the_wrappers u words = wrapper_rounds u max_wrappers [] words"

section \<open>The shells that are handed a script\<close>

definition max_nested_shells :: nat where "max_nested_shells = 3"

definition shell_programs :: "string list" where
  "shell_programs = [''sh'', ''bash'', ''zsh'', ''dash'', ''su'']"

definition is_a_shell :: "string \<Rightarrow> bool" where
  "is_a_shell name \<longleftrightarrow> name \<in> set shell_programs"

definition hands_over_a_script :: "string \<Rightarrow> bool" where
  "hands_over_a_script word \<longleftrightarrow>
     (if length word < 2 \<or> \<not> prefix ''-'' word \<or> prefix ''--'' word then False
      else CHR ''c'' \<in> set (drop 1 word))"

fun script_among :: "string list \<Rightarrow> (string \<times> string) option" where
  "script_among (flag # script # rest) =
     (if hands_over_a_script flag then Some (flag, script) else script_among (script # rest))"
| "script_among _ = None"

definition script_handed_to_a_shell :: "string list \<Rightarrow> (string \<times> string) option" where
  "script_handed_to_a_shell words =
     (if is_a_shell (program_name (hd words)) then script_among (tl words) else None)"

section \<open>A whole command line\<close>

text \<open>The note of a line is the first there is: its own, then those of its commands in order.\<close>

fun first_note :: "string \<Rightarrow> string list \<Rightarrow> string" where
  "first_note note [] = note"
| "first_note note (n # ns) = first_note (if note = [] then n else note) ns"

function
  reduce_command_line :: "unicode_tables \<Rightarrow> string \<Rightarrow> nat \<Rightarrow> string \<times> string" and
  reduce_one_command :: "unicode_tables \<Rightarrow> string list \<Rightarrow> nat \<Rightarrow> string \<times> string" and
  reduce_nested_shell :: "unicode_tables \<Rightarrow> string \<Rightarrow> string \<Rightarrow> nat \<Rightarrow> string \<times> string"
where
  "reduce_command_line u command depth =
     (let parts = map (\<lambda>words. reduce_one_command u words depth) (fst (command_words command))
      in (join '' | '' (filter (\<lambda>p. p \<noteq> []) (map fst parts)),
          first_note (snd (command_words command)) (map snd parts)))"
| "reduce_one_command u words depth =
     (case past_the_wrappers u (without_environment_assignments u words) of
        (kept, ws, note) \<Rightarrow>
          if ws = [] then (trim_space kept, note)
          else
            (case script_handed_to_a_shell ws of
               Some (flag, script) \<Rightarrow>
                 (case reduce_nested_shell u (kept @ hd ws @ '' '' @ flag) script depth of
                    (inside, inside_note) \<Rightarrow> (inside, if inside_note = [] then note else inside_note))
             | None \<Rightarrow> (kept @ words_that_define_the_command (without_the_values_of_flags ws), note)))"
| "reduce_nested_shell u head script depth =
     (if max_nested_shells \<le> depth then (head, cut_short_note)
      else
        (case reduce_command_line u script (Suc depth) of
           (inside, note) \<Rightarrow> if inside = [] then (head, note) else (head @ '' '' @ inside, note)))"
  by pat_completeness auto
termination
  by (relation "measure (\<lambda>x. case x of
        Inl (u, c, d) \<Rightarrow> 3 * (4 - d) + 2
      | Inr (Inl (u, ws, d)) \<Rightarrow> 3 * (4 - d) + 1
      | Inr (Inr (u, h, s, d)) \<Rightarrow> 3 * (4 - d))")
    (auto simp: max_nested_shells_def)

declare reduce_command_line.simps [simp del] reduce_one_command.simps [simp del]
  reduce_nested_shell.simps [simp del]

section \<open>The readable form of a call\<close>

definition max_reduced_runes :: nat where "max_reduced_runes = 200"
definition empties_file_over_bytes :: int where "empties_file_over_bytes = 4096"

definition reduce_shell_call :: "machine \<Rightarrow> permission_request \<Rightarrow> string \<times> string" where
  "reduce_shell_call m request =
     (let members = read_fields (rq_input request) in
      case string_field members ''command'' of
        None \<Rightarrow>
          (let before_it = trim_space (rq_command_prefix request)
           in (if before_it \<noteq> [] then before_it else tool_shell, []))
      | Some command \<Rightarrow>
          (case reduce_command_line (ma_unicode m) command 0 of
             (line, note) \<Rightarrow>
               (if bool_field members ''escalate'' then trim_space (sudo_program @ '' '' @ line) else line,
                note)))"

definition main_fields_by_tool :: "string \<Rightarrow> string list" where
  "main_fields_by_tool tool =
     (case map_of
        [(tool_read, [''path'']), (tool_write, [''path'']), (tool_edit, [''path'']),
         (tool_search, [''pattern'', ''path'']), (tool_web, [''url'', ''query'']),
         (tool_skill, [''name'']), (tool_job, [''name'']),
         (tool_browser_open, [''url'', ''intent'']), (tool_browser_read, [''url'', ''intent'']),
         (tool_browser_click, [''intent'', ''element'']),
         (tool_browser_type, [''intent'', ''element'', ''text'']),
         (tool_browser_act, [''intent'']), (tool_browser_login, [''site'', ''url'']),
         (tool_browser_handoff, [''intent'', ''reason'']), (tool_computer, [''intent''])] tool
      of Some names \<Rightarrow> names | None \<Rightarrow> [])"

definition emptying_text :: "string \<Rightarrow> int \<Rightarrow> string" where
  "emptying_text path bytes = path @ '' emptying a file of '' @ itoa bytes @ '' bytes''"

definition emptying_note :: "machine \<Rightarrow> string \<Rightarrow> (string \<times> json) list \<Rightarrow> string option" where
  "emptying_note m tool members =
     (case string_field members ''path'' of
        None \<Rightarrow> None
      | Some path \<Rightarrow>
          if path = [] then None
          else if tool = tool_write then
            (case string_field members ''content'' of
               None \<Rightarrow> None
             | Some content \<Rightarrow>
                 if trim_space content \<noteq> [] then None
                 else if size_on_disk m path \<le> empties_file_over_bytes then None
                 else Some (emptying_text path (size_on_disk m path)))
          else if tool = tool_edit then
            (let replacing = (case string_field members ''new'' of Some t \<Rightarrow> t | None \<Rightarrow> []);
                 removed = (case string_field members ''old'' of Some t \<Rightarrow> t | None \<Rightarrow> [])
             in if trim_space replacing \<noteq> [] \<or> int (length removed) \<le> empties_file_over_bytes then None
                else Some (emptying_text path (int (length removed))))
          else None)"

definition reduce_other_call :: "machine \<Rightarrow> permission_request \<Rightarrow> string" where
  "reduce_other_call m request =
     (let tool = rq_tool_name request; members = read_fields (rq_input request) in
      case emptying_note m tool members of
        Some note \<Rightarrow> tool @ '' '' @ note
      | None \<Rightarrow>
          (case first_said members (main_fields_by_tool tool) of
             Some value \<Rightarrow> tool @ '' '' @ trim_space value
           | None \<Rightarrow> tool))"

definition one_line :: "string \<Rightarrow> string \<Rightarrow> string \<times> string" where
  "one_line s note =
     (let flattened = text_of_runes (map (\<lambda>r. if r = 9 \<or> is_control r then 32 else r) (runes s));
          tidied = join '' '' (text_fields flattened);
          letters = runes tidied
      in if note = [] \<and> length letters \<le> max_reduced_runes then (tidied, [])
         else
           let note1 = (if note = [] then cut_short_note else note);
               room = max_reduced_runes - length (runes note1) - 1;
               tidied1 = (if room < length letters then trim_space (text_of_runes (take room letters))
                          else tidied)
           in (trim_space (tidied1 @ '' '' @ note1), note1))"

definition reduce_call :: "machine \<Rightarrow> permission_request \<Rightarrow> string \<times> string" where
  "reduce_call m request =
     (if rq_tool_name request = tool_shell
      then (case reduce_shell_call m request of (line, note) \<Rightarrow> one_line line note)
      else one_line (reduce_other_call m request) [])"

definition reduce :: "machine \<Rightarrow> permission_request \<Rightarrow> string" where
  "reduce m request = fst (reduce_call m request)"

end
