(* ===== verification/Rulebook.thy ===== *)
theory Rulebook
  imports Command_Reduce
begin

text \<open>
  \<open>internal/permission/rules.go\<close> and \<open>askmefirst.go\<close>: rules of tool, pattern
  and action, of which the last that matches wins, and the three entries the ask-me-first list ships
  with. A pattern is made into a regular expression the way the code makes it, by quoting it and
  putting the two wild cards back; what the package \<open>regexp\<close> makes of that text is modelled
  for the texts that come out. The last section shows it to be the glob the comments promise.
\<close>

section \<open>Patterns\<close>

definition max_rules :: nat where "max_rules = 500"
definition max_pattern_runes :: nat where "max_pattern_runes = 200"

datatype permission_error =
    Pattern_Too_Long string nat
  | Pattern_Unreadable string
  | Rule_Without_Tool string
  | Rule_Without_Pattern string
  | Unknown_Action string ruling
  | Too_Many_Rules nat
  | Unknown_Entry string
  | Without_A_Clock
  | Turn_Stopped string
  | Unknown_Answer string
  | Too_Many_Answers
  | Approval_Without_Skill string
  | Approval_Covers_Nothing string
  | Approval_Covers_Two_Things string
  | Host_Too_Long string string
  | Host_With_An_Empty_Part string string
  | Not_A_Host string string
  | Website_Without_Tools string string
  | Tool_Visits_No_Website string string string
  | Limit_Not_Positive string int
  | Never_Expires string
  | Too_Many_Approvals string
  | Panic_No_Pattern

text \<open>\<open>regexp.QuoteMeta\<close>: a backslash before each of \<open>\.+*?()|[]{}^$\<close>.\<close>

definition is_meta :: "char \<Rightarrow> bool" where
  "is_meta c \<longleftrightarrow> c \<in> set (CHR 0x5C # ''.+*?()|[]{}^$'')"

definition quote_meta :: "string \<Rightarrow> string" where
  "quote_meta s = concat (map (\<lambda>c. if is_meta c then [CHR 0x5C, c] else [c]) s)"

text \<open>\<open>strings.ReplaceAll\<close> of a text that is not empty.\<close>

definition replace_all :: "string \<Rightarrow> string \<Rightarrow> string \<Rightarrow> string" where
  "replace_all s old new = join new (split_on s old)"

definition escaped_pattern :: "string \<Rightarrow> string" where
  "escaped_pattern pattern =
     replace_all (replace_all (quote_meta pattern) [CHR 0x5C, CHR ''*''] ''.*'') [CHR 0x5C, CHR ''?''] ''.''"

text \<open>
  What \<open>(?is)^...$\<close> around such a text matches: \<open>.*\<close> any run of runes, \<open>.\<close> any rune, a line
  break too, a backslash the rune behind it, and every other rune itself, capital letters ignored.
\<close>

datatype matcher = Any_Run | Any_Rune | This_Rune nat

fun read_regexp :: "nat list \<Rightarrow> matcher list" where
  "read_regexp [] = []"
| "read_regexp (r # rs) =
     (if r = 46 then
        (case rs of
           s # rs' \<Rightarrow> if s = 42 then Any_Run # read_regexp rs' else Any_Rune # read_regexp rs
         | [] \<Rightarrow> [Any_Rune])
      else if r = 92 then (case rs of s # rs' \<Rightarrow> This_Rune s # read_regexp rs' | [] \<Rightarrow> [])
      else This_Rune r # read_regexp rs)"

definition fold_rune :: "machine \<Rightarrow> nat \<Rightarrow> nat" where
  "fold_rune m r =
     (if r < 128 then (if 97 \<le> r \<and> r \<le> 122 then r - 32 else r) else ma_fold m r)"

fun matches_runes :: "machine \<Rightarrow> matcher list \<Rightarrow> nat list \<Rightarrow> bool" where
  "matches_runes m [] rs \<longleftrightarrow> rs = []"
| "matches_runes m (Any_Run # ms) rs \<longleftrightarrow>
     matches_runes m ms rs \<or> (case rs of [] \<Rightarrow> False | r # rs' \<Rightarrow> matches_runes m (Any_Run # ms) rs')"
| "matches_runes m (Any_Rune # ms) rs \<longleftrightarrow>
     (case rs of [] \<Rightarrow> False | r # rs' \<Rightarrow> matches_runes m ms rs')"
| "matches_runes m (This_Rune x # ms) rs \<longleftrightarrow>
     (case rs of [] \<Rightarrow> False | r # rs' \<Rightarrow> fold_rune m r = fold_rune m x \<and> matches_runes m ms rs')"

definition match_string :: "machine \<Rightarrow> matcher list \<Rightarrow> string \<Rightarrow> bool" where
  "match_string m ms s = matches_runes m ms (runes s)"

text \<open>\<open>regexp.Compile\<close> refuses a pattern that is not UTF-8, and no other of this kind.\<close>

definition compile_pattern :: "string \<Rightarrow> permission_error + matcher list" where
  "compile_pattern pattern =
     (if max_pattern_runes < length (runes pattern)
      then Inl (Pattern_Too_Long pattern (length (runes pattern)))
      else if \<not> valid_utf8 (escaped_pattern pattern) then Inl (Pattern_Unreadable pattern)
      else Inr (read_regexp (runes (escaped_pattern pattern))))"

section \<open>Rules\<close>

record rule_line =
  ru_tool :: string
  ru_pattern :: string
  ru_action :: ruling
  ru_reason :: string
  ru_from_the_ask_me_first_list :: bool

record compiled_rule =
  co_rule :: rule_line
  co_tool :: "matcher list"
  co_pattern :: "matcher list"

type_synonym rulebook = "compiled_rule list"

definition known_action :: "ruling \<Rightarrow> bool" where
  "known_action a \<longleftrightarrow> a \<in> set [ruling_allow, ruling_ask, ruling_deny]"

definition compile_rule :: "rule_line \<Rightarrow> permission_error + compiled_rule" where
  "compile_rule r =
     (if trim_space (ru_tool r) = [] then Inl (Rule_Without_Tool (ru_pattern r))
      else if trim_space (ru_pattern r) = [] then Inl (Rule_Without_Pattern (ru_tool r))
      else if \<not> known_action (ru_action r) then Inl (Unknown_Action (ru_tool r) (ru_action r))
      else
        and_then (compile_pattern (ru_tool r)) (\<lambda>tool.
        and_then (compile_pattern (ru_pattern r)) (\<lambda>pattern.
          Inr \<lparr>co_rule = r, co_tool = tool, co_pattern = pattern\<rparr>)))"

definition new_rulebook :: "rule_line list \<Rightarrow> permission_error + rulebook" where
  "new_rulebook rules =
     (if max_rules < length rules then Inl (Too_Many_Rules (length rules))
      else each_in_turn (\<lambda>book r. and_then (compile_rule r) (\<lambda>c. Inr (book @ [c]))) [] rules)"

definition rule_covers :: "machine \<Rightarrow> string \<Rightarrow> string list \<Rightarrow> compiled_rule \<Rightarrow> bool" where
  "rule_covers m tool forms c \<longleftrightarrow>
     match_string m (co_tool c) tool \<and> list_ex (match_string m (co_pattern c)) forms"

text \<open>The loop over the rules: a later rule that covers the call takes the place of an earlier one.\<close>

definition match_rules :: "machine \<Rightarrow> rulebook \<Rightarrow> string \<Rightarrow> string list \<Rightarrow> rule_line option" where
  "match_rules m book tool forms =
     foldl (\<lambda>matched c. if rule_covers m tool forms c then Some (co_rule c) else matched) None book"

section \<open>The ask-me-first list\<close>

record ask_me_first_entry =
  am_name :: string
  am_rules :: "rule_line list"

definition plain_rule :: "string \<Rightarrow> string \<Rightarrow> rule_line" where
  "plain_rule tool pattern = \<lparr>ru_tool = tool, ru_pattern = pattern, ru_action = [], ru_reason = [],
     ru_from_the_ask_me_first_list = False\<rparr>"

definition delete_patterns_by_tool :: "rule_line list" where
  "delete_patterns_by_tool =
     [plain_rule tool_shell ''*rm *[-r]*'',
      plain_rule tool_shell ''*rm *[--recursive]*'',
      plain_rule tool_shell ''*find *[-delete]*'',
      plain_rule tool_shell ''*git clean *[-f]*'',
      plain_rule tool_shell ''*git clean *[--force]*'',
      plain_rule tool_shell ''*git reset *[--hard]*'',
      plain_rule tool_write ''*emptying a file of*'',
      plain_rule tool_edit ''*emptying a file of*'',
      plain_rule tool_browser_act ''*delete all*'',
      plain_rule tool_computer ''*delete all*'']"

definition sudo_patterns :: "rule_line list" where
  "sudo_patterns =
     [plain_rule tool_shell (sudo_program @ ''*''), plain_rule tool_shell (''* '' @ sudo_program @ ''*'')]"

definition spending_words :: "string list" where
  "spending_words = [''buy'', ''pay'', ''purchase'', ''checkout'', ''subscribe'', ''order'']"

definition spending_tools :: "string list" where
  "spending_tools = [tool_browser_click, tool_browser_act, tool_computer, tool_web]"

definition spending_rules :: "rule_line list" where
  "spending_rules =
     concat (map (\<lambda>w. map (\<lambda>t. plain_rule t (''*'' @ w @ ''*'')) spending_tools) spending_words)"

definition ask_rules :: "string \<Rightarrow> rule_line list \<Rightarrow> rule_line list" where
  "ask_rules name patterns =
     map (\<lambda>p. \<lparr>ru_tool = ru_tool p, ru_pattern = ru_pattern p, ru_action = ruling_ask, ru_reason = name,
        ru_from_the_ask_me_first_list = True\<rparr>) patterns"

definition shipped_ask_me_first_entries :: "ask_me_first_entry list" where
  "shipped_ask_me_first_entries =
     [\<lparr>am_name = ask_first_bulk_delete, am_rules = ask_rules ask_first_bulk_delete delete_patterns_by_tool\<rparr>,
      \<lparr>am_name = ask_first_sudo, am_rules = ask_rules ask_first_sudo sudo_patterns\<rparr>,
      \<lparr>am_name = ask_first_spend_money, am_rules = ask_rules ask_first_spend_money spending_rules\<rparr>]"

definition rules_for_ask_me_first :: "string list \<Rightarrow> permission_error + rule_line list" where
  "rules_for_ask_me_first names =
     each_in_turn (\<lambda>rules name.
       case find (\<lambda>e. am_name e = name) shipped_ask_me_first_entries of
         Some e \<Rightarrow> Inr (rules @ am_rules e)
       | None \<Rightarrow> Inl (Unknown_Entry name)) [] names"

end
