(* ===== verification/Rulebook_Globs.thy ===== *)
theory Rulebook_Globs
  imports Rulebook
begin

text \<open>
  The patterns of the rulebook are globs: a star stands for any run of characters, a question mark
  for one, and everything else for itself, capital letters ignored. The code reaches that by quoting
  the pattern as a regular expression and putting the wild cards back in; the lemmas follow it.
\<close>

section \<open>The glob\<close>

fun glob :: "machine \<Rightarrow> nat list \<Rightarrow> nat list \<Rightarrow> bool" where
  "glob m [] rs \<longleftrightarrow> rs = []"
| "glob m (p # ps) rs \<longleftrightarrow>
     (if p = 42 then \<exists>run rest. rs = run @ rest \<and> glob m ps rest
      else if p = 63 then \<exists>r rest. rs = r # rest \<and> glob m ps rest
      else \<exists>r rest. rs = r # rest \<and> fold_rune m r = fold_rune m p \<and> glob m ps rest)"

definition matcher_of :: "nat \<Rightarrow> matcher" where
  "matcher_of p = (if p = 42 then Any_Run else if p = 63 then Any_Rune else This_Rune p)"

lemma matches_any_run:
  "matches_runes m (Any_Run # ms) rs \<longleftrightarrow> (\<exists>run rest. rs = run @ rest \<and> matches_runes m ms rest)"
proof (induction rs)
  case (Cons r rs)
  have "(\<exists>run rest. r # rs = run @ rest \<and> matches_runes m ms rest) \<longleftrightarrow>
      matches_runes m ms (r # rs) \<or> (\<exists>run rest. rs = run @ rest \<and> matches_runes m ms rest)"
    by (metis append_Cons append_Nil list.exhaust list.inject)
  with Cons show ?case by simp
qed simp

lemma matches_glob: "matches_runes m (map matcher_of ps) rs = glob m ps rs"
proof (induction ps arbitrary: rs)
  case (Cons p ps)
  show ?case
  proof (cases "p = 42")
    case True
    then have h: "map matcher_of (p # ps) = Any_Run # map matcher_of ps" by (simp add: matcher_of_def)
    show ?thesis using Cons by (simp only: h matches_any_run) (simp add: True)
  next
    case False
    then show ?thesis using Cons by (cases rs) (auto simp: matcher_of_def)
  qed
qed simp

section \<open>Replacing a text of two bytes\<close>

fun replace_two :: "char \<Rightarrow> char \<Rightarrow> string \<Rightarrow> string \<Rightarrow> string" where
  "replace_two a b new (x # y # s) =
     (if x = a \<and> y = b then new @ replace_two a b new s else x # replace_two a b new (y # s))"
| "replace_two a b new s = s"

lemma replace_all_step:
  "old \<noteq> [] \<Longrightarrow> replace_all (c # s) old new =
     (if prefix old (c # s) then new @ replace_all (drop (length old) (c # s)) old new
      else c # replace_all s old new)"
proof (cases "prefix old (c # s)")
  case True
  assume "old \<noteq> []"
  with True show ?thesis
    by (simp add: replace_all_def split_on.simps[of "c # s"] join_Cons)
next
  case False
  assume old: "old \<noteq> []"
  show ?thesis
  proof (cases "str_index s old")
    case None
    with False old show ?thesis
      by (simp add: replace_all_def split_on.simps[of "c # s"] split_on.simps[of s])
  next
    case (Some i)
    with False old show ?thesis
      by (simp add: replace_all_def split_on.simps[of "c # s"] split_on.simps[of s] join_Cons)
  qed
qed

lemma replace_all_two: "replace_all s [a, b] new = replace_two a b new s"
proof (induction a b new s rule: replace_two.induct)
  case (1 a b new x y s)
  then show ?case by (simp add: replace_all_step)
qed (simp_all add: replace_all_def split_on.simps)

section \<open>The text the code compiles\<close>

text \<open>One byte of a pattern, as it is written in the regular expression.\<close>

definition quoted_byte :: "char \<Rightarrow> string" where
  "quoted_byte c = (if is_meta c then [CHR 0x5C, c] else [c])"

definition starred_byte :: "char \<Rightarrow> string" where
  "starred_byte c = (if c = CHR ''*'' then ''.*'' else quoted_byte c)"

definition escaped_byte :: "char \<Rightarrow> string" where
  "escaped_byte c = (if c = CHR ''*'' then ''.*'' else if c = CHR ''?'' then ''.'' else quoted_byte c)"

lemma meta_wild [simp]: "is_meta (CHR ''*'')" "is_meta (CHR ''?'')" "is_meta (CHR 0x5C)" "is_meta (CHR ''.'')"
  by (simp_all add: is_meta_def)

lemma quoted_starts: "concat (map quoted_byte s) = c # t \<Longrightarrow> is_meta c \<Longrightarrow> c = CHR 0x5C"
  by (cases s) (auto simp: quoted_byte_def split: if_splits)

lemma replace_two_skip: "x \<noteq> a \<Longrightarrow> replace_two a b new (x # s) = x # replace_two a b new s"
  by (cases s) simp_all

lemma replace_two_pair: "replace_two a b new (a # b # s) = new @ replace_two a b new s"
  by simp

lemma replace_two_other:
  "y \<noteq> b \<Longrightarrow> \<not> (y = a \<and> s \<noteq> [] \<and> hd s = b) \<Longrightarrow>
     replace_two a b new (a # y # s) = a # y # replace_two a b new s"
  by (cases s) auto

lemma stars_put_back:
  "replace_two (CHR 0x5C) (CHR ''*'') ''.*'' (concat (map quoted_byte s)) = concat (map starred_byte s)"
proof (induction s)
  case (Cons c s)
  let ?t = "concat (map quoted_byte s)"
  have t: "\<not> (?t \<noteq> [] \<and> hd ?t = CHR ''*'')"
    using quoted_starts[of s "CHR ''*''"] by (cases ?t) auto
  consider "c = CHR ''*''" | "c \<noteq> CHR ''*''" "is_meta c" | "\<not> is_meta c" by auto
  then show ?case
  proof cases
    case 1
    with Cons show ?thesis by (simp add: starred_byte_def[of "CHR ''*''"] quoted_byte_def[of "CHR ''*''"])
  next
    case 2
    have "replace_two (CHR 0x5C) (CHR ''*'') ''.*'' (CHR 0x5C # c # ?t) =
        CHR 0x5C # c # replace_two (CHR 0x5C) (CHR ''*'') ''.*'' ?t"
      by (rule replace_two_other) (use 2 t in blast)+
    with 2 Cons show ?thesis by (simp add: starred_byte_def[of c] quoted_byte_def[of c])
  next
    case 3
    then have "c \<noteq> CHR 0x5C" "c \<noteq> CHR ''*''" by (auto simp del: meta_wild(1,3) simp: meta_wild)
    with 3 Cons show ?thesis by (simp add: starred_byte_def[of c] quoted_byte_def[of c] replace_two_skip)
  qed
qed simp

lemma starred_starts: "concat (map starred_byte s) = c # t \<Longrightarrow> is_meta c \<Longrightarrow> c = CHR 0x5C \<or> c = CHR ''.''"
  by (cases s) (auto simp: starred_byte_def quoted_byte_def split: if_splits)

lemma marks_put_back:
  "replace_two (CHR 0x5C) (CHR ''?'') ''.'' (concat (map starred_byte s)) = concat (map escaped_byte s)"
proof (induction s)
  case (Cons c s)
  let ?t = "concat (map starred_byte s)"
  have t: "\<not> (?t \<noteq> [] \<and> hd ?t = CHR ''?'')"
    using starred_starts[of s "CHR ''?''"] by (cases ?t) auto
  consider "c = CHR ''*''" | "c = CHR ''?''" | "c \<noteq> CHR ''*''" "c \<noteq> CHR ''?''" "is_meta c" | "\<not> is_meta c" by auto
  then show ?case
  proof cases
    case 1
    with Cons show ?thesis
      by (simp add: starred_byte_def[of "CHR ''*''"] escaped_byte_def[of "CHR ''*''"] replace_two_skip)
  next
    case 2
    with Cons show ?thesis
      by (simp add: starred_byte_def[of "CHR ''?''"] escaped_byte_def[of "CHR ''?''"]
          quoted_byte_def[of "CHR ''?''"])
  next
    case 3
    have "replace_two (CHR 0x5C) (CHR ''?'') ''.'' (CHR 0x5C # c # ?t) =
        CHR 0x5C # c # replace_two (CHR 0x5C) (CHR ''?'') ''.'' ?t"
      by (rule replace_two_other) (use 3 t in blast)+
    with 3 Cons show ?thesis
      by (simp add: starred_byte_def[of c] escaped_byte_def[of c] quoted_byte_def[of c])
  next
    case 4
    then have "c \<noteq> CHR 0x5C" "c \<noteq> CHR ''*''" "c \<noteq> CHR ''?''" by (auto simp del: meta_wild simp: meta_wild)
    with 4 Cons show ?thesis
      by (simp add: starred_byte_def[of c] escaped_byte_def[of c] quoted_byte_def[of c] replace_two_skip)
  qed
qed simp

lemma escaped_pattern_bytes: "escaped_pattern p = concat (map escaped_byte p)"
proof -
  have "quote_meta p = concat (map quoted_byte p)"
    by (simp add: quote_meta_def quoted_byte_def[abs_def])
  then show ?thesis by (simp add: escaped_pattern_def replace_all_two stars_put_back marks_put_back)
qed

section \<open>What it matches\<close>

definition escaped_rune :: "nat \<Rightarrow> nat list" where
  "escaped_rune r = (if r < 128 then map byte (escaped_byte (char_of r)) else [r])"

lemma high_not_meta: "128 \<le> byte c \<Longrightarrow> \<not> is_meta c \<and> c \<noteq> CHR ''*'' \<and> c \<noteq> CHR ''?''"
  by (auto simp: is_meta_def)

lemma encode_high: "128 \<le> r \<Longrightarrow> c \<in> set (encode_rune r) \<Longrightarrow> 128 \<le> byte c"
  by (auto simp: encode_rune_def encode_three_def is_scalar_def replacement_def split: if_splits)

lemma escaped_same: "\<forall>c \<in> set s. 128 \<le> byte c \<Longrightarrow> concat (map escaped_byte s) = s"
  by (induction s) (auto simp: escaped_byte_def quoted_byte_def dest: high_not_meta)

lemma ascii_text: "\<forall>c \<in> set s. byte c < 128 \<Longrightarrow> text_of_runes (map byte s) = s"
  by (induction s) simp_all

lemma char_of_low: "r < 128 \<Longrightarrow> char_of r = c \<longleftrightarrow> r = byte c"
  using lead_char[of r] by auto

lemma escaped_text:
  "list_all is_scalar rs \<Longrightarrow>
     concat (map escaped_byte (text_of_runes rs)) = text_of_runes (concat (map escaped_rune rs))
     \<and> list_all is_scalar (concat (map escaped_rune rs))"
proof (induction rs)
  case (Cons r rs)
  show ?case
  proof (cases "r < 128")
    case True
    have low: "\<forall>c \<in> set (escaped_byte (char_of r)). byte c < 128"
      using True by (auto simp: escaped_byte_def quoted_byte_def)
    then have "text_of_runes (map byte (escaped_byte (char_of r))) = escaped_byte (char_of r)"
      by (rule ascii_text)
    moreover have "list_all is_scalar (map byte (escaped_byte (char_of r)))"
      using low by (auto simp: list_all_iff is_scalar_def)
    ultimately show ?thesis using Cons True by (simp add: escaped_rune_def)
  next
    case False
    then have "concat (map escaped_byte (encode_rune r)) = encode_rune r"
      using encode_high[of r] by (intro escaped_same) simp
    with Cons False show ?thesis by (simp add: escaped_rune_def)
  qed
qed simp

lemma escaped_rune_parts:
  "escaped_rune 42 = [46, 42]" "escaped_rune 63 = [46]"
  "r \<noteq> 42 \<Longrightarrow> r \<noteq> 63 \<Longrightarrow> escaped_rune r = [92, r] \<or> escaped_rune r = [r] \<and> r \<noteq> 46 \<and> r \<noteq> 92"
  by (auto simp: escaped_rune_def escaped_byte_def quoted_byte_def is_meta_def char_of_low)

lemma escaped_never_stars: "concat (map escaped_rune rs) = 42 # xs \<Longrightarrow> False"
proof (cases rs)
  case (Cons r rs')
  assume "concat (map escaped_rune rs) = 42 # xs"
  then show False using Cons escaped_rune_parts(3)[of r]
    by (cases "r = 42"; cases "r = 63") (auto simp: escaped_rune_parts(1,2))
qed simp

lemma read_escaped: "read_regexp (concat (map escaped_rune rs)) = map matcher_of rs"
proof (induction rs)
  case (Cons r rs)
  consider "r = 42" | "r = 63" | "r \<noteq> 42" "r \<noteq> 63" by blast
  then show ?case
  proof cases
    case 2
    show ?thesis
    proof (cases "concat (map escaped_rune rs)")
      case Nil
      with Cons 2 show ?thesis by (simp add: escaped_rune_parts(2) matcher_of_def)
    next
      case more: (Cons x xs)
      then have "x \<noteq> 42" using escaped_never_stars[of rs xs] by auto
      with more 2 Cons show ?thesis
        by (simp add: escaped_rune_parts(2) matcher_of_def[of 63] del: concat_map_singleton)
    qed
  next
    case 3
    with Cons escaped_rune_parts(3)[of r] show ?thesis by (auto simp: matcher_of_def)
  next
    case 1
    with Cons show ?thesis by (simp add: escaped_rune_parts(1) matcher_of_def)
  qed
qed simp

lemma compile_pattern_glob:
  assumes "valid_utf8 p" "length (runes p) \<le> max_pattern_runes"
  shows "compile_pattern p = Inr (map matcher_of (runes p))"
proof -
  have "escaped_pattern p = concat (map escaped_byte (text_of_runes (runes p)))"
    using assms(1) by (simp add: escaped_pattern_bytes valid_utf8_def)
  then have e: "escaped_pattern p = text_of_runes (concat (map escaped_rune (runes p)))"
    "list_all is_scalar (concat (map escaped_rune (runes p)))"
    using escaped_text[OF runes_scalar[of p]] by simp_all
  then have "runes (escaped_pattern p) = concat (map escaped_rune (runes p))"
    by (simp add: runes_text_of_runes)
  moreover from this e have "valid_utf8 (escaped_pattern p)" by (simp add: valid_utf8_def)
  ultimately show ?thesis using assms(2) by (simp add: compile_pattern_def read_escaped)
qed

lemma match_string_glob: "match_string m (map matcher_of (runes p)) s = glob m (runes p) (runes s)"
  by (simp add: match_string_def matches_glob)

end
