(* ===== verification/Readable_Form.thy ===== *)
theory Readable_Form
  imports Command_Reduce
begin

text \<open>
  What every readable form is: one line of at most \<open>MaxReducedRunes\<close> runes with no control
  character in it, which ends with the note when it is not the whole story. The functions of the
  package \<open>strings\<close> on a text that is UTF-8 are followed on its runes.
\<close>

section \<open>Trimming and cutting into fields, on runes\<close>

lemma rune_chunks_text:
  "list_all is_scalar rs \<Longrightarrow> rune_chunks (text_of_runes rs) = map (\<lambda>r. (r, encode_rune r)) rs"
  by (induction rs) (simp_all add: rune_chunks_encode)

lemma chunk_text_map: "chunk_text (map (\<lambda>r. (r, encode_rune r)) rs) = text_of_runes rs"
  by (induction rs) simp_all

definition trimmed_runes :: "nat list \<Rightarrow> nat list" where
  "trimmed_runes rs = rev (dropWhile is_space (rev (dropWhile is_space rs)))"

lemma trim_space_text:
  assumes "list_all is_scalar rs"
  shows "trim_space (text_of_runes rs) = text_of_runes (trimmed_runes rs)"
proof -
  let ?f = "\<lambda>r. (r, encode_rune r)"
  have d: "dropWhile (\<lambda>(r, _). is_space r) (map ?f xs) = map ?f (dropWhile is_space xs)" for xs
    by (induction xs) simp_all
  show ?thesis
    unfolding trim_space_def trim_runes_def rune_chunks_text[OF assms] d
    by (simp only: rev_map d chunk_text_map trimmed_runes_def)
qed

lemma trimmed_runes_set: "set (trimmed_runes rs) \<subseteq> set rs"
  unfolding trimmed_runes_def by (auto dest!: set_dropWhileD)

lemma trimmed_runes_length: "length (trimmed_runes rs) \<le> length rs"
  unfolding trimmed_runes_def by (metis length_dropWhile_le length_rev order_trans)

lemma dropWhile_stops:
  assumes "ys \<noteq> []" "\<not> out (hd ys)" shows "\<exists>zs. dropWhile out (xs @ ys) = zs @ ys"
proof (induction xs)
  case Nil
  have "dropWhile out ys = ys" using assms(2) by (simp add: dropWhile_eq_self_iff)
  then show ?case by simp
next
  case (Cons x xs)
  then show ?case by (cases "out x") (simp, metis append_Cons dropWhile.simps(2))
qed

lemma trimmed_runes_suffix:
  assumes "ys \<noteq> []" "\<not> is_space (hd ys)" "\<not> is_space (last ys)"
  shows "\<exists>zs. trimmed_runes (xs @ ys) = zs @ ys"
proof -
  obtain zs where "dropWhile is_space (xs @ ys) = zs @ ys"
    using dropWhile_stops assms(1,2) by blast
  moreover have "dropWhile is_space (rev (zs @ ys)) = rev (zs @ ys)"
    using assms(1,3) by (simp add: dropWhile_eq_self_iff hd_append hd_rev)
  ultimately show ?thesis unfolding trimmed_runes_def by simp
qed

text \<open>The words of a list of runes, and the words with one space between them.\<close>

function words_of_runes :: "nat list \<Rightarrow> nat list list" where
  "words_of_runes [] = []"
| "words_of_runes (r # rs) =
     (if is_space r then words_of_runes rs
      else (r # takeWhile (\<lambda>q. \<not> is_space q) rs) # words_of_runes (dropWhile (\<lambda>q. \<not> is_space q) rs))"
  by pat_completeness auto
termination by (relation "measure length") (auto simp: less_Suc_eq_le length_dropWhile_le)

fun spaced :: "nat list list \<Rightarrow> nat list" where
  "spaced [] = []"
| "spaced [w] = w"
| "spaced (w # v # ws) = w @ 32 # spaced (v # ws)"

lemma runs_of_text:
  "runs_of is_space (map (\<lambda>r. (r, encode_rune r)) rs) = map text_of_runes (words_of_runes rs)"
proof (induction rs rule: words_of_runes.induct)
  case (2 r rs)
  let ?f = "\<lambda>r. (r, encode_rune r)"
  have w: "takeWhile (\<lambda>q. \<not> is_space (fst q)) (map ?f rs) = map ?f (takeWhile (\<lambda>q. \<not> is_space q) rs)"
    "dropWhile (\<lambda>q. \<not> is_space (fst q)) (map ?f rs) = map ?f (dropWhile (\<lambda>q. \<not> is_space q) rs)"
    by (induction rs) simp_all
  show ?case
  proof (cases "is_space r")
    case False
    with 2 show ?thesis by (simp add: w chunk_text_map)
  qed (use 2 in simp)
qed simp

lemma text_fields_text:
  "list_all is_scalar rs \<Longrightarrow> text_fields (text_of_runes rs) = map text_of_runes (words_of_runes rs)"
  by (simp add: text_fields_def fields_func_def rune_chunks_text runs_of_text)

lemma space_char [simp]: "char_of (32 :: nat) = CHR '' ''"
  by (simp add: char_of_eq_iff)

lemma join_spaced: "join '' '' (map text_of_runes ws) = text_of_runes (spaced ws)"
  by (induction ws rule: spaced.induct) simp_all

lemma words_of_runes_set: "w \<in> set (words_of_runes rs) \<Longrightarrow> set w \<subseteq> set rs"
  by (induction rs rule: words_of_runes.induct)
    (auto split: if_splits dest!: set_takeWhileD set_dropWhileD subsetD)

lemma spaced_set: "set (spaced ws) \<subseteq> insert 32 (\<Union>w \<in> set ws. set w)"
  by (induction ws rule: spaced.induct) auto

lemma words_of_runes_append_space:
  "is_space s \<Longrightarrow> words_of_runes (xs @ s # ys) = words_of_runes xs @ words_of_runes ys"
proof (induction xs rule: words_of_runes.induct)
  case (2 r rs)
  show ?case
  proof (cases "is_space r")
    case False
    have t: "takeWhile (\<lambda>q. \<not> is_space q) (rs @ s # ys) = takeWhile (\<lambda>q. \<not> is_space q) rs"
      using 2(3) by (induction rs) simp_all
    show ?thesis
    proof (cases "\<forall>q \<in> set rs. \<not> is_space q")
      case True
      then have "dropWhile (\<lambda>q. \<not> is_space q) (rs @ s # ys) = s # ys"
        "dropWhile (\<lambda>q. \<not> is_space q) rs = []"
        using 2(3) by (simp_all add: dropWhile_append)
      with False 2(3) t show ?thesis by (simp del: dropWhile_eq_Nil_conv)
    next
      case has: False
      then have "dropWhile (\<lambda>q. \<not> is_space q) (rs @ s # ys) = dropWhile (\<lambda>q. \<not> is_space q) rs @ s # ys"
        by (auto simp: dropWhile_append)
      with False 2(2)[OF False 2(3)] t show ?thesis by simp
    qed
  qed (use 2 in simp)
qed simp

lemma words_of_runes_word:
  "w \<noteq> [] \<Longrightarrow> \<forall>r \<in> set w. \<not> is_space r \<Longrightarrow>
     \<exists>v ws. words_of_runes (w @ ys) = (w @ v) # ws"
  by (cases w) (auto simp: takeWhile_append)

lemma spaced_append:
  "ws \<noteq> [] \<Longrightarrow> vs \<noteq> [] \<Longrightarrow> spaced (ws @ vs) = spaced ws @ 32 # spaced vs"
proof (induction ws rule: spaced.induct)
  case (2 w)
  then show ?case by (cases vs) simp_all
qed simp_all

section \<open>One line\<close>

definition flat_rune :: "nat \<Rightarrow> nat" where
  "flat_rune r = (if r = 9 \<or> is_control r then 32 else r)"

definition tidy_runes :: "string \<Rightarrow> nat list" where
  "tidy_runes s = spaced (words_of_runes (map flat_rune (runes s)))"

definition fair_runes :: "nat list \<Rightarrow> bool" where
  "fair_runes rs \<longleftrightarrow> list_all (\<lambda>r. is_scalar r \<and> \<not> is_control r) rs"

lemma fair_scalar: "fair_runes rs \<Longrightarrow> list_all is_scalar rs"
  by (simp add: fair_runes_def list_all_iff)

lemma flat_rune_fair: "is_scalar r \<Longrightarrow> is_scalar (flat_rune r) \<and> \<not> is_control (flat_rune r)"
  by (auto simp: flat_rune_def is_scalar_def is_control_def)

lemma flattened_fair: "fair_runes (map flat_rune (runes s))"
  using runes_scalar[of s] by (auto simp: fair_runes_def list_all_iff flat_rune_fair)

lemma fair_subset: "fair_runes rs \<Longrightarrow> set qs \<subseteq> insert 32 (set rs) \<Longrightarrow> fair_runes qs"
  by (auto simp: fair_runes_def list_all_iff is_scalar_def is_control_def)

lemma tidy_runes_fair: "fair_runes (tidy_runes s)"
proof (rule fair_subset[OF flattened_fair[of s]])
  show "set (tidy_runes s) \<subseteq> insert 32 (set (map flat_rune (runes s)))"
    using spaced_set[of "words_of_runes (map flat_rune (runes s))"] words_of_runes_set
    unfolding tidy_runes_def by blast
qed

lemma tidied_text:
  "join '' '' (text_fields (text_of_runes (map (\<lambda>r. if r = 9 \<or> is_control r then 32 else r) (runes s))))
     = text_of_runes (tidy_runes s)"
  using text_fields_text[OF fair_scalar[OF flattened_fair[of s]]]
  by (simp add: tidy_runes_def join_spaced flat_rune_def[abs_def])

text \<open>What the cut form holds: some of its runes, a space and the note.\<close>

definition fair_note :: "string \<Rightarrow> bool" where
  "fair_note note \<longleftrightarrow> note \<noteq> [] \<and> list_all (\<lambda>c. 32 \<le> byte c \<and> byte c < 127) note
     \<and> length note < max_reduced_runes \<and> \<not> is_space (byte (hd note)) \<and> \<not> is_space (byte (last note))"

lemma known_notes_fair: "note \<in> set known_notes \<Longrightarrow> fair_note note"
  by (auto simp: known_notes_def fair_note_def cut_short_note_def builds_itself_note_def
      unclosed_quote_note_def is_space_def max_reduced_runes_def)

lemma runes_fair_note: "fair_note note \<Longrightarrow> runes note = map byte note \<and> note = text_of_runes (map byte note)"
proof -
  have "list_all (\<lambda>c. 32 \<le> byte c \<and> byte c < 127) n \<Longrightarrow>
      runes n = map byte n \<and> n = text_of_runes (map byte n)" for n
    by (induction n) auto
  then show "fair_note note \<Longrightarrow> ?thesis" by (simp add: fair_note_def)
qed

lemma noted_form:
  assumes n: "fair_note note" and x: "fair_runes xs" "length xs \<le> max_reduced_runes - length note - 1"
  shows "\<exists>zs. trim_space (text_of_runes xs @ '' '' @ note) = text_of_runes (zs @ map byte note)
    \<and> fair_runes (zs @ map byte note) \<and> length (zs @ map byte note) \<le> max_reduced_runes"
proof -
  let ?all = "(xs @ [32]) @ map byte note"
  have of_note: "fair_runes (map byte note)"
    using n by (fastforce simp: fair_runes_def fair_note_def list_all_iff is_scalar_def is_control_def)
  have all: "fair_runes ?all" using of_note x(1) by (simp add: fair_runes_def is_scalar_def is_control_def)
  have "\<exists>zs. trimmed_runes ?all = zs @ map byte note"
    using n by (intro trimmed_runes_suffix) (simp_all add: fair_note_def hd_map last_map)
  then obtain zs where zs: "trimmed_runes ?all = zs @ map byte note" by blast
  have "text_of_runes xs @ '' '' @ note = text_of_runes ?all"
    using runes_fair_note[OF n] by simp
  then have "trim_space (text_of_runes xs @ '' '' @ note) = text_of_runes (zs @ map byte note)"
    using trim_space_text[OF fair_scalar[OF all]] zs by simp
  moreover have "fair_runes (zs @ map byte note)"
    using fair_subset[OF all] trimmed_runes_set[of ?all] zs by auto
  moreover have "length (zs @ map byte note) \<le> max_reduced_runes"
    using trimmed_runes_length[of ?all] zs x(2) n
    by (auto simp: fair_note_def)
  ultimately show ?thesis by blast
qed

lemma one_line_form:
  assumes "note = [] \<or> note \<in> set known_notes" "one_line s note = (form, note1)"
  shows "\<exists>fs. form = text_of_runes fs \<and> fair_runes fs \<and> length fs \<le> max_reduced_runes
      \<and> (note1 = [] \<longrightarrow> note = [] \<and> fs = tidy_runes s)
      \<and> (note1 \<noteq> [] \<longrightarrow> note1 \<in> set known_notes \<and> suffix note1 form)"
proof -
  let ?t = "tidy_runes s"
  have letters: "runes (text_of_runes ?t) = ?t"
    by (rule runes_text_of_runes[OF fair_scalar[OF tidy_runes_fair]])
  show ?thesis
  proof (cases "note = [] \<and> length ?t \<le> max_reduced_runes")
    case True
    then have "form = text_of_runes ?t" "note1 = []"
      using assms(2) by (simp_all add: one_line_def tidied_text letters Let_def)
    with True show ?thesis using tidy_runes_fair by blast
  next
    case False
    define n where "n = (if note = [] then cut_short_note else note)"
    have n: "n \<in> set known_notes" using assms(1) by (auto simp: n_def)
    note fn = known_notes_fair[OF n]
    define room where "room = max_reduced_runes - length n - 1"
    define xs where "xs = (if room < length ?t then trimmed_runes (take room ?t) else ?t)"
    have cut: "fair_runes (take room ?t)"
      using fair_subset[OF tidy_runes_fair] by (meson set_take_subset subset_insertI2)
    have xs: "fair_runes xs" "length xs \<le> max_reduced_runes - length n - 1"
      using fair_subset[OF cut] tidy_runes_fair trimmed_runes_set[of "take room ?t"]
        trimmed_runes_length[of "take room ?t"]
      by (auto simp: xs_def room_def)
    have len: "length (runes n) = length n" using runes_fair_note[OF fn] by simp
    have cut_text: "trim_space (text_of_runes (take room ?t)) = text_of_runes (trimmed_runes (take room ?t))"
      by (rule trim_space_text[OF fair_scalar[OF cut]])
    have parts: "form = trim_space (text_of_runes xs @ '' '' @ n)" "note1 = n"
      using assms(2) False cut_text
      by (auto simp: one_line_def tidied_text letters Let_def n_def[symmetric] xs_def room_def len
          split: if_splits)
    from noted_form[OF fn xs] parts(1) obtain zs where zs: "form = text_of_runes (zs @ map byte n)"
      "fair_runes (zs @ map byte n)" "length (zs @ map byte n) \<le> max_reduced_runes" by auto
    have "suffix n form"
      using zs(1) runes_fair_note[OF fn] by (metis suffixI text_of_runes_simps(3))
    with zs n parts(2) fn show ?thesis
      by (intro exI[of _ "zs @ map byte n"]) (simp add: fair_note_def)
  qed
qed

section \<open>The readable form of a call\<close>

lemma wrapper_rounds_note:
  "wrapper_rounds u n kept ws = (k, vs, said) \<Longrightarrow> said = [] \<or> said \<in> set known_notes"
  by (induction u n kept ws arbitrary: k vs said rule: wrapper_rounds.induct)
    (auto split: list.splits option.splits if_splits)

lemma first_note_known:
  "said = [] \<or> said \<in> K \<Longrightarrow> \<forall>n \<in> set ns. n = [] \<or> n \<in> K \<Longrightarrow> first_note said ns = [] \<or> first_note said ns \<in> K"
  by (induction said ns rule: first_note.induct) auto

lemma command_words_note: "snd (command_words c) = [] \<or> snd (command_words c) \<in> set known_notes"
  by (rule command_words_within_caps(3)[of c "fst (command_words c)"]) simp

lemma reduced_notes_known:
  "snd (reduce_command_line u c d) = [] \<or> snd (reduce_command_line u c d) \<in> set known_notes"
  "snd (reduce_one_command u ws d) = [] \<or> snd (reduce_one_command u ws d) \<in> set known_notes"
  "snd (reduce_nested_shell u h s d) = [] \<or> snd (reduce_nested_shell u h s d) \<in> set known_notes"
proof (induction u c d and u ws d and u h s d
    rule: reduce_command_line_reduce_one_command_reduce_nested_shell.induct)
  case (1 u command depth)
  let ?ns = "map snd (map (\<lambda>words. reduce_one_command u words depth) (fst (command_words command)))"
  have "first_note (snd (command_words command)) ?ns = [] \<or>
      first_note (snd (command_words command)) ?ns \<in> set known_notes"
    by (rule first_note_known[OF command_words_note]) (use 1 in auto)
  moreover have "snd (reduce_command_line u command depth) = first_note (snd (command_words command)) ?ns"
    by (subst reduce_command_line.simps) (simp add: Let_def)
  ultimately show ?case by simp
next
  case (2 u words depth)
  obtain kept vs said where w: "past_the_wrappers u (without_environment_assignments u words) = (kept, vs, said)"
    by (metis surj_pair)
  then have said: "said = [] \<or> said \<in> set known_notes"
    using wrapper_rounds_note by (simp add: past_the_wrappers_def)
  show ?case
  proof (cases "vs = [] \<or> script_handed_to_a_shell vs = None")
    case True
    with w said show ?thesis by (subst (1 2) reduce_one_command.simps) auto
  next
    case False
    then obtain flag script where f: "vs \<noteq> []" "script_handed_to_a_shell vs = Some (flag, script)" by auto
    let ?in = "reduce_nested_shell u (kept @ hd vs @ '' '' @ flag) script depth"
    have "snd ?in = [] \<or> snd ?in \<in> set known_notes"
      by (rule 2[OF w[symmetric] refl f refl])
    moreover have "snd (reduce_one_command u words depth) = (if snd ?in = [] then said else snd ?in)"
      using w f by (subst reduce_one_command.simps) (simp split: prod.split)
    ultimately show ?thesis using said by (cases "snd ?in = []") simp_all
  qed
next
  case (3 u head script depth)
  then show ?case
    by (subst (1 2) reduce_nested_shell.simps) (auto split: prod.splits)
qed

lemma reduce_shell_note:
  "snd (reduce_shell_call m rq) = [] \<or> snd (reduce_shell_call m rq) \<in> set known_notes"
  using reduced_notes_known(1)
  by (auto simp: reduce_shell_call_def Let_def split: option.splits prod.splits) (metis snd_conv)+

lemma reduce_call_form:
  assumes "reduce_call m rq = (form, note)"
  shows "\<exists>fs. form = text_of_runes fs \<and> fair_runes fs \<and> length fs \<le> max_reduced_runes
      \<and> (note \<noteq> [] \<longrightarrow> note \<in> set known_notes \<and> suffix note form)"
proof (cases "rq_tool_name rq = tool_shell")
  case True
  with assms obtain line n where "reduce_shell_call m rq = (line, n)" "one_line line n = (form, note)"
    by (auto simp: reduce_call_def split: prod.splits)
  with one_line_form[of n line form "note"] reduce_shell_note[of m rq] show ?thesis by auto
next
  case False
  with assms one_line_form[of "[]" _ form "note"] show ?thesis by (auto simp: reduce_call_def)
qed

lemma no_control_in_text:
  "fair_runes fs \<Longrightarrow> c \<in> set (text_of_runes fs) \<Longrightarrow> \<not> byte c < 32"
proof
  assume fair: "fair_runes fs" and c: "c \<in> set (text_of_runes fs)" "byte c < 32"
  then have "byte c \<in> set (runes (text_of_runes fs))" by (intro ascii_in_runes) simp_all
  with fair have "byte c \<in> set fs" by (simp add: runes_text_of_runes fair_scalar)
  with fair c(2) show False by (auto simp: fair_runes_def list_all_iff is_control_def)
qed

lemma reduce_no_control: "c \<in> set (reduce m rq) \<Longrightarrow> 32 \<le> byte c"
  using reduce_call_form[of m rq "fst (reduce_call m rq)" "snd (reduce_call m rq)"] no_control_in_text
  by (force simp: reduce_def)

end
