(* ===== verification/Read_Only.thy ===== *)
theory Read_Only
  imports Command_Reduce
begin

text \<open>
  \<open>internal/permission/readonly.go\<close>: the shell commands that run although their readable form
  is not the whole story, because every program on the line is one that only reads.
\<close>

definition reader_programs :: "string list" where
  "reader_programs = [''pwd'', ''ls'', ''cat'', ''head'', ''tail'', ''wc'', ''echo'', ''grep'', ''stat'',
     ''file'', ''which'', ''true'']"

definition find_writing_primaries :: "string list" where
  "find_writing_primaries = [''-delete'', ''-exec'', ''-execdir'', ''-ok'', ''-okdir'', ''-fprint'',
     ''-fprint0'', ''-fprintf'', ''-fls'']"

definition node_reader_modes :: "string list" where
  "node_reader_modes = [''-e'', ''--eval'', ''--test'', ''--check'']"

definition find_only_reads :: "string list \<Rightarrow> bool" where
  "find_only_reads arguments \<longleftrightarrow>
     list_all (\<lambda>w. fst (cut w ''='') \<notin> set find_writing_primaries) arguments"

fun node_only_reads :: "string list \<Rightarrow> bool" where
  "node_only_reads [] \<longleftrightarrow> False"
| "node_only_reads (w # ws) \<longleftrightarrow>
     (if w \<in> set node_reader_modes then True else if \<not> is_flag w then False else node_only_reads ws)"

definition env_only_reads :: "string list \<Rightarrow> bool" where
  "env_only_reads arguments \<longleftrightarrow> list_all is_flag arguments"

definition one_command_only_reads :: "unicode_tables \<Rightarrow> string list \<Rightarrow> bool" where
  "one_command_only_reads u words =
     (case without_environment_assignments u words of
        [] \<Rightarrow> False
      | program # rest \<Rightarrow>
          let name = program_name program in
          if name = ''find'' then find_only_reads rest
          else if name = ''node'' then node_only_reads rest
          else if name = ''env'' then env_only_reads rest
          else name \<in> set reader_programs)"

text \<open>
  The loop over the runes of the line, with the quote that is open, whether the rune is escaped and
  the rune before it.
\<close>

fun writes_or_builds :: "nat \<Rightarrow> bool \<Rightarrow> nat \<Rightarrow> nat list \<Rightarrow> bool" where
  "writes_or_builds q escaped previous [] \<longleftrightarrow> False"
| "writes_or_builds q escaped previous (r # rs) \<longleftrightarrow>
     (if escaped then writes_or_builds q False r rs
      else if q = single_quote then
        writes_or_builds (if r = single_quote then 0 else q) False r rs
      else if r = backslash_rune then writes_or_builds q True r rs
      else if q = double_quote then
        (if r = backtick then True
         else if r = open_bracket \<and> previous = 36 then True
         else writes_or_builds (if r = double_quote then 0 else q) False r rs)
      else if r = single_quote \<or> r = double_quote then writes_or_builds r False r rs
      else if r = backtick then True
      else if r = open_bracket \<and> (previous = 36 \<or> previous = 60 \<or> previous = 62) then True
      else if r = 62 then True
      else writes_or_builds q False r rs)"

definition writes_a_file_or_builds_itself :: "string \<Rightarrow> bool" where
  "writes_a_file_or_builds_itself command = writes_or_builds 0 False 0 (runes command)"

definition command_text_only_reads :: "unicode_tables \<Rightarrow> string \<Rightarrow> bool" where
  "command_text_only_reads u command =
     (if writes_a_file_or_builds_itself command then False
      else
        case command_words command of
          (segments, note) \<Rightarrow>
            if note = unclosed_quote_note \<or> note = builds_itself_note then False
            else if note = cut_short_note
              \<and> (max_command_bytes \<le> length command \<or> max_segments \<le> length segments) then False
            else if segments = [] then False
            else list_all (one_command_only_reads u) segments)"

definition command_only_reads :: "machine \<Rightarrow> permission_request \<Rightarrow> bool" where
  "command_only_reads m request =
     (if rq_tool_name request \<noteq> tool_shell then False
      else
        case string_field (read_fields (rq_input request)) ''command'' of
          None \<Rightarrow> False
        | Some command \<Rightarrow> command_text_only_reads (ma_unicode m) command)"

section \<open>What a command that only reads is\<close>

text \<open>A command that only reads names a reader; sudo and the programs that delete are none.\<close>

definition reader_of :: "unicode_tables \<Rightarrow> string list \<Rightarrow> string" where
  "reader_of u words = (case without_environment_assignments u words of [] \<Rightarrow> [] | p # _ \<Rightarrow> program_name p)"

lemma only_reads_reader:
  "one_command_only_reads u words \<Longrightarrow>
     without_environment_assignments u words \<noteq> [] \<and>
     reader_of u words \<in> set (reader_programs @ [''find'', ''node'', ''env''])"
  by (auto simp: one_command_only_reads_def reader_of_def Let_def split: list.splits if_splits)

lemma text_only_reads_segments:
  "command_text_only_reads u command \<Longrightarrow> ws \<in> set (fst (command_words command)) \<Longrightarrow>
     one_command_only_reads u ws"
  by (auto simp: command_text_only_reads_def list_all_iff split: prod.splits if_splits)

end
