(* ===== verification/Permission_Preview.thy ===== *)
theory Permission_Preview
  imports Command_Reduce
begin

text \<open>
  \<open>internal/permission/preview.go\<close>: what a call is about to do, as the user is shown it before
  they answer.
\<close>

definition max_preview_runes :: nat where "max_preview_runes = 4000"

definition line_break :: string where "line_break = [CHR 0x0A]"

text \<open>The text of a field, and nothing when it is not there.\<close>

definition text_of_field :: "(string \<times> json) list \<Rightarrow> string \<Rightarrow> string" where
  "text_of_field members name = (case string_field members name of Some t \<Rightarrow> t | None \<Rightarrow> [])"

definition shell_preview :: "permission_request \<Rightarrow> (string \<times> json) list \<Rightarrow> string" where
  "shell_preview request members =
     (let written = text_of_field members ''command'';
          command = (if trim_space written = [] then rq_command_prefix request else written);
          why = trim_space (text_of_field members ''reason'')
      in if \<not> bool_field members ''escalate''
         then ''run this command:'' @ line_break @ line_break @ command
         else if why \<noteq> []
         then ''run this command with administrator powers, because '' @ why @ '':'' @ line_break @ line_break @ command
         else ''run this command with administrator powers:'' @ line_break @ line_break @ command)"

definition write_preview :: "machine \<Rightarrow> (string \<times> json) list \<Rightarrow> string \<Rightarrow> string" where
  "write_preview m members reduced =
     (let path = text_of_field members ''path''; content = text_of_field members ''content'' in
      if path = [] then reduced
      else if trim_space content \<noteq> []
      then ''write '' @ itoa (int (length content)) @ '' bytes to the file '' @ path
      else if 0 < size_on_disk m path
      then ''empty the file '' @ path @ '', which holds '' @ itoa (size_on_disk m path) @ '' bytes now''
      else ''write an empty file at '' @ path)"

definition edit_preview :: "(string \<times> json) list \<Rightarrow> string \<Rightarrow> string" where
  "edit_preview members reduced =
     (let path = text_of_field members ''path'' in
      if path = [] then reduced
      else ''in the file '' @ path @ '', replace '' @ itoa (int (length (text_of_field members ''old'')))
        @ '' bytes with '' @ itoa (int (length (text_of_field members ''new''))) @ '' bytes'')"

definition web_preview :: "(string \<times> json) list \<Rightarrow> string \<Rightarrow> string" where
  "web_preview members reduced =
     (let address = trim_space (text_of_field members ''url'');
          words = trim_space (text_of_field members ''query'')
      in if address \<noteq> [] then ''fetch the page '' @ address
         else if words \<noteq> [] then ''search the web for '' @ words
         else reduced)"

definition action_preview :: "string \<Rightarrow> (string \<times> json) list \<Rightarrow> string \<Rightarrow> string" where
  "action_preview tool members reduced =
     (let intent = trim_space (text_of_field members ''intent'');
          element = trim_space (text_of_field members ''element'')
      in if intent = [] then reduced
         else tool @ '': '' @ intent @ (if element \<noteq> [] then '', on the element '' @ element else []))"

definition cut_to_preview_cap :: "string \<Rightarrow> string" where
  "cut_to_preview_cap preview =
     (let letters = runes preview in
      if max_preview_runes < length letters then text_of_runes (take max_preview_runes letters) else preview)"

definition preview_of :: "machine \<Rightarrow> permission_request \<Rightarrow> string \<Rightarrow> string" where
  "preview_of m request reduced =
     (let members = read_fields (rq_input request); tool = rq_tool_name request in
      cut_to_preview_cap
        (if tool = tool_shell then shell_preview request members
         else if tool = tool_write then write_preview m members reduced
         else if tool = tool_edit then edit_preview members reduced
         else if tool = tool_web then web_preview members reduced
         else action_preview tool members reduced))"

lemma preview_within_cap: "length (runes (preview_of m request reduced)) \<le> max_preview_runes"
  by (simp add: preview_of_def cut_to_preview_cap_def Let_def not_less)

end
