(* ===== verification/Standing_Approvals.thy ===== *)
theory Standing_Approvals
  imports Rulebook
begin

text \<open>
  \<open>internal/permission/standing.go\<close> and \<open>website.go\<close>: a skill's standing approval for
  one kind of call, with a limit and an expiry. An approval for a website names its host and is
  compared with the host of a call's address; any other names a readable form and is matched as a
  pattern. A moment is a number of nanoseconds, the zero time being no time at all.
\<close>

definition max_standing_approvals :: nat where "max_standing_approvals = 100"
definition max_host_runes :: nat where "max_host_runes = 253"

section \<open>Which site a call visits\<close>

definition address_fields_by_tool :: "string \<Rightarrow> string list option" where
  "address_fields_by_tool = map_of
     [(tool_web, [''url'']), (tool_browser_open, [''url'']), (tool_browser_read, [''url'']),
      (tool_browser_login, [''site'', ''url''])]"

definition tools_that_visit_a_website :: "string list" where
  "tools_that_visit_a_website = [tool_web, tool_browser_open, tool_browser_read, tool_browser_login]"

definition host_of_address :: "machine \<Rightarrow> string \<Rightarrow> string" where
  "host_of_address m address =
     (let tidied = to_lower (ma_unicode m) (trim_space address) in
      if \<not> contains_text tidied ''//'' then tidied
      else case ma_address_host m tidied of
             None \<Rightarrow> tidied
           | Some host \<Rightarrow> if host = [] then tidied else host)"

definition the_site_this_call_visits :: "machine \<Rightarrow> permission_request \<Rightarrow> string" where
  "the_site_this_call_visits m request =
     (case address_fields_by_tool (rq_tool_name request) of
        None \<Rightarrow> []
      | Some names \<Rightarrow>
          (case first_said (read_fields (rq_input request)) names of
             None \<Rightarrow> [] | Some address \<Rightarrow> host_of_address m address))"

definition every_letter_belongs_in_a_host_name :: "string \<Rightarrow> bool" where
  "every_letter_belongs_in_a_host_name label \<longleftrightarrow>
     list_all (\<lambda>r. (97 \<le> r \<and> r \<le> 122) \<or> (65 \<le> r \<and> r \<le> 90) \<or> (48 \<le> r \<and> r \<le> 57) \<or> r = 45) (runes label)"

definition check_host_label :: "string \<Rightarrow> string \<Rightarrow> string \<Rightarrow> permission_error + unit" where
  "check_host_label skill host label =
     (if label = [] then Inl (Host_With_An_Empty_Part skill host)
      else if \<not> every_letter_belongs_in_a_host_name label then Inl (Not_A_Host skill host)
      else Inr ())"

definition check_host_name :: "string \<Rightarrow> string \<Rightarrow> permission_error + unit" where
  "check_host_name skill host =
     (if max_host_runes < length (runes host) then Inl (Host_Too_Long skill host)
      else each_in_turn (\<lambda>_ label. check_host_label skill host label) () (split_on host ''.''))"

section \<open>Approvals\<close>

record standing_approval =
  sa_skill :: string
  sa_host :: string
  sa_tools :: "string list"
  sa_reduced_form :: string
  sa_limit :: int
  sa_expires :: int

record held_approval =
  ha_approval :: standing_approval
  ha_pattern :: "matcher list option"
  ha_used :: int

text \<open>An approval with no host is asked for its pattern; with no pattern either, the program panics.\<close>

definition covers ::
  "machine \<Rightarrow> permission_request \<Rightarrow> string \<Rightarrow> held_approval \<Rightarrow> permission_error + bool" where
  "covers m request reduced held =
     (if sa_host (ha_approval held) = [] then
        (case ha_pattern held of
           None \<Rightarrow> Inl Panic_No_Pattern
         | Some pattern \<Rightarrow> Inr (match_string m pattern reduced))
      else if rq_tool_name request \<notin> set (sa_tools (ha_approval held)) then Inr False
      else Inr (the_site_this_call_visits m request = sa_host (ha_approval held)))"

definition what_it_covers :: "held_approval \<Rightarrow> string" where
  "what_it_covers held =
     (if sa_host (ha_approval held) \<noteq> [] then ''the website '' @ sa_host (ha_approval held)
      else sa_reduced_form (ha_approval held))"

definition check_tool_visits :: "standing_approval \<Rightarrow> string \<Rightarrow> string \<Rightarrow> permission_error + unit" where
  "check_tool_visits approval host tool =
     (if address_fields_by_tool tool = None
      then Inl (Tool_Visits_No_Website (sa_skill approval) host tool) else Inr ())"

definition check_what_the_approval_covers :: "standing_approval \<Rightarrow> permission_error + unit" where
  "check_what_the_approval_covers approval =
     (let host = trim_space (sa_host approval); form = trim_space (sa_reduced_form approval) in
      if host = [] \<and> form = [] then Inl (Approval_Covers_Nothing (sa_skill approval))
      else if host \<noteq> [] \<and> form \<noteq> [] then Inl (Approval_Covers_Two_Things (sa_skill approval))
      else if host = [] then Inr ()
      else
        and_then (check_host_name (sa_skill approval) host) (\<lambda>_.
          if sa_tools approval = [] then Inl (Website_Without_Tools (sa_skill approval) host)
          else each_in_turn (\<lambda>_ tool. check_tool_visits approval host tool) () (sa_tools approval)))"

definition with_the_host_folded :: "machine \<Rightarrow> standing_approval \<Rightarrow> standing_approval" where
  "with_the_host_folded m approval =
     approval\<lparr>sa_host := to_lower (ma_unicode m) (trim_space (sa_host approval))\<rparr>"

definition compile_standing_approval :: "machine \<Rightarrow> standing_approval \<Rightarrow> permission_error + held_approval" where
  "compile_standing_approval m approval =
     (if trim_space (sa_skill approval) = []
      then Inl (Approval_Without_Skill (sa_reduced_form approval @ sa_host approval))
      else
        and_then (check_what_the_approval_covers approval) (\<lambda>_.
          if sa_limit approval \<le> 0 then Inl (Limit_Not_Positive (sa_skill approval) (sa_limit approval))
          else if sa_expires approval = 0 then Inl (Never_Expires (sa_skill approval))
          else if sa_host approval \<noteq> []
          then Inr \<lparr>ha_approval = with_the_host_folded m approval, ha_pattern = None, ha_used = 0\<rparr>
          else and_then (compile_pattern (sa_reduced_form approval)) (\<lambda>pattern.
            Inr \<lparr>ha_approval = approval, ha_pattern = Some pattern, ha_used = 0\<rparr>)))"

definition usable :: "int \<Rightarrow> held_approval \<Rightarrow> bool" where
  "usable now held \<longleftrightarrow>
     ha_used held < sa_limit (ha_approval held) \<and> now < sa_expires (ha_approval held)"

definition approval_reason :: "machine \<Rightarrow> held_approval \<Rightarrow> string" where
  "approval_reason m held =
     ''the skill '' @ ma_quote m (sa_skill (ha_approval held)) @ '' holds a standing approval for ''
       @ ma_quote m (what_it_covers held) @ '', and this is use '' @ itoa (ha_used held) @ '' of ''
       @ itoa (sa_limit (ha_approval held))"

text \<open>The first approval that is usable and covers the call is used once; its words say so.\<close>

fun use_standing_approval ::
  "machine \<Rightarrow> int \<Rightarrow> permission_request \<Rightarrow> string \<Rightarrow> held_approval list \<Rightarrow>
     permission_error + string option \<times> held_approval list"
where
  "use_standing_approval m now request reduced [] = Inr (None, [])"
| "use_standing_approval m now request reduced (held # rest) =
     (let next_one =
        map_sum id (apsnd ((#) held)) (use_standing_approval m now request reduced rest)
      in if \<not> usable now held then next_one
         else and_then (covers m request reduced held) (\<lambda>covered.
           if \<not> covered then next_one
           else let used = held\<lparr>ha_used := ha_used held + 1\<rparr>
                in Inr (Some (approval_reason m used), used # rest)))"

end
