(* ===== verification/Permission.thy ===== *)
theory Permission
  imports Read_Only Permission_Preview Standing_Approvals "HOL-Library.AList"
begin

text \<open>
  \<open>internal/permission/decider.go\<close> and \<open>yolo.go\<close>: the permission function itself. Its
  state is the rulebook, the answers the user gave in this session, the standing approvals and the
  yolo switch; a call is ruled on by \<open>decide\<close>, which changes the state only when it uses a
  standing approval. The moment a call is ruled on is an argument, for the clock.
\<close>

definition max_remembered_answers :: nat where "max_remembered_answers = 1000"

type_synonym preview_answer = string

definition answer_once :: preview_answer where "answer_once = ''once''"
definition answer_always :: preview_answer where "answer_always = ''always''"
definition answer_reject :: preview_answer where "answer_reject = ''reject''"

definition known_preview_answer :: "preview_answer \<Rightarrow> bool" where
  "known_preview_answer a \<longleftrightarrow> a \<in> set [answer_once, answer_always, answer_reject]"

record remembered_answer =
  ra_ruling :: ruling
  ra_reason :: string

record decider =
  dc_book :: rulebook
  dc_remembered :: "(string \<times> remembered_answer) list"
  dc_standing :: "held_approval list"
  dc_yolo :: bool

section \<open>Building the permission function\<close>

definition rules_from_configuration :: "config_rule list \<Rightarrow> rule_line list" where
  "rules_from_configuration written =
     map (\<lambda>r. \<lparr>ru_tool = cr_tool r, ru_pattern = cr_pattern r, ru_action = cr_action r, ru_reason = [],
        ru_from_the_ask_me_first_list = False\<rparr>) written"

definition new_decider :: "bool \<Rightarrow> string list \<Rightarrow> config_rule list \<Rightarrow> permission_error + decider" where
  "new_decider has_clock ask_me_first written =
     (if \<not> has_clock then Inl Without_A_Clock
      else
        and_then (rules_for_ask_me_first ask_me_first) (\<lambda>rules.
        and_then (new_rulebook (rules @ rules_from_configuration written)) (\<lambda>book.
          Inr \<lparr>dc_book = book, dc_remembered = [], dc_standing = [], dc_yolo = False\<rparr>)))"

section \<open>Yolo\<close>

definition use_yolo :: "bool \<Rightarrow> decider \<Rightarrow> decider" where
  "use_yolo on d = d\<lparr>dc_yolo := on\<rparr>"

definition allowed_by_yolo_words :: string where "allowed_by_yolo_words = ''allowed by yolo''"

definition allowed_by_yolo :: "machine \<Rightarrow> permission_request \<Rightarrow> string \<Rightarrow> string \<Rightarrow> permission_decision" where
  "allowed_by_yolo m request reduced why =
     \<lparr>pd_ruling = ruling_allow,
      pd_reason = allowed_by_yolo_words
        @ '', which you switched on for this session; without it this would have asked first: '' @ why,
      pd_preview_text = preview_of m request reduced\<rparr>"

section \<open>Ruling on a call\<close>

definition remembered_key :: "string \<Rightarrow> string \<Rightarrow> string" where
  "remembered_key tool reduced = tool @ [CHR 0x00] @ reduced"

definition answer_already_given :: "decider \<Rightarrow> string \<Rightarrow> string \<Rightarrow> remembered_answer option" where
  "answer_already_given d tool reduced = map_of (dc_remembered d) (remembered_key tool reduced)"

definition forms_to_match_on :: "string \<Rightarrow> string \<Rightarrow> string list" where
  "forms_to_match_on tool reduced =
     (if tool \<noteq> tool_shell then [reduced] else [reduced, flags_spelled_out reduced])"

definition reason_of :: "machine \<Rightarrow> rule_line \<Rightarrow> string \<Rightarrow> string" where
  "reason_of m r reduced =
     (if trim_space (ru_reason r) \<noteq> [] then ru_reason r
      else ''your rule '' @ ma_quote m (ru_pattern r) @ '' on the tool '' @ ma_quote m (ru_tool r)
        @ '' says to '' @ ru_action r @ '' '' @ ma_quote m reduced)"

definition why_the_form_leaves_something_out :: "machine \<Rightarrow> string \<Rightarrow> string \<Rightarrow> string" where
  "why_the_form_leaves_something_out m note reduced =
     (if note = builds_itself_note
      then ''the command '' @ ma_quote m reduced
        @ '' works out part of itself while it runs, so nothing here can say what it will really do''
      else if note = unclosed_quote_note
      then ''the command '' @ ma_quote m reduced
        @ '' opens a quote and never closes it, so nothing here can say where one word ends and the next begins''
      else ''the call '' @ ma_quote m reduced
        @ '' was too long to read to the end, so nothing here can say what the rest of it does'')"

definition plain_decision :: "ruling \<Rightarrow> string \<Rightarrow> permission_decision" where
  "plain_decision r why = \<lparr>pd_ruling = r, pd_reason = why, pd_preview_text = []\<rparr>"

definition ask_with_preview :: "machine \<Rightarrow> permission_request \<Rightarrow> string \<Rightarrow> string \<Rightarrow> permission_decision" where
  "ask_with_preview m request reduced why =
     \<lparr>pd_ruling = ruling_ask, pd_reason = why, pd_preview_text = preview_of m request reduced\<rparr>"

definition stop_and_report :: "machine \<Rightarrow> permission_request \<Rightarrow> string \<Rightarrow> string \<Rightarrow> permission_decision" where
  "stop_and_report m request reduced why =
     \<lparr>pd_ruling = ruling_stop,
      pd_reason = ''nobody is there to answer, and '' @ ma_quote m reduced @ '' needs a yes first: '' @ why
        @ ''. The task stops and reports instead of waiting.'',
      pd_preview_text = preview_of m request reduced\<rparr>"

type_synonym answer_of_decider = "(permission_error + permission_decision) \<times> decider"

definition rule_on_something_to_ask_about ::
  "machine \<Rightarrow> int \<Rightarrow> permission_request \<Rightarrow> string \<Rightarrow> string \<Rightarrow> bool \<Rightarrow> decider \<Rightarrow> answer_of_decider" where
  "rule_on_something_to_ask_about m now request reduced why on_the_list d =
     (if dc_yolo d then (Inr (allowed_by_yolo m request reduced why), d)
      else if rq_unattended request then (Inr (stop_and_report m request reduced why), d)
      else if on_the_list then (Inr (ask_with_preview m request reduced why), d)
      else
        case use_standing_approval m now request reduced (dc_standing d) of
          Inl e \<Rightarrow> (Inl e, d)
        | Inr (Some approval, held) \<Rightarrow> (Inr (plain_decision ruling_allow approval), d\<lparr>dc_standing := held\<rparr>)
        | Inr (None, held) \<Rightarrow> (Inr (ask_with_preview m request reduced why), d))"

definition decide ::
  "machine \<Rightarrow> int \<Rightarrow> bool \<Rightarrow> permission_request \<Rightarrow> decider \<Rightarrow> answer_of_decider" where
  "decide m now stopped request d =
     (if stopped then (Inl (Turn_Stopped (rq_tool_name request)), d)
      else
        case reduce_call m request of
          (reduced, note) \<Rightarrow>
            let matched = match_rules m (dc_book d) (rq_tool_name request)
                  (forms_to_match_on (rq_tool_name request) reduced);
                denied = (case matched of Some r \<Rightarrow> ru_action r = ruling_deny | None \<Rightarrow> False)
            in if denied
               then (Inr (plain_decision (ru_action (the matched)) (reason_of m (the matched) reduced)), d)
               else
                 case answer_already_given d (rq_tool_name request) reduced of
                   Some a \<Rightarrow> (Inr (plain_decision (ra_ruling a) (ra_reason a)), d)
                 | None \<Rightarrow>
                     (case matched of
                        Some r \<Rightarrow>
                          if ru_action r = ruling_allow
                          then (Inr (plain_decision (ru_action r) (reason_of m r reduced)), d)
                          else rule_on_something_to_ask_about m now request reduced (reason_of m r reduced)
                                 (ru_from_the_ask_me_first_list r) d
                      | None \<Rightarrow>
                          if note \<noteq> [] then
                            (if command_only_reads m request then
                               (Inr (plain_decision ruling_allow (ma_quote m reduced
                                  @ '' only reads, so it runs even though its readable form does not say everything it does'')), d)
                             else rule_on_something_to_ask_about m now request reduced
                                    (why_the_form_leaves_something_out m note reduced) False d)
                          else (Inr (plain_decision ruling_allow
                                 (''no rule on your ask-me-first list covers '' @ ma_quote m reduced @ '', so it runs'')), d)))"

section \<open>The user's answers and a skill's approvals\<close>

definition ruling_for_answer :: "machine \<Rightarrow> preview_answer \<Rightarrow> string \<Rightarrow> string \<Rightarrow> remembered_answer" where
  "ruling_for_answer m answer reduced reason =
     (if answer = answer_always
      then \<lparr>ra_ruling = ruling_allow,
            ra_reason = ''you allowed '' @ ma_quote m reduced @ '' for the rest of this session''\<rparr>
      else if trim_space reason = []
      then \<lparr>ra_ruling = ruling_deny,
            ra_reason = ''you refused '' @ ma_quote m reduced @ '' earlier in this session''\<rparr>
      else \<lparr>ra_ruling = ruling_deny,
            ra_reason = ''you refused '' @ ma_quote m reduced @ '' earlier in this session, saying: ''
              @ trim_space reason\<rparr>)"

definition remember ::
  "machine \<Rightarrow> permission_request \<Rightarrow> preview_answer \<Rightarrow> string \<Rightarrow> decider \<Rightarrow> (permission_error + unit) \<times> decider" where
  "remember m request answer reason d =
     (if \<not> known_preview_answer answer then (Inl (Unknown_Answer answer), d)
      else if answer = answer_once then (Inr (), d)
      else
        let reduced = reduce m request; key = remembered_key (rq_tool_name request) reduced in
        if map_of (dc_remembered d) key = None \<and> max_remembered_answers \<le> length (dc_remembered d)
        then (Inl Too_Many_Answers, d)
        else (Inr (), d\<lparr>dc_remembered :=
               AList.update key (ruling_for_answer m answer reduced reason) (dc_remembered d)\<rparr>))"

definition register_standing_approval ::
  "machine \<Rightarrow> standing_approval \<Rightarrow> decider \<Rightarrow> (permission_error + unit) \<times> decider" where
  "register_standing_approval m approval d =
     (case compile_standing_approval m approval of
        Inl e \<Rightarrow> (Inl e, d)
      | Inr held \<Rightarrow>
          if max_standing_approvals \<le> length (dc_standing d)
          then (Inl (Too_Many_Approvals (sa_skill approval)), d)
          else (Inr (), d\<lparr>dc_standing := dc_standing d @ [held]\<rparr>))"

end
