(* ===== verification/Shell_Reading.thy ===== *)
theory Shell_Reading
  imports Shell_Words
begin

text \<open>
  What the reader of a line of shell is meant to find, without its caps and without its state: the
  line is a list of lexemes, the commands are what stands between the breaks of commands, and the
  words of a command are what stands between the breaks of words. The reader of
  \<open>internal/permission/shellwords.go\<close> finds exactly that on every line it has no note on.
\<close>

section \<open>The reference\<close>

text \<open>\<open>Begins\<close> is a quote or a backslash: a word is there, though no letter of it is read yet.\<close>

datatype lexeme = Letter nat | Begins | Word_Break | Command_Break

fun lexemes :: "bool \<Rightarrow> nat \<Rightarrow> nat list \<Rightarrow> lexeme list" where
  "lexemes escaped q [] = []"
| "lexemes escaped q (r # rs) =
     (if escaped then Letter r # lexemes False q rs
      else if q = single_quote then
        (if r = single_quote then lexemes False 0 rs else Letter r # lexemes False q rs)
      else if r = backslash_rune then Begins # lexemes True q rs
      else if q = double_quote then
        (if r = double_quote then lexemes False 0 rs else Letter r # lexemes False q rs)
      else if r = single_quote \<or> r = double_quote then Begins # lexemes False r rs
      else if is_separator r then Command_Break # lexemes False q rs
      else if r = 32 \<or> r = 9 then Word_Break # lexemes False q rs
      else Letter r # lexemes False q rs)"

text \<open>The pieces of a list between the items that break it.\<close>

fun pieces :: "'a \<Rightarrow> 'a list \<Rightarrow> 'a list list" where
  "pieces b [] = [[]]"
| "pieces b (x # xs) =
     (if x = b then [] # pieces b xs else (x # hd (pieces b xs)) # tl (pieces b xs))"

definition letters_of :: "lexeme list \<Rightarrow> string" where
  "letters_of ls = concat (map (\<lambda>l. case l of Letter r \<Rightarrow> encode_rune r | _ \<Rightarrow> []) ls)"

definition words_of :: "lexeme list \<Rightarrow> string list" where
  "words_of ls = map letters_of (filter (\<lambda>w. w \<noteq> []) (pieces Word_Break ls))"

definition commands_of :: "lexeme list \<Rightarrow> string list list" where
  "commands_of ls = filter (\<lambda>c. c \<noteq> []) (map words_of (pieces Command_Break ls))"

definition shell_commands :: "string \<Rightarrow> string list list" where
  "shell_commands line = commands_of (lexemes False 0 (runes line))"

section \<open>Taking the lexemes one by one\<close>

lemma pieces_nonempty [simp]: "pieces b xs \<noteq> []"
  by (cases xs) simp_all

lemma pieces_snoc:
  "pieces b (xs @ [x]) =
     (if x = b then pieces b xs @ [[]] else butlast (pieces b xs) @ [last (pieces b xs) @ [x]])"
proof (induction xs)
  case (Cons y xs)
  obtain p ps where "pieces b xs = p # ps" by (metis list.exhaust pieces_nonempty)
  with Cons show ?case by (cases ps) auto
qed simp

lemma letters_of_simps [simp]:
  "letters_of [] = []" "letters_of (a @ b) = letters_of a @ letters_of b"
  "letters_of [Letter r] = encode_rune r" "letters_of [Begins] = []"
  by (simp_all add: letters_of_def)

text \<open>What the reader holds after some lexemes: all but the last piece is finished.\<close>

definition open_piece :: "lexeme list \<Rightarrow> lexeme list" where
  "open_piece ls = last (pieces Word_Break (last (pieces Command_Break ls)))"

definition finished_words :: "lexeme list \<Rightarrow> string list" where
  "finished_words ls = map letters_of (filter (\<lambda>w. w \<noteq> [])
     (butlast (pieces Word_Break (last (pieces Command_Break ls)))))"

definition finished_commands :: "lexeme list \<Rightarrow> string list list" where
  "finished_commands ls =
     filter (\<lambda>c. c \<noteq> []) (map words_of (butlast (pieces Command_Break ls)))"

lemmas finished_defs = open_piece_def finished_words_def finished_commands_def

lemma finished_Nil [simp]: "open_piece [] = []" "finished_words [] = []" "finished_commands [] = []"
  by (simp_all add: finished_defs)

lemma finished_snoc_inside:
  assumes "x = Letter r \<or> x = Begins"
  shows "open_piece (ls @ [x]) = open_piece ls @ [x]" "finished_words (ls @ [x]) = finished_words ls"
    "finished_commands (ls @ [x]) = finished_commands ls"
  using assms by (auto simp: finished_defs pieces_snoc)

lemma filter_last:
  "xs \<noteq> [] \<Longrightarrow> filter P xs = filter P (butlast xs) @ (if P (last xs) then [last xs] else [])"
  by (induction xs rule: rev_induct) auto

lemma words_of_split:
  "words_of (last (pieces Command_Break ls)) =
     finished_words ls @ (if open_piece ls = [] then [] else [letters_of (open_piece ls)])"
  by (simp add: words_of_def finished_defs
      filter_last[of "pieces Word_Break (last (pieces Command_Break ls))"])

lemma finished_snoc_word:
  "open_piece (ls @ [Word_Break]) = []"
  "finished_words (ls @ [Word_Break]) = words_of (last (pieces Command_Break ls))"
  "finished_commands (ls @ [Word_Break]) = finished_commands ls"
  by (auto simp: finished_defs pieces_snoc words_of_def)

lemma commands_of_split:
  "commands_of ls = finished_commands ls @
     (let ws = words_of (last (pieces Command_Break ls)) in if ws = [] then [] else [ws])"
  by (simp add: commands_of_def finished_defs map_butlast last_map Let_def
      filter_last[of "map words_of (pieces Command_Break ls)"])

lemma finished_snoc_command:
  "open_piece (ls @ [Command_Break]) = []"
  "finished_words (ls @ [Command_Break]) = []"
  "finished_commands (ls @ [Command_Break]) = commands_of ls"
  by (auto simp: finished_defs pieces_snoc commands_of_def)

section \<open>The reader keeps to the reference\<close>

definition reads_so_far :: "lexeme list \<Rightarrow> line_splitter \<Rightarrow> bool" where
  "reads_so_far ls sp \<longleftrightarrow>
     sp_segments sp = finished_commands ls \<and> sp_words sp = finished_words ls \<and>
     (sp_in_word sp \<longleftrightarrow> open_piece ls \<noteq> []) \<and> sp_current sp = letters_of (open_piece ls)"

lemma reads_so_far_fields [simp]:
  "reads_so_far ls (sp\<lparr>sp_previous := p\<rparr>) = reads_so_far ls sp"
  "reads_so_far ls (sp\<lparr>sp_quote := q\<rparr>) = reads_so_far ls sp"
  "reads_so_far ls (sp\<lparr>sp_escaped := b\<rparr>) = reads_so_far ls sp"
  "reads_so_far ls (mark_not_whole_story n sp) = reads_so_far ls sp"
  by (simp_all add: reads_so_far_def mark_not_whole_story_def)

lemma reads_so_far_in_word:
  "reads_so_far ls sp \<Longrightarrow> reads_so_far (ls @ [Begins]) (sp\<lparr>sp_in_word := True\<rparr>)"
  by (simp add: reads_so_far_def finished_snoc_inside)

text \<open>A note that is there stays.\<close>

lemma note_kept:
  "sp_note sp \<noteq> [] \<Longrightarrow> sp_note (mark_not_whole_story n sp) = sp_note sp"
  "sp_note sp \<noteq> [] \<Longrightarrow> sp_note (write_letter r sp) = sp_note sp"
  "sp_note sp \<noteq> [] \<Longrightarrow> sp_note (end_word sp) = sp_note sp"
  "sp_note sp \<noteq> [] \<Longrightarrow> sp_note (end_segment sp) = sp_note sp"
  "sp_note sp \<noteq> [] \<Longrightarrow> sp_note (mark_when_the_command_builds_itself r sp) = sp_note sp"
  by (auto simp: splitter_defs)

lemma note_kept_letter: "sp_note sp \<noteq> [] \<Longrightarrow> sp_note (read_letter r sp) = sp_note sp"
  by (auto simp: read_letter_def read_inside_single_quotes_def read_inside_double_quotes_def note_kept)

lemma note_kept_line: "sp_note sp \<noteq> [] \<Longrightarrow> sp_note (read_line n cs sp) = sp_note sp"
  by (induction n cs sp rule: read_line.induct) (auto simp: note_kept note_kept_letter)

lemma no_note_before:
  "sp_note (read_line n cs sp) = [] \<Longrightarrow> sp_note sp = []"
  using note_kept_line by fastforce

lemma no_note_mark: "sp_note (mark_not_whole_story n sp) = [] \<Longrightarrow> n \<noteq> [] \<Longrightarrow> False"
  by (auto simp: mark_not_whole_story_def split: if_splits)

lemma note_nonempty [simp]: "cut_short_note \<noteq> []" "builds_itself_note \<noteq> []" "unclosed_quote_note \<noteq> []"
  by (simp_all add: cut_short_note_def builds_itself_note_def unclosed_quote_note_def)

lemma reads_letter:
  assumes "reads_so_far ls sp" "sp_note (write_letter r sp) = []"
  shows "reads_so_far (ls @ [Letter r]) (write_letter r sp)"
proof -
  have "\<not> max_word_bytes \<le> length (sp_current sp)"
    using assms(2) no_note_mark by (fastforce simp: write_letter_def Let_def)
  with assms(1) show ?thesis
    by (simp add: reads_so_far_def write_letter_def Let_def finished_snoc_inside)
qed

lemma reads_word_break:
  assumes "reads_so_far ls sp" "sp_note (end_word sp) = []"
  shows "reads_so_far (ls @ [Word_Break]) (end_word sp)"
proof (cases "sp_in_word sp")
  case True
  have "length (sp_words sp) < max_words_per_segment"
  proof (rule ccontr)
    assume "\<not> ?thesis"
    with True assms(2) have "sp_note (mark_not_whole_story cut_short_note sp) = []"
      by (simp add: end_word_def)
    then show False by (rule no_note_mark) simp
  qed
  with True assms(1) show ?thesis
    by (simp add: reads_so_far_def end_word_def finished_snoc_word words_of_split)
next
  case False
  with assms(1) show ?thesis
    by (simp add: reads_so_far_def end_word_def finished_snoc_word words_of_split)
qed

lemma reads_command_break:
  assumes "reads_so_far ls sp" "sp_note (end_segment sp) = []"
  shows "reads_so_far (ls @ [Command_Break]) (end_segment sp)"
proof -
  have "sp_note (end_word sp) = []"
    using assms(2) note_kept(3,4)[of sp] by (auto simp: end_segment_def Let_def split: if_splits)
  note word = reads_word_break[OF assms(1) this]
  then show ?thesis
    by (auto simp: reads_so_far_def end_segment_def Let_def finished_snoc_word finished_snoc_command
        commands_of_split)
qed

text \<open>One rune of the line is none or one lexeme.\<close>

definition lexeme_of :: "bool \<Rightarrow> nat \<Rightarrow> nat \<Rightarrow> lexeme list \<times> bool \<times> nat" where
  "lexeme_of escaped q r =
     (if escaped then ([Letter r], False, q)
      else if q = single_quote then
        (if r = single_quote then ([], False, 0) else ([Letter r], False, q))
      else if r = backslash_rune then ([Begins], True, q)
      else if q = double_quote then
        (if r = double_quote then ([], False, 0) else ([Letter r], False, q))
      else if r = single_quote \<or> r = double_quote then ([Begins], False, r)
      else if is_separator r then ([Command_Break], False, q)
      else if r = 32 \<or> r = 9 then ([Word_Break], False, q)
      else ([Letter r], False, q))"

lemma lexemes_one:
  "lexemes e q (r # rs) = (case lexeme_of e q r of (ls, e', q') \<Rightarrow> ls @ lexemes e' q' rs)"
  by (simp add: lexeme_of_def)

lemma builds_itself_fields [simp]:
  "reads_so_far ls (mark_when_the_command_builds_itself r sp) = reads_so_far ls sp"
  "sp_quote (mark_when_the_command_builds_itself r sp) = sp_quote sp"
  "sp_escaped (mark_when_the_command_builds_itself r sp) = sp_escaped sp"
  by (simp_all add: mark_when_the_command_builds_itself_def)
    (simp_all add: mark_not_whole_story_def)

lemma quoting_fields [simp]:
  "sp_quote (write_letter r sp) = sp_quote sp" "sp_escaped (write_letter r sp) = sp_escaped sp"
  "sp_quote (end_word sp) = sp_quote sp" "sp_escaped (end_word sp) = sp_escaped sp"
  "sp_quote (end_segment sp) = sp_quote sp" "sp_escaped (end_segment sp) = sp_escaped sp"
  by (simp_all add: splitter_defs)

lemma reads_one:
  assumes "reads_so_far ls sp" "sp_note (read_letter r sp) = []"
    "lexeme_of (sp_escaped sp) (sp_quote sp) r = (new, e, q)"
  shows "reads_so_far (ls @ new) (read_letter r sp)"
    "sp_escaped (read_letter r sp) = e" "sp_quote (read_letter r sp) = q"
  using assms
  by (auto simp: read_letter_def lexeme_of_def read_inside_single_quotes_def
      read_inside_double_quotes_def reads_so_far_in_word
      intro!: reads_letter reads_word_break reads_command_break split: if_splits)

lemma no_note_done: "sp_note (done_reading sp) = [] \<Longrightarrow> sp_note sp = []"
proof (rule ccontr)
  assume "sp_note sp \<noteq> []"
  then have "sp_note (done_reading sp) = sp_note sp" by (simp add: done_reading_def note_kept)
  moreover assume "sp_note (done_reading sp) = []"
  ultimately show False using \<open>sp_note sp \<noteq> []\<close> by simp
qed

lemma reads_line:
  assumes "sp_note (done_reading (read_line n cs sp)) = []" "reads_so_far ls sp"
  shows "sp_segments (done_reading (read_line n cs sp)) =
    commands_of (ls @ lexemes (sp_escaped sp) (sp_quote sp) (map fst cs))"
  using assms
proof (induction n cs sp arbitrary: ls rule: read_line.induct)
  case (1 position sp)
  have q: "sp_quote sp = 0"
  proof (rule ccontr)
    assume "sp_quote sp \<noteq> 0"
    with 1(1) have "sp_note (end_segment (mark_not_whole_story unclosed_quote_note sp)) = []"
      by (simp add: done_reading_def)
    then show False using note_kept(4) no_note_mark note_nonempty(3) by metis
  qed
  with 1 have "reads_so_far (ls @ [Command_Break]) (end_segment sp)"
    by (auto simp: done_reading_def intro: reads_command_break)
  then show ?case using q by (simp add: done_reading_def reads_so_far_def finished_snoc_command)
next
  case (2 position r bytes rest sp)
  let ?full = "max_command_bytes \<le> position \<or> max_segments \<le> length (sp_segments sp)"
  have not_full: "\<not> ?full"
  proof
    assume ?full
    with 2(2) have "sp_note (mark_not_whole_story cut_short_note sp) = []" by (auto dest: no_note_done)
    then show False by (rule no_note_mark) simp
  qed
  obtain new e q where new: "lexeme_of (sp_escaped sp) (sp_quote sp) r = (new, e, q)"
    by (metis surj_pair)
  from not_full 2(2) have rest:
    "sp_note (done_reading (read_line (position + length bytes) rest (read_letter r sp))) = []" by auto
  then have "sp_note (read_letter r sp) = []" by (rule no_note_before[OF no_note_done])
  note one = reads_one[OF 2(3) this new]
  show ?case using 2(1)[OF not_full rest one(1)] not_full new
    by (simp add: one(2,3) lexemes_one del: lexemes.simps(2))
qed

lemma command_words_reads:
  assumes "command_words line = (segments, [])"
  shows "segments = shell_commands line"
  using reads_line[of 0 "rune_chunks line" new_splitter "[]"] assms
  by (simp add: command_words_def Let_def shell_commands_def runes_def reads_so_far_def new_splitter_def)

end
