(* ===== verification/Permission_Rulings.thy ===== *)
theory Permission_Rulings
  imports Permission Shell_Reading
begin

text \<open>
  What the permission function answers. The first section says what one ruling depends on: the rule
  that covers the call, the note its readable form ends with, the answer given earlier. The second
  follows the standing approvals: a grant spends one use of one approval, which is a budget. The
  third follows a whole session of calls.
\<close>

section \<open>One ruling\<close>

definition matched_rule :: "machine \<Rightarrow> decider \<Rightarrow> permission_request \<Rightarrow> rule_line option" where
  "matched_rule m d rq =
     match_rules m (dc_book d) (rq_tool_name rq) (forms_to_match_on (rq_tool_name rq) (reduce m rq))"

definition form_note :: "machine \<Rightarrow> permission_request \<Rightarrow> string" where
  "form_note m rq = snd (reduce_call m rq)"

definition earlier_answer :: "machine \<Rightarrow> decider \<Rightarrow> permission_request \<Rightarrow> remembered_answer option" where
  "earlier_answer m d rq = answer_already_given d (rq_tool_name rq) (reduce m rq)"

definition refused_by_rule :: "machine \<Rightarrow> decider \<Rightarrow> permission_request \<Rightarrow> bool" where
  "refused_by_rule m d rq \<longleftrightarrow> (case matched_rule m d rq of Some r \<Rightarrow> ru_action r = ruling_deny | None \<Rightarrow> False)"

text \<open>Whether the call needs a yes, and whether the user asked to see it first.\<close>

definition needs_a_yes :: "machine \<Rightarrow> decider \<Rightarrow> permission_request \<Rightarrow> bool" where
  "needs_a_yes m d rq \<longleftrightarrow>
     (case matched_rule m d rq of
        Some r \<Rightarrow> ru_action r \<noteq> ruling_deny \<and> ru_action r \<noteq> ruling_allow
      | None \<Rightarrow> form_note m rq \<noteq> [] \<and> \<not> command_only_reads m rq)"

definition on_the_list :: "machine \<Rightarrow> decider \<Rightarrow> permission_request \<Rightarrow> bool" where
  "on_the_list m d rq \<longleftrightarrow>
     (case matched_rule m d rq of Some r \<Rightarrow> ru_from_the_ask_me_first_list r | None \<Rightarrow> False)"

definition why_a_yes :: "machine \<Rightarrow> decider \<Rightarrow> permission_request \<Rightarrow> string" where
  "why_a_yes m d rq =
     (case matched_rule m d rq of
        Some r \<Rightarrow> reason_of m r (reduce m rq)
      | None \<Rightarrow> why_the_form_leaves_something_out m (form_note m rq) (reduce m rq))"

lemma reduce_call_parts: "reduce_call m rq = (reduce m rq, form_note m rq)"
  by (simp add: reduce_def form_note_def)

lemma decide_stopped: "decide m now True rq d = (Inl (Turn_Stopped (rq_tool_name rq)), d)"
  by (simp add: decide_def)

lemmas ruling_parts = matched_rule_def form_note_def earlier_answer_def

lemma decide_refused:
  assumes "refused_by_rule m d rq"
  shows "\<exists>why. decide m now False rq d = (Inr (plain_decision ruling_deny why), d)"
  using assms
  by (auto simp: decide_def reduce_call_parts refused_by_rule_def matched_rule_def split: option.splits)

lemma decide_answered:
  assumes "\<not> refused_by_rule m d rq" "earlier_answer m d rq = Some a"
  shows "decide m now False rq d = (Inr (plain_decision (ra_ruling a) (ra_reason a)), d)"
  using assms
  by (auto simp: decide_def reduce_call_parts refused_by_rule_def matched_rule_def earlier_answer_def
      split: option.splits)

lemma decide_asked_about:
  assumes "needs_a_yes m d rq" "earlier_answer m d rq = None"
  shows "decide m now False rq d =
    rule_on_something_to_ask_about m now rq (reduce m rq) (why_a_yes m d rq) (on_the_list m d rq) d"
  using assms
  by (auto simp: decide_def reduce_call_parts needs_a_yes_def on_the_list_def why_a_yes_def
      matched_rule_def earlier_answer_def split: option.splits)

lemma decide_allowed:
  assumes "\<not> refused_by_rule m d rq" "\<not> needs_a_yes m d rq" "earlier_answer m d rq = None"
  shows "\<exists>why. decide m now False rq d = (Inr (plain_decision ruling_allow why), d)"
  using assms
  by (auto simp: decide_def reduce_call_parts needs_a_yes_def refused_by_rule_def
      matched_rule_def earlier_answer_def split: option.splits)

lemma plain_decision_parts [simp]:
  "pd_ruling (plain_decision r why) = r" "pd_reason (plain_decision r why) = why"
  "pd_preview_text (plain_decision r why) = []"
  by (simp_all add: plain_decision_def)

lemma other_decision_parts [simp]:
  "pd_ruling (allowed_by_yolo m rq s why) = ruling_allow"
  "pd_ruling (ask_with_preview m rq s why) = ruling_ask"
  "pd_ruling (stop_and_report m rq s why) = ruling_stop"
  by (simp_all add: allowed_by_yolo_def ask_with_preview_def stop_and_report_def)

text \<open>The four ways a ruling goes, and the case distinction every proof about a ruling starts with.\<close>

lemma decide_cases [consumes 1, case_names stopped refused answered allowed asked]:
  assumes "decide m now stopped rq d = res"
  obtains "stopped" "res = (Inl (Turn_Stopped (rq_tool_name rq)), d)"
  | why where "\<not> stopped" "refused_by_rule m d rq" "res = (Inr (plain_decision ruling_deny why), d)"
  | a where "\<not> stopped" "\<not> refused_by_rule m d rq" "earlier_answer m d rq = Some a"
      "res = (Inr (plain_decision (ra_ruling a) (ra_reason a)), d)"
  | why where "\<not> stopped" "\<not> refused_by_rule m d rq" "earlier_answer m d rq = None"
      "\<not> needs_a_yes m d rq" "res = (Inr (plain_decision ruling_allow why), d)"
  | "\<not> stopped" "\<not> refused_by_rule m d rq" "earlier_answer m d rq = None" "needs_a_yes m d rq"
      "res = rule_on_something_to_ask_about m now rq (reduce m rq) (why_a_yes m d rq) (on_the_list m d rq) d"
proof (cases stopped)
  case True
  with assms that(1) show ?thesis by (simp add: decide_stopped)
next
  case False
  note run = assms[unfolded False eq_False[THEN iffD2, OF False]]
  show ?thesis
  proof (cases "refused_by_rule m d rq")
    case True
    with decide_refused[OF True, of now] False assms that(2) show ?thesis by auto
  next
    case not_refused: False
    show ?thesis
    proof (cases "earlier_answer m d rq")
      case (Some a)
      with decide_answered[OF not_refused Some, of now] False not_refused assms that(3) show ?thesis by auto
    next
      case None
      show ?thesis
      proof (cases "needs_a_yes m d rq")
        case True
        with decide_asked_about[OF True None, of now] False not_refused None assms that(5)
        show ?thesis by auto
      next
        case no_yes: False
        with decide_allowed[OF not_refused no_yes None, of now] False not_refused None assms that(4)
        show ?thesis by auto
      qed
    qed
  qed
qed

section \<open>Standing approvals are a budget\<close>

definition spend :: "nat \<Rightarrow> held_approval list \<Rightarrow> held_approval list" where
  "spend i held = held[i := (held ! i)\<lparr>ha_used := ha_used (held ! i) + 1\<rparr>]"

lemma use_standing_Some:
  "use_standing_approval m now rq s held = Inr (Some why, held') \<Longrightarrow>
     \<exists>i < length held. usable now (held ! i) \<and> covers m rq s (held ! i) = Inr True \<and> held' = spend i held"
proof (induction held arbitrary: held')
  case (Cons h held)
  show ?case
  proof (cases "usable now h \<and> covers m rq s h = Inr True")
    case True
    with Cons.prems show ?thesis by (intro exI[of _ 0]) (auto simp: spend_def Let_def)
  next
    case False
    with Cons.prems obtain held1 where "use_standing_approval m now rq s held = Inr (Some why, held1)"
      "held' = h # held1"
      by (cases "use_standing_approval m now rq s held"; cases "covers m rq s h")
        (auto simp: Let_def split: if_splits)
    with Cons.IH obtain i where "i < length held" "usable now (held ! i)" "covers m rq s (held ! i) = Inr True"
      "held' = h # spend i held" by blast
    then show ?thesis by (intro exI[of _ "Suc i"]) (simp add: spend_def)
  qed
qed simp

lemma use_standing_None:
  "use_standing_approval m now rq s held = Inr (None, held') \<Longrightarrow> held' = held"
proof (induction held arbitrary: held')
  case (Cons h held)
  then show ?case
    by (cases "use_standing_approval m now rq s held"; cases "covers m rq s h")
      (auto simp: Let_def split: if_splits)
qed simp

text \<open>Asking about a call: what comes of it, and what becomes of the state.\<close>

lemma ask_about_cases [consumes 1, case_names yolo stop list panic approval ask]:
  assumes "rule_on_something_to_ask_about m now rq s why listed d = res"
  obtains "dc_yolo d" "res = (Inr (allowed_by_yolo m rq s why), d)"
  | "\<not> dc_yolo d" "rq_unattended rq" "res = (Inr (stop_and_report m rq s why), d)"
  | "\<not> dc_yolo d" "\<not> rq_unattended rq" "listed" "res = (Inr (ask_with_preview m rq s why), d)"
  | e where "\<not> dc_yolo d" "\<not> rq_unattended rq" "\<not> listed" "res = (Inl e, d)"
  | i approval where "\<not> dc_yolo d" "\<not> rq_unattended rq" "\<not> listed" "i < length (dc_standing d)"
      "usable now (dc_standing d ! i)" "covers m rq s (dc_standing d ! i) = Inr True"
      "res = (Inr (plain_decision ruling_allow approval), d\<lparr>dc_standing := spend i (dc_standing d)\<rparr>)"
  | "\<not> dc_yolo d" "\<not> rq_unattended rq" "\<not> listed" "res = (Inr (ask_with_preview m rq s why), d)"
  using assms use_standing_Some[of m now rq s "dc_standing d"]
  by (fastforce simp: rule_on_something_to_ask_about_def split: if_splits sum.splits option.splits prod.splits)

text \<open>
  A store of uses: what is left of it falls by one with every grant and by nothing else, as long as
  it stays open.
\<close>

locale budget =
  fixes grant :: "'q \<Rightarrow> 's \<Rightarrow> bool" and after :: "'q \<Rightarrow> 's \<Rightarrow> 's"
    and opened :: "'s \<Rightarrow> bool" and left :: "'s \<Rightarrow> nat"
  assumes stays_open: "opened s \<Longrightarrow> opened (after q s)"
    and spends: "opened s \<Longrightarrow> grant q s \<Longrightarrow> Suc (left (after q s)) = left s"
    and keeps: "opened s \<Longrightarrow> \<not> grant q s \<Longrightarrow> left (after q s) = left s"
begin

fun grants :: "'q list \<Rightarrow> 's \<Rightarrow> nat" where
  "grants [] s = 0"
| "grants (q # qs) s = (if grant q s then 1 else 0) + grants qs (after q s)"

lemma grants_spend: "opened s \<Longrightarrow> grants qs s + left (fold after qs s) = left s"
proof (induction qs arbitrary: s)
  case (Cons q qs)
  then show ?case using stays_open spends keeps by (cases "grant q s") fastforce+
qed simp

lemma grants_bounded: "opened s \<Longrightarrow> grants qs s \<le> left s"
  using grants_spend[of s qs] by simp

end

end
