(* ===== verification/Shipped_List.thy ===== *)
theory Shipped_List
  imports Rulebook_Globs Readable_Form Permission_Rulings
begin

text \<open>
  The ask-me-first list as it ships, and what it catches: a shell line on which some command is run
  with sudo is put to the user, however the line is put together, unless the user switched yolo on or
  answered about it before.
\<close>

section \<open>The rulebook of the shipped list\<close>

definition shipped_rules :: "rule_line list" where
  "shipped_rules = ask_rules ask_first_bulk_delete delete_patterns_by_tool
     @ ask_rules ask_first_sudo sudo_patterns @ ask_rules ask_first_spend_money spending_rules"

definition glob_rule :: "rule_line \<Rightarrow> compiled_rule" where
  "glob_rule r = \<lparr>co_rule = r, co_tool = map matcher_of (runes (ru_tool r)),
     co_pattern = map matcher_of (runes (ru_pattern r))\<rparr>"

text \<open>A rule the rulebook takes.\<close>

definition fair_glob :: "string \<Rightarrow> bool" where
  "fair_glob p \<longleftrightarrow> trim_space p \<noteq> [] \<and> valid_utf8 p \<and> length (runes p) \<le> max_pattern_runes"

definition fair_rule :: "rule_line \<Rightarrow> bool" where
  "fair_rule r \<longleftrightarrow> fair_glob (ru_tool r) \<and> fair_glob (ru_pattern r) \<and> known_action (ru_action r)"

lemma compile_fair_rule: "fair_rule r \<Longrightarrow> compile_rule r = Inr (glob_rule r)"
  by (simp add: fair_rule_def fair_glob_def compile_rule_def compile_pattern_glob glob_rule_def)

lemma each_in_turn_map:
  "\<forall>x \<in> set xs. f x = Inr (g x) \<Longrightarrow>
     each_in_turn (\<lambda>book x. and_then (f x) (\<lambda>c. Inr (book @ [c]))) book xs = Inr (book @ map g xs)"
  by (induction xs arbitrary: book) simp_all

lemma new_rulebook_fair:
  "list_all fair_rule rules \<Longrightarrow> length rules \<le> max_rules \<Longrightarrow> new_rulebook rules = Inr (map glob_rule rules)"
  by (simp add: new_rulebook_def list_all_iff compile_fair_rule each_in_turn_map[where g = glob_rule])

text \<open>The patterns are ASCII, which is quickly UTF-8.\<close>

definition quickly_fair :: "string \<Rightarrow> bool" where
  "quickly_fair p \<longleftrightarrow> p \<noteq> [] \<and> 32 < byte (hd p) \<and> list_all (\<lambda>c. byte c < 127) p
     \<and> length p \<le> max_pattern_runes"

lemma quickly_fair_glob:
  assumes "quickly_fair p" shows "fair_glob p"
proof -
  have ascii: "\<forall>c \<in> set p. byte c < 128" using assms by (auto simp: quickly_fair_def list_all_iff)
  have "hd p \<in> set p" "32 < byte (hd p)" "byte (hd p) < 127"
    using assms by (auto simp: quickly_fair_def list_all_iff)
  then have "hd p \<in> set p" "\<not> is_space (byte (hd p))" by (simp_all add: is_space_def)
  with ascii have "trim_space p \<noteq> []" by (intro trim_space_not_Nil[of "hd p"]) auto
  moreover have "valid_utf8 p" using ascii by (rule valid_utf8_ascii)
  ultimately show ?thesis using assms length_runes_le[of p] by (simp add: fair_glob_def quickly_fair_def)
qed

lemma shipped_rules_quickly:
  "list_all (\<lambda>r. quickly_fair (ru_tool r) \<and> quickly_fair (ru_pattern r)) shipped_rules"
  by (simp add: shipped_rules_def ask_rules_def delete_patterns_by_tool_def sudo_patterns_def
      sudo_program_def spending_rules_def spending_words_def spending_tools_def plain_rule_def tool_names
      quickly_fair_def max_pattern_runes_def)

lemma shipped_rules_ask:
  "r \<in> set shipped_rules \<Longrightarrow> ru_action r = ruling_ask \<and> ru_from_the_ask_me_first_list r"
  by (auto simp: shipped_rules_def ask_rules_def)

lemma shipped_rules_fair: "list_all fair_rule shipped_rules"
  using shipped_rules_quickly shipped_rules_ask
  by (auto simp: list_all_iff fair_rule_def known_action_def intro: quickly_fair_glob)

definition shipped_decider :: decider where
  "shipped_decider = \<lparr>dc_book = map glob_rule shipped_rules, dc_remembered = [], dc_standing = [], dc_yolo = False\<rparr>"

lemma shipped_names: "rules_for_ask_me_first default_ask_me_first = Inr shipped_rules"
  by (simp add: rules_for_ask_me_first_def default_ask_me_first_def shipped_ask_me_first_entries_def
      shipped_rules_def ask_first_bulk_delete_def ask_first_sudo_def ask_first_spend_money_def)

lemma shipped_is_new: "new_decider True default_ask_me_first [] = Inr shipped_decider"
proof -
  have "length shipped_rules \<le> max_rules"
    by (simp add: shipped_rules_def ask_rules_def delete_patterns_by_tool_def sudo_patterns_def
        spending_rules_def spending_words_def spending_tools_def max_rules_def)
  with shipped_rules_fair show ?thesis
    by (simp add: new_decider_def shipped_names rules_from_configuration_def new_rulebook_fair
        shipped_decider_def)
qed

text \<open>Every rule of it asks, and is on the list.\<close>

lemma match_rules_cases:
  "match_rules m book tool forms = None \<and> list_all (\<lambda>c. \<not> rule_covers m tool forms c) book
   \<or> (\<exists>c \<in> set book. rule_covers m tool forms c \<and> match_rules m book tool forms = Some (co_rule c))"
  unfolding match_rules_def by (induction book rule: rev_induct) auto

definition ships_with :: "decider \<Rightarrow> bool" where
  "ships_with d \<longleftrightarrow> dc_book d = map glob_rule shipped_rules"

lemma shipped_match:
  assumes "ships_with d" "matched_rule m d rq = Some r"
  shows "ru_action r = ruling_ask \<and> ru_from_the_ask_me_first_list r"
proof -
  have "\<exists>c \<in> set (dc_book d). co_rule c = r"
    using match_rules_cases[of m "dc_book d" "rq_tool_name rq"
        "forms_to_match_on (rq_tool_name rq) (reduce m rq)"] assms(2)
    by (auto simp: matched_rule_def)
  then have "r \<in> set shipped_rules" using assms(1) by (auto simp: ships_with_def glob_rule_def)
  then show ?thesis by (rule shipped_rules_ask)
qed

lemma shipped_needs_a_yes:
  assumes "ships_with d"
    and "form_note m rq \<noteq> [] \<and> \<not> command_only_reads m rq \<or>
      (\<exists>r \<in> set shipped_rules. rule_covers m (rq_tool_name rq)
         (forms_to_match_on (rq_tool_name rq) (reduce m rq)) (glob_rule r))"
  shows "needs_a_yes m d rq \<and> \<not> refused_by_rule m d rq"
proof (cases "matched_rule m d rq")
  case None
  then have "\<not> (\<exists>r \<in> set shipped_rules. rule_covers m (rq_tool_name rq)
      (forms_to_match_on (rq_tool_name rq) (reduce m rq)) (glob_rule r))"
    using match_rules_cases[of m "dc_book d" "rq_tool_name rq"
        "forms_to_match_on (rq_tool_name rq) (reduce m rq)"] assms(1)
    by (auto simp: matched_rule_def ships_with_def list_all_iff)
  with None assms(2) show ?thesis by (simp add: needs_a_yes_def refused_by_rule_def)
next
  case (Some r)
  with shipped_match[OF assms(1) Some] show ?thesis by (simp add: needs_a_yes_def refused_by_rule_def)
qed

text \<open>A call that needs a yes, with nobody who gave it, is asked about or stopped.\<close>

definition yes_not_given :: "machine \<Rightarrow> decider \<Rightarrow> permission_request \<Rightarrow> bool" where
  "yes_not_given m d rq \<longleftrightarrow> \<not> dc_yolo d \<and> dc_standing d = [] \<and> earlier_answer m d rq = None"

lemma yes_not_given_rules:
  assumes "needs_a_yes m d rq" "\<not> refused_by_rule m d rq" "yes_not_given m d rq"
  shows "\<exists>dec. decide m now False rq d = (Inr dec, d)
    \<and> pd_ruling dec = (if rq_unattended rq then ruling_stop else ruling_ask)"
  using assms
  by (simp add: decide_asked_about yes_not_given_def rule_on_something_to_ask_about_def)

section \<open>Globs over a form\<close>

definition plain_runes :: "nat list \<Rightarrow> bool" where
  "plain_runes ps \<longleftrightarrow> 42 \<notin> set ps \<and> 63 \<notin> set ps"

lemma glob_plain: "plain_runes ps \<Longrightarrow> glob m qs rs \<Longrightarrow> glob m (ps @ qs) (ps @ rs)"
  by (induction ps) (auto simp: plain_runes_def)

lemma glob_run: "glob m ps rs \<Longrightarrow> glob m (42 # ps) (run @ rs)"
  by auto

lemma glob_end [simp]: "glob m [42] rs"
  by simp

lemma rule_covers_glob:
  "rule_covers m tool forms (glob_rule r) \<longleftrightarrow>
     glob m (runes (ru_tool r)) (runes tool) \<and> (\<exists>f \<in> set forms. glob m (runes (ru_pattern r)) (runes f))"
  by (simp add: rule_covers_def glob_rule_def match_string_glob list_ex_iff)

lemma shell_tool_matches: "glob m (runes tool_shell) (runes tool_shell)"
  by (simp add: tool_shell_def)

section \<open>Sudo\<close>

text \<open>A text that starts with the word, or has it after a space.\<close>

definition names_sudo :: "string \<Rightarrow> bool" where
  "names_sudo s \<longleftrightarrow> (\<exists>b. s = sudo_program @ b) \<or> (\<exists>a b. s = a @ '' '' @ sudo_program @ b)"

lemma wrapper_rounds_keeps: "wrapper_rounds u n kept ws = (k, vs, said) \<Longrightarrow> \<exists>x. k = kept @ x"
  by (induction u n kept ws arbitrary: k vs said rule: wrapper_rounds.induct)
    (fastforce split: list.splits option.splits if_splits)+

lemma past_sudo:
  assumes "program_name p = sudo_program" "past_the_wrappers u (p # rest) = (k, vs, said)"
  shows "\<exists>x. k = sudo_program @ '' '' @ x"
proof -
  have "wrapper_rounds u 3 (sudo_program @ '' '') (without_environment_assignments u (without_sudo_flags rest))
      = (k, vs, said)"
    using assms by (simp add: past_the_wrappers_def max_wrappers_def eval_nat_numeral)
  then show ?thesis using wrapper_rounds_keeps by fastforce
qed

lemma trim_keeps_start: "\<exists>z. trim_space (sudo_program @ y) = sudo_program @ z"
proof -
  let ?o = "\<lambda>(r, _). is_space r"
  let ?w = "[(115, ''s''), (117, ''u''), (100, ''d''), (111, ''o'')] :: (nat \<times> string) list"
  have chunks: "rune_chunks (sudo_program @ y) = ?w @ rune_chunks y"
    by (simp add: sudo_program_def)
  have start: "dropWhile ?o (?w @ cs) = ?w @ cs" for cs by (simp add: is_space_def)
  obtain ds where "dropWhile ?o (rev (rune_chunks y) @ rev ?w) = ds @ rev ?w"
    using dropWhile_stops[of "rev ?w" ?o "rev (rune_chunks y)"] by (auto simp: is_space_def)
  then have "trim_space (sudo_program @ y) = chunk_text (?w @ rev ds)"
    unfolding trim_space_def trim_runes_def chunks start by simp
  then show ?thesis by (auto simp: sudo_program_def)
qed

lemma reduce_one_sudo:
  assumes "without_environment_assignments u words = p # rest" "program_name p = sudo_program"
  shows "\<exists>x. fst (reduce_one_command u words d) = sudo_program @ x"
proof -
  obtain k vs said where w: "past_the_wrappers u (p # rest) = (k, vs, said)" by (metis surj_pair)
  then obtain x where k: "k = sudo_program @ '' '' @ x" using past_sudo[OF assms(2)] by blast
  consider "vs = []" | "vs \<noteq> []" "script_handed_to_a_shell vs = None"
    | f s where "vs \<noteq> []" "script_handed_to_a_shell vs = Some (f, s)" by (metis option.exhaust surj_pair)
  then show ?thesis
  proof cases
    case 1
    with w assms(1) show ?thesis using trim_keeps_start[of "'' '' @ x"] k
      by (subst reduce_one_command.simps) simp
  next
    case 2
    with w assms(1) k show ?thesis by (subst reduce_one_command.simps) simp
  next
    case 3
    then show ?thesis using w assms(1) k
      by (subst reduce_one_command.simps, subst reduce_nested_shell.simps) (simp split: prod.split)
  qed
qed

lemma join_member: "x \<in> set xs \<Longrightarrow> \<exists>a b. join sep xs = a @ x @ b \<and> (a = [] \<or> (\<exists>c. a = c @ sep))"
proof (induction sep xs rule: join.induct)
  case (3 sep y z xs)
  show ?case
  proof (cases "x = y")
    case False
    with 3 obtain a b where j: "join sep (z # xs) = a @ x @ b" "a = [] \<or> (\<exists>c. a = c @ sep)" by auto
    then have "join sep (y # z # xs) = (y @ sep @ a) @ x @ b" by simp
    moreover have "\<exists>c. y @ sep @ a = c @ sep" using j(2) by (metis append.assoc append_Nil2)
    ultimately show ?thesis by blast
  qed (intro exI[of _ "[]"] exI, simp)
qed (auto intro: exI[of _ "[]"])

lemma reduce_line_sudo:
  assumes "words \<in> set (fst (command_words c))"
    "without_environment_assignments u words = p # rest" "program_name p = sudo_program"
  shows "names_sudo (fst (reduce_command_line u c d))"
proof -
  let ?parts = "filter (\<lambda>p. p \<noteq> []) (map fst (map (\<lambda>words. reduce_one_command u words d) (fst (command_words c))))"
  obtain x where x: "fst (reduce_one_command u words d) = sudo_program @ x"
    using reduce_one_sudo[OF assms(2,3)] by blast
  then have "sudo_program @ x \<in> set ?parts"
    using assms(1) by (force simp: sudo_program_def)
  then obtain a b where "join '' | '' ?parts = a @ (sudo_program @ x) @ b" "a = [] \<or> (\<exists>c. a = c @ '' | '')"
    using join_member by blast
  moreover have "fst (reduce_command_line u c d) = join '' | '' ?parts"
    by (subst reduce_command_line.simps) (simp add: Let_def)
  ultimately show ?thesis unfolding names_sudo_def
    by (metis append.assoc append_Cons append_Nil)
qed

abbreviation sudo_runes :: "nat list" where "sudo_runes \<equiv> [115, 117, 100, 111]"

lemma sudo_text: "runes (sudo_program @ y) = sudo_runes @ runes y"
  by (simp add: sudo_program_def)

lemma tidy_names_sudo:
  assumes "names_sudo s"
  shows "(\<exists>b. tidy_runes s = sudo_runes @ b) \<or> (\<exists>a b. tidy_runes s = a @ 32 # sudo_runes @ b)"
proof -
  have flat: "map flat_rune sudo_runes = sudo_runes" by (simp add: flat_rune_def is_control_def)
  have word: "\<exists>v ws. words_of_runes (sudo_runes @ ys) = (sudo_runes @ v) # ws" for ys
    by (rule words_of_runes_word) (simp_all add: is_space_def)
  have first: "\<exists>b. spaced ((sudo_runes @ v) # ws) = sudo_runes @ b" for v ws by (cases ws) simp_all
  from assms consider b where "s = sudo_program @ b" | a b where "s = a @ '' '' @ sudo_program @ b"
    unfolding names_sudo_def by blast
  then show ?thesis
  proof cases
    case 1
    then have "map flat_rune (runes s) = sudo_runes @ map flat_rune (runes b)"
      using flat by (simp add: sudo_text del: append_Cons)
    then show ?thesis using word first unfolding tidy_runes_def by metis
  next
    case 2
    have "runes s = runes a @ 32 # sudo_runes @ runes b"
      using 2 rune_chunks_append_ascii[of "CHR '' ''" a "sudo_program @ b"] sudo_text[of b]
      by (simp add: runes_def)
    then have flat2: "map flat_rune (runes s) = map flat_rune (runes a) @ 32 # sudo_runes @ map flat_rune (runes b)"
      using flat by (simp add: flat_rune_def[of 32] is_control_def del: append_Cons)
    obtain v ws where w: "words_of_runes (sudo_runes @ map flat_rune (runes b)) = (sudo_runes @ v) # ws"
      using word by blast
    let ?as = "words_of_runes (map flat_rune (runes a))"
    have all: "words_of_runes (map flat_rune (runes s)) = ?as @ (sudo_runes @ v) # ws"
      unfolding flat2 by (simp only: words_of_runes_append_space[OF is_space_space] w)
    show ?thesis
    proof (cases "?as = []")
      case True
      with all first show ?thesis unfolding tidy_runes_def by (metis append_Nil)
    next
      case False
      then have "tidy_runes s = spaced ?as @ 32 # spaced ((sudo_runes @ v) # ws)"
        unfolding tidy_runes_def all by (intro spaced_append) simp_all
      with first show ?thesis by metis
    qed
  qed
qed

lemma sudo_rules_catch:
  assumes "(\<exists>b. runes form = sudo_runes @ b) \<or> (\<exists>a b. runes form = a @ 32 # sudo_runes @ b)" "form \<in> set forms"
  shows "\<exists>r \<in> set shipped_rules. rule_covers m tool_shell forms (glob_rule r)"
proof -
  let ?r = "\<lambda>p. \<lparr>ru_tool = tool_shell, ru_pattern = p, ru_action = ruling_ask, ru_reason = ask_first_sudo,
    ru_from_the_ask_me_first_list = True\<rparr>"
  have listed: "?r (sudo_program @ ''*'') \<in> set shipped_rules" "?r (''* '' @ sudo_program @ ''*'') \<in> set shipped_rules"
    by (simp_all add: shipped_rules_def ask_rules_def sudo_patterns_def plain_rule_def)
  have plain: "plain_runes sudo_runes" "plain_runes (32 # sudo_runes)" by (simp_all add: plain_runes_def)
  have start: "glob m (runes (sudo_program @ ''*'')) (sudo_runes @ b)" for b
    using glob_plain[OF plain(1) glob_end, of m b] by (simp only: sudo_text) simp
  have inside: "glob m (runes (''* '' @ sudo_program @ ''*'')) (a @ 32 # sudo_runes @ b)" for a b
    using glob_run[OF glob_plain[OF plain(2) glob_end, of m b], of a] sudo_text[of "''*''"] by simp
  from assms(1) show ?thesis
  proof (elim disjE exE)
    fix b assume "runes form = sudo_runes @ b"
    with start[of b] assms(2) have "\<exists>f \<in> set forms. glob m (runes (sudo_program @ ''*'')) (runes f)"
      by (metis (no_types))
    then show ?thesis
      by (intro bexI[OF _ listed(1)]) (simp only: rule_covers_glob rule_line.simps shell_tool_matches simp_thms)
  next
    fix a b assume "runes form = a @ 32 # sudo_runes @ b"
    with inside[of a b] assms(2) have "\<exists>f \<in> set forms. glob m (runes (''* '' @ sudo_program @ ''*'')) (runes f)"
      by (metis (no_types))
    then show ?thesis
      by (intro bexI[OF _ listed(2)]) (simp only: rule_covers_glob rule_line.simps shell_tool_matches simp_thms)
  qed
qed

text \<open>A line on which a command is run with sudo.\<close>

definition runs_sudo :: "unicode_tables \<Rightarrow> string \<Rightarrow> bool" where
  "runs_sudo u c \<longleftrightarrow> list_ex (\<lambda>words. case without_environment_assignments u words of
     [] \<Rightarrow> False | p # _ \<Rightarrow> program_name p = sudo_program) (fst (command_words c))"

lemma runs_sudo_words:
  "runs_sudo u c \<Longrightarrow> \<exists>words p rest. words \<in> set (fst (command_words c))
     \<and> without_environment_assignments u words = p # rest \<and> program_name p = sudo_program"
  unfolding runs_sudo_def list_ex_iff by (elim bexE) (simp split: list.splits, blast)

lemma sudo_is_no_reader:
  assumes "runs_sudo (ma_unicode m) c" "string_field (read_fields (rq_input rq)) ''command'' = Some c"
  shows "\<not> command_only_reads m rq"
proof
  assume reads: "command_only_reads m rq"
  obtain words p rest where w: "words \<in> set (fst (command_words c))"
    "without_environment_assignments (ma_unicode m) words = p # rest" "program_name p = sudo_program"
    using runs_sudo_words[OF assms(1)] by blast
  from reads assms(2) have "command_text_only_reads (ma_unicode m) c"
    by (simp add: command_only_reads_def split: if_splits)
  with w(1) have "one_command_only_reads (ma_unicode m) words" by (rule text_only_reads_segments[rotated])
  with w(2,3) show False
    using only_reads_reader[of "ma_unicode m" words]
    by (simp add: reader_of_def reader_programs_def sudo_program_def)
qed

lemma sudo_needs_a_yes:
  assumes "ships_with d" "rq_tool_name rq = tool_shell"
    "string_field (read_fields (rq_input rq)) ''command'' = Some c" "runs_sudo (ma_unicode m) c"
  shows "needs_a_yes m d rq \<and> \<not> refused_by_rule m d rq"
proof -
  obtain words p rest where w: "words \<in> set (fst (command_words c))"
    "without_environment_assignments (ma_unicode m) words = p # rest" "program_name p = sudo_program"
    using runs_sudo_words[OF assms(4)] by blast
  obtain line said where s: "reduce_shell_call m rq = (line, said)" by force
  have line: "names_sudo line"
  proof (cases "bool_field (read_fields (rq_input rq)) ''escalate''")
    case True
    then have "line = trim_space (sudo_program @ '' '' @ fst (reduce_command_line (ma_unicode m) c 0))"
      using s assms(3) by (auto simp: reduce_shell_call_def Let_def split: prod.splits)
    then show ?thesis using trim_keeps_start unfolding names_sudo_def by metis
  next
    case False
    then have "line = fst (reduce_command_line (ma_unicode m) c 0)"
      using s assms(3) by (auto simp: reduce_shell_call_def Let_def split: prod.splits)
    then show ?thesis using reduce_line_sudo[OF w] by simp
  qed
  have call: "one_line line said = (reduce m rq, form_note m rq)"
    using s assms(2) reduce_call_parts[of m rq] by (simp add: reduce_call_def)
  have said: "said = [] \<or> said \<in> set known_notes" using reduce_shell_note[of m rq] s by simp
  show ?thesis
  proof (rule shipped_needs_a_yes[OF assms(1)])
    show "form_note m rq \<noteq> [] \<and> \<not> command_only_reads m rq \<or>
      (\<exists>r \<in> set shipped_rules. rule_covers m (rq_tool_name rq)
         (forms_to_match_on (rq_tool_name rq) (reduce m rq)) (glob_rule r))"
    proof (cases "form_note m rq = []")
      case True
      obtain fs where fs: "reduce m rq = text_of_runes fs" "fair_runes fs" "fs = tidy_runes line"
        using one_line_form[OF said call] True by blast
      then have "runes (reduce m rq) = tidy_runes line" by (simp add: runes_text_of_runes fair_scalar)
      then show ?thesis using tidy_names_sudo[OF line]
        by (intro disjI2, unfold assms(2), intro sudo_rules_catch[of "reduce m rq"])
          (simp_all add: forms_to_match_on_def)
    next
      case False
      with sudo_is_no_reader[OF assms(4,3)] show ?thesis by simp
    qed
  qed
qed

end
