(* ===== verification/Permission_Session.thy ===== *)
theory Permission_Session
  imports Permission_Rulings Readable_Form
begin

text \<open>
  A session of the permission function: any calls of its operations in any order, from the state
  \<open>New\<close> builds. What every state of a session keeps is \<open>sound_decider\<close>; each standing approval
  is a budget of its own.
\<close>

section \<open>Sessions\<close>

datatype session_call =
    Decide int bool permission_request
  | Remember permission_request preview_answer string
  | Use_Yolo bool
  | Register standing_approval

fun after_call :: "machine \<Rightarrow> session_call \<Rightarrow> decider \<Rightarrow> decider" where
  "after_call m (Decide now stopped rq) d = snd (decide m now stopped rq d)"
| "after_call m (Remember rq answer reason) d = snd (remember m rq answer reason d)"
| "after_call m (Use_Yolo on) d = use_yolo on d"
| "after_call m (Register approval) d = snd (register_standing_approval m approval d)"

definition session :: "machine \<Rightarrow> session_call list \<Rightarrow> decider \<Rightarrow> decider" where
  "session m calls d = fold (after_call m) calls d"

text \<open>What a call may do to the state: the ways it ends, in one case distinction.\<close>

lemma decide_state:
  assumes run: "decide m now stopped rq d = res"
  shows "snd res = d \<or>
   (\<exists>i < length (dc_standing d). usable now (dc_standing d ! i)
      \<and> covers m rq (reduce m rq) (dc_standing d ! i) = Inr True
      \<and> \<not> rq_unattended rq \<and> \<not> on_the_list m d rq \<and> needs_a_yes m d rq
      \<and> snd res = d\<lparr>dc_standing := spend i (dc_standing d)\<rparr>)"
  using run
proof (cases rule: decide_cases)
  case asked
  note yes = asked(4)
  from asked(5)[symmetric] show ?thesis
  proof (cases rule: ask_about_cases)
    case (approval i why)
    with yes show ?thesis by (intro disjI2 exI[of _ i]) simp
  qed simp_all
qed simp_all

lemmas after_decide = decide_state[OF refl]

lemma after_remember:
  "snd (remember m rq answer reason d) = d \<or>
   (\<exists>a. snd (remember m rq answer reason d) =
      d\<lparr>dc_remembered := AList.update (remembered_key (rq_tool_name rq) (reduce m rq)) a (dc_remembered d)\<rparr>
    \<and> ra_ruling a \<in> {ruling_allow, ruling_deny}
    \<and> (map_of (dc_remembered d) (remembered_key (rq_tool_name rq) (reduce m rq)) \<noteq> None
       \<or> length (dc_remembered d) < max_remembered_answers))"
  by (auto simp: remember_def ruling_for_answer_def Let_def)

lemma after_register:
  "snd (register_standing_approval m approval d) = d \<or>
   (\<exists>held. compile_standing_approval m approval = Inr held \<and> length (dc_standing d) < max_standing_approvals
      \<and> snd (register_standing_approval m approval d) = d\<lparr>dc_standing := dc_standing d @ [held]\<rparr>)"
  by (auto simp: register_standing_approval_def split: sum.splits)

section \<open>What an answer is filed under\<close>

lemma remembered_keys_apart:
  assumes "remembered_key t (reduce m rq) = remembered_key t' (reduce m' rq')"
  shows "t = t' \<and> reduce m rq = reduce m' rq'"
proof -
  have none: "CHR 0x00 \<notin> set (reduce m q)" for m q using reduce_no_control[of "CHR 0x00" m q] by auto
  let ?w = "takeWhile (\<lambda>c. c \<noteq> CHR 0x00)"
  have "?w (rev (remembered_key t (reduce m rq))) = rev (reduce m rq)"
    "?w (rev (remembered_key t' (reduce m' rq'))) = rev (reduce m' rq')"
    unfolding remembered_key_def using none[of m rq] none[of m' rq']
    by (auto simp: takeWhile_append2 takeWhile_tail)
  with assms have "reduce m rq = reduce m' rq'" by (metis rev_rev_ident)
  with assms show ?thesis by (simp add: remembered_key_def)
qed

text \<open>A ruling depends on the state only through these parts of it.\<close>

lemma decide_depends_on:
  assumes "earlier_answer m d' rq = earlier_answer m d rq" "dc_book d' = dc_book d"
    "dc_standing d' = dc_standing d" "dc_yolo d' = dc_yolo d"
  shows "fst (decide m now stopped rq d') = fst (decide m now stopped rq d)"
proof -
  have same: "fst (rule_on_something_to_ask_about m now rq s why listed d') =
      fst (rule_on_something_to_ask_about m now rq s why listed d)" for s why listed
    using assms(3,4)
    by (auto simp: rule_on_something_to_ask_about_def split: sum.split option.split prod.split)
  have "answer_already_given d' (rq_tool_name rq) (reduce m rq) = answer_already_given d (rq_tool_name rq) (reduce m rq)"
    using assms(1) by (simp add: earlier_answer_def)
  then show ?thesis
    by (auto simp: decide_def reduce_call_parts assms(2) same Let_def split: option.split)
qed

section \<open>What every state keeps\<close>

definition sound_approval :: "held_approval \<Rightarrow> bool" where
  "sound_approval h \<longleftrightarrow> 0 \<le> ha_used h \<and> ha_used h \<le> sa_limit (ha_approval h)
     \<and> 0 < sa_limit (ha_approval h) \<and> sa_expires (ha_approval h) \<noteq> 0"

definition sound_decider :: "decider \<Rightarrow> bool" where
  "sound_decider d \<longleftrightarrow>
     distinct (map fst (dc_remembered d)) \<and> length (dc_remembered d) \<le> max_remembered_answers \<and>
     list_all (\<lambda>p. ra_ruling (snd p) \<in> {ruling_allow, ruling_deny}) (dc_remembered d) \<and>
     length (dc_standing d) \<le> max_standing_approvals \<and> list_all sound_approval (dc_standing d)"

lemma compiled_is_sound: "compile_standing_approval m a = Inr h \<Longrightarrow> sound_approval h \<and> ha_used h = 0"
  by (auto simp: compile_standing_approval_def sound_approval_def with_the_host_folded_def and_then_Inr_iff
      split: if_splits)

lemma spend_sound:
  "list_all sound_approval hs \<Longrightarrow> i < length hs \<Longrightarrow> usable now (hs ! i) \<Longrightarrow> list_all sound_approval (spend i hs)"
  unfolding spend_def list_all_length
  by (auto simp: nth_list_update sound_approval_def usable_def)

lemma update_length:
  "length (AList.update k v al) \<le> (if map_of al k = None then Suc (length al) else length al)"
  by (induction al) auto

lemma update_all: "list_all P al \<Longrightarrow> P (k, v) \<Longrightarrow> list_all P (AList.update k v al)"
  by (induction al) auto

lemma sound_after: "sound_decider d \<Longrightarrow> sound_decider (after_call m c d)"
proof (cases c)
  case (Decide now stopped rq)
  assume "sound_decider d"
  with after_decide[of m now stopped rq d] Decide show ?thesis
    by (auto simp: sound_decider_def spend_def intro: spend_sound[unfolded spend_def])
next
  case (Remember rq answer reason)
  let ?k = "remembered_key (rq_tool_name rq) (reduce m rq)"
  assume d: "sound_decider d"
  show ?thesis
  proof (cases "after_call m c d = d")
    case False
    with after_remember[of m rq answer reason d] Remember obtain a where a:
      "after_call m c d = d\<lparr>dc_remembered := AList.update ?k a (dc_remembered d)\<rparr>"
      "ra_ruling a \<in> {ruling_allow, ruling_deny}"
      "map_of (dc_remembered d) ?k \<noteq> None \<or> length (dc_remembered d) < max_remembered_answers" by auto
    have "length (AList.update ?k a (dc_remembered d)) \<le> max_remembered_answers"
      using update_length[of ?k a "dc_remembered d"] a(3) d by (auto simp: sound_decider_def split: if_splits)
    with d a show ?thesis
      by (auto simp: sound_decider_def distinct_update intro!: update_all)
  qed (simp add: d)
next
  case (Register a)
  assume "sound_decider d"
  with after_register[of m a d] Register show ?thesis
    by (auto simp: sound_decider_def dest: compiled_is_sound)
qed (simp add: sound_decider_def use_yolo_def)

lemma new_decider_parts:
  "new_decider has_clock names written = Inr d \<Longrightarrow>
     dc_remembered d = [] \<and> dc_standing d = [] \<and> \<not> dc_yolo d"
  by (auto simp: new_decider_def and_then_Inr_iff split: if_splits)

lemma new_decider_sound: "new_decider has_clock names written = Inr d \<Longrightarrow> sound_decider d"
  by (drule new_decider_parts) (simp add: sound_decider_def)

lemma session_sound: "sound_decider d \<Longrightarrow> sound_decider (session m calls d)"
  by (induction calls arbitrary: d) (auto simp: session_def sound_after)

section \<open>Each standing approval is a budget\<close>

definition uses_left :: "nat \<Rightarrow> decider \<Rightarrow> nat" where
  "uses_left i d = nat (sa_limit (ha_approval (dc_standing d ! i)) - ha_used (dc_standing d ! i))"

text \<open>A call that uses the approval at one place of the list.\<close>

definition uses_approval :: "machine \<Rightarrow> nat \<Rightarrow> session_call \<Rightarrow> decider \<Rightarrow> bool" where
  "uses_approval m i c d \<longleftrightarrow> ha_used (dc_standing (after_call m c d) ! i) \<noteq> ha_used (dc_standing d ! i)"

definition holds_approval :: "nat \<Rightarrow> decider \<Rightarrow> bool" where
  "holds_approval i d \<longleftrightarrow> i < length (dc_standing d)"

lemma spend_at:
  "i < length hs \<Longrightarrow> j < length hs \<Longrightarrow>
     spend j hs ! i = (if i = j then (hs ! i)\<lparr>ha_used := ha_used (hs ! i) + 1\<rparr> else hs ! i)"
  by (auto simp: spend_def)

lemma after_approval:
  assumes "holds_approval i d"
  shows "dc_standing (after_call m c d) ! i = dc_standing d ! i \<or>
    (\<exists>now stopped rq. c = Decide now stopped rq \<and> usable now (dc_standing d ! i)
      \<and> covers m rq (reduce m rq) (dc_standing d ! i) = Inr True
      \<and> \<not> rq_unattended rq \<and> \<not> on_the_list m d rq \<and> needs_a_yes m d rq
      \<and> dc_standing (after_call m c d) ! i =
          (dc_standing d ! i)\<lparr>ha_used := ha_used (dc_standing d ! i) + 1\<rparr>)"
proof (cases c)
  case (Decide now stopped rq)
  from after_decide[of m now stopped rq d] show ?thesis
  proof (elim disjE exE conjE)
    fix j
    assume j: "j < length (dc_standing d)"
      "snd (decide m now stopped rq d) = d\<lparr>dc_standing := spend j (dc_standing d)\<rparr>"
      "usable now (dc_standing d ! j)" "covers m rq (reduce m rq) (dc_standing d ! j) = Inr True"
      "\<not> rq_unattended rq" "\<not> on_the_list m d rq" "needs_a_yes m d rq"
    with assms Decide show ?thesis by (cases "i = j") (auto simp: holds_approval_def spend_at)
  qed (simp add: Decide)
next
  case (Remember rq answer reason)
  then show ?thesis using after_remember[of m rq answer reason d] by auto
next
  case (Register a)
  then show ?thesis using after_register[of m a d] assms by (auto simp: holds_approval_def nth_append)
qed (simp add: use_yolo_def)

lemma holds_approval_after: "holds_approval i d \<Longrightarrow> holds_approval i (after_call m c d)"
proof (cases c)
  case (Decide now stopped rq)
  assume "holds_approval i d"
  then show ?thesis using after_decide[of m now stopped rq d] Decide
    by (auto simp: holds_approval_def spend_def)
next
  case (Remember rq answer reason)
  assume "holds_approval i d"
  then show ?thesis using after_remember[of m rq answer reason d] Remember by (auto simp: holds_approval_def)
next
  case (Register a)
  assume "holds_approval i d"
  then show ?thesis using after_register[of m a d] Register by (auto simp: holds_approval_def)
qed (simp add: holds_approval_def use_yolo_def)

interpretation approval_budget: budget "uses_approval m i" "after_call m" "holds_approval i" "uses_left i" for m i
proof unfold_locales
  fix q d
  show "holds_approval i d \<Longrightarrow> holds_approval i (after_call m q d)" by (rule holds_approval_after)
  show "holds_approval i d \<Longrightarrow> uses_approval m i q d \<Longrightarrow> Suc (uses_left i (after_call m q d)) = uses_left i d"
    using after_approval[of i d m q] by (auto simp: uses_approval_def uses_left_def usable_def)
  show "holds_approval i d \<Longrightarrow> \<not> uses_approval m i q d \<Longrightarrow> uses_left i (after_call m q d) = uses_left i d"
    using after_approval[of i d m q] by (auto simp: uses_approval_def uses_left_def)
qed

text \<open>The uses of one approval in a session, counted.\<close>

fun times_used :: "machine \<Rightarrow> nat \<Rightarrow> session_call list \<Rightarrow> decider \<Rightarrow> nat" where
  "times_used m i [] d = 0"
| "times_used m i (c # cs) d = (if uses_approval m i c d then 1 else 0) + times_used m i cs (after_call m c d)"

lemma times_used_grants: "times_used m i calls d = budget.grants (uses_approval m i) (after_call m) calls d"
  by (induction calls arbitrary: d) simp_all

end
