(* ===== verification/Permission_Examples.thy ===== *)
theory Permission_Examples
  imports Shipped_List Permission_Session "HOL-Library.Code_Target_Nat"
begin

text \<open>
  Concrete calls and a concrete machine, on which the properties of the permission function are shown
  to hold of something.
\<close>

definition plain_machine :: machine where
  "plain_machine = \<lparr>ma_unicode = \<lparr>u_lower = (\<lambda>r. r), u_letter = (\<lambda>_. True), u_digit = (\<lambda>_. False)\<rparr>,
     ma_fold = (\<lambda>r. r), ma_disk = (\<lambda>_. None), ma_address_host = (\<lambda>_. None),
     ma_quote = (\<lambda>s. [CHR 0x22] @ s @ [CHR 0x22])\<rparr>"

definition shell_call :: "string \<Rightarrow> permission_request" where
  \<open>shell_call command = \<lparr>rq_tool_name = tool_shell, rq_input = ''{"command":"'' @ command @ ''"}'',
     rq_command_prefix = [], rq_unattended = False\<rparr>\<close>

text \<open>A user who asks to see every push, refuses every download, and a skill that may push twice.\<close>

definition example_rules :: "config_rule list" where
  "example_rules = [\<lparr>cr_tool = tool_shell, cr_pattern = ''git push*'', cr_action = ruling_ask\<rparr>,
     \<lparr>cr_tool = tool_shell, cr_pattern = ''curl*'', cr_action = ruling_deny\<rparr>]"

definition example_decider :: decider where
  "example_decider =
     (case new_decider True [] example_rules of Inr d \<Rightarrow> d | Inl _ \<Rightarrow> shipped_decider)"

definition example_approval :: standing_approval where
  "example_approval = \<lparr>sa_skill = ''publish'', sa_host = [], sa_tools = [], sa_reduced_form = ''git push*'',
     sa_limit = 2, sa_expires = 100\<rparr>"

definition approved_decider :: decider where
  "approved_decider = session plain_machine [Register example_approval] example_decider"

lemma example_is_new: "new_decider True [] example_rules = Inr example_decider"
proof -
  have "succeeds (new_decider True [] example_rules)" by code_simp
  then show ?thesis by (auto simp: example_decider_def succeeds_iff)
qed

end
