(* ===== verification/Permission_Claims.thy ===== *)
theory Permission_Claims
  imports Permission_Examples
begin

text \<open>
  The properties of the permission function, each with a call or a session it holds of.
\<close>

section \<open>What runs without asking\<close>

text \<open>C11: a call is ruled to run only for one of these reasons: the user said always about a call that
  reads the same; it needs no yes, because its rule allows it, or no rule covers it and its form is the
  whole story or its programs only read; yolo is on; or somebody is there to answer, the call is not on
  the ask-me-first list, and a standing approval that covers it, with a use left and time left, is used
  for it. No call that a rule refuses is ever ruled to run.\<close>

theorem allowed_only_for_a_reason:
  assumes "decide m now stopped rq d = (Inr dec, d')" "pd_ruling dec = ruling_allow"
  shows "\<not> refused_by_rule m d rq \<and>
    ((\<exists>a. earlier_answer m d rq = Some a \<and> ra_ruling a = ruling_allow) \<or>
     earlier_answer m d rq = None \<and>
      (\<not> needs_a_yes m d rq \<or> dc_yolo d \<or>
       (\<not> rq_unattended rq \<and> \<not> on_the_list m d rq \<and>
        (\<exists>i < length (dc_standing d). usable now (dc_standing d ! i)
           \<and> covers m rq (reduce m rq) (dc_standing d ! i) = Inr True
           \<and> d' = d\<lparr>dc_standing := spend i (dc_standing d)\<rparr>))))"
  using assms(1)
proof (cases rule: decide_cases)
  case asked
  note known = asked(2,3)
  from asked(5)[symmetric] show ?thesis
  proof (cases rule: ask_about_cases)
    case (approval i why)
    with known show ?thesis by auto
  qed (use known assms(2) in auto)
qed (use assms(2) in auto)

theorem allowed_only_for_a_reason_witness:
  "\<exists>d'. d' = approved_decider\<lparr>dc_standing := spend 0 (dc_standing approved_decider)\<rparr>
    \<and> snd (decide plain_machine 5 False (shell_call ''git push origin'') approved_decider) = d'"
proof -
  let ?rq = "shell_call ''git push origin''"
  have "case decide plain_machine 5 False ?rq approved_decider of
      (Inl _, _) \<Rightarrow> False | (Inr dec, d') \<Rightarrow> pd_ruling dec = ruling_allow" by code_simp
  then obtain dec d' where r: "decide plain_machine 5 False ?rq approved_decider = (Inr dec, d')"
    "pd_ruling dec = ruling_allow" by (auto split: prod.splits sum.splits)
  have "earlier_answer plain_machine approved_decider ?rq = None" "needs_a_yes plain_machine approved_decider ?rq"
    "\<not> dc_yolo approved_decider" "length (dc_standing approved_decider) = 1" by code_simp+
  with allowed_only_for_a_reason[OF r] show ?thesis using r(1) by auto
qed

text \<open>Whatever is ruled is one of the four rulings; to ask is ruled only when somebody is there and
  yolo is off, to stop only when nobody is there and yolo is off; and only a ruling to run changes the
  permission function's state.\<close>

theorem rulings_fit_the_run:
  assumes "sound_decider d" "decide m now stopped rq d = (Inr dec, d')"
  shows "known_permission_ruling (pd_ruling dec)
    \<and> (pd_ruling dec = ruling_ask \<longrightarrow> \<not> rq_unattended rq \<and> \<not> dc_yolo d)
    \<and> (pd_ruling dec = ruling_stop \<longrightarrow> rq_unattended rq \<and> \<not> dc_yolo d)
    \<and> (pd_ruling dec = ruling_allow \<or> d' = d)"
  using assms(2)
proof (cases rule: decide_cases)
  case (answered a)
  then have "ra_ruling a \<in> {ruling_allow, ruling_deny}"
    using assms(1)
    by (auto simp: sound_decider_def list_all_iff earlier_answer_def answer_already_given_def
        dest!: map_of_SomeD)
  with answered show ?thesis by (auto simp: known_permission_ruling_def)
next
  case asked
  from asked(5)[symmetric] show ?thesis
    by (cases rule: ask_about_cases) (auto simp: known_permission_ruling_def)
qed (auto simp: known_permission_ruling_def)

theorem rulings_fit_the_run_witness:
  "known_permission_ruling ruling_stop \<and>
   map_sum id pd_ruling (fst (decide plain_machine 5 False
     ((shell_call ''git push origin'')\<lparr>rq_unattended := True\<rparr>) approved_decider)) = Inr ruling_stop"
proof -
  let ?rq = "(shell_call ''git push origin'')\<lparr>rq_unattended := True\<rparr>"
  have stops: "map_sum id pd_ruling (fst (decide plain_machine 5 False ?rq approved_decider)) = Inr ruling_stop"
    by code_simp
  then obtain dec d' where r: "decide plain_machine 5 False ?rq approved_decider = (Inr dec, d')"
    "pd_ruling dec = ruling_stop"
    by (cases "decide plain_machine 5 False ?rq approved_decider";
        cases "fst (decide plain_machine 5 False ?rq approved_decider)") auto
  have "sound_decider approved_decider"
    unfolding approved_decider_def by (rule session_sound[OF new_decider_sound[OF example_is_new]])
  from rulings_fit_the_run[OF this r(1)] r(2) stops show ?thesis by simp
qed

text \<open>C31: a refusal stands. A call that a rule refuses, and one the user refused in this session, is
  refused whatever standing approvals there are and whether yolo is on or off.\<close>

theorem refusals_stand:
  assumes "refused_by_rule m d rq \<or> (\<exists>a. earlier_answer m d rq = Some a \<and> ra_ruling a = ruling_deny)"
    and "d' = d\<lparr>dc_standing := held, dc_yolo := on\<rparr>"
  shows "\<exists>why. decide m now False rq d' = (Inr (plain_decision ruling_deny why), d')"
proof -
  have same: "refused_by_rule m d' rq = refused_by_rule m d rq" "earlier_answer m d' rq = earlier_answer m d rq"
    by (simp_all add: assms(2) refused_by_rule_def matched_rule_def earlier_answer_def answer_already_given_def)
  show ?thesis
  proof (cases "refused_by_rule m d rq")
    case True
    with same(1) show ?thesis using decide_refused by blast
  next
    case False
    with assms(1) obtain a where "earlier_answer m d' rq = Some a" "ra_ruling a = ruling_deny"
      using same(2) by auto
    with False same(1) show ?thesis using decide_answered[of m d' rq a now] by auto
  qed
qed

theorem refusals_stand_witness:
  "\<exists>why. decide plain_machine 5 False (shell_call ''curl x'') (use_yolo True approved_decider) =
     (Inr (plain_decision ruling_deny why), use_yolo True approved_decider)"
proof -
  have "refused_by_rule plain_machine approved_decider (shell_call ''curl x'')" by code_simp
  then show ?thesis
    using refusals_stand[where d = approved_decider and held = "dc_standing approved_decider" and on = True
        and d' = "use_yolo True approved_decider"]
    by (simp add: use_yolo_def)
qed



section \<open>Sessions\<close>

text \<open>C25: every state a session reaches is sound: at most a thousand remembered answers, one for each
  call, each of them an allow or a deny; at most a hundred standing approvals, each with a limit above
  zero that it has not gone past, and an expiry.\<close>

theorem every_session_is_sound:
  assumes "new_decider has_clock names written = Inr d"
  shows "sound_decider (session m calls d)"
  by (rule session_sound[OF new_decider_sound[OF assms]])

theorem every_session_is_sound_witness:
  "sound_decider (session plain_machine [Register example_approval, Decide 5 False (shell_call ''git push''),
     Remember (shell_call ''ls'') answer_always [], Use_Yolo True] example_decider)"
  by (rule every_session_is_sound[OF example_is_new])



text \<open>C30: an answer holds for the calls that read the same and for no other. After always, a call with
  the same tool and the same readable form runs, and after reject it is refused, unless a rule refuses
  it; and what is ruled on any other call is what it was before.\<close>

theorem an_answer_is_about_one_form:
  assumes "remember m rq answer reason d = (Inr (), d')" "answer \<noteq> answer_once"
  shows "(if rq_tool_name other = rq_tool_name rq \<and> reduce m other = reduce m rq
     then refused_by_rule m d other \<or>
       (\<exists>why. decide m now False other d' =
         (Inr (plain_decision (if answer = answer_always then ruling_allow else ruling_deny) why), d'))
     else fst (decide m now stopped other d') = fst (decide m now stopped other d))"
proof -
  let ?k = "remembered_key (rq_tool_name rq) (reduce m rq)"
  let ?a = "ruling_for_answer m answer (reduce m rq) reason"
  have d': "d' = d\<lparr>dc_remembered := AList.update ?k ?a (dc_remembered d)\<rparr>"
    using assms by (auto simp: remember_def Let_def split: if_splits)
  have refused: "refused_by_rule m d' other = refused_by_rule m d other"
    by (simp add: d' refused_by_rule_def matched_rule_def)
  show ?thesis
  proof (cases "rq_tool_name other = rq_tool_name rq \<and> reduce m other = reduce m rq")
    case True
    then have "earlier_answer m d' other = Some ?a"
      by (simp add: d' earlier_answer_def answer_already_given_def update_conv')
    then show ?thesis
      using True decide_answered[of m d' other ?a now] refused
      by (auto simp: ruling_for_answer_def split: if_splits)
  next
    case False
    then have "remembered_key (rq_tool_name other) (reduce m other) \<noteq> ?k"
      using remembered_keys_apart by blast
    then have "earlier_answer m d' other = earlier_answer m d other"
      by (simp add: d' earlier_answer_def answer_already_given_def update_conv')
    then have "fst (decide m now stopped other d') = fst (decide m now stopped other d)"
      by (rule decide_depends_on) (simp_all add: d')
    with False show ?thesis by auto
  qed
qed

theorem an_answer_is_about_one_form_witness:
  "\<exists>why d'. decide plain_machine 5 False (shell_call ''git push --force'') d' = (Inr (plain_decision ruling_deny why), d')
     \<and> dc_remembered d' \<noteq> []"
proof -
  let ?rq = "shell_call ''git push origin''" and ?other = "shell_call ''git push --force''"
  have "succeeds (fst (remember plain_machine ?rq answer_reject [] example_decider))"
    "dc_remembered (snd (remember plain_machine ?rq answer_reject [] example_decider)) \<noteq> []"
    "rq_tool_name ?other = rq_tool_name ?rq" "reduce plain_machine ?other = reduce plain_machine ?rq"
    "\<not> refused_by_rule plain_machine example_decider ?other"
    "answer_reject \<noteq> answer_once" "answer_reject \<noteq> answer_always" by code_simp+
  moreover from this(1) obtain d' where "remember plain_machine ?rq answer_reject [] example_decider = (Inr (), d')"
    by (cases "remember plain_machine ?rq answer_reject [] example_decider") (auto simp: succeeds_iff)
  ultimately show ?thesis
    using an_answer_is_about_one_form[of plain_machine ?rq answer_reject "[]" example_decider d' ?other 5] by auto
qed

section \<open>Readable forms, patterns and words\<close>

text \<open>C37: a readable form is one line of UTF-8, of at most two hundred runes and with no control
  character in it, and when it is not the whole story it ends with the note that says so.\<close>

theorem readable_form_is_one_line:
  "length (runes (reduce m rq)) \<le> max_reduced_runes \<and> list_all (\<lambda>r. \<not> is_control r) (runes (reduce m rq))
   \<and> valid_utf8 (reduce m rq)
   \<and> (form_note m rq = [] \<or> form_note m rq \<in> set known_notes \<and> suffix (form_note m rq) (reduce m rq))"
proof -
  obtain fs where fs: "reduce m rq = text_of_runes fs" "fair_runes fs" "length fs \<le> max_reduced_runes"
    "form_note m rq \<noteq> [] \<longrightarrow> form_note m rq \<in> set known_notes \<and> suffix (form_note m rq) (reduce m rq)"
    using reduce_call_form[OF reduce_call_parts] by blast
  then have "runes (reduce m rq) = fs" by (simp add: runes_text_of_runes fair_scalar)
  with fs show ?thesis by (auto simp: valid_utf8_def fair_runes_def list_all_iff)
qed

text \<open>C33: a pattern of a rule, made into a regular expression and matched without regard to capital
  letters, is the glob it is written as: a star is any run of characters, a question mark any one, and
  every other character itself.\<close>

theorem patterns_are_globs:
  assumes "valid_utf8 p" "length (runes p) \<le> max_pattern_runes"
  shows "\<exists>ms. compile_pattern p = Inr ms \<and> (\<forall>s. match_string m ms s = glob m (runes p) (runes s))"
  using compile_pattern_glob[OF assms] match_string_glob by blast

theorem patterns_are_globs_witness:
  "\<exists>ms. compile_pattern ''*RM ?[-r]*'' = Inr ms \<and> match_string plain_machine ms ''ls | rm x[-R][-v]''"
proof -
  let ?p = "''*RM ?[-r]*''"
  have p: "valid_utf8 ?p" "length (runes ?p) \<le> max_pattern_runes"
    by (simp_all add: valid_utf8_ascii max_pattern_runes_def)
  obtain ms where ms: "compile_pattern ?p = Inr ms"
    "\<forall>s. match_string plain_machine ms s = glob plain_machine (runes ?p) (runes s)"
    using patterns_are_globs[OF p] by blast
  have "case compile_pattern ?p of Inl _ \<Rightarrow> False | Inr ms \<Rightarrow> match_string plain_machine ms ''ls | rm x[-R][-v]''"
    by code_simp
  with ms show ?thesis by simp
qed

text \<open>C32: on every line of shell it has no note on, the reader with its four caps and its state finds
  the commands and words the quoting rules give: what stands between the separators and between the
  spaces that are outside quotes. On every line at all it stays within its caps.\<close>

theorem words_are_read_by_the_rules:
  "(snd (command_words line) = [] \<longrightarrow> fst (command_words line) = shell_commands line)
   \<and> length (fst (command_words line)) \<le> max_segments
   \<and> list_all segment_within_caps (fst (command_words line))"
  using command_words_within_caps[of line "fst (command_words line)" "snd (command_words line)"]
    command_words_reads[of line "fst (command_words line)"]
  by (metis prod.collapse)

theorem words_are_read_by_the_rules_witness:
  \<open>shell_commands ''ls "a b" | grep x;;'' = [[''ls'', ''a b''], [''grep'', ''x'']]\<close>
proof -
  have \<open>command_words ''ls "a b" | grep x;;'' = ([[''ls'', ''a b''], [''grep'', ''x'']], [])\<close> by code_simp
  then show ?thesis using words_are_read_by_the_rules[of \<open>''ls "a b" | grep x;;''\<close>] by simp
qed



text \<open>An approval whose host is spaces is taken, with no host and no pattern, and the first call it is
  looked at for ends in a panic.\<close>

lemma a_host_of_spaces_panics:
  "case register_standing_approval plain_machine (example_approval\<lparr>sa_host := ''  ''\<rparr>) example_decider of
     (Inr (), d) \<Rightarrow> fst (decide plain_machine 5 False (shell_call ''git push'') d) = Inl Panic_No_Pattern
   | (Inl _, _) \<Rightarrow> False"
  by code_simp

end
