(* ===== verification/Job_Schedule.thy ===== *)
theory Job_Schedule
  imports Record_Rules Job_Types
begin

text \<open>
  \<open>internal/job/schedule.go\<close>: whether a schedule can be read, when it fires next, and how far a
  failed tick pushes the next one back.
\<close>

section \<open>What the code asks of its machine\<close>

text \<open>
  The Unicode tables; SHA-256 of a text in hexadecimal; the cron library
  (\<open>github.com/robfig/cron\<close>), which reads an expression or does not and gives the moment it fires
  next in a zone after a moment, zero when there is none; whether \<open>time.LoadLocation\<close> knows a zone;
  the date a moment is on, as \<open>Format\<close> writes it in the moment's own zone; whether the JSON of a moment
  can be written (its year has four digits); how \<open>strconv.Quote\<close> writes a text; how
  \<open>Duration.String\<close> writes a length of time; and whether the kernel knows a process.
\<close>

record job_machine =
  jm_unicode :: unicode_tables
  jm_sha256 :: "string \<Rightarrow> string"
  jm_cron :: "string \<Rightarrow> (string \<Rightarrow> moment \<Rightarrow> moment) option"
  jm_zone_known :: "string \<Rightarrow> bool"
  jm_date :: "string \<Rightarrow> moment \<Rightarrow> string"
  jm_moment_written :: "moment \<Rightarrow> bool"
  jm_quote :: "string \<Rightarrow> string"
  jm_duration :: "duration \<Rightarrow> string"
  jm_process_runs :: "int \<Rightarrow> bool"

section \<open>Lengths of time\<close>

definition one_second :: duration where "one_second = 1000000000"
definition one_minute :: duration where "one_minute = 60 * one_second"
definition one_hour :: duration where "one_hour = 60 * one_minute"
definition one_day :: duration where "one_day = 24 * one_hour"

lemmas duration_defs = one_second_def one_minute_def one_hour_def one_day_def

text \<open>\<open>Time.Sub\<close> keeps to the lengths of 64 bits.\<close>

definition time_between :: "moment \<Rightarrow> moment \<Rightarrow> duration" where
  "time_between later earlier = max (- max_int - 1) (min max_int (later - earlier))"

section \<open>Reading a schedule\<close>

definition shortest_interval :: duration where "shortest_interval = one_minute"

definition backoff_steps :: "duration list" where
  "backoff_steps = [30 * one_second, 60 * one_second, 5 * one_minute, 15 * one_minute, 60 * one_minute]"

text \<open>\<open>placeOf\<close>: the zone is known by its name, the machine's own by the empty one.\<close>

definition place_of :: "job_machine \<Rightarrow> schedule \<Rightarrow> record_error + string" where
  "place_of m sc =
     (if sc_timezone sc = [] then Inr []
      else if jm_zone_known m (sc_timezone sc) then Inr (sc_timezone sc) else Inl Unnamed)"

definition check_the_schedule :: "job_machine \<Rightarrow> schedule option \<Rightarrow> record_error + unit" where
  "check_the_schedule m wanted =
     (case wanted of
        None \<Rightarrow> Inr ()
      | Some sc \<Rightarrow>
          and_then (place_of m sc) (\<lambda>_.
            if sc_kind sc = schedule_at then (if sc_at sc = 0 then Inl Unnamed else Inr ())
            else if sc_kind sc = schedule_every then
              (if sc_every sc < shortest_interval then Inl Unnamed else Inr ())
            else if sc_kind sc = schedule_cron then
              (if jm_cron m (sc_cron sc) = None then Inl Unnamed else Inr ())
            else Inl Unnamed))"

definition next_run :: "job_machine \<Rightarrow> schedule \<Rightarrow> moment \<Rightarrow> record_error + moment" where
  "next_run m sc after =
     and_then (place_of m sc) (\<lambda>place.
       if sc_kind sc = schedule_at then Inr (if \<not> after < sc_at sc then 0 else sc_at sc)
       else if sc_kind sc = schedule_every then
         (if sc_every sc < shortest_interval then Inl Unnamed else Inr (after + sc_every sc))
       else if sc_kind sc = schedule_cron then
         (case jm_cron m (sc_cron sc) of None \<Rightarrow> Inl Unnamed | Some fires \<Rightarrow> Inr (fires place after))
       else Inl Unnamed)"

section \<open>After a failure\<close>

definition next_backoff :: "int \<Rightarrow> duration" where
  "next_backoff failures =
     (if failures < 1 then 0
      else backoff_steps ! nat (min (failures - 1) (int (length backoff_steps) - 1)))"

definition after_a_failed_tick ::
  "job_machine \<Rightarrow> schedule \<Rightarrow> moment \<Rightarrow> int \<Rightarrow> record_error + moment \<times> duration" where
  "after_a_failed_tick m sc now failures =
     (let waiting = next_backoff failures in
      and_then (next_run m sc now) (\<lambda>from_schedule.
        let held = now + waiting in
        if from_schedule = 0 then Inr (0, waiting)
        else if held < from_schedule then Inr (from_schedule, waiting)
        else Inr (held, waiting)))"

section \<open>What holds of them\<close>

text \<open>A schedule that is taken can be asked for its next moment, whenever that is.\<close>

lemma checked_schedule_runs:
  "check_the_schedule m (Some sc) = Inr () \<Longrightarrow> \<exists>t. next_run m sc now = Inr t"
  by (auto simp: check_the_schedule_def next_run_def and_then_Inr_iff split: if_splits)

text \<open>\<open>Next\<close> of the cron library gives a moment after the one it is given, or none.\<close>

definition cron_moves_on :: "job_machine \<Rightarrow> bool" where
  "cron_moves_on m \<longleftrightarrow> (\<forall>e fires place t. jm_cron m e = Some fires \<longrightarrow> fires place t = 0 \<or> t < fires place t)"

lemma next_run_later:
  assumes "next_run m sc now = Inr t" "cron_moves_on m"
  shows "t = 0 \<or> now < t"
  using assms by (auto simp: next_run_def and_then_Inr_iff cron_moves_on_def shortest_interval_def
      duration_defs split: if_splits option.splits)

lemma backoff_steps_are:
  "length backoff_steps = 5 \<and> sorted backoff_steps
   \<and> list_all (\<lambda>d. 30 * one_second \<le> d \<and> d \<le> one_hour) backoff_steps"
  by (simp add: backoff_steps_def duration_defs)

lemma next_backoff_nth:
  "1 \<le> n \<Longrightarrow> nat (min (n - 1) 4) < length backoff_steps \<and>
     next_backoff n = backoff_steps ! nat (min (n - 1) 4)"
  using backoff_steps_are by (auto simp: next_backoff_def min_def)

lemma next_backoff_none: "n < 1 \<Longrightarrow> next_backoff n = 0"
  by (simp add: next_backoff_def)

lemma next_backoff_range:
  "0 \<le> next_backoff n \<and> next_backoff n \<le> one_hour \<and> (1 \<le> n \<longrightarrow> 30 * one_second \<le> next_backoff n)"
proof (cases "n < 1")
  case True
  then show ?thesis by (simp add: next_backoff_none duration_defs)
next
  case False
  then have "30 * one_second \<le> next_backoff n" "next_backoff n \<le> one_hour"
    using next_backoff_nth[of n] backoff_steps_are by (simp_all add: list_all_length)
  then show ?thesis by (simp add: one_second_def)
qed

lemma next_backoff_climbs: "a \<le> b \<Longrightarrow> next_backoff a \<le> next_backoff b"
proof (cases "a < 1")
  case True
  then show ?thesis using next_backoff_range[of b] by (simp add: next_backoff_none)
next
  case False
  assume "a \<le> b"
  then have "nat (min (a - 1) 4) \<le> nat (min (b - 1) 4)" using False by (intro nat_mono) simp
  then have "backoff_steps ! nat (min (a - 1) 4) \<le> backoff_steps ! nat (min (b - 1) 4)"
    using backoff_steps_are next_backoff_nth[of b] False \<open>a \<le> b\<close> by (intro sorted_nth_mono) simp_all
  then show ?thesis using next_backoff_nth[of a] next_backoff_nth[of b] False \<open>a \<le> b\<close> by simp
qed

text \<open>After a failed tick the next one is on the schedule, or held back from it, and never before it.\<close>

lemma after_a_failed_tick_is:
  assumes "next_run m sc now = Inr f"
  shows "after_a_failed_tick m sc now n =
    Inr (if f = 0 then 0 else max f (now + next_backoff n), next_backoff n)"
  using assms by (simp add: after_a_failed_tick_def Let_def max_def)

end
