(* ===== verification/Job_Claims.thy ===== *)
theory Job_Claims
  imports Job_Schedule "HOL-Library.Char_ord" "HOL-Library.List_Lexorder" "HOL-Library.Product_Lexorder"
begin

text \<open>
  \<open>internal/job/claims.go\<close>: the table of claims, one row for each task that some process is running,
  shared by every process that opens the file. Each statement is one step on the table. Whether the
  database answers is outside the sources: each statement takes the next entry of a script, as in
  \<open>Event_Log\<close>, and a refused one changes nothing. The table holds its moments as texts of a fixed
  width in one zone, which compare as the moments do; the model keeps the moments.
\<close>

section \<open>The table\<close>

record claim_row =
  cr_job :: string
  cr_task :: string
  cr_owner :: string
  cr_taken :: moment
  cr_deadline :: moment

record claims_table =
  ct_rows :: "claim_row list"
  ct_answers :: "bool list"

definition table_answers :: "claims_table \<Rightarrow> bool" where
  "table_answers ct \<longleftrightarrow> ct_answers ct = [] \<or> hd (ct_answers ct)"

definition one_statement_later :: "claims_table \<Rightarrow> claims_table" where
  "one_statement_later ct = ct\<lparr>ct_answers := tl (ct_answers ct)\<rparr>"

definition task_budget :: duration where "task_budget = one_hour"

definition owner_prefix :: string where "owner_prefix = ''process ''"

definition this_process :: "int \<Rightarrow> string" where
  "this_process pid = owner_prefix @ itoa pid"

definition claims_on :: "string \<Rightarrow> string \<Rightarrow> claim_row \<Rightarrow> bool" where
  "claims_on job task c \<longleftrightarrow> cr_job c = job \<and> cr_task c = task"

section \<open>The statements\<close>

text \<open>A statement that changes the table, or asks it, when the database answers.\<close>

definition statement :: "(claims_table \<Rightarrow> 'a \<times> claim_row list) \<Rightarrow> claims_table \<Rightarrow> (record_error + 'a) \<times> claims_table"
where
  "statement st ct =
     (if table_answers ct
      then (case st ct of (answer, rows) \<Rightarrow> (Inr answer, (one_statement_later ct)\<lparr>ct_rows := rows\<rparr>))
      else (Inl LogRefused, one_statement_later ct))"

text \<open>
  \<open>INSERT ... ON CONFLICT DO UPDATE ... WHERE deadline <= now\<close>: a task with no row gets one, a row
  whose deadline has passed is taken over, any other is left, and no row changed.
\<close>

definition claim_task :: "string \<Rightarrow> string \<Rightarrow> string \<Rightarrow> moment \<Rightarrow> claims_table \<Rightarrow> (record_error + bool) \<times> claims_table"
where
  "claim_task owner job task now =
     statement (\<lambda>ct.
       let mine = \<lparr>cr_job = job, cr_task = task, cr_owner = owner, cr_taken = now,
                   cr_deadline = now + task_budget\<rparr>
       in case find (claims_on job task) (ct_rows ct) of
            None \<Rightarrow> (True, ct_rows ct @ [mine])
          | Some held \<Rightarrow>
              if cr_deadline held \<le> now
              then (True, map (\<lambda>c. if claims_on job task c then mine else c) (ct_rows ct))
              else (False, ct_rows ct))"

definition release_task :: "string \<Rightarrow> string \<Rightarrow> claims_table \<Rightarrow> (record_error + unit) \<times> claims_table" where
  "release_task job task = statement (\<lambda>ct. ((), filter (\<lambda>c. \<not> claims_on job task c) (ct_rows ct)))"

definition release_the_claims_of :: "string \<Rightarrow> claims_table \<Rightarrow> (record_error + unit) \<times> claims_table" where
  "release_the_claims_of job = statement (\<lambda>ct. ((), filter (\<lambda>c. cr_job c \<noteq> job) (ct_rows ct)))"

definition claimed_tasks :: "string \<Rightarrow> moment \<Rightarrow> claims_table \<Rightarrow> (record_error + string list) \<times> claims_table" where
  "claimed_tasks job now =
     statement (\<lambda>ct. (map cr_task (filter (\<lambda>c. cr_job c = job \<and> now < cr_deadline c) (ct_rows ct)), ct_rows ct))"

definition in_key_order :: "claim_row list \<Rightarrow> claim_row list" where
  "in_key_order rows = sort_key (\<lambda>c. (cr_job c, cr_task c)) rows"

definition expired_claims :: "moment \<Rightarrow> claims_table \<Rightarrow> (record_error + (string \<times> string) list) \<times> claims_table" where
  "expired_claims now =
     statement (\<lambda>ct. (map (\<lambda>c. (cr_job c, cr_task c)) (in_key_order (filter (\<lambda>c. cr_deadline c \<le> now) (ct_rows ct))),
                      ct_rows ct))"

record claimed_task =
  cl_job :: string
  cl_task :: string
  cl_owner :: string

definition every_claim :: "claims_table \<Rightarrow> (record_error + claimed_task list) \<times> claims_table" where
  "every_claim =
     statement (\<lambda>ct. (map (\<lambda>c. \<lparr>cl_job = cr_job c, cl_task = cr_task c, cl_owner = cr_owner c\<rparr>)
                        (in_key_order (ct_rows ct)), ct_rows ct))"

section \<open>The processes behind the claims\<close>

definition process_is_running :: "job_machine \<Rightarrow> string \<Rightarrow> bool" where
  "process_is_running m owner =
     (case cut_prefix owner owner_prefix of
        None \<Rightarrow> False
      | Some number \<Rightarrow>
          (case atoi number of None \<Rightarrow> False | Some pid \<Rightarrow> 1 \<le> pid \<and> jm_process_runs m pid))"

fun release_the_gone :: "job_machine \<Rightarrow> claimed_task list \<Rightarrow> claims_table \<Rightarrow> (record_error + claimed_task list) \<times> claims_table"
where
  "release_the_gone m [] ct = (Inr [], ct)"
| "release_the_gone m (c # cs) ct =
     (if process_is_running m (cl_owner c) then release_the_gone m cs ct
      else (case release_task (cl_job c) (cl_task c) ct of
              (Inl e, ct') \<Rightarrow> (Inl e, ct')
            | (Inr _, ct') \<Rightarrow>
                (case release_the_gone m cs ct' of
                   (Inl e, ct'') \<Rightarrow> (Inl e, ct'')
                 | (Inr left, ct'') \<Rightarrow> (Inr (c # left), ct''))))"

definition release_the_claims_of_processes_that_are_gone ::
  "job_machine \<Rightarrow> claims_table \<Rightarrow> (record_error + claimed_task list) \<times> claims_table" where
  "release_the_claims_of_processes_that_are_gone m ct =
     (case every_claim ct of
        (Inl e, ct') \<Rightarrow> (Inl e, ct')
      | (Inr claims, ct') \<Rightarrow> release_the_gone m claims ct')"

section \<open>What holds of the table\<close>

text \<open>The primary key: no two rows are for one task.\<close>

definition one_row_each :: "claims_table \<Rightarrow> bool" where
  "one_row_each ct \<longleftrightarrow> distinct (map (\<lambda>c. (cr_job c, cr_task c)) (ct_rows ct))"

definition claim_of :: "claims_table \<Rightarrow> string \<Rightarrow> string \<Rightarrow> claim_row option" where
  "claim_of ct job task = find (claims_on job task) (ct_rows ct)"

definition live_claim :: "claims_table \<Rightarrow> moment \<Rightarrow> string \<Rightarrow> string \<Rightarrow> bool" where
  "live_claim ct now job task \<longleftrightarrow> (\<exists>c. claim_of ct job task = Some c \<and> now < cr_deadline c)"

lemma later_rows [simp]: "ct_rows (one_statement_later ct) = ct_rows ct"
  by (simp add: one_statement_later_def)

lemma claim_of_later [simp]: "claim_of (one_statement_later ct) = claim_of ct"
  by (simp add: fun_eq_iff claim_of_def)

lemma claim_of_place: "claim_of ct job task = Some c \<Longrightarrow> c \<in> set (ct_rows ct) \<and> cr_job c = job \<and> cr_task c = task"
  by (auto simp: claim_of_def find_Some_iff claims_on_def)

lemma claim_of_row:
  "one_row_each ct \<Longrightarrow> claim_of ct job task = Some c \<longleftrightarrow> c \<in> set (ct_rows ct) \<and> cr_job c = job \<and> cr_task c = task"
proof
  assume one: "one_row_each ct" and c: "c \<in> set (ct_rows ct) \<and> cr_job c = job \<and> cr_task c = task"
  then have "claim_of ct job task \<noteq> None" by (auto simp: claim_of_def find_None_iff claims_on_def)
  then obtain d where d: "claim_of ct job task = Some d" by blast
  then have "d \<in> set (ct_rows ct) \<and> (cr_job d, cr_task d) = (cr_job c, cr_task c)"
    using claim_of_place c by simp
  then have "d = c" using one c by (auto simp: one_row_each_def distinct_map inj_on_def)
  then show "claim_of ct job task = Some c" using d by simp
qed (rule claim_of_place)

lemma find_map_key:
  "(\<And>c. key (f c) = key c) \<Longrightarrow> find (\<lambda>c. key c = k) (map f cs) = map_option f (find (\<lambda>c. key c = k) cs)"
  by (induction cs) auto

lemma claims_on_key: "claims_on job task = (\<lambda>c. (cr_job c, cr_task c) = (job, task))"
  by (simp add: claims_on_def fun_eq_iff)

lemma find_filter_None: "find p (filter (\<lambda>c. \<not> p c) cs) = None"
  by (induction cs) auto

lemma find_filter_keeps: "(\<And>c. p c \<Longrightarrow> q c) \<Longrightarrow> find p (filter q cs) = find p cs"
  by (induction cs) auto

lemma find_snoc: "find p (cs @ [c]) = (case find p cs of None \<Rightarrow> if p c then Some c else None | Some d \<Rightarrow> Some d)"
  by (induction cs) auto

text \<open>What each statement does to the claim on a task.\<close>

lemma claim_task_is:
  assumes "claim_task owner job task now ct = (a, ct')" "one_row_each ct"
  shows "one_row_each ct'"
    "claim_of ct' j t =
       (if a = Inr True \<and> j = job \<and> t = task
        then Some \<lparr>cr_job = job, cr_task = task, cr_owner = owner, cr_taken = now, cr_deadline = now + task_budget\<rparr>
        else claim_of ct j t)"
    "a = Inr True \<longleftrightarrow> table_answers ct \<and> \<not> live_claim ct now job task"
proof -
  let ?mine = "\<lparr>cr_job = job, cr_task = task, cr_owner = owner, cr_taken = now, cr_deadline = now + task_budget\<rparr>"
  let ?f = "\<lambda>c. if claims_on job task c then ?mine else c"
  let ?k = "\<lambda>c. (cr_job c, cr_task c)"
  have key: "?k (?f c) = ?k c" for c by (simp add: claims_on_def)
  show "a = Inr True \<longleftrightarrow> table_answers ct \<and> \<not> live_claim ct now job task"
    using assms(1) by (auto simp: claim_task_def statement_def live_claim_def claim_of_def Let_def
        split: if_splits option.splits)
  consider (no) "\<not> table_answers ct" "a = Inl LogRefused" "ct' = one_statement_later ct"
    | (new) "claim_of ct job task = None" "a = Inr True" "ct_rows ct' = ct_rows ct @ [?mine]"
    | (over) h where "claim_of ct job task = Some h" "a = Inr True" "ct_rows ct' = map ?f (ct_rows ct)"
    | (held) "a = Inr False" "ct_rows ct' = ct_rows ct"
    using assms(1) by (auto simp: claim_task_def statement_def claim_of_def Let_def split: if_splits option.splits)
  then have "one_row_each ct' \<and> claim_of ct' j t =
       (if a = Inr True \<and> j = job \<and> t = task then Some ?mine else claim_of ct j t)"
  proof cases
    case no
    then show ?thesis using assms(2) by (simp add: one_row_each_def)
  next
    case new
    then have "(job, task) \<notin> ?k ` set (ct_rows ct)"
      by (auto simp: claim_of_def find_None_iff claims_on_def)
    then have "one_row_each ct'" using assms(2) new(3) by (simp add: one_row_each_def)
    moreover have "claims_on j t ?mine \<longleftrightarrow> j = job \<and> t = task" by (auto simp: claims_on_def)
    then have "claim_of ct' j t = (if j = job \<and> t = task then Some ?mine else claim_of ct j t)"
      using new(1,3) by (auto simp: claim_of_def find_snoc split: option.split)
    ultimately show ?thesis using new(2) by simp
  next
    case over
    have "map ?k (ct_rows ct') = map ?k (ct_rows ct)" using over key by (simp add: comp_def)
    moreover have "claim_of ct' j t = map_option ?f (claim_of ct j t)"
      unfolding claim_of_def claims_on_key[of j t] over(3)
      by (rule find_map_key[where key = ?k, OF key])
    moreover have "map_option ?f (claim_of ct j t) =
        (if j = job \<and> t = task then Some ?mine else claim_of ct j t)"
    proof (cases "claim_of ct j t")
      case None
      then show ?thesis using over(1) by auto
    next
      case (Some c)
      then have "claims_on job task c \<longleftrightarrow> j = job \<and> t = task"
        using claim_of_place[OF Some] by (auto simp: claims_on_def)
      then show ?thesis using Some by simp
    qed
    ultimately show ?thesis using over(2) assms(2) by (simp add: one_row_each_def)
  next
    case held
    then show ?thesis using assms(2) by (simp add: one_row_each_def claim_of_def)
  qed
  then show "one_row_each ct'" "claim_of ct' j t =
       (if a = Inr True \<and> j = job \<and> t = task then Some ?mine else claim_of ct j t)" by simp_all
qed

lemma release_task_is:
  assumes "release_task job task ct = (a, ct')" "one_row_each ct"
  shows "one_row_each ct'"
    "claim_of ct' j t = (if a = Inr () \<and> j = job \<and> t = task then None else claim_of ct j t)"
    "a = Inr () \<longleftrightarrow> table_answers ct"
proof -
  show "one_row_each ct'" using assms
    by (auto simp: release_task_def statement_def one_row_each_def distinct_map_filter split: if_splits)
  have "find (claims_on j t) (filter (\<lambda>c. \<not> claims_on job task c) cs) =
      (if j = job \<and> t = task then None else find (claims_on j t) cs)" for cs
    by (auto simp: find_filter_None intro!: find_filter_keeps) (auto simp: claims_on_def)
  then show "claim_of ct' j t = (if a = Inr () \<and> j = job \<and> t = task then None else claim_of ct j t)"
    "a = Inr () \<longleftrightarrow> table_answers ct"
    using assms(1) by (auto simp: release_task_def statement_def claim_of_def split: if_splits)
qed

lemma release_the_claims_of_is:
  assumes "release_the_claims_of job ct = (a, ct')" "one_row_each ct"
  shows "one_row_each ct'"
    "claim_of ct' j t = (if a = Inr () \<and> j = job then None else claim_of ct j t)"
proof -
  show "one_row_each ct'" using assms
    by (auto simp: release_the_claims_of_def statement_def one_row_each_def distinct_map_filter split: if_splits)
  have "find (claims_on j t) (filter (\<lambda>c. cr_job c \<noteq> job) cs) = (if j = job then None else find (claims_on j t) cs)" for cs
    by (auto simp: find_None_iff claims_on_def intro!: find_filter_keeps)
  then show "claim_of ct' j t = (if a = Inr () \<and> j = job then None else claim_of ct j t)"
    using assms(1) by (auto simp: release_the_claims_of_def statement_def claim_of_def split: if_splits)
qed

lemma claimed_tasks_is:
  assumes "claimed_tasks job now ct = (Inr running, ct')" "one_row_each ct"
  shows "ct_rows ct' = ct_rows ct" "task \<in> set running \<longleftrightarrow> live_claim ct now job task"
proof -
  show "ct_rows ct' = ct_rows ct" using assms(1)
    by (auto simp: claimed_tasks_def statement_def split: if_splits)
  show "task \<in> set running \<longleftrightarrow> live_claim ct now job task"
    using assms(1) by (auto simp: claimed_tasks_def statement_def live_claim_def claim_of_row[OF assms(2)]
        split: if_splits)
qed

end
