(* ===== verification/Job_Notes.thy ===== *)
theory Job_Notes
  imports Job_Schedule
begin

text \<open>
  \<open>internal/job/notepad.go\<close>: the notepad a job carries between its tasks, with its cap, and the
  incidents it remembers. The safe line of \<open>finish.go\<close> is here too, which folds a text as they do.
\<close>

section \<open>The notepad\<close>

definition notepad_bytes :: nat where "notepad_bytes = 16384"

text \<open>\<open>utf8.RuneStart\<close>: a byte that is not the continuation of a letter.\<close>

definition rune_start :: "char \<Rightarrow> bool" where
  "rune_start c \<longleftrightarrow> byte c < 128 \<or> 192 \<le> byte c"

definition last_whole_letters :: "string \<Rightarrow> nat \<Rightarrow> string" where
  "last_whole_letters s keep =
     (if length s \<le> keep then s else dropWhile (\<lambda>c. \<not> rune_start c) (drop (length s - keep) s))"

text \<open>Whole lines off the front until the rest is within the cap.\<close>

lemma cut_newline_shorter: "cut s [newline] = (a, rest, True) \<Longrightarrow> length rest < length s"
  by (auto simp: cut_char_True_iff)

function within_the_cap :: "string \<Rightarrow> string" where
  "within_the_cap grown =
     (if length grown \<le> notepad_bytes then grown
      else (case cut grown [newline] of
              (_, rest, split) \<Rightarrow>
                if \<not> split \<or> rest = [] then last_whole_letters grown notepad_bytes
                else within_the_cap rest))"
  by pat_completeness auto

termination
  by (relation "measure length") (auto dest: cut_newline_shorter[OF sym])

declare within_the_cap.simps [simp del]

definition append_to_notepad :: "string \<Rightarrow> string \<Rightarrow> string" where
  "append_to_notepad notepad said = within_the_cap (notepad @ said @ [newline])"

lemma last_whole_letters_bound: "length (last_whole_letters s keep) \<le> max keep (min (length s) keep)"
proof (cases "length s \<le> keep")
  case False
  then have "length (dropWhile (\<lambda>c. \<not> rune_start c) (drop (length s - keep) s)) \<le> keep"
    using length_dropWhile_le[of "\<lambda>c. \<not> rune_start c" "drop (length s - keep) s"] by simp
  then show ?thesis using False by (simp add: last_whole_letters_def)
qed (simp add: last_whole_letters_def)

lemma last_whole_letters_suffix: "suffix (last_whole_letters s keep) s"
  using suffix_drop[of "length s - keep" s] suffix_dropWhile[of _ "drop (length s - keep) s"]
  by (auto simp: last_whole_letters_def intro: suffix_order.trans)

lemma within_the_cap_is:
  "length (within_the_cap s) \<le> notepad_bytes \<and> suffix (within_the_cap s) s"
proof (induction s rule: within_the_cap.induct)
  case (1 s)
  obtain a rest split where c: "cut s [newline] = (a, rest, split)" by (cases "cut s [newline]")
  show ?case
  proof (cases "length s \<le> notepad_bytes \<or> \<not> split \<or> rest = []")
    case True
    then show ?thesis
      using c last_whole_letters_bound[of s notepad_bytes] last_whole_letters_suffix[of s notepad_bytes]
      by (subst (1 2) within_the_cap.simps) auto
  next
    case False
    then have cut: "cut s [newline] = (a, rest, True)" using c by simp
    then have "suffix rest s" by (auto simp: cut_char_True_iff intro: suffix_appendI suffix_ConsI)
    moreover have "within_the_cap s = within_the_cap rest"
      using False cut by (subst within_the_cap.simps) simp
    ultimately show ?thesis using 1[OF _ cut[symmetric] refl] False by (auto intro: suffix_order.trans)
  qed
qed

text \<open>What fits is kept whole, and what is kept always ends with the newest note, or with its end.\<close>

lemma notepad_fits:
  "length (notepad @ said @ [newline]) \<le> notepad_bytes \<Longrightarrow> append_to_notepad notepad said = notepad @ said @ [newline]"
  by (simp add: append_to_notepad_def within_the_cap.simps)

section \<open>One line\<close>

definition in_one_line :: "string \<Rightarrow> string" where
  "in_one_line s = join '' '' (text_fields s)"

definition arrow_mark :: string where "arrow_mark = '' -> ''"
definition reason_mark :: string where "reason_mark = ''. Reason: ''"
definition cause_mark :: string where "cause_mark = ''. Cause: ''"

text \<open>\<open>strings.ReplaceAll\<close> of a text that is not empty.\<close>

definition replace_text :: "string \<Rightarrow> string \<Rightarrow> string \<Rightarrow> string" where
  "replace_text old new s = join new (split_on s old)"

definition safe_line :: "string \<Rightarrow> string" where
  "safe_line s =
     replace_text cause_mark ''. cause: ''
       (replace_text reason_mark ''. reason: ''
         (replace_text arrow_mark '' then '' (in_one_line s)))"

section \<open>Incidents\<close>

definition max_incidents :: nat where "max_incidents = 50"
definition signature_length :: nat where "signature_length = 12"
definition error_text_read :: nat where "error_text_read = 200"

definition signature_of :: "job_machine \<Rightarrow> string \<Rightarrow> string" where
  "signature_of m error_text =
     take signature_length (jm_sha256 m
       (take error_text_read (to_lower (jm_unicode m) (in_one_line error_text))))"

fun count_again :: "string \<Rightarrow> moment \<Rightarrow> incident list \<Rightarrow> incident list option" where
  "count_again signature now [] = None"
| "count_again signature now (i # rest) =
     (if in_signature i = signature
      then Some (i\<lparr>in_count := wrap64 (in_count i + 1), in_last_seen := now\<rparr> # rest)
      else map_option (Cons i) (count_again signature now rest))"

definition note_incident :: "job_machine \<Rightarrow> incident list \<Rightarrow> string \<Rightarrow> moment \<Rightarrow> incident list \<times> bool" where
  "note_incident m incidents error_text now =
     (let signature = signature_of m error_text in
      case count_again signature now incidents of
        Some counted \<Rightarrow> (counted, False)
      | None \<Rightarrow>
          let added = incidents @ [\<lparr>in_signature = signature, in_error = in_one_line error_text,
                        in_first_seen = now, in_last_seen = now, in_count = 1\<rparr>]
          in (if max_incidents < length added then drop (length added - max_incidents) added else added,
              True))"

lemma count_again_signatures:
  "count_again g now is = Some js \<Longrightarrow> map in_signature js = map in_signature is"
  by (induction g now "is" arbitrary: js rule: count_again.induct) (auto split: if_splits)

lemma count_again_None: "count_again g now is = None \<longleftrightarrow> g \<notin> in_signature ` set is"
  by (induction g now "is" rule: count_again.induct) auto

text \<open>The incidents a job remembers are at most fifty and no two of them are the same one.\<close>

definition incidents_hold :: "incident list \<Rightarrow> bool" where
  "incidents_hold is \<longleftrightarrow> length is \<le> max_incidents \<and> distinct (map in_signature is)"

lemma note_incident_holds: "incidents_hold is \<Longrightarrow> incidents_hold (fst (note_incident m is t now))"
proof (cases "count_again (signature_of m t) now is")
  case None
  assume hold: "incidents_hold is"
  let ?i = "\<lparr>in_signature = signature_of m t, in_error = in_one_line t, in_first_seen = now,
    in_last_seen = now, in_count = 1\<rparr>"
  have d: "distinct (map in_signature (is @ [?i]))"
    using hold None by (auto simp: incidents_hold_def count_again_None)
  then have "distinct (map in_signature (drop n (is @ [?i])))" for n
    using distinct_drop[of "map in_signature (is @ [?i])" n] by (simp only: drop_map)
  then show ?thesis using hold None d
    by (simp add: note_incident_def Let_def incidents_hold_def del: map_append drop_append)
next
  case (Some js)
  assume hold: "incidents_hold is"
  have "length js = length is" using count_again_signatures[OF Some] by (metis length_map)
  then show ?thesis using hold count_again_signatures[OF Some] Some
    by (simp add: note_incident_def incidents_hold_def)
qed

end
