(* ===== verification/Schedule_Words.thy ===== *)
theory Schedule_Words
  imports Job_Notes
begin

text \<open>
  \<open>internal/job/words.go\<close> and \<open>internal/job/cronwords.go\<close>: a schedule, a length of time and a
  moment, said the way a person says them.
\<close>

section \<open>Numbers and lists\<close>

text \<open>The \<open>%02d\<close> of \<open>fmt\<close>.\<close>

definition two_digits :: "int \<Rightarrow> string" where
  "two_digits n = (if 0 \<le> n \<and> n < 10 then CHR ''0'' # itoa n else itoa n)"

definition list_in_words :: "string list \<Rightarrow> string" where
  "list_in_words names =
     (if names = [] then []
      else if length names = 1 then hd names
      else join '', '' (butlast names) @ '' and '' @ last names)"

definition ordinal :: "int \<Rightarrow> string" where
  "ordinal day =
     itoa day @
     (if 11 \<le> day mod 100 \<and> day mod 100 \<le> 13 then ''th''
      else if day mod 10 = 1 then ''st''
      else if day mod 10 = 2 then ''nd''
      else if day mod 10 = 3 then ''rd''
      else ''th'')"

definition whole_number :: "string \<Rightarrow> int \<Rightarrow> int \<Rightarrow> int option" where
  "whole_number field lowest highest =
     (case atoi field of
        None \<Rightarrow> None
      | Some n \<Rightarrow> if n < lowest \<or> highest < n then None else Some n)"

section \<open>Lengths of time and times of day\<close>

fun in_units :: "job_machine \<Rightarrow> duration \<Rightarrow> (duration \<times> string) list \<Rightarrow> string" where
  "in_units m interval [] = jm_duration m interval"
| "in_units m interval ((unit_length, name) # rest) =
     (if interval mod unit_length \<noteq> 0 then in_units m interval rest
      else if interval div unit_length = 1 then name
      else itoa (interval div unit_length) @ '' '' @ name @ ''s'')"

definition interval_in_words :: "job_machine \<Rightarrow> duration \<Rightarrow> string" where
  "interval_in_words m interval =
     (if interval \<le> 0 then ''no time at all''
      else in_units m interval [(one_day, ''day''), (one_hour, ''hour''), (one_minute, ''minute''),
             (one_second, ''second'')])"

definition time_of_day_in_words :: "int \<Rightarrow> int \<Rightarrow> string" where
  "time_of_day_in_words hour minute =
     (if hour < 0 \<or> 23 < hour \<or> minute < 0 \<or> 59 < minute then two_digits hour @ '':'' @ two_digits minute
      else if minute = 0 \<and> hour = 0 then ''midnight''
      else if minute = 0 \<and> hour = 12 then ''noon''
      else
        let on_the_clock = (if hour mod 12 = 0 then 12 else hour mod 12);
            part_of_day = (if hour < 12 then ''in the morning''
              else if hour < 18 then ''in the afternoon'' else ''in the evening'')
        in if minute = 0 then itoa on_the_clock @ '' '' @ part_of_day
           else itoa on_the_clock @ '':'' @ two_digits minute @ '' '' @ part_of_day)"

section \<open>Moments\<close>

definition due_in_plain_words :: "job_machine \<Rightarrow> moment \<Rightarrow> string" where
  "due_in_plain_words m due =
     (if due = 0 then [] else ''on '' @ jm_date m ''2 January 2006 at 15:04 MST'' due)"

definition moment_in_plain_words :: "job_machine \<Rightarrow> moment \<Rightarrow> string" where
  "moment_in_plain_words m t = (if t = 0 then ''never'' else jm_date m ''2006-01-02 15:04'' t)"

section \<open>Cron expressions\<close>

definition day_names :: "string \<Rightarrow> string option" where
  "day_names = map_of
     [(''0'', ''Sunday''), (''7'', ''Sunday''), (''1'', ''Monday''), (''2'', ''Tuesday''), (''3'', ''Wednesday''),
      (''4'', ''Thursday''), (''5'', ''Friday''), (''6'', ''Saturday''),
      (''sun'', ''Sunday''), (''mon'', ''Monday''), (''tue'', ''Tuesday''), (''wed'', ''Wednesday''),
      (''thu'', ''Thursday''), (''fri'', ''Friday''), (''sat'', ''Saturday'')]"

definition descriptions_in_words :: "string \<Rightarrow> string option" where
  "descriptions_in_words = map_of
     [(''@yearly'', ''once a year on 1 January at midnight''),
      (''@annually'', ''once a year on 1 January at midnight''),
      (''@monthly'', ''every month on the 1st at midnight''),
      (''@weekly'', ''every Sunday at midnight''), (''@daily'', ''every day at midnight''),
      (''@midnight'', ''every day at midnight''), (''@hourly'', ''every hour'')]"

definition every_step :: "string \<Rightarrow> int \<Rightarrow> int option" where
  "every_step field highest =
     (case cut_prefix field ''*/'' of None \<Rightarrow> None | Some rest \<Rightarrow> whole_number rest 1 highest)"

definition as_the_expression_it_is :: "job_machine \<Rightarrow> string \<Rightarrow> string" where
  "as_the_expression_it_is m expression = ''on the cron schedule '' @ jm_quote m (trim_space expression)"

definition every_so_often ::
  "job_machine \<Rightarrow> string \<Rightarrow> string \<Rightarrow> string \<Rightarrow> string \<Rightarrow> string \<Rightarrow> string option" where
  "every_so_often m minute hour day_of_month month day_of_week =
     (if day_of_month \<noteq> ''*'' \<or> month \<noteq> ''*'' \<or> day_of_week \<noteq> ''*'' then None
      else
        let by_hours =
              (case every_step hour 23 of
                 None \<Rightarrow> None
               | Some step \<Rightarrow>
                   if whole_number minute 0 59 = None then None
                   else Some (''every '' @ interval_in_words m (step * one_hour)))
        in case every_step minute 59 of
             None \<Rightarrow> by_hours
           | Some step \<Rightarrow>
               if hour = ''*'' then Some (''every '' @ interval_in_words m (step * one_minute)) else by_hours)"

definition time_of_day_of_fields :: "string \<Rightarrow> string \<Rightarrow> string option" where
  "time_of_day_of_fields minute hour =
     (case (whole_number minute 0 59, whole_number hour 0 23) of
        (Some at_minute, Some at_hour) \<Rightarrow> Some (time_of_day_in_words at_hour at_minute)
      | _ \<Rightarrow> None)"

fun named_days :: "string list \<Rightarrow> string list option" where
  "named_days [] = Some []"
| "named_days (part # rest) =
     (case day_names (trim_space part) of
        None \<Rightarrow> None
      | Some name \<Rightarrow> (case named_days rest of None \<Rightarrow> None | Some names \<Rightarrow> Some (name # names)))"

definition days_in_words :: "job_machine \<Rightarrow> string \<Rightarrow> string option" where
  "days_in_words m day_of_week =
     (let folded = to_lower (jm_unicode m) (trim_space day_of_week) in
      if folded = ''*'' \<or> folded = ''?'' then Some ''every day''
      else if folded = ''1-5'' \<or> folded = ''mon-fri'' then Some ''every weekday''
      else if folded \<in> {''0,6'', ''6,0'', ''6-7'', ''sat,sun'', ''sun,sat''} then Some ''every Saturday and Sunday''
      else (case named_days (split_on folded '','') of
              None \<Rightarrow> None
            | Some named \<Rightarrow>
                if named = [] \<or> 7 < length named then None else Some (''every '' @ list_in_words named)))"

definition at_one_time_of_day :: "job_machine \<Rightarrow> string \<Rightarrow> string \<Rightarrow> string \<Rightarrow> string \<Rightarrow> string \<Rightarrow> string" where
  "at_one_time_of_day m expression day_of_month month day_of_week at_time =
     (if month \<noteq> ''*'' then as_the_expression_it_is m expression
      else if day_of_month \<noteq> ''*'' \<and> day_of_week = ''*'' then
        (case whole_number day_of_month 1 31 of
           None \<Rightarrow> as_the_expression_it_is m expression
         | Some day \<Rightarrow> ''every month on the '' @ ordinal day @ '' at '' @ at_time)
      else if day_of_month \<noteq> ''*'' then as_the_expression_it_is m expression
      else (case days_in_words m day_of_week of
              None \<Rightarrow> as_the_expression_it_is m expression
            | Some days \<Rightarrow> days @ '' at '' @ at_time))"

definition cron_in_words :: "job_machine \<Rightarrow> string \<Rightarrow> string" where
  "cron_in_words m expression =
     (let trimmed = trim_space expression; lowered = to_lower (jm_unicode m) trimmed in
      case descriptions_in_words lowered of
        Some said \<Rightarrow> said
      | None \<Rightarrow>
          (case cut_prefix lowered ''@every '' of
             Some rest \<Rightarrow> ''every '' @ in_one_line rest
           | None \<Rightarrow>
               (case text_fields trimmed of
                  [minute, hour, day_of_month, month, day_of_week] \<Rightarrow>
                    (case every_so_often m minute hour day_of_month month day_of_week of
                       Some said \<Rightarrow> said
                     | None \<Rightarrow>
                         (case time_of_day_of_fields minute hour of
                            None \<Rightarrow> as_the_expression_it_is m expression
                          | Some at_time \<Rightarrow>
                              at_one_time_of_day m expression day_of_month month day_of_week at_time))
                | _ \<Rightarrow> as_the_expression_it_is m expression)))"

definition in_plain_words :: "job_machine \<Rightarrow> schedule \<Rightarrow> string" where
  "in_plain_words m sc =
     (let said =
        (if sc_kind sc = schedule_at then ''once on '' @ jm_date m ''2006-01-02 at 15:04'' (sc_at sc)
         else if sc_kind sc = schedule_every then ''every '' @ interval_in_words m (sc_every sc)
         else if sc_kind sc = schedule_cron then cron_in_words m (sc_cron sc)
         else ''on a schedule of the unknown kind '' @ jm_quote m (sc_kind sc));
        zone = in_one_line (sc_timezone sc)
      in if zone \<noteq> [] then said @ '' in '' @ zone else said)"

section \<open>What the words say\<close>

text \<open>The minutes of an hour at which a step of the minutes fires, by the rules of crontab.\<close>

definition minutes_of_step :: "nat \<Rightarrow> nat list" where
  "minutes_of_step step = filter (\<lambda>minute. minute mod step = 0) [0..<60]"

end
