(* ===== verification/Restart_Guard.thy ===== *)
theory Restart_Guard
  imports Command_Flags Job_Notes
begin

text \<open>
  \<open>internal/job/guard.go\<close>: the work a job may never carry, because it would stop or restart the
  agent. A text is cut into commands, each command is read past the words that only wrap it, and what
  is left is held against a fixed list. \<open>runs\<close> says, rule by rule and without the loop of the code,
  which commands come down to a program.
\<close>

section \<open>The lists\<close>

record refusal =
  rf_program :: string
  rf_verbs :: "string list"
  rf_target :: string
  rf_must_lead :: bool

definition refused_work :: "refusal list" where
  "refused_work =
     [\<lparr>rf_program = ''systemctl'', rf_verbs = [''restart'', ''stop'', ''kill'', ''disable'', ''mask'', ''reload''],
        rf_target = ''nerdgenie'', rf_must_lead = False\<rparr>,
      \<lparr>rf_program = ''nerdgenie'', rf_verbs = [''restart'', ''stop'', ''uninstall'', ''update'', ''install''],
        rf_target = [], rf_must_lead = False\<rparr>,
      \<lparr>rf_program = ''pkill'', rf_verbs = [], rf_target = ''nerdgenie'', rf_must_lead = False\<rparr>,
      \<lparr>rf_program = ''killall'', rf_verbs = [], rf_target = ''nerdgenie'', rf_must_lead = False\<rparr>,
      \<lparr>rf_program = ''kill'', rf_verbs = [], rf_target = ''nerdgenie'', rf_must_lead = False\<rparr>,
      \<lparr>rf_program = ''reboot'', rf_verbs = [], rf_target = [], rf_must_lead = True\<rparr>,
      \<lparr>rf_program = ''shutdown'', rf_verbs = [], rf_target = [], rf_must_lead = True\<rparr>,
      \<lparr>rf_program = ''halt'', rf_verbs = [], rf_target = [], rf_must_lead = True\<rparr>,
      \<lparr>rf_program = ''poweroff'', rf_verbs = [], rf_target = [], rf_must_lead = True\<rparr>]"

record guard_wrapper =
  gw_name :: string
  gw_flags_with_a_value :: "string list"
  gw_own_words :: nat

definition guard_wrappers :: "guard_wrapper list" where
  "guard_wrappers =
     [\<lparr>gw_name = ''sudo'', gw_flags_with_a_value = [''-u'', ''-g'', ''-p'', ''-C'', ''-h'', ''-U'', ''-r'', ''-t'',
        ''--user'', ''--group'', ''--prompt'', ''--host'', ''--role'', ''--type''], gw_own_words = 0\<rparr>,
      \<lparr>gw_name = ''doas'', gw_flags_with_a_value = [''-u'', ''-C''], gw_own_words = 0\<rparr>,
      \<lparr>gw_name = ''env'', gw_flags_with_a_value = [], gw_own_words = 0\<rparr>,
      \<lparr>gw_name = ''nohup'', gw_flags_with_a_value = [], gw_own_words = 0\<rparr>,
      \<lparr>gw_name = ''setsid'', gw_flags_with_a_value = [], gw_own_words = 0\<rparr>,
      \<lparr>gw_name = ''time'', gw_flags_with_a_value = [], gw_own_words = 0\<rparr>,
      \<lparr>gw_name = ''exec'', gw_flags_with_a_value = [], gw_own_words = 0\<rparr>,
      \<lparr>gw_name = ''nice'', gw_flags_with_a_value = [''-n'', ''--adjustment''], gw_own_words = 0\<rparr>,
      \<lparr>gw_name = ''ionice'', gw_flags_with_a_value = [''-c'', ''-n'', ''--class'', ''--classdata''], gw_own_words = 0\<rparr>,
      \<lparr>gw_name = ''stdbuf'', gw_flags_with_a_value = [''-i'', ''-o'', ''-e''], gw_own_words = 0\<rparr>,
      \<lparr>gw_name = ''timeout'', gw_flags_with_a_value = [''-k'', ''-s'', ''--kill-after'', ''--signal''], gw_own_words = 1\<rparr>,
      \<lparr>gw_name = ''xargs'', gw_flags_with_a_value = [''-n'', ''-P'', ''-I'', ''-d'', ''-s'', ''-a'', ''-E'', ''-L''],
        gw_own_words = 0\<rparr>]"

definition guard_shells :: "string list" where
  "guard_shells = [''sh'', ''bash'', ''zsh'', ''dash'', ''ksh'']"

definition max_wrapping_shells :: nat where "max_wrapping_shells = 3"

section \<open>One command\<close>

definition guard_program :: "string \<Rightarrow> string" where
  "guard_program word = path_base word"

definition guard_flag :: "string \<Rightarrow> bool" where
  "guard_flag word \<longleftrightarrow> 1 < length word \<and> prefix ''-'' word"

definition sets_the_environment :: "unicode_tables \<Rightarrow> string \<Rightarrow> bool" where
  "sets_the_environment u word \<longleftrightarrow>
     (case cut word ''='' of
        (name, _, split) \<Rightarrow>
          if \<not> split \<or> name = [] \<or> is_digit (hd name) then False
          else list_all (\<lambda>r. r = 95 \<or> letter_rune u r \<or> digit_rune u r) (runes name))"

definition carries_a_script :: "string \<Rightarrow> bool" where
  "carries_a_script word \<longleftrightarrow>
     (if length word < 2 \<or> \<not> prefix ''-'' word \<or> prefix ''--'' word then False
      else CHR ''c'' \<in> set (drop 1 word))"

fun script_behind :: "string list \<Rightarrow> string list option" where
  "script_behind [] = None"
| "script_behind (w # ws) =
     (if carries_a_script w \<and> ws \<noteq> [] then Some ws else script_behind ws)"

text \<open>The flags of a wrapper, with the values they take.\<close>

fun without_guard_flags :: "string list \<Rightarrow> string list \<Rightarrow> string list" where
  "without_guard_flags valued [] = []"
| "without_guard_flags valued (w # ws) =
     (if guard_flag w then
        (if w \<in> set valued \<and> ws \<noteq> [] then without_guard_flags valued (tl ws)
         else without_guard_flags valued ws)
      else w # ws)"

definition guard_wrapper_named :: "string \<Rightarrow> guard_wrapper option" where
  "guard_wrapper_named name = find (\<lambda>w. gw_name w = name) guard_wrappers"

definition without_the_wrapper :: "string list \<Rightarrow> string \<Rightarrow> string list \<times> bool" where
  "without_the_wrapper tokens name =
     (case guard_wrapper_named name of
        None \<Rightarrow> (tokens, False)
      | Some w \<Rightarrow> (drop (gw_own_words w) (without_guard_flags (gw_flags_with_a_value w) (tl tokens)), True))"

lemma script_behind_shorter: "script_behind ws = Some script \<Longrightarrow> length script < length ws"
  by (induction ws rule: script_behind.induct) (auto split: if_splits)

lemma without_guard_flags_length: "length (without_guard_flags v ws) \<le> length ws"
proof (induction v ws rule: without_guard_flags.induct)
  case (2 v w ws)
  have "length (without_guard_flags v (tl ws)) \<le> length ws"
    if "guard_flag w" "w \<in> set v" "ws \<noteq> []" using that 2(1) by fastforce
  then show ?case using 2(2) by auto
qed simp

lemma without_the_wrapper_shorter:
  "without_the_wrapper (t # ts) name = (stepped, True) \<Longrightarrow> length stepped \<le> length ts"
  using without_guard_flags_length[of _ ts]
  by (auto simp: without_the_wrapper_def split: option.splits intro!: le_trans[OF diff_le_self])

function step_past_the_wrappers :: "unicode_tables \<Rightarrow> string list \<Rightarrow> nat \<Rightarrow> string list \<times> bool" where
  "step_past_the_wrappers u tokens shells =
     (if max_wrapping_shells < shells then ([], False)
      else
        (case tokens of
           [] \<Rightarrow> ([], True)
         | t # ts \<Rightarrow>
             let first = guard_program t in
             if sets_the_environment u t then step_past_the_wrappers u ts shells
             else if first \<in> set guard_shells then
               (case script_behind ts of
                  None \<Rightarrow> (tokens, True)
                | Some script \<Rightarrow> step_past_the_wrappers u script (shells + 1))
             else
               (case without_the_wrapper tokens first of
                  (stepped, wrapped) \<Rightarrow>
                    if \<not> wrapped then (tokens, True) else step_past_the_wrappers u stepped shells)))"
  by pat_completeness auto

termination
  by (relation "measure (\<lambda>(u, tokens, shells). length tokens)")
    (auto dest: script_behind_shorter dest!: without_the_wrapper_shorter[OF sym])

declare step_past_the_wrappers.simps [simp del]

section \<open>A whole text\<close>

definition segment_breaks :: "nat list" where
  "segment_breaks = [59, 124, 38, 10, 13, 40, 41, 96]"

definition command_segments :: "string \<Rightarrow> string list" where
  "command_segments txt =
     fields_func (\<lambda>r. r \<in> set segment_breaks) (replace_text [CHR 0x5C, newline] '' '' txt)"

text \<open>The replacer takes quotes and backslashes out and writes a space for a comma or a bracket.\<close>

definition plain_char :: "char \<Rightarrow> string" where
  "plain_char c =
     (if c = CHR 0x22 \<or> c = CHR 0x27 \<or> c = CHR 0x5C then []
      else if c = CHR '','' \<or> c = CHR ''['' \<or> c = CHR '']'' then '' ''
      else [c])"

definition plain_words :: "unicode_tables \<Rightarrow> string \<Rightarrow> string list" where
  "plain_words u segment = text_fields (to_lower u (concat (map plain_char segment)))"

definition command_tokens :: "unicode_tables \<Rightarrow> string \<Rightarrow> string list \<times> bool" where
  "command_tokens u segment = step_past_the_wrappers u (plain_words u segment) 0"

text \<open>What follows the first word a test holds of.\<close>

fun behind_first :: "(string \<Rightarrow> bool) \<Rightarrow> string list \<Rightarrow> string list option" where
  "behind_first p [] = None"
| "behind_first p (w # ws) = (if p w then Some ws else behind_first p ws)"

definition matches_refused_work :: "string list \<Rightarrow> refusal \<Rightarrow> bool" where
  "matches_refused_work tokens refused =
     (case behind_first (\<lambda>t. guard_program t = rf_program refused) tokens of
        None \<Rightarrow> False
      | Some rest \<Rightarrow>
          if rf_must_lead refused \<and> guard_program (hd tokens) \<noteq> rf_program refused then False
          else
            (case (if rf_verbs refused \<noteq> [] then behind_first (\<lambda>t. t \<in> set (rf_verbs refused)) rest
                   else Some rest) of
               None \<Rightarrow> False
             | Some behind \<Rightarrow>
                 rf_target refused = [] \<or> list_ex (\<lambda>t. contains_text t (rf_target refused)) behind))"

fun check_segments :: "unicode_tables \<Rightarrow> string list \<Rightarrow> record_error + unit" where
  "check_segments u [] = Inr ()"
| "check_segments u (segment # rest) =
     (case command_tokens u segment of
        (tokens, plain) \<Rightarrow>
          if \<not> plain then Inl Unnamed
          else if tokens = [] then check_segments u rest
          else if list_ex (matches_refused_work tokens) refused_work then Inl Unnamed
          else check_segments u rest)"

definition check_it_cannot_restart_the_agent :: "unicode_tables \<Rightarrow> string \<Rightarrow> record_error + unit" where
  "check_it_cannot_restart_the_agent u txt = check_segments u (command_segments txt)"

section \<open>What a command comes down to\<close>

text \<open>The flags in front of a wrapper's own words, with the values of those that take one.\<close>

inductive flag_words :: "string list \<Rightarrow> string list \<Rightarrow> bool" for valued where
  no_flag: "flag_words valued []"
| a_flag: "guard_flag f \<Longrightarrow> f \<notin> set valued \<Longrightarrow> flag_words valued fs \<Longrightarrow> flag_words valued (f # fs)"
| a_flag_and_its_value: "guard_flag f \<Longrightarrow> f \<in> set valued \<Longrightarrow> flag_words valued fs \<Longrightarrow> flag_words valued (f # v # fs)"

text \<open>The words come down to the program: it is the first of them, or they set the environment, wrap
  it, or hand a shell a script that does. The number counts the shells already gone through.\<close>

inductive runs :: "unicode_tables \<Rightarrow> string \<Rightarrow> nat \<Rightarrow> string list \<Rightarrow> bool" for u p where
  itself: "guard_program t = p \<Longrightarrow> \<not> sets_the_environment u t \<Longrightarrow> runs u p d (t # ts)"
| behind_an_assignment: "sets_the_environment u t \<Longrightarrow> runs u p d ts \<Longrightarrow> runs u p d (t # ts)"
| behind_a_wrapper: "\<not> sets_the_environment u w \<Longrightarrow> g \<in> set guard_wrappers \<Longrightarrow> guard_program w = gw_name g \<Longrightarrow>
    flag_words (gw_flags_with_a_value g) fs \<Longrightarrow> length own = gw_own_words g \<Longrightarrow>
    \<not> guard_flag (hd (own @ ts)) \<Longrightarrow> runs u p d ts \<Longrightarrow> runs u p d (w # fs @ own @ ts)"
| in_a_script: "\<not> sets_the_environment u w \<Longrightarrow> guard_program w \<in> set guard_shells \<Longrightarrow>
    list_all (\<lambda>b. \<not> carries_a_script b) bs \<Longrightarrow> carries_a_script c \<Longrightarrow> d < max_wrapping_shells \<Longrightarrow>
    runs u p (d + 1) ts \<Longrightarrow> runs u p d (w # bs @ c # ts)"

lemma runs_nonempty: "runs u p d ts \<Longrightarrow> ts \<noteq> []"
  by (induction rule: runs.induct) auto

lemma flags_are_dropped:
  assumes "flag_words v fs" "ws \<noteq> []" "\<not> guard_flag (hd ws)"
  shows "without_guard_flags v (fs @ ws) = ws"
  using assms
proof (induction rule: flag_words.induct)
  case no_flag
  then show ?case by (cases ws) auto
qed auto

lemma wrapper_by_name: "g \<in> set guard_wrappers \<Longrightarrow> guard_wrapper_named (gw_name g) = Some g"
proof -
  have "list_all (\<lambda>g. guard_wrapper_named (gw_name g) = Some g) guard_wrappers" by code_simp
  then show "g \<in> set guard_wrappers \<Longrightarrow> guard_wrapper_named (gw_name g) = Some g" by (simp add: list_all_iff)
qed

lemma script_is_found:
  "list_all (\<lambda>b. \<not> carries_a_script b) bs \<Longrightarrow> carries_a_script c \<Longrightarrow> ts \<noteq> [] \<Longrightarrow> script_behind (bs @ c # ts) = Some ts"
  by (induction bs) auto

lemma wrappers_are_no_shells: "g \<in> set guard_wrappers \<Longrightarrow> gw_name g \<notin> set guard_shells"
proof -
  have "list_all (\<lambda>g. \<not> List.member guard_shells (gw_name g)) guard_wrappers" by code_simp
  then show "g \<in> set guard_wrappers \<Longrightarrow> gw_name g \<notin> set guard_shells" by (simp add: list_all_iff)
qed

definition plain_program :: "string \<Rightarrow> bool" where
  "plain_program p \<longleftrightarrow> p \<notin> set guard_shells \<and> guard_wrapper_named p = None"

lemma runs_is_found:
  assumes "runs u p d ts" "d \<le> max_wrapping_shells" "plain_program p"
  shows "\<exists>t rest. step_past_the_wrappers u ts d = (t # rest, True) \<and> guard_program t = p"
  using assms
proof (induction rule: runs.induct)
  case (itself t d ts)
  then show ?case
    by (subst step_past_the_wrappers.simps)
      (simp add: plain_program_def without_the_wrapper_def Let_def)
next
  case (behind_an_assignment t d ts)
  then show ?case by (subst step_past_the_wrappers.simps) (simp add: Let_def)
next
  case (behind_a_wrapper w g fs own ts d)
  have "without_the_wrapper (w # fs @ own @ ts) (gw_name g) = (ts, True)"
    using behind_a_wrapper runs_nonempty[OF behind_a_wrapper(7)]
      flags_are_dropped[OF behind_a_wrapper(4), of "own @ ts"]
    by (simp add: without_the_wrapper_def wrapper_by_name)
  then show ?case using behind_a_wrapper wrappers_are_no_shells[OF behind_a_wrapper(2)]
    by (subst step_past_the_wrappers.simps) (simp add: Let_def)
next
  case (in_a_script w bs c d ts)
  have "script_behind (bs @ c # ts) = Some ts"
    using in_a_script runs_nonempty[OF in_a_script(6)] by (intro script_is_found)
  then show ?case using in_a_script by (subst step_past_the_wrappers.simps) (simp add: Let_def)
qed

text \<open>Stepping past the wrappers makes no word up.\<close>

lemma without_guard_flags_set: "set (without_guard_flags v ws) \<subseteq> set ws"
proof (induction v ws rule: without_guard_flags.induct)
  case (2 v w ws)
  have "set (without_guard_flags v (tl ws)) \<subseteq> set ws"
    if "guard_flag w" "w \<in> set v" "ws \<noteq> []" using that 2(1) by (cases ws) fastforce+
  then show ?case using 2(2) by auto
qed simp

lemma script_behind_set: "script_behind ws = Some script \<Longrightarrow> set script \<subseteq> set ws"
  by (induction ws rule: script_behind.induct) (auto split: if_splits)

lemma step_past_set: "set (fst (step_past_the_wrappers u ts d)) \<subseteq> set ts"
proof (induction u ts d rule: step_past_the_wrappers.induct)
  case (1 u tokens d)
  show ?case
  proof (cases tokens)
    case Nil
    then show ?thesis by (subst step_past_the_wrappers.simps) simp
  next
    case (Cons t ts)
    have stepped: "set stepped \<subseteq> set ts" if "without_the_wrapper tokens (guard_program t) = (stepped, True)" for stepped
      using that Cons without_guard_flags_set[of _ ts]
      by (auto simp: without_the_wrapper_def split: option.splits dest!: in_set_dropD)
    show ?thesis
    proof (cases "max_wrapping_shells < d")
      case True
      then show ?thesis by (subst step_past_the_wrappers.simps) simp
    next
      case False
      consider (env) "sets_the_environment u t"
        | (shell) "\<not> sets_the_environment u t" "guard_program t \<in> set guard_shells"
        | (other) "\<not> sets_the_environment u t" "guard_program t \<notin> set guard_shells" by blast
      then show ?thesis
      proof cases
        case env
        then show ?thesis using 1(1)[OF False Cons refl] Cons False
          by (subst step_past_the_wrappers.simps) auto
      next
        case shell
        then show ?thesis using 1(2)[OF False Cons refl] Cons False script_behind_set[of ts]
          by (subst step_past_the_wrappers.simps) (auto simp: Let_def split: option.split)
      next
        case other
        obtain stepped wrapped where w: "without_the_wrapper tokens (guard_program t) = (stepped, wrapped)"
          by (cases "without_the_wrapper tokens (guard_program t)")
        show ?thesis
        proof (cases wrapped)
          case True
          then have "set (fst (step_past_the_wrappers u stepped d)) \<subseteq> set stepped"
            using 1(3)[OF False Cons refl other w[symmetric]] by simp
          then show ?thesis using True w stepped Cons False other
            by (subst step_past_the_wrappers.simps) (auto simp: Let_def)
        next
          case False
          then show ?thesis using w Cons \<open>\<not> max_wrapping_shells < d\<close> other
            by (subst step_past_the_wrappers.simps) (simp add: Let_def)
        qed
      qed
    qed
  qed
qed

section \<open>What is refused and what is taken\<close>

lemma check_segments_refuses:
  "segment \<in> set segments \<Longrightarrow> command_tokens u segment = (t # ts, True) \<Longrightarrow>
    list_ex (matches_refused_work (t # ts)) refused_work \<Longrightarrow> check_segments u segments = Inl Unnamed"
  by (induction u segments rule: check_segments.induct) (auto split: prod.splits)

lemma check_segments_takes:
  "(\<And>segment. segment \<in> set segments \<Longrightarrow> snd (command_tokens u segment) \<and>
      \<not> list_ex (matches_refused_work (fst (command_tokens u segment))) refused_work) \<Longrightarrow>
    check_segments u segments = Inr ()"
proof (induction u segments rule: check_segments.induct)
  case (2 u segment rest)
  have "snd (command_tokens u segment)"
    "\<not> list_ex (matches_refused_work (fst (command_tokens u segment))) refused_work"
    using 2(3)[of segment] by simp_all
  then show ?case using 2 by (cases "command_tokens u segment") simp
qed simp

definition leading_programs :: "string list" where
  "leading_programs = [''reboot'', ''shutdown'', ''halt'', ''poweroff'']"

definition leads_alone :: "string \<Rightarrow> refusal" where
  "leads_alone p = \<lparr>rf_program = p, rf_verbs = [], rf_target = [], rf_must_lead = True\<rparr>"

lemma leading_program_listed: "p \<in> set leading_programs \<Longrightarrow> leads_alone p \<in> set refused_work"
proof -
  have "drop 5 refused_work = map leads_alone leading_programs"
    by (simp add: refused_work_def leads_alone_def leading_programs_def)
  then have "leads_alone ` set leading_programs \<subseteq> set refused_work"
    by (metis list.set_map set_drop_subset)
  then show "p \<in> set leading_programs \<Longrightarrow> leads_alone p \<in> set refused_work" by auto
qed

lemma leading_program_refused:
  assumes "guard_program t \<in> set leading_programs"
  shows "list_ex (matches_refused_work (t # ts)) refused_work"
proof -
  have "matches_refused_work (t # ts) (leads_alone (guard_program t))"
    by (simp add: matches_refused_work_def leads_alone_def)
  then show ?thesis using leading_program_listed[OF assms] by (auto simp: list_ex_iff)
qed

lemma leading_programs_plain: "p \<in> set leading_programs \<Longrightarrow> plain_program p"
proof -
  have "list_all (\<lambda>p. \<not> List.member guard_shells p \<and> guard_wrapper_named p = None) leading_programs" by code_simp
  then show "p \<in> set leading_programs \<Longrightarrow> plain_program p" by (simp add: list_all_iff plain_program_def)
qed

lemma behind_first_None: "behind_first q ws = None \<longleftrightarrow> \<not> list_ex q ws"
  by (induction q ws rule: behind_first.induct) auto

lemma no_program_no_match:
  "\<forall>t \<in> set ts. guard_program t \<noteq> rf_program r \<Longrightarrow> \<not> matches_refused_work ts r"
proof -
  assume "\<forall>t \<in> set ts. guard_program t \<noteq> rf_program r"
  then have "behind_first (\<lambda>t. guard_program t = rf_program r) ts = None"
    by (simp add: behind_first_None list_ex_iff)
  then show ?thesis by (simp add: matches_refused_work_def)
qed

lemma work_that_runs_it_is_refused:
  assumes "segment \<in> set (command_segments txt)" "p \<in> set leading_programs" "runs u p 0 (plain_words u segment)"
  shows "check_it_cannot_restart_the_agent u txt = Inl Unnamed"
proof -
  obtain t rest where "command_tokens u segment = (t # rest, True)" "guard_program t = p"
    using runs_is_found[OF assms(3) _ leading_programs_plain[OF assms(2)]] by (auto simp: command_tokens_def)
  then show ?thesis
    using check_segments_refuses[OF assms(1)] leading_program_refused assms(2)
    by (simp add: check_it_cannot_restart_the_agent_def)
qed

lemma work_without_them_is_taken:
  assumes "\<And>segment. segment \<in> set (command_segments txt) \<Longrightarrow>
      snd (command_tokens u segment) \<and>
      (\<forall>w \<in> set (plain_words u segment). guard_program w \<notin> rf_program ` set refused_work)"
  shows "check_it_cannot_restart_the_agent u txt = Inr ()"
  unfolding check_it_cannot_restart_the_agent_def
proof (rule check_segments_takes)
  fix segment
  assume seg: "segment \<in> set (command_segments txt)"
  have "\<not> matches_refused_work (fst (command_tokens u segment)) r" if "r \<in> set refused_work" for r
    using assms[OF seg] step_past_set[of u "plain_words u segment" 0] that
    by (intro no_program_no_match) (auto simp: command_tokens_def)
  then show "snd (command_tokens u segment) \<and>
      \<not> list_ex (matches_refused_work (fst (command_tokens u segment))) refused_work"
    using assms[OF seg] by (simp add: list_ex_iff)
qed

end
