(* ===== verification/Job_Store.thy ===== *)
theory Job_Store
  imports Record_Keeper Job_Claims Schedule_Words Restart_Guard
begin

text \<open>
  The jobs in memory, over the log and the table of claims: \<open>job.go\<close> and \<open>state.go\<close> of
  \<open>internal/job\<close>, with the summaries of \<open>list.go\<close>. A method holds the lock of the store from its
  first line to its last, so it is one step on the store; it gives its answer and the store afterwards,
  also when it fails half way. Moments the code reads off its clock are arguments.
\<close>

section \<open>The store\<close>

record held_job =
  hj_keeper :: keeper
  hj_state :: job_state

text \<open>
  \<open>so_tell\<close> is the way to the user: none, or a script of whether each message reaches them;
  \<open>so_told\<close> are the messages that did. \<open>so_woken\<close> is the one place of the channel a wait listens
  on. The question the store asks before it hands out work is an argument of \<open>NextTask\<close>.
\<close>

record job_store =
  so_order :: "string list"
  so_held :: "string \<Rightarrow> held_job option"
  so_next :: int
  so_owner :: string
  so_tell :: "bool list option"
  so_told :: "string list"
  so_new :: bool
  so_woken :: bool
  so_last_wait :: moment
  so_log :: event_log
  so_claims :: claims_table

type_synonym 'a act = "job_store \<Rightarrow> (record_error + 'a) \<times> job_store"

definition give :: "'a \<Rightarrow> 'a act" where "give x s = (Inr x, s)"
definition refuse :: "record_error \<Rightarrow> 'a act" where "refuse e s = (Inl e, s)"

definition and_do :: "'a act \<Rightarrow> ('a \<Rightarrow> 'b act) \<Rightarrow> 'b act" where
  "and_do act rest s = (case act s of (Inl e, s') \<Rightarrow> (Inl e, s') | (Inr x, s') \<Rightarrow> rest x s')"

definition on_log :: "(event_log \<Rightarrow> (record_error + 'a) \<times> event_log) \<Rightarrow> 'a act" where
  "on_log f s = (case f (so_log s) of (a, lg) \<Rightarrow> (a, s\<lparr>so_log := lg\<rparr>))"

definition on_claims :: "(claims_table \<Rightarrow> (record_error + 'a) \<times> claims_table) \<Rightarrow> 'a act" where
  "on_claims f s = (case f (so_claims s) of (a, ct) \<Rightarrow> (a, s\<lparr>so_claims := ct\<rparr>))"

definition max_jobs :: nat where "max_jobs = 500"
definition max_tasks_per_job :: nat where "max_tasks_per_job = 200"
definition failures_that_pause :: int where "failures_that_pause = 3"
definition failures_that_switch_off :: int where "failures_that_switch_off = 10"

section \<open>One job\<close>

definition find_job :: "string \<Rightarrow> held_job act" where
  "find_job job s = (case so_held s job of None \<Rightarrow> (Inl Unnamed, s) | Some h \<Rightarrow> (Inr h, s))"

text \<open>What a held job says now. A job is only looked at once it is found; the methods of one that is not
  held are refused.\<close>

definition state_of :: "job_store \<Rightarrow> string \<Rightarrow> job_state" where
  "state_of s job = (case so_held s job of None \<Rightarrow> no_job_state | Some h \<Rightarrow> hj_state h)"

definition record_of :: "job_store \<Rightarrow> string \<Rightarrow> record_of_work" where
  "record_of s job = (case so_held s job of None \<Rightarrow> empty_record | Some h \<Rightarrow> kp_record (hj_keeper h))"

definition look :: "string \<Rightarrow> (job_state \<Rightarrow> record_of_work \<Rightarrow> 'a act) \<Rightarrow> 'a act" where
  "look job f s = f (state_of s job) (record_of s job) s"

definition put_held :: "string \<Rightarrow> held_job \<Rightarrow> job_store \<Rightarrow> job_store" where
  "put_held job h s = s\<lparr>so_held := (so_held s)(job := Some h)\<rparr>"

text \<open>A method of the keeper of a held job.\<close>

definition on_keeper :: "string \<Rightarrow> (keeper \<Rightarrow> event_log \<Rightarrow> 'a answer) \<Rightarrow> 'a act" where
  "on_keeper job f s =
     (case so_held s job of
        None \<Rightarrow> (Inl Unnamed, s)
      | Some h \<Rightarrow>
          (case f (hj_keeper h) (so_log s) of
             (a, k, lg) \<Rightarrow> (a, put_held job (h\<lparr>hj_keeper := k\<rparr>) (s\<lparr>so_log := lg\<rparr>))))"

definition job_number :: "string \<Rightarrow> int option" where
  "job_number job =
     (case atoi job of
        None \<Rightarrow> None
      | Some n \<Rightarrow> if n < 1 \<or> job \<noteq> itoa n then None else Some n)"

definition job_of_log_key :: "string \<Rightarrow> string option" where
  "job_of_log_key key =
     (if length key < 2 \<or> hd key \<noteq> CHR ''j'' then None
      else if job_number (tl key) = None then None
      else Some (tl key))"

section \<open>The state in the log\<close>

text \<open>What \<open>encoding/json\<close> writes of a state and reads back: the texts as their runes, and all of it
  but the notepad. The labels of tasks and of reports are texts too.\<close>

definition json_schedule :: "schedule \<Rightarrow> schedule" where
  "json_schedule sc = sc\<lparr>sc_kind := json_text (sc_kind sc), sc_cron := json_text (sc_cron sc),
     sc_timezone := json_text (sc_timezone sc)\<rparr>"

definition json_incident :: "incident \<Rightarrow> incident" where
  "json_incident i = i\<lparr>in_signature := json_text (in_signature i), in_error := json_text (in_error i)\<rparr>"

definition json_mark :: "put_down_mark \<Rightarrow> put_down_mark" where
  "json_mark p = p\<lparr>pd_task := \<lparr>tr_job = json_text (tr_job (pd_task p)), tr_task = json_text (tr_task (pd_task p)),
       tr_text = json_text (tr_text (pd_task p)), tr_unattended = tr_unattended (pd_task p)\<rparr>,
     pd_run := json_text (pd_run p), pd_question := json_text (pd_question p)\<rparr>"

definition json_state :: "job_state \<Rightarrow> job_state" where
  "json_state st = st\<lparr>jb_state := json_text (jb_state st), jb_schedule := map_option json_schedule (jb_schedule st),
     jb_template := json_text (jb_template st), jb_output_hash := json_text (jb_output_hash st),
     jb_output_report := json_text (jb_output_report st), jb_incidents := map json_incident (jb_incidents st),
     jb_tasks := map (\<lambda>(i, f). (json_text i, f)) (jb_tasks st),
     jb_put_down := map_option json_mark (jb_put_down st), jb_notepad := []\<rparr>"

definition json_event :: "state_event \<Rightarrow> state_event" where
  "json_event ev = \<lparr>se_marker = json_text (se_marker ev), se_snapshot = map_option json_state (se_snapshot ev),
     se_note = json_text (se_note ev)\<rparr>"

definition state_body :: "state_event \<Rightarrow> event_body" where
  "state_body ev =
     \<lparr>b_is_json = True, b_checkpoint = Some \<lparr>cp_number = 0, cp_text = [], cp_ask_from = 0\<rparr>,
      b_result = Some \<lparr>sr_id = [], sr_call_id = [], sr_summary = [], sr_text = []\<rparr>,
      b_state = Some (json_event ev), b_message = Some []\<rparr>"

text \<open>\<open>json.Marshal\<close> refuses a state that holds a moment it cannot write.\<close>

definition facts_moments :: "task_facts \<Rightarrow> moment list" where
  "facts_moments f = [tf_due f, tf_started f, tf_finished f]"

definition state_moments :: "job_state \<Rightarrow> moment list" where
  "state_moments st =
     (case jb_schedule st of None \<Rightarrow> [] | Some sc \<Rightarrow> [sc_at sc])
     @ [jb_started st, jb_finished st, jb_last_run st, jb_next_run st]
     @ concat (map (\<lambda>i. [in_first_seen i, in_last_seen i]) (jb_incidents st))
     @ concat (map (\<lambda>(_, f). facts_moments f) (jb_tasks st))"

definition can_be_written :: "job_machine \<Rightarrow> state_event \<Rightarrow> bool" where
  "can_be_written m ev \<longleftrightarrow>
     (case se_snapshot ev of
        None \<Rightarrow> True
      | Some st \<Rightarrow> list_all (\<lambda>t. t = 0 \<or> jm_moment_written m t) (state_moments st))"

definition append_state :: "job_machine \<Rightarrow> string \<Rightarrow> state_event \<Rightarrow> unit act" where
  "append_state m job ev =
     (if \<not> can_be_written m ev then refuse Unnamed
      else on_log (\<lambda>lg.
        case log_append lg (new_event (record_log_key record_job job) event_record_change (state_body ev)) of
          (Inl e, lg') \<Rightarrow> (Inl e, lg')
        | (Inr _, lg') \<Rightarrow> (Inr (), lg')))"

definition snapshot_event :: "job_state \<Rightarrow> state_event" where
  "snapshot_event st = \<lparr>se_marker = state_marker, se_snapshot = Some st, se_note = []\<rparr>"

definition note_event :: "string \<Rightarrow> state_event" where
  "note_event said = \<lparr>se_marker = state_marker, se_snapshot = None, se_note = said\<rparr>"

definition put_state :: "string \<Rightarrow> job_state \<Rightarrow> unit act" where
  "put_state job st s =
     (Inr (), (case so_held s job of None \<Rightarrow> s | Some h \<Rightarrow> put_held job (h\<lparr>hj_state := st\<rparr>) s))"

definition save_state :: "job_machine \<Rightarrow> string \<Rightarrow> job_state \<Rightarrow> unit act" where
  "save_state m job changed s =
     (case so_held s job of
        None \<Rightarrow> (Inl Unnamed, s)
      | Some h \<Rightarrow>
          let kept = changed\<lparr>jb_notepad := jb_notepad (hj_state h)\<rparr> in
          and_do (append_state m job (snapshot_event kept)) (\<lambda>_. put_state job kept) s)"

section \<open>Waking\<close>

definition wake :: "unit act" where
  "wake s = (Inr (), s\<lparr>so_new := True, so_woken := True\<rparr>)"

definition looked_for_work :: "unit act" where
  "looked_for_work s = (Inr (), s\<lparr>so_new := False, so_woken := False\<rparr>)"

section \<open>Summaries\<close>

definition title_of :: "goal \<Rightarrow> string" where
  "title_of g = (if g_name g \<noteq> [] then g_name g else g_ask g)"

definition unfinished :: "job_task list \<Rightarrow> job_task list" where
  "unfinished tasks = filter (\<lambda>t. \<not> jt_done t) tasks"

definition summary_of :: "string \<Rightarrow> moment \<Rightarrow> job_summary act" where
  "summary_of job now =
     and_do (on_claims (claimed_tasks job now)) (\<lambda>running.
     look job (\<lambda>st r.
       let listed = w_tasks (r_work r);
           following = find (\<lambda>t. jt_id t \<notin> set running) (unfinished listed)
       in give \<lparr>jy_id = job, jy_title = title_of (r_goal r), jy_state = jb_state st,
                jy_tasks_done = length (filter jt_done listed), jy_tasks_total = length listed,
                jy_next_task = (case following of None \<Rightarrow> [] | Some t \<Rightarrow> jt_id t),
                jy_next_due = (case following of None \<Rightarrow> 0 | Some t \<Rightarrow> tf_due (state_facts st (jt_id t))),
                jy_last_run = jb_last_run st, jy_next_run = jb_next_run st,
                jy_failures = jb_failures st\<rparr>))"

fun summaries :: "(nat \<Rightarrow> moment) \<Rightarrow> nat \<Rightarrow> string list \<Rightarrow> job_summary list act" where
  "summaries clock at [] = give []"
| "summaries clock at (job # jobs) =
     and_do (summary_of job (clock at)) (\<lambda>one.
     and_do (summaries clock (at + 1) jobs) (\<lambda>more. give (one # more)))"

text \<open>\<open>List\<close>; each summary reads the clock.\<close>

definition list_jobs :: "(nat \<Rightarrow> moment) \<Rightarrow> job_summary list act" where
  "list_jobs clock s = summaries clock 0 (so_order s) s"

definition load_job :: "string \<Rightarrow> record_of_work act" where
  "load_job job = and_do (find_job job) (\<lambda>h. give (kp_record (hj_keeper h)))"

definition timing_of :: "string \<Rightarrow> job_timing act" where
  "timing_of job =
     and_do (find_job job) (\<lambda>h.
       give \<lparr>jg_started = jb_started (hj_state h), jg_finished = jb_finished (hj_state h),
             jg_tasks = map (\<lambda>(i, f). (i, \<lparr>ti_started = tf_started f, ti_finished = tf_finished f\<rparr>))
               (filter (\<lambda>(_, f). tf_started f \<noteq> 0) (jb_tasks (hj_state h)))\<rparr>)"

definition incidents_of :: "string \<Rightarrow> incident list act" where
  "incidents_of job = and_do (find_job job) (\<lambda>h. give (jb_incidents (hj_state h)))"

definition notepad_of :: "string \<Rightarrow> string act" where
  "notepad_of job = and_do (find_job job) (\<lambda>h. give (jb_notepad (hj_state h)))"

definition append_note :: "job_machine \<Rightarrow> string \<Rightarrow> string \<Rightarrow> unit act" where
  "append_note m job said =
     (let trimmed = trim_space said in
      if trimmed = [] then refuse Unnamed
      else
        and_do (find_job job) (\<lambda>h.
        and_do (append_state m job (note_event trimmed)) (\<lambda>_.
        look job (\<lambda>st _. put_state job (st\<lparr>jb_notepad := append_to_notepad (jb_notepad st) trimmed\<rparr>)))))"

section \<open>The header of the record\<close>

definition next_due_line :: "job_task \<Rightarrow> string" where
  "next_due_line t = (if jt_due t = [] then ''task '' @ jt_id t @ '' now'' else ''task '' @ jt_id t @ '' '' @ jt_due t)"

definition write_progress :: "string \<Rightarrow> unit act" where
  "write_progress job =
     look job (\<lambda>_ r.
       let listed = w_tasks (r_work r) in
       on_keeper job (set_progress (int (length (filter jt_done listed))) (int (length listed))
         (case unfinished listed of [] \<Rightarrow> [] | t # _ \<Rightarrow> next_due_line t)))"

end
