(* ===== verification/Job_Work.thy ===== *)
theory Job_Work
  imports Job_Store
begin

text \<open>
  \<open>create.go\<close>, \<open>finish.go\<close>, \<open>provedone.go\<close>, \<open>folder.go\<close> and \<open>control.go\<close> of
  \<open>internal/job\<close>: making a job, putting tasks on its list, taking their reports back, and what the
  user does to a job.
\<close>

definition no_change :: update where
  "no_change = \<lparr>up_name = [], up_why = [], up_done_when = None, up_stop_when = None, up_plan = None,
     up_tasks = None, up_decision = None, up_failure = None, up_step_done = None\<rparr>"

definition apply_to_job :: "job_machine \<Rightarrow> string \<Rightarrow> update \<Rightarrow> unit act" where
  "apply_to_job m job up = on_keeper job (keeper_apply (jm_unicode m) up)"

section \<open>Making a job\<close>

definition check_the_template :: "job_machine \<Rightarrow> schedule option \<Rightarrow> string \<Rightarrow> record_error + unit" where
  "check_the_template m wanted template =
     (if wanted \<noteq> None \<and> template = [] then Inl Unnamed
      else if wanted = None \<and> template \<noteq> [] then Inl Unnamed
      else check_it_cannot_restart_the_agent (jm_unicode m) template)"

definition done_lines_of :: "string list \<Rightarrow> done_line list" where
  "done_lines_of lines = map (\<lambda>l. \<lparr>dl_text = l, dl_done = False, dl_result = [], dl_reply = []\<rparr>) lines"

text \<open>One step on a keeper that no store holds yet, and the next.\<close>

definition keeper_then :: "(keeper \<Rightarrow> event_log \<Rightarrow> 'a answer) \<Rightarrow> ('a \<Rightarrow> keeper \<Rightarrow> event_log \<Rightarrow> 'b answer) \<Rightarrow>
    keeper \<Rightarrow> event_log \<Rightarrow> 'b answer" where
  "keeper_then f rest k lg =
     (case f k lg of (Inl e, k', lg') \<Rightarrow> (Inl e, k', lg') | (Inr x, k', lg') \<Rightarrow> rest x k' lg')"

fun add_the_rules :: "string list \<Rightarrow> keeper \<Rightarrow> event_log \<Rightarrow> unit answer" where
  "add_the_rules [] k lg = (Inr (), k, lg)"
| "add_the_rules (rule # rest) k lg = keeper_then (add_correction rule) (\<lambda>_. add_the_rules rest) k lg"

definition write_the_work_orders_parts :: "job_machine \<Rightarrow> new_job \<Rightarrow> keeper \<Rightarrow> event_log \<Rightarrow> unit answer" where
  "write_the_work_orders_parts m wanted =
     keeper_then
       (\<lambda>k lg. if nj_done_when wanted = [] then (Inr (), k, lg)
               else keeper_apply (jm_unicode m)
                      (no_change\<lparr>up_done_when := Some (done_lines_of (nj_done_when wanted))\<rparr>) k lg)
       (\<lambda>_. add_the_rules (nj_rules wanted))"

definition write_the_new_job :: "job_machine \<Rightarrow> new_job \<Rightarrow> keeper \<Rightarrow> event_log \<Rightarrow> unit answer" where
  "write_the_new_job m wanted =
     keeper_then
       (\<lambda>k lg. if nj_name wanted = [] \<and> nj_why wanted = [] then (Inr (), k, lg)
               else keeper_apply (jm_unicode m)
                      (no_change\<lparr>up_name := nj_name wanted, up_why := nj_why wanted\<rparr>) k lg)
       (\<lambda>_. keeper_then (write_the_work_orders_parts m wanted)
       (\<lambda>_ k lg. if nj_folder wanted = [] then (Inr (), k, lg)
                 else set_situation [project_folder_line @ nj_folder wanted] k lg))"

definition job_start :: "string \<Rightarrow> string \<Rightarrow> start_of_record" where
  "job_start job ask = \<lparr>st_kind = record_job, st_id = job, st_origin = [], st_ask = ask, st_rounds_left = 0,
     st_no_round_budget = False, st_minutes_left = 0, st_no_time_budget = False\<rparr>"

definition starting_state :: "job_machine \<Rightarrow> new_job \<Rightarrow> moment \<Rightarrow> moment \<Rightarrow> record_error + job_state" where
  "starting_state m wanted now now' =
     (let starting = no_job_state\<lparr>jb_state := job_running, jb_schedule := nj_schedule wanted,
            jb_template := nj_template wanted, jb_started := now\<rparr>
      in case nj_schedule wanted of
           None \<Rightarrow> Inr starting
         | Some sc \<Rightarrow> and_then (next_run m sc now') (\<lambda>first_run. Inr (starting\<lparr>jb_next_run := first_run\<rparr>)))"

text \<open>The record of a new job is in the log before the job is in the store. The clock is read twice.\<close>

definition create_job :: "job_machine \<Rightarrow> moment \<Rightarrow> moment \<Rightarrow> new_job \<Rightarrow> string act" where
  "create_job m now now' wanted s =
     (if nj_ask wanted = [] then (Inl Unnamed, s)
      else case and_then (check_it_cannot_restart_the_agent (jm_unicode m) (nj_ask wanted)) (\<lambda>_.
                and_then (check_the_schedule m (nj_schedule wanted)) (\<lambda>_.
                check_the_template m (nj_schedule wanted) (nj_template wanted))) of
        Inl e \<Rightarrow> (Inl e, s)
      | Inr _ \<Rightarrow>
          if max_jobs \<le> length (so_order s) then (Inl Unnamed, s)
          else
            let job = itoa (so_next s) in
            and_do (on_log (new_keeper (job_start job (nj_ask wanted)))) (\<lambda>k.
            and_do (on_log (\<lambda>lg. case write_the_new_job m wanted k lg of
                                   (Inl e, _, lg') \<Rightarrow> (Inl e, lg') | (Inr _, k', lg') \<Rightarrow> (Inr k', lg'))) (\<lambda>k'.
            case starting_state m wanted now now' of
              Inl e \<Rightarrow> refuse e
            | Inr starting \<Rightarrow>
                and_do (append_state m job (snapshot_event starting)) (\<lambda>_.
                and_do (\<lambda>s'. (Inr (), put_held job \<lparr>hj_keeper = k', hj_state = starting\<rparr>
                     (s'\<lparr>so_next := wrap64 (so_next s' + 1), so_order := so_order s' @ [job]\<rparr>))) (\<lambda>_.
                and_do wake (\<lambda>_. give job))))) s)"

section \<open>Adding a task\<close>

fun highest_task_number :: "int \<Rightarrow> job_task list \<Rightarrow> int" where
  "highest_task_number highest [] = highest"
| "highest_task_number highest (t # ts) =
     highest_task_number
       (case parse_task_id (jt_id t) of None \<Rightarrow> highest | Some n \<Rightarrow> if highest < n then n else highest) ts"

definition as_written :: "job_task \<Rightarrow> new_job_task" where
  "as_written t = \<lparr>nt_id = jt_id t, nt_text = jt_text t, nt_due = jt_due t\<rparr>"

definition add_task_to :: "job_machine \<Rightarrow> string \<Rightarrow> string \<Rightarrow> moment \<Rightarrow> bool \<Rightarrow> string act" where
  "add_task_to m job txt due unattended =
     look job (\<lambda>_ r.
       let listed = w_tasks (r_work r); task = task_id (wrap64 (highest_task_number 0 listed + 1)) in
       if max_tasks_per_job \<le> length listed then refuse Unnamed
       else
         and_do (apply_to_job m job (no_change\<lparr>up_tasks := Some (map as_written listed
                   @ [\<lparr>nt_id = task, nt_text = txt, nt_due = due_in_plain_words m due\<rparr>])\<rparr>)) (\<lambda>_.
         and_do (look job (\<lambda>st _. save_state m job
                   (with_task task (no_facts\<lparr>tf_due := due, tf_unattended := unattended\<rparr>) st))) (\<lambda>_.
         and_do (write_progress job) (\<lambda>_.
         and_do wake (\<lambda>_. give task)))))"

definition add_task :: "job_machine \<Rightarrow> new_task \<Rightarrow> string act" where
  "add_task m wanted =
     (if nk_text wanted = [] then refuse Unnamed
      else case check_it_cannot_restart_the_agent (jm_unicode m) (nk_text wanted) of
        Inl e \<Rightarrow> refuse e
      | Inr _ \<Rightarrow>
          and_do (find_job (nk_job wanted)) (\<lambda>_.
            add_task_to m (nk_job wanted) (nk_text wanted) (nk_due wanted) False))"

section \<open>Stopping and closing\<close>

text \<open>A message to the user: none when there is no way to them, an error when it does not reach them.\<close>

definition tell_the_user :: "string \<Rightarrow> unit act" where
  "tell_the_user said s =
     (case so_tell s of
        None \<Rightarrow> (Inr (), s)
      | Some answers \<Rightarrow>
          let later = s\<lparr>so_tell := Some (tl answers)\<rparr> in
          if answers = [] \<or> hd answers then (Inr (), later\<lparr>so_told := so_told s @ [said]\<rparr>)
          else (Inl Unnamed, later))"

definition say_the_job_stopped :: "string \<Rightarrow> string \<Rightarrow> string \<Rightarrow> unit act" where
  "say_the_job_stopped job why cause =
     tell_the_user (why @ ''. The last failure was: '' @ cause @ ''. Run /jobs '' @ job
       @ '' to see it, and /cron run '' @ job @ '' to start it again.'')"

definition stop_the_job :: "job_machine \<Rightarrow> string \<Rightarrow> job_standing \<Rightarrow> string \<Rightarrow> string \<Rightarrow> unit act" where
  "stop_the_job m job state why said_cause =
     (let cause = (if said_cause = [] then ''no cause was given'' else said_cause) in
      and_do (apply_to_job m job (no_change\<lparr>up_failure := Some \<lparr>nf_text = safe_line why, nf_cause = cause\<rparr>\<rparr>)) (\<lambda>_.
      and_do (on_keeper job (set_status (record_status_of_job state))) (\<lambda>_.
      and_do (look job (\<lambda>st _. save_state m job (st\<lparr>jb_state := state\<rparr>))) (\<lambda>_.
      say_the_job_stopped job why cause))))"

definition stop_if_it_keeps_failing :: "job_machine \<Rightarrow> string \<Rightarrow> string \<Rightarrow> unit act" where
  "stop_if_it_keeps_failing m job report =
     look job (\<lambda>st _.
       if jb_keep_running st then give ()
       else if jb_schedule st \<noteq> None then
         (if jb_failures st < failures_that_switch_off then give ()
          else stop_the_job m job job_off
                 (''job '' @ job @ '' was switched off after '' @ itoa (jb_failures st) @ '' of its tasks failed in a row'')
                 (safe_line report))
       else
         (if jb_failures st < failures_that_pause then give ()
          else stop_the_job m job job_paused
                 (''job '' @ job @ '' was paused after '' @ itoa (jb_failures st) @ '' of its tasks failed in a row'')
                 (safe_line report)))"

definition the_tasks_are_the_done_list :: "job_machine \<Rightarrow> string \<Rightarrow> unit act" where
  "the_tasks_are_the_done_list m job =
     look job (\<lambda>_ r.
       if g_done_when (r_goal r) \<noteq> [] then give ()
       else apply_to_job m job (no_change\<lparr>up_done_when := Some (map (\<lambda>t.
              \<lparr>dl_text = jt_text t, dl_done = True, dl_result = jt_report t, dl_reply = []\<rparr>) (w_tasks (r_work r)))\<rparr>))"

definition close_if_every_task_is_done :: "job_machine \<Rightarrow> string \<Rightarrow> moment \<Rightarrow> unit act" where
  "close_if_every_task_is_done m job now =
     look job (\<lambda>st r.
       if jb_schedule st \<noteq> None \<or> jb_state st \<noteq> job_running then give ()
       else if unfinished (w_tasks (r_work r)) \<noteq> [] then give ()
       else
         and_do (the_tasks_are_the_done_list m job) (\<lambda>_.
         look job (\<lambda>_ r'.
           if done_check r' \<noteq> Inr () then give ()
           else
             and_do (on_keeper job (set_status status_done)) (\<lambda>_.
             look job (\<lambda>st' _. save_state m job (st'\<lparr>jb_state := job_done, jb_finished := now\<rparr>))))))"

section \<open>Taking a report back\<close>

definition unfinished_task :: "job_state \<Rightarrow> record_of_work \<Rightarrow> string \<Rightarrow> record_error + task_facts" where
  "unfinished_task st r task =
     (case job_task_labelled (w_tasks (r_work r)) task of
        None \<Rightarrow> Inl Unnamed
      | Some t \<Rightarrow> if jt_done t then Inl Unnamed else Inr (state_facts st task))"

definition record_holds_report :: "record_of_work \<Rightarrow> string \<Rightarrow> bool" where
  "record_holds_report r report \<longleftrightarrow> report \<noteq> [] \<and> list_ex (\<lambda>l. rl_id l = report) (w_results (r_work r))"

definition hash_of :: "job_machine \<Rightarrow> string \<Rightarrow> string" where
  "hash_of m output = jm_sha256 m output"

definition report_line :: "string \<Rightarrow> bool \<Rightarrow> string" where
  "report_line report failed =
     (let summary = (if safe_line report = [] then ''the task reported nothing'' else safe_line report)
      in if failed then ''failed: '' @ summary else summary)"

definition write_report :: "job_machine \<Rightarrow> string \<Rightarrow> string \<Rightarrow> bool \<Rightarrow> (string \<times> bool) act" where
  "write_report m job report failed =
     look job (\<lambda>st r.
       if \<not> failed \<and> jb_monitor st \<and> jb_output_hash st = hash_of m report
         \<and> record_holds_report r (jb_output_report st)
       then give (jb_output_report st, True)
       else and_do (on_keeper job (add_report (report_line report failed) report)) (\<lambda>i. give (i, False)))"

definition count_the_failure :: "job_machine \<Rightarrow> job_state \<Rightarrow> string \<Rightarrow> moment \<Rightarrow> job_state" where
  "count_the_failure m changed report now =
     (let counted = changed\<lparr>jb_failures := wrap64 (jb_failures changed + 1),
            jb_incidents := fst (note_incident m (jb_incidents changed) report now)\<rparr>
      in case jb_schedule counted of
           None \<Rightarrow> counted
         | Some sc \<Rightarrow>
             (case after_a_failed_tick m sc now (jb_failures counted) of
                Inl _ \<Rightarrow> counted
              | Inr (pushed_back, waited) \<Rightarrow> counted\<lparr>jb_next_run := pushed_back, jb_backoff := waited\<rparr>))"

definition state_after_report ::
  "job_machine \<Rightarrow> job_state \<Rightarrow> string \<Rightarrow> task_facts \<Rightarrow> string \<Rightarrow> string \<Rightarrow> bool \<Rightarrow> bool \<Rightarrow> moment \<Rightarrow> job_state" where
  "state_after_report m st task facts reported report quiet failed now =
     (let changed = (with_task task (facts\<lparr>tf_finished := now\<rparr>) st)\<lparr>jb_last_run := now\<rparr>;
          compared =
            (if quiet then changed\<lparr>jb_output_report := reported\<rparr>
             else if \<not> failed \<and> jb_monitor changed
             then changed\<lparr>jb_output_hash := hash_of m report, jb_output_report := reported\<rparr>
             else changed)
      in if failed then count_the_failure m compared report now
         else compared\<lparr>jb_failures := 0, jb_backoff := 0\<rparr>)"

definition after_one_task :: "job_machine \<Rightarrow> string \<Rightarrow> string \<Rightarrow> bool \<Rightarrow> moment \<Rightarrow> unit act" where
  "after_one_task m job report failed now =
     (if failed then stop_if_it_keeps_failing m job report else close_if_every_task_is_done m job now)"

definition wake_if_running :: "string \<Rightarrow> unit act" where
  "wake_if_running job = look job (\<lambda>st _. if jb_state st = job_running then wake else give ())"

definition finish_task_of :: "job_machine \<Rightarrow> string \<Rightarrow> string \<Rightarrow> string \<Rightarrow> bool \<Rightarrow> moment \<Rightarrow> string act" where
  "finish_task_of m job task report failed now =
     look job (\<lambda>st r. case unfinished_task st r task of
       Inl e \<Rightarrow> refuse e
     | Inr facts \<Rightarrow>
         and_do (on_claims (release_task job task)) (\<lambda>_.
         and_do (write_report m job report failed) (\<lambda>(reported, quiet).
         look job (\<lambda>st' _.
           let changed = state_after_report m st' task facts reported report quiet failed now in
           and_do (if \<not> failed \<or> tf_unattended facts then on_keeper job (mark_job_task task reported)
                   else give ()) (\<lambda>_.
           and_do (save_state m job changed) (\<lambda>_.
           and_do (after_one_task m job report failed now) (\<lambda>_.
           and_do (wake_if_running job) (\<lambda>_.
           and_do (write_progress job) (\<lambda>_. give reported)))))))))"

definition finish_task :: "job_machine \<Rightarrow> moment \<Rightarrow> string \<Rightarrow> string \<Rightarrow> string \<Rightarrow> bool \<Rightarrow> string act" where
  "finish_task m now job task report failed =
     and_do (find_job job) (\<lambda>_. finish_task_of m job task report failed now)"

section \<open>Proving a line, and the folder\<close>

definition prove_done_line :: "job_machine \<Rightarrow> moment \<Rightarrow> string \<Rightarrow> int \<Rightarrow> string \<Rightarrow> unit act" where
  "prove_done_line m now job number result =
     and_do (find_job job) (\<lambda>_.
     look job (\<lambda>_ r.
       let lines = g_done_when (r_goal r); at = nat number - 1 in
       if number < 1 \<or> int (length lines) < number then refuse Unnamed
       else
         and_do (apply_to_job m job (no_change\<lparr>up_done_when := Some (lines[at :=
             (lines ! at)\<lparr>dl_done := (result \<noteq> []), dl_result := result\<rparr>])\<rparr>)) (\<lambda>_.
         close_if_every_task_is_done m job now)))"

definition set_project_folder :: "string \<Rightarrow> string \<Rightarrow> unit act" where
  "set_project_folder job folder =
     (if folder = [] then refuse Unnamed
      else and_do (find_job job) (\<lambda>_. on_keeper job (set_situation [project_folder_line @ folder])))"

section \<open>What the user does to a job\<close>

definition start_working :: "job_machine \<Rightarrow> string \<Rightarrow> moment \<Rightarrow> unit act" where
  "start_working m job now =
     and_do (on_claims (release_the_claims_of job)) (\<lambda>_.
     and_do (on_keeper job (set_status status_running)) (\<lambda>_.
     and_do (look job (\<lambda>st _. save_state m job (st\<lparr>jb_state := job_running, jb_failures := 0, jb_backoff := 0,
               jb_put_down := None\<rparr>))) (\<lambda>_.
     and_do wake (\<lambda>_. close_if_every_task_is_done m job now))))"

definition set_state :: "job_machine \<Rightarrow> moment \<Rightarrow> string \<Rightarrow> job_standing \<Rightarrow> unit act" where
  "set_state m now job state =
     and_do (find_job job) (\<lambda>_.
       if state = job_running then start_working m job now
       else
         and_do (on_keeper job (set_status (record_status_of_job state))) (\<lambda>_.
         look job (\<lambda>st _. save_state m job (st\<lparr>jb_state := state\<rparr>))))"

definition pause_job :: "job_machine \<Rightarrow> moment \<Rightarrow> string \<Rightarrow> unit act" where
  "pause_job m now job = set_state m now job job_paused"

definition switch_off :: "job_machine \<Rightarrow> moment \<Rightarrow> string \<Rightarrow> unit act" where
  "switch_off m now job = set_state m now job job_off"

definition resume_job :: "job_machine \<Rightarrow> moment \<Rightarrow> string \<Rightarrow> unit act" where
  "resume_job m now job = set_state m now job job_running"

definition put_down_on :: "job_machine \<Rightarrow> string \<Rightarrow> put_down_mark \<Rightarrow> unit act" where
  "put_down_on m job mark =
     and_do (on_keeper job (set_status (record_status_of_job job_paused))) (\<lambda>_.
     look job (\<lambda>st _. save_state m job (st\<lparr>jb_state := job_paused, jb_put_down := Some mark\<rparr>)))"

definition put_down :: "job_machine \<Rightarrow> put_down_mark \<Rightarrow> unit act" where
  "put_down m mark =
     (let job = tr_job (pd_task mark) in
      and_do (find_job job) (\<lambda>_.
      look job (\<lambda>st r.
        if jb_state st = job_off then refuse Unnamed
        else (case unfinished_task st r (tr_task (pd_task mark)) of
                Inl e \<Rightarrow> refuse e
              | Inr _ \<Rightarrow> put_down_on m job mark))))"

fun newest_put_down :: "job_store \<Rightarrow> put_down_mark option \<Rightarrow> string list \<Rightarrow> put_down_mark option" where
  "newest_put_down s newest [] = newest"
| "newest_put_down s newest (job # jobs) =
     newest_put_down s
       (case jb_put_down (state_of s job) of
          None \<Rightarrow> newest
        | Some mark \<Rightarrow>
            if jb_state (state_of s job) \<noteq> job_paused then newest
            else (case newest of
                    None \<Rightarrow> Some mark
                  | Some held \<Rightarrow> if run_number_of (pd_run held) < run_number_of (pd_run mark) then Some mark else newest))
       jobs"

definition put_down_task :: "put_down_mark option act" where
  "put_down_task s = (Inr (newest_put_down s None (so_order s)), s)"

definition pick_up_once :: "job_machine \<Rightarrow> string \<Rightarrow> string \<Rightarrow> bool act" where
  "pick_up_once m job task =
     and_do (find_job job) (\<lambda>_.
     look job (\<lambda>st r. case unfinished_task st r task of
       Inl e \<Rightarrow> refuse e
     | Inr facts \<Rightarrow>
         if tf_picked_up facts then give False
         else and_do (save_state m job (with_task task (facts\<lparr>tf_picked_up := True\<rparr>) st)) (\<lambda>_. give True)))"

definition defer_task :: "job_machine \<Rightarrow> string \<Rightarrow> string \<Rightarrow> bool act" where
  "defer_task m job task =
     and_do (find_job job) (\<lambda>_.
     look job (\<lambda>st r. case unfinished_task st r task of
       Inl e \<Rightarrow> refuse e
     | Inr facts \<Rightarrow>
         if tf_deferred facts then give False
         else
           and_do (on_claims (release_task job task)) (\<lambda>_.
           and_do (look job (\<lambda>st' _. save_state m job (with_task task (facts\<lparr>tf_deferred := True\<rparr>) st'))) (\<lambda>_.
           give True))))"

definition the_task_run_now_starts :: "job_state \<Rightarrow> record_of_work \<Rightarrow> string" where
  "the_task_run_now_starts st r =
     (case jb_put_down st of
        Some mark \<Rightarrow> tr_task (pd_task mark)
      | None \<Rightarrow> (case unfinished (w_tasks (r_work r)) of [] \<Rightarrow> [] | t # _ \<Rightarrow> jt_id t))"

definition run_now :: "job_machine \<Rightarrow> moment \<Rightarrow> moment \<Rightarrow> string \<Rightarrow> unit act" where
  "run_now m now now' job =
     and_do (find_job job) (\<lambda>_.
     look job (\<lambda>st r.
       let following = the_task_run_now_starts st r in
       and_do (start_working m job now) (\<lambda>_.
       look job (\<lambda>st' r'.
         let ticked = (if jb_schedule st' \<noteq> None then st'\<lparr>jb_next_run := now'\<rparr> else st');
             written = map (\<lambda>t. if jt_id t = following then (as_written t)\<lparr>nt_due := []\<rparr> else as_written t)
                         (w_tasks (r_work r'))
         in
         and_do (if following \<noteq> [] then apply_to_job m job (no_change\<lparr>up_tasks := Some written\<rparr>) else give ()) (\<lambda>_.
         and_do (save_state m job
           (if following \<noteq> []
            then with_task following (no_facts\<lparr>tf_unattended := tf_unattended (state_facts ticked following)\<rparr>) ticked
            else ticked)) (\<lambda>_.
         write_progress job))))))"

definition set_monitor :: "job_machine \<Rightarrow> string \<Rightarrow> bool \<Rightarrow> unit act" where
  "set_monitor m job watching =
     and_do (find_job job) (\<lambda>_.
     look job (\<lambda>st _.
       if jb_schedule st = None \<and> watching then refuse Unnamed
       else save_state m job (st\<lparr>jb_monitor := watching\<rparr>)))"

definition keep_running_when_its_tasks_fail :: "job_machine \<Rightarrow> string \<Rightarrow> unit act" where
  "keep_running_when_its_tasks_fail m job =
     and_do (find_job job) (\<lambda>_.
     look job (\<lambda>st _. if jb_keep_running st then give () else save_state m job (st\<lparr>jb_keep_running := True\<rparr>)))"

end
