(* ===== verification/Job_Scheduler.thy ===== *)
theory Job_Scheduler
  imports Job_Work
begin

text \<open>
  \<open>next.go\<close> and \<open>interrupted.go\<close> of \<open>internal/job\<close>, and the opening of a store
  (\<open>job.go\<close>, \<open>state.go\<close>): handing out the next task, ticking a schedule, giving up what has run
  too long, how long a wait may sleep, rebuilding the jobs from the log, and putting down what a dead
  process left.
\<close>

section \<open>The order of a list\<close>

text \<open>\<open>passedOver\<close>: whether the task at a place waits for another.\<close>

definition passed_over :: "job_state \<Rightarrow> job_task list \<Rightarrow> nat \<Rightarrow> bool" where
  "passed_over st tasks at \<longleftrightarrow>
     (let end_of_list = length tasks - 1; set_aside = (\<lambda>i. tf_deferred (state_facts st (jt_id (tasks ! i))))
      in list_ex (\<lambda>other.
           other \<noteq> at \<and> \<not> jt_done (tasks ! other)
           \<and> ((set_aside at \<and> other \<noteq> end_of_list \<and> \<not> set_aside other)
              \<or> (at = end_of_list \<and> set_aside other))) [0..<length tasks])"

section \<open>A tick\<close>

definition tick_schedule :: "job_machine \<Rightarrow> moment \<Rightarrow> string \<Rightarrow> unit act" where
  "tick_schedule m now job =
     look job (\<lambda>st _.
       case jb_schedule st of
         None \<Rightarrow> give ()
       | Some sc \<Rightarrow>
           if jb_next_run st = 0 \<or> now < jb_next_run st then give ()
           else (case next_run m sc now of
             Inl e \<Rightarrow> refuse e
           | Inr following \<Rightarrow>
               and_do (save_state m job (st\<lparr>jb_next_run := following\<rparr>)) (\<lambda>_.
               \<lambda>s. case add_task_to m job (jb_template (state_of s job)) (jb_next_run st) True s of
                     (Inr _, s') \<Rightarrow> (Inr (), s')
                   | (Inl e, s') \<Rightarrow>
                       if length (w_tasks (r_work (record_of s' job))) < max_tasks_per_job then (Inl e, s')
                       else stop_the_job m job job_off
                              (''job '' @ job @ '' was switched off because its list has reached the ''
                                @ itoa (int max_tasks_per_job) @ '' tasks one job holds'')
                              ''a schedule that has ticked this many times has filled the job's list'' s')))"

section \<open>Tasks past their budget\<close>

definition given_up_report :: "job_machine \<Rightarrow> string \<Rightarrow> string" where
  "given_up_report m task = ''failed: task '' @ task @ '' ran for longer than the ''
     @ jm_duration m task_budget @ '' a task is given and was given up''"

fun give_up_each :: "job_machine \<Rightarrow> moment \<Rightarrow> (string \<times> string) list \<Rightarrow> unit act" where
  "give_up_each m now [] s = give () s"
| "give_up_each m now ((job, task) # overdue) s =
     (case so_held s job of
        None \<Rightarrow> and_do (on_claims (release_task job task)) (\<lambda>_. give_up_each m now overdue) s
      | Some h \<Rightarrow>
          if jb_state (hj_state h) \<noteq> job_running then give_up_each m now overdue s
          else and_do (finish_task_of m job task (given_up_report m task) True now)
                 (\<lambda>_. give_up_each m now overdue) s)"

definition release_tasks_past_their_budget :: "job_machine \<Rightarrow> moment \<Rightarrow> unit act" where
  "release_tasks_past_their_budget m now = and_do (on_claims (expired_claims now)) (give_up_each m now)"

section \<open>The next task\<close>

definition may_start :: "job_state \<Rightarrow> job_task list \<Rightarrow> string list \<Rightarrow> moment \<Rightarrow> nat \<Rightarrow> bool" where
  "may_start st tasks running now at \<longleftrightarrow>
     \<not> jt_done (tasks ! at) \<and> jt_id (tasks ! at) \<notin> set running
     \<and> \<not> now < tf_due (state_facts st (jt_id (tasks ! at))) \<and> \<not> passed_over st tasks at"

definition hand_out :: "job_machine \<Rightarrow> moment \<Rightarrow> string \<Rightarrow> job_task \<Rightarrow> task_to_run option act" where
  "hand_out m now job t =
     look job (\<lambda>st _.
       let facts = state_facts st (jt_id t) in
       and_do (if tf_started facts = 0
               then save_state m job (with_task (jt_id t) (facts\<lparr>tf_started := now\<rparr>) st) else give ()) (\<lambda>_.
       give (Some \<lparr>tr_job = job, tr_task = jt_id t, tr_text = jt_text t, tr_unattended = tf_unattended facts\<rparr>)))"

fun first_that_starts :: "job_machine \<Rightarrow> moment \<Rightarrow> string \<Rightarrow> string list \<Rightarrow> nat list \<Rightarrow> task_to_run option act" where
  "first_that_starts m now job running [] s = give None s"
| "first_that_starts m now job running (at # places) s =
     (let tasks = w_tasks (r_work (record_of s job)) in
      if \<not> may_start (state_of s job) tasks running now at then first_that_starts m now job running places s
      else
        and_do (on_claims (claim_task (so_owner s) job (jt_id (tasks ! at)) now)) (\<lambda>won.
          if won then hand_out m now job (tasks ! at)
          else first_that_starts m now job running places) s)"

definition task_of :: "job_machine \<Rightarrow> moment \<Rightarrow> string \<Rightarrow> task_to_run option act" where
  "task_of m now job =
     and_do (on_claims (claimed_tasks job now)) (\<lambda>running.
     look job (\<lambda>_ r. first_that_starts m now job running [0..<length (w_tasks (r_work r))]))"

fun next_of_jobs :: "job_machine \<Rightarrow> moment \<Rightarrow> string list \<Rightarrow> task_to_run option act" where
  "next_of_jobs m now [] s = give None s"
| "next_of_jobs m now (job # jobs) s =
     (if jb_state (state_of s job) \<noteq> job_running then next_of_jobs m now jobs s
      else
        and_do (tick_schedule m now job) (\<lambda>_ s1.
          if jb_state (state_of s1 job) \<noteq> job_running then next_of_jobs m now jobs s1
          else
            and_do (task_of m now job) (\<lambda>found.
              case found of Some t \<Rightarrow> give (Some t) | None \<Rightarrow> next_of_jobs m now jobs) s1) s)"

text \<open>\<open>NextTask\<close>: \<open>may\<close> is what the question of \<open>OnlyStartWorkWhen\<close> answers, yes when there is none.\<close>

definition next_task :: "job_machine \<Rightarrow> bool \<Rightarrow> moment \<Rightarrow> task_to_run option act" where
  "next_task m may now s =
     (if \<not> may then (Inr None, s)
      else
        and_do looked_for_work (\<lambda>_.
        and_do (release_tasks_past_their_budget m now) (\<lambda>_ s'.
          next_of_jobs m now (so_order s') s')) s)"

section \<open>Waiting\<close>

definition timer_clamp :: duration where "timer_clamp = 60 * one_second"
definition rest_between_waits :: duration where "rest_between_waits = one_second"

definition rest_still_owed :: "moment \<Rightarrow> job_store \<Rightarrow> duration" where
  "rest_still_owed now s =
     (if so_last_wait s = 0 then 0
      else wrap64 (rest_between_waits - time_between now (so_last_wait s)))"

definition moments_of :: "job_state \<Rightarrow> record_of_work \<Rightarrow> moment list" where
  "moments_of st r =
     jb_next_run st # map (\<lambda>t. tf_due (state_facts st (jt_id t))) (unfinished (w_tasks (r_work r)))"

fun soonest :: "moment \<Rightarrow> duration \<Rightarrow> moment list \<Rightarrow> duration" where
  "soonest now waiting [] = waiting"
| "soonest now waiting (t # ts) =
     soonest now (if t \<noteq> 0 \<and> time_between t now < waiting then time_between t now else waiting) ts"

fun soonest_of_jobs :: "moment \<Rightarrow> job_store \<Rightarrow> duration \<Rightarrow> string list \<Rightarrow> duration" where
  "soonest_of_jobs now s waiting [] = waiting"
| "soonest_of_jobs now s waiting (job # jobs) =
     soonest_of_jobs now s
       (if jb_state (state_of s job) \<noteq> job_running then waiting
        else soonest now waiting (moments_of (state_of s job) (record_of s job))) jobs"

definition time_until_work :: "moment \<Rightarrow> job_store \<Rightarrow> duration" where
  "time_until_work now s =
     (if so_new s then 0
      else max 0 (soonest_of_jobs now s timer_clamp (so_order s)))"

text \<open>
  \<open>Wait\<close>: whether the rest of \<open>rest_still_owed\<close> was slept through, how the sleep for work ended (it ran
  out, its context was done, or a wake came first), and the moments read before that sleep and after it.
\<close>

datatype sleep_end = Slept | Context_Done | Woken

definition sleep_unless_woken :: "duration \<Rightarrow> sleep_end \<Rightarrow> unit act" where
  "sleep_unless_woken until how s =
     (if until \<le> 0 then (Inr (), s)
      else (case how of
              Slept \<Rightarrow> (Inr (), s)
            | Context_Done \<Rightarrow> (Inl Unnamed, s)
            | Woken \<Rightarrow> (Inr (), s\<lparr>so_woken := False\<rparr>)))"

definition remember_this_wait :: "moment \<Rightarrow> unit act" where
  "remember_this_wait now s = (Inr (), s\<lparr>so_last_wait := now\<rparr>)"

definition wait_for_work :: "bool \<Rightarrow> sleep_end \<Rightarrow> moment \<Rightarrow> moment \<Rightarrow> unit act" where
  "wait_for_work rested how now now' s =
     (if \<not> rested then (Inl Unnamed, s)
      else and_do (sleep_unless_woken (time_until_work now s) how) (\<lambda>_. remember_this_wait now') s)"

section \<open>Rebuilding the jobs\<close>

fun state_under :: "string \<Rightarrow> (string \<times> job_state) list \<Rightarrow> job_state" where
  "state_under job [] = no_job_state"
| "state_under job ((i, st) # rest) = (if i = job then st else state_under job rest)"

fun put_under :: "string \<Rightarrow> job_state \<Rightarrow> (string \<times> job_state) list \<Rightarrow> (string \<times> job_state) list" where
  "put_under job st [] = [(job, st)]"
| "put_under job st ((i, old) # rest) = (if i = job then (i, st) # rest else (i, old) # put_under job st rest)"

text \<open>One change of a job's state, on the state it changes.\<close>

definition apply_change :: "state_event \<Rightarrow> job_state \<Rightarrow> job_state" where
  "apply_change change held =
     (let shown = (case se_snapshot change of
                     None \<Rightarrow> held | Some snapshot \<Rightarrow> snapshot\<lparr>jb_notepad := jb_notepad held\<rparr>)
      in if se_note change \<noteq> [] then shown\<lparr>jb_notepad := append_to_notepad (jb_notepad shown) (se_note change)\<rparr>
         else shown)"

definition change_in :: "event \<Rightarrow> (string \<times> state_event) option" where
  "change_in e =
     (case job_of_log_key (ev_task e) of
        None \<Rightarrow> None
      | Some job \<Rightarrow>
          if ev_kind e \<noteq> event_record_change then None
          else (case b_state (ev_body e) of
                  None \<Rightarrow> None
                | Some change \<Rightarrow> if se_marker change \<noteq> state_marker then None else Some (job, change)))"

definition replay_state ::
  "(string \<times> job_state) list \<Rightarrow> event \<Rightarrow> record_error + (string \<times> job_state) list" where
  "replay_state states e =
     (case change_in e of
        None \<Rightarrow> Inr states
      | Some (job, change) \<Rightarrow>
          let changed = put_under job (apply_change change (state_under job states)) states
          in if max_jobs < length changed then Inl Unnamed else Inr changed)"

definition replay_states :: "event_log \<Rightarrow> (record_error + (string \<times> job_state) list) \<times> event_log" where
  "replay_states lg = log_replay replay_state (\<lambda>_. False) [] lg"

fun rebuild_each :: "(string \<times> job_state) list \<Rightarrow> int list \<Rightarrow> unit act" where
  "rebuild_each states [] = give ()"
| "rebuild_each states (number # numbers) =
     (let job = itoa number in
      and_do (on_log (\<lambda>lg. load lg record_job job)) (\<lambda>k.
      and_do (\<lambda>s. (Inr (), put_held job \<lparr>hj_keeper = k, hj_state = state_under job states\<rparr>
          (s\<lparr>so_order := so_order s @ [job], so_next := wrap64 (number + 1)\<rparr>))) (\<lambda>_.
      rebuild_each states numbers)))"

fun numbers_among :: "(string \<times> job_state) list \<Rightarrow> int list" where
  "numbers_among [] = []"
| "numbers_among ((job, _) # rest) =
     (case job_number job of None \<Rightarrow> numbers_among rest | Some n \<Rightarrow> n # numbers_among rest)"

definition rebuild :: "unit act" where
  "rebuild = and_do (on_log replay_states) (\<lambda>states. rebuild_each states (sort (numbers_among states)))"

section \<open>What a dead process left\<close>

record run_of_a_task =
  ra_number :: string
  ra_has_record :: bool

definition claim_key :: "claimed_task \<Rightarrow> string" where
  "claim_key c = cl_job c @ ''.'' @ cl_task c"

definition is_a_runs_key :: "string \<Rightarrow> bool" where
  "is_a_runs_key key \<longleftrightarrow> (case atoi key of None \<Rightarrow> False | Some n \<Rightarrow> 0 < n)"

text \<open>The newest run of each task that is wanted, and the task each run is of.\<close>

type_synonym runs_found = "(string \<Rightarrow> run_of_a_task option) \<times> (string \<Rightarrow> string option)"

definition found_run :: "string list \<Rightarrow> runs_found \<Rightarrow> event \<Rightarrow> record_error + runs_found" where
  "found_run wanted found e =
     (case found of (newest, task_of_run) \<Rightarrow>
        if \<not> is_a_runs_key (ev_task e) then Inr found
        else if ev_kind e = event_message then
          (case b_message (ev_body e) of
             None \<Rightarrow> Inr found
           | Some asked \<Rightarrow>
               if asked \<notin> set wanted then Inr found
               else (case newest asked of
                       None \<Rightarrow> Inr (newest(asked := Some \<lparr>ra_number = ev_task e, ra_has_record = False\<rparr>),
                                 (task_of_run([] := None))(ev_task e := Some asked))
                     | Some held \<Rightarrow>
                         if run_number_of (ev_task e) \<le> run_number_of (ra_number held) then Inr found
                         else Inr (newest(asked := Some \<lparr>ra_number = ev_task e, ra_has_record = False\<rparr>),
                                (task_of_run(ra_number held := None))(ev_task e := Some asked))))
        else if ev_kind e = event_checkpoint then
          (case task_of_run (ev_task e) of
             None \<Rightarrow> Inr found
           | Some key \<Rightarrow> Inr (newest(key := Some \<lparr>ra_number = ev_task e, ra_has_record = True\<rparr>), task_of_run))
        else Inr found)"

definition newest_runs_of :: "claimed_task list \<Rightarrow> event_log \<Rightarrow> (record_error + (string \<Rightarrow> run_of_a_task option)) \<times> event_log"
where
  "newest_runs_of left lg =
     (case log_replay (found_run (map claim_key left)) (\<lambda>_. False) (\<lambda>_. None, \<lambda>_. None) lg of
        (Inl e, lg') \<Rightarrow> (Inl e, lg')
      | (Inr (newest, _), lg') \<Rightarrow> (Inr newest, lg'))"

fun put_down_each :: "job_machine \<Rightarrow> (string \<Rightarrow> run_of_a_task option) \<Rightarrow> claimed_task list \<Rightarrow> unit act" where
  "put_down_each m newest [] s = give () s"
| "put_down_each m newest (c # left) s =
     (case so_held s (cl_job c) of
        None \<Rightarrow> put_down_each m newest left s
      | Some h \<Rightarrow>
          if jb_state (hj_state h) \<noteq> job_running \<or> tf_unattended (state_facts (hj_state h) (cl_task c))
          then put_down_each m newest left s
          else (case (job_task_labelled (w_tasks (r_work (kp_record (hj_keeper h)))) (cl_task c), newest (claim_key c)) of
                  (Some t, Some run) \<Rightarrow>
                    if jt_done t \<or> \<not> ra_has_record run then put_down_each m newest left s
                    else
                      and_do (put_down_on m (cl_job c)
                        \<lparr>pd_task = \<lparr>tr_job = cl_job c, tr_task = cl_task c, tr_text = jt_text t, tr_unattended = False\<rparr>,
                         pd_run = ra_number run, pd_has_record = True, pd_waiting = False, pd_question = []\<rparr>)
                        (\<lambda>_. put_down_each m newest left) s
                | _ \<Rightarrow> put_down_each m newest left s))"

definition put_down_what_a_dead_process_left :: "job_machine \<Rightarrow> claimed_task list \<Rightarrow> unit act" where
  "put_down_what_a_dead_process_left m left =
     (if left = [] then give ()
      else and_do (on_log (newest_runs_of left)) (\<lambda>newest. put_down_each m newest left))"

section \<open>Opening the store\<close>

definition empty_store :: "int \<Rightarrow> event_log \<Rightarrow> claims_table \<Rightarrow> job_store" where
  "empty_store pid lg ct = \<lparr>so_order = [], so_held = (\<lambda>_. None), so_next = 1, so_owner = this_process pid,
     so_tell = None, so_told = [], so_new = False, so_woken = False, so_last_wait = 0, so_log = lg,
     so_claims = ct\<rparr>"

definition prepare_store :: "job_machine \<Rightarrow> unit act" where
  "prepare_store m =
     and_do (on_claims (release_the_claims_of_processes_that_are_gone m)) (\<lambda>left.
     and_do rebuild (\<lambda>_. put_down_what_a_dead_process_left m left))"

text \<open>\<open>Open\<close>, on a file that is an event log and has the table of claims.\<close>

definition open_store :: "job_machine \<Rightarrow> int \<Rightarrow> event_log \<Rightarrow> claims_table \<Rightarrow> (record_error + unit) \<times> job_store" where
  "open_store m pid lg ct = and_do (prepare_store m) (\<lambda>_. wake) (empty_store pid lg ct)"

end
