(* ===== verification/Job_Moves.thy ===== *)
theory Job_Moves
  imports Job_Scheduler Keeper_Life
begin

text \<open>
  The methods of the job store, taken apart into small moves: a statement on the table of claims, a
  note at the side, a method of a job's keeper, a state written, a note written, a job made. Every
  method is shown to be made of them (\<open>by_moves\<close>, by rules that follow the way the methods are put
  together), so what every move keeps every method keeps, on every way it can end.
\<close>

section \<open>How a job's state may change\<close>

text \<open>
  A job comes to run again only when somebody says so, and is done only when it was running, has no
  schedule, every task on its list is finished and its done-check passes.
\<close>

definition closes :: "record_of_work \<Rightarrow> job_state \<Rightarrow> bool" where
  "closes r st \<longleftrightarrow> jb_state st = job_running \<and> jb_schedule st = None
     \<and> unfinished (w_tasks (r_work r)) = [] \<and> done_check r = Inr ()"

definition state_change :: "bool \<Rightarrow> record_of_work \<Rightarrow> job_state \<Rightarrow> job_state \<Rightarrow> bool" where
  "state_change user r st st' \<longleftrightarrow>
     jb_notepad st' = jb_notepad st \<and> jb_schedule st' = jb_schedule st
     \<and> (incidents_hold (jb_incidents st) \<longrightarrow> incidents_hold (jb_incidents st'))
     \<and> (jb_state st' = jb_state st \<or> (jb_state st' = job_running \<and> user)
        \<or> jb_state st' = job_paused \<or> jb_state st' = job_off \<or> (jb_state st' = job_done \<and> closes r st))"

abbreviation state_event_of :: "string \<Rightarrow> state_event \<Rightarrow> event" where
  "state_event_of job ev \<equiv> new_event (record_log_key record_job job) event_record_change (state_body ev)"

text \<open>What is beside the jobs: messages, wakes and waits.\<close>

definition same_jobs :: "job_store \<Rightarrow> job_store \<Rightarrow> bool" where
  "same_jobs s s' \<longleftrightarrow> so_order s' = so_order s \<and> so_held s' = so_held s \<and> so_next s' = so_next s
     \<and> so_owner s' = so_owner s \<and> so_log s' = so_log s \<and> so_claims s' = so_claims s"

inductive store_move :: "job_machine \<Rightarrow> bool \<Rightarrow> job_store \<Rightarrow> job_store \<Rightarrow> bool" for m user where
  on_the_table: "store_move m user s (s\<lparr>so_claims := ct\<rparr>)"
| at_the_side: "same_jobs s s' \<Longrightarrow> store_move m user s s'"
| by_the_keeper: "so_held s job = Some h \<Longrightarrow> keeper_move (jm_unicode m) (hj_keeper h, so_log s) (k, lg) \<Longrightarrow>
    store_move m user s (put_held job (h\<lparr>hj_keeper := k\<rparr>) (s\<lparr>so_log := lg\<rparr>))"
| refused_event: "log_append (so_log s) (state_event_of job ev) = (Inl e, lg) \<Longrightarrow>
    store_move m user s (s\<lparr>so_log := lg\<rparr>)"
| saved_state: "so_held s job = Some h \<Longrightarrow>
    log_append (so_log s) (state_event_of job (snapshot_event st)) = (Inr n, lg) \<Longrightarrow>
    state_change user (kp_record (hj_keeper h)) (hj_state h) st \<Longrightarrow>
    store_move m user s (put_held job (h\<lparr>hj_state := st\<rparr>) (s\<lparr>so_log := lg\<rparr>))"
| noted: "so_held s job = Some h \<Longrightarrow> said \<noteq> [] \<Longrightarrow>
    log_append (so_log s) (state_event_of job (note_event said)) = (Inr n, lg) \<Longrightarrow>
    store_move m user s (put_held job (h\<lparr>hj_state := (hj_state h)\<lparr>jb_notepad :=
      append_to_notepad (jb_notepad (hj_state h)) said\<rparr>\<rparr>) (s\<lparr>so_log := lg\<rparr>))"
| no_keeper: "new_keeper (job_start (itoa (so_next s)) ask) (so_log s) = (Inl e, lg) \<Longrightarrow>
    store_move m user s (s\<lparr>so_log := lg\<rparr>)"
| given_up: "new_keeper (job_start (itoa (so_next s)) ask) (so_log s) = (Inr k, lg) \<Longrightarrow>
    keeper_moves (jm_unicode m) (k, lg) (k', lg') \<Longrightarrow> store_move m user s (s\<lparr>so_log := lg'\<rparr>)"
| a_new_job: "new_keeper (job_start (itoa (so_next s)) ask) (so_log s) = (Inr k, lg) \<Longrightarrow>
    keeper_moves (jm_unicode m) (k, lg) (k', lg1) \<Longrightarrow>
    log_append lg1 (state_event_of (itoa (so_next s)) (snapshot_event st)) = (Inr n, lg2) \<Longrightarrow>
    jb_state st = job_running \<Longrightarrow> jb_incidents st = [] \<Longrightarrow> jb_notepad st = [] \<Longrightarrow>
    length (so_order s) < max_jobs \<Longrightarrow>
    store_move m user s (put_held (itoa (so_next s)) \<lparr>hj_keeper = k', hj_state = st\<rparr>
      (s\<lparr>so_log := lg2, so_next := wrap64 (so_next s + 1), so_order := so_order s @ [itoa (so_next s)]\<rparr>))"

abbreviation store_moves :: "job_machine \<Rightarrow> bool \<Rightarrow> job_store \<Rightarrow> job_store \<Rightarrow> bool" where
  "store_moves m user \<equiv> (store_move m user)\<^sup>*\<^sup>*"

section \<open>Rules for the combinators\<close>

named_theorems moving \<open>rules that show an act to be made of moves\<close>

definition by_moves :: "job_machine \<Rightarrow> bool \<Rightarrow> 'a act \<Rightarrow> bool" where
  "by_moves m user act \<longleftrightarrow> (\<forall>s a s'. act s = (a, s') \<longrightarrow> store_moves m user s s')"

lemma by_movesI: "(\<And>s a s'. act s = (a, s') \<Longrightarrow> store_moves m user s s') \<Longrightarrow> by_moves m user act"
  by (simp add: by_moves_def)

lemma by_movesD: "by_moves m user act \<Longrightarrow> act s = (a, s') \<Longrightarrow> store_moves m user s s'"
  by (simp add: by_moves_def)

lemma and_do_Inr: "and_do act rest s = (Inr y, s'') \<longleftrightarrow> (\<exists>x s'. act s = (Inr x, s') \<and> rest x s' = (Inr y, s''))"
  by (auto simp: and_do_def split: prod.splits sum.splits)

lemma and_do_cases:
  assumes "and_do act rest s = (a, s'')"
  obtains (stopped) e where "act s = (Inl e, s'')" "a = Inl e"
  | (went_on) x s' where "act s = (Inr x, s')" "rest x s' = (a, s'')"
  using assms by (auto simp: and_do_def split: prod.splits sum.splits)

lemma moves_give [moving]: "by_moves m user (give x)" "by_moves m user (refuse e)"
  by (auto simp: by_moves_def give_def refuse_def)

lemma moves_then [moving]:
  "by_moves m user act \<Longrightarrow> (\<And>x. by_moves m user (rest x)) \<Longrightarrow> by_moves m user (and_do act rest)"
proof (rule by_movesI)
  fix s a s'
  assume act: "by_moves m user act" and rest: "\<And>x. by_moves m user (rest x)"
    and run: "and_do act rest s = (a, s')"
  from run show "store_moves m user s s'"
  proof (cases rule: and_do_cases)
    case (stopped e)
    then show ?thesis using by_movesD[OF act] by blast
  next
    case (went_on x s1)
    then show ?thesis using by_movesD[OF act went_on(1)] by_movesD[OF rest went_on(2)] by simp
  qed
qed

lemma moves_look: "(\<And>st r. by_moves m user (f st r)) \<Longrightarrow> by_moves m user (look job f)"
  by (simp add: by_moves_def look_def)

lemma moves_if [moving]:
  "by_moves m user a \<Longrightarrow> by_moves m user b \<Longrightarrow> by_moves m user (if c then a else b)"
  by simp

lemma moves_let [moving]: "by_moves m user (f x) \<Longrightarrow> by_moves m user (Let x f)"
  by simp

lemma moves_sum [moving]:
  "(\<And>e. by_moves m user (f e)) \<Longrightarrow> (\<And>x. by_moves m user (g x)) \<Longrightarrow>
    by_moves m user (case y of Inl e \<Rightarrow> f e | Inr x \<Rightarrow> g x)"
  by (cases y) simp_all

lemma moves_option [moving]:
  "by_moves m user a \<Longrightarrow> (\<And>x. by_moves m user (f x)) \<Longrightarrow> by_moves m user (case y of None \<Rightarrow> a | Some x \<Rightarrow> f x)"
  by (cases y) simp_all

lemma moves_pair [moving]: "(\<And>x y. by_moves m user (f x y)) \<Longrightarrow> by_moves m user (case p of (x, y) \<Rightarrow> f x y)"
  by (cases p) simp

lemma moves_claims [moving]: "by_moves m user (on_claims f)"
  by (auto simp: by_moves_def on_claims_def intro: on_the_table split: prod.splits)

lemma moves_side [moving]:
  "by_moves m user wake" "by_moves m user looked_for_work" "by_moves m user (remember_this_wait now)"
  by (auto simp: by_moves_def wake_def looked_for_work_def remember_this_wait_def same_jobs_def
      intro!: r_into_rtranclp at_the_side)

lemma moves_tell [moving]: "by_moves m user (tell_the_user said)"
  by (auto simp: by_moves_def tell_the_user_def Let_def same_jobs_def split: option.splits if_splits
      intro!: r_into_rtranclp at_the_side)

lemma moves_find [moving]: "by_moves m user (find_job job)"
  by (auto simp: by_moves_def find_job_def split: option.splits)

section \<open>Methods of the keeper\<close>

lemma put_held_twice [simp]: "put_held job h (s\<lparr>so_log := lg\<rparr>) = (put_held job h s)\<lparr>so_log := lg\<rparr>"
  "put_held job h (put_held job h' s) = put_held job h s"
  by (simp_all add: put_held_def)

lemma put_held_same: "so_held s job = Some h \<Longrightarrow> put_held job h s = s"
  by (simp add: put_held_def fun_upd_idem)

lemma held_put [simp]: "so_held (put_held job h s) j = (if j = job then Some h else so_held s j)"
  "so_log (put_held job h s) = so_log s" "so_order (put_held job h s) = so_order s"
  "so_next (put_held job h s) = so_next s" "so_claims (put_held job h s) = so_claims s"
  "so_owner (put_held job h s) = so_owner s"
  by (simp_all add: put_held_def)

lemma keeper_moves_store:
  assumes "keeper_moves (jm_unicode m) (hj_keeper h, so_log s) (k, lg)" "so_held s job = Some h"
  shows "store_moves m user s (put_held job (h\<lparr>hj_keeper := k\<rparr>) (s\<lparr>so_log := lg\<rparr>))"
proof -
  have "store_moves m user s (put_held job (h\<lparr>hj_keeper := fst t\<rparr>) (s\<lparr>so_log := snd t\<rparr>))"
    if "keeper_moves (jm_unicode m) (hj_keeper h, so_log s) t" for t
    using that
  proof (induction rule: rtranclp_induct)
    case base
    then show ?case using put_held_same[OF assms(2)] by simp
  next
    case (step t t')
    let ?s = "put_held job (h\<lparr>hj_keeper := fst t\<rparr>) (s\<lparr>so_log := snd t\<rparr>)"
    have "store_move m user ?s (put_held job ((h\<lparr>hj_keeper := fst t\<rparr>)\<lparr>hj_keeper := fst t'\<rparr>) (?s\<lparr>so_log := snd t'\<rparr>))"
      using step(2) by (intro by_the_keeper) simp_all
    then show ?case using step(3) by simp
  qed
  then show ?thesis using assms(1) by fastforce
qed

lemma moves_keeper:
  assumes "\<And>k lg a k' lg'. f k lg = (a, k', lg') \<Longrightarrow> keeper_moves (jm_unicode m) (k, lg) (k', lg')"
  shows "by_moves m user (on_keeper job f)"
  using assms keeper_moves_store
  by (auto simp: by_moves_def on_keeper_def split: option.splits prod.splits)

lemma moves_perform: "(\<And>k lg. perform (jm_unicode m) call k lg = f k lg) \<Longrightarrow> by_moves m user (on_keeper job f)"
  by (rule moves_keeper) (metis perform_moves)

lemma moves_report [moving]: "by_moves m user (on_keeper job (add_report summary txt))"
proof (rule moves_keeper)
  fix k lg a k' lg'
  assume "add_report summary txt k lg = (a, k', lg')"
  then show "keeper_moves (jm_unicode m) (k, lg) (k', lg')"
    using perform_moves[of "jm_unicode m" "AddReport summary txt" k lg "map_sum id (\<lambda>_. ()) a" k' lg']
    by (simp add: without_answer_def)
qed

lemma moves_methods [moving]:
  "by_moves m user (apply_to_job m job up)"
  "by_moves m user (on_keeper job (set_status status))"
  "by_moves m user (on_keeper job (set_progress n all due))"
  "by_moves m user (on_keeper job (set_situation facts))"
  "by_moves m user (on_keeper job (mark_job_task task report))"
  using moves_perform[of m "Apply up"] moves_perform[of m "SetStatus status"]
    moves_perform[of m "SetProgress n all due"] moves_perform[of m "SetSituation facts"]
    moves_perform[of m "MarkJobTask task report"]
  by (simp_all add: apply_to_job_def)

lemma moves_progress [moving]: "by_moves m user (write_progress job)"
  unfolding write_progress_def by (intro moves_look moving)

section \<open>States\<close>

lemma moves_append:
  assumes "append_state m job ev s = (a, s')"
  shows "store_moves m user s s' \<or> (\<exists>n lg. log_append (so_log s) (state_event_of job ev) = (Inr n, lg)
    \<and> s' = s\<lparr>so_log := lg\<rparr> \<and> a = Inr ())"
  using assms by (auto simp: append_state_def refuse_def on_log_def intro!: r_into_rtranclp refused_event
      split: if_splits prod.splits sum.splits)

lemma append_Inl_moves: "append_state m job ev s = (Inl e, s') \<Longrightarrow> store_moves m user s s'"
  using moves_append by fastforce

lemma append_Inr_log: "append_state m job ev s = (Inr x, s') \<Longrightarrow>
    \<exists>n lg. log_append (so_log s) (state_event_of job ev) = (Inr n, lg) \<and> s' = s\<lparr>so_log := lg\<rparr>"
  by (auto simp: append_state_def refuse_def on_log_def split: if_splits prod.splits sum.splits)

text \<open>Writing a state is a move when the change is allowed of the job as it stands.\<close>

lemma save_state_moves:
  assumes "save_state m job st s = (a, s')" "so_held s job = Some h"
    "state_change user (kp_record (hj_keeper h)) (hj_state h) (st\<lparr>jb_notepad := jb_notepad (hj_state h)\<rparr>)"
  shows "store_moves m user s s'"
proof -
  let ?kept = "st\<lparr>jb_notepad := jb_notepad (hj_state h)\<rparr>"
  have run: "and_do (append_state m job (snapshot_event ?kept)) (\<lambda>_. put_state job ?kept) s = (a, s')"
    using assms(1,2) by (simp add: save_state_def Let_def)
  then show ?thesis
  proof (cases rule: and_do_cases)
    case (stopped e)
    then show ?thesis using append_Inl_moves by blast
  next
    case (went_on x s1)
    then obtain n lg where lg: "log_append (so_log s) (state_event_of job (snapshot_event ?kept)) = (Inr n, lg)"
      "s1 = s\<lparr>so_log := lg\<rparr>" using append_Inr_log by blast
    then have "s' = put_held job (h\<lparr>hj_state := ?kept\<rparr>) (s\<lparr>so_log := lg\<rparr>)"
      using went_on(2) assms(2) by (simp add: put_state_def)
    then show ?thesis using saved_state[OF assms(2) lg(1) assms(3)] by auto
  qed
qed

lemma save_state_not_held: "so_held s job = None \<Longrightarrow> save_state m job st s = (Inl Unnamed, s)"
  by (simp add: save_state_def)

lemma state_of_held [simp]: "so_held s job = Some h \<Longrightarrow> state_of s job = hj_state h"
  "so_held s job = Some h \<Longrightarrow> record_of s job = kp_record (hj_keeper h)"
  by (simp_all add: state_of_def record_of_def)

text \<open>Acts on a job whose state is known, until it is written.\<close>

definition moves_from :: "job_machine \<Rightarrow> bool \<Rightarrow> string \<Rightarrow> job_state \<Rightarrow> 'a act \<Rightarrow> bool" where
  "moves_from m user job st act \<longleftrightarrow>
     (\<forall>s a s'. state_of s job = st \<longrightarrow> act s = (a, s') \<longrightarrow> store_moves m user s s')"

definition keeps_state :: "string \<Rightarrow> 'a act \<Rightarrow> bool" where
  "keeps_state job act \<longleftrightarrow> (\<forall>s a s'. act s = (a, s') \<longrightarrow> state_of s' job = state_of s job)"

lemma look_from: "(\<And>st r. moves_from m user job st (f st r)) \<Longrightarrow> by_moves m user (look job f)"
  by (simp add: by_moves_def moves_from_def look_def)

lemma from_any: "by_moves m user act \<Longrightarrow> moves_from m user job st act"
  by (simp add: by_moves_def moves_from_def)

lemma from_then:
  assumes "keeps_state job act" "by_moves m user act" "\<And>x. moves_from m user job st (rest x)"
  shows "moves_from m user job st (and_do act rest)"
  unfolding moves_from_def
proof (intro allI impI)
  fix s a s' assume "state_of s job = st" "and_do act rest s = (a, s')"
  then show "store_moves m user s s'"
  proof (elim and_do_cases)
    fix e assume "act s = (Inl e, s')"
    then show ?thesis by (rule by_movesD[OF assms(2)])
  next
    fix x s1 assume one: "act s = (Inr x, s1)" "rest x s1 = (a, s')"
    have "state_of s1 job = st" using assms(1) one(1) \<open>state_of s job = st\<close> by (simp add: keeps_state_def)
    then have "store_moves m user s1 s'" using assms(3) one(2) by (simp add: moves_from_def)
    then show ?thesis using by_movesD[OF assms(2) one(1)] by simp
  qed
qed

lemma from_save_then:
  assumes "moves_from m user job st act" "\<And>x. by_moves m user (rest x)"
  shows "moves_from m user job st (and_do act rest)"
  unfolding moves_from_def
proof (intro allI impI)
  fix s a s' assume "state_of s job = st" "and_do act rest s = (a, s')"
  then show "store_moves m user s s'"
  proof (elim and_do_cases)
    fix e assume "act s = (Inl e, s')"
    then show ?thesis using assms(1) \<open>state_of s job = st\<close> by (simp add: moves_from_def)
  next
    fix x s1 assume one: "act s = (Inr x, s1)" "rest x s1 = (a, s')"
    have "store_moves m user s s1" using assms(1) one(1) \<open>state_of s job = st\<close> by (simp add: moves_from_def)
    then show ?thesis using by_movesD[OF assms(2) one(2)] by simp
  qed
qed

lemma from_save:
  assumes "\<And>r. state_change user r st (changed\<lparr>jb_notepad := jb_notepad st\<rparr>)"
  shows "moves_from m user job st (save_state m job changed)"
  unfolding moves_from_def
proof (intro allI impI)
  fix s a s' assume s: "state_of s job = st" "save_state m job changed s = (a, s')"
  show "store_moves m user s s'"
  proof (cases "so_held s job")
    case None
    then show ?thesis using s(2) save_state_not_held[OF None] by simp
  next
    case (Some h)
    then show ?thesis using save_state_moves[OF s(2) Some] assms s(1) by simp
  qed
qed

lemma look_and_save:
  assumes "\<And>st r. state_change user r st ((f st)\<lparr>jb_notepad := jb_notepad st\<rparr>)"
  shows "by_moves m user (look job (\<lambda>st _. save_state m job (f st)))"
  using assms by (intro look_from from_save)

lemma keeps_simple: "keeps_state job (give x)" "keeps_state job (refuse e)" "keeps_state job (on_claims f)"
  "keeps_state job wake" "keeps_state job (on_keeper j g)" "keeps_state job (apply_to_job m j up)"
  by (auto simp: keeps_state_def give_def refuse_def on_claims_def wake_def on_keeper_def apply_to_job_def
      state_of_def split: prod.splits option.splits)

lemma keeps_if: "keeps_state job a \<Longrightarrow> keeps_state job b \<Longrightarrow> keeps_state job (if c then a else b)"
  by simp

section \<open>Changes of state\<close>

lemma same_standing_change:
  "jb_state st' = jb_state st \<Longrightarrow> jb_schedule st' = jb_schedule st \<Longrightarrow>
    (incidents_hold (jb_incidents st) \<longrightarrow> incidents_hold (jb_incidents st')) \<Longrightarrow>
    state_change user r st (st'\<lparr>jb_notepad := jb_notepad st\<rparr>)"
  by (simp add: state_change_def)

lemma stopping_change:
  "jb_state st' = job_paused \<or> jb_state st' = job_off \<or> (user \<and> jb_state st' = job_running) \<Longrightarrow>
    jb_schedule st' = jb_schedule st \<Longrightarrow> jb_incidents st' = jb_incidents st \<Longrightarrow>
    state_change user r st (st'\<lparr>jb_notepad := jb_notepad st\<rparr>)"
  by (auto simp: state_change_def)

lemma counted_failure:
  "jb_state (count_the_failure m st report now) = jb_state st"
  "jb_schedule (count_the_failure m st report now) = jb_schedule st"
  "jb_incidents (count_the_failure m st report now) = fst (note_incident m (jb_incidents st) report now)"
  by (simp_all add: count_the_failure_def Let_def split: option.split sum.split prod.split)

lemma report_change:
  "state_change user r st ((state_after_report m st task facts reported report quiet failed now)\<lparr>jb_notepad := jb_notepad st\<rparr>)"
  by (rule same_standing_change)
    (simp_all add: state_after_report_def Let_def counted_failure note_incident_holds)

section \<open>The methods are made of moves\<close>

text \<open>What stops a job, and what closes it.\<close>

lemma stop_moves [moving]:
  assumes "state = job_paused \<or> state = job_off"
  shows "by_moves m user (stop_the_job m job state why cause)"
proof -
  have "by_moves m user (look job (\<lambda>st _. save_state m job (st\<lparr>jb_state := state\<rparr>)))"
    using assms by (intro look_and_save stopping_change) auto
  then show ?thesis unfolding stop_the_job_def say_the_job_stopped_def by (intro moving)
qed

lemma keeps_failing_moves [moving]: "by_moves m user (stop_if_it_keeps_failing m job report)"
  unfolding stop_if_it_keeps_failing_def by (intro moves_look moves_if moves_give stop_moves) simp_all

lemma update_done_when_only:
  assumes "apply_update u r (no_change\<lparr>up_done_when := Some ls\<rparr>) = Inr c"
  shows "c = put_done_when (map marked_by_proof ls) r"
  using assms by (auto simp: apply_update_def and_then_Inr_iff apply_defs no_change_def split: if_splits)

lemma done_list_keeps_tasks:
  assumes "keeper_apply u (no_change\<lparr>up_done_when := Some ls\<rparr>) k lg = (a, k', lg')"
  shows "w_tasks (r_work (kp_record k')) = w_tasks (r_work (kp_record k))"
  using apply_effect[OF assms] by (auto simp: trimmed_parts put_done_when_def dest!: update_done_when_only)

lemma on_keeper_held:
  assumes "on_keeper job f s = (a, s')" "so_held s job = Some h"
  obtains k lg where "f (hj_keeper h) (so_log s) = (a, k, lg)"
    "s' = put_held job (h\<lparr>hj_keeper := k\<rparr>) (s\<lparr>so_log := lg\<rparr>)"
  using assms by (auto simp: on_keeper_def split: prod.splits)

lemma done_list_moves [moving]: "by_moves m user (the_tasks_are_the_done_list m job)"
  unfolding the_tasks_are_the_done_list_def by (intro moves_look moving)

lemma done_list_effect:
  assumes "the_tasks_are_the_done_list m job s = (a, s')" "so_held s job = Some h"
  obtains h' where "so_held s' job = Some h'" "hj_state h' = hj_state h"
    "w_tasks (r_work (kp_record (hj_keeper h'))) = w_tasks (r_work (kp_record (hj_keeper h)))"
proof (cases "g_done_when (r_goal (kp_record (hj_keeper h))) = []")
  case False
  then show ?thesis using assms that by (auto simp: the_tasks_are_the_done_list_def look_def give_def)
next
  case True
  let ?up = "no_change\<lparr>up_done_when := Some (map (\<lambda>t. \<lparr>dl_text = jt_text t, dl_done = True,
      dl_result = jt_report t, dl_reply = []\<rparr>) (w_tasks (r_work (kp_record (hj_keeper h)))))\<rparr>"
  have "on_keeper job (keeper_apply (jm_unicode m) ?up) s = (a, s')"
    using assms True by (simp add: the_tasks_are_the_done_list_def look_def apply_to_job_def)
  then obtain k lg where k: "keeper_apply (jm_unicode m) ?up (hj_keeper h) (so_log s) = (a, k, lg)"
    "s' = put_held job (h\<lparr>hj_keeper := k\<rparr>) (s\<lparr>so_log := lg\<rparr>)"
    using on_keeper_held assms(2) by blast
  show ?thesis
    by (rule that[of "h\<lparr>hj_keeper := k\<rparr>"]) (use k(2) done_list_keeps_tasks[OF k(1)] in simp_all)
qed

lemma close_moves [moving]: "by_moves m user (close_if_every_task_is_done m job now)"
proof (rule by_movesI)
  fix s a s'
  assume run: "close_if_every_task_is_done m job now s = (a, s')"
  show "store_moves m user s s'"
  proof (cases "jb_schedule (state_of s job) \<noteq> None \<or> jb_state (state_of s job) \<noteq> job_running
      \<or> unfinished (w_tasks (r_work (record_of s job))) \<noteq> []")
    case True
    then have "s' = s" using run by (auto simp: close_if_every_task_is_done_def look_def give_def split: if_splits)
    then show ?thesis by simp
  next
    case False
    then obtain h where h: "so_held s job = Some h"
      by (cases "so_held s job") (auto simp: state_of_def no_job_state_def job_running_def)
    from run False have "and_do (the_tasks_are_the_done_list m job) (\<lambda>_. look job (\<lambda>_ r'.
           if done_check r' \<noteq> Inr () then give ()
           else and_do (on_keeper job (set_status status_done)) (\<lambda>_.
             look job (\<lambda>st' _. save_state m job (st'\<lparr>jb_state := job_done, jb_finished := now\<rparr>))))) s = (a, s')"
      by (simp add: close_if_every_task_is_done_def look_def)
    then show ?thesis
    proof (cases rule: and_do_cases)
      case (stopped e)
      then show ?thesis using by_movesD[OF done_list_moves] by blast
    next
      case (went_on x s1)
      obtain h1 where h1: "so_held s1 job = Some h1" "hj_state h1 = hj_state h"
        "w_tasks (r_work (kp_record (hj_keeper h1))) = w_tasks (r_work (kp_record (hj_keeper h)))"
        using done_list_effect[OF went_on(1) h] by blast
      have first: "store_moves m user s s1" by (rule by_movesD[OF done_list_moves went_on(1)])
      show ?thesis
      proof (cases "done_check (kp_record (hj_keeper h1)) = Inr ()")
        case no: False
        then show ?thesis using went_on(2) h1(1) first by (simp add: look_def give_def)
      next
        case True
        then have "and_do (on_keeper job (set_status status_done)) (\<lambda>_.
             look job (\<lambda>st' _. save_state m job (st'\<lparr>jb_state := job_done, jb_finished := now\<rparr>))) s1 = (a, s')"
          using went_on(2) h1(1) by (simp add: look_def)
        then show ?thesis
        proof (cases rule: and_do_cases)
          case (stopped e)
          then show ?thesis using by_movesD[OF moves_methods(2) stopped(1), of m user] first by simp
        next
          case last: (went_on y s2)
          obtain k lg where k: "set_status status_done (hj_keeper h1) (so_log s1) = (Inr y, k, lg)"
            "s2 = put_held job (h1\<lparr>hj_keeper := k\<rparr>) (s1\<lparr>so_log := lg\<rparr>)"
            using on_keeper_held[OF last(1) h1(1)] by blast
          let ?st = "(hj_state h1)\<lparr>jb_state := job_done, jb_finished := now\<rparr>"
          have held: "so_held s2 job = Some (h1\<lparr>hj_keeper := k\<rparr>)" using k(2) by simp
          have "save_state m job ?st s2 = (a, s')" using last(2) held by (simp add: look_def)
          moreover have "closes (kp_record k) (hj_state h1)"
            using set_done_passes[of "hj_keeper h1"] k(1) h1 False h by (simp add: closes_def)
          then have "state_change user (kp_record (hj_keeper (h1\<lparr>hj_keeper := k\<rparr>))) (hj_state (h1\<lparr>hj_keeper := k\<rparr>))
              (?st\<lparr>jb_notepad := jb_notepad (hj_state (h1\<lparr>hj_keeper := k\<rparr>))\<rparr>)"
            by (simp add: state_change_def)
          ultimately have "store_moves m user s2 s'" by (rule save_state_moves[OF _ held])
          then show ?thesis using by_movesD[OF moves_methods(2) last(1), of m user] first by simp
        qed
      qed
    qed
  qed
qed

section \<open>Reports, tasks and ticks\<close>

lemma write_report_moves [moving]: "by_moves m user (write_report m job report failed)"
  unfolding write_report_def by (intro moves_look moving)

lemma after_one_task_moves [moving]: "by_moves m user (after_one_task m job report failed now)"
  unfolding after_one_task_def by (intro moving)

lemma wake_if_running_moves [moving]: "by_moves m user (wake_if_running job)"
  unfolding wake_if_running_def by (intro moves_look moving)

lemma finish_task_of_moves [moving]: "by_moves m user (finish_task_of m job task report failed now)"
proof -
  have saved: "by_moves m user (look job (\<lambda>st' _.
           let changed = state_after_report m st' task facts reported report quiet failed now in
           and_do (if c then on_keeper job (mark_job_task task reported) else give ()) (\<lambda>_.
           and_do (save_state m job changed) (\<lambda>_.
           and_do (after_one_task m job report failed now) (\<lambda>_.
           and_do (wake_if_running job) (\<lambda>_.
           and_do (write_progress job) (\<lambda>_. give reported)))))))" for facts reported quiet c
    unfolding Let_def
    by (intro look_from from_then keeps_if keeps_simple moves_if moves_methods moves_give from_save_then
        from_save report_change moving)
  show ?thesis
    unfolding finish_task_of_def by (intro moves_look moves_sum moves_give moves_then moves_pair saved moving)
qed

lemma add_task_to_moves [moving]: "by_moves m user (add_task_to m job txt due unattended)"
proof -
  have "by_moves m user (look job (\<lambda>st _. save_state m job
      (with_task t (no_facts\<lparr>tf_due := due, tf_unattended := unattended\<rparr>) st)))" for t
    by (intro look_and_save same_standing_change) simp_all
  note saved = this
  show ?thesis unfolding add_task_to_def Let_def by (rule moves_look, intro saved moving)
qed

lemma and_do_by: "and_do act rest = (\<lambda>s. case act s of (Inl e, s') \<Rightarrow> (Inl e, s') | (Inr x, s') \<Rightarrow> rest x s')"
  by (simp add: and_do_def fun_eq_iff)

lemma tick_moves [moving]: "by_moves m user (tick_schedule m now job)"
proof -
  have tail: "by_moves m user (\<lambda>s. case add_task_to m job (jb_template (state_of s job)) due True s of
                     (Inr _, s') \<Rightarrow> (Inr (), s')
                   | (Inl e, s') \<Rightarrow>
                       if length (w_tasks (r_work (record_of s' job))) < max_tasks_per_job then (Inl e, s')
                       else stop_the_job m job job_off why cause s')" for due why cause
  proof (rule by_movesI)
    fix s a s'
    assume run: "(case add_task_to m job (jb_template (state_of s job)) due True s of
                     (Inr _, s') \<Rightarrow> (Inr (), s')
                   | (Inl e, s') \<Rightarrow>
                       if length (w_tasks (r_work (record_of s' job))) < max_tasks_per_job then (Inl e, s')
                       else stop_the_job m job job_off why cause s') = (a, s')"
    obtain b s1 where add: "add_task_to m job (jb_template (state_of s job)) due True s = (b, s1)"
      by (cases "add_task_to m job (jb_template (state_of s job)) due True s")
    have "store_moves m user s1 s'"
      using run add by_movesD[OF stop_moves[of job_off m user job why cause]] by (auto split: sum.splits if_splits)
    then show "store_moves m user s s'" using by_movesD[OF add_task_to_moves add, of user] by simp
  qed
  have "moves_from m user job st (case jb_schedule st of
         None \<Rightarrow> give ()
       | Some sc \<Rightarrow>
           if jb_next_run st = 0 \<or> now < jb_next_run st then give ()
           else (case next_run m sc now of
             Inl e \<Rightarrow> refuse e
           | Inr following \<Rightarrow> and_do (save_state m job (st\<lparr>jb_next_run := following\<rparr>)) (\<lambda>_. g)))"
    if "by_moves m user g" for st and g :: "unit act"
  proof -
    have "moves_from m user job st (and_do (save_state m job (st\<lparr>jb_next_run := following\<rparr>)) (\<lambda>_. g))" for following
      using that by (intro from_save_then from_save same_standing_change) simp_all
    moreover have "moves_from m user job st (give ())" "moves_from m user job st (refuse e :: unit act)" for e
      by (intro from_any moves_give)+
    ultimately show ?thesis by (simp split: option.split sum.split)
  qed
  then show ?thesis unfolding tick_schedule_def using tail by (intro look_from) blast
qed

lemma give_up_each_moves [moving]: "by_moves m user (give_up_each m now overdue)"
proof (induction overdue)
  case Nil
  then show ?case by (intro by_movesI) (simp add: give_def)
next
  case (Cons c overdue)
  obtain job task where c: "c = (job, task)" by (cases c)
  have release: "by_moves m user (and_do (on_claims (release_task job task)) (\<lambda>_. give_up_each m now overdue))"
    and finish: "by_moves m user (and_do (finish_task_of m job task (given_up_report m task) True now)
                 (\<lambda>_. give_up_each m now overdue))"
    by (intro moving Cons.IH)+
  show ?case
  proof (rule by_movesI)
    fix s a s' assume "give_up_each m now (c # overdue) s = (a, s')"
    then show "store_moves m user s s'"
      using by_movesD[OF release] by_movesD[OF finish] by_movesD[OF Cons.IH]
      by (auto simp: c split: option.splits if_splits)
  qed
qed

lemma release_overdue_moves [moving]: "by_moves m user (release_tasks_past_their_budget m now)"
  unfolding release_tasks_past_their_budget_def by (intro moving)

section \<open>Handing out work\<close>

lemma hand_out_moves [moving]: "by_moves m user (hand_out m now job t)"
proof -
  have "moves_from m user job st (and_do (if c then save_state m job (with_task (jt_id t) (f\<lparr>tf_started := now\<rparr>) st)
      else give ()) (\<lambda>_. give x))" for st c f and x :: "task_to_run option"
  proof (cases c)
    case True
    then show ?thesis by simp (intro from_save_then from_save same_standing_change moves_give; simp)
  qed (simp, intro from_any moving)
  then show ?thesis unfolding hand_out_def Let_def by (intro look_from)
qed

lemma first_that_starts_moves [moving]: "by_moves m user (first_that_starts m now job running places)"
proof (induction places)
  case Nil
  then show ?case by (intro by_movesI) (simp add: give_def)
next
  case (Cons at places)
  show ?case
  proof (rule by_movesI)
    fix s a s' assume run: "first_that_starts m now job running (at # places) s = (a, s')"
    let ?t = "w_tasks (r_work (record_of s job)) ! at"
    have "by_moves m user (and_do (on_claims (claim_task (so_owner s) job (jt_id ?t) now)) (\<lambda>won.
          if won then hand_out m now job ?t else first_that_starts m now job running places))"
      by (intro moving Cons.IH)
    then show "store_moves m user s s'"
      using run by_movesD[OF Cons.IH] by (auto simp: Let_def split: if_splits dest: by_movesD)
  qed
qed

lemma task_of_moves [moving]: "by_moves m user (task_of m now job)"
  unfolding task_of_def by (intro moves_look moving)

lemma next_of_jobs_moves [moving]: "by_moves m user (next_of_jobs m now jobs)"
proof (induction jobs)
  case Nil
  then show ?case by (intro by_movesI) (simp add: give_def)
next
  case (Cons job jobs)
  have taken: "by_moves m user (and_do (task_of m now job) (\<lambda>found.
              case found of Some t \<Rightarrow> give (Some t) | None \<Rightarrow> next_of_jobs m now jobs))"
    by (intro moving Cons.IH)
  have "by_moves m user (\<lambda>s1. if jb_state (state_of s1 job) \<noteq> job_running then next_of_jobs m now jobs s1
          else and_do (task_of m now job) (\<lambda>found.
              case found of Some t \<Rightarrow> give (Some t) | None \<Rightarrow> next_of_jobs m now jobs) s1)"
    by (rule by_movesI) (use by_movesD[OF taken] by_movesD[OF Cons.IH] in \<open>auto split: if_splits\<close>)
  then have "by_moves m user (and_do (tick_schedule m now job) (\<lambda>_ s1.
          if jb_state (state_of s1 job) \<noteq> job_running then next_of_jobs m now jobs s1
          else and_do (task_of m now job) (\<lambda>found.
              case found of Some t \<Rightarrow> give (Some t) | None \<Rightarrow> next_of_jobs m now jobs) s1))"
    by (intro moves_then tick_moves)
  then show ?case
    by (intro by_movesI) (use by_movesD[OF Cons.IH] in \<open>auto split: if_splits dest: by_movesD\<close>)
qed

lemma next_task_moves [moving]: "by_moves m user (next_task m may now)"
proof (rule by_movesI)
  fix s a s' assume run: "next_task m may now s = (a, s')"
  have "by_moves m user (\<lambda>s'. next_of_jobs m now (so_order s') s')"
    by (rule by_movesI) (rule by_movesD[OF next_of_jobs_moves])
  then have "by_moves m user (and_do (release_tasks_past_their_budget m now) (\<lambda>_ s'. next_of_jobs m now (so_order s') s'))"
    by (intro moves_then release_overdue_moves)
  then have "by_moves m user (and_do looked_for_work (\<lambda>_. and_do (release_tasks_past_their_budget m now)
      (\<lambda>_ s'. next_of_jobs m now (so_order s') s')))"
    by (rule moves_then[OF moves_side(2)])
  then show "store_moves m user s s'" using run by (auto simp: next_task_def split: if_splits dest: by_movesD)
qed

section \<open>What the user does\<close>

lemma start_working_moves [moving]: "by_moves m True (start_working m job now)"
proof -
  have saved: "by_moves m True (look job (\<lambda>st _. save_state m job (st\<lparr>jb_state := job_running, jb_failures := 0,
      jb_backoff := 0, jb_put_down := None\<rparr>)))"
    by (intro look_and_save stopping_change) simp_all
  show ?thesis unfolding start_working_def by (intro saved moving)
qed

lemma set_state_moves:
  assumes "state = job_paused \<or> state = job_off"
  shows "by_moves m user (set_state m now job state)"
proof -
  have saved: "by_moves m user (look job (\<lambda>st _. save_state m job (st\<lparr>jb_state := state\<rparr>)))"
    using assms by (intro look_and_save stopping_change) auto
  have "state \<noteq> job_running" using assms by auto
  then have "set_state m now job state = and_do (find_job job) (\<lambda>_.
      and_do (on_keeper job (set_status (record_status_of_job state))) (\<lambda>_.
        look job (\<lambda>st _. save_state m job (st\<lparr>jb_state := state\<rparr>))))"
    by (simp add: set_state_def)
  then show ?thesis by simp (intro saved moving)
qed

lemma user_moves [moving]:
  "by_moves m user (pause_job m now job)" "by_moves m user (switch_off m now job)"
  "by_moves m True (resume_job m now job)"
proof -
  show "by_moves m user (pause_job m now job)" "by_moves m user (switch_off m now job)"
    unfolding pause_job_def switch_off_def by (rule set_state_moves; simp)+
  have "resume_job m now job = and_do (find_job job) (\<lambda>_. start_working m job now)"
    by (simp add: resume_job_def set_state_def)
  then show "by_moves m True (resume_job m now job)" by simp (intro moving)
qed

lemma put_down_on_moves [moving]: "by_moves m user (put_down_on m job mark)"
proof -
  have saved: "by_moves m user (look job (\<lambda>st _. save_state m job (st\<lparr>jb_state := job_paused, jb_put_down := Some mark\<rparr>)))"
    by (intro look_and_save stopping_change) simp_all
  show ?thesis unfolding put_down_on_def by (intro saved moving)
qed

lemma put_down_moves [moving]: "by_moves m user (put_down m mark)"
  unfolding put_down_def Let_def by (intro moves_look moving)

lemma pick_up_moves [moving]: "by_moves m user (pick_up_once m job task)"
proof -
  have "moves_from m user job st (case unfinished_task st r task of
       Inl e \<Rightarrow> refuse e
     | Inr facts \<Rightarrow> if tf_picked_up facts then give False
         else and_do (save_state m job (with_task task (facts\<lparr>tf_picked_up := True\<rparr>) st)) (\<lambda>_. give True))" for st r
  proof (cases "unfinished_task st r task")
    case (Inr facts)
    have "moves_from m user job st (and_do (save_state m job (with_task task (facts\<lparr>tf_picked_up := True\<rparr>) st)) (\<lambda>_. give True))"
      by (intro from_save_then from_save same_standing_change moves_give) simp_all
    then show ?thesis using Inr by (simp add: from_any moves_give)
  qed (simp add: from_any moves_give)
  then have look: "by_moves m user (look job (\<lambda>st r. case unfinished_task st r task of
       Inl e \<Rightarrow> refuse e
     | Inr facts \<Rightarrow> if tf_picked_up facts then give False
         else and_do (save_state m job (with_task task (facts\<lparr>tf_picked_up := True\<rparr>) st)) (\<lambda>_. give True)))"
    by (rule look_from)
  show ?thesis unfolding pick_up_once_def by (intro look moving)
qed

lemma defer_moves [moving]: "by_moves m user (defer_task m job task)"
proof -
  have saved: "by_moves m user (look job (\<lambda>st' _. save_state m job (with_task task (facts\<lparr>tf_deferred := True\<rparr>) st')))" for facts
    by (intro look_and_save same_standing_change) simp_all
  have body: "by_moves m user (case unfinished_task st r task of
       Inl e \<Rightarrow> refuse e
     | Inr facts \<Rightarrow>
         if tf_deferred facts then give False
         else and_do (on_claims (release_task job task)) (\<lambda>_.
           and_do (look job (\<lambda>st' _. save_state m job (with_task task (facts\<lparr>tf_deferred := True\<rparr>) st'))) (\<lambda>_.
           give True)))" for st r
    by (intro saved moving)
  show ?thesis unfolding defer_task_def by (intro moves_then moves_find moves_look body)
qed

lemma run_now_moves [moving]: "by_moves m True (run_now m now now' job)"
proof -
  have saved: "by_moves m True (look job (\<lambda>st' r'.
         let ticked = (if jb_schedule st' \<noteq> None then st'\<lparr>jb_next_run := now'\<rparr> else st');
             written = map (\<lambda>t. if jt_id t = following then (as_written t)\<lparr>nt_due := []\<rparr> else as_written t)
                         (w_tasks (r_work r'))
         in
         and_do (if following \<noteq> [] then apply_to_job m job (no_change\<lparr>up_tasks := Some written\<rparr>) else give ()) (\<lambda>_.
         and_do (save_state m job
           (if following \<noteq> []
            then with_task following (no_facts\<lparr>tf_unattended := tf_unattended (state_facts ticked following)\<rparr>) ticked
            else ticked)) (\<lambda>_.
         write_progress job))))" for following
    unfolding Let_def
    by (intro look_from from_then keeps_if keeps_simple moves_if moves_methods moves_give from_save_then
        from_save same_standing_change moves_progress) simp_all
  show ?thesis unfolding run_now_def Let_def[of "the_task_run_now_starts _ _"]
    by (intro moves_then moves_find moves_look start_working_moves saved)
qed

lemma setting_moves [moving]:
  "by_moves m user (set_monitor m job watching)" "by_moves m user (keep_running_when_its_tasks_fail m job)"
proof -
  have "moves_from m user job st (save_state m job (st\<lparr>jb_monitor := watching\<rparr>))" 
    "moves_from m user job st (save_state m job (st\<lparr>jb_keep_running := True\<rparr>))" for st
    by (intro from_save same_standing_change; simp)+
  then have "by_moves m user (look job (\<lambda>st _. if jb_schedule st = None \<and> watching then refuse Unnamed
       else save_state m job (st\<lparr>jb_monitor := watching\<rparr>)))"
    "by_moves m user (look job (\<lambda>st _. if jb_keep_running st then give () else save_state m job (st\<lparr>jb_keep_running := True\<rparr>)))"
    by (intro look_from; simp add: from_any moves_give)+
  then show "by_moves m user (set_monitor m job watching)" "by_moves m user (keep_running_when_its_tasks_fail m job)"
    unfolding set_monitor_def keep_running_when_its_tasks_fail_def by (intro moves_then moves_find; simp)+
qed

lemma work_moves [moving]:
  "by_moves m user (add_task m wanted)" "by_moves m user (finish_task m now job task report failed)"
  "by_moves m user (set_project_folder job folder)" "by_moves m user (prove_done_line m now job number result)"
  unfolding add_task_def finish_task_def set_project_folder_def prove_done_line_def Let_def
  by (intro moving moves_look)+

lemma wait_moves [moving]: "by_moves m user (wait_for_work rested how now now')"
proof -
  have "by_moves m user (sleep_unless_woken until how)" for until
    by (intro by_movesI) (auto simp: sleep_unless_woken_def same_jobs_def intro!: r_into_rtranclp at_the_side
        split: if_splits sleep_end.splits)
  then have "by_moves m user (and_do (sleep_unless_woken until how) (\<lambda>_. remember_this_wait now'))" for until
    by (intro moving)
  then show ?thesis by (intro by_movesI) (auto simp: wait_for_work_def split: if_splits dest: by_movesD)
qed

section \<open>Notes and new jobs\<close>

lemma append_note_moves [moving]: "by_moves m user (append_note m job said)"
proof (rule by_movesI)
  fix s a s'
  assume run: "append_note m job said s = (a, s')"
  let ?t = "trim_space said"
  show "store_moves m user s s'"
  proof (cases "?t = [] \<or> so_held s job = None")
    case True
    then show ?thesis using run
      by (auto simp: append_note_def Let_def refuse_def and_do_def find_job_def split: option.splits if_splits)
  next
    case False
    then obtain h where h: "so_held s job = Some h" by auto
    then have "and_do (append_state m job (note_event ?t)) (\<lambda>_. look job (\<lambda>st _.
        put_state job (st\<lparr>jb_notepad := append_to_notepad (jb_notepad st) ?t\<rparr>))) s = (a, s')"
      using run False by (simp add: append_note_def Let_def and_do_def[of "find_job job"] find_job_def)
    then show ?thesis
    proof (cases rule: and_do_cases)
      case (stopped e)
      then show ?thesis using append_Inl_moves by blast
    next
      case (went_on x s1)
      then obtain n lg where lg: "log_append (so_log s) (state_event_of job (note_event ?t)) = (Inr n, lg)"
        "s1 = s\<lparr>so_log := lg\<rparr>" using append_Inr_log by blast
      then have "s' = put_held job (h\<lparr>hj_state := (hj_state h)\<lparr>jb_notepad :=
          append_to_notepad (jb_notepad (hj_state h)) ?t\<rparr>\<rparr>) (s\<lparr>so_log := lg\<rparr>)"
        using went_on(2) h by (simp add: look_def state_of_def put_state_def)
      then show ?thesis using noted[OF h _ lg(1)] False by (auto intro: r_into_rtranclp)
    qed
  qed
qed

lemma keeper_then_moves:
  assumes "keeper_then f rest k lg = (a, k', lg')"
    "\<And>b k1 lg1. f k lg = (b, k1, lg1) \<Longrightarrow> keeper_moves u (k, lg) (k1, lg1)"
    "\<And>x k1 lg1. rest x k1 lg1 = (a, k', lg') \<Longrightarrow> keeper_moves u (k1, lg1) (k', lg')"
  shows "keeper_moves u (k, lg) (k', lg')"
proof -
  obtain b k1 lg1 where f: "f k lg = (b, k1, lg1)" by (cases "f k lg")
  then show ?thesis using assms(1) assms(2)[OF f] assms(3)
    by (cases b) (auto simp: keeper_then_def intro: rtranclp_trans)
qed

lemma add_the_rules_moves: "add_the_rules rules k lg = (a, k', lg') \<Longrightarrow> keeper_moves u (k, lg) (k', lg')"
proof (induction rules k lg arbitrary: a rule: add_the_rules.induct)
  case (2 rule rest k lg)
  from 2(2) have "keeper_then (add_correction rule) (\<lambda>_. add_the_rules rest) k lg = (a, k', lg')" by simp
  then show ?case
  proof (rule keeper_then_moves)
    fix b k1 lg1
    assume "add_correction rule k lg = (b, k1, lg1)"
    then show "keeper_moves u (k, lg) (k1, lg1)" by (rule add_correction_moves)
  next
    fix x k1 lg1
    assume "add_the_rules rest k1 lg1 = (a, k', lg')"
    then show "keeper_moves u (k1, lg1) (k', lg')" by (rule 2(1))
  qed
qed simp

lemma apply_keeper_moves: "keeper_apply u up k lg = (a, k', lg') \<Longrightarrow> keeper_moves u (k, lg) (k', lg')"
  using perform_moves[of u "Apply up"] by simp

lemma situation_keeper_moves: "set_situation facts k lg = (a, k', lg') \<Longrightarrow> keeper_moves u (k, lg) (k', lg')"
  using perform_moves[of u "SetSituation facts"] by simp

lemma work_order_moves:
  "write_the_work_orders_parts m wanted k lg = (a, k', lg') \<Longrightarrow> keeper_moves (jm_unicode m) (k, lg) (k', lg')"
  unfolding write_the_work_orders_parts_def
  by (erule keeper_then_moves) (auto split: if_splits intro: apply_keeper_moves add_the_rules_moves)

lemma new_job_moves:
  assumes "write_the_new_job m wanted k lg = (a, k', lg')"
  shows "keeper_moves (jm_unicode m) (k, lg) (k', lg')"
proof -
  let ?last = "\<lambda>_. keeper_then (write_the_work_orders_parts m wanted) (\<lambda>_ k lg.
    if nj_folder wanted = [] then (Inr (), k, lg) else set_situation [project_folder_line @ nj_folder wanted] k lg)"
  have last: "keeper_moves (jm_unicode m) (k1, lg1) (k', lg')" if "?last x k1 lg1 = (a, k', lg')" for x k1 lg1
    using that by (rule keeper_then_moves) (auto split: if_splits intro: work_order_moves situation_keeper_moves)
  show ?thesis
    using assms unfolding write_the_new_job_def
    by (rule keeper_then_moves) (auto split: if_splits intro: apply_keeper_moves last)
qed

lemma starting_state_is:
  "starting_state m wanted now now' = Inr st \<Longrightarrow>
    jb_state st = job_running \<and> jb_incidents st = [] \<and> jb_notepad st = [] \<and> jb_schedule st = nj_schedule wanted"
  by (auto simp: starting_state_def Let_def no_job_state_def and_then_Inr_iff split: option.splits)

lemma create_moves [moving]: "by_moves m user (create_job m now now' wanted)"
proof (rule by_movesI)
  fix s a s'
  assume run: "create_job m now now' wanted s = (a, s')"
  let ?job = "itoa (so_next s)"
  let ?make = "\<lambda>k'. case starting_state m wanted now now' of
              Inl e \<Rightarrow> refuse e
            | Inr starting \<Rightarrow>
                and_do (append_state m ?job (snapshot_event starting)) (\<lambda>_.
                and_do (\<lambda>s'. (Inr (), put_held ?job \<lparr>hj_keeper = k', hj_state = starting\<rparr>
                     (s'\<lparr>so_next := wrap64 (so_next s' + 1), so_order := so_order s' @ [?job]\<rparr>))) (\<lambda>_.
                and_do wake (\<lambda>_. give ?job)))"
  let ?parts = "\<lambda>k. on_log (\<lambda>lg. case write_the_new_job m wanted k lg of
                                   (Inl e, _, lg') \<Rightarrow> (Inl e, lg') | (Inr _, k', lg') \<Rightarrow> (Inr k', lg'))"
  show "store_moves m user s s'"
  proof (cases "s' = s")
    case False
    then have room: "length (so_order s) < max_jobs"
      and "and_do (on_log (new_keeper (job_start ?job (nj_ask wanted)))) (\<lambda>k. and_do (?parts k) ?make) s = (a, s')"
      using run by (auto simp: create_job_def Let_def split: if_splits sum.splits)
    from this(2) show ?thesis
    proof (cases rule: and_do_cases)
      case (stopped e)
      then show ?thesis by (auto simp: on_log_def intro: no_keeper split: prod.splits)
    next
      case (went_on k s1)
      then obtain lg where k: "new_keeper (job_start ?job (nj_ask wanted)) (so_log s) = (Inr k, lg)"
        "s1 = s\<lparr>so_log := lg\<rparr>" by (auto simp: on_log_def split: prod.splits)
      obtain b k' lg' where w: "write_the_new_job m wanted k lg = (b, k', lg')"
        by (cases "write_the_new_job m wanted k lg")
      have moved: "keeper_moves (jm_unicode m) (k, lg) (k', lg')" by (rule new_job_moves[OF w])
      have gone: "store_moves m user s (s\<lparr>so_log := lg'\<rparr>)"
        by (rule r_into_rtranclp) (rule given_up[OF k(1) moved])
      show ?thesis
      proof (cases "\<exists>st. b = Inr () \<and> starting_state m wanted now now' = Inr st")
        case no: False
        then have "s' = s\<lparr>so_log := lg'\<rparr>" using went_on(2) k(2) w
          by (auto simp: and_do_def on_log_def refuse_def split: sum.splits prod.splits)
        then show ?thesis using gone by simp
      next
        case True
        then obtain st where st: "b = Inr ()" "starting_state m wanted now now' = Inr st" by blast
        let ?s2 = "s\<lparr>so_log := lg'\<rparr>"
        have "and_do (append_state m ?job (snapshot_event st)) (\<lambda>_.
                and_do (\<lambda>s'. (Inr (), put_held ?job \<lparr>hj_keeper = k', hj_state = st\<rparr>
                     (s'\<lparr>so_next := wrap64 (so_next s' + 1), so_order := so_order s' @ [?job]\<rparr>))) (\<lambda>_.
                and_do wake (\<lambda>_. give ?job))) ?s2 = (a, s')"
          using went_on(2) k(2) w st by (simp add: and_do_def[of "?parts k"] on_log_def)
        then show ?thesis
        proof (cases rule: and_do_cases)
          case (stopped e)
          then show ?thesis using append_Inl_moves gone by (meson rtranclp_trans)
        next
          case last: (went_on x s3)
          then obtain n lg2 where lg2: "log_append lg' (state_event_of ?job (snapshot_event st)) = (Inr n, lg2)"
            "s3 = s\<lparr>so_log := lg2\<rparr>" using append_Inr_log[OF last(1)] by auto
          let ?s4 = "put_held ?job \<lparr>hj_keeper = k', hj_state = st\<rparr>
            (s\<lparr>so_log := lg2, so_next := wrap64 (so_next s + 1), so_order := so_order s @ [?job]\<rparr>)"
          have "store_move m user s ?s4"
            using starting_state_is[OF st(2)] room by (intro a_new_job[OF k(1) moved lg2(1)]) simp_all
          moreover have "by_moves m user (and_do wake (\<lambda>_. give ?job))" by (intro moving)
          then have "store_moves m user ?s4 s'"
            using last(2) lg2(2) by (simp add: and_do_def[of "\<lambda>s'. (Inr (), _ s')"] by_moves_def put_held_def)
          ultimately show ?thesis by simp
        qed
      qed
    qed
  qed simp
qed

lemma summary_moves [moving]: "by_moves m user (summary_of job now)"
  unfolding summary_of_def Let_def by (intro moves_look moving)

lemma summaries_moves [moving]: "by_moves m user (summaries clock at jobs)"
  by (induction jobs arbitrary: at) (simp_all, intro moving, intro moving)

lemma listing_moves [moving]:
  "by_moves m user (list_jobs clock)" "by_moves m user (load_job job)" "by_moves m user (timing_of job)"
  "by_moves m user (incidents_of job)" "by_moves m user (notepad_of job)" "by_moves m user put_down_task"
  by (auto simp: by_moves_def list_jobs_def load_job_def timing_of_def incidents_of_def notepad_of_def
      put_down_task_def and_do_def find_job_def give_def split: option.splits dest: by_movesD[OF summaries_moves])

end
