(* ===== verification/Job_Invariants.thy ===== *)
theory Job_Invariants
  imports Job_Moves
begin

text \<open>
  What holds of every store that is reached from an empty one, by any calls and whatever others write
  into the same log and table: the jobs are numbered from one on, their records stand, their notes and
  incidents keep to their bounds, and what the log says of each job is what the store holds.
\<close>

section \<open>What the log says of the jobs\<close>

definition replay_one :: "(string \<times> job_state) list \<Rightarrow> event \<Rightarrow> (string \<times> job_state) list" where
  "replay_one states e =
     (case change_in e of
        None \<Rightarrow> states
      | Some (job, change) \<Rightarrow> put_under job (apply_change change (state_under job states)) states)"

definition states_in :: "event list \<Rightarrow> (string \<times> job_state) list" where
  "states_in es = foldl replay_one [] es"

lemma states_in_append: "states_in (xs @ ys) = foldl replay_one (states_in xs) ys"
  by (simp add: states_in_def)

lemma quiet_states: "list_all (\<lambda>e. change_in e = None) es \<Longrightarrow> foldl replay_one sts es = sts"
  by (induction es arbitrary: sts) (simp_all add: replay_one_def)

lemma state_under_put: "state_under j (put_under job st sts) = (if j = job then st else state_under j sts)"
  by (induction job st sts rule: put_under.induct) auto

lemma names_put: "map fst (put_under job st sts) = (if job \<in> fst ` set sts then map fst sts else map fst sts @ [job])"
  by (induction job st sts rule: put_under.induct) auto

lemma replay_states_is:
  assumes "length (states_in (log_contents lg)) \<le> max_jobs" "sound_log lg" "answers_now lg"
  shows "replay_states lg = (Inr (states_in (log_contents lg)), one_call_later lg)"
proof -
  have grows: "length sts \<le> length (foldl replay_one sts es)" for sts es
  proof (induction es arbitrary: sts)
    case (Cons e es)
    have "length sts \<le> length (replay_one sts e)"
      by (auto simp: replay_one_def split: option.split prod.split)
        (metis (no_types, lifting) dual_order.refl le_SucI length_append_singleton length_map names_put)
    then show ?case using Cons[of "replay_one sts e"] by simp
  qed simp
  have "replay_rows replay_state (\<lambda>_. False) sts ws = Inr (foldl replay_one sts (map row_event ws))"
    if "list_all sound_row ws" "length (foldl replay_one sts (map row_event ws)) \<le> max_jobs" for sts ws
    using that
  proof (induction ws arbitrary: sts)
    case (Cons w ws)
    have "length (replay_one sts (row_event w)) \<le> max_jobs"
      using grows[of "replay_one sts (row_event w)" "map row_event ws"] Cons.prems(2) by simp
    then have "replay_state sts (row_event w) = Inr (replay_one sts (row_event w))"
      by (auto simp: replay_state_def replay_one_def Let_def split: option.split prod.split)
    then show ?case using Cons by (simp add: decode_sound)
  qed simp
  then show ?thesis using assms
    by (simp add: replay_states_def log_replay_def sorted_rows states_in_def log_contents_def sound_log_def)
qed

section \<open>Names of jobs\<close>

definition job_names :: "nat \<Rightarrow> string list" where
  "job_names n = map (\<lambda>i. itoa (int i + 1)) [0..<n]"

definition numbered_from_one :: "string list \<Rightarrow> bool" where
  "numbered_from_one names \<longleftrightarrow> names = job_names (length names)"

lemma job_names_Suc: "job_names (Suc n) = job_names n @ [itoa (int n + 1)]"
  by (simp add: job_names_def)

lemma job_number_itoa: "1 \<le> n \<Longrightarrow> n \<le> max_int \<Longrightarrow> job_number (itoa n) = Some n"
  by (simp add: job_number_def max_int_def)

lemma job_name_number: "n \<le> max_jobs \<Longrightarrow> job \<in> set (job_names n) \<Longrightarrow> \<exists>i. 1 \<le> i \<and> i \<le> int n \<and> job = itoa i \<and> job_number job = Some i"
proof -
  assume n: "n \<le> max_jobs" and "job \<in> set (job_names n)"
  then obtain x where "x < n" "job = itoa (int x + 1)" by (auto simp: job_names_def)
  then show ?thesis using n
    by (intro exI[of _ "int x + 1"]) (auto simp: max_jobs_def max_int_def intro!: job_number_itoa)
qed

lemma itoa_inj: "1 \<le> i \<Longrightarrow> i \<le> max_int \<Longrightarrow> 1 \<le> j \<Longrightarrow> j \<le> max_int \<Longrightarrow> itoa i = itoa j \<longleftrightarrow> i = j"
  by (metis job_number_itoa option.inject)

lemma job_names_distinct: "n \<le> max_jobs \<Longrightarrow> distinct (job_names n)"
  by (auto simp: job_names_def distinct_map inj_on_def itoa_inj max_jobs_def max_int_def)

lemma new_name: "n \<le> max_jobs \<Longrightarrow> itoa (int n + 1) \<notin> set (job_names n)"
  by (auto simp: job_names_def itoa_inj max_jobs_def max_int_def)

lemma key_of_name: "1 \<le> n \<Longrightarrow> n \<le> max_int \<Longrightarrow> job_of_log_key (record_log_key record_job (itoa n)) = Some (itoa n)"
  by (simp add: job_of_log_key_def record_log_key_def job_number_itoa Suc_le_eq)

section \<open>Events that say nothing of a job's state\<close>

text \<open>A keeper writes checkpoints and results, and the state of a job is in no such event.\<close>

definition quiet_gain :: "event_log \<Rightarrow> event_log \<Rightarrow> bool" where
  "quiet_gain lg lg' \<longleftrightarrow> sound_log lg' \<and>
     (\<exists>es. log_contents lg' = log_contents lg @ es \<and> list_all (\<lambda>e. change_in e = None) es)"

lemma quiet_refl: "sound_log lg \<Longrightarrow> quiet_gain lg lg"
  by (simp add: quiet_gain_def)

lemma quiet_trans: "quiet_gain a b \<Longrightarrow> quiet_gain b c \<Longrightarrow> quiet_gain a c"
  by (auto simp: quiet_gain_def)

lemma quiet_same: "sound_log lg' \<Longrightarrow> log_contents lg' = log_contents lg \<Longrightarrow> quiet_gain lg lg'"
  by (simp add: quiet_gain_def)

lemma quiet_append:
  assumes "sound_log lg" "log_append lg e = (x, lg')" "\<And>n. change_in (e\<lparr>ev_sequence := n\<rparr>) = None"
  shows "quiet_gain lg lg'"
proof -
  have "sound_log lg'" using log_store.app_ok[OF assms(1), of e] assms(2) by simp
  then show ?thesis using log_store.app_Inr[OF assms(1)] log_store.app_Inl[OF assms(1)] assms(2,3)
    by (cases x) (auto simp: quiet_gain_def)
qed

lemma no_change_in: "kind \<noteq> event_record_change \<Longrightarrow> change_in ((new_event task kind b)\<lparr>ev_sequence := n\<rparr>) = None"
  by (simp add: change_in_def new_event_def split: option.split)

lemma save_quiet:
  assumes "sound_log lg" "save k lg = (a, k', lg')"
  shows "quiet_gain lg lg'"
proof -
  have none: "change_in ((new_event key event_checkpoint b)\<lparr>ev_sequence := n\<rparr>) = None" for key b n
    by (rule no_change_in) (simp add: event_kind_defs)
  obtain x where "log_append lg (new_event (log_key k) event_checkpoint (checkpoint_body (next_checkpoint k))) = (x, lg')"
    using assms(2) by (cases a) (auto dest: save_Inl save_Inr)
  then show ?thesis using quiet_append[OF assms(1) _ none] by blast
qed

lemma move_quiet: "keeper_move u s s' \<Longrightarrow> sound_log (snd s) \<Longrightarrow> quiet_gain (snd s) (snd s')"
proof (induction rule: keeper_move.induct)
  case (a_read lg key x lg' k)
  then show ?case using log_store.task_ok[of lg key] log_store.task_same[of lg key] by (simp add: quiet_gain_def)
next
  case (a_result_stored k lg s lg1 x lg2)
  have lg1: "log_contents lg1 = log_contents lg" "sound_log lg1"
    using next_label_gained[OF _ a_result_stored(1)] a_result_stored(3) by simp_all
  have none: "change_in ((new_event key event_tool_result b)\<lparr>ev_sequence := n\<rparr>) = None" for key b n
    by (rule no_change_in) (simp add: event_kind_defs)
  obtain y where "log_append lg1 (new_event (log_key k) event_tool_result (result_body s)) = (y, lg2)"
    using store_result_append[OF a_result_stored(2)] by blast
  then have "quiet_gain lg1 lg2" by (rule quiet_append[OF lg1(2) _ none])
  then show ?case using lg1 by (simp add: quiet_gain_def)
next
  case (a_save k lg a k' lg')
  then show ?case using save_quiet[of lg k a k' lg'] by simp
next
  case (once_per_round k lg)
  then show ?case by (simp add: quiet_refl)
next
  case (a_change f k w lg a k' lg')
  from a_change(2) show ?case
    by (cases rule: change_or_wait_cases) (use a_change(3) save_quiet in \<open>auto intro: quiet_refl\<close>)
qed

lemma moves_quiet: "keeper_moves u s s' \<Longrightarrow> sound_log (snd s) \<Longrightarrow> quiet_gain (snd s) (snd s')"
proof (induction rule: rtranclp_induct)
  case (step t t')
  then have "quiet_gain (snd s) (snd t)" by simp
  moreover have "quiet_gain (snd t) (snd t')"
    using calculation move_quiet[OF step(2)] by (simp add: quiet_gain_def)
  ultimately show ?case by (rule quiet_trans)
qed (rule quiet_refl)

lemma new_keeper_quiet: "sound_log lg \<Longrightarrow> new_keeper st lg = (a, lg') \<Longrightarrow> quiet_gain lg lg'"
  by (auto simp: new_keeper_def Let_def intro: quiet_refl dest: save_quiet split: if_splits sum.splits prod.splits)

lemma quiet_says: "quiet_gain lg lg' \<Longrightarrow> states_in (log_contents lg') = states_in (log_contents lg)"
  by (auto simp: quiet_gain_def states_in_append quiet_states)

text \<open>What an event of a job's state says.\<close>

lemma json_marker: "json_text state_marker = state_marker" "json_text [] = []"
  by code_simp+

lemma state_event_says:
  assumes "sound_log lg" "log_append lg (state_event_of job ev) = (Inr n, lg')"
    "se_marker ev = state_marker" "job_number job \<noteq> None"
  shows "sound_log lg' \<and> states_in (log_contents lg') =
    put_under job (apply_change (json_event ev) (state_under job (states_in (log_contents lg)))) (states_in (log_contents lg))"
proof -
  have "job_of_log_key (record_log_key record_job job) = Some job"
    using assms(4) by (cases job) (auto simp: job_of_log_key_def record_log_key_def job_number_def atoi_def)
  then have "change_in ((state_event_of job ev)\<lparr>ev_sequence := n\<rparr>) = Some (job, json_event ev)"
    using assms(3) by (simp add: change_in_def new_event_def state_body_def json_event_def json_marker)
  then have "replay_one sts ((state_event_of job ev)\<lparr>ev_sequence := n\<rparr>) =
      put_under job (apply_change (json_event ev) (state_under job sts)) sts" for sts
    by (simp add: replay_one_def)
  then show ?thesis
    using log_store.app_Inr[OF assms(1,2)] log_store.app_ok[OF assms(1), of "state_event_of job ev"] assms(2)
    by (simp add: states_in_append)
qed

lemma refused_says:
  "sound_log lg \<Longrightarrow> log_append lg e = (Inl err, lg') \<Longrightarrow> quiet_gain lg lg'"
  using log_store.app_ok[of lg e] log_store.app_Inl[of lg e err lg'] by (simp add: quiet_gain_def)

section \<open>What holds of a store\<close>

definition job_holds :: "string \<Rightarrow> held_job \<Rightarrow> bool" where
  "job_holds job h \<longleftrightarrow>
     (\<exists>ask. changed_rightly (start_record (job_start job ask)) (kp_record (hj_keeper h)))
     \<and> jb_state (hj_state h) \<in> {job_running, job_paused, job_off, job_done}
     \<and> incidents_hold (jb_incidents (hj_state h)) \<and> length (jb_notepad (hj_state h)) \<le> notepad_bytes"

text \<open>The notepad is not in a state as it is written; it is put together of the notes.\<close>

definition log_agrees :: "job_store \<Rightarrow> bool" where
  "log_agrees s \<longleftrightarrow> map fst (states_in (log_contents (so_log s))) = so_order s
     \<and> (\<forall>job h. so_held s job = Some h \<longrightarrow>
          (state_under job (states_in (log_contents (so_log s))))\<lparr>jb_notepad := []\<rparr> = json_state (hj_state h))"

definition jobs_hold :: "job_store \<Rightarrow> bool" where
  "jobs_hold s \<longleftrightarrow> sound_log (so_log s) \<and> length (so_order s) \<le> max_jobs
     \<and> numbered_from_one (so_order s) \<and> so_next s = int (length (so_order s)) + 1
     \<and> (\<forall>job. so_held s job \<noteq> None \<longleftrightarrow> job \<in> set (so_order s))
     \<and> (\<forall>job h. so_held s job = Some h \<longrightarrow> job_holds job h) \<and> log_agrees s"

lemma hold_log: "jobs_hold s \<Longrightarrow> sound_log (so_log s)"
  by (simp add: jobs_hold_def)

lemma hold_named:
  assumes "jobs_hold s" "so_held s job = Some h"
  shows "job \<in> set (so_order s) \<and> job_holds job h \<and> job_number job \<noteq> None"
proof -
  have "job \<in> set (so_order s)" "job_holds job h"
    using assms unfolding jobs_hold_def by (metis option.distinct(1), metis)
  moreover have "job \<in> set (job_names (length (so_order s)))" "length (so_order s) \<le> max_jobs"
    using assms(1) \<open>job \<in> set (so_order s)\<close> by (simp_all add: jobs_hold_def) (metis numbered_from_one_def)
  then have "job_number job \<noteq> None" using job_name_number by blast
  ultimately show ?thesis by simp
qed

lemma hold_quiet: "jobs_hold s \<Longrightarrow> quiet_gain (so_log s) lg \<Longrightarrow> jobs_hold (s\<lparr>so_log := lg\<rparr>)"
  using quiet_says[of "so_log s" lg] by (auto simp: jobs_hold_def log_agrees_def quiet_gain_def)

lemma hold_beside:
  "jobs_hold s \<Longrightarrow> so_order s' = so_order s \<Longrightarrow> so_held s' = so_held s \<Longrightarrow> so_next s' = so_next s \<Longrightarrow>
    so_log s' = so_log s \<Longrightarrow> jobs_hold s'"
  by (simp add: jobs_hold_def log_agrees_def)

lemma hold_keeper:
  "jobs_hold s \<Longrightarrow> so_held s job = Some h \<Longrightarrow> job_holds job h' \<Longrightarrow> hj_state h' = hj_state h \<Longrightarrow>
    jobs_hold (put_held job h' s)"
  by (auto simp: jobs_hold_def log_agrees_def)

text \<open>A state that is written.\<close>

lemma markers [simp]: "se_marker (snapshot_event st) = state_marker" "se_marker (note_event said) = state_marker"
  by (simp_all add: snapshot_event_def note_event_def)

lemma says_snapshot:
  "apply_change (json_event (snapshot_event st)) held = (json_state st)\<lparr>jb_notepad := jb_notepad held\<rparr>"
  by (simp add: apply_change_def json_event_def snapshot_event_def json_marker)

lemma says_note:
  "(apply_change (json_event (note_event said)) held)\<lparr>jb_notepad := []\<rparr> = held\<lparr>jb_notepad := []\<rparr>"
  by (simp add: apply_change_def json_event_def note_event_def)

lemma json_state_notepad [simp]: "json_state (st\<lparr>jb_notepad := n\<rparr>) = json_state st"
  "(json_state st)\<lparr>jb_notepad := []\<rparr> = json_state st"
  by (simp_all add: json_state_def)

lemma hold_written:
  assumes s: "jobs_hold s" "so_held s job = Some h" and h': "hj_keeper h' = hj_keeper h" "job_holds job h'"
    and lg: "log_append (so_log s) (state_event_of job ev) = (Inr n, lg)" "se_marker ev = state_marker"
    and says: "\<And>held. held\<lparr>jb_notepad := []\<rparr> = json_state (hj_state h) \<Longrightarrow>
      (apply_change (json_event ev) held)\<lparr>jb_notepad := []\<rparr> = json_state (hj_state h')"
  shows "jobs_hold (put_held job h' (s\<lparr>so_log := lg\<rparr>))"
proof -
  let ?sts = "states_in (log_contents (so_log s))"
  have job: "job \<in> set (so_order s)" "job_number job \<noteq> None" using hold_named[OF s] by simp_all
  have said: "sound_log lg \<and> states_in (log_contents lg) =
      put_under job (apply_change (json_event ev) (state_under job ?sts)) ?sts"
    using state_event_says[OF hold_log[OF s(1)] lg job(2)] by simp
  have agree: "log_agrees s" using s(1) by (simp add: jobs_hold_def)
  then have "job \<in> fst ` set ?sts" using job(1) unfolding log_agrees_def by (metis list.set_map)
  then have "log_agrees (put_held job h' (s\<lparr>so_log := lg\<rparr>))"
    using agree said says s(2) by (simp add: log_agrees_def names_put state_under_put)
  then show ?thesis using s h'(2) said by (auto simp: jobs_hold_def)
qed

lemma jobs_hold_saved:
  assumes "jobs_hold s" "so_held s job = Some h" "state_change user (kp_record (hj_keeper h)) (hj_state h) st"
    "log_append (so_log s) (state_event_of job (snapshot_event st)) = (Inr n, lg)"
  shows "jobs_hold (put_held job (h\<lparr>hj_state := st\<rparr>) (s\<lparr>so_log := lg\<rparr>))"
proof (rule hold_written[OF assms(1,2) _ _ assms(4)])
  show "job_holds job (h\<lparr>hj_state := st\<rparr>)"
    using hold_named[OF assms(1,2)] assms(3) by (auto simp: job_holds_def state_change_def)
qed (simp_all add: says_snapshot)

lemma hold_noted:
  assumes "jobs_hold s" "so_held s job = Some h"
    "log_append (so_log s) (state_event_of job (note_event said)) = (Inr n, lg)"
  shows "jobs_hold (put_held job (h\<lparr>hj_state := (hj_state h)\<lparr>jb_notepad :=
      append_to_notepad (jb_notepad (hj_state h)) said\<rparr>\<rparr>) (s\<lparr>so_log := lg\<rparr>))"
proof (rule hold_written[OF assms(1,2) _ _ assms(3)])
  show "job_holds job (h\<lparr>hj_state := (hj_state h)\<lparr>jb_notepad := append_to_notepad (jb_notepad (hj_state h)) said\<rparr>\<rparr>)"
    using hold_named[OF assms(1,2)] by (simp add: job_holds_def append_to_notepad_def within_the_cap_is)
qed (simp_all add: says_note)

lemma start_of_a_job:
  assumes "new_keeper (job_start job ask) lg = (Inr k, lg1)" "keeper_moves u (k, lg1) (k', lg2)" "sound_log lg"
  shows "changed_rightly (start_record (job_start job ask)) (kp_record k')"
proof -
  have k: "kp_record k = start_record (job_start job ask)" "sound_log lg1" "standing (kp_record k)"
    using new_keeper_Inr[OF assms(1)] save_gained[OF assms(3)] start_stands
    by (fastforce simp: log_gained_def)+
  then show ?thesis using moves_keep[OF assms(2)] by simp
qed

lemma hold_new_job:
  assumes s: "jobs_hold s" "length (so_order s) < max_jobs"
    and k: "new_keeper (job_start (itoa (so_next s)) ask) (so_log s) = (Inr k, lg)"
      "keeper_moves u (k, lg) (k', lg1)"
    and lg2: "log_append lg1 (state_event_of (itoa (so_next s)) (snapshot_event st)) = (Inr n, lg2)"
    and st: "jb_state st = job_running" "jb_incidents st = []" "jb_notepad st = []"
  shows "jobs_hold (put_held (itoa (so_next s)) \<lparr>hj_keeper = k', hj_state = st\<rparr>
      (s\<lparr>so_log := lg2, so_next := wrap64 (so_next s + 1), so_order := so_order s @ [itoa (so_next s)]\<rparr>))"
proof -
  let ?n = "length (so_order s)" and ?job = "itoa (so_next s)" and ?sts = "states_in (log_contents (so_log s))"
  have order: "so_order s = job_names ?n" and nxt: "so_next s = int ?n + 1" and sound: "sound_log (so_log s)"
    using s(1) by (simp_all add: jobs_hold_def numbered_from_one_def[symmetric])
  have room: "?n < max_jobs" "so_next s \<le> 500" using s(2) nxt by (simp_all add: max_jobs_def)
  have number: "job_number ?job \<noteq> None"
    using job_number_itoa[of "so_next s"] nxt room(2) by (simp add: max_int_def)
  have new: "?job \<notin> set (so_order s)" using new_name[of ?n] room(1) order nxt by (metis less_imp_le)
  have quiet: "quiet_gain (so_log s) lg1"
    by (rule quiet_trans[OF new_keeper_quiet[OF sound k(1)]])
      (use new_keeper_quiet[OF sound k(1)] moves_quiet[OF k(2)] in \<open>simp add: quiet_gain_def\<close>)
  have lg1: "sound_log lg1" "states_in (log_contents lg1) = ?sts"
    using quiet quiet_says[OF quiet] by (simp_all add: quiet_gain_def)
  have said: "sound_log lg2" "states_in (log_contents lg2) = put_under ?job
      ((json_state st)\<lparr>jb_notepad := jb_notepad (state_under ?job ?sts)\<rparr>) ?sts"
    using state_event_says[OF lg1(1) lg2 _ number] lg1(2) by (simp_all add: says_snapshot)
  have agree: "log_agrees s" using s(1) by (simp add: jobs_hold_def)
  then have "?job \<notin> fst ` set ?sts" using new unfolding log_agrees_def by (metis list.set_map)
  moreover have "so_held s ?job = None" using s(1) new by (auto simp: jobs_hold_def)
  ultimately have agrees: "log_agrees (put_held ?job \<lparr>hj_keeper = k', hj_state = st\<rparr>
      (s\<lparr>so_log := lg2, so_next := wrap64 (so_next s + 1), so_order := so_order s @ [?job]\<rparr>))"
    using agree by (auto simp: log_agrees_def said(2) names_put state_under_put)
  have "wrap64 (so_next s + 1) = int (Suc ?n) + 1" using nxt room(2) by (simp add: wrap64_small max_int_def)
  moreover have "so_order s @ [?job] = job_names (Suc ?n)"
    unfolding job_names_Suc using order nxt by metis
  then have "numbered_from_one (so_order s @ [?job])" by (metis numbered_from_one_def length_append_singleton)
  moreover have "job_holds ?job \<lparr>hj_keeper = k', hj_state = st\<rparr>"
    using start_of_a_job[OF k sound] st by (auto simp: job_holds_def incidents_hold_def)
  ultimately show ?thesis using s said(1) agrees by (auto simp: jobs_hold_def)
qed

lemma move_holds: "store_move m user s s' \<Longrightarrow> jobs_hold s \<Longrightarrow> jobs_hold s'"
proof (induction rule: store_move.induct)
  case (on_the_table s ct)
  then show ?case by (rule hold_beside) simp_all
next
  case (at_the_side s s')
  then show ?case by (intro hold_beside[of s s']) (simp_all add: same_jobs_def)
next
  case (by_the_keeper s job h k lg)
  have h: "job_holds job h" using hold_named by_the_keeper by blast
  then obtain ask where ask: "changed_rightly (start_record (job_start job ask)) (kp_record (hj_keeper h))"
    by (auto simp: job_holds_def)
  then have "standing (kp_record (hj_keeper h))" by (simp add: changed_rightly_def)
  then have "changed_rightly (kp_record (hj_keeper h)) (kp_record k)"
    using move_keeps[OF by_the_keeper(2)] hold_log[OF by_the_keeper(3)] by simp
  then have "job_holds job (h\<lparr>hj_keeper := k\<rparr>)" using h changed_rightly_trans[OF ask] by (auto simp: job_holds_def)
  moreover have "quiet_gain (so_log s) lg" using move_quiet[OF by_the_keeper(2)] hold_log[OF by_the_keeper(3)] by simp
  ultimately show ?case using by_the_keeper by (intro hold_keeper[of _ job h] hold_quiet) simp_all
next
  case (refused_event s job ev e lg)
  then show ?case by (intro hold_quiet refused_says) (auto intro: hold_log)
next
  case (saved_state s job h st n lg)
  then show ?case by (intro jobs_hold_saved)
next
  case (noted s job h said n lg)
  then show ?case by (intro hold_noted)
next
  case (no_keeper s ask e lg)
  then show ?case by (intro hold_quiet new_keeper_quiet) (auto intro: hold_log)
next
  case (given_up s ask k lg k' lg')
  have one: "quiet_gain (so_log s) lg" using new_keeper_quiet[OF hold_log[OF given_up(3)] given_up(1)] .
  then have "quiet_gain lg lg'" using moves_quiet[OF given_up(2)] by (simp add: quiet_gain_def)
  then show ?case using given_up(3) by (intro hold_quiet quiet_trans[OF one])
next
  case (a_new_job s ask k lg k' lg1 st n lg2)
  then show ?case by (intro hold_new_job)
qed

lemma moves_hold: "store_moves m user s s' \<Longrightarrow> jobs_hold s \<Longrightarrow> jobs_hold s'"
  by (induction rule: rtranclp_induct) (auto intro: move_holds)

section \<open>Runs\<close>

text \<open>
  A store from the file it was opened on, with no job in it: the moves of its own methods, and what the
  other processes on the same file do to its log and its table.
\<close>

inductive jobs_run :: "job_machine \<Rightarrow> job_store \<Rightarrow> bool" for m where
  opened: "sound_log lg \<Longrightarrow> states_in (log_contents lg) = [] \<Longrightarrow> jobs_run m (empty_store pid lg ct)"
| moved: "jobs_run m s \<Longrightarrow> store_move m user s s' \<Longrightarrow> jobs_run m s'"
| others_wrote: "jobs_run m s \<Longrightarrow> log_append (so_log s) e = (x, lg) \<Longrightarrow> (\<forall>n. change_in (e\<lparr>ev_sequence := n\<rparr>) = None) \<Longrightarrow>
    jobs_run m (s\<lparr>so_log := lg\<rparr>)"
| others_claimed: "jobs_run m s \<Longrightarrow> jobs_run m (s\<lparr>so_claims := ct\<rparr>)"

lemma moves_run: "store_moves m user s s' \<Longrightarrow> jobs_run m s \<Longrightarrow> jobs_run m s'"
  by (induction rule: rtranclp_induct) (auto intro: moved)

lemma run_holds: "jobs_run m s \<Longrightarrow> jobs_hold s"
proof (induction rule: jobs_run.induct)
  case (opened lg pid ct)
  have "numbered_from_one []" by (simp add: numbered_from_one_def job_names_def)
  moreover have "log_agrees (empty_store pid lg ct)" using opened(2) by (simp add: log_agrees_def empty_store_def)
  ultimately show ?case using opened(1) unfolding jobs_hold_def
    by (simp add: empty_store_def)
next
  case (moved s user s')
  then show ?case using move_holds by blast
next
  case (others_wrote s e x lg)
  then have "quiet_gain (so_log s) lg" by (intro quiet_append[OF hold_log]) auto
  then show ?case using others_wrote by (intro hold_quiet)
next
  case (others_claimed s ct)
  show ?case by (rule hold_beside[OF others_claimed(2)]) simp_all
qed

end
