(* ===== verification/Job_Leases.thy ===== *)
theory Job_Leases
  imports Job_Claims
begin

text \<open>
  A claim on a task as a lease: the contract between the processes that share the table of claims, and
  the proof that the statements of \<open>claims.go\<close> keep it, in whatever order the processes make
  them.
\<close>

section \<open>The contract\<close>

text \<open>
  Who takes a lease holds it for its length: nobody takes it before it ends, whatever steps the others
  make, as long as none of them gives it up.
\<close>

locale leases =
  fixes ok :: "'t \<Rightarrow> bool"
    and until :: "'t \<Rightarrow> 'k \<Rightarrow> moment option"
    and take_lease :: "'o \<Rightarrow> 'k \<Rightarrow> moment \<Rightarrow> 't \<Rightarrow> bool \<times> 't"
    and step :: "'c \<Rightarrow> 't \<Rightarrow> 't"
    and gives_up :: "'c \<Rightarrow> 'k \<Rightarrow> bool"
    and budget :: duration
  assumes take_ok: "ok t \<Longrightarrow> ok (snd (take_lease who k now t))"
    and step_ok: "ok t \<Longrightarrow> ok (step c t)"
    and taken: "ok t \<Longrightarrow> take_lease who k now t = (True, t') \<Longrightarrow> until t' k = Some (now + budget)"
    and free: "ok t \<Longrightarrow> take_lease who k now t = (True, t') \<Longrightarrow> until t k = Some d \<Longrightarrow> d \<le> now"
    and step_keeps: "ok t \<Longrightarrow> \<not> gives_up c k \<Longrightarrow> until t k = Some d \<Longrightarrow> \<exists>d' \<ge> d. until (step c t) k = Some d'"
begin

lemma steps_ok: "ok t \<Longrightarrow> ok (fold step cs t)"
  by (induction cs arbitrary: t) (simp_all add: step_ok)

lemma steps_keep:
  "ok t \<Longrightarrow> \<forall>c \<in> set cs. \<not> gives_up c k \<Longrightarrow> until t k = Some d \<Longrightarrow> \<exists>d' \<ge> d. until (fold step cs t) k = Some d'"
proof (induction cs arbitrary: t d)
  case (Cons c cs)
  obtain d1 where "d \<le> d1" "until (step c t) k = Some d1" using step_keeps[OF Cons.prems(1) _ Cons.prems(3), of c] Cons.prems(2) by auto
  then show ?case using Cons.IH[OF step_ok[OF Cons.prems(1)], of c d1] Cons.prems(2) by fastforce
qed simp

text \<open>Two takers of one lease are its length apart.\<close>

lemma takers_apart:
  assumes "ok t" "take_lease who k first t = (True, t1)" "\<forall>c \<in> set cs. \<not> gives_up c k"
    "take_lease other k second (fold step cs t1) = (True, t2)"
  shows "first + budget \<le> second"
proof -
  have t1: "ok t1" using take_ok[OF assms(1), of who k first] assms(2) by simp
  obtain d where d: "first + budget \<le> d" "until (fold step cs t1) k = Some d"
    using steps_keep[OF t1 assms(3) taken[OF assms(1,2)]] by blast
  then show ?thesis using free[OF steps_ok[OF t1] assms(4)] by fastforce
qed

end

section \<open>The statements as steps\<close>

datatype table_call =
    ClaimTask string string string moment | ReleaseTask string string | ReleaseTheClaimsOf string
  | ClaimedTasks string moment | ExpiredClaims moment | EveryClaim

fun table_after :: "table_call \<Rightarrow> claims_table \<Rightarrow> claims_table" where
  "table_after (ClaimTask who job task now) ct = snd (claim_task who job task now ct)"
| "table_after (ReleaseTask job task) ct = snd (release_task job task ct)"
| "table_after (ReleaseTheClaimsOf job) ct = snd (release_the_claims_of job ct)"
| "table_after (ClaimedTasks job now) ct = snd (claimed_tasks job now ct)"
| "table_after (ExpiredClaims now) ct = snd (expired_claims now ct)"
| "table_after EveryClaim ct = snd (every_claim ct)"

fun gives_up_claim :: "table_call \<Rightarrow> string \<times> string \<Rightarrow> bool" where
  "gives_up_claim (ReleaseTask job task) k \<longleftrightarrow> k = (job, task)"
| "gives_up_claim (ReleaseTheClaimsOf job) k \<longleftrightarrow> fst k = job"
| "gives_up_claim _ k \<longleftrightarrow> False"

definition claim_until :: "claims_table \<Rightarrow> string \<times> string \<Rightarrow> moment option" where
  "claim_until ct k = map_option cr_deadline (claim_of ct (fst k) (snd k))"

definition take_claim :: "string \<Rightarrow> string \<times> string \<Rightarrow> moment \<Rightarrow> claims_table \<Rightarrow> bool \<times> claims_table" where
  "take_claim who k now ct =
     (case claim_task who (fst k) (snd k) now ct of (a, ct') \<Rightarrow> (a = Inr True, ct'))"

lemma reading_same:
  "ct_rows (snd (claimed_tasks job now ct)) = ct_rows ct"
  "ct_rows (snd (expired_claims now ct)) = ct_rows ct" "ct_rows (snd (every_claim ct)) = ct_rows ct"
  by (simp_all add: claimed_tasks_def expired_claims_def every_claim_def statement_def)

lemma same_rows: "ct_rows ct' = ct_rows ct \<Longrightarrow> one_row_each ct' = one_row_each ct \<and> claim_of ct' = claim_of ct"
  by (simp add: one_row_each_def claim_of_def fun_eq_iff)

lemma same_until: "ct_rows ct' = ct_rows ct \<Longrightarrow> claim_until ct' = claim_until ct"
  by (simp add: claim_until_def claim_of_def fun_eq_iff)

interpretation lease: leases one_row_each claim_until take_claim table_after gives_up_claim task_budget
proof
  fix ct ct' :: claims_table and who k now c d
  assume one: "one_row_each ct"
  show "one_row_each (snd (take_claim who k now ct))"
    using claim_task_is(1)[OF _ one] by (auto simp: take_claim_def split: prod.split)
  show "one_row_each (table_after c ct)"
    using claim_task_is(1)[OF prod.collapse[symmetric] one] release_task_is(1)[OF prod.collapse[symmetric] one]
      release_the_claims_of_is(1)[OF prod.collapse[symmetric] one] one same_rows[OF reading_same(1)]
      same_rows[OF reading_same(2)] same_rows[OF reading_same(3)]
    by (cases c) simp_all
  show "take_claim who k now ct = (True, ct') \<Longrightarrow> claim_until ct' k = Some (now + task_budget)"
    using claim_task_is(2)[OF _ one, of who "fst k" "snd k" now _ ct' "fst k" "snd k"]
    by (auto simp: take_claim_def claim_until_def split: prod.splits)
  show "take_claim who k now ct = (True, ct') \<Longrightarrow> claim_until ct k = Some d \<Longrightarrow> d \<le> now"
    using claim_task_is(3)[OF _ one, of who "fst k" "snd k" now _ ct']
    by (fastforce simp: take_claim_def claim_until_def live_claim_def split: prod.splits)
  assume kept: "\<not> gives_up_claim c k" and d: "claim_until ct k = Some d"
  show "\<exists>d' \<ge> d. claim_until (table_after c ct) k = Some d'"
  proof (cases c)
    case (ClaimTask o' job task now')
    obtain a ct1 where run: "claim_task o' job task now' ct = (a, ct1)" by fastforce
    show ?thesis
    proof (cases "a = Inr True \<and> k = (job, task)")
      case True
      then have "d \<le> now'" using claim_task_is(3)[OF run one] d
        by (fastforce simp: claim_until_def live_claim_def)
      then show ?thesis using True claim_task_is(2)[OF run one, of job task] run ClaimTask
        by (simp add: claim_until_def task_budget_def one_hour_def one_minute_def one_second_def)
    next
      case False
      then have "claim_of ct1 (fst k) (snd k) = claim_of ct (fst k) (snd k)"
        using claim_task_is(2)[OF run one, of "fst k" "snd k"] by (cases k) auto
      then have "claim_until ct1 k = Some d" using d by (simp add: claim_until_def)
      then show ?thesis using run ClaimTask by auto
    qed
  next
    case (ReleaseTask job task)
    obtain a ct1 where run: "release_task job task ct = (a, ct1)" by fastforce
    then show ?thesis using kept d ReleaseTask release_task_is(2)[OF run one, of "fst k" "snd k"]
      by (cases k) (auto simp: claim_until_def)
  next
    case (ReleaseTheClaimsOf job)
    obtain a ct1 where run: "release_the_claims_of job ct = (a, ct1)" by fastforce
    then have "claim_until ct1 k = Some d"
      using kept d ReleaseTheClaimsOf release_the_claims_of_is(2)[OF run one, of "fst k" "snd k"]
      by (simp add: claim_until_def)
    then show ?thesis using run ReleaseTheClaimsOf by auto
  qed (use d same_until[OF reading_same(1)] same_until[OF reading_same(2)] same_until[OF reading_same(3)] in auto)
qed

text \<open>Two processes that win one task are an hour apart.\<close>

lemmas winners_apart = lease.takers_apart

end
