(* ===== verification/Job_Effects.thy ===== *)
theory Job_Effects
  imports Job_Invariants Job_Leases
begin

text \<open>
  What the methods of the store do: which of them leave the table of claims alone, what a task that is
  handed out is, what a tick makes, what a report leaves.
\<close>

section \<open>Methods that leave the claims alone\<close>

named_theorems leaving \<open>acts that make no statement on the table of claims\<close>

definition leaves_claims :: "'a act \<Rightarrow> bool" where
  "leaves_claims act \<longleftrightarrow> (\<forall>s a s'. act s = (a, s') \<longrightarrow>
     so_claims s' = so_claims s \<and> so_order s' = so_order s \<and> so_owner s' = so_owner s)"

lemma leavesD: "leaves_claims act \<Longrightarrow> act s = (a, s') \<Longrightarrow>
    so_claims s' = so_claims s \<and> so_order s' = so_order s \<and> so_owner s' = so_owner s"
  by (simp add: leaves_claims_def)

lemma leaves_give [leaving]: "leaves_claims (give x)" "leaves_claims (refuse e)"
  by (simp_all add: leaves_claims_def give_def refuse_def)

lemma leaves_then [leaving]:
  assumes "leaves_claims act" "\<And>x. leaves_claims (rest x)"
  shows "leaves_claims (and_do act rest)"
  unfolding leaves_claims_def
proof (intro allI impI)
  fix s a s' assume run: "and_do act rest s = (a, s')"
  then show "so_claims s' = so_claims s \<and> so_order s' = so_order s \<and> so_owner s' = so_owner s"
  proof (cases rule: and_do_cases)
    case (stopped e)
    then show ?thesis using leavesD[OF assms(1)] by blast
  next
    case (went_on x s1)
    then show ?thesis using leavesD[OF assms(1) went_on(1)] leavesD[OF assms(2) went_on(2)] by simp
  qed
qed

lemma leaves_look: "(\<And>st r. leaves_claims (f st r)) \<Longrightarrow> leaves_claims (look job f)"
  by (simp add: leaves_claims_def look_def)

lemma leaves_if [leaving]: "leaves_claims a \<Longrightarrow> leaves_claims b \<Longrightarrow> leaves_claims (if c then a else b)"
  by simp

lemma leaves_let [leaving]: "leaves_claims (f x) \<Longrightarrow> leaves_claims (Let x f)"
  by simp

lemma leaves_sum [leaving]:
  "(\<And>e. leaves_claims (f e)) \<Longrightarrow> (\<And>x. leaves_claims (g x)) \<Longrightarrow> leaves_claims (case y of Inl e \<Rightarrow> f e | Inr x \<Rightarrow> g x)"
  by (cases y) simp_all

lemma leaves_option [leaving]:
  "leaves_claims a \<Longrightarrow> (\<And>x. leaves_claims (f x)) \<Longrightarrow> leaves_claims (case y of None \<Rightarrow> a | Some x \<Rightarrow> f x)"
  by (cases y) simp_all

lemma leaves_pair [leaving]: "(\<And>x y. leaves_claims (f x y)) \<Longrightarrow> leaves_claims (case p of (x, y) \<Rightarrow> f x y)"
  by (cases p) simp

lemma leaves_basic [leaving]:
  "leaves_claims (on_log f)" "leaves_claims (find_job job)" "leaves_claims (on_keeper job g)"
  "leaves_claims (apply_to_job m job up)" "leaves_claims (put_state job st)" "leaves_claims wake"
  "leaves_claims looked_for_work" "leaves_claims (tell_the_user said)"
  by (auto simp: leaves_claims_def on_log_def find_job_def on_keeper_def apply_to_job_def put_state_def wake_def
      looked_for_work_def tell_the_user_def Let_def split: prod.splits option.splits if_splits)

lemma leaves_append [leaving]: "leaves_claims (append_state m job ev)"
  unfolding append_state_def by (intro leaving)

lemma leaves_save [leaving]: "leaves_claims (save_state m job st)"
proof -
  have "leaves_claims (and_do (append_state m job (snapshot_event kept)) (\<lambda>_. put_state job kept))" for kept
    by (intro leaving)
  then show ?thesis by (auto simp: leaves_claims_def save_state_def Let_def split: option.splits)
qed

lemma leaves_work [leaving]:
  "leaves_claims (write_progress job)" "leaves_claims (stop_the_job m job state why cause)"
  "leaves_claims (the_tasks_are_the_done_list m job)" "leaves_claims (write_report m job report failed)"
  "leaves_claims (wake_if_running job)" "leaves_claims (add_task_to m job txt due unattended)"
  unfolding write_progress_def stop_the_job_def say_the_job_stopped_def the_tasks_are_the_done_list_def
    write_report_def wake_if_running_def add_task_to_def Let_def
  by (intro leaving leaves_look)+

lemma leaves_after [leaving]: "leaves_claims (after_one_task m job report failed now)"
  unfolding after_one_task_def stop_if_it_keeps_failing_def close_if_every_task_is_done_def
  by (intro leaving leaves_look)

lemma leaves_tick [leaving]: "leaves_claims (tick_schedule m now job)"
proof -
  have tail: "leaves_claims (\<lambda>s. case add_task_to m job (jb_template (state_of s job)) due True s of
                     (Inr _, s') \<Rightarrow> (Inr (), s')
                   | (Inl e, s') \<Rightarrow>
                       if length (w_tasks (r_work (record_of s' job))) < max_tasks_per_job then (Inl e, s')
                       else stop_the_job m job job_off why cause s')" for due why cause
    unfolding leaves_claims_def
  proof (intro allI impI)
    fix s a s'
    assume run: "(case add_task_to m job (jb_template (state_of s job)) due True s of
                     (Inr _, s') \<Rightarrow> (Inr (), s')
                   | (Inl e, s') \<Rightarrow>
                       if length (w_tasks (r_work (record_of s' job))) < max_tasks_per_job then (Inl e, s')
                       else stop_the_job m job job_off why cause s') = (a, s')"
    obtain b s1 where add: "add_task_to m job (jb_template (state_of s job)) due True s = (b, s1)"
      by (cases "add_task_to m job (jb_template (state_of s job)) due True s")
    have "s' = s1 \<or> stop_the_job m job job_off why cause s1 = (a, s')"
      using run add by (auto split: sum.splits if_splits)
    then show "so_claims s' = so_claims s \<and> so_order s' = so_order s \<and> so_owner s' = so_owner s"
      using leavesD[OF leaves_work(6) add] leavesD[OF leaves_work(2), of m job job_off why cause s1 a s'] by auto
  qed
  show ?thesis unfolding tick_schedule_def by (intro leaves_look tail leaving)
qed

section \<open>Giving up what has run too long\<close>

text \<open>Only claims that are over are released, so the live ones stay.\<close>

definition same_live :: "moment \<Rightarrow> job_store \<Rightarrow> job_store \<Rightarrow> bool" where
  "same_live now s s' \<longleftrightarrow> one_row_each (so_claims s') \<and> so_order s' = so_order s \<and> so_owner s' = so_owner s
     \<and> (\<forall>job task. live_claim (so_claims s') now job task = live_claim (so_claims s) now job task)"

lemma same_live_trans: "same_live now a b \<Longrightarrow> same_live now b c \<Longrightarrow> same_live now a c"
  by (simp add: same_live_def)

lemma leaves_live: "leaves_claims act \<Longrightarrow> act s = (a, s') \<Longrightarrow> one_row_each (so_claims s) \<Longrightarrow> same_live now s s'"
  by (drule leavesD) (auto simp: same_live_def)

lemma release_live:
  assumes "on_claims (release_task job task) s = (a, s')" "one_row_each (so_claims s)"
    "\<not> live_claim (so_claims s) now job task"
  shows "same_live now s s'"
proof -
  obtain ct where ct: "release_task job task (so_claims s) = (a, ct)" "s' = s\<lparr>so_claims := ct\<rparr>"
    using assms(1) by (auto simp: on_claims_def split: prod.splits)
  show ?thesis using release_task_is(1,2)[OF ct(1) assms(2)] assms(3) ct(2)
    by (auto simp: same_live_def live_claim_def)
qed

lemma finish_task_of_live:
  assumes "finish_task_of m job task report failed now s = (a, s')" "one_row_each (so_claims s)"
    "\<not> live_claim (so_claims s) now' job task"
  shows "same_live now' s s'"
proof (cases "unfinished_task (state_of s job) (record_of s job) task")
  case (Inl e)
  then show ?thesis using assms by (auto simp: finish_task_of_def look_def refuse_def same_live_def)
next
  case (Inr facts)
  let ?rest = "and_do (write_report m job report failed) (\<lambda>(reported, quiet).
         look job (\<lambda>st' _.
           let changed = state_after_report m st' task facts reported report quiet failed now in
           and_do (if \<not> failed \<or> tf_unattended facts then on_keeper job (mark_job_task task reported)
                   else give ()) (\<lambda>_.
           and_do (save_state m job changed) (\<lambda>_.
           and_do (after_one_task m job report failed now) (\<lambda>_.
           and_do (wake_if_running job) (\<lambda>_.
           and_do (write_progress job) (\<lambda>_. give reported))))))) :: string act"
  have rest: "leaves_claims ?rest" unfolding Let_def by (intro leaving leaves_look)
  have "and_do (on_claims (release_task job task)) (\<lambda>_. ?rest) s = (a, s')"
    using assms(1) Inr by (simp add: finish_task_of_def look_def)
  then show ?thesis
  proof (cases rule: and_do_cases)
    case (stopped e)
    then show ?thesis using release_live assms(2,3) by blast
  next
    case (went_on x s1)
    have one: "same_live now' s s1" using release_live[OF went_on(1) assms(2,3)] .
    then have "one_row_each (so_claims s1)" by (simp add: same_live_def)
    then show ?thesis using leaves_live[OF rest went_on(2)] same_live_trans[OF one] by simp
  qed
qed

lemma give_up_each_live:
  assumes "give_up_each m now overdue s = (a, s')" "one_row_each (so_claims s)"
    "\<forall>(job, task) \<in> set overdue. \<not> live_claim (so_claims s) now job task"
  shows "same_live now s s'"
  using assms
proof (induction overdue arbitrary: s a)
  case Nil
  then show ?case by (auto simp: give_def same_live_def)
next
  case (Cons c overdue)
  obtain job task where c: "c = (job, task)" by (cases c)
  have later: "same_live now s s'" if "same_live now s s1" "give_up_each m now overdue s1 = (b, s')" for s1 b
    using Cons.IH[OF that(2)] Cons.prems(3) that(1) same_live_trans[OF that(1)] by (auto simp: same_live_def)
  have step: "same_live now s s'"
    if "and_do act (\<lambda>_. give_up_each m now overdue) s = (a, s')"
      "\<And>b s1. act s = (b, s1) \<Longrightarrow> same_live now s s1" for act :: "'c act"
    using that(1)
  proof (cases rule: and_do_cases)
    case (stopped e)
    then show ?thesis using that(2) by blast
  next
    case (went_on x s1)
    then show ?thesis using that(2) later by blast
  qed
  have dead: "\<not> live_claim (so_claims s) now job task" using Cons.prems(3) c by simp
  show ?case
  proof (cases "so_held s job")
    case None
    then have "and_do (on_claims (release_task job task)) (\<lambda>_. give_up_each m now overdue) s = (a, s')"
      using Cons.prems(1) c by simp
    then show ?thesis using step release_live[OF _ Cons.prems(2) dead] by blast
  next
    case (Some h)
    show ?thesis
    proof (cases "jb_state (hj_state h) = job_running")
      case True
      then have "and_do (finish_task_of m job task (given_up_report m task) True now)
          (\<lambda>_. give_up_each m now overdue) s = (a, s')"
        using Cons.prems(1) c Some by simp
      then show ?thesis using step finish_task_of_live[OF _ Cons.prems(2) dead] by blast
    next
      case False
      then show ?thesis using Cons c Some by simp
    qed
  qed
qed

lemma expired_are_dead:
  assumes "expired_claims now ct = (Inr overdue, ct')" "one_row_each ct"
  shows "ct_rows ct' = ct_rows ct" "\<forall>(job, task) \<in> set overdue. \<not> live_claim ct now job task"
proof -
  show "ct_rows ct' = ct_rows ct" using assms(1) by (auto simp: expired_claims_def statement_def split: if_splits)
  show "\<forall>(job, task) \<in> set overdue. \<not> live_claim ct now job task"
    using assms(1) by (auto simp: expired_claims_def statement_def in_key_order_def live_claim_def
        claim_of_row[OF assms(2)] split: if_splits)
      (metis assms(2) claim_of_row leD option.inject)
qed

lemma rows_live: "ct_rows (so_claims s') = ct_rows (so_claims s) \<Longrightarrow> so_order s' = so_order s \<Longrightarrow>
    so_owner s' = so_owner s \<Longrightarrow> one_row_each (so_claims s) \<Longrightarrow> same_live now s s'"
  using same_rows[of "so_claims s'" "so_claims s"] by (simp add: same_live_def live_claim_def)

lemma release_overdue_live:
  assumes "release_tasks_past_their_budget m now s = (a, s')" "one_row_each (so_claims s)"
  shows "same_live now s s'"
  using assms(1) unfolding release_tasks_past_their_budget_def
proof (cases rule: and_do_cases)
  case (stopped e)
  then show ?thesis using assms(2)
    by (intro rows_live) (auto simp: on_claims_def expired_claims_def statement_def split: if_splits)
next
  case (went_on overdue s1)
  then obtain ct where ct: "expired_claims now (so_claims s) = (Inr overdue, ct)" "s1 = s\<lparr>so_claims := ct\<rparr>"
    by (auto simp: on_claims_def split: prod.splits)
  have rows: "ct_rows ct = ct_rows (so_claims s)" using expired_are_dead(1)[OF ct(1) assms(2)] .
  then have one: "same_live now s s1" using ct(2) assms(2) by (intro rows_live) simp_all
  have "\<forall>(job, task) \<in> set overdue. \<not> live_claim (so_claims s1) now job task"
    using expired_are_dead(2)[OF ct(1) assms(2)] one by (auto simp: same_live_def)
  then have "same_live now s1 s'"
    using give_up_each_live[OF went_on(2)] one by (simp add: same_live_def)
  then show ?thesis by (rule same_live_trans[OF one])
qed

section \<open>Handing out\<close>

text \<open>
  What a task is when it is handed out: on the list of a job that runs, unfinished, due, not waiting for
  another; nobody had claimed it, and this process has for an hour.
\<close>

definition handed_out :: "moment \<Rightarrow> job_store \<Rightarrow> task_to_run \<Rightarrow> job_store \<Rightarrow> bool" where
  "handed_out now s t s' \<longleftrightarrow>
     (\<exists>at. let st = state_of s' (tr_job t); tasks = w_tasks (r_work (record_of s' (tr_job t))) in
        jb_state st = job_running \<and> at < length tasks \<and> jt_id (tasks ! at) = tr_task t
        \<and> jt_text (tasks ! at) = tr_text t \<and> \<not> jt_done (tasks ! at)
        \<and> tf_due (state_facts st (tr_task t)) \<le> now \<and> tr_unattended t = tf_unattended (state_facts st (tr_task t))
        \<and> \<not> passed_over st tasks at)
     \<and> \<not> live_claim (so_claims s) now (tr_job t) (tr_task t)
     \<and> claim_of (so_claims s') (tr_job t) (tr_task t) =
         Some \<lparr>cr_job = tr_job t, cr_task = tr_task t, cr_owner = so_owner s, cr_taken = now,
               cr_deadline = now + task_budget\<rparr>"

text \<open>A state written is the state held, but for the notepad, and nothing else changes but the log.\<close>

lemma save_state_effect:
  assumes "save_state m job st s = (Inr x, s')"
  obtains h lg where "so_held s job = Some h"
    "s' = put_held job (h\<lparr>hj_state := st\<lparr>jb_notepad := jb_notepad (hj_state h)\<rparr>\<rparr>) (s\<lparr>so_log := lg\<rparr>)"
proof (cases "so_held s job")
  case None
  then show ?thesis using assms by (simp add: save_state_def)
next
  case (Some h)
  let ?kept = "st\<lparr>jb_notepad := jb_notepad (hj_state h)\<rparr>"
  have "and_do (append_state m job (snapshot_event ?kept)) (\<lambda>_. put_state job ?kept) s = (Inr x, s')"
    using assms Some by (simp add: save_state_def Let_def)
  then obtain y s1 where s1: "append_state m job (snapshot_event ?kept) s = (Inr y, s1)"
    "put_state job ?kept s1 = (Inr x, s')" by (auto simp: and_do_Inr)
  obtain lg where "s1 = s\<lparr>so_log := lg\<rparr>" using append_Inr_log[OF s1(1)] by blast
  then have "s' = put_held job (h\<lparr>hj_state := ?kept\<rparr>) (s\<lparr>so_log := lg\<rparr>)"
    using s1(2) Some by (simp add: put_state_def)
  then show ?thesis using that Some by blast
qed

lemma passed_over_same:
  "(\<And>i. tf_deferred (state_facts st' i) = tf_deferred (state_facts st i)) \<Longrightarrow> passed_over st' tasks at = passed_over st tasks at"
  by (simp add: passed_over_def Let_def)

lemma state_facts_notepad [simp]: "state_facts (st\<lparr>jb_notepad := n\<rparr>) = state_facts st"
  by (simp add: state_facts_def fun_eq_iff)

lemma hand_out_effect:
  assumes "hand_out m now job t s = (Inr found, s')" "so_held s job = Some h"
  shows "found = Some \<lparr>tr_job = job, tr_task = jt_id t, tr_text = jt_text t,
      tr_unattended = tf_unattended (state_facts (state_of s job) (jt_id t))\<rparr>
    \<and> so_claims s' = so_claims s \<and> so_owner s' = so_owner s \<and> record_of s' job = record_of s job
    \<and> jb_state (state_of s' job) = jb_state (state_of s job)
    \<and> (\<forall>i. tf_due (state_facts (state_of s' job) i) = tf_due (state_facts (state_of s job) i)
        \<and> tf_unattended (state_facts (state_of s' job) i) = tf_unattended (state_facts (state_of s job) i)
        \<and> tf_deferred (state_facts (state_of s' job) i) = tf_deferred (state_facts (state_of s job) i))"
proof (cases "tf_started (state_facts (state_of s job) (jt_id t)) = 0")
  case False
  then show ?thesis using assms(1) by (auto simp: hand_out_def look_def and_do_def give_def Let_def)
next
  case True
  let ?f = "state_facts (state_of s job) (jt_id t)"
  obtain x s1 where s1: "save_state m job (with_task (jt_id t) (?f\<lparr>tf_started := now\<rparr>) (state_of s job)) s = (Inr x, s1)"
    and rest: "found = Some \<lparr>tr_job = job, tr_task = jt_id t, tr_text = jt_text t, tr_unattended = tf_unattended ?f\<rparr>"
      "s' = s1"
    using assms(1) True by (auto simp: hand_out_def look_def and_do_Inr give_def Let_def)
  from s1 show ?thesis
    by (rule save_state_effect) (use assms(2) rest in \<open>simp_all add: put_held_def\<close>)
qed

lemma claim_lost: "claim_task who job task now ct = (Inr False, ct') \<Longrightarrow> ct_rows ct' = ct_rows ct"
  by (auto simp: claim_task_def statement_def Let_def split: if_splits option.splits)

lemma claims_beside [simp]: "state_of (s\<lparr>so_claims := ct\<rparr>) = state_of s" "record_of (s\<lparr>so_claims := ct\<rparr>) = record_of s"
  by (simp_all add: fun_eq_iff state_of_def record_of_def)

lemma first_that_starts_effect:
  assumes "first_that_starts m now job running places s = (Inr (Some t), s')" "so_held s job = Some h"
    "one_row_each (so_claims s)" "jb_state (hj_state h) = job_running"
    "\<forall>at \<in> set places. at < length (w_tasks (r_work (kp_record (hj_keeper h))))"
  shows "handed_out now s t s'"
  using assms
proof (induction places arbitrary: s)
  case Nil
  then show ?case by (simp add: give_def)
next
  case (Cons at places)
  let ?tasks = "w_tasks (r_work (record_of s job))" and ?st = "state_of s job"
  let ?t = "?tasks ! at"
  show ?case
  proof (cases "may_start ?st ?tasks running now at")
    case False
    then have "first_that_starts m now job running places s = (Inr (Some t), s')" using Cons.prems(1) by simp
    then show ?thesis using Cons.IH[OF _ Cons.prems(2,3,4)] Cons.prems(5) by simp
  next
    case True
    then have "and_do (on_claims (claim_task (so_owner s) job (jt_id ?t) now)) (\<lambda>won.
          if won then hand_out m now job ?t else first_that_starts m now job running places) s = (Inr (Some t), s')"
      using Cons.prems(1) by (simp add: Let_def)
    then obtain won ct where ct: "claim_task (so_owner s) job (jt_id ?t) now (so_claims s) = (Inr won, ct)"
      and rest: "(if won then hand_out m now job ?t else first_that_starts m now job running places)
        (s\<lparr>so_claims := ct\<rparr>) = (Inr (Some t), s')"
      by (auto simp: and_do_Inr on_claims_def split: prod.splits)
    show ?thesis
    proof (cases won)
      case False
      let ?s = "s\<lparr>so_claims := ct\<rparr>"
      have rows: "ct_rows ct = ct_rows (so_claims s)" using claim_lost ct False by simp
      then have "handed_out now ?s t s'"
        using Cons.IH[of ?s] rest False Cons.prems same_rows[OF rows] by simp
      then show ?thesis using same_rows[OF rows] by (simp add: handed_out_def live_claim_def)
    next
      case w: True
      have eff: "hand_out m now job ?t (s\<lparr>so_claims := ct\<rparr>) = (Inr (Some t), s')" using rest w by simp
      note e = hand_out_effect[OF eff, of h]
      have won': "\<not> live_claim (so_claims s) now job (jt_id ?t)"
        "claim_of ct job (jt_id ?t) = Some \<lparr>cr_job = job, cr_task = jt_id ?t, cr_owner = so_owner s,
          cr_taken = now, cr_deadline = now + task_budget\<rparr>"
        using claim_task_is(2,3)[OF ct Cons.prems(3)] w by auto
      have "passed_over (state_of s' job) ?tasks at = passed_over ?st ?tasks at"
        using e Cons.prems(2) by (intro passed_over_same) simp
      then have "at < length ?tasks \<and> \<not> jt_done ?t \<and> tf_due (state_facts ?st (jt_id ?t)) \<le> now
          \<and> \<not> passed_over (state_of s' job) ?tasks at"
        using True Cons.prems(2,5) by (auto simp: may_start_def)
      then show ?thesis using e Cons.prems(2,4) won'
        by (auto simp: handed_out_def Let_def intro!: exI[of _ at])
    qed
  qed
qed

lemma task_of_effect:
  assumes "task_of m now job s = (Inr (Some t), s')" "one_row_each (so_claims s)"
    "jb_state (state_of s job) = job_running"
  shows "handed_out now s t s'"
proof -
  obtain h where h: "so_held s job = Some h"
    using assms(3) by (cases "so_held s job") (auto simp: state_of_def no_job_state_def job_running_def)
  obtain running ct where ct: "claimed_tasks job now (so_claims s) = (Inr running, ct)"
    and rest: "first_that_starts m now job running [0..<length (w_tasks (r_work (record_of s job)))]
      (s\<lparr>so_claims := ct\<rparr>) = (Inr (Some t), s')"
    using assms(1) by (auto simp: task_of_def and_do_Inr on_claims_def look_def split: prod.splits)
  have rows: "ct_rows ct = ct_rows (so_claims s)" by (rule claimed_tasks_is(1)[OF ct assms(2)])
  have "handed_out now (s\<lparr>so_claims := ct\<rparr>) t s'"
    using first_that_starts_effect[OF rest] h assms same_rows[OF rows] by simp
  then show ?thesis using same_rows[OF rows] by (simp add: handed_out_def live_claim_def)
qed

lemma task_of_none:
  assumes "task_of m now job s = (Inr None, s')" "one_row_each (so_claims s)"
  shows "same_live now s s'"
proof -
  have scan: "same_live now s s'" if "first_that_starts m now job running places s = (Inr None, s')"
    "one_row_each (so_claims s)" for running places s
    using that
  proof (induction places arbitrary: s)
    case Nil
    then show ?case by (simp add: give_def same_live_def)
  next
    case (Cons at places)
    let ?t = "w_tasks (r_work (record_of s job)) ! at"
    show ?case
    proof (cases "may_start (state_of s job) (w_tasks (r_work (record_of s job))) running now at")
      case False
      then show ?thesis using Cons by simp
    next
      case True
      then obtain won ct where ct: "claim_task (so_owner s) job (jt_id ?t) now (so_claims s) = (Inr won, ct)"
        and rest: "(if won then hand_out m now job ?t else first_that_starts m now job running places)
          (s\<lparr>so_claims := ct\<rparr>) = (Inr None, s')"
        using Cons.prems(1) by (auto simp: and_do_Inr on_claims_def Let_def split: prod.splits)
      have "\<not> won"
        using rest by (auto simp: hand_out_def look_def and_do_Inr give_def Let_def split: if_splits)
      then have "same_live now s (s\<lparr>so_claims := ct\<rparr>)"
        using claim_lost ct Cons.prems(2) by (intro rows_live) simp_all
      moreover have "same_live now (s\<lparr>so_claims := ct\<rparr>) s'"
        using Cons.IH rest \<open>\<not> won\<close> calculation by (simp add: same_live_def)
      ultimately show ?thesis by (rule same_live_trans)
    qed
  qed
  obtain running ct where ct: "claimed_tasks job now (so_claims s) = (Inr running, ct)"
    and rest: "first_that_starts m now job running [0..<length (w_tasks (r_work (record_of s job)))]
      (s\<lparr>so_claims := ct\<rparr>) = (Inr None, s')"
    using assms(1) by (auto simp: task_of_def and_do_Inr on_claims_def look_def split: prod.splits)
  have one: "same_live now s (s\<lparr>so_claims := ct\<rparr>)"
    using claimed_tasks_is(1)[OF ct assms(2)] assms(2) by (intro rows_live) simp_all
  show ?thesis using scan[OF rest] one same_live_trans[OF one] by (simp add: same_live_def)
qed

lemma hand_out_job: "hand_out m now job t s = (Inr (Some x), s') \<Longrightarrow> tr_job x = job"
  by (auto simp: hand_out_def look_def and_do_Inr give_def Let_def)

lemma first_that_starts_job: "first_that_starts m now job running places s = (Inr (Some t), s') \<Longrightarrow> tr_job t = job"
proof (induction places arbitrary: s)
  case (Cons at places)
  then show ?case by (auto simp: and_do_Inr Let_def split: if_splits dest: hand_out_job)
qed (simp add: give_def)

lemma task_of_job: "task_of m now job s = (Inr (Some t), s') \<Longrightarrow> tr_job t = job"
  by (auto simp: task_of_def and_do_Inr look_def dest: first_that_starts_job)

lemma handed_out_live: "same_live now s s1 \<Longrightarrow> handed_out now s1 t s' \<Longrightarrow> handed_out now s t s'"
  by (simp add: same_live_def handed_out_def)

lemma next_of_jobs_effect:
  assumes "next_of_jobs m now jobs s = (Inr (Some t), s')" "one_row_each (so_claims s)"
  shows "handed_out now s t s' \<and> tr_job t \<in> set jobs"
  using assms
proof (induction jobs arbitrary: s)
  case Nil
  then show ?case by (simp add: give_def)
next
  case (Cons job jobs)
  show ?case
  proof (cases "jb_state (state_of s job) = job_running")
    case False
    then show ?thesis using Cons by simp
  next
    case True
    then obtain x s1 where s1: "tick_schedule m now job s = (Inr x, s1)"
      and rest: "(if jb_state (state_of s1 job) \<noteq> job_running then next_of_jobs m now jobs s1
          else and_do (task_of m now job) (\<lambda>found.
              case found of Some t \<Rightarrow> give (Some t) | None \<Rightarrow> next_of_jobs m now jobs) s1) = (Inr (Some t), s')"
      using Cons.prems(1) by (auto simp: and_do_Inr)
    have one: "same_live now s s1" by (rule leaves_live[OF leaves_tick s1 Cons.prems(2)])
    then have keyed: "one_row_each (so_claims s1)" by (simp add: same_live_def)
    show ?thesis
    proof (cases "jb_state (state_of s1 job) = job_running")
      case False
      then show ?thesis using Cons.IH[OF _ keyed] rest handed_out_live[OF one] by simp
    next
      case r: True
      then obtain found s2 where s2: "task_of m now job s1 = (Inr found, s2)"
        and rest2: "(case found of Some t \<Rightarrow> give (Some t) | None \<Rightarrow> next_of_jobs m now jobs) s2 = (Inr (Some t), s')"
        using rest by (auto simp: and_do_Inr)
      show ?thesis
      proof (cases found)
        case None
        have two: "same_live now s1 s2" using task_of_none s2 None keyed by simp
        then show ?thesis using Cons.IH[of s2] rest2 None handed_out_live[OF same_live_trans[OF one two]]
          by (simp add: same_live_def)
      next
        case (Some t')
        then have "task_of m now job s1 = (Inr (Some t), s')" using rest2 s2 by (simp add: give_def)
        then have "handed_out now s1 t s'" "tr_job t = job"
          using task_of_effect[OF _ keyed r] task_of_job by blast+
        then show ?thesis using handed_out_live[OF one] by simp
      qed
    qed
  qed
qed

lemma next_task_effect:
  assumes "next_task m may now s = (Inr (Some t), s')" "one_row_each (so_claims s)"
  shows "may \<and> handed_out now s t s' \<and> tr_job t \<in> set (so_order s)"
proof -
  have may: may using assms(1) by (simp add: next_task_def split: if_splits)
  let ?s = "s\<lparr>so_new := False, so_woken := False\<rparr>"
  obtain x s1 where s1: "release_tasks_past_their_budget m now ?s = (Inr x, s1)"
    and rest: "next_of_jobs m now (so_order s1) s1 = (Inr (Some t), s')"
    using assms(1) may by (auto simp: next_task_def and_do_Inr looked_for_work_def)
  have one: "same_live now ?s s1" using release_overdue_live[OF s1] assms(2) by simp
  then have "handed_out now s1 t s' \<and> tr_job t \<in> set (so_order s1)"
    using next_of_jobs_effect[OF rest] by (simp add: same_live_def)
  then have "handed_out now ?s t s' \<and> tr_job t \<in> set (so_order s)"
    using handed_out_live[OF one] one by (simp add: same_live_def)
  then show ?thesis using may by (simp add: handed_out_def)
qed

end
