(* ===== verification/Job_Reports.thy ===== *)
theory Job_Reports
  imports Job_Effects
begin

text \<open>
  What a report leaves (\<open>finish.go\<close>): the task on the list, the claim, the failures in a row, and
  where the job stands after too many of them.
\<close>

section \<open>Methods of the keeper that leave the list of tasks\<close>

abbreviation tasks_on :: "record_of_work \<Rightarrow> job_task list" where
  "tasks_on r \<equiv> w_tasks (r_work r)"

definition keeps_tasks :: "(keeper \<Rightarrow> event_log \<Rightarrow> 'a answer) \<Rightarrow> bool" where
  "keeps_tasks f \<longleftrightarrow> (\<forall>k lg a k' lg'. f k lg = (a, k', lg') \<longrightarrow> tasks_on (kp_record k') = tasks_on (kp_record k))"

lemma change_keeps_tasks:
  assumes "change_or_wait f w k lg = (a, k', lg')" "\<And>c. f (kp_record k) = Inr c \<Longrightarrow> tasks_on c = tasks_on (kp_record k)"
  shows "tasks_on (kp_record k') = tasks_on (kp_record k)"
  using change_effect[OF assms(1)] assms(2) by (auto simp: went_through_def trimmed_parts)

lemma failure_only:
  assumes "apply_update u r (no_change\<lparr>up_failure := Some f\<rparr>) = Inr c"
  shows "apply_failure u r (no_change\<lparr>up_failure := Some f\<rparr>) = Inr c"
  using assms by (auto simp: apply_update_def and_then_Inr_iff apply_name_def apply_why_def apply_done_when_def
      apply_stop_when_def apply_plan_def apply_step_done_def apply_tasks_def apply_decision_def no_change_def
      split: if_splits)

lemma keeping_tasks:
  "keeps_tasks (set_status status)" "keeps_tasks (set_progress n all due)"
  "keeps_tasks (keeper_apply u (no_change\<lparr>up_failure := Some f\<rparr>))"
  "keeps_tasks (keeper_apply u (no_change\<lparr>up_done_when := Some ls\<rparr>))"
  "keeps_tasks (add_report summary said)"
proof -
  show "keeps_tasks (set_status status)" "keeps_tasks (set_progress n all due)"
    unfolding keeps_tasks_def set_status_def set_progress_def change_and_save_def change_it_now_def
    by (auto simp: set_header_def and_then_Inr_iff split: if_splits dest!: change_keeps_tasks)
  show "keeps_tasks (keeper_apply u (no_change\<lparr>up_failure := Some f\<rparr>))"
    unfolding keeps_tasks_def keeper_apply_def change_it_now_def
    by (auto split: if_splits dest!: change_keeps_tasks goal_writes_keep(6) failure_only)
  show "keeps_tasks (keeper_apply u (no_change\<lparr>up_done_when := Some ls\<rparr>))"
    using done_list_keeps_tasks by (auto simp: keeps_tasks_def)
  show "keeps_tasks (add_report summary said)"
    unfolding keeps_tasks_def
  proof (intro allI impI)
    fix k lg a k' lg'
    assume "add_report summary said k lg = (a, k', lg')"
    then have "\<exists>call. add_result_line call summary said k lg = (a, k', lg') \<or> k' = k"
      by (auto simp: add_report_def split: if_splits)
    then obtain call where "add_result_line call summary said k lg = (a, k', lg') \<or> k' = k" by blast
    then show "tasks_on (kp_record k') = tasks_on (kp_record k)"
    proof
      assume "add_result_line call summary said k lg = (a, k', lg')"
      then show ?thesis
        by (cases rule: add_result_line_cases)
          (auto simp: change_it_now_def with_a_result_def put_defs dest!: change_keeps_tasks)
    qed simp
  qed
qed

section \<open>Acts that leave the work of a job\<close>

named_theorems keeping \<open>acts that leave the tasks of a job, their facts and its failures\<close>

definition same_work :: "string \<Rightarrow> job_store \<Rightarrow> job_store \<Rightarrow> bool" where
  "same_work job s s' \<longleftrightarrow> tasks_on (record_of s' job) = tasks_on (record_of s job)
     \<and> (so_held s' job = None \<longleftrightarrow> so_held s job = None)
     \<and> jb_tasks (state_of s' job) = jb_tasks (state_of s job)
     \<and> jb_failures (state_of s' job) = jb_failures (state_of s job)
     \<and> jb_incidents (state_of s' job) = jb_incidents (state_of s job)
     \<and> jb_schedule (state_of s' job) = jb_schedule (state_of s job)
     \<and> jb_keep_running (state_of s' job) = jb_keep_running (state_of s job)"

definition keeps_work :: "string \<Rightarrow> 'a act \<Rightarrow> bool" where
  "keeps_work job act \<longleftrightarrow> (\<forall>s a s'. act s = (a, s') \<longrightarrow> same_work job s s')"

lemma same_work_refl [simp]: "same_work job s s"
  by (simp add: same_work_def)

lemma same_work_trans: "same_work job a b \<Longrightarrow> same_work job b c \<Longrightarrow> same_work job a c"
  by (simp add: same_work_def)

lemma keepsD: "keeps_work job act \<Longrightarrow> act s = (a, s') \<Longrightarrow> same_work job s s'"
  by (simp add: keeps_work_def)

lemma keeps_give [keeping]: "keeps_work job (give x)" "keeps_work job (refuse e)"
  by (simp_all add: keeps_work_def give_def refuse_def)

lemma keeps_then [keeping]:
  assumes "keeps_work job act" "\<And>x. keeps_work job (rest x)"
  shows "keeps_work job (and_do act rest)"
  unfolding keeps_work_def
proof (intro allI impI)
  fix s a s' assume run: "and_do act rest s = (a, s')"
  then show "same_work job s s'"
  proof (cases rule: and_do_cases)
    case (stopped e)
    then show ?thesis using keepsD[OF assms(1)] by blast
  next
    case (went_on x s1)
    then show ?thesis using keepsD[OF assms(1) went_on(1)] keepsD[OF assms(2) went_on(2)] same_work_trans by blast
  qed
qed

lemma keeps_look: "(\<And>st r. keeps_work job (f st r)) \<Longrightarrow> keeps_work job (look job f)"
  by (simp add: keeps_work_def look_def)

lemma keeps_work_if [keeping]: "keeps_work job a \<Longrightarrow> keeps_work job b \<Longrightarrow> keeps_work job (if c then a else b)"
  by simp

lemma keeps_let [keeping]: "keeps_work job (f x) \<Longrightarrow> keeps_work job (Let x f)"
  by simp

lemma keeps_beside [keeping]: "keeps_work job wake" "keeps_work job (tell_the_user said)" "keeps_work job (on_claims f)"
  by (auto simp: keeps_work_def same_work_def wake_def tell_the_user_def on_claims_def Let_def state_of_def record_of_def
      split: option.splits if_splits prod.splits)

lemma keeps_tasksD: "keeps_tasks f \<Longrightarrow> f k lg = (a, k', lg') \<Longrightarrow> tasks_on (kp_record k') = tasks_on (kp_record k)"
  unfolding keeps_tasks_def by blast

lemma keeps_keeper:
  assumes "keeps_tasks f"
  shows "keeps_work job (on_keeper job f)"
  unfolding keeps_work_def
proof (intro allI impI)
  fix s a s' assume run: "on_keeper job f s = (a, s')"
  show "same_work job s s'"
  proof (cases "so_held s job")
    case None
    then show ?thesis using run by (simp add: on_keeper_def)
  next
    case (Some h)
    obtain k lg where "f (hj_keeper h) (so_log s) = (a, k, lg)" "s' = put_held job (h\<lparr>hj_keeper := k\<rparr>) (s\<lparr>so_log := lg\<rparr>)"
      using on_keeper_held[OF run Some] by blast
    then show ?thesis using keeps_tasksD[OF assms] Some by (simp add: same_work_def)
  qed
qed

lemma save_same_work:
  assumes "save_state m job st s = (a, s')" "jb_tasks st = jb_tasks (state_of s job)"
    "jb_failures st = jb_failures (state_of s job)" "jb_incidents st = jb_incidents (state_of s job)"
    "jb_schedule st = jb_schedule (state_of s job)" "jb_keep_running st = jb_keep_running (state_of s job)"
  shows "same_work job s s'"
proof (cases a)
  case (Inl e)
  have same: "so_held s' = so_held s"
    using assms(1) Inl by (auto simp: save_state_def and_do_def append_state_def refuse_def on_log_def put_state_def Let_def
        split: option.splits if_splits prod.splits sum.splits)
  then show ?thesis by (simp add: same_work_def state_of_def record_of_def)
next
  case (Inr x)
  then show ?thesis using assms by (auto elim!: save_state_effect simp: same_work_def put_held_def)
qed

lemma keeps_standing [keeping]:
  "keeps_work job (look job (\<lambda>st _. save_state m job (st\<lparr>jb_state := state\<rparr>)))"
  "keeps_work job (look job (\<lambda>st _. save_state m job (st\<lparr>jb_state := state, jb_finished := now\<rparr>)))"
  by (auto simp: keeps_work_def look_def intro!: save_same_work)

lemma keeps_stop [keeping]: "keeps_work job (stop_the_job m job state why cause)"
  unfolding stop_the_job_def say_the_job_stopped_def apply_to_job_def Let_def
  by (intro keeping keeps_keeper keeping_tasks)

lemma keeps_done_list [keeping]: "keeps_work job (the_tasks_are_the_done_list m job)"
  unfolding the_tasks_are_the_done_list_def apply_to_job_def by (intro keeps_look keeping keeps_keeper keeping_tasks)

lemma keeps_after [keeping]: "keeps_work job (after_one_task m job report failed now)"
  unfolding after_one_task_def stop_if_it_keeps_failing_def close_if_every_task_is_done_def
  by (intro keeping keeps_keeper keeping_tasks keeps_look)

lemma keeps_progress [keeping]: "keeps_work job (write_progress job)" "keeps_work job (wake_if_running job)"
  unfolding write_progress_def wake_if_running_def Let_def by (intro keeping keeps_keeper keeping_tasks keeps_look)+

lemma keeps_report [keeping]: "keeps_work job (write_report m job report failed)"
  unfolding write_report_def by (intro keeps_look keeping keeps_keeper keeping_tasks)

section \<open>A task marked done\<close>

lemma mark_effect:
  assumes "mark_job_task task report k lg = (Inr (), k', lg')"
  shows "tasks_on (kp_record k') = mark_task_done task report (tasks_on (kp_record k))"
proof -
  have "went_through (\<lambda>r. if job_task_labelled (w_tasks (r_work r)) task = None then Inl Unnamed
        else if \<not> record_holds_result r report then Inl (Breaks ErrJobTaskNeedsReport)
        else Inr (put_tasks (mark_task_done task report (w_tasks (r_work r))) r)) (kp_record k) (kp_record k')"
    using assms change_effect by (fastforce simp: mark_job_task_def change_it_now_def split: if_splits)
  then show ?thesis by (auto simp: went_through_def trimmed_parts put_tasks_def split: if_splits)
qed

lemma mark_finds:
  "job_task_labelled ts task = Some t \<Longrightarrow>
    job_task_labelled (mark_task_done task report ts) task = Some (t\<lparr>jt_done := True, jt_report := report\<rparr>)"
  by (induction task report ts rule: mark_task_done.induct) (auto simp: job_task_labelled_def split: if_splits)

lemma finished_is_refused:
  assumes "job_task_labelled (tasks_on (record_of s job)) task = Some t" "jt_done t"
  shows "\<exists>e s'. finish_task m now job task report failed s = (Inl e, s')"
  using assms by (auto simp: finish_task_def finish_task_of_def and_do_def find_job_def look_def unfinished_task_def
      refuse_def split: option.split)

lemma after_report_facts:
  "jb_tasks (state_after_report m st task facts reported report quiet failed now) =
     put_facts task (facts\<lparr>tf_finished := now\<rparr>) (jb_tasks st)"
  "jb_failures (state_after_report m st task facts reported report quiet failed now) =
     (if failed then wrap64 (jb_failures st + 1) else 0)"
  "jb_schedule (state_after_report m st task facts reported report quiet failed now) = jb_schedule st"
  "jb_keep_running (state_after_report m st task facts reported report quiet failed now) = jb_keep_running st"
  "jb_state (state_after_report m st task facts reported report quiet failed now) = jb_state st"
  by (simp_all add: state_after_report_def count_the_failure_def with_task_def Let_def
      split: option.split sum.split prod.split)

lemma unfinished_task_Inr:
  "unfinished_task st r task = Inr facts \<longleftrightarrow>
     (\<exists>t. job_task_labelled (tasks_on r) task = Some t \<and> \<not> jt_done t \<and> facts = state_facts st task)"
  by (auto simp: unfinished_task_def split: option.split)

text \<open>The stages of taking a report back.\<close>

lemma finish_task_stages:
  assumes "finish_task_of m job task report failed now s = (Inr i, s')" "so_held s job = Some h"
  obtains ct s2 quiet s4 x where
    "unfinished_task (state_of s job) (record_of s job) task = Inr (state_facts (state_of s job) task)"
    "release_task job task (so_claims s) = (Inr (), ct)"
    "write_report m job report failed (s\<lparr>so_claims := ct\<rparr>) = (Inr (i, quiet), s2)"
    "same_work job s s2" "so_claims s2 = ct"
    "tasks_on (record_of s4 job) =
       (if \<not> failed \<or> tf_unattended (state_facts (state_of s job) task) then mark_task_done task i (tasks_on (record_of s job))
        else tasks_on (record_of s job))"
    "state_of s4 job = (state_after_report m (state_of s2 job) task (state_facts (state_of s job) task) i report quiet failed now)
       \<lparr>jb_notepad := jb_notepad (state_of s2 job)\<rparr>" "so_claims s4 = ct" "so_held s4 job \<noteq> None"
    "after_one_task m job report failed now s4 = (Inr (), x)" "so_claims s' = ct"
    "same_work job s4 x" "same_work job x s'" "jb_state (state_of s' job) = jb_state (state_of x job)"
proof -
  obtain facts where facts: "unfinished_task (state_of s job) (record_of s job) task = Inr facts"
    using assms(1) by (cases "unfinished_task (state_of s job) (record_of s job) task")
      (auto simp: finish_task_of_def look_def refuse_def)
  then have f: "facts = state_facts (state_of s job) task" by (auto simp: unfinished_task_Inr)
  let ?mark = "\<lambda>reported. if \<not> failed \<or> tf_unattended facts then on_keeper job (mark_job_task task reported) else give ()"
  let ?rest = "\<lambda>reported. and_do (wake_if_running job) (\<lambda>_. and_do (write_progress job) (\<lambda>_. give reported)) :: string act"
  obtain s1 s2 reported quiet where s1: "on_claims (release_task job task) s = (Inr (), s1)"
    and s2: "write_report m job report failed s1 = (Inr (reported, quiet), s2)"
    and rest: "and_do (?mark reported) (\<lambda>_. and_do (save_state m job (state_after_report m (state_of s2 job) task facts reported report quiet failed now))
      (\<lambda>_. and_do (after_one_task m job report failed now) (\<lambda>_. ?rest reported))) s2 = (Inr i, s')"
    using assms(1) facts by (auto simp: finish_task_of_def look_def and_do_Inr[of "on_claims _"] and_do_Inr[of "write_report _ _ _ _"] Let_def)
  obtain ct where ct: "release_task job task (so_claims s) = (Inr (), ct)" "s1 = s\<lparr>so_claims := ct\<rparr>"
    using s1 by (auto simp: on_claims_def split: prod.splits)
  obtain x3 s3 where s3: "?mark reported s2 = (Inr x3, s3)"
    and rest3: "and_do (save_state m job (state_after_report m (state_of s2 job) task facts reported report quiet failed now))
      (\<lambda>_. and_do (after_one_task m job report failed now) (\<lambda>_. ?rest reported)) s3 = (Inr i, s')"
    using rest unfolding and_do_Inr[of "?mark reported"] by blast
  obtain x4 s4 where s4: "save_state m job (state_after_report m (state_of s2 job) task facts reported report quiet failed now) s3 = (Inr x4, s4)"
    and rest4: "and_do (after_one_task m job report failed now) (\<lambda>_. ?rest reported) s4 = (Inr i, s')"
    using rest3 unfolding and_do_Inr[of "save_state m job _"] by blast
  obtain x5 x where x: "after_one_task m job report failed now s4 = (Inr x5, x)" and s': "?rest reported x = (Inr i, s')"
    using rest4 unfolding and_do_Inr[of "after_one_task m job report failed now"] by blast
  have i: "reported = i" using s' by (auto simp: and_do_Inr give_def)
  have w2: "same_work job s s2" "so_claims s2 = ct"
    using keepsD[OF keeps_report(1) s2] leavesD[OF leaves_work(4) s2] ct(2)
    by (simp_all add: same_work_def state_of_def record_of_def)
  then obtain h2 where h2: "so_held s2 job = Some h2" using assms(2) by (auto simp: same_work_def)
  have marked: "state_of s3 job = state_of s2 job \<and> so_claims s3 = ct \<and> so_held s3 job \<noteq> None \<and> tasks_on (record_of s3 job) =
      (if \<not> failed \<or> tf_unattended facts then mark_task_done task i (tasks_on (record_of s job)) else tasks_on (record_of s job))"
  proof (cases "\<not> failed \<or> tf_unattended facts")
    case True
    then have "on_keeper job (mark_job_task task reported) s2 = (Inr (), s3)" using s3 by simp
    then obtain k lg where "mark_job_task task reported (hj_keeper h2) (so_log s2) = (Inr (), k, lg)"
      "s3 = put_held job (h2\<lparr>hj_keeper := k\<rparr>) (s2\<lparr>so_log := lg\<rparr>)" using on_keeper_held[OF _ h2] by blast
    then show ?thesis using mark_effect True i w2 h2 by (auto simp: same_work_def)
  next
    case False
    then show ?thesis using s3 w2 h2 by (simp add: give_def same_work_def)
  qed
  obtain h3 lg where h3: "so_held s3 job = Some h3" "s4 = put_held job (h3\<lparr>hj_state := (state_after_report m (state_of s2 job) task facts
      reported report quiet failed now)\<lparr>jb_notepad := jb_notepad (hj_state h3)\<rparr>\<rparr>) (s3\<lparr>so_log := lg\<rparr>)"
    using save_state_effect[OF s4] by blast
  have ends: "leaves_claims (?rest reported)" "keeps_work job (?rest reported)" by (intro leaving keeping)+
  have "same_work job s4 x" "so_claims x = so_claims s4"
    using keepsD[OF keeps_after x] leavesD[OF leaves_after x] by simp_all
  moreover have "same_work job x s'" "so_claims s' = so_claims x"
    using ends s' unfolding keeps_work_def leaves_claims_def by blast+
  ultimately have last: "same_work job s4 x" "same_work job x s'" "so_claims s' = ct" using h3 marked by simp_all
  have "state_of s' job = state_of x job"
    using s' by (auto simp: and_do_Inr give_def wake_if_running_def look_def wake_def write_progress_def Let_def
        on_keeper_def state_of_def split: if_splits option.splits prod.splits)
  then have standing: "jb_state (state_of s' job) = jb_state (state_of x job)" by simp
  have x': "after_one_task m job report failed now s4 = (Inr (), x)" using x by simp
  have s3_held: "state_of s3 job = hj_state h3" "record_of s3 job = kp_record (hj_keeper h3)" using h3(1) by simp_all
  have s4_held: "state_of s4 job = (state_after_report m (state_of s2 job) task facts reported report quiet failed now)
      \<lparr>jb_notepad := jb_notepad (hj_state h3)\<rparr>" "record_of s4 job = kp_record (hj_keeper h3)"
    "so_claims s4 = so_claims s3" "so_held s4 job \<noteq> None" using h3(2) by simp_all
  have t4: "tasks_on (record_of s4 job) =
       (if \<not> failed \<or> tf_unattended (state_facts (state_of s job) task) then mark_task_done task i (tasks_on (record_of s job))
        else tasks_on (record_of s job))" using s4_held(2) s3_held(2) marked f by simp
  have st4: "state_of s4 job = (state_after_report m (state_of s2 job) task (state_facts (state_of s job) task) i report quiet failed now)
       \<lparr>jb_notepad := jb_notepad (state_of s2 job)\<rparr>" using s4_held(1) s3_held(1) marked f i by simp
  have c4: "so_claims s4 = ct" using s4_held(3) marked by simp
  show ?thesis
    by (rule that[OF facts[unfolded f] ct(1) s2[unfolded ct(2) i] w2 t4 st4 c4 s4_held(4) x' last(3,1,2) standing])
qed

lemma finish_task_effect:
  assumes "finish_task m now job task report failed s = (Inr i, s')" "one_row_each (so_claims s)"
  shows "(\<exists>t. job_task_labelled (tasks_on (record_of s job)) task = Some t \<and> \<not> jt_done t)
    \<and> tasks_on (record_of s' job) =
        (if \<not> failed \<or> tf_unattended (state_facts (state_of s job) task) then mark_task_done task i (tasks_on (record_of s job))
         else tasks_on (record_of s job))
    \<and> tf_finished (state_facts (state_of s' job) task) = now
    \<and> jb_failures (state_of s' job) = (if failed then wrap64 (jb_failures (state_of s job) + 1) else 0)
    \<and> claim_of (so_claims s') job task = None"
proof -
  obtain h where h: "so_held s job = Some h" and run: "finish_task_of m job task report failed now s = (Inr i, s')"
    using assms(1) by (auto simp: finish_task_def and_do_Inr find_job_def split: option.splits)
  show ?thesis
  proof (rule finish_task_stages[OF run h])
  fix ct s2 quiet s4 x
  assume st:
    "unfinished_task (state_of s job) (record_of s job) task = Inr (state_facts (state_of s job) task)"
    "release_task job task (so_claims s) = (Inr (), ct)" "same_work job s s2"
    "tasks_on (record_of s4 job) =
       (if \<not> failed \<or> tf_unattended (state_facts (state_of s job) task) then mark_task_done task i (tasks_on (record_of s job))
        else tasks_on (record_of s job))"
    "state_of s4 job = (state_after_report m (state_of s2 job) task (state_facts (state_of s job) task) i report quiet failed now)
       \<lparr>jb_notepad := jb_notepad (state_of s2 job)\<rparr>" "so_claims s' = ct" and steps: "same_work job s4 x" "same_work job x s'"
  have whole: "same_work job s4 s'" by (rule same_work_trans[OF steps])
  have facts: "jb_tasks (state_of s' job) = put_facts task ((state_facts (state_of s job) task)\<lparr>tf_finished := now\<rparr>)
      (jb_tasks (state_of s2 job))"
    "jb_failures (state_of s' job) = (if failed then wrap64 (jb_failures (state_of s2 job) + 1) else 0)"
    using st(5) whole by (simp_all add: same_work_def after_report_facts)
  have "claim_of ct job task = None" using release_task_is(2)[OF st(2) assms(2), of job task] by simp
  moreover have "tf_finished (state_facts (state_of s' job) task) = now"
    unfolding state_facts_def facts(1) by simp
  moreover have "\<exists>t. job_task_labelled (tasks_on (record_of s job)) task = Some t \<and> \<not> jt_done t"
    using st(1) by (auto simp: unfinished_task_Inr)
  moreover have "jb_failures (state_of s2 job) = jb_failures (state_of s job)" using st(3) by (simp add: same_work_def)
  moreover have "tasks_on (record_of s' job) = tasks_on (record_of s4 job)" using whole by (simp add: same_work_def)
  ultimately show ?thesis using st(4,6) facts(2) by simp
  qed
qed

section \<open>Stopping a job that keeps failing\<close>

lemma refused_change: "f (kp_record k) = Inl e \<Longrightarrow> change_or_wait f w k lg = (Inl e, k, lg)"
  by (simp add: change_or_wait_def)

definition says_it_already :: "unicode_tables \<Rightarrow> string \<Rightarrow> record_of_work \<Rightarrow> bool" where
  "says_it_already u why r \<longleftrightarrow>
     list_ex (\<lambda>f. says_the_same u (cut_to_a_lesson (safe_line why)) (fa_text f)) (l_failures (r_lessons r))"

lemma said_failure_refused:
  assumes "says_it_already u why r"
  shows "\<exists>e. apply_update u r (no_change\<lparr>up_failure := Some \<lparr>nf_text = safe_line why, nf_cause = cause\<rparr>\<rparr>) = Inl e"
proof (cases "apply_update u r (no_change\<lparr>up_failure := Some \<lparr>nf_text = safe_line why, nf_cause = cause\<rparr>\<rparr>)")
  case (Inr c)
  then have "apply_failure u r (no_change\<lparr>up_failure := Some \<lparr>nf_text = safe_line why, nf_cause = cause\<rparr>\<rparr>) = Inr c"
    by (rule failure_only)
  then show ?thesis using assms by (simp add: apply_failure_def says_it_already_def Let_def split: if_splits)
qed simp

lemma stop_is_refused:
  assumes "says_it_already (jm_unicode m) why (record_of s job)" "so_held s job = Some h"
  shows "\<exists>e. stop_the_job m job state why cause s = (Inl e, s)"
proof -
  obtain e where e: "apply_update (jm_unicode m) (kp_record (hj_keeper h)) (no_change\<lparr>up_failure :=
      Some \<lparr>nf_text = safe_line why, nf_cause = (if cause = [] then ''no cause was given'' else cause)\<rparr>\<rparr>) = Inl e"
    using said_failure_refused assms by fastforce
  have "\<exists>e'. keeper_apply (jm_unicode m) (no_change\<lparr>up_failure := Some \<lparr>nf_text = safe_line why,
      nf_cause = (if cause = [] then ''no cause was given'' else cause)\<rparr>\<rparr>) (hj_keeper h) (so_log s) = (Inl e', hj_keeper h, so_log s)"
    using refused_change[of "\<lambda>r. apply_update (jm_unicode m) r _", OF e] by (simp add: keeper_apply_def change_it_now_def nothing_to_write_def no_change_def)
  then obtain e' where "apply_to_job m job (no_change\<lparr>up_failure := Some \<lparr>nf_text = safe_line why,
      nf_cause = (if cause = [] then ''no cause was given'' else cause)\<rparr>\<rparr>) s = (Inl e', s)"
    using assms(2) put_held_same[OF assms(2)] by (auto simp: apply_to_job_def on_keeper_def)
  then show ?thesis by (simp add: stop_the_job_def Let_def and_do_def)
qed

lemma stop_effect:
  assumes "stop_the_job m job state why cause s = (Inr x, s')"
  shows "jb_state (state_of s' job) = state \<and> \<not> says_it_already (jm_unicode m) why (record_of s job)"
proof
  obtain s1 s2 s3 x3 where "save_state m job ((state_of s2 job)\<lparr>jb_state := state\<rparr>) s2 = (Inr x3, s3)"
    and tell: "say_the_job_stopped job why (if cause = [] then ''no cause was given'' else cause) s3 = (Inr x, s')"
    and one: "apply_to_job m job (no_change\<lparr>up_failure := Some \<lparr>nf_text = safe_line why,
      nf_cause = (if cause = [] then ''no cause was given'' else cause)\<rparr>\<rparr>) s = (Inr (), s1)"
    using assms by (auto simp: stop_the_job_def Let_def and_do_Inr look_def)
  then have "jb_state (state_of s3 job) = state" by (elim save_state_effect) simp
  then show "jb_state (state_of s' job) = state"
    using tell by (auto simp: say_the_job_stopped_def tell_the_user_def Let_def state_of_def split: option.splits if_splits)
  show "\<not> says_it_already (jm_unicode m) why (record_of s job)"
  proof
    assume said: "says_it_already (jm_unicode m) why (record_of s job)"
    obtain h where "so_held s job = Some h" using one by (auto simp: apply_to_job_def on_keeper_def split: option.splits)
    then obtain e where "stop_the_job m job state why cause s = (Inl e, s)" using stop_is_refused[OF said] by blast
    then show False using assms by simp
  qed
qed

definition standing_after_failure :: "job_state \<Rightarrow> job_standing" where
  "standing_after_failure st =
     (let failures = wrap64 (jb_failures st + 1) in
      if jb_keep_running st then jb_state st
      else if jb_schedule st \<noteq> None then (if failures < failures_that_switch_off then jb_state st else job_off)
      else (if failures < failures_that_pause then jb_state st else job_paused))"

lemma failed_task_standing:
  assumes "finish_task m now job task report True s = (Inr i, s')"
  shows "jb_state (state_of s' job) = standing_after_failure (state_of s job)"
proof -
  obtain h where h: "so_held s job = Some h" and run: "finish_task_of m job task report True now s = (Inr i, s')"
    using assms(1) by (auto simp: finish_task_def and_do_Inr find_job_def split: option.splits)
  show ?thesis
  proof (rule finish_task_stages[OF run h])
  fix ct s2 quiet s4 x
  assume st:
    "write_report m job report True (s\<lparr>so_claims := ct\<rparr>) = (Inr (i, quiet), s2)" "same_work job s s2"
    "state_of s4 job = (state_after_report m (state_of s2 job) task (state_facts (state_of s job) task) i report quiet True now)
       \<lparr>jb_notepad := jb_notepad (state_of s2 job)\<rparr>"
    "after_one_task m job report True now s4 = (Inr (), x)" "jb_state (state_of s' job) = jb_state (state_of x job)"
  have "state_of s2 job = state_of s job"
    using st(1) by (auto simp: write_report_def look_def give_def and_do_Inr on_keeper_def state_of_def
        split: if_splits option.splits prod.splits)
  then have s4: "jb_state (state_of s4 job) = jb_state (state_of s job)"
    "jb_failures (state_of s4 job) = wrap64 (jb_failures (state_of s job) + 1)"
    "jb_schedule (state_of s4 job) = jb_schedule (state_of s job)"
    "jb_keep_running (state_of s4 job) = jb_keep_running (state_of s job)"
    using st(3) by (simp_all add: after_report_facts)
  have "stop_if_it_keeps_failing m job report s4 = (Inr (), x)" using st(4) by (simp add: after_one_task_def)
  then have "jb_state (state_of x job) = standing_after_failure (state_of s job)"
    using s4 by (auto simp: stop_if_it_keeps_failing_def look_def give_def standing_after_failure_def Let_def
        split: if_splits dest: stop_effect)
  then show ?thesis using st(5) by simp
  qed
qed

end
