(* ===== verification/Job_Ticks.thy ===== *)
theory Job_Ticks
  imports Job_Reports
begin

text \<open>
  How a task comes on the list of a job and off it: what adding one and a tick make, that a list is never
  stuck on its own order, that the first task that may start is handed out, and how long a wait for work
  sleeps.
\<close>

section \<open>A list written anew\<close>

lemma written_parts:
  "written_tasks old h ts = Inr ws \<Longrightarrow>
    map jt_id ws = map nt_id ts \<and> map jt_text ws = map nt_text ts \<and> map jt_due ws = map nt_due ts"
proof (induction old h ts arbitrary: ws rule: written_tasks.induct)
  case (2 old h t ts)
  then show ?case by (auto simp: and_then_Inr_iff Let_def split: option.splits if_splits)
qed simp

lemma written_numbers:
  "written_tasks old h ts = Inr ws \<Longrightarrow> t \<in> set ts \<Longrightarrow> \<exists>n > h. parse_task_id (nt_id t) = Some n"
proof (induction old h ts arbitrary: ws rule: written_tasks.induct)
  case (2 old h x ts)
  from 2(2) obtain k rest where k: "parse_task_id (nt_id x) = Some k" "h < k" "nt_text x \<noteq> []"
    and rest: "written_tasks old k ts = Inr rest"
    by (auto simp: and_then_Inr_iff Let_def split: option.splits if_splits)
  show ?case
  proof (cases "t = x")
    case False
    then have "\<exists>n > k. parse_task_id (nt_id t) = Some n" using 2(1)[OF k(1,3) _ refl refl rest] 2(3) k(2) by auto
    then show ?thesis using k(2) by auto
  qed (use k in simp)
qed simp

lemma last_label_new:
  "written_tasks old h (ts @ [x]) = Inr ws \<Longrightarrow> t \<in> set ts \<Longrightarrow> nt_id t \<noteq> nt_id x"
proof (induction ts arbitrary: h ws)
  case (Cons y ts)
  from Cons.prems(1) obtain k rest where k: "parse_task_id (nt_id y) = Some k"
    "written_tasks old k (ts @ [x]) = Inr rest"
    by (auto simp: and_then_Inr_iff Let_def split: option.splits if_splits)
  show ?case
  proof (cases "t = y")
    case True
    then show ?thesis using written_numbers[OF k(2), of x] k(1) by auto
  next
    case False
    then show ?thesis using Cons.IH[OF k(2)] Cons.prems(2) by simp
  qed
qed simp

lemma last_written:
  "written_tasks old h (ts @ [x]) = Inr ws \<Longrightarrow> job_task_labelled old (nt_id x) = None \<Longrightarrow>
    last ws = \<lparr>jt_id = nt_id x, jt_text = nt_text x, jt_done = False, jt_report = [], jt_due = nt_due x\<rparr> \<and> ws \<noteq> []"
proof (induction ts arbitrary: h ws)
  case Nil
  then show ?case by (auto simp: and_then_Inr_iff Let_def split: option.splits if_splits)
next
  case (Cons y ts)
  from Cons.prems(1) obtain k e rest where "written_tasks old k (ts @ [x]) = Inr rest" "ws = e # rest"
    by (auto simp: and_then_Inr_iff Let_def split: option.splits if_splits)
  then show ?case using Cons.IH[of k rest] Cons.prems(2) by simp
qed

lemma tasks_only:
  assumes "apply_update u r (no_change\<lparr>up_tasks := Some ts\<rparr>) = Inr c"
  shows "\<exists>ws. written_tasks (tasks_on r) 0 ts = Inr ws \<and> tasks_on c = ws"
  using assms by (auto simp: apply_update_def and_then_Inr_iff apply_defs no_change_def put_tasks_def split: if_splits)

lemma tasks_written:
  assumes "on_keeper job (keeper_apply u (no_change\<lparr>up_tasks := Some ts\<rparr>)) s = (Inr x, s')"
  shows "written_tasks (tasks_on (record_of s job)) 0 ts = Inr (tasks_on (record_of s' job))
    \<and> state_of s' = state_of s \<and> so_held s' job \<noteq> None"
proof -
  obtain h where h: "so_held s job = Some h" using assms by (auto simp: on_keeper_def split: option.splits)
  obtain k lg where k: "keeper_apply u (no_change\<lparr>up_tasks := Some ts\<rparr>) (hj_keeper h) (so_log s) = (Inr x, k, lg)"
    "s' = put_held job (h\<lparr>hj_keeper := k\<rparr>) (s\<lparr>so_log := lg\<rparr>)" using on_keeper_held[OF assms h] by blast
  have "went_through (\<lambda>r. apply_update u r (no_change\<lparr>up_tasks := Some ts\<rparr>)) (kp_record (hj_keeper h)) (kp_record k)"
    using k(1) change_effect by (fastforce simp: keeper_apply_def nothing_to_write_def no_change_def change_it_now_def)
  then have "written_tasks (tasks_on (kp_record (hj_keeper h))) 0 ts = Inr (tasks_on (kp_record k))"
    by (auto simp: went_through_def trimmed_parts dest!: tasks_only)
  then show ?thesis using k(2) h by (auto simp: state_of_def fun_eq_iff)
qed

section \<open>One task more\<close>

definition one_more_task :: "string \<Rightarrow> string \<Rightarrow> string \<Rightarrow> moment \<Rightarrow> bool \<Rightarrow> job_store \<Rightarrow> job_store \<Rightarrow> bool" where
  "one_more_task job task said due unattended s s' \<longleftrightarrow>
     (let old = tasks_on (record_of s job); new = tasks_on (record_of s' job) in
      map jt_id new = map jt_id old @ [task] \<and> map jt_text new = map jt_text old @ [said]
      \<and> task \<notin> jt_id ` set old \<and> \<not> jt_done (last new)
      \<and> state_facts (state_of s' job) task = no_facts\<lparr>tf_due := due, tf_unattended := unattended\<rparr>
      \<and> length old < max_tasks_per_job)"

lemma add_task_effect:
  assumes "add_task_to m job said due unattended s = (Inr task, s')"
  shows "one_more_task job task said due unattended s s'
    \<and> jb_next_run (state_of s' job) = jb_next_run (state_of s job)
    \<and> jb_state (state_of s' job) = jb_state (state_of s job) \<and> so_new s' \<and> so_woken s'"
proof -
  let ?old = "tasks_on (record_of s job)"
  let ?task = "task_id (wrap64 (highest_task_number 0 ?old + 1))"
  let ?new = "\<lparr>nt_id = ?task, nt_text = said, nt_due = due_in_plain_words m due\<rparr>"
  have room: "length ?old < max_tasks_per_job" using assms by (auto simp: add_task_to_def look_def Let_def refuse_def split: if_splits)
  obtain x1 s1 x2 s2 x3 s3 where
    s1: "on_keeper job (keeper_apply (jm_unicode m) (no_change\<lparr>up_tasks := Some (map as_written ?old @ [?new])\<rparr>)) s = (Inr x1, s1)"
    and s2: "save_state m job (with_task ?task (no_facts\<lparr>tf_due := due, tf_unattended := unattended\<rparr>) (state_of s1 job)) s1 = (Inr x2, s2)"
    and s3: "write_progress job s2 = (Inr x3, s3)" and s': "s' = s3\<lparr>so_new := True, so_woken := True\<rparr>" and task: "task = ?task"
    using assms room by (auto simp: add_task_to_def look_def Let_def apply_to_job_def and_do_Inr wake_def give_def)
  note w = tasks_written[OF s1]
  have written: "written_tasks ?old 0 (map as_written ?old @ [?new]) = Inr (tasks_on (record_of s1 job))" using w by simp
  have "?task \<noteq> jt_id t" if "t \<in> set ?old" for t
    using last_label_new[OF written, of "as_written t"] that by (auto simp: as_written_def)
  then have fresh: "?task \<notin> jt_id ` set ?old" by auto
  then have "job_task_labelled ?old ?task = None" unfolding job_task_labelled_def find_None_iff by force
  then have last: "\<not> jt_done (last (tasks_on (record_of s1 job)))" using last_written[OF written] by simp
  have lists: "map jt_id (tasks_on (record_of s1 job)) = map jt_id ?old @ [?task]"
    "map jt_text (tasks_on (record_of s1 job)) = map jt_text ?old @ [said]"
    using written_parts[OF written] by (simp_all add: as_written_def comp_def)
  obtain h lg where h: "so_held s1 job = Some h"
    "s2 = put_held job (h\<lparr>hj_state := (with_task ?task (no_facts\<lparr>tf_due := due, tf_unattended := unattended\<rparr>) (state_of s1 job))
       \<lparr>jb_notepad := jb_notepad (hj_state h)\<rparr>\<rparr>) (s1\<lparr>so_log := lg\<rparr>)"
    using save_state_effect[OF s2] by blast
  have tasks: "tasks_on (record_of s3 job) = tasks_on (record_of s1 job)"
    using keepsD[OF keeps_progress(1) s3] h by (simp add: same_work_def)
  have state: "state_of s3 job = state_of s2 job"
    using s3 by (auto simp: write_progress_def look_def Let_def on_keeper_def state_of_def split: option.splits prod.splits)
  have beside: "state_of s' = state_of s3" "record_of s' = record_of s3"
    by (simp_all add: s' fun_eq_iff state_of_def record_of_def)
  show ?thesis
    using lists last fresh room tasks state h(2) w
    by (simp add: one_more_task_def Let_def task beside) (simp add: s')
qed

lemma refused_save_beside: "save_state m job st s = (Inl e, s') \<Longrightarrow> so_held s' = so_held s"
  by (auto simp: save_state_def and_do_def append_state_def refuse_def on_log_def put_state_def Let_def
      split: option.splits if_splits prod.splits sum.splits)

lemma refused_apply_beside:
  assumes "on_keeper job (keeper_apply u up) s = (Inl e, s')"
  shows "record_of s' job = record_of s job"
proof (cases "so_held s job")
  case None
  then show ?thesis using assms by (simp add: on_keeper_def)
next
  case (Some h)
  obtain k lg where k: "keeper_apply u up (hj_keeper h) (so_log s) = (Inl e, k, lg)"
    "s' = put_held job (h\<lparr>hj_keeper := k\<rparr>) (s\<lparr>so_log := lg\<rparr>)" using on_keeper_held[OF assms Some] by blast
  have "kp_record k = kp_record (hj_keeper h)"
    using k(1) change_effect by (fastforce simp: keeper_apply_def change_it_now_def split: if_splits)
  then show ?thesis using k(2) Some by simp
qed

lemma add_refused_length:
  assumes "add_task_to m job said due unattended s = (Inl e, s')"
  shows "length (tasks_on (record_of s' job)) \<le> length (tasks_on (record_of s job)) + 1"
proof (cases "max_tasks_per_job \<le> length (tasks_on (record_of s job))")
  case True
  then show ?thesis using assms by (simp add: add_task_to_def look_def Let_def refuse_def)
next
  case False
  let ?old = "tasks_on (record_of s job)"
  let ?task = "task_id (wrap64 (highest_task_number 0 ?old + 1))"
  let ?up = "no_change\<lparr>up_tasks := Some (map as_written ?old @ [\<lparr>nt_id = ?task, nt_text = said, nt_due = due_in_plain_words m due\<rparr>])\<rparr>"
  let ?save = "look job (\<lambda>st _. save_state m job (with_task ?task (no_facts\<lparr>tf_due := due, tf_unattended := unattended\<rparr>) st))"
  let ?rest = "and_do (write_progress job) (\<lambda>_. and_do wake (\<lambda>_. give ?task))"
  have "and_do (on_keeper job (keeper_apply (jm_unicode m) ?up)) (\<lambda>_. and_do ?save (\<lambda>_. ?rest)) s = (Inl e, s')"
    using assms False by (simp add: add_task_to_def look_def Let_def apply_to_job_def)
  then show ?thesis
  proof (cases rule: and_do_cases)
    case (stopped e')
    then show ?thesis using refused_apply_beside by simp
  next
    case (went_on x s1)
    note w = tasks_written[OF went_on(1)]
    then have len: "length (tasks_on (record_of s1 job)) = length ?old + 1"
      using written_parts by (metis length_map length_append_singleton Suc_eq_plus1)
    from went_on(2) show ?thesis
    proof (cases rule: and_do_cases)
      case (stopped e')
      then have "so_held s' = so_held s1" by (auto simp: look_def intro: refused_save_beside)
      then show ?thesis using len by (simp add: record_of_def)
    next
      case two: (went_on y s2)
      have "keeps_work job ?rest" by (intro keeping)
      then have "same_work job s2 s'" using two(2) by (rule keepsD)
      moreover have "record_of s2 job = record_of s1 job" using two(1) by (auto simp: look_def elim!: save_state_effect)
      ultimately show ?thesis using len by (simp add: same_work_def)
    qed
  qed
qed

section \<open>A tick\<close>

lemma tick_effect:
  assumes "tick_schedule m now job s = (Inr x, s')" "jb_schedule (state_of s job) = Some sc"
    "jb_next_run (state_of s job) \<noteq> 0" "jb_next_run (state_of s job) \<le> now"
    "length (tasks_on (record_of s job)) + 1 < max_tasks_per_job"
  shows "\<exists>following task. next_run m sc now = Inr following
    \<and> one_more_task job task (jb_template (state_of s job)) (jb_next_run (state_of s job)) True s s'
    \<and> jb_next_run (state_of s' job) = following \<and> jb_state (state_of s' job) = jb_state (state_of s job)"
proof -
  let ?st = "state_of s job"
  obtain following where f: "next_run m sc now = Inr following"
    using assms by (cases "next_run m sc now") (auto simp: tick_schedule_def look_def refuse_def)
  obtain y s1 where s1: "save_state m job (?st\<lparr>jb_next_run := following\<rparr>) s = (Inr y, s1)"
    and rest: "(case add_task_to m job (jb_template (state_of s1 job)) (jb_next_run ?st) True s1 of
                     (Inr _, s') \<Rightarrow> (Inr (), s')
                   | (Inl e, s') \<Rightarrow>
                       if length (w_tasks (r_work (record_of s' job))) < max_tasks_per_job then (Inl e, s')
                       else stop_the_job m job job_off
                              (''job '' @ job @ '' was switched off because its list has reached the ''
                                @ itoa (int max_tasks_per_job) @ '' tasks one job holds'')
                              ''a schedule that has ticked this many times has filled the job's list'' s') = (Inr x, s')"
    using assms f by (auto simp: tick_schedule_def look_def and_do_Inr)
  obtain h lg where h: "so_held s job = Some h"
    "s1 = put_held job (h\<lparr>hj_state := (?st\<lparr>jb_next_run := following\<rparr>)\<lparr>jb_notepad := jb_notepad (hj_state h)\<rparr>\<rparr>) (s\<lparr>so_log := lg\<rparr>)"
    using save_state_effect[OF s1] by blast
  have same: "record_of s1 job = record_of s job" "jb_template (state_of s1 job) = jb_template ?st"
    "jb_next_run (state_of s1 job) = following" "jb_state (state_of s1 job) = jb_state ?st"
    using h by simp_all
  obtain b s2 where add: "add_task_to m job (jb_template ?st) (jb_next_run ?st) True s1 = (b, s2)" by fastforce
  show ?thesis
  proof (cases b)
    case (Inl e)
    have "length (tasks_on (record_of s2 job)) < max_tasks_per_job"
      using add_refused_length[of m job] add Inl same(1) assms(5) by fastforce
    then show ?thesis using rest add Inl same(2) by simp
  next
    case (Inr task)
    have "s' = s2" using rest add Inr same(2) by simp
    then show ?thesis using add_task_effect[of m job _ _ True s1 task s2] add Inr same f
      by (auto simp: one_more_task_def Let_def)
  qed
qed

end
