(* ===== verification/Job_Progress.thy ===== *)
theory Job_Progress
  imports Job_Ticks
begin

text \<open>
  That work goes on: a list is never stuck on its own order, a task that may start is handed out, a wait
  for work ends in time for it, and what was put down is found again.
\<close>

section \<open>No list is stuck\<close>

lemma some_task_is_free:
  assumes "unfinished tasks \<noteq> []"
  shows "\<exists>at < length tasks. \<not> jt_done (tasks ! at) \<and> \<not> passed_over st tasks at"
proof -
  let ?n = "length tasks" and ?aside = "\<lambda>i. tf_deferred (state_facts st (jt_id (tasks ! i)))"
  let ?open = "\<lambda>i. i < ?n \<and> \<not> jt_done (tasks ! i)"
  obtain k where k: "?open k" using assms by (auto simp: unfinished_def filter_empty_conv in_set_conv_nth)
  consider (plain) i where "?open i" "i \<noteq> ?n - 1" "\<not> ?aside i"
    | (aside) i where "?open i" "i \<noteq> ?n - 1" "\<forall>j. ?open j \<longrightarrow> j \<noteq> ?n - 1 \<longrightarrow> ?aside j"
    | (last) "\<forall>j. ?open j \<longrightarrow> j = ?n - 1" by blast
  then show ?thesis
  proof cases
    case plain
    then show ?thesis by (intro exI[of _ i]) (auto simp: passed_over_def Let_def list_ex_iff)
  next
    case aside
    then show ?thesis by (intro exI[of _ i]) (auto simp: passed_over_def Let_def list_ex_iff)
  next
    case last
    have "k = ?n - 1" using last k by blast
    then have "\<not> passed_over st tasks k"
      using last unfolding passed_over_def Let_def list_ex_iff by force
    then show ?thesis using k by blast
  qed
qed

section \<open>A task that may start is handed out\<close>

text \<open>The log takes another event, and the table answers.\<close>

definition takes_more :: "job_store \<Rightarrow> bool" where
  "takes_more s \<longleftrightarrow> lg_answers (so_log s) = [] \<and> lg_next (so_log s) \<le> max_int \<and> ct_answers (so_claims s) = []"

lemma put_facts_set: "set (put_facts t f fs) \<subseteq> insert (t, f) (set fs)"
  by (induction t f fs rule: put_facts.induct) auto

lemma started_can_be_written:
  assumes "can_be_written m (snapshot_event st)" "jm_moment_written m now"
  shows "can_be_written m (snapshot_event ((with_task t ((state_facts st t)\<lparr>tf_started := now\<rparr>) st)\<lparr>jb_notepad := n\<rparr>))"
proof -
  let ?ok = "\<lambda>x. x = 0 \<or> jm_moment_written m x" and ?f = "state_facts st t"
  have ok: "\<forall>x \<in> set (state_moments st). ?ok x"
    using assms(1) by (simp add: can_be_written_def snapshot_event_def list_all_iff)
  then have listed: "\<forall>(i, f) \<in> set (jb_tasks st). \<forall>x \<in> set (facts_moments f). ?ok x"
    by (fastforce simp: state_moments_def)
  have "?f = no_facts \<or> (t, ?f) \<in> set (jb_tasks st)"
    by (auto simp: state_facts_def split: option.split dest: map_of_SomeD)
  then have "\<forall>x \<in> set (facts_moments ?f). ?ok x" using listed by (auto simp: facts_moments_def no_facts_def)
  then have new: "\<forall>x \<in> set (facts_moments (?f\<lparr>tf_started := now\<rparr>)). ?ok x"
    using assms(2) by (simp add: facts_moments_def)
  have "\<forall>(i, f) \<in> set (put_facts t (?f\<lparr>tf_started := now\<rparr>) (jb_tasks st)). \<forall>x \<in> set (facts_moments f). ?ok x"
    using put_facts_set[of t "?f\<lparr>tf_started := now\<rparr>" "jb_tasks st"] listed new by fastforce
  then show ?thesis using ok
    by (auto simp: can_be_written_def snapshot_event_def list_all_iff state_moments_def with_task_def)
qed

lemma save_goes_through:
  assumes "so_held s job = Some h" "can_be_written m (snapshot_event (st\<lparr>jb_notepad := jb_notepad (hj_state h)\<rparr>))"
    "takes_more s"
  shows "\<exists>s'. save_state m job st s = (Inr (), s')"
proof -
  let ?e = "state_event_of job (snapshot_event (st\<lparr>jb_notepad := jb_notepad (hj_state h)\<rparr>))"
  have "known_event_kind (ev_kind ?e)" "b_is_json (ev_body ?e)"
    by (simp_all add: new_event_def known_event_kind_def state_body_def)
  then obtain n lg where "log_append (so_log s) ?e = (Inr n, lg)"
    using assms(3) append_answers[of "so_log s" ?e] by (auto simp: takes_more_def answers_now_def)
  then show ?thesis using assms(1,2)
    by (simp add: save_state_def Let_def and_do_def append_state_def on_log_def put_state_def)
qed

lemma hand_out_goes_through:
  assumes "so_held s job = Some h" "can_be_written m (snapshot_event (hj_state h))" "jm_moment_written m now" "takes_more s"
  shows "\<exists>x s'. hand_out m now job t s = (Inr (Some x), s')"
proof (cases "tf_started (state_facts (hj_state h) (jt_id t)) = 0")
  case True
  obtain s' where "save_state m job (with_task (jt_id t) ((state_facts (hj_state h) (jt_id t))\<lparr>tf_started := now\<rparr>) (hj_state h)) s = (Inr (), s')"
    using save_goes_through[OF assms(1) started_can_be_written[OF assms(2,3)] assms(4)] by blast
  then show ?thesis using assms(1) True by (simp add: hand_out_def look_def Let_def and_do_def give_def)
qed (use assms(1) in \<open>simp add: hand_out_def look_def Let_def and_do_def give_def\<close>)

lemma first_that_starts_finds:
  assumes "so_held s job = Some h" "can_be_written m (snapshot_event (hj_state h))" "jm_moment_written m now"
    "takes_more s" "ct_rows (so_claims s) = []"
    "\<exists>at \<in> set places. may_start (hj_state h) (tasks_on (kp_record (hj_keeper h))) running now at"
  shows "\<exists>x s'. first_that_starts m now job running places s = (Inr (Some x), s')"
  using assms(6)
proof (induction places)
  case (Cons at places)
  let ?tasks = "tasks_on (kp_record (hj_keeper h))"
  show ?case
  proof (cases "may_start (hj_state h) ?tasks running now at")
    case False
    then show ?thesis using Cons assms(1) by simp
  next
    case True
    have "table_answers (so_claims s)" using assms(4) by (simp add: table_answers_def takes_more_def)
    then obtain ct where ct: "claim_task (so_owner s) job (jt_id (?tasks ! at)) now (so_claims s) = (Inr True, ct)" "ct_answers ct = []"
      using assms(4,5) by (auto simp: claim_task_def statement_def Let_def one_statement_later_def takes_more_def)
    have "\<exists>x s'. hand_out m now job (?tasks ! at) (s\<lparr>so_claims := ct\<rparr>) = (Inr (Some x), s')"
      using assms(1-4) ct(2) by (intro hand_out_goes_through) (auto simp: takes_more_def)
    then show ?thesis using True ct(1) assms(1) by (auto simp: Let_def and_do_def on_claims_def)
  qed
qed simp

lemma task_of_finds:
  assumes "so_held s job = Some h" "can_be_written m (snapshot_event (hj_state h))" "jm_moment_written m now"
    "takes_more s" "ct_rows (so_claims s) = []" "unfinished (tasks_on (kp_record (hj_keeper h))) \<noteq> []"
    "\<forall>t \<in> set (unfinished (tasks_on (kp_record (hj_keeper h)))). tf_due (state_facts (hj_state h) (jt_id t)) \<le> now"
  shows "\<exists>x s'. task_of m now job s = (Inr (Some x), s')"
proof -
  let ?tasks = "tasks_on (kp_record (hj_keeper h))"
  obtain ct where ct: "claimed_tasks job now (so_claims s) = (Inr [], ct)" "ct_rows ct = []" "ct_answers ct = []"
    using assms(4,5) by (auto simp: claimed_tasks_def statement_def table_answers_def one_statement_later_def takes_more_def)
  obtain at where at: "at < length ?tasks" "\<not> jt_done (?tasks ! at)" "\<not> passed_over (hj_state h) ?tasks at"
    using some_task_is_free[OF assms(6)] by blast
  have "may_start (hj_state h) ?tasks [] now at"
  proof -
    have "?tasks ! at \<in> set (unfinished ?tasks)" using at by (simp add: unfinished_def)
    then have "tf_due (state_facts (hj_state h) (jt_id (?tasks ! at))) \<le> now" using assms(7) by blast
    then show ?thesis using at by (simp add: may_start_def)
  qed
  then have "\<exists>at \<in> set [0..<length ?tasks]. may_start (hj_state h) ?tasks [] now at" using at(1) by auto
  then have "\<exists>x s'. first_that_starts m now job [] [0..<length ?tasks] (s\<lparr>so_claims := ct\<rparr>) = (Inr (Some x), s')"
    using assms(1-4) ct by (intro first_that_starts_finds) (auto simp: takes_more_def)
  then show ?thesis using assms(1) ct(1) by (simp add: task_of_def and_do_def on_claims_def look_def)
qed

lemma next_task_finds:
  assumes "so_order s = job # jobs" "so_held s job = Some h" "jb_state (hj_state h) = job_running"
    "jb_schedule (hj_state h) = None" "can_be_written m (snapshot_event (hj_state h))" "jm_moment_written m now"
    "takes_more s" "ct_rows (so_claims s) = []" "unfinished (tasks_on (kp_record (hj_keeper h))) \<noteq> []"
    "\<forall>t \<in> set (unfinished (tasks_on (kp_record (hj_keeper h)))). tf_due (state_facts (hj_state h) (jt_id t)) \<le> now"
  shows "\<exists>x s'. next_task m True now s = (Inr (Some x), s') \<and> tr_job x = job"
proof -
  obtain ct where ct: "expired_claims now (so_claims s) = (Inr [], ct)" "ct_rows ct = []" "ct_answers ct = []"
    using assms(7,8) by (auto simp: expired_claims_def statement_def table_answers_def one_statement_later_def
        takes_more_def in_key_order_def)
  let ?s = "s\<lparr>so_new := False, so_woken := False, so_claims := ct\<rparr>"
  have "takes_more ?s" "so_held ?s job = Some h" using assms(2,7) ct(3) by (simp_all add: takes_more_def)
  then obtain x s' where x: "task_of m now job ?s = (Inr (Some x), s')"
    using task_of_finds[of ?s job h m now] assms ct by auto
  have tick: "tick_schedule m now job ?s = (Inr (), ?s)"
    using assms(2,4) by (simp add: tick_schedule_def look_def give_def state_of_def)
  have "next_of_jobs m now (job # jobs) ?s = (Inr (Some x), s')"
    using assms(2,3) tick x by (simp add: and_do_def give_def state_of_def)
  then have "next_task m True now s = (Inr (Some x), s')"
    using assms(1) ct(1) by (simp add: next_task_def and_do_def looked_for_work_def release_tasks_past_their_budget_def
        on_claims_def give_def)
  then show ?thesis using task_of_job[OF x] by blast
qed

section \<open>How long a wait sleeps\<close>

lemma soonest_bound:
  "soonest now waiting ts \<le> waiting \<and> (\<forall>t \<in> set ts. t \<noteq> 0 \<longrightarrow> soonest now waiting ts \<le> time_between t now)"
proof (induction now waiting ts rule: soonest.induct)
  case (2 now waiting t ts)
  let ?w = "if t \<noteq> 0 \<and> time_between t now < waiting then time_between t now else waiting"
  have "soonest now waiting (t # ts) = soonest now ?w ts" by simp
  then show ?case using 2 by (auto split: if_splits)
qed simp

lemma soonest_of_jobs_bound:
  "soonest_of_jobs now s waiting jobs \<le> waiting
    \<and> (\<forall>job \<in> set jobs. jb_state (state_of s job) = job_running \<longrightarrow>
        (\<forall>t \<in> set (moments_of (state_of s job) (record_of s job)). t \<noteq> 0 \<longrightarrow>
          soonest_of_jobs now s waiting jobs \<le> time_between t now))"
proof (induction now s waiting jobs rule: soonest_of_jobs.induct)
  case (2 now s waiting job jobs)
  let ?w = "if jb_state (state_of s job) \<noteq> job_running then waiting
        else soonest now waiting (moments_of (state_of s job) (record_of s job))"
  have w: "?w \<le> waiting" using soonest_bound by simp
  have "soonest_of_jobs now s waiting (job # jobs) = soonest_of_jobs now s ?w jobs" by simp
  then show ?case using 2 w soonest_bound[of now waiting "moments_of (state_of s job) (record_of s job)"]
    by (fastforce split: if_splits)
qed simp

lemma wait_bound:
  "0 \<le> time_until_work now s \<and> time_until_work now s \<le> timer_clamp \<and> (so_new s \<longrightarrow> time_until_work now s = 0)
    \<and> (\<forall>job \<in> set (so_order s). jb_state (state_of s job) = job_running \<longrightarrow>
        (\<forall>t \<in> set (moments_of (state_of s job) (record_of s job)). t \<noteq> 0 \<longrightarrow>
          time_until_work now s \<le> max 0 (t - now)))"
proof -
  have clamp: "0 \<le> timer_clamp" by (simp add: timer_clamp_def one_second_def)
  have cap: "time_between t now \<le> max 0 (t - now)" for t by (auto simp: time_between_def max_int_def)
  have "soonest_of_jobs now s timer_clamp (so_order s) \<le> max 0 (t - now)"
    if "job \<in> set (so_order s)" "jb_state (state_of s job) = job_running"
      "t \<in> set (moments_of (state_of s job) (record_of s job))" "t \<noteq> 0" for job t
    using soonest_of_jobs_bound[of now s timer_clamp "so_order s"] that cap[of t] by fastforce
  then show ?thesis
    using soonest_of_jobs_bound[of now s timer_clamp "so_order s"] clamp by (auto simp: time_until_work_def)
qed

section \<open>What was put down\<close>

lemma newest_put_down_is:
  assumes "\<forall>mk. newest = Some mk \<longrightarrow> P mk"
    "\<forall>job \<in> set jobs. \<forall>mk. jb_put_down (state_of s job) = Some mk \<longrightarrow> jb_state (state_of s job) = job_paused \<longrightarrow> P mk"
  shows "(\<forall>mk. newest_put_down s newest jobs = Some mk \<longrightarrow> P mk
      \<and> (\<forall>old. newest = Some old \<longrightarrow> run_number_of (pd_run old) \<le> run_number_of (pd_run mk))
      \<and> (\<forall>job \<in> set jobs. \<forall>other. jb_put_down (state_of s job) = Some other \<longrightarrow> jb_state (state_of s job) = job_paused \<longrightarrow>
          run_number_of (pd_run other) \<le> run_number_of (pd_run mk)))
    \<and> (newest_put_down s newest jobs = None \<longrightarrow> newest = None
      \<and> (\<forall>job \<in> set jobs. jb_state (state_of s job) = job_paused \<longrightarrow> jb_put_down (state_of s job) = None))"
  using assms
proof (induction jobs arbitrary: newest)
  case (Cons job jobs)
  let ?next = "case jb_put_down (state_of s job) of
          None \<Rightarrow> newest
        | Some mark \<Rightarrow>
            if jb_state (state_of s job) \<noteq> job_paused then newest
            else (case newest of
                    None \<Rightarrow> Some mark
                  | Some held \<Rightarrow> if run_number_of (pd_run held) < run_number_of (pd_run mark) then Some mark else newest)"
  obtain nx where nx: "nx = ?next" by blast
  let ?num = "\<lambda>mk. run_number_of (pd_run mk)"
  have next_P: "\<forall>mk. nx = Some mk \<longrightarrow> P mk"
    using Cons.prems by (auto simp: nx split: option.splits if_splits)
  have jobs_P: "\<forall>j \<in> set jobs. \<forall>mk. jb_put_down (state_of s j) = Some mk \<longrightarrow>
      jb_state (state_of s j) = job_paused \<longrightarrow> P mk" using Cons.prems(2) by simp
  note ih = Cons.IH[of nx, OF next_P jobs_P]
  have step: "newest_put_down s newest (job # jobs) = newest_put_down s nx jobs" by (simp add: nx)
  have old: "\<exists>mk. nx = Some mk \<and> ?num o1 \<le> ?num mk" if "newest = Some o1" for o1
    using that by (auto simp: nx split: option.split)
  have here: "\<exists>mk. nx = Some mk \<and> ?num o1 \<le> ?num mk"
    if "jb_put_down (state_of s job) = Some o1" "jb_state (state_of s job) = job_paused" for o1
    using that by (auto simp: nx split: option.split)
  have some: "P mk" "\<And>m1. nx = Some m1 \<Longrightarrow> ?num m1 \<le> ?num mk"
    "\<And>j other. j \<in> set jobs \<Longrightarrow> jb_put_down (state_of s j) = Some other \<Longrightarrow> jb_state (state_of s j) = job_paused \<Longrightarrow>
      ?num other \<le> ?num mk" if "newest_put_down s nx jobs = Some mk" for mk
    using conjunct1[OF ih] that by blast+
  show ?case unfolding step
  proof (intro conjI allI impI ballI)
    fix mk assume mk: "newest_put_down s nx jobs = Some mk"
    show "P mk" by (rule some(1)[OF mk])
    fix o1 assume "newest = Some o1"
    then obtain m1 where "nx = Some m1" "?num o1 \<le> ?num m1" using old by blast
    then show "?num o1 \<le> ?num mk" using some(2)[OF mk] by fastforce
  next
    fix mk j other
    assume mk: "newest_put_down s nx jobs = Some mk" and j: "j \<in> set (job # jobs)"
      "jb_put_down (state_of s j) = Some other" "jb_state (state_of s j) = job_paused"
    show "?num other \<le> ?num mk"
    proof (cases "j = job")
      case True
      then obtain m1 where "nx = Some m1" "?num other \<le> ?num m1" using here j(2,3) by blast
      then show ?thesis using some(2)[OF mk] by fastforce
    next
      case False
      then show ?thesis using some(3)[OF mk _ j(2,3)] j(1) by simp
    qed
  next
    assume "newest_put_down s nx jobs = None"
    then have "nx = None" using conjunct2[OF ih] by blast
    then show "newest = None" using old by (cases newest) auto
  next
    fix j assume none: "newest_put_down s nx jobs = None" and j: "j \<in> set (job # jobs)" "jb_state (state_of s j) = job_paused"
    show "jb_put_down (state_of s j) = None"
    proof (cases "j = job")
      case True
      have "nx = None" using conjunct2[OF ih] none by blast
      then show ?thesis using here True j(2) by (cases "jb_put_down (state_of s job)") auto
    next
      case False
      then show ?thesis using conjunct2[OF ih] none j by simp
    qed
  qed
qed simp

lemma picked_up_once:
  assumes "pick_up_once m job task s = (Inr True, s')"
  shows "pick_up_once m job task s' = (Inr False, s')"
proof -
  obtain h where h: "so_held s job = Some h" using assms
    by (auto simp: pick_up_once_def and_do_def find_job_def split: option.splits)
  obtain t where t: "job_task_labelled (tasks_on (kp_record (hj_keeper h))) task = Some t" "\<not> jt_done t"
    and saved: "save_state m job (with_task task ((state_facts (hj_state h) task)\<lparr>tf_picked_up := True\<rparr>) (hj_state h)) s = (Inr (), s')"
    using assms h by (auto simp: pick_up_once_def and_do_Inr find_job_def look_def unfinished_task_def give_def refuse_def
        split: option.splits if_splits)
  from saved show ?thesis
    by (rule save_state_effect)
      (use h t in \<open>simp add: pick_up_once_def and_do_def find_job_def look_def unfinished_task_def give_def\<close>)
qed

end
