(* ===== verification/Job_Restart.thy ===== *)
theory Job_Restart
  imports Job_Invariants
begin

text \<open>
  A store is rebuilt from its log alone (\<open>rebuild\<close> of \<open>state.go\<close>): after a restart the jobs
  are those of the process that is gone, with their records and their states. It holds of runs in which
  no making of a job failed half way, for such a failure leaves a checkpoint under the number of the next
  job.
\<close>

section \<open>Runs in which no job was made half\<close>

text \<open>No checkpoint is under the number the next job gets.\<close>

definition number_is_free :: "job_store \<Rightarrow> bool" where
  "number_is_free s \<longleftrightarrow>
     saved_checkpoints (record_log_key record_job (itoa (so_next s))) (log_contents (so_log s)) = []"

inductive clean_run :: "job_machine \<Rightarrow> job_store \<Rightarrow> bool" for m where
  clean_start: "sound_log lg \<Longrightarrow> states_in (log_contents lg) = [] \<Longrightarrow> number_is_free (empty_store pid lg ct) \<Longrightarrow>
    clean_run m (empty_store pid lg ct)"
| clean_move: "clean_run m s \<Longrightarrow> store_move m user s s' \<Longrightarrow> number_is_free s' \<Longrightarrow> clean_run m s'"
| clean_others_wrote: "clean_run m s \<Longrightarrow> log_append (so_log s) e = (x, lg) \<Longrightarrow>
    (\<forall>n. change_in (e\<lparr>ev_sequence := n\<rparr>) = None) \<Longrightarrow>
    ev_kind e \<noteq> event_checkpoint \<or> job_of_log_key (ev_task e) = None \<Longrightarrow> clean_run m (s\<lparr>so_log := lg\<rparr>)"
| clean_others_claimed: "clean_run m s \<Longrightarrow> clean_run m (s\<lparr>so_claims := ct\<rparr>)"

lemma clean_is_run: "clean_run m s \<Longrightarrow> jobs_run m s"
  by (induction rule: clean_run.induct) (auto intro: jobs_run.intros)

definition start_of_job :: "string \<Rightarrow> held_job \<Rightarrow> start_of_record" where
  "start_of_job job h = job_start job (g_ask (r_goal (kp_record (hj_keeper h))))"

definition records_sound :: "job_store \<Rightarrow> bool" where
  "records_sound s \<longleftrightarrow>
     (\<forall>job h. so_held s job = Some h \<longrightarrow> sound_state (start_of_job job h) (hj_keeper h) (so_log s))"

lemma start_of_job_key [simp]: "start_key (start_of_job job h) = CHR ''j'' # job"
  "start_key (job_start job ask) = CHR ''j'' # job" "st_id (start_of_job job h) = job"
  "st_kind (start_of_job job h) = record_job"
  by (simp_all add: start_key_def start_of_job_def job_start_def record_log_key_def)

lemma sound_start: "sound_state (job_start job ask) k lg \<Longrightarrow> ask = g_ask (r_goal (kp_record k))"
  by (simp add: sound_state_def changed_rightly_def fixed_part_def start_record_place) (simp add: job_start_def)

lemma other_gain_sound:
  assumes "sound_state st k lg" "log_gained key lg lg'" "key \<noteq> start_key st"
  shows "sound_state st k lg'"
proof -
  obtain es where es: "log_contents lg' = log_contents lg @ es" "list_all (\<lambda>e. ev_task e = key) es" "sound_log lg'"
    using assms(2) by (auto simp: log_gained_def)
  then have "own_events (start_key st) es = []"
    using assms(3) by (auto simp: own_events_def list_all_iff filter_empty_conv)
  then have "saved_checkpoints (start_key st) (log_contents lg') = saved_checkpoints (start_key st) (log_contents lg)"
    using es(1) by (simp add: saved_checkpoints_append) (simp add: saved_checkpoints_def checkpoint_events_def)
  then show ?thesis using assms(1) es(3) by (simp add: sound_state_def numbered_def)
qed

lemma elsewhere_records:
  assumes "records_sound s" "log_append (so_log s) e = (x, lg)"
    "ev_kind e \<noteq> event_checkpoint \<or> job_of_log_key (ev_task e) = None" "jobs_hold s"
  shows "records_sound (s\<lparr>so_log := lg\<rparr>)"
proof -
  have "ev_task e \<noteq> CHR ''j'' # job \<or> ev_kind e \<noteq> event_checkpoint" if "so_held s job = Some h" for job h
    using hold_named[OF assms(4) that] assms(3)
    by (cases job) (auto simp: job_of_log_key_def job_number_def atoi_def)
  then show ?thesis
    using elsewhere_sound[OF _ assms(2)] assms(1) by (simp add: records_sound_def)
qed

lemma state_event_is_elsewhere: "ev_kind (state_event_of job ev) \<noteq> event_checkpoint"
  by (simp add: new_event_def event_kind_defs)

lemma others_gained:
  assumes "records_sound s" "log_gained (CHR ''j'' # job) (so_log s) lg" "so_held s job = None"
  shows "records_sound (s\<lparr>so_log := lg\<rparr>)"
proof -
  have "sound_state (start_of_job j h) (hj_keeper h) lg" if "so_held s j = Some h" for j h
    using assms that by (intro other_gain_sound[OF _ assms(2)]) (auto simp: records_sound_def)
  then show ?thesis by (simp add: records_sound_def)
qed

lemma new_record_gained:
  assumes "new_keeper (job_start job ask) lg = (Inr k, lg1)" "keeper_moves u (k, lg1) (k', lg2)" "sound_log lg"
    "saved_checkpoints (CHR ''j'' # job) (log_contents lg) = []"
  shows "sound_state (job_start job ask) k' lg2 \<and> log_gained (CHR ''j'' # job) lg lg2"
proof -
  have s1: "sound_state (job_start job ask) k lg1"
    using new_keeper_sound[OF assms(3) _ assms(1)] assms(4) by simp
  have "\<exists>x. save \<lparr>kp_record = start_record (job_start job ask), kp_checkpoint = 0,
      kp_ask_from = 0, kp_once_per_round = False, kp_unsaved = False\<rparr> lg = (Inr x, k, lg1)"
    using new_keeper_Inr[OF assms(1)] by blast
  then have "log_gained (CHR ''j'' # job) lg lg1"
    using save_gained[OF assms(3)]
    by (fastforce simp: log_key_def keeper_kind_def keeper_id_def start_record_place job_start_def record_log_key_def)
  moreover have "log_gained (log_key k) lg1 lg2"
    using moves_keep[OF assms(2)] s1 by (simp add: sound_state_def changed_rightly_def)
  moreover have "log_key k = CHR ''j'' # job" using sound_state_key[OF s1] by simp
  ultimately show ?thesis using moves_sound[OF assms(2)] s1 log_gained_trans by fastforce
qed

lemma next_is_free:
  assumes "jobs_hold s"
  shows "so_held s (itoa (so_next s)) = None \<and> job_of_log_key (CHR ''j'' # itoa (so_next s)) \<noteq> None"
proof -
  have n: "length (so_order s) \<le> max_jobs" "so_next s = int (length (so_order s)) + 1"
    and order: "so_order s = job_names (length (so_order s))"
    using assms by (simp_all add: jobs_hold_def) (metis numbered_from_one_def)
  have "itoa (so_next s) \<notin> set (so_order s)" using new_name[OF n(1)] order n(2) by metis
  then have "so_held s (itoa (so_next s)) = None" using assms by (auto simp: jobs_hold_def)
  moreover have "job_number (itoa (so_next s)) \<noteq> None"
    using job_number_itoa[of "so_next s"] n by (simp add: max_jobs_def max_int_def)
  then have "job_of_log_key (CHR ''j'' # itoa (so_next s)) \<noteq> None"
    by (cases "itoa (so_next s)") (auto simp: job_of_log_key_def job_number_def atoi_def)
  ultimately show ?thesis by simp
qed

lemma free_elsewhere:
  assumes "jobs_hold s" "log_append (so_log s) e = (x, lg)" "number_is_free s"
    "ev_kind e \<noteq> event_checkpoint \<or> job_of_log_key (ev_task e) = None"
  shows "number_is_free (s\<lparr>so_log := lg\<rparr>)"
proof (cases x)
  case (Inl err)
  then show ?thesis using log_store.app_Inl[OF hold_log[OF assms(1)]] assms(2,3) by (simp add: number_is_free_def)
next
  case (Inr n)
  have "ev_task e \<noteq> CHR ''j'' # itoa (so_next s) \<or> ev_kind e \<noteq> event_checkpoint"
    using next_is_free[OF assms(1)] assms(4) by auto
  then show ?thesis
    using log_store.app_Inr[OF hold_log[OF assms(1)]] assms(2,3) Inr saved_other_event[of "e\<lparr>ev_sequence := n\<rparr>"]
    by (simp add: number_is_free_def saved_checkpoints_append record_log_key_def)
qed

lemma move_records:
  assumes "store_move m user s s'" "jobs_hold s" "records_sound s" "number_is_free s" "number_is_free s'"
  shows "records_sound s'"
  using assms
proof (induction rule: store_move.induct)
  case (by_the_keeper s job h k lg)
  have sound: "sound_state (start_of_job job h) (hj_keeper h) (so_log s)"
    using by_the_keeper by (simp add: records_sound_def)
  have new: "sound_state (start_of_job job h) k lg" by (rule move_sound[OF by_the_keeper(2) sound])
  have keep: "changed_rightly (kp_record (hj_keeper h)) (kp_record k)" "log_gained (log_key (hj_keeper h)) (so_log s) lg"
    using move_keeps[OF by_the_keeper(2)] sound by (simp_all add: sound_state_def changed_rightly_def)
  have "sound_state (start_of_job j h') (hj_keeper h') lg" if "so_held s j = Some h'" "j \<noteq> job" for j h'
    using by_the_keeper that keep(2) sound_state_key[OF sound]
    by (intro other_gain_sound[OF _ keep(2)]) (auto simp: records_sound_def)
  moreover have "start_of_job job (h\<lparr>hj_keeper := k\<rparr>) = start_of_job job h"
    using keep(1) by (simp add: start_of_job_def changed_rightly_def fixed_part_def)
  ultimately show ?case using new by (simp add: records_sound_def)
next
  case (refused_event s job ev e lg)
  then show ?case using elsewhere_records state_event_is_elsewhere by blast
next
  case (saved_state s job h st n lg)
  then have "records_sound (s\<lparr>so_log := lg\<rparr>)" using elsewhere_records state_event_is_elsewhere by blast
  then show ?case using saved_state(1) by (auto simp: records_sound_def start_of_job_def)
next
  case (noted s job h said n lg)
  then have "records_sound (s\<lparr>so_log := lg\<rparr>)" using elsewhere_records state_event_is_elsewhere by blast
  then show ?case using noted(1) by (auto simp: records_sound_def start_of_job_def)
next
  case (no_keeper s ask e lg)
  then have "sound_log lg \<and> log_contents lg = log_contents (so_log s)"
    using hold_log[OF no_keeper(2)] refused_save_numbered save_gained
    by (fastforce simp: new_keeper_def Let_def log_gained_def split: if_splits sum.splits prod.splits)
  then show ?case using no_keeper(3) by (auto simp: records_sound_def sound_state_def numbered_def)
next
  case (given_up s ask k lg k' lg')
  have free: "so_held s (itoa (so_next s)) = None"
    using next_is_free[OF given_up(3)] by simp
  then show ?case using new_record_gained[OF given_up(1,2) hold_log[OF given_up(3)]] given_up(4,5)
    by (intro others_gained) (simp_all add: number_is_free_def record_log_key_def)
next
  case (a_new_job s ask k lg k' lg1 st n lg2)
  let ?job = "itoa (so_next s)"
  have new: "sound_state (job_start ?job ask) k' lg1" "log_gained (CHR ''j'' # ?job) (so_log s) lg1"
    using new_record_gained[OF a_new_job(1,2) hold_log[OF a_new_job(8)]] a_new_job(10)
    by (simp_all add: number_is_free_def record_log_key_def)
  have other: "sound_state (start_of_job j h) (hj_keeper h) lg1" if "so_held s j = Some h" "j \<noteq> ?job" for j h
    using a_new_job(9) that by (intro other_gain_sound[OF _ new(2)]) (auto simp: records_sound_def)
  have later: "sound_state st' k'' lg1 \<Longrightarrow> sound_state st' k'' lg2" for st' k''
    using elsewhere_sound[OF _ a_new_job(3)] state_event_is_elsewhere by blast
  have "start_of_job ?job \<lparr>hj_keeper = k', hj_state = st\<rparr> = job_start ?job ask"
    using sound_start[OF new(1)] by (simp add: start_of_job_def)
  then show ?case using later[OF new(1)] later[OF other] by (auto simp: records_sound_def put_held_def)
qed (auto simp: records_sound_def same_jobs_def)

lemma clean_run_sound: "clean_run m s \<Longrightarrow> records_sound s \<and> number_is_free s"
proof (induction rule: clean_run.induct)
  case (clean_start lg pid ct)
  then show ?case by (simp add: records_sound_def) (simp add: empty_store_def)
next
  case (clean_move s user s')
  then show ?case using move_records run_holds[OF clean_is_run] by blast
next
  case (clean_others_wrote s e x lg)
  have hold: "jobs_hold s" by (rule run_holds[OF clean_is_run[OF clean_others_wrote(1)]])
  show ?case using elsewhere_records[OF _ clean_others_wrote(2,4) hold] clean_others_wrote free_elsewhere[OF hold]
    by blast
next
  case (clean_others_claimed s ct)
  then show ?case by (simp add: records_sound_def number_is_free_def)
qed

section \<open>Rebuilding\<close>

text \<open>What a restart needs of a store: the database answers, and each record is in the log as UTF-8, with
  its newest change saved and no more events under its key than one read gives.\<close>

definition can_be_read_back :: "job_store \<Rightarrow> bool" where
  "can_be_read_back s \<longleftrightarrow> lg_answers (so_log s) = []
     \<and> (\<forall>job h. so_held s job = Some h \<longrightarrow> \<not> kp_unsaved (hj_keeper h)
          \<and> carried (start_of_job job h) (kp_record (hj_keeper h)) \<and> few_events (start_of_job job h) (so_log s))"

lemma patient_log: "lg_answers lg = [] \<Longrightarrow> one_call_later lg = lg \<and> answers_now lg"
  by (simp add: one_call_later_def answers_now_def)

definition loaded :: "(string \<times> job_state) list \<Rightarrow> job_store \<Rightarrow> string \<Rightarrow> held_job option" where
  "loaded states s job = map_option (\<lambda>h. \<lparr>hj_keeper = (hj_keeper h)\<lparr>kp_once_per_round := False\<rparr>,
     hj_state = state_under job states\<rparr>) (so_held s job)"

lemma load_held:
  assumes "records_sound s" "can_be_read_back s" "so_held s job = Some h"
  shows "load (so_log s) record_job job = (Inr ((hj_keeper h)\<lparr>kp_once_per_round := False\<rparr>), so_log s)"
  using load_gives[of "start_of_job job h" "hj_keeper h" "so_log s"] assms patient_log[of "so_log s"]
  by (simp add: records_sound_def can_be_read_back_def)

lemma rebuild_each_gives:
  assumes "records_sound s" "can_be_read_back s" "\<forall>n \<in> set ns. so_held s (itoa n) \<noteq> None \<and> 0 < n \<and> n < max_int"
    "so_log s0 = so_log s"
  shows "rebuild_each states ns s0 = (Inr (), s0\<lparr>
      so_held := (\<lambda>job. if job \<in> itoa ` set ns then loaded states s job else so_held s0 job),
      so_order := so_order s0 @ map itoa ns, so_next := (if ns = [] then so_next s0 else last ns + 1)\<rparr>)"
  using assms(3,4)
proof (induction ns arbitrary: s0)
  case Nil
  then show ?case by (simp add: give_def)
next
  case (Cons n ns)
  obtain h where h: "so_held s (itoa n) = Some h" using Cons.prems(1) by auto
  let ?k = "(hj_keeper h)\<lparr>kp_once_per_round := False\<rparr>"
  let ?s1 = "put_held (itoa n) \<lparr>hj_keeper = ?k, hj_state = state_under (itoa n) states\<rparr>
      (s0\<lparr>so_order := so_order s0 @ [itoa n], so_next := wrap64 (n + 1)\<rparr>)"
  have "load (so_log s0) record_job (itoa n) = (Inr ?k, so_log s0)"
    using load_held[OF assms(1,2) h] Cons.prems(2) by simp
  then have "rebuild_each states (n # ns) s0 = rebuild_each states ns ?s1"
    by (simp add: Let_def and_do_def on_log_def)
  moreover have "wrap64 (n + 1) = n + 1" using Cons.prems(1) by (simp add: wrap64_small max_int_def)
  ultimately show ?case using Cons.IH[of ?s1] Cons.prems h
    by (auto simp: put_held_def loaded_def fun_eq_iff)
qed

lemma numbers_of_names:
  "map fst states = map itoa ns \<Longrightarrow> \<forall>n \<in> set ns. 1 \<le> n \<and> n \<le> max_int \<Longrightarrow> numbers_among states = ns"
proof (induction ns arbitrary: states)
  case (Cons n ns)
  then obtain st rest where "states = (itoa n, st) # rest" "map fst rest = map itoa ns" by (cases states) auto
  then show ?case using Cons job_number_itoa[of n] by simp
qed simp

lemma rebuild_gives:
  assumes "clean_run m s" "can_be_read_back s"
  shows "\<exists>s' states. rebuild (empty_store pid (so_log s) ct) = (Inr (), s') \<and> so_order s' = so_order s
    \<and> so_next s' = so_next s \<and> so_log s' = so_log s \<and> so_claims s' = ct
    \<and> states = states_in (log_contents (so_log s)) \<and> so_held s' = loaded states s"
proof -
  let ?states = "states_in (log_contents (so_log s))" and ?n = "length (so_order s)"
  let ?s0 = "empty_store pid (so_log s) ct"
  obtain ns where ns: "ns = map (\<lambda>i. int i + 1) [0..<?n]" by blast
  have hold: "jobs_hold s" by (rule run_holds[OF clean_is_run[OF assms(1)]])
  have records: "records_sound s" using clean_run_sound[OF assms(1)] by simp
  have small: "?n \<le> max_jobs" and agree: "map fst ?states = so_order s" and nxt: "so_next s = int ?n + 1"
    and held: "\<And>job. so_held s job \<noteq> None \<longleftrightarrow> job \<in> set (so_order s)"
    and names: "numbered_from_one (so_order s)"
    using hold by (simp_all add: jobs_hold_def log_agrees_def)
  have "job_names ?n = map itoa ns" by (simp add: ns job_names_def)
  then have order: "so_order s = map itoa ns" using names numbered_from_one_def by metis
  have range: "\<forall>n \<in> set ns. 1 \<le> n \<and> n \<le> 500" using small by (auto simp: ns max_jobs_def)
  have "numbers_among ?states = ns"
    using agree order range by (intro numbers_of_names) (auto simp: max_int_def)
  moreover have "sorted ns" by (simp add: ns sorted_iff_nth_mono)
  ultimately have sorted: "sort (numbers_among ?states) = ns" by (simp add: sorted_sort_id)
  have "length ?states \<le> max_jobs" using small agree by (metis length_map)
  then have "replay_states (so_log s) = (Inr ?states, so_log s)"
    using replay_states_is hold_log[OF hold] patient_log[of "so_log s"] assms(2) by (simp add: can_be_read_back_def)
  then have run: "rebuild ?s0 = rebuild_each ?states ns ?s0"
    by (simp add: rebuild_def and_do_def on_log_def empty_store_def sorted)
  have listed: "job \<in> itoa ` set ns \<longleftrightarrow> so_held s job \<noteq> None" for job
    using held[of job] by (simp add: order)
  then have "\<forall>n \<in> set ns. so_held s (itoa n) \<noteq> None \<and> 0 < n \<and> n < max_int"
    using range by (fastforce simp: max_int_def)
  note gives = rebuild_each_gives[OF records assms(2) this, of ?s0 ?states]
  have "(\<lambda>job. if job \<in> itoa ` set ns then loaded ?states s job else so_held ?s0 job) = loaded ?states s"
    using listed by (auto simp: fun_eq_iff loaded_def empty_store_def)
  moreover have "(if ns = [] then so_next ?s0 else last ns + 1) = so_next s"
    using nxt by (cases ?n) (simp_all add: ns empty_store_def)
  ultimately show ?thesis using gives run order by (simp add: empty_store_def)
qed

lemma rebuilt_states:
  assumes "clean_run m s" "so_held s job = Some h"
  shows "(state_under job (states_in (log_contents (so_log s))))\<lparr>jb_notepad := []\<rparr> = json_state (hj_state h)"
  using run_holds[OF clean_is_run[OF assms(1)]] assms(2) by (simp add: jobs_hold_def log_agrees_def)

end
