(* ===== verification/Job_Calls.thy ===== *)
theory Job_Calls
  imports Job_Progress Job_Restart
begin

text \<open>
  The methods of the store as calls, and what no sequence of them does: a job that is paused, switched off
  or done does not run again unless the user says so, and a job is closed only when everything it was to
  do is done.
\<close>

section \<open>Calls\<close>

datatype job_call =
    CreateJob moment moment new_job | AddTask new_task | FinishTask moment string string string bool
  | ProveDoneLine moment string int string | SetProjectFolder string string | AppendNote string string
  | PauseJob moment string | SwitchOff moment string | ResumeJob moment string | RunNow moment moment string
  | PutDown put_down_mark | PutDownTask | PickUpOnce string string | DeferTask string string
  | SetMonitor string bool | KeepRunning string | NextTask bool moment | WaitForWork bool sleep_end moment moment
  | ListJobs "nat \<Rightarrow> moment" | LoadJob string | TimingOf string | IncidentsOf string | NotepadOf string

definition plain :: "'a act \<Rightarrow> unit act" where
  "plain act = and_do act (\<lambda>_. give ())"

fun do_call :: "job_machine \<Rightarrow> job_call \<Rightarrow> unit act" where
  "do_call m (CreateJob now now' wanted) = plain (create_job m now now' wanted)"
| "do_call m (AddTask wanted) = plain (add_task m wanted)"
| "do_call m (FinishTask now job task report failed) = plain (finish_task m now job task report failed)"
| "do_call m (ProveDoneLine now job n result) = prove_done_line m now job n result"
| "do_call m (SetProjectFolder job folder) = set_project_folder job folder"
| "do_call m (AppendNote job said) = append_note m job said"
| "do_call m (PauseJob now job) = pause_job m now job"
| "do_call m (SwitchOff now job) = switch_off m now job"
| "do_call m (ResumeJob now job) = resume_job m now job"
| "do_call m (RunNow now now' job) = run_now m now now' job"
| "do_call m (PutDown mark) = put_down m mark"
| "do_call m PutDownTask = plain put_down_task"
| "do_call m (PickUpOnce job task) = plain (pick_up_once m job task)"
| "do_call m (DeferTask job task) = plain (defer_task m job task)"
| "do_call m (SetMonitor job watching) = set_monitor m job watching"
| "do_call m (KeepRunning job) = keep_running_when_its_tasks_fail m job"
| "do_call m (NextTask may now) = plain (next_task m may now)"
| "do_call m (WaitForWork rested how now now') = wait_for_work rested how now now'"
| "do_call m (ListJobs clock) = plain (list_jobs clock)"
| "do_call m (LoadJob job) = plain (load_job job)"
| "do_call m (TimingOf job) = plain (timing_of job)"
| "do_call m (IncidentsOf job) = plain (incidents_of job)"
| "do_call m (NotepadOf job) = plain (notepad_of job)"

text \<open>The calls that say a job is to run: \<open>Resume\<close> and \<open>RunNow\<close>.\<close>

fun says_run :: "job_call \<Rightarrow> bool" where
  "says_run (ResumeJob now job) \<longleftrightarrow> True"
| "says_run (RunNow now now' job) \<longleftrightarrow> True"
| "says_run _ \<longleftrightarrow> False"

lemma plain_moves [moving]: "by_moves m user act \<Longrightarrow> by_moves m user (plain act)"
  unfolding plain_def by (intro moving)

lemma call_by_moves: "by_moves m (says_run c) (do_call m c)"
  by (cases c) (simp_all, (intro moving)+)

lemma call_moves: "do_call m c s = (a, s') \<Longrightarrow> store_moves m (says_run c) s s'"
  by (rule by_movesD[OF call_by_moves])

lemma call_run: "jobs_run m s \<Longrightarrow> do_call m c s = (a, s') \<Longrightarrow> jobs_run m s'"
  using moves_run[OF call_moves] by blast

fun after_calls_of :: "job_machine \<Rightarrow> job_call list \<Rightarrow> job_store \<Rightarrow> job_store" where
  "after_calls_of m [] s = s"
| "after_calls_of m (c # cs) s = after_calls_of m cs (snd (do_call m c s))"

lemma calls_run: "jobs_run m s \<Longrightarrow> jobs_run m (after_calls_of m cs s)"
proof (induction cs arbitrary: s)
  case (Cons c cs)
  then show ?case using call_run[OF Cons.prems, of c "fst (do_call m c s)" "snd (do_call m c s)"] by simp
qed simp

section \<open>Closing\<close>

lemma move_to_done:
  assumes "store_move m user s s'" "jb_state (state_of s job) \<noteq> job_done" "jb_state (state_of s' job) = job_done"
  shows "\<exists>h. so_held s job = Some h \<and> closes (kp_record (hj_keeper h)) (hj_state h)"
  using assms
proof (induction rule: store_move.induct)
  case (saved_state s j h st n lg)
  then have "j = job" by (auto simp: state_of_def split: if_splits)
  then show ?case using saved_state by (auto simp: state_change_def)
next
  case (a_new_job s ask k lg k' lg1 st n lg2)
  then show ?case by (auto simp: state_of_def split: if_splits)
qed (auto simp: state_of_def same_jobs_def split: if_splits)

lemma moves_to_done:
  assumes "store_moves m user s s'" "jb_state (state_of s job) \<noteq> job_done" "jb_state (state_of s' job) = job_done"
  shows "\<exists>s1 h. store_moves m user s s1 \<and> store_moves m user s1 s' \<and> so_held s1 job = Some h
    \<and> closes (kp_record (hj_keeper h)) (hj_state h)"
  using assms
proof (induction rule: rtranclp_induct)
  case (step s1 s2)
  show ?case
  proof (cases "jb_state (state_of s1 job) = job_done")
    case True
    then show ?thesis using step by (meson rtranclp.rtrancl_into_rtrancl)
  next
    case False
    then obtain h where "so_held s1 job = Some h" "closes (kp_record (hj_keeper h)) (hj_state h)"
      using move_to_done[OF step(2)] step.prems by blast
    then show ?thesis using step(1,2) by blast
  qed
qed simp

section \<open>Standing still\<close>

lemma move_stays_down:
  assumes "store_move m False s s'" "jobs_hold s" "so_held s job = Some h" "jb_state (hj_state h) \<noteq> job_running"
  shows "\<exists>h'. so_held s' job = Some h' \<and> jb_state (hj_state h') \<noteq> job_running
    \<and> (jb_state (hj_state h') = job_done \<longrightarrow> jb_state (hj_state h) = job_done)"
  using assms
proof (cases rule: store_move.cases)
  case (saved_state j h0 st n lg)
  then show ?thesis using assms by (cases "j = job") (auto simp: state_change_def closes_def)
next
  case (a_new_job ask k lg k' lg1 st n lg2)
  then have "job \<noteq> itoa (so_next s)" using next_is_free[OF assms(2)] assms(3) by auto
  then show ?thesis using assms a_new_job by simp
next
  case (by_the_keeper j h0 k lg)
  then show ?thesis using assms by (cases "j = job") auto
next
  case (noted j h0 said n lg)
  then show ?thesis using assms by (cases "j = job") auto
qed (use assms in \<open>auto simp: same_jobs_def\<close>)

lemma moves_stay_down:
  assumes "store_moves m False s s'" "jobs_hold s" "so_held s job = Some h" "jb_state (hj_state h) \<noteq> job_running"
  shows "\<exists>h'. so_held s' job = Some h' \<and> jb_state (hj_state h') \<noteq> job_running
    \<and> (jb_state (hj_state h') = job_done \<longrightarrow> jb_state (hj_state h) = job_done)"
  using assms
proof (induction rule: rtranclp_induct)
  case (step s1 s2)
  then obtain h1 where h1: "so_held s1 job = Some h1" "jb_state (hj_state h1) \<noteq> job_running"
    "jb_state (hj_state h1) = job_done \<longrightarrow> jb_state (hj_state h) = job_done" by blast
  show ?case using move_stays_down[OF step(2) moves_hold[OF step(1,4)] h1(1,2)] h1(3) by blast
qed auto

lemma calls_stay_down:
  assumes "\<forall>c \<in> set cs. \<not> says_run c" "jobs_run m s" "so_held s job = Some h" "jb_state (hj_state h) \<noteq> job_running"
  shows "\<exists>h'. so_held (after_calls_of m cs s) job = Some h' \<and> jb_state (hj_state h') \<noteq> job_running
    \<and> (jb_state (hj_state h') = job_done \<longrightarrow> jb_state (hj_state h) = job_done)"
  using assms
proof (induction cs arbitrary: s h)
  case (Cons c cs)
  have call: "do_call m c s = (fst (do_call m c s), snd (do_call m c s))" by simp
  have "store_moves m False s (snd (do_call m c s))" using call_moves[OF call] Cons.prems(1) by simp
  from moves_stay_down[OF this run_holds[OF Cons.prems(2)] Cons.prems(3,4)] obtain h1 where
    "so_held (snd (do_call m c s)) job = Some h1" "jb_state (hj_state h1) \<noteq> job_running"
    "jb_state (hj_state h1) = job_done \<longrightarrow> jb_state (hj_state h) = job_done" by blast
  then show ?case using Cons.IH[OF _ call_run[OF Cons.prems(2) call]] Cons.prems(1) by fastforce
qed auto

end
