(* ===== verification/Job_Examples.thy ===== *)
theory Job_Examples
  imports Examples Job_Calls
begin

text \<open>
  A machine and a few stores on which the properties of the jobs are shown to hold of something: a plain
  job with two tasks, the same one paused, and one that ticks every hour.
\<close>

section \<open>The machine\<close>

definition example_machine :: job_machine where
  "example_machine = \<lparr>jm_unicode = plain_tables, jm_sha256 = (\<lambda>s. s),
     jm_cron = (\<lambda>e. if e = ''@hourly'' then Some (\<lambda>place t. t - t mod one_hour + one_hour) else None),
     jm_zone_known = (\<lambda>z. z = ''Europe/Berlin''), jm_date = (\<lambda>zone t. ''2026-08-01''),
     jm_moment_written = (\<lambda>t. 0 \<le> t \<and> t < 315569520000000000000), jm_quote = (\<lambda>s. [CHR 34] @ s @ [CHR 34]),
     jm_duration = (\<lambda>d. ''1h0m0s''), jm_process_runs = (\<lambda>pid. pid = 7)\<rparr>"

lemma example_cron: "cron_moves_on example_machine"
proof -
  have "t < t - t mod one_hour + one_hour" for t
    using pos_mod_bound[of one_hour t] by (simp add: duration_defs)
  then show ?thesis by (auto simp: cron_moves_on_def example_machine_def split: if_splits)
qed

definition nine :: moment where "nine = 63900000000000000000"

declare and_do_def [code_unfold]

section \<open>The stores\<close>

definition example_new_job :: new_job where
  "example_new_job = \<lparr>nj_ask = ''Tidy the build'', nj_name = [], nj_why = [], nj_schedule = None, nj_template = [],
     nj_done_when = [], nj_rules = [], nj_folder = []\<rparr>"

definition no_claims :: claims_table where "no_claims = \<lparr>ct_rows = [], ct_answers = []\<rparr>"

definition store_at_start :: job_store where "store_at_start = empty_store 7 (empty_log []) no_claims"

definition a_task :: "string \<Rightarrow> job_call" where
  "a_task said = AddTask \<lparr>nk_job = ''1'', nk_text = said, nk_due = 0\<rparr>"

text \<open>A job with two tasks, the second set aside, and one that ticks, as their methods leave them.\<close>

definition a_job_task :: "string \<Rightarrow> string \<Rightarrow> job_task" where
  "a_job_task i said = \<lparr>jt_id = i, jt_text = said, jt_done = False, jt_report = [], jt_due = []\<rparr>"

definition job_store_with :: "job_task list \<Rightarrow> job_state \<Rightarrow> job_store" where
  "job_store_with tasks st = store_at_start\<lparr>so_order := [''1''], so_next := 2,
     so_held := [''1'' \<mapsto> \<lparr>hj_keeper = \<lparr>kp_record = put_tasks tasks (start_record (job_start ''1'' ''Tidy the build'')),
         kp_checkpoint = 1, kp_ask_from = 1, kp_once_per_round = False, kp_unsaved = False\<rparr>, hj_state = st\<rparr>]\<rparr>"

definition plain_state :: job_state where
  "plain_state = no_job_state\<lparr>jb_state := job_running, jb_started := nine,
     jb_tasks := [(''t1'', no_facts), (''t2'', no_facts\<lparr>tf_deferred := True\<rparr>)]\<rparr>"

definition two_tasks :: "job_task list" where
  "two_tasks = [a_job_task ''t1'' ''run the linter'', a_job_task ''t2'' ''fix what it says'']"

definition plain_store :: job_store where "plain_store = job_store_with two_tasks plain_state"

definition hourly_state :: job_state where
  "hourly_state = no_job_state\<lparr>jb_state := job_running, jb_started := nine, jb_template := ''read the log'',
     jb_next_run := nine + one_hour, jb_schedule :=
       Some \<lparr>sc_kind = schedule_cron, sc_at = 0, sc_every = 0, sc_cron = ''@hourly'', sc_timezone = []\<rparr>\<rparr>"

definition hourly_store :: job_store where "hourly_store = job_store_with [] hourly_state"

lemma start_run: "jobs_run m store_at_start"
  unfolding store_at_start_def by (rule opened) (simp, simp add: states_in_def log_contents_def empty_log_def)

lemma no_claims_keyed: "one_row_each no_claims"
  by (simp add: one_row_each_def no_claims_def)

lemma with_claims [simp]: "so_claims (job_store_with tasks st) = no_claims"
  by (simp add: job_store_with_def store_at_start_def empty_store_def)

text \<open>What a call answers, as a test.\<close>

definition answered :: "(record_error + 'a) \<times> 's \<Rightarrow> bool" where
  "answered x = (case fst x of Inl _ \<Rightarrow> False | Inr _ \<Rightarrow> True)"

lemma answered_iff: "answered x \<longleftrightarrow> (\<exists>y s. x = (Inr y, s))"
  by (cases x) (auto simp: answered_def split: sum.splits)

definition answer_of :: "(record_error + 'a) \<times> 's \<Rightarrow> 'a \<Rightarrow> 'a" where
  "answer_of x d = (case fst x of Inl _ \<Rightarrow> d | Inr y \<Rightarrow> y)"

lemma answered_with: "answered x \<Longrightarrow> x = (Inr (answer_of x d), snd x)"
  by (cases x) (auto simp: answered_def answer_of_def split: sum.splits)

end
