(* ===== verification/Job_Properties.thy ===== *)
theory Job_Properties
  imports Job_Examples
begin

text \<open>
  The properties of the jobs: what holds of every store, when a job runs, stops and is closed, what is
  handed out and to whom, what a tick and a report do, that a restart loses nothing, how long a wait
  sleeps, and what a job may not be told to do.
\<close>

section \<open>Every store\<close>

text \<open>C2: in every store that is reached from a file with no jobs, by any calls and whatever others write into
  the log and the table, and after any calls more, at most five hundred jobs are numbered from one on in the order
  they were made; the record of each reads back from its text, has proof behind every mark and keeps the kind and
  number of the job; each stands in one of the four ways; and its incidents and its notes keep to their bounds.\<close>

theorem jobs_stand:
  assumes "jobs_run m s" "s' = after_calls_of m cs s"
  shows "length (so_order s') \<le> 500 \<and> so_next s' = int (length (so_order s')) + 1
    \<and> so_order s' = map (\<lambda>i. itoa (int i + 1)) [0..<length (so_order s')]
    \<and> (\<forall>job. so_held s' job \<noteq> None \<longleftrightarrow> job \<in> set (so_order s'))
    \<and> (\<forall>job h. so_held s' job = Some h \<longrightarrow>
        standing (kp_record (hj_keeper h)) \<and> keeper_kind (hj_keeper h) = record_job \<and> keeper_id (hj_keeper h) = job
        \<and> jb_state (hj_state h) \<in> {job_running, job_paused, job_off, job_done}
        \<and> length (jb_incidents (hj_state h)) \<le> 50 \<and> distinct (map in_signature (jb_incidents (hj_state h)))
        \<and> length (jb_notepad (hj_state h)) \<le> 16384)"
proof -
  have hold: "jobs_hold s'" using run_holds[OF calls_run[OF assms(1)]] assms(2) by simp
  have "job_holds job h" if "so_held s' job = Some h" for job h using hold_named[OF hold that] by simp
  moreover have "keeper_kind k = record_job \<and> keeper_id k = job" if "changed_rightly (start_record (job_start job ask)) (kp_record k)"
    for k job ask
    using that by (simp add: changed_rightly_def fixed_part_def start_record_place keeper_kind_def keeper_id_def)
      (simp add: job_start_def)
  ultimately have each: "\<forall>job h. so_held s' job = Some h \<longrightarrow>
        standing (kp_record (hj_keeper h)) \<and> keeper_kind (hj_keeper h) = record_job \<and> keeper_id (hj_keeper h) = job
        \<and> jb_state (hj_state h) \<in> {job_running, job_paused, job_off, job_done}
        \<and> length (jb_incidents (hj_state h)) \<le> 50 \<and> distinct (map in_signature (jb_incidents (hj_state h)))
        \<and> length (jb_notepad (hj_state h)) \<le> 16384"
    by (fastforce simp: job_holds_def changed_rightly_def incidents_hold_def max_incidents_def notepad_bytes_def)
  have "so_order s' = map (\<lambda>i. itoa (int i + 1)) [0..<length (so_order s')]"
    using hold by (simp add: jobs_hold_def numbered_from_one_def job_names_def)
  moreover have "length (so_order s') \<le> 500" "so_next s' = int (length (so_order s')) + 1"
    "\<forall>job. so_held s' job \<noteq> None \<longleftrightarrow> job \<in> set (so_order s')"
    using hold by (simp_all add: jobs_hold_def max_jobs_def)
  ultimately show ?thesis using each by blast
qed

theorem jobs_stand_witness:
  "\<exists>s'. s' = after_calls_of example_machine [CreateJob nine nine example_new_job, PauseJob nine ''1''] store_at_start
    \<and> so_next s' = int (length (so_order s')) + 1 \<and> so_order s' = [''1'']"
proof -
  let ?s = "after_calls_of example_machine [CreateJob nine nine example_new_job, PauseJob nine ''1''] store_at_start"
  have "so_order ?s = [''1'']" by code_simp
  then show ?thesis
    using jobs_stand[OF start_run[of example_machine] refl, of "[CreateJob nine nine example_new_job, PauseJob nine ''1'']"] by blast
qed

text \<open>C3: when a call closes a job, there was a moment in it at which the job was running, had no schedule, every
  task on its list was finished and its done-check passed.\<close>

theorem job_is_closed_rightly:
  assumes "do_call m c s = (a, s')" "jb_state (state_of s job) \<noteq> job_done" "jb_state (state_of s' job) = job_done"
  shows "\<exists>s1 h. store_moves m (says_run c) s s1 \<and> store_moves m (says_run c) s1 s' \<and> so_held s1 job = Some h
    \<and> jb_state (hj_state h) = job_running \<and> jb_schedule (hj_state h) = None
    \<and> (\<forall>t \<in> set (tasks_on (kp_record (hj_keeper h))). jt_done t) \<and> done_check (kp_record (hj_keeper h)) = Inr ()"
proof -
  obtain s1 h where s1: "store_moves m (says_run c) s s1" "store_moves m (says_run c) s1 s'" "so_held s1 job = Some h"
    "closes (kp_record (hj_keeper h)) (hj_state h)"
    using moves_to_done[OF call_moves[OF assms(1)] assms(2,3)] by blast
  then have "jb_state (hj_state h) = job_running \<and> jb_schedule (hj_state h) = None
    \<and> (\<forall>t \<in> set (tasks_on (kp_record (hj_keeper h))). jt_done t) \<and> done_check (kp_record (hj_keeper h)) = Inr ()"
    by (auto simp: closes_def unfinished_def filter_empty_conv)
  then show ?thesis using s1(1-3) by blast
qed

definition one_task_store :: job_store where
  "one_task_store = job_store_with [a_job_task ''t1'' ''run the linter''] plain_state"

theorem job_is_closed_rightly_witness:
  "\<exists>s1 h. so_held s1 ''1'' = Some h \<and> store_moves example_machine False one_task_store s1
    \<and> done_check (kp_record (hj_keeper h)) = Inr ()"
proof -
  let ?c = "FinishTask (nine + 5) ''1'' ''t1'' ''all clean'' False"
  have "jb_state (state_of one_task_store ''1'') \<noteq> job_done"
    "jb_state (state_of (snd (do_call example_machine ?c one_task_store)) ''1'') = job_done" by code_simp+
  from job_is_closed_rightly[OF prod.collapse[symmetric] this] show ?thesis by fastforce
qed

text \<open>C19: a job that is paused or switched off neither runs nor is closed, and a closed one does not run,
  whatever calls are made, as long as none of them is to resume or run a job.\<close>

theorem stopped_job_stays_stopped:
  assumes "jobs_run m s" "so_held s job = Some h" "jb_state (hj_state h) \<noteq> job_running" "\<forall>c \<in> set cs. \<not> says_run c"
  shows "\<exists>h'. so_held (after_calls_of m cs s) job = Some h' \<and> jb_state (hj_state h') \<noteq> job_running
    \<and> (jb_state (hj_state h') = job_done \<longrightarrow> jb_state (hj_state h) = job_done)"
  by (rule calls_stay_down[OF assms(4,1,2,3)])

theorem stopped_job_stays_stopped_witness:
  "\<exists>s h. so_held (after_calls_of example_machine [a_task ''one more'', NextTask True nine] s) ''1'' = Some h
    \<and> jb_state (hj_state h) \<noteq> job_running"
proof -
  let ?s = "after_calls_of example_machine [CreateJob nine nine example_new_job, PauseJob nine ''1''] store_at_start"
  have paused: "jb_state (state_of ?s ''1'') = job_paused" by code_simp
  then obtain h where h: "so_held ?s ''1'' = Some h" "jb_state (hj_state h) \<noteq> job_running"
    by (cases "so_held ?s ''1''") (auto simp: state_of_def no_job_state_def job_paused_def job_running_def)
  have "\<forall>c \<in> set [a_task ''one more'', NextTask True nine]. \<not> says_run c" by (simp add: a_task_def)
  from stopped_job_stays_stopped[OF calls_run[OF start_run] h this] show ?thesis by blast
qed

section \<open>Handing out\<close>

text \<open>C13: a task is handed out only when work may start, on the list of a job that runs, unfinished, due and not
  waiting for another task on the list; no process had a live claim on it, and from then on this one has for an
  hour.\<close>

theorem handed_out_is_right:
  assumes "next_task m may now s = (Inr (Some t), s')" "one_row_each (so_claims s)"
  shows "may \<and> tr_job t \<in> set (so_order s) \<and> \<not> live_claim (so_claims s) now (tr_job t) (tr_task t)
    \<and> claim_of (so_claims s') (tr_job t) (tr_task t) =
        Some \<lparr>cr_job = tr_job t, cr_task = tr_task t, cr_owner = so_owner s, cr_taken = now, cr_deadline = now + one_hour\<rparr>
    \<and> jb_state (state_of s' (tr_job t)) = job_running
    \<and> (\<exists>at < length (tasks_on (record_of s' (tr_job t))).
        let task = tasks_on (record_of s' (tr_job t)) ! at; facts = state_facts (state_of s' (tr_job t)) (tr_task t) in
        jt_id task = tr_task t \<and> jt_text task = tr_text t \<and> \<not> jt_done task \<and> tf_due facts \<le> now
        \<and> tr_unattended t = tf_unattended facts
        \<and> \<not> passed_over (state_of s' (tr_job t)) (tasks_on (record_of s' (tr_job t))) at)"
  using next_task_effect[OF assms] by (auto simp: handed_out_def Let_def task_budget_def)

theorem handed_out_is_right_witness:
  "\<exists>t s'. next_task example_machine True (nine + one_minute) plain_store = (Inr (Some t), s')
    \<and> jb_state (state_of s' (tr_job t)) = job_running"
proof -
  let ?x = "next_task example_machine True (nine + one_minute) plain_store"
  have "answered ?x \<and> answer_of ?x None \<noteq> None" by code_simp
  then obtain t s' where t: "?x = (Inr (Some t), s')" using answered_with[of ?x None] by fastforce
  show ?thesis using handed_out_is_right[OF t] t no_claims_keyed by (simp add: plain_store_def)
qed

text \<open>C14: no two processes are given one task within the same hour: however many other statements the processes
  make on the table in between, in any order, as long as none of them gives the task up, a second winner comes an
  hour after the first.\<close>

theorem one_winner_an_hour:
  assumes "one_row_each ct" "claim_task first_owner job task first_moment ct = (Inr True, ct1)"
    "\<forall>c \<in> set between. \<not> gives_up_claim c (job, task)"
    "claim_task second_owner job task second_moment (fold table_after between ct1) = (Inr True, ct2)"
  shows "first_moment + one_hour \<le> second_moment"
  using winners_apart[of ct first_owner "(job, task)" first_moment ct1 between second_owner second_moment ct2] assms
  by (simp add: take_claim_def task_budget_def)

theorem one_winner_an_hour_witness:
  "\<exists>ct1 ct2. claim_task ''process 7'' ''1'' ''t1'' nine no_claims = (Inr True, ct1)
    \<and> claim_task ''process 8'' ''1'' ''t1'' (nine + one_hour)
        (fold table_after [ClaimTask ''process 8'' ''1'' ''t1'' (nine + 5), ReleaseTask ''1'' ''t2'', ClaimedTasks ''1'' nine] ct1)
      = (Inr True, ct2)
    \<and> nine + one_hour \<le> nine + one_hour"
proof -
  let ?c1 = "claim_task ''process 7'' ''1'' ''t1'' nine no_claims"
  let ?between = "[ClaimTask ''process 8'' ''1'' ''t1'' (nine + 5), ReleaseTask ''1'' ''t2'', ClaimedTasks ''1'' nine]"
  let ?c2 = "claim_task ''process 8'' ''1'' ''t1'' (nine + one_hour) (fold table_after ?between (snd ?c1))"
  have "fst ?c1 = Inr True" "fst ?c2 = Inr True" by code_simp+
  then have wins: "?c1 = (Inr True, snd ?c1)" "?c2 = (Inr True, snd ?c2)" by (metis prod.collapse)+
  have "\<forall>c \<in> set ?between. \<not> gives_up_claim c (''1'', ''t1'')" by simp
  from one_winner_an_hour[OF no_claims_keyed wins(1) this wins(2)] show ?thesis using wins by blast
qed

text \<open>C18: work that may start is started: when the oldest job runs without a schedule, some of its tasks are
  unfinished, all of those are due, nobody has a claim, and the log and the table answer, then a task of that job is
  handed out, however the tasks were set aside.\<close>

theorem work_is_found:
  assumes "so_order s = job # jobs" "so_held s job = Some h" "jb_state (hj_state h) = job_running"
    "jb_schedule (hj_state h) = None" "unfinished (tasks_on (kp_record (hj_keeper h))) \<noteq> []"
    "\<forall>t \<in> set (unfinished (tasks_on (kp_record (hj_keeper h)))). tf_due (state_facts (hj_state h) (jt_id t)) \<le> now"
    "ct_rows (so_claims s) = []" "takes_more s" "can_be_written m (snapshot_event (hj_state h))" "jm_moment_written m now"
  shows "\<exists>t s'. next_task m True now s = (Inr (Some t), s') \<and> tr_job t = job"
  by (rule next_task_finds[OF assms(1-4) assms(9,10,8,7,5,6)])

theorem work_is_found_witness:
  "\<exists>t s'. next_task example_machine True nine plain_store = (Inr (Some t), s') \<and> tr_job t = ''1''"
proof -
  let ?h = "\<lparr>hj_keeper = \<lparr>kp_record = put_tasks two_tasks (start_record (job_start ''1'' ''Tidy the build'')),
         kp_checkpoint = 1, kp_ask_from = 1, kp_once_per_round = False, kp_unsaved = False\<rparr>, hj_state = plain_state\<rparr>"
  have held: "so_order plain_store = ''1'' # []" "so_held plain_store ''1'' = Some ?h"
    by (simp_all add: plain_store_def job_store_with_def)
  have state: "jb_state (hj_state ?h) = job_running" "jb_schedule (hj_state ?h) = None"
    by (simp_all add: plain_state_def no_job_state_def)
  have open_tasks: "unfinished (tasks_on (kp_record (hj_keeper ?h))) = two_tasks"
    by (simp add: two_tasks_def a_job_task_def unfinished_def put_tasks_def)
  then have "unfinished (tasks_on (kp_record (hj_keeper ?h))) \<noteq> []" by (simp add: two_tasks_def)
  moreover have "\<forall>t \<in> set (unfinished (tasks_on (kp_record (hj_keeper ?h)))). tf_due (state_facts (hj_state ?h) (jt_id t)) \<le> nine"
    unfolding open_tasks by (simp add: two_tasks_def a_job_task_def state_facts_def plain_state_def no_facts_def nine_def)
  moreover have "ct_rows (so_claims plain_store) = []" "takes_more plain_store"
    by (simp_all add: plain_store_def no_claims_def takes_more_def) (simp_all add: job_store_with_def store_at_start_def
      empty_store_def empty_log_def max_int_def)
  moreover have "can_be_written example_machine (snapshot_event (hj_state ?h))" "jm_moment_written example_machine nine"
    by code_simp+
  ultimately show ?thesis by (rule work_is_found[OF held state])
qed

section \<open>Ticks and reports\<close>



text \<open>C21: a report that is taken is filed: the task was on the list and unfinished; it is marked finished with the
  report, unless it failed and somebody is there to try it again; its claim is given up, its end is written down, and
  the failures in a row go on or start anew.  A second report on a finished task is refused.\<close>

theorem report_is_filed:
  assumes "finish_task m now job task report failed s = (Inr i, s')" "one_row_each (so_claims s)"
  shows "(\<exists>t. job_task_labelled (tasks_on (record_of s job)) task = Some t \<and> \<not> jt_done t)
    \<and> tasks_on (record_of s' job) =
        (if \<not> failed \<or> tf_unattended (state_facts (state_of s job) task) then mark_task_done task i (tasks_on (record_of s job))
         else tasks_on (record_of s job))
    \<and> tf_finished (state_facts (state_of s' job) task) = now
    \<and> jb_failures (state_of s' job) = (if failed then wrap64 (jb_failures (state_of s job) + 1) else 0)
    \<and> claim_of (so_claims s') job task = None
    \<and> (\<not> failed \<or> tf_unattended (state_facts (state_of s job) task) \<longrightarrow>
        (\<forall>later more bad. \<exists>e s''. finish_task m later job task more bad s' = (Inl e, s'')))"
proof -
  note eff = finish_task_effect[OF assms]
  have "\<exists>e s''. finish_task m later job task more bad s' = (Inl e, s'')"
    if "\<not> failed \<or> tf_unattended (state_facts (state_of s job) task)" for later more bad
  proof -
    obtain t where "job_task_labelled (tasks_on (record_of s job)) task = Some t" using eff by blast
    then have "job_task_labelled (tasks_on (record_of s' job)) task = Some (t\<lparr>jt_done := True, jt_report := i\<rparr>)"
      using mark_finds eff that by simp
    then show ?thesis by (rule finished_is_refused) simp
  qed
  then show ?thesis using eff by blast
qed

theorem report_is_filed_witness:
  "\<exists>i s'. finish_task example_machine (nine + 5) ''1'' ''t1'' ''all clean'' False plain_store = (Inr i, s')
    \<and> tasks_on (record_of s' ''1'') = mark_task_done ''t1'' i (tasks_on (record_of plain_store ''1''))"
proof -
  let ?x = "finish_task example_machine (nine + 5) ''1'' ''t1'' ''all clean'' False plain_store"
  have "answered ?x" by code_simp
  then obtain i s' where i: "?x = (Inr i, s')" by (auto simp: answered_iff)
  show ?thesis using report_is_filed[OF i] i no_claims_keyed by (simp add: plain_store_def)
qed

text \<open>C22: where a job stands after a failed task: a plain one is paused at the third failure in a row, one with a
  schedule is switched off at the tenth, one that was told to keep running goes on, and otherwise nothing changes.\<close>

theorem failures_stop_the_job:
  assumes "finish_task m now job task report True s = (Inr i, s')"
  shows "jb_state (state_of s' job) =
    (let st = state_of s job; failures = wrap64 (jb_failures st + 1) in
     if jb_keep_running st then jb_state st
     else if jb_schedule st = None then (if 3 \<le> failures then job_paused else jb_state st)
     else (if 10 \<le> failures then job_off else jb_state st))"
  using failed_task_standing[OF assms]
  by (simp add: standing_after_failure_def Let_def failures_that_pause_def failures_that_switch_off_def)

definition failing_store :: job_store where
  "failing_store = job_store_with two_tasks (plain_state\<lparr>jb_failures := 2\<rparr>)"

theorem failures_stop_the_job_witness:
  "\<exists>i s'. finish_task example_machine (nine + 5) ''1'' ''t1'' ''broken'' True failing_store = (Inr i, s')
    \<and> jb_state (state_of s' ''1'') = job_paused"
proof -
  let ?x = "finish_task example_machine (nine + 5) ''1'' ''t1'' ''broken'' True failing_store"
  have "answered ?x" by code_simp
  then obtain i s' where i: "?x = (Inr i, s')" by (auto simp: answered_iff)
  show ?thesis using failures_stop_the_job[OF i] i
    by (simp add: failing_store_def job_store_with_def state_of_def plain_state_def no_job_state_def wrap64_def)
qed

section \<open>Failures that are told already\<close>




section \<open>Restarts\<close>

text \<open>C15: a store rebuilt from the log alone is the store of the process that is gone: the same jobs in the same
  order under the same numbers, each with its record and, but for the bytes JSON does not carry and the notes, its
  state; the log does not change.  It holds of every run in which no making of a job failed half way.\<close>

theorem restart_gives_the_jobs_back:
  assumes "clean_run m s" "can_be_read_back s"
  shows "\<exists>s'. rebuild (empty_store pid (so_log s) ct) = (Inr (), s') \<and> so_order s' = so_order s
    \<and> so_next s' = so_next s \<and> so_log s' = so_log s \<and> so_claims s' = ct
    \<and> (\<forall>job. so_held s' job = None \<longleftrightarrow> so_held s job = None)
    \<and> (\<forall>job h. so_held s job = Some h \<longrightarrow> (\<exists>h'. so_held s' job = Some h'
        \<and> hj_keeper h' = (hj_keeper h)\<lparr>kp_once_per_round := False\<rparr>
        \<and> (hj_state h')\<lparr>jb_notepad := []\<rparr> = json_state (hj_state h)))"
proof -
  let ?sts = "states_in (log_contents (so_log s))"
  obtain s' where s': "rebuild (empty_store pid (so_log s) ct) = (Inr (), s')" "so_order s' = so_order s"
    "so_next s' = so_next s" "so_log s' = so_log s" "so_claims s' = ct" "so_held s' = loaded ?sts s"
    using rebuild_gives[OF assms] by blast
  have "\<forall>job. so_held s' job = None \<longleftrightarrow> so_held s job = None" by (simp add: s'(6) loaded_def)
  moreover have "\<forall>job h. so_held s job = Some h \<longrightarrow> (\<exists>h'. so_held s' job = Some h'
        \<and> hj_keeper h' = (hj_keeper h)\<lparr>kp_once_per_round := False\<rparr>
        \<and> (hj_state h')\<lparr>jb_notepad := []\<rparr> = json_state (hj_state h))"
    using rebuilt_states[OF assms(1)] by (simp add: s'(6) loaded_def)
  ultimately show ?thesis using s'(1-5) by blast
qed

definition made_log :: event_log where
  "made_log = snd (new_keeper (job_start ''1'' ''Tidy the build'') (empty_log []))"

definition made_keeper :: keeper where
  "made_keeper = answer_of (new_keeper (job_start ''1'' ''Tidy the build'') (empty_log [])) \<lparr>kp_record = empty_record,
     kp_checkpoint = 0, kp_ask_from = 0, kp_once_per_round = False, kp_unsaved = False\<rparr>"

definition made_state :: job_state where "made_state = no_job_state\<lparr>jb_state := job_running, jb_started := nine\<rparr>"

definition made_store :: job_store where
  "made_store = put_held ''1'' \<lparr>hj_keeper = made_keeper, hj_state = made_state\<rparr>
     (store_at_start\<lparr>so_log := snd (log_append made_log (state_event_of ''1'' (snapshot_event made_state))),
        so_next := 2, so_order := [''1'']\<rparr>)"

lemma made_run: "clean_run example_machine made_store"
proof (rule clean_move)
  have free: "number_is_free store_at_start" "number_is_free made_store" by code_simp+
  show "number_is_free made_store" by (rule free(2))
  show "clean_run example_machine store_at_start"
    using clean_start[of "empty_log []" 7 no_claims example_machine] free(1)
    by (simp add: store_at_start_def states_in_def log_contents_def empty_log_def[of "[]"] sound_empty[unfolded empty_log_def])
  have appended: "answered (log_append made_log (state_event_of ''1'' (snapshot_event made_state)))" by code_simp
  have "answered (new_keeper (job_start ''1'' ''Tidy the build'') (empty_log []))" by code_simp
  then have k: "new_keeper (job_start ''1'' ''Tidy the build'') (empty_log []) = (Inr made_keeper, made_log)"
    unfolding made_log_def made_keeper_def by (intro answered_with)
  obtain n where lg: "log_append made_log (state_event_of ''1'' (snapshot_event made_state)) =
      (Inr n, snd (log_append made_log (state_event_of ''1'' (snapshot_event made_state))))"
    using answered_with[OF appended] by blast
  have one: "itoa 1 = ''1''" "wrap64 2 = 2" by code_simp+
  have start: "so_next store_at_start = 1" "so_log store_at_start = empty_log []" "so_order store_at_start = []"
    by (simp_all add: store_at_start_def empty_store_def)
  have st: "jb_state made_state = job_running" "jb_incidents made_state = []" "jb_notepad made_state = []"
    by (simp_all add: made_state_def no_job_state_def)
  show "store_move example_machine False store_at_start made_store"
    using a_new_job[of store_at_start "''Tidy the build''" made_keeper made_log example_machine made_keeper made_log made_state n
        "snd (log_append made_log (state_event_of ''1'' (snapshot_event made_state)))" False] k lg st
    by (simp add: start one made_store_def max_jobs_def)
qed

theorem restart_gives_the_jobs_back_witness:
  "\<exists>s' h'. rebuild (empty_store 8 (so_log made_store) no_claims) = (Inr (), s') \<and> so_held s' ''1'' = Some h'
    \<and> (hj_state h')\<lparr>jb_notepad := []\<rparr> = json_state made_state"
proof -
  let ?h = "\<lparr>hj_keeper = made_keeper, hj_state = made_state\<rparr>"
  have held: "so_held made_store ''1'' = Some ?h" by (simp add: made_store_def)
  have "lg_answers (so_log made_store) = [] \<and> \<not> kp_unsaved made_keeper
    \<and> carried (start_of_job ''1'' ?h) (kp_record made_keeper) \<and> few_events (start_of_job ''1'' ?h) (so_log made_store)"
    by code_simp
  then have "can_be_read_back made_store"
    by (simp add: can_be_read_back_def) (simp add: made_store_def store_at_start_def empty_store_def)
  from restart_gives_the_jobs_back[OF made_run this, of 8 no_claims] show ?thesis using held by fastforce
qed

section \<open>Schedules and waits\<close>

text \<open>A schedule that is taken can be asked for its next moment at any time, and the answer is none or a
  later one.\<close>

theorem schedules_move_on:
  assumes "check_the_schedule m (Some sc) = Inr ()" "cron_moves_on m"
  shows "\<exists>t. next_run m sc now = Inr t \<and> (t = 0 \<or> now < t)"
  using checked_schedule_runs[OF assms(1)] next_run_later[OF _ assms(2)] by blast

theorem schedules_move_on_witness:
  "\<exists>t. next_run example_machine \<lparr>sc_kind = schedule_cron, sc_at = 0, sc_every = 0, sc_cron = ''@hourly'', sc_timezone = ''Europe/Berlin''\<rparr> nine
     = Inr t \<and> (t = 0 \<or> nine < t)"
  by (rule schedules_move_on[OF _ example_cron]) code_simp

text \<open>C36: after a failed tick the next one is never earlier than the schedule says nor than the backoff allows;
  the backoff is at least half a minute and at most an hour, and more failures never make it shorter.\<close>

theorem failed_tick_is_held_back:
  assumes "next_run m sc now = Inr f" "1 \<le> failures" "failures \<le> many"
  shows "\<exists>following wait. after_a_failed_tick m sc now failures = Inr (following, wait)
    \<and> (if f = 0 then following = 0 else f \<le> following \<and> now + wait \<le> following \<and> (following = f \<or> following = now + wait))
    \<and> 30 * one_second \<le> wait \<and> wait \<le> one_hour \<and> wait \<le> next_backoff many"
  using after_a_failed_tick_is[OF assms(1), of failures] next_backoff_range[of failures]
    next_backoff_climbs[OF assms(3)] assms(2) by (simp add: max_def)

theorem failed_tick_is_held_back_witness:
  "\<exists>next wait. after_a_failed_tick example_machine
      \<lparr>sc_kind = schedule_cron, sc_at = 0, sc_every = 0, sc_cron = ''@hourly'', sc_timezone = []\<rparr> nine 2 = Inr (next, wait)
    \<and> nine + wait \<le> next"
proof -
  have f: "next_run example_machine \<lparr>sc_kind = schedule_cron, sc_at = 0, sc_every = 0, sc_cron = ''@hourly'', sc_timezone = []\<rparr> nine
      = Inr (nine + one_hour)" by code_simp
  show ?thesis using failed_tick_is_held_back[OF f, of 2 5] by (auto simp: nine_def duration_defs split: if_splits)
qed



section \<open>Notes\<close>

text \<open>Whatever is noted, the notepad is at most sixteen kibibytes and is an end of what it was with the note
  behind it, so it is the oldest that goes.\<close>

theorem notepad_keeps_the_newest:
  "length (append_to_notepad notepad said) \<le> 16384 \<and> suffix (append_to_notepad notepad said) (notepad @ said @ [newline])"
  using within_the_cap_is[of "notepad @ said @ [newline]"] by (simp add: append_to_notepad_def notepad_bytes_def)

section \<open>What a job may not be told\<close>



text \<open>A text whose commands name none of the programs on the list, not even as a word that is not the first, is
  taken.\<close>

theorem plain_work_is_taken:
  assumes "\<forall>segment \<in> set (command_segments work). snd (command_tokens u segment)
      \<and> (\<forall>w \<in> set (plain_words u segment). guard_program w \<notin> rf_program ` set refused_work)"
  shows "check_it_cannot_restart_the_agent u work = Inr ()"
  using work_without_them_is_taken[of work u] assms by blast

theorem plain_work_is_taken_witness:
  "check_it_cannot_restart_the_agent plain_tables ''make test; write up the restart of it'' = Inr ()"
proof (rule plain_work_is_taken)
  have "list_all (\<lambda>segment. snd (command_tokens plain_tables segment)
      \<and> list_all (\<lambda>w. \<not> List.member (map rf_program refused_work) (guard_program w)) (plain_words plain_tables segment))
    (command_segments ''make test; write up the restart of it'')" by code_simp
  then show "\<forall>segment \<in> set (command_segments ''make test; write up the restart of it''). snd (command_tokens plain_tables segment)
      \<and> (\<forall>w \<in> set (plain_words plain_tables segment). guard_program w \<notin> rf_program ` set refused_work)"
    by (auto simp: list_all_iff)
qed


end
