(* ===== verification/Loop_Types.thy ===== *)
theory Loop_Types
  imports Permission_Types Job_Notes "HOL-Library.Char_ord" "HOL-Library.List_Lexorder"
begin

text \<open>
  What the loop holds of a call of a tool: \<open>ToolCall\<close>, \<open>ToolResult\<close> and \<open>Message\<close> of
  \<open>internal/contract/model.go\<close>, reading a field of a call's arguments (\<open>situation.go\<close>,
  \<open>toolline.go\<close> of \<open>internal/loop\<close>), and the form of the arguments in which two calls are the same
  one (\<open>guard.go\<close>). How a JSON number is written once it is read as a float is a parameter, none when
  it is out of range.
\<close>

section \<open>Calls and messages\<close>

record tool_call =
  tc_id :: string
  tc_name :: string
  tc_input :: string

record tool_result =
  tt_call :: string
  tt_label :: string
  tt_text :: string
  tt_failed :: bool
  tt_picture :: string

type_synonym chat_role = string

definition role_user :: chat_role where "role_user = ''user''"
definition role_assistant :: chat_role where "role_assistant = ''assistant''"

record chat_message =
  cm_role :: chat_role
  cm_text :: string
  cm_calls :: "tool_call list"
  cm_results :: "tool_result list"

definition said_to_the_model :: "string \<Rightarrow> chat_message" where
  "said_to_the_model said = \<lparr>cm_role = role_user, cm_text = said, cm_calls = [], cm_results = []\<rparr>"

section \<open>Fields of the arguments\<close>

definition field_of_call :: "tool_call \<Rightarrow> string \<Rightarrow> string" where
  "field_of_call call name =
     (case json_members (tc_input call) of
        None \<Rightarrow> []
      | Some members \<Rightarrow> (case json_member members name of Some (JString said) \<Rightarrow> said | _ \<Rightarrow> []))"

text \<open>What follows a value whose text is known to be JSON, with the number of brackets that are open.\<close>

function value_rest :: "nat \<Rightarrow> string \<Rightarrow> string" where
  "value_rest depth [] = []"
| "value_rest depth (c # s) =
     (if is_json_space c then value_rest depth s
      else case read_token c s of
             None \<Rightarrow> []
           | Some (k, rest) \<Rightarrow>
               let open_now = (if k = LBrace \<or> k = LBracket then depth + 1
                               else if k = RBrace \<or> k = RBracket then depth - 1 else depth)
               in if open_now = 0 then rest else value_rest open_now rest)"
  by pat_completeness auto
termination
  by (relation "measure (\<lambda>(depth, s). length s)") (auto dest: read_token_shorter simp: less_Suc_eq_le)

lemma value_rest_length: "length (value_rest depth s) \<le> length s"
proof (induction depth s rule: value_rest.induct)
  case (2 depth c s)
  then show ?case
    by (fastforce simp: Let_def dest: read_token_shorter split: option.splits prod.splits)
qed simp

text \<open>The members of an object as \<open>json.RawMessage\<close> holds them, from behind its bracket.\<close>

definition past_spaces :: "string \<Rightarrow> string" where
  "past_spaces = dropWhile is_json_space"

lemma past_spaces_length: "length (past_spaces s) \<le> length s"
  by (simp add: past_spaces_def length_dropWhile_le)

function raw_from :: "string \<Rightarrow> (string \<times> string) list" where
  "raw_from s =
     (case past_spaces s of
        [] \<Rightarrow> []
      | c # t \<Rightarrow>
          if c \<noteq> CHR 0x22 then []
          else (case read_string t of
                  None \<Rightarrow> []
                | Some (name, u) \<Rightarrow>
                    let v = past_spaces (drop 1 (past_spaces u)); rest = value_rest 0 v;
                        after = past_spaces rest
                    in (name, take (length v - length rest) v)
                       # (if take 1 after = '','' then raw_from (drop 1 after) else [])))"
  by pat_completeness auto
termination
proof (relation "measure length")
  fix s c t p name u v rest after
  assume "past_spaces s = c # t" "read_string t = Some p" "(name, u) = p" "v = past_spaces (drop 1 (past_spaces u))"
    "rest = value_rest 0 v" "after = past_spaces rest"
  then have "length (drop 1 after) \<le> length rest" "length rest \<le> length v" "length v \<le> length u" "length u < length t"
    "length t < length s"
    using past_spaces_length[of rest] value_rest_length[of 0 v] past_spaces_length[of "drop 1 (past_spaces u)"]
      past_spaces_length[of u] past_spaces_length[of s]
    by (auto simp: read_string_def dest: string_rest_shorter)
  then show "(drop 1 after, s) \<in> measure length" by simp
qed simp

declare raw_from.simps [simp del]

definition raw_members :: "string \<Rightarrow> (string \<times> string) list option" where
  "raw_members input = (case json_members input of None \<Rightarrow> None | Some _ \<Rightarrow> Some (raw_from (drop 1 (past_spaces input))))"

definition plain_text :: "string \<Rightarrow> string" where
  "plain_text raw = (case read_json raw of Some (JString said) \<Rightarrow> said | Some JNull \<Rightarrow> [] | _ \<Rightarrow> raw)"

definition arguments_that_say_what :: "string list" where
  "arguments_that_say_what = [''command'', ''path'', ''pattern'', ''url'', ''query'', ''intent'', ''name'', ''id'']"

definition names_written :: "(string \<times> string) list \<Rightarrow> string list" where
  "names_written written = sort (remdups (map fst written))"

definition what_the_call_says :: "tool_call \<Rightarrow> string" where
  "what_the_call_says call =
     (case raw_members (tc_input call) of
        None \<Rightarrow> []
      | Some written \<Rightarrow>
          (case find (\<lambda>name. map_of (rev written) name \<noteq> None) arguments_that_say_what of
             Some name \<Rightarrow> in_one_line (plain_text (the (map_of (rev written) name)))
           | None \<Rightarrow> join '' '' (names_written written)))"

section \<open>JSON written\<close>

definition hex_letter :: "nat \<Rightarrow> char" where
  "hex_letter d = (if d < 10 then digit_char d else char_of (87 + d))"

definition unit_escape :: "nat \<Rightarrow> string" where
  "unit_escape n = [CHR 0x5C, CHR ''u'', hex_letter (n div 4096 mod 16), hex_letter (n div 256 mod 16),
     hex_letter (n div 16 mod 16), hex_letter (n mod 16)]"

text \<open>One rune of a text, with its bytes: quotes, backslashes, control characters and the characters of
  HTML are escaped, and so are U+2028, U+2029 and a byte that is part of no rune.\<close>

definition rune_written :: "nat \<times> string \<Rightarrow> string" where
  "rune_written rb =
     (case rb of (r, bytes) \<Rightarrow>
        if r = 34 \<or> r = 92 then CHR 0x5C # bytes
        else if r = 8 then [CHR 0x5C, CHR ''b''] else if r = 12 then [CHR 0x5C, CHR ''f'']
        else if r = 10 then [CHR 0x5C, CHR ''n''] else if r = 13 then [CHR 0x5C, CHR ''r'']
        else if r = 9 then [CHR 0x5C, CHR ''t'']
        else if r < 32 \<or> r = 60 \<or> r = 62 \<or> r = 38 \<or> r = 8232 \<or> r = 8233 then unit_escape r
        else if r = replacement \<and> length bytes = 1 then unit_escape r
        else bytes)"

definition text_written :: "string \<Rightarrow> string" where
  "text_written s = [CHR 0x22] @ concat (map rune_written (rune_chunks s)) @ [CHR 0x22]"

fun json_written :: "(string \<Rightarrow> string option) \<Rightarrow> json \<Rightarrow> string"
  and items_written :: "(string \<Rightarrow> string option) \<Rightarrow> json list \<Rightarrow> string list"
  and members_written :: "(string \<Rightarrow> string option) \<Rightarrow> (string \<times> json) list \<Rightarrow> (string \<times> string) list" where
  "json_written num JNull = ''null''"
| "json_written num (JBool b) = (if b then ''true'' else ''false'')"
| "json_written num (JNumber n) = (case num n of None \<Rightarrow> [] | Some t \<Rightarrow> t)"
| "json_written num (JString s) = text_written s"
| "json_written num (JArray vs) = ''['' @ join '','' (items_written num vs) @ '']''"
| "json_written num (JObject kvs) =
     (let written = members_written num kvs in
      ''{'' @ join '','' (map (\<lambda>name. text_written name @ '':'' @ the (map_of (rev written) name))
        (sort (remdups (map fst written)))) @ ''}'')"
| "items_written num [] = []"
| "items_written num (v # vs) = json_written num v # items_written num vs"
| "members_written num [] = []"
| "members_written num ((name, v) # kvs) = (name, json_written num v) # members_written num kvs"

text \<open>Every number can be read as a float.\<close>

fun numbers_read :: "(string \<Rightarrow> string option) \<Rightarrow> json \<Rightarrow> bool"
  and all_numbers_read :: "(string \<Rightarrow> string option) \<Rightarrow> json list \<Rightarrow> bool"
  and member_numbers_read :: "(string \<Rightarrow> string option) \<Rightarrow> (string \<times> json) list \<Rightarrow> bool" where
  "numbers_read num (JNumber n) \<longleftrightarrow> num n \<noteq> None"
| "numbers_read num (JArray vs) \<longleftrightarrow> all_numbers_read num vs"
| "numbers_read num (JObject kvs) \<longleftrightarrow> member_numbers_read num kvs"
| "numbers_read num _ \<longleftrightarrow> True"
| "all_numbers_read num [] \<longleftrightarrow> True"
| "all_numbers_read num (v # vs) \<longleftrightarrow> numbers_read num v \<and> all_numbers_read num vs"
| "member_numbers_read num [] \<longleftrightarrow> True"
| "member_numbers_read num ((name, v) # kvs) \<longleftrightarrow> numbers_read num v \<and> member_numbers_read num kvs"

section \<open>Which calls are the same\<close>

definition the_fields_that_say_why :: "string list" where
  "the_fields_that_say_why = [''intent'', ''why'', ''goal'', ''expectation'', ''reason'']"

fun without_the_why :: "json \<Rightarrow> json" where
  "without_the_why (JObject kvs) = JObject (filter (\<lambda>(name, _). name \<notin> set the_fields_that_say_why) kvs)"
| "without_the_why v = v"

definition canonical_arguments :: "(string \<Rightarrow> string option) \<Rightarrow> string \<Rightarrow> string" where
  "canonical_arguments num arguments =
     (case read_json arguments of
        None \<Rightarrow> trim_space arguments
      | Some held \<Rightarrow>
          if numbers_read num held then json_written num (without_the_why held) else trim_space arguments)"

definition fingerprint_of :: "(string \<Rightarrow> string option) \<Rightarrow> tool_call \<Rightarrow> string" where
  "fingerprint_of num call = tc_name call @ [CHR 0x00] @ canonical_arguments num (tc_input call)"

text \<open>
  The form does not depend on the order of the members, on members written over, nor on those that only say why.
\<close>

lemma members_written_fst: "map fst (members_written num kvs) = map fst kvs"
  by (induction kvs) auto

lemma members_written_of: "map_of (rev (members_written num kvs)) name = map_option (json_written num) (map_of (rev kvs) name)"
  by (induction kvs) (auto simp: map_add_def split: option.splits)

lemma object_written_same:
  assumes "map_of (rev kvs) = map_of (rev kvs')"
  shows "json_written num (JObject kvs) = json_written num (JObject kvs')"
proof -
  have "set (map fst kvs) = set (map fst kvs')"
    using assms by (metis dom_map_of_conv_image_fst image_set set_rev)
  then have "sort (remdups (map fst kvs)) = sort (remdups (map fst kvs'))"
    by (metis sorted_list_of_set_sort_remdups)
  then show ?thesis using assms by (simp add: Let_def members_written_fst members_written_of)
qed

lemma same_arguments:
  assumes "read_json a = Some (JObject kvs)" "read_json b = Some (JObject kvs')"
    "numbers_read num (JObject kvs)" "numbers_read num (JObject kvs')"
    "\<forall>name. name \<notin> set the_fields_that_say_why \<longrightarrow> json_member kvs name = json_member kvs' name"
  shows "canonical_arguments num a = canonical_arguments num b"
proof -
  have filtered: "map_of (rev (filter (\<lambda>(name, _). name \<notin> W) xs)) name = (if name \<in> W then None else map_of (rev xs) name)"
    for xs :: "(string \<times> json) list" and W name
    by (induction xs) (auto simp: map_add_def split: option.splits)
  have "map_of (rev (filter (\<lambda>(name, _). name \<notin> set the_fields_that_say_why) kvs))
      = map_of (rev (filter (\<lambda>(name, _). name \<notin> set the_fields_that_say_why) kvs'))"
    using assms(5) by (intro ext) (simp only: filtered, simp add: json_member_def)
  from object_written_same[OF this] show ?thesis using assms(1-4) by (simp add: canonical_arguments_def)
qed

end
