(* ===== verification/Loop_Guards.thy ===== *)
theory Loop_Guards
  imports Loop_Types
begin

text \<open>
  What keeps the model from going round in circles: the detector of identical calls (\<open>guard.go\<close>), the
  detector of one result that keeps coming back (\<open>samewall.go\<close>, \<open>resultnorm.go\<close>) and the calls a
  rethink closed (\<open>closedcalls.go\<close>), each over the part of the run it keeps. The counts of a task stay far
  below 64 bits and are numbers here.
\<close>

record loop_machine =
  lm_unicode :: unicode_tables
  lm_sha256 :: "string \<Rightarrow> string"
  lm_number :: "string \<Rightarrow> string option"
  lm_printable :: "nat \<Rightarrow> bool"
  lm_window :: nat

definition mark_of :: "loop_machine \<Rightarrow> tool_call \<Rightarrow> string" where
  "mark_of m call = fingerprint_of (lm_number m) call"

section \<open>Identical calls\<close>

definition identical_calls_allowed :: nat where "identical_calls_allowed = 2"
definition rewinds_allowed :: nat where "rewinds_allowed = 3"
definition same_call_hard_cap :: nat where "same_call_hard_cap = 6"

record past_call =
  pc_mark :: string
  pc_result :: string

definition same_call_run :: "string \<Rightarrow> past_call list \<Rightarrow> nat" where
  "same_call_run mark recent = length (takeWhile (\<lambda>past. pc_mark past = mark) (rev recent))"

definition newest_answer_to :: "string \<Rightarrow> past_call list \<Rightarrow> string" where
  "newest_answer_to mark recent =
     (case find (\<lambda>past. pc_mark past = mark \<and> pc_result past \<noteq> []) (rev recent) of
        None \<Rightarrow> [] | Some past \<Rightarrow> pc_result past)"

text \<open>
  The count of the first rule: the streak so far, what came back between the last two repeats (empty when
  nothing did), what came back since the last one, and whether one was seen at all.
\<close>

type_synonym streak = "nat \<times> string list \<times> string list \<times> bool"

definition after_past_call :: "string \<Rightarrow> string \<Rightarrow> streak \<Rightarrow> past_call \<Rightarrow> streak" where
  "after_past_call mark newest so_far past =
     (case so_far of (streak, previous, cycle, seen) \<Rightarrow>
        if pc_mark past = mark \<and> (pc_result past = [] \<or> pc_result past = newest)
        then (if \<not> seen then 1 else if previous = [] \<or> cycle = [] \<or> cycle = previous then streak + 1 else 1,
              cycle, [], True)
        else if seen then (streak, previous, cycle @ [pc_result past], True)
        else so_far)"

definition same_result_streak :: "string \<Rightarrow> past_call list \<Rightarrow> nat" where
  "same_result_streak mark recent =
     (case foldl (after_past_call mark (newest_answer_to mark recent)) (0, [], [], False) recent of
        (streak, previous, cycle, seen) \<Rightarrow>
          if \<not> seen then 0
          else if previous \<noteq> [] \<and> cycle \<noteq> [] \<and> cycle \<noteq> previous then 0
          else streak)"

definition remember_call :: "nat \<Rightarrow> string \<Rightarrow> past_call list \<Rightarrow> past_call list" where
  "remember_call window mark recent =
     (let grown = recent @ [\<lparr>pc_mark = mark, pc_result = []\<rparr>]
      in if window < length grown then drop (length grown - window) grown else grown)"

definition fingerprint_of_text :: "loop_machine \<Rightarrow> string \<Rightarrow> string" where
  "fingerprint_of_text m said = lm_sha256 m said"

definition note_the_result :: "loop_machine \<Rightarrow> string \<Rightarrow> past_call list \<Rightarrow> past_call list" where
  "note_the_result m said recent =
     (if recent = [] then [] else butlast recent @ [(last recent)\<lparr>pc_result := fingerprint_of_text m said\<rparr>])"

text \<open>The words to send back, empty when the call may run, and whether the turn has to end.\<close>

definition detector_refuses :: "loop_machine \<Rightarrow> tool_call \<Rightarrow> past_call list \<Rightarrow> (string \<times> bool) \<times> past_call list" where
  "detector_refuses m call recent =
     (let mark = mark_of m call; streak = same_result_streak mark recent; made = same_call_run mark recent in
      (if identical_calls_allowed < streak \<or> same_call_hard_cap + 1 < made
       then (''You have asked for '' @ tc_name call @ '' with the same arguments '' @ itoa (int made + 1)
               @ '' times in a row, so the turn ends here.'', True)
       else if streak = identical_calls_allowed
       then (''You have already called '' @ tc_name call @ '' with these exact arguments '' @ itoa (int streak)
               @ '' times, and it was not run again. Do something different, or answer the user.'', False)
       else if same_call_hard_cap \<le> made
       then (''You have already called '' @ tc_name call @ '' with these exact arguments '' @ itoa (int made)
               @ '' times, and it was not run again. ''
               @ ''The answers differed, but they did not change what you did next. Do something different, or answer the user: ''
               @ ''if you are waiting for something to finish, wait longer before asking again, and if the answer is already in front of you, read the result you already have.'', False)
       else ([], False),
       remember_call (lm_window m) mark recent))"

section \<open>Results that differ only in when they came\<close>

text \<open>
  The five patterns, each as the number of bytes a match at this place takes beyond its first one. The first
  argument is the byte before; a word boundary is one of ASCII.
\<close>

definition word_byte :: "char \<Rightarrow> bool" where
  "word_byte c \<longleftrightarrow> is_digit c \<or> (65 \<le> byte c \<and> byte c \<le> 90) \<or> (97 \<le> byte c \<and> byte c \<le> 122) \<or> c = CHR ''_''"

definition not_in_a_word :: "char option \<Rightarrow> bool" where
  "not_in_a_word ahead \<longleftrightarrow> (case ahead of None \<Rightarrow> True | Some c \<Rightarrow> \<not> word_byte c)"

definition ends_a_word :: "string \<Rightarrow> bool" where
  "ends_a_word after \<longleftrightarrow> (case after of [] \<Rightarrow> True | c # _ \<Rightarrow> \<not> word_byte c)"

definition pattern_space :: "char \<Rightarrow> bool" where
  "pattern_space c \<longleftrightarrow> c = CHR '' '' \<or> byte c = 9 \<or> byte c = 10 \<or> byte c = 12 \<or> byte c = 13"

definition two_digits_at :: "string \<Rightarrow> bool" where
  "two_digits_at s \<longleftrightarrow> 2 \<le> length s \<and> list_all is_digit (take 2 s)"

text \<open>\<open>\b\d{1,2}:\d{2}:\d{2}(\.\d+)?\b\<close>\<close>

definition clock_time :: "char option \<Rightarrow> string \<Rightarrow> nat option" where
  "clock_time ahead s =
     (let hours = length (takeWhile is_digit s); minutes = drop (hours + 1) s; seconds = drop 3 minutes;
          rest = drop 2 seconds; decimals = takeWhile is_digit (drop 1 rest)
      in if not_in_a_word ahead \<and> (hours = 1 \<or> hours = 2) \<and> take 1 (drop hours s) = '':'' \<and> two_digits_at minutes
           \<and> take 1 (drop 2 minutes) = '':'' \<and> two_digits_at seconds
         then (if take 1 rest = ''.'' \<and> decimals \<noteq> [] \<and> ends_a_word (drop (length decimals + 1) rest)
               then Some (hours + 6 + length decimals)
               else if ends_a_word rest then Some (hours + 5) else None)
         else None)"

text \<open>A name, some space, and a number up to the end of a word.\<close>

definition named_number :: "string \<Rightarrow> (char \<Rightarrow> bool) \<Rightarrow> string \<Rightarrow> nat option" where
  "named_number name space s =
     (case cut_prefix s name of
        None \<Rightarrow> None
      | Some rest \<Rightarrow>
          let spaces = takeWhile space rest; digits = takeWhile is_digit (drop (length spaces) rest);
              all = length name + length spaces + length digits
          in if spaces \<noteq> [] \<and> digits \<noteq> [] \<and> ends_a_word (drop all s) then Some (all - 1) else None)"

definition process_number :: "char option \<Rightarrow> string \<Rightarrow> nat option" where
  "process_number ahead s =
     (if \<not> not_in_a_word ahead then None
      else case named_number ''pid'' pattern_space s of
        Some n \<Rightarrow> Some n
      | None \<Rightarrow> (case named_number ''process id'' pattern_space s of
          Some n \<Rightarrow> Some n | None \<Rightarrow> named_number ''process'' pattern_space s))"

definition devtools_port :: "char option \<Rightarrow> string \<Rightarrow> nat option" where
  "devtools_port ahead s =
     (if not_in_a_word ahead
      then (case cut_prefix s ''DevTools port '' of
              None \<Rightarrow> None
            | Some rest \<Rightarrow>
                let digits = takeWhile is_digit rest
                in if digits \<noteq> [] \<and> ends_a_word (drop (length digits) rest) then Some (13 + length digits) else None)
      else None)"

definition hex_address :: "char option \<Rightarrow> string \<Rightarrow> nat option" where
  "hex_address ahead s =
     (case cut_prefix s ''0x'' of
        None \<Rightarrow> None
      | Some rest \<Rightarrow>
          let digits = takeWhile (\<lambda>c. hex_value c \<noteq> None) rest
          in if 3 \<le> length digits then Some (1 + length digits) else None)"

definition temporary_path :: "char option \<Rightarrow> string \<Rightarrow> nat option" where
  "temporary_path ahead s =
     (case cut_prefix s ''/tmp/'' of
        None \<Rightarrow> None
      | Some rest \<Rightarrow>
          let name = takeWhile (\<lambda>c. \<not> pattern_space c) rest
          in if name \<noteq> [] then Some (4 + length name) else None)"

definition volatile_patterns :: "(char option \<Rightarrow> string \<Rightarrow> nat option) list" where
  "volatile_patterns = [clock_time, process_number, devtools_port, hex_address, temporary_path]"

text \<open>\<open>ReplaceAllString\<close> with a space: the matches from the left, none over another.\<close>

function matches_out :: "(char option \<Rightarrow> string \<Rightarrow> nat option) \<Rightarrow> char option \<Rightarrow> string \<Rightarrow> string" where
  "matches_out pattern ahead [] = []"
| "matches_out pattern ahead (c # s) =
     (case pattern ahead (c # s) of
        None \<Rightarrow> c # matches_out pattern (Some c) s
      | Some n \<Rightarrow> CHR '' '' # matches_out pattern (Some (if n = 0 \<or> length s < n then c else s ! (n - 1))) (drop n s))"
  by pat_completeness auto
termination
  by (relation "measure (\<lambda>(pattern, ahead, s). length s)") auto

definition normalize_volatile :: "string \<Rightarrow> string" where
  "normalize_volatile said = foldl (\<lambda>s pattern. matches_out pattern None s) said volatile_patterns"

definition normalized_fingerprint :: "loop_machine \<Rightarrow> string \<Rightarrow> string" where
  "normalized_fingerprint m said = lm_sha256 m (normalize_volatile said)"

section \<open>The same wall\<close>

definition same_wall_window :: nat where "same_wall_window = 24"
definition same_wall_recurrences :: nat where "same_wall_recurrences = 6"

record walled_result =
  wr_mark :: string
  wr_fingerprint :: string

definition note_on_the_wall :: "loop_machine \<Rightarrow> string \<Rightarrow> string \<Rightarrow> walled_result list \<Rightarrow> walled_result list" where
  "note_on_the_wall m mark said recent =
     (let grown = recent @ [\<lparr>wr_mark = mark, wr_fingerprint = normalized_fingerprint m said\<rparr>]
      in if same_wall_window < length grown then drop (length grown - same_wall_window) grown else grown)"

definition wall_key :: "walled_result \<Rightarrow> string" where
  "wall_key past = wr_mark past @ [CHR 0x00] @ wr_fingerprint past"

fun wall_hit_from :: "(string \<Rightarrow> nat) \<Rightarrow> walled_result list \<Rightarrow> string option" where
  "wall_hit_from counts [] = None"
| "wall_hit_from counts (past # rest) =
     (let seen = counts (wall_key past) + 1 in
      if same_wall_recurrences \<le> seen then Some (wr_mark past)
      else wall_hit_from (counts(wall_key past := seen)) rest)"

definition wall_hit :: "walled_result list \<Rightarrow> string option" where
  "wall_hit recent = wall_hit_from (\<lambda>_. 0) recent"

definition is_a_poll_or_tail :: "tool_call \<Rightarrow> bool" where
  "is_a_poll_or_tail call \<longleftrightarrow> tc_name call = tool_shell \<and> field_of_call call ''action'' \<in> {''poll'', ''tail''}"

section \<open>Closed calls\<close>

definition closed_for_rounds :: nat where "closed_for_rounds = 10"

record closed_call =
  cc_reopens_at :: nat
  cc_label :: string

type_synonym closed_calls = "string \<Rightarrow> closed_call option"

definition still_closed :: "nat \<Rightarrow> closed_calls \<Rightarrow> closed_calls" where
  "still_closed rounds closed mark =
     (case closed mark of None \<Rightarrow> None | Some c \<Rightarrow> if cc_reopens_at c \<le> rounds then None else Some c)"

definition close_the_call :: "nat \<Rightarrow> string \<Rightarrow> string \<Rightarrow> closed_calls \<Rightarrow> closed_calls" where
  "close_the_call rounds mark label closed =
     (if mark = [] then closed
      else (still_closed rounds closed)(mark := Some \<lparr>cc_reopens_at = rounds + closed_for_rounds + 1, cc_label = label\<rparr>))"

definition the_closed_line :: "loop_machine \<Rightarrow> nat \<Rightarrow> closed_calls \<Rightarrow> tool_call \<Rightarrow> string" where
  "the_closed_line m rounds closed call =
     (case closed (mark_of m call) of
        None \<Rightarrow> []
      | Some c \<Rightarrow>
          if cc_reopens_at c \<le> rounds then []
          else if cc_label c = [] then ''You already have that. Do the Next line of your rethink instead.''
          else ''You already have that; it is on the record as '' @ cc_label c @ ''. Do the Next line of your rethink instead.'')"

text \<open>The newest call that is not the task's own test run.\<close>

definition the_mark_to_close :: "loop_machine \<Rightarrow> string \<Rightarrow> tool_call list \<Rightarrow> string" where
  "the_mark_to_close m test_command calls =
     (case find (\<lambda>call. \<not> (tc_name call = tool_shell \<and> test_command \<noteq> []
             \<and> field_of_call call ''command'' = test_command)) (rev calls) of
        None \<Rightarrow> [] | Some call \<Rightarrow> mark_of m call)"

section \<open>Walls a browser runs into\<close>

definition harness_stop_line_wall :: string where
  "harness_stop_line_wall =
     ''the harness's own line: a browser page showed a login form, a two-factor prompt, or a captcha''"

definition wall_words :: "string list" where
  "wall_words = [''login page'', ''log in page'', ''sign in page'', ''captcha'', ''two-factor'', ''two factor'']"

definition stop_line_about_the_wall :: "loop_machine \<Rightarrow> string list \<Rightarrow> string" where
  "stop_line_about_the_wall m stop_when =
     (case find (\<lambda>line. list_ex (contains_text (to_lower (lm_unicode m) line)) wall_words) stop_when of
        None \<Rightarrow> [] | Some line \<Rightarrow> line)"

definition stop_line_fired_by :: "loop_machine \<Rightarrow> string list \<Rightarrow> string \<Rightarrow> string \<Rightarrow> string" where
  "stop_line_fired_by m stop_when tool said =
     (if cut_prefix tool ''browser'' = None then []
      else if \<not> list_ex (contains_text (to_lower (lm_unicode m) said)) wall_words then []
      else if stop_line_about_the_wall m stop_when \<noteq> [] then stop_line_about_the_wall m stop_when
      else harness_stop_line_wall)"

end
