(* ===== verification/Loop_Rethink.thy ===== *)
theory Loop_Rethink
  imports Loop_Guards Keeper_Changes
begin

text \<open>
  The conversation of a task (\<open>window.go\<close>, \<open>picture.go\<close>) and the words of a rethink (\<open>rethink.go\<close>):
  reading the answer by its labels, holding its causes against the failures of the record, and the
  background the question is asked over.
\<close>

section \<open>The conversation\<close>

definition max_messages_kept :: nat where "max_messages_kept = 200"
definition max_pictures_shown :: nat where "max_pictures_shown = 2"

text \<open>From the newest: so many pictures are kept, and every older one goes.\<close>

fun pictures_of_results :: "nat \<Rightarrow> tool_result list \<Rightarrow> nat \<times> tool_result list" where
  "pictures_of_results seen [] = (seen, [])"
| "pictures_of_results seen (r # older) =
     (if tt_picture r = [] then (let (k, rs) = pictures_of_results seen older in (k, r # rs))
      else if seen < max_pictures_shown then (let (k, rs) = pictures_of_results (seen + 1) older in (k, r # rs))
      else (let (k, rs) = pictures_of_results seen older in (k, r\<lparr>tt_picture := []\<rparr> # rs)))"

fun pictures_of_messages :: "nat \<Rightarrow> chat_message list \<Rightarrow> chat_message list" where
  "pictures_of_messages seen [] = []"
| "pictures_of_messages seen (msg # older) =
     (let (k, rs) = pictures_of_results seen (rev (cm_results msg))
      in msg\<lparr>cm_results := rev rs\<rparr> # pictures_of_messages k older)"

definition keep_the_newest_pictures :: "chat_message list \<Rightarrow> chat_message list" where
  "keep_the_newest_pictures messages = rev (pictures_of_messages 0 (rev messages))"

definition remember_message :: "chat_message \<Rightarrow> chat_message list \<Rightarrow> chat_message list" where
  "remember_message msg messages =
     (if cm_text msg = [] \<and> cm_calls msg = [] \<and> cm_results msg = [] then messages
      else keep_the_newest_pictures (messages @ [msg]))"

definition window_is_full :: "chat_message list \<Rightarrow> bool" where
  "window_is_full messages \<longleftrightarrow> max_messages_kept < length messages"

section \<open>Lines\<close>

definition first_line :: "string \<Rightarrow> string" where
  "first_line said =
     (case find (\<lambda>line. line \<noteq> []) (map trim_space (split_on [newline] said)) of None \<Rightarrow> [] | Some line \<Rightarrow> line)"

text \<open>The most bytes that end on a whole letter, and how much was cut.\<close>

fun whole_letters_before :: "string \<Rightarrow> nat \<Rightarrow> nat" where
  "whole_letters_before said 0 = 0"
| "whole_letters_before said (Suc n) = (if rune_start (said ! Suc n) then Suc n else whole_letters_before said n)"

definition cut_to_bytes :: "string \<Rightarrow> nat \<Rightarrow> string" where
  "cut_to_bytes said most =
     (if length said \<le> most then said
      else let most_whole = whole_letters_before said most
           in take most_whole said @ [newline] @ ''[cut here: the result is '' @ itoa (int (length said))
                @ '' bytes long and the first '' @ itoa (int most_whole) @ '' are shown]'')"

section \<open>The question and its answer\<close>

definition the_rethink_question :: string where
  "the_rethink_question = join [newline]
     [''The work has stalled, so the tools are off for this one reply. Answer in five lines, each beginning with its label:'',
      ''Learning: what you were trying to learn.'',
      ''Showed: what the last rounds actually showed.'',
      ''Symptom: the symptom, in one line.'',
      ''Causes: two different causes that could explain it, neither one already written as a failure's cause on the record.'',
      ''Next: the one cheapest call that tells those two causes apart, written as something that can be run or read.'']"

definition the_causes_tried_line :: string where
  "the_causes_tried_line = ''Every cause already written as a failure's cause on the record was tried and did not hold.''"

definition the_name_new_causes_line :: string where
  "the_name_new_causes_line = ''name two causes the record does not hold''"

definition the_rethink_line :: string where
  "the_rethink_line = ''The work had stalled, so this is a fresh window on the same task: the block above holds the newest results in full, ''
     @ ''the record holds every step and every result by its id, and \"read r7\" brings any of them back. Here is the rethink you just wrote:''"

definition the_do_the_next_line :: string where "the_do_the_next_line = ''Do the Next line now.''"

record rethink =
  rt_showed :: string
  rt_symptom :: string
  rt_causes :: string
  rt_next :: string

definition ascii_lower :: "string \<Rightarrow> string" where
  "ascii_lower = map (\<lambda>c. if 65 \<le> byte c \<and> byte c \<le> 90 then char_of (byte c + 32) else c)"

definition ascii_upper :: "string \<Rightarrow> string" where
  "ascii_upper = map (\<lambda>c. if 97 \<le> byte c \<and> byte c \<le> 122 then char_of (byte c - 32) else c)"

definition cut_the_label :: "string \<Rightarrow> string \<Rightarrow> string option" where
  "cut_the_label line label =
     (case find (\<lambda>written. cut_prefix line written \<noteq> None)
            [label @ '':'', ascii_lower label @ '':'', ascii_upper label @ '':''] of
        None \<Rightarrow> None
      | Some written \<Rightarrow> map_option (trim_runes (\<lambda>r. r = 42 \<or> r = 32)) (cut_prefix line written))"

definition bare_line :: "string \<Rightarrow> string" where
  "bare_line line = trim_runes (\<lambda>r. r \<in> {42, 35, 45, 95, 32}) (trim_space line)"

text \<open>The first line of a label that says anything; the whole answer when there is none.\<close>

definition under_the_label :: "string \<Rightarrow> string \<Rightarrow> string" where
  "under_the_label answer label =
     (case find (\<lambda>found. found \<noteq> None \<and> found \<noteq> Some [])
            (map (\<lambda>line. cut_the_label (bare_line line) label) (split_on [newline] answer)) of
        Some (Some rest) \<Rightarrow> rest | _ \<Rightarrow> answer)"

definition read_the_rethink :: "string \<Rightarrow> rethink" where
  "read_the_rethink answer =
     \<lparr>rt_showed = under_the_label answer ''Showed'', rt_symptom = under_the_label answer ''Symptom'',
      rt_causes = under_the_label answer ''Causes'', rt_next = under_the_label answer ''Next''\<rparr>"

definition the_cause_separators :: "string list" where
  "the_cause_separators = ['';'', '', or '', '' or '']"

definition the_two_causes :: "string \<Rightarrow> string list" where
  "the_two_causes line =
     filter (\<lambda>piece. piece \<noteq> []) (map trim_space
       (case find (contains_text line) the_cause_separators of
          None \<Rightarrow> [line]
        | Some separator \<Rightarrow> (case cut line separator of (ahead, after, _) \<Rightarrow> [ahead, after])))"

definition the_failures_naming_the_causes :: "unicode_tables \<Rightarrow> failure list \<Rightarrow> string \<Rightarrow> string list \<times> bool" where
  "the_failures_naming_the_causes u failures line =
     (let causes = the_two_causes line; held = map (failure_naming_the_cause u failures) causes in
      if None \<in> set held then ([], False)
      else (map fa_id (filter (\<lambda>f. fa_id f \<in> set (map (fa_id \<circ> the) held)) failures), causes \<noteq> []))"

definition the_labels_in_a_sentence :: "string list \<Rightarrow> string" where
  "the_labels_in_a_sentence labels =
     (if length labels \<le> 1 then join [] labels else join '', '' (butlast labels) @ '' and '' @ last labels)"

definition the_already_say_this_line :: "string list \<Rightarrow> string" where
  "the_already_say_this_line labels =
     the_labels_in_a_sentence labels @ '' already '' @ (if length labels = 1 then ''says'' else ''say'')
       @ '' this; '' @ the_name_new_causes_line"

text \<open>The line of a stopped report with every decision a rethink made.\<close>

definition the_tried_by_rethink_line :: "record_of_work \<Rightarrow> string" where
  "the_tried_by_rethink_line held =
     (let tried = map (\<lambda>d. de_id d @ '' '' @ de_text d)
            (filter (\<lambda>d. cut_prefix (de_text d) ''Rethink:'' \<noteq> None) (l_decisions (r_lessons held)))
      in if tried = [] then [] else ''Tried by rethink: '' @ join ''; '' tried)"

section \<open>What the keepers and the log do for it\<close>

definition max_rethink_result_bytes :: nat where "max_rethink_result_bytes = 16384"
definition newest_results_shown :: nat where "newest_results_shown = 6"

text \<open>A question asked of the model, or any other event of the loop whose body no reader here takes.\<close>

definition plain_body :: event_body where
  "plain_body =
     \<lparr>b_is_json = True, b_checkpoint = Some \<lparr>cp_number = 0, cp_text = [], cp_ask_from = 0\<rparr>,
      b_result = Some \<lparr>sr_id = [], sr_call_id = [], sr_summary = [], sr_text = []\<rparr>,
      b_state = Some no_state_event, b_message = Some []\<rparr>"

definition log_event :: "string \<Rightarrow> event_kind \<Rightarrow> event_log \<Rightarrow> (record_error + int) \<times> event_log" where
  "log_event task kind lg = log_append lg (new_event task kind plain_body)"

definition log_the_question :: "string \<Rightarrow> event_log \<Rightarrow> event_log" where
  "log_the_question task lg = snd (log_event task event_question lg)"

definition the_rethink_background :: "string \<Rightarrow> keeper \<Rightarrow> event_log \<Rightarrow> (string \<times> string) \<times> event_log" where
  "the_rethink_background tests_fact k lg =
     (let held = kp_record k;
          (label, shown, lg') =
            (if w_results (r_work held) = [] then ([], [], lg)
             else let newest = rl_id (last (w_results (r_work held))) in
               (case keeper_read newest k lg of
                  (Inl e, lg1) \<Rightarrow> ([], [], lg1)
                | (Inr said, lg1) \<Rightarrow>
                    (newest, [''The newest result on the record, '' @ newest @ '', in full:'',
                              cut_to_bytes said max_rethink_result_bytes], lg1)))
      in ((label, join [newline] ([''The record as it stands:'', print_whole held] @ shown
             @ (if tests_fact = [] then [] else [''The state of the '' @ tests_fact]) @ [the_causes_tried_line])), lg'))"

fun results_read :: "keeper \<Rightarrow> event_log \<Rightarrow> string list \<Rightarrow> (string \<times> string) list \<times> event_log" where
  "results_read k lg [] = ([], lg)"
| "results_read k lg (label # labels) =
     (case keeper_read label k lg of
        (Inl e, lg1) \<Rightarrow> results_read k lg1 labels
      | (Inr said, lg1) \<Rightarrow> (case results_read k lg1 labels of (rs, lg2) \<Rightarrow> ((label, said) # rs, lg2)))"

definition newest_results :: "keeper \<Rightarrow> event_log \<Rightarrow> (string \<times> string) list \<times> event_log" where
  "newest_results k lg =
     (let labels = map rl_id (w_results (r_work (kp_record k)))
      in results_read k lg (drop (length labels - newest_results_shown) labels))"

end
