(* ===== verification/Test_Runners.thy ===== *)
theory Test_Runners
  imports Loop_Rethink
begin

text \<open>
  The lines test runners print (\<open>teststate.go\<close>, \<open>teststate_scripting.go\<close>, \<open>teststate_cfamily.go\<close>
  of \<open>internal/loop\<close>): each reader takes one trimmed line and the state read so far, and gives the state
  after it and whether the line was one of its runner's. The \<open>int\<close> of Go stays in 64 bits.
\<close>

section \<open>Words and numbers\<close>

definition trim_prefix :: "string \<Rightarrow> string \<Rightarrow> string" where
  "trim_prefix s p = (case cut_prefix s p of None \<Rightarrow> s | Some rest \<Rightarrow> rest)"

definition trim_bytes :: "string \<Rightarrow> string \<Rightarrow> string" where
  "trim_bytes out s = trim_right_bytes (\<lambda>c. c \<in> set out) (dropWhile (\<lambda>c. c \<in> set out) s)"

text \<open>What \<open>strconv.Atoi\<close> gives beside an error: nothing, or the end of the range a number is past.\<close>

definition atoi_whatever :: "string \<Rightarrow> int" where
  "atoi_whatever s =
     (case atoi s of
        Some n \<Rightarrow> n
      | None \<Rightarrow>
          let negative = (s \<noteq> [] \<and> hd s = CHR ''-'');
              digits = (if s \<noteq> [] \<and> (hd s = CHR ''-'' \<or> hd s = CHR ''+'') then tl s else s)
          in if digits = [] \<or> \<not> list_all is_digit digits then 0 else if negative then - max_int - 1 else max_int)"

definition count_read :: "string \<Rightarrow> int" where
  "count_read s = (case atoi s of None \<Rightarrow> 0 | Some n \<Rightarrow> n)"

definition number_after_label :: "string \<Rightarrow> string \<Rightarrow> int" where
  "number_after_label line label =
     (case text_fields (trim_prefix line label) of [] \<Rightarrow> 0 | word # _ \<Rightarrow> count_read word)"

definition leading_number :: "string \<Rightarrow> int \<times> bool" where
  "leading_number line =
     (case text_fields line of
        [] \<Rightarrow> (0, False)
      | word # _ \<Rightarrow> let digits = trim_right_bytes (\<lambda>c. c \<in> set '',.;:)'') word in (atoi_whatever digits, atoi digits \<noteq> None))"

definition number_before :: "string \<Rightarrow> string \<Rightarrow> int" where
  "number_before line label =
     (case cut line label of (ahead, _, found) \<Rightarrow>
        if \<not> found \<or> text_fields ahead = [] then 0
        else count_read (dropWhile (\<lambda>c. c = CHR ''('') (last (text_fields ahead))))"

definition number_following :: "string \<Rightarrow> string \<Rightarrow> int" where
  "number_following line label =
     (case cut line label of (_, after, found) \<Rightarrow> if \<not> found then 0 else fst (leading_number after))"

text \<open>The words in pairs of neighbours.\<close>

definition neighbours :: "string list \<Rightarrow> (string \<times> string) list" where
  "neighbours words = zip words (tl words)"

section \<open>What a run said\<close>

record test_state =
  ts_total :: int
  ts_failed :: int
  ts_failing :: "string list"
  ts_files_failed :: int
  ts_files_total :: int
  ts_summary :: string
  ts_exit_code :: int

definition no_tests :: test_state where
  "no_tests = \<lparr>ts_total = 0, ts_failed = 0, ts_failing = [], ts_files_failed = 0, ts_files_total = 0,
     ts_summary = [], ts_exit_code = 0\<rparr>"

definition add_failing :: "string \<Rightarrow> test_state \<Rightarrow> test_state" where
  "add_failing name st =
     (if name = [] \<or> name \<in> set (ts_failing st) then st else st\<lparr>ts_failing := ts_failing st @ [name]\<rparr>)"

definition without_its_timing :: "string \<Rightarrow> string" where
  "without_its_timing name =
     (let said = trim_space name in
      case last_index said '' ('' of
        Some i \<Rightarrow> if 0 < i \<and> suffix '')'' said then trim_space (take i said) else said
      | None \<Rightarrow> said)"

type_synonym runner_line = "string \<Rightarrow> test_state \<Rightarrow> test_state \<times> bool"

section \<open>JavaScript, Python and Go\<close>

definition read_vitest_counts :: "string \<Rightarrow> int \<times> int" where
  "read_vitest_counts said =
     (let words = text_fields said in
      (foldl (\<lambda>failed (word, after). if atoi word \<noteq> None \<and> after = ''failed'' then count_read word else failed) 0
         (neighbours words),
       if words = [] then 0 else atoi_whatever (trim_bytes ''()'' (last words))))"

definition read_jest_summary :: "string \<Rightarrow> test_state \<Rightarrow> test_state" where
  "read_jest_summary line st =
     foldl (\<lambda>st part. case text_fields part of
          count # which # _ \<Rightarrow>
            (case atoi count of
               None \<Rightarrow> st
             | Some n \<Rightarrow> if which = ''failed'' then st\<lparr>ts_failed := n\<rparr> else if which = ''total'' then st\<lparr>ts_total := n\<rparr> else st)
        | _ \<Rightarrow> st)
       st (split_on (trim_prefix line ''Tests:'') '','')"

definition read_pytest_summary :: "string \<Rightarrow> test_state \<Rightarrow> test_state" where
  "read_pytest_summary line st =
     (case foldl (\<lambda>(failed, passed) (word, after).
              case atoi word of
                None \<Rightarrow> (failed, passed)
              | Some n \<Rightarrow> if trim_suffix after '','' = ''failed'' then (n, passed)
                          else if trim_suffix after '','' = ''passed'' then (failed, n) else (failed, passed))
            (ts_failed st, 0) (neighbours (text_fields (trim_bytes ''= '' line))) of
        (failed, passed) \<Rightarrow> st\<lparr>ts_failed := failed, ts_total := wrap64 (failed + passed)\<rparr>)"

definition tab :: char where "tab = CHR 0x09"

definition read_go :: runner_line where
  "read_go line st =
     (if prefix ''--- FAIL: '' line then (add_failing (fst (cut (trim_prefix line ''--- FAIL: '') '' '')) st, True)
      else if prefix (''FAIL'' @ [tab]) line \<and> contains_text line ''[build failed]''
      then (add_failing (fst (cut (trim_prefix line (''FAIL'' @ [tab])) '' '') @ '' did not build'') st, True)
      else (st, line = ''PASS'' \<or> line = ''FAIL'' \<or> prefix (''ok  '' @ [tab]) line \<or> prefix (''FAIL'' @ [tab]) line))"

section \<open>The scripting runners\<close>

record scripting_runners =
  sc_unittest_ran :: bool
  sc_mocha_passing :: int
  sc_mocha_seen :: bool

definition ran_so_many :: "string \<Rightarrow> string \<Rightarrow> int option" where
  "ran_so_many where_word line =
     (case text_fields line of
        verb # count # tests # this # _ \<Rightarrow>
          if verb = ''Ran'' \<and> (tests = ''tests'' \<or> tests = ''test'') \<and> this = where_word then atoi count else None
      | _ \<Rightarrow> None)"

definition unittest_ran :: "string \<Rightarrow> int option" where "unittest_ran line = ran_so_many ''in'' line"

fun unittest_parts :: "int \<Rightarrow> string list \<Rightarrow> int option" where
  "unittest_parts failed [] = Some failed"
| "unittest_parts failed (part # parts) =
     (case cut (trim_space part) ''='' of (key, count, has) \<Rightarrow>
        if \<not> has \<or> atoi count = None then None
        else unittest_parts (if key = ''failures'' \<or> key = ''errors'' then wrap64 (failed + count_read count) else failed) parts)"

definition unittest_failed :: "string \<Rightarrow> int option" where
  "unittest_failed line =
     (if \<not> prefix ''FAILED ('' line \<or> \<not> suffix '')'' line then None
      else unittest_parts 0 (split_on (trim_suffix (trim_prefix line ''FAILED ('') '')'') '',''))"

definition unittest_name :: "string \<Rightarrow> string" where
  "unittest_name line =
     (case (case cut_prefix line ''FAIL: '' of Some rest \<Rightarrow> Some rest | None \<Rightarrow> cut_prefix line ''ERROR: '') of
        None \<Rightarrow> []
      | Some rest \<Rightarrow>
          if \<not> suffix '')'' rest then []
          else (case last_index rest '' ('' of
                  None \<Rightarrow> []
                | Some i \<Rightarrow> let name = butlast (drop (i + 2) rest) in
                    if CHR ''.'' \<notin> set name \<or> CHR '' '' \<in> set name \<or> tab \<in> set name then [] else name))"

text \<open>The count, and whether it is of tests that pass.\<close>

definition mocha_count :: "string \<Rightarrow> (int \<times> bool) option" where
  "mocha_count line =
     (case text_fields line of
        count # which # timing \<Rightarrow>
          (case atoi count of
             None \<Rightarrow> None
           | Some n \<Rightarrow>
               if which = ''passing'' \<and> length timing = 1 \<and> prefix ''('' (hd timing) \<and> suffix '')'' (hd timing) then Some (n, True)
               else if which = ''failing'' \<and> timing = [] then Some (n, False) else None)
      | _ \<Rightarrow> None)"

definition arrow_inside :: string where "arrow_inside = '' '' @ encode_rune 8250 @ '' ''"

fun mocha_test :: "string list \<Rightarrow> string list \<Rightarrow> string list" where
  "mocha_test parts [] = []"
| "mocha_test parts (line # lines) =
     (let following = trim_space line in
      if following = [] then []
      else if suffix '':'' following then [join arrow_inside (parts @ [trim_suffix following '':''])]
      else mocha_test (parts @ [following]) lines)"

fun mocha_names :: "string list \<Rightarrow> string list" where
  "mocha_names [] = []"
| "mocha_names (line # lines) =
     (case cut (trim_space line) '') '' of (number, suite, has) \<Rightarrow>
        if \<not> has \<or> number = [] \<or> \<not> list_all is_digit number then []
        else mocha_test [suite] (take 4 lines)) @ mocha_names lines"

definition bun_ran :: "string \<Rightarrow> int option" where "bun_ran line = ran_so_many ''across'' line"

definition bun_failed :: "string \<Rightarrow> int option" where
  "bun_failed line =
     (case text_fields line of [count, which] \<Rightarrow> if which = ''fail'' then atoi count else None | _ \<Rightarrow> None)"

definition bun_name :: "string \<Rightarrow> string" where
  "bun_name line =
     (case cut_prefix line ''(fail) '' of
        None \<Rightarrow> []
      | Some name \<Rightarrow>
          trim_space (case last_index name '' ['' of
              Some i \<Rightarrow> if 0 < i \<and> suffix '']'' name then take i name else name | None \<Rightarrow> name))"

definition deno_summary :: "string \<Rightarrow> (int \<times> int) option" where
  "deno_summary line =
     (case split_on line '' | '' of
        verdict # parts \<Rightarrow>
          if length parts < 2 \<or> (verdict \<noteq> ''ok'' \<and> verdict \<noteq> ''FAILED'') then None
          else (case foldl (\<lambda>(passed, failed, seen) part.
                    case text_fields part of
                      count # which # _ \<Rightarrow>
                        (case atoi count of
                           None \<Rightarrow> (passed, failed, seen)
                         | Some n \<Rightarrow> if which = ''passed'' then (n, failed, seen + 1)
                                     else if which = ''failed'' then (passed, n, seen + 1) else (passed, failed, seen))
                    | _ \<Rightarrow> (passed, failed, seen)) (0, 0, 0::nat) parts of
                  (passed, failed, seen) \<Rightarrow> if seen < 2 then None else Some (failed, wrap64 (passed + failed)))
      | [] \<Rightarrow> None)"

definition deno_name :: "string \<Rightarrow> string" where
  "deno_name line =
     (case cut line '' ... FAILED'' of (name, rest, has) \<Rightarrow>
        if \<not> has \<or> (rest \<noteq> [] \<and> \<not> prefix '' ('' rest) then [] else trim_space name)"

definition read_scripting ::
  "string \<Rightarrow> scripting_runners \<Rightarrow> test_state \<Rightarrow> scripting_runners \<times> test_state \<times> bool" where
  "read_scripting line sc st =
     (if unittest_ran line \<noteq> None
      then (sc\<lparr>sc_unittest_ran := True\<rparr>, st\<lparr>ts_total := the (unittest_ran line)\<rparr>, True)
      else if unittest_failed line \<noteq> None then (sc, st\<lparr>ts_failed := the (unittest_failed line)\<rparr>, True)
      else if line = ''OK'' \<and> sc_unittest_ran sc then (sc, st, True)
      else if unittest_name line \<noteq> [] then (sc, add_failing (unittest_name line) st, False)
      else if mocha_count line \<noteq> None
      then (case the (mocha_count line) of
              (n, True) \<Rightarrow> (sc\<lparr>sc_mocha_passing := n, sc_mocha_seen := True\<rparr>, st, True)
            | (n, False) \<Rightarrow> (sc, st\<lparr>ts_failed := n\<rparr>, sc_mocha_seen sc))
      else if bun_ran line \<noteq> None then (sc, st\<lparr>ts_total := the (bun_ran line)\<rparr>, True)
      else if bun_failed line \<noteq> None then (sc, st\<lparr>ts_failed := the (bun_failed line)\<rparr>, False)
      else if bun_name line \<noteq> [] then (sc, add_failing (bun_name line) st, False)
      else if deno_summary line \<noteq> None
      then (case the (deno_summary line) of (failed, all) \<Rightarrow> (sc, st\<lparr>ts_failed := failed, ts_total := all\<rparr>, True))
      else if deno_name line \<noteq> [] then (sc, add_failing (deno_name line) st, False)
      else (sc, st, False))"

definition finish_scripting :: "string \<Rightarrow> scripting_runners \<Rightarrow> test_state \<Rightarrow> test_state" where
  "finish_scripting said sc st =
     (if \<not> sc_mocha_seen sc then st
      else foldl (\<lambda>st name. add_failing name st) (st\<lparr>ts_total := wrap64 (sc_mocha_passing sc + ts_failed st)\<rparr>)
             (mocha_names (split_on said [newline])))"

end
