(* ===== verification/Test_Reports.thy ===== *)
theory Test_Reports
  imports Test_Runners
begin

text \<open>
  Reading a test run off what a shell command printed: \<open>testStateIn\<close> of \<open>teststate.go\<close>, the runners of C,
  C++ and Ruby (\<open>teststate_cfamily.go\<close>), the last resort (\<open>teststate_generic.go\<close>), and the lines the
  harness writes about a run. Whether a rune outside ASCII is printable, which \<open>strconv.Quote\<close> asks, is a
  parameter.
\<close>

section \<open>C, C++ and Ruby\<close>

definition read_google_test :: runner_line where
  "read_google_test line st =
     (if prefix ''[  FAILED  ] '' line
      then let rest = trim_prefix line ''[  FAILED  ] '' in
        (case leading_number rest of
           (n, True) \<Rightarrow> (st\<lparr>ts_failed := n\<rparr>, True) | (_, False) \<Rightarrow> (add_failing (without_its_timing rest) st, True))
      else if prefix ''[==========] '' line \<and> contains_text line '' ran.''
      then (st\<lparr>ts_total := number_after_label line ''[==========] ''\<rparr>, True)
      else if prefix ''[  PASSED  ] '' line \<or> prefix ''[       OK ] '' line then (st, True)
      else if suffix '' FAILED TEST'' line \<or> suffix '' FAILED TESTS'' line
      then (case leading_number line of (n, True) \<Rightarrow> (st\<lparr>ts_failed := n\<rparr>, True) | (_, False) \<Rightarrow> (st, False))
      else (st, False))"

definition ctest_name :: "string \<Rightarrow> string" where
  "ctest_name line = trim_space (fst (cut (fst (snd (cut line '': ''))) '' .''))"

definition the_ctest_verdicts :: "string list" where
  "the_ctest_verdicts = [''Failed'', ''Timeout'', ''Exception'', ''Not Run'', ''Subprocess aborted'', ''SEGFAULT'', ''ILLEGAL'',
     ''Child aborted'', ''Failed  Required regular expression not found'']"

definition ctest_listed_failure :: "string \<Rightarrow> string option" where
  "ctest_listed_failure line =
     (case cut line '' - '' of (number, rest, found) \<Rightarrow>
        if \<not> found \<or> \<not> suffix '')'' rest \<or> atoi number = None then None
        else (case cut rest '' ('' of (name, verdict, opened) \<Rightarrow>
                if opened \<and> trim_suffix verdict '')'' \<in> set the_ctest_verdicts then Some name else None))"

definition read_ctest :: runner_line where
  "read_ctest line st =
     (if contains_text line '' Test #'' \<and> contains_text line '' sec''
      then (if contains_text line ''***'' then add_failing (ctest_name line) st else st, True)
      else if contains_text line ''% tests passed, '' \<and> contains_text line '' tests failed out of ''
      then (st\<lparr>ts_failed := number_before line '' tests failed out of '',
               ts_total := number_following line '' tests failed out of ''\<rparr>, True)
      else if line = ''The following tests FAILED:'' then (st, True)
      else (case ctest_listed_failure line of Some name \<Rightarrow> (add_failing name st, True) | None \<Rightarrow> (st, False)))"

definition read_catch2 :: runner_line where
  "read_catch2 line st =
     (if prefix ''test cases: '' line
      then (foldl (\<lambda>st part. case text_fields part of
                [count, which] \<Rightarrow> if which = ''failed'' then st\<lparr>ts_failed := atoi_whatever count\<rparr> else st | _ \<Rightarrow> st)
             (st\<lparr>ts_failed := 0, ts_total := number_after_label line ''test cases: ''\<rparr>) (split_on line ''|''), True)
      else if prefix ''All tests passed ('' line \<and> contains_text line '' test case''
      then (st\<lparr>ts_total := number_before line '' test case''\<rparr>, True)
      else (st, False))"

definition read_unity_counts :: runner_line where
  "read_unity_counts line st =
     (case text_fields line of
        [all, tests, bad, failures, left_out, ignored] \<Rightarrow>
          if tests = ''Tests'' \<and> failures = ''Failures'' \<and> ignored = ''Ignored''
          then (st\<lparr>ts_total := atoi_whatever all, ts_failed := atoi_whatever bad\<rparr>, True)
          else (st, line = ''OK'' \<and> 0 < ts_total st)
      | _ \<Rightarrow> (st, line = ''OK'' \<and> 0 < ts_total st))"

definition read_unity :: runner_line where
  "read_unity line st =
     (case split_on line '':'' of
        file # number # test # verdict # _ \<Rightarrow>
          if atoi number \<noteq> None \<and> verdict = ''FAIL'' then (add_failing test st, True)
          else if atoi number \<noteq> None \<and> (verdict = ''PASS'' \<or> verdict = ''IGNORE'') then (st, True)
          else read_unity_counts line st
      | _ \<Rightarrow> read_unity_counts line st)"

definition read_check :: runner_line where
  "read_check line st =
     (if contains_text line ''%: Checks: ''
      then (st\<lparr>ts_total := number_following line ''Checks: '',
               ts_failed := wrap64 (number_following line ''Failures: '' + number_following line ''Errors: '')\<rparr>, True)
      else (case split_on line '':'' of
              file # number # verdict # suite # test # iteration # _ \<Rightarrow>
                if atoi number \<noteq> None \<and> verdict \<in> {''F'', ''E'', ''P''}
                then (if verdict \<noteq> ''P'' then add_failing (suite @ '':'' @ test) st else st, True)
                else (st, False)
            | _ \<Rightarrow> (st, False)))"

definition read_minitest :: runner_line where
  "read_minitest line st =
     (if contains_text line '' runs, '' \<and> contains_text line '' assertions, '' \<and> contains_text line '' failures, ''
      then (st\<lparr>ts_total := number_before line '' runs, '',
               ts_failed := wrap64 (number_before line '' failures, '' + number_before line '' errors'')\<rparr>, True)
      else (case cut line '' ['' of (name, place, found) \<Rightarrow>
              if found \<and> suffix '']:'' place \<and> CHR ''#'' \<in> set name \<and> CHR '' '' \<notin> set name \<and> contains_text place ''.rb:''
              then (add_failing name st, True) else (st, False)))"

definition read_rspec :: runner_line where
  "read_rspec line st =
     (if (contains_text line '' examples, '' \<or> contains_text line '' example, '') \<and> contains_text line '' failure''
      then (case leading_number line of
              (n, True) \<Rightarrow> (st\<lparr>ts_total := n, ts_failed := number_before line '' failure''\<rparr>, True)
            | (_, False) \<Rightarrow> (st, False))
      else if prefix ''rspec ./'' line \<and> contains_text line '' # ''
      then (add_failing (trim_space (fst (snd (cut line '' # '')))) st, True)
      else (st, False))"

text \<open>The first of them that knows the line.\<close>

fun first_reader :: "runner_line list \<Rightarrow> runner_line" where
  "first_reader [] line st = (st, False)"
| "first_reader (reader # readers) line st =
     (case reader line st of (st', True) \<Rightarrow> (st', True) | (st', False) \<Rightarrow> first_reader readers line st')"

definition read_other_runners :: runner_line where
  "read_other_runners line st =
     first_reader [read_google_test, read_ctest, read_catch2, read_unity, read_check, read_minitest, read_rspec] line st"

section \<open>A runner nobody knows\<close>

record counts_so_far =
  cs_passed :: int
  cs_saw_passed :: bool
  cs_failed :: int
  cs_saw_failed :: bool
  cs_total :: int

fun generic_pairs :: "counts_so_far \<Rightarrow> string list \<Rightarrow> counts_so_far option" where
  "generic_pairs so_far (count # which # words) =
     (case atoi count of
        None \<Rightarrow> None
      | Some n \<Rightarrow>
          if n < 0 then None
          else if which = ''passed'' then generic_pairs (so_far\<lparr>cs_passed := n, cs_saw_passed := True\<rparr>) words
          else if which = ''failed'' then generic_pairs (so_far\<lparr>cs_failed := n, cs_saw_failed := True\<rparr>) words
          else if which \<in> {''tests'', ''test'', ''total''} then generic_pairs (so_far\<lparr>cs_total := n\<rparr>) words
          else if which \<in> {''skipped'', ''pending'', ''todo''} then generic_pairs so_far words
          else None)"
| "generic_pairs so_far words = Some so_far"

definition punctuation_out :: "string \<Rightarrow> string" where
  "punctuation_out = map (\<lambda>c. if c \<in> set '',.;'' then CHR '' '' else c)"

text \<open>The total and the failed of a line of nothing but counts.\<close>

definition generic_counts :: "string \<Rightarrow> (int \<times> int) option" where
  "generic_counts line =
     (let words = text_fields (punctuation_out line) in
      if length words < 4 \<or> odd (length words) then None
      else (case generic_pairs \<lparr>cs_passed = 0, cs_saw_passed = False, cs_failed = 0, cs_saw_failed = False, cs_total = 0\<rparr> words of
              None \<Rightarrow> None
            | Some c \<Rightarrow>
                if \<not> cs_saw_passed c \<or> \<not> cs_saw_failed c then None
                else Some (if cs_total c = 0 then wrap64 (cs_passed c + cs_failed c) else cs_total c, cs_failed c)))"

definition looks_like_a_file_path :: "string \<Rightarrow> bool" where
  "looks_like_a_file_path said =
     (let first = hd (text_fields said) in
      contains_text first ''/'' \<or> contains_text first ''.test.'' \<or> contains_text first ''.spec.'' \<or> suffix ''_test.go'' first)"

definition generic_failing_name :: "string \<Rightarrow> string" where
  "generic_failing_name line =
     (case cut_prefix line ''FAIL '' of
        None \<Rightarrow> []
      | Some rest \<Rightarrow>
          (case cut rest '' :: '' of
             (_, name, True) \<Rightarrow> trim_space name
           | (_, _, False) \<Rightarrow>
               let name = trim_space (without_its_timing rest)
               in if name = [] \<or> looks_like_a_file_path name then [] else name))"

definition read_generic_line :: "test_state \<times> bool \<Rightarrow> string \<Rightarrow> test_state \<times> bool" where
  "read_generic_line so_far raw =
     (case so_far of (st, found) \<Rightarrow>
        let line = trim_space raw; name = generic_failing_name line in
        if name \<noteq> [] then (add_failing name st, found)
        else (case generic_counts line of
                None \<Rightarrow> (st, found)
              | Some (all, failed) \<Rightarrow> (st\<lparr>ts_total := all, ts_failed := failed, ts_summary := line\<rparr>, True)))"

definition generic_test_state_in :: "string \<Rightarrow> test_state option" where
  "generic_test_state_in said =
     (case foldl read_generic_line (no_tests, False) (split_on said [newline]) of
        (st, True) \<Rightarrow> Some st | (_, False) \<Rightarrow> None)"

fun first_counts :: "string list \<Rightarrow> (int \<times> int \<times> string) option" where
  "first_counts [] = None"
| "first_counts (raw # lines) =
     (case generic_counts (trim_space raw) of
        Some (all, failed) \<Rightarrow> Some (all, failed, trim_space raw) | None \<Rightarrow> first_counts lines)"

definition generic_summary_in :: "string \<Rightarrow> (int \<times> int \<times> string) option" where
  "generic_summary_in said = first_counts (split_on said [newline])"

section \<open>A whole run\<close>

definition mark :: "nat \<Rightarrow> string" where "mark rune = encode_rune rune @ '' ''"

type_synonym reading = "scripting_runners \<times> test_state \<times> bool"

definition read_report_line :: "reading \<Rightarrow> string \<Rightarrow> reading" where
  "read_report_line so_far raw =
     (case so_far of (sc, st, found) \<Rightarrow>
        let line = trim_space raw in
        if prefix (mark 10006) line \<and> \<not> suffix '':'' line
        then (sc, add_failing (without_its_timing (trim_prefix line (mark 10006))) st, True)
        else if prefix (mark 10005) line \<or> prefix (mark 10007) line \<or> prefix (mark 10008) line \<or> prefix (mark 215) line
        then (sc, add_failing (without_its_timing (drop (length (hd (text_fields line)) + 1) line)) st, True)
        else if prefix (mark 9679) line \<and> contains_text line arrow_inside
        then (sc, add_failing (trim_prefix line (mark 9679)) st, True)
        else if prefix (mark 10004) line \<or> prefix (mark 10003) line then (sc, st, True)
        else if prefix (mark 8505 @ ''tests '') line
        then (sc, st\<lparr>ts_total := number_after_label line (mark 8505 @ ''tests '')\<rparr>, True)
        else if prefix (mark 8505 @ ''fail '') line
        then (sc, st\<lparr>ts_failed := number_after_label line (mark 8505 @ ''fail '')\<rparr>, True)
        else if prefix ''Tests:'' line then (sc, read_jest_summary line st, True)
        else if prefix ''Tests '' line \<and> contains_text line ''(''
        then (case read_vitest_counts (trim_prefix line ''Tests '') of
                (failed, all) \<Rightarrow> (sc, st\<lparr>ts_failed := failed, ts_total := all\<rparr>, True))
        else if prefix ''Test Files '' line \<and> contains_text line ''(''
        then (case read_vitest_counts (trim_prefix line ''Test Files '') of
                (failed, all) \<Rightarrow> (sc, st\<lparr>ts_files_failed := failed, ts_files_total := all\<rparr>, True))
        else if prefix ''='' line \<and> (contains_text line '' passed'' \<or> contains_text line '' failed'')
        then (sc, read_pytest_summary line st, True)
        else if prefix ''FAILED '' line \<and> contains_text line ''::''
        then (sc, add_failing (trim_space (fst (cut (trim_prefix line ''FAILED '') '' - ''))) st, True)
        else (case read_go line st of
                (st1, True) \<Rightarrow> (sc, st1, True)
              | (st1, False) \<Rightarrow>
                  (case read_scripting line sc st1 of
                     (sc2, st2, True) \<Rightarrow> (sc2, st2, True)
                   | (sc2, st2, False) \<Rightarrow>
                       (case read_other_runners line st2 of (st3, other) \<Rightarrow> (sc2, st3, other \<or> found)))))"

definition exit_code_of :: "string \<Rightarrow> int" where
  "exit_code_of said =
     (case cut_prefix (fst (cut (trim_space said) [newline])) ''finished with exit code '' of
        None \<Rightarrow> 0
      | Some rest \<Rightarrow> count_read (hd (text_fields (rest @ '' x''))))"

definition names_counted :: "test_state \<Rightarrow> test_state" where
  "names_counted st =
     (if ts_failed st < int (length (ts_failing st)) then st\<lparr>ts_failed := int (length (ts_failing st))\<rparr> else st)"

definition files_counted :: "test_state \<Rightarrow> test_state" where
  "files_counted st =
     (if ts_failed st = 0 \<and> 0 < ts_files_failed st
      then st\<lparr>ts_failed := ts_files_failed st, ts_total := ts_files_total st\<rparr> else st)"

definition settle :: "test_state \<Rightarrow> test_state" where
  "settle st =
     (let st = files_counted (names_counted st)
      in if ts_failed st = 0 \<and> ts_exit_code st \<noteq> 0 then st\<lparr>ts_failed := 1\<rparr> else st)"

definition finish_reading :: "string \<Rightarrow> test_state \<times> bool \<Rightarrow> test_state option" where
  "finish_reading said read =
     (case (case read of
              (_, False) \<Rightarrow> generic_test_state_in said
            | (st, True) \<Rightarrow>
                Some (if ts_total st = 0
                      then (case generic_summary_in said of
                              None \<Rightarrow> st
                            | Some (all, failed, line) \<Rightarrow> st\<lparr>ts_failed := failed, ts_total := all, ts_summary := line\<rparr>)
                      else st)) of
        None \<Rightarrow> None
      | Some st \<Rightarrow> Some (settle (st\<lparr>ts_exit_code := exit_code_of said\<rparr>)))"

definition test_state_in :: "string \<Rightarrow> test_state option" where
  "test_state_in said =
     (case foldl read_report_line
             (\<lparr>sc_unittest_ran = False, sc_mocha_passing = 0, sc_mocha_seen = False\<rparr>, no_tests, False)
             (split_on said [newline]) of
        (sc, st, found) \<Rightarrow> finish_reading said (finish_scripting said sc st, found))"

section \<open>The line about a run\<close>

definition max_failing_tests_named :: nat where "max_failing_tests_named = 5"
definition max_changed_files_named :: nat where "max_changed_files_named = 3"
definition stuck_test_runs :: nat where "stuck_test_runs = 12"

text \<open>\<open>strconv.Quote\<close>.\<close>

definition quoted_rune :: "(nat \<Rightarrow> bool) \<Rightarrow> nat \<times> string \<Rightarrow> string" where
  "quoted_rune printable rb =
     (case rb of (r, bytes) \<Rightarrow>
        if r = replacement \<and> length bytes = 1
        then [CHR 0x5C, CHR ''x'', hex_letter (byte (hd bytes) div 16), hex_letter (byte (hd bytes) mod 16)]
        else if r = 34 \<or> r = 92 then CHR 0x5C # bytes
        else if (32 \<le> r \<and> r < 127) \<or> (128 \<le> r \<and> printable r) then bytes
        else if 7 \<le> r \<and> r \<le> 13 then [CHR 0x5C, ''abtnvfr'' ! (r - 7)]
        else if r < 32 \<or> r = 127 then [CHR 0x5C, CHR ''x'', hex_letter (r div 16), hex_letter (r mod 16)]
        else if r < 65536 then unit_escape r
        else [CHR 0x5C, CHR ''U'', CHR ''0'', CHR ''0'', hex_letter (r div 1048576 mod 16), hex_letter (r div 65536 mod 16)]
               @ drop 2 (unit_escape (r mod 65536)))"

definition quoted :: "(nat \<Rightarrow> bool) \<Rightarrow> string \<Rightarrow> string" where
  "quoted printable s = [CHR 0x22] @ concat (map (quoted_rune printable) (rune_chunks s)) @ [CHR 0x22]"

definition provenance :: "(nat \<Rightarrow> bool) \<Rightarrow> test_state \<Rightarrow> string" where
  "provenance printable st =
     (let parts = (if ts_exit_code st \<noteq> 0 then [''exit '' @ itoa (ts_exit_code st)] else [])
            @ (if ts_summary st \<noteq> [] then [''read from '' @ quoted printable (ts_summary st)] else [])
      in if parts = [] then [] else '' ('' @ join ''; '' parts @ '')'')"

definition tests_line :: "(nat \<Rightarrow> bool) \<Rightarrow> test_state \<Rightarrow> string" where
  "tests_line printable st =
     (if ts_failed st = 0
      then (if 0 < ts_total st then ''tests: all '' @ itoa (ts_total st) @ '' passing'' else ''tests: all passing'')
      else if ts_total st = 0 \<and> ts_failing st = [] \<and> ts_exit_code st \<noteq> 0
      then ''tests: failing'' @ provenance printable st
      else
        let said = ''tests: '' @ itoa (ts_failed st) @ '' failing''
              @ (if 0 < ts_total st then '' of '' @ itoa (ts_total st) else []);
            named = take max_failing_tests_named (ts_failing st);
            rest = length (ts_failing st) - length named
        in if ts_failing st = [] then said @ provenance printable st
           else said @ '': '' @ join ''; '' named @ (if 0 < rest then '' and '' @ itoa (int rest) @ '' more'' else [])
             @ provenance printable st)"

definition tests_key :: "test_state \<Rightarrow> string" where
  "tests_key st =
     (if ts_failed st = 0 then [] else if ts_failing st = [] then itoa (ts_failed st) else join [newline] (ts_failing st))"

definition the_stuck_test_line :: "(nat \<Rightarrow> bool) \<Rightarrow> nat \<Rightarrow> test_state \<Rightarrow> string" where
  "the_stuck_test_line printable runs st =
     ''The same tests have failed on the last '' @ itoa (int runs) @ '' test runs: ''
       @ trim_prefix (tests_line printable st) ''tests: ''
       @ ''. Write a failure with its cause, then take one of three ways out: change the approach, fix the test itself if its expectation is wrong, or write the failure, leave the step unmarked and go on to the next.''"

definition short_name :: "string \<Rightarrow> string" where
  "short_name path = (case last_index path ''/'' of None \<Rightarrow> path | Some i \<Rightarrow> drop (i + 1) path)"

definition short_names :: "string list \<Rightarrow> nat \<Rightarrow> string" where
  "short_names paths most =
     (let names = map short_name paths in
      if length names \<le> most then join '', '' names
      else join '', '' (take most names) @ '' and '' @ itoa (int (length names - most)) @ '' more'')"

end
