(* ===== verification/Loop_Run.thy ===== *)
theory Loop_Run
  imports Test_Reports Job_Work
begin

text \<open>
  One task in flight, from its first call of a tool on, when its record exists: what \<open>run\<close> of
  \<open>run.go\<close> holds of the guards, the meter and the conversation, and what one call and one round do to it
  (\<open>guard.go\<close>, \<open>progress.go\<close>, \<open>samewall.go\<close>, \<open>closedcalls.go\<close>, \<open>rethink.go\<close>, \<open>probes.go\<close>,
  \<open>situation.go\<close>, \<open>teststate.go\<close>, \<open>stopdone.go\<close>, \<open>calls.go\<close>).
\<close>

record task_run =
  tr_keeper :: keeper
  tr_messages :: "chat_message list"
  tr_keep_through :: nat
  tr_rounds_used :: nat
  tr_recent :: "past_call list"
  tr_wall :: "walled_result list"
  tr_rewinds_used :: nat
  tr_rewind_due :: bool
  tr_stall_text :: string
  tr_stall_mark :: string
  tr_closed :: closed_calls
  tr_idle :: nat
  tr_moved :: bool
  tr_stalls :: nat
  tr_since_a_mark :: nat
  tr_since_a_failure :: nat
  tr_all_marked :: nat
  tr_calls_made :: nat
  tr_finish_nudged :: bool
  tr_saw_a_test_run :: bool
  tr_fewest_failed :: int
  tr_last_failed :: int
  tr_tests_fact :: string
  tr_tests_green :: bool
  tr_failing_key :: string
  tr_same_failing :: nat
  tr_test_command :: string
  tr_read :: "string \<Rightarrow> bool"
  tr_said :: "string \<Rightarrow> bool"
  tr_files_changed :: "string list"
  tr_changed_since_the_run :: "string list"
  tr_command_fact :: string
  tr_probes :: nat
  tr_probe_line_due :: bool
  tr_said_the_mark_hint :: bool
  tr_had_failure :: bool
  tr_stop_line :: string
  tr_jobs_made :: "string list"
  tr_job_to_hand_to :: string

definition say :: "string \<Rightarrow> task_run \<Rightarrow> task_run" where
  "say said run = run\<lparr>tr_messages := remember_message (said_to_the_model said) (tr_messages run)\<rparr>"

definition held_record :: "task_run \<Rightarrow> record_of_work" where
  "held_record run = kp_record (tr_keeper run)"

definition note_progress :: "task_run \<Rightarrow> task_run" where
  "note_progress run = run\<lparr>tr_moved := True\<rparr>"

definition forget_the_calls :: "task_run \<Rightarrow> task_run" where
  "forget_the_calls run = run\<lparr>tr_recent := [], tr_wall := []\<rparr>"

section \<open>What a result shows\<close>

definition tool_task :: string where "tool_task = ''task''"
definition tool_browser_resize :: string where "tool_browser_resize = ''browser_resize''"

definition the_tools_that_read :: "string list" where
  "the_tools_that_read = [tool_read, tool_search, tool_web, tool_browser_open, tool_browser_read, tool_browser_resize]"

definition note_a_read_of_something_new :: "tool_call \<Rightarrow> task_run \<Rightarrow> task_run" where
  "note_a_read_of_something_new call run =
     (if tc_name call \<notin> set the_tools_that_read then run
      else let key = tc_name call @ [CHR 0x00] @ what_the_call_says call in
        if tr_read run key then run
        else note_progress (run\<lparr>tr_read := (tr_read run)(key := True)\<rparr>))"

definition only_polls :: "tool_call list \<Rightarrow> bool" where
  "only_polls calls \<longleftrightarrow> calls \<noteq> [] \<and> list_all is_a_poll_or_tail calls"

definition note_a_result_that_says_something_new :: "tool_call \<Rightarrow> string \<Rightarrow> task_run \<Rightarrow> task_run" where
  "note_a_result_that_says_something_new call shown run =
     (let said = trim_space shown in
      if tc_name call \<noteq> tool_shell \<and> tc_name call \<notin> set the_tools_that_read then run
      else if only_polls [call] \<or> test_state_in shown \<noteq> None \<or> said = [] \<or> tr_said run said then run
      else note_progress (run\<lparr>tr_said := (tr_said run)(said := True)\<rparr>))"

definition the_signs_of_a_changed_page :: "string list" where
  "the_signs_of_a_changed_page =
     [''what was expected happened'', ''the page moved to'', ''new on the page:'', ''a new tab opened'']"

definition note_a_changed_page :: "loop_machine \<Rightarrow> string \<Rightarrow> task_run \<Rightarrow> task_run" where
  "note_a_changed_page m shown run =
     (if list_ex (\<lambda>sign. prefix sign (to_lower (lm_unicode m) (first_line shown))) the_signs_of_a_changed_page
      then note_progress run else run)"

definition is_whole_number :: "string \<Rightarrow> bool" where
  "is_whole_number s \<longleftrightarrow> s \<noteq> [] \<and> list_all is_digit s"

fun exit_code_in_words :: "string list \<Rightarrow> string option" where
  "exit_code_in_words (w # v # ws) =
     (let next = (if v = ''code'' \<and> ws \<noteq> [] then hd ws else v); number = trim_bytes ''.,:;'' next in
      if w = ''exit'' \<and> is_whole_number number then Some number else exit_code_in_words (v # ws))"
| "exit_code_in_words ws = None"

definition exit_code_in :: "loop_machine \<Rightarrow> string \<Rightarrow> string option" where
  "exit_code_in m shown =
     (case find (\<lambda>code. code \<noteq> None) (map (\<lambda>line. exit_code_in_words (text_fields (to_lower (lm_unicode m) (trim_space line))))
            (split_on shown [newline])) of
        Some found \<Rightarrow> found | None \<Rightarrow> None)"

definition how_it_went :: "loop_machine \<Rightarrow> string \<Rightarrow> bool \<Rightarrow> string" where
  "how_it_went m shown failed =
     (case exit_code_in m shown of
        Some code \<Rightarrow> ''exit '' @ code | None \<Rightarrow> if failed then ''it failed'' else ''it worked'')"

section \<open>Probes\<close>

definition max_probes_between_edits :: nat where "max_probes_between_edits = 5"

definition the_probe_line :: string where
  "the_probe_line = ''That is five probe scripts since the last edit. Write what they showed into the record as a failure with its cause, then change the code; one more probe will not tell you anything the last five did not.''"

definition the_shapes_of_a_probe :: "string list" where
  "the_shapes_of_a_probe = [''node -e '', ''node --eval '', ''python3 -c '', ''python -c '', ''deno eval '']"

definition the_names_of_a_probe :: "string list" where
  "the_names_of_a_probe = [''dbg'', ''debug'', ''diag'', ''trace'', ''probe'', ''scratch'', ''tmp'', ''check'', ''repro'']"

text \<open>\<open>path.Base\<close>.\<close>

definition base_of_path :: "string \<Rightarrow> string" where
  "base_of_path path =
     (let bare = trim_right_bytes (\<lambda>c. c = CHR ''/'') path in
      if path = [] then ''.'' else if bare = [] then ''/'' else short_name bare)"

definition is_a_probe_name :: "loop_machine \<Rightarrow> string \<Rightarrow> bool" where
  "is_a_probe_name m path =
     (let file = trim_bytes [CHR 0x22, CHR 0x27] path;
          name = dropWhile (\<lambda>c. c = CHR ''_'' \<or> c = CHR ''.'') (to_lower (lm_unicode m) (base_of_path file))
      in prefix ''/tmp/'' file \<or> list_ex (\<lambda>start. prefix start name) the_names_of_a_probe)"

definition looks_like_a_probe :: "loop_machine \<Rightarrow> tool_call \<Rightarrow> bool" where
  "looks_like_a_probe m call \<longleftrightarrow>
     tc_name call = tool_shell
     \<and> (let command = field_of_call call ''command'' in
        list_ex (contains_text command) the_shapes_of_a_probe
        \<or> (case str_index command ''cat > '' of
             None \<Rightarrow> False
           | Some i \<Rightarrow> contains_text (drop i command) ''<<''
               \<and> (case text_fields (drop (i + 6) command) of [] \<Rightarrow> False | target # _ \<Rightarrow> is_a_probe_name m target)))"

definition writes_a_probe :: "loop_machine \<Rightarrow> tool_call \<Rightarrow> bool" where
  "writes_a_probe m call \<longleftrightarrow> tc_name call = tool_write \<and> is_a_probe_name m (field_of_call call ''path'')"

definition count_the_probe :: "loop_machine \<Rightarrow> tool_call \<Rightarrow> task_run \<Rightarrow> task_run" where
  "count_the_probe m call run =
     (if (tc_name call = tool_write \<and> \<not> writes_a_probe m call) \<or> tc_name call = tool_edit then run\<lparr>tr_probes := 0\<rparr>
      else if looks_like_a_probe m call \<or> writes_a_probe m call
      then (if max_probes_between_edits \<le> tr_probes run + 1 then run\<lparr>tr_probe_line_due := True, tr_probes := 0\<rparr>
            else run\<lparr>tr_probes := tr_probes run + 1\<rparr>)
      else run)"

definition say_the_probe_line :: "task_run \<Rightarrow> task_run" where
  "say_the_probe_line run =
     (if tr_probe_line_due run then say the_probe_line (run\<lparr>tr_probe_line_due := False\<rparr>) else run)"

definition the_mark_hint :: string where
  "the_mark_hint = ''That round only marked the record. Next time put the mark on your first line, as \"step 3 done: r41\" or \"line 2 done: r41\", and spend the round on the work.''"

definition say_the_mark_hint :: "tool_call list \<Rightarrow> task_run \<Rightarrow> task_run" where
  "say_the_mark_hint calls run =
     (if \<not> tr_said_the_mark_hint run \<and> calls \<noteq> []
         \<and> list_all (\<lambda>call. tc_name call = tool_task \<and> field_of_call call ''operation'' \<in> {''step_done'', ''pin_result''}) calls
      then say the_mark_hint (run\<lparr>tr_said_the_mark_hint := True\<rparr>) else run)"

section \<open>Files, tests and failures\<close>

definition note_the_file :: "loop_machine \<Rightarrow> tool_call \<Rightarrow> bool \<Rightarrow> task_run \<Rightarrow> task_run" where
  "note_the_file m call failed run =
     (let path = field_of_call call ''path'';
          run1 = (if path = [] \<or> path \<in> set (tr_files_changed run) then run
                  else (let noted = run\<lparr>tr_files_changed := tr_files_changed run @ [path]\<rparr>
                        in if \<not> failed \<and> \<not> writes_a_probe m call then note_progress noted else noted))
      in if path \<noteq> [] \<and> \<not> failed \<and> path \<notin> set (tr_changed_since_the_run run1)
         then run1\<lparr>tr_changed_since_the_run := tr_changed_since_the_run run1 @ [path]\<rparr> else run1)"

definition max_jobs_made_noted :: nat where "max_jobs_made_noted = 8"

definition note_the_job_made :: "string \<Rightarrow> task_run \<Rightarrow> task_run" where
  "note_the_job_made answer run =
     (case cut_prefix (first_line answer) ''created job '' of
        None \<Rightarrow> run
      | Some rest \<Rightarrow>
          let made = fst (cut rest '' '') in
          if made = [] \<or> made \<in> set (tr_jobs_made run) then run
          else let run1 = (if contains_text rest '' and started task '' then run\<lparr>tr_job_to_hand_to := made\<rparr> else run);
                   noted = tr_jobs_made run1 @ [made]
            in run1\<lparr>tr_jobs_made := (if max_jobs_made_noted < length noted then tl noted else noted)\<rparr>)"

definition note_what_the_result_shows :: "loop_machine \<Rightarrow> tool_call \<Rightarrow> string \<Rightarrow> bool \<Rightarrow> task_run \<Rightarrow> task_run" where
  "note_what_the_result_shows m call shown failed run =
     (let run1 = (if failed then run
                  else note_a_result_that_says_something_new call shown (note_a_read_of_something_new call run))
      in if prefix ''browser'' (tc_name call) then note_a_changed_page m shown run1
         else if tc_name call = tool_shell
         then (let command = field_of_call call ''command'' in
               if command = [] then run1
               else run1\<lparr>tr_command_fact := ''last command: '' @ command @ '', '' @ how_it_went m shown failed\<rparr>)
         else if tc_name call = tool_task \<and> \<not> failed \<and> field_of_call call ''operation'' = ''failure''
         then run1\<lparr>tr_since_a_failure := 0\<rparr>
         else if tc_name call = tool_write \<or> tc_name call = tool_edit then note_the_file m call failed run1
         else if tc_name call = tool_job \<and> \<not> failed then note_the_job_made shown run1
         else run1)"

definition remember_the_test_command :: "tool_call \<Rightarrow> string \<Rightarrow> task_run \<Rightarrow> task_run" where
  "remember_the_test_command call shown run =
     (if tc_name call = tool_shell \<and> test_state_in shown \<noteq> None \<and> field_of_call call ''command'' \<noteq> []
      then run\<lparr>tr_test_command := field_of_call call ''command''\<rparr> else run)"

definition note_test_state :: "loop_machine \<Rightarrow> test_state \<Rightarrow> task_run \<Rightarrow> task_run" where
  "note_test_state m st run = run\<lparr>tr_tests_fact := tests_line (lm_printable m) st, tr_tests_green := ts_failed st = 0\<rparr>"

definition note_the_tests_improved_or_not :: "test_state \<Rightarrow> task_run \<Rightarrow> task_run" where
  "note_the_tests_improved_or_not st run =
     (let run1 = (if \<not> tr_saw_a_test_run run \<or> ts_failed st < tr_fewest_failed run
                  then (note_progress run)\<lparr>tr_fewest_failed := ts_failed st\<rparr> else run)
      in run1\<lparr>tr_saw_a_test_run := True, tr_last_failed := ts_failed st\<rparr>)"

definition note_a_stuck_test :: "loop_machine \<Rightarrow> test_state \<Rightarrow> bool \<Rightarrow> task_run \<Rightarrow> task_run" where
  "note_a_stuck_test m st same run =
     (if ts_failed st = 0 \<or> \<not> same then run\<lparr>tr_same_failing := (if 0 < ts_failed st then 1 else 0)\<rparr>
      else let runs = tr_same_failing run + 1; run1 = run\<lparr>tr_same_failing := runs\<rparr> in
        if runs mod stuck_test_runs = 0 then say (the_stuck_test_line (lm_printable m) runs st) run1 else run1)"

text \<open>A change of the record whose refusal costs nothing.\<close>

definition try_to_write :: "loop_machine \<Rightarrow> update \<Rightarrow> task_run \<Rightarrow> event_log \<Rightarrow> task_run \<times> event_log" where
  "try_to_write m up run lg =
     (case keeper_apply (lm_unicode m) up (tr_keeper run) lg of (_, k, lg') \<Rightarrow> (run\<lparr>tr_keeper := k\<rparr>, lg'))"

definition failure_written :: "string \<Rightarrow> string \<Rightarrow> update" where
  "failure_written said cause = no_change\<lparr>up_failure := Some \<lparr>nf_text = said, nf_cause = cause\<rparr>\<rparr>"

definition write_what_the_tests_show ::
  "loop_machine \<Rightarrow> tool_call \<Rightarrow> string \<Rightarrow> string \<Rightarrow> task_run \<Rightarrow> event_log \<Rightarrow> task_run \<times> event_log" where
  "write_what_the_tests_show m call shown label run lg =
     (case (if tc_name call = tool_shell then test_state_in shown else None) of
        None \<Rightarrow> (run, lg)
      | Some st \<Rightarrow>
          let changed = tr_changed_since_the_run run; same = (tests_key st = tr_failing_key run);
              run1 = note_a_stuck_test m st same
                ((note_the_tests_improved_or_not st (note_test_state m st run))
                  \<lparr>tr_changed_since_the_run := [], tr_failing_key := tests_key st\<rparr>)
          in if ts_failed st = 0 \<or> changed = [] \<or> same then (run1, lg)
             else let named = short_names changed max_changed_files_named in
               try_to_write m (failure_written (trim_prefix (tests_line (lm_printable m) st) ''tests: '' @ '' after changing '' @ named)
                   (''the change to '' @ named @ '' before the run '' @ label))
                 (run1\<lparr>tr_had_failure := True\<rparr>) lg)"

end
