(* ===== verification/Loop_Rounds.thy ===== *)
theory Loop_Rounds
  imports Loop_Run
begin

text \<open>
  One call and one round of a task (\<open>oneCall\<close>, \<open>runAndRecord\<close>, \<open>runTheCalls\<close> of \<open>calls.go\<close>,
  \<open>countTheRound\<close> of \<open>progress.go\<close>, \<open>wallStalls\<close> of \<open>samewall.go\<close>, \<open>rewindIfDue\<close> of
  \<open>guard.go\<close>, \<open>rethinkIfAnswered\<close> of \<open>rethink.go\<close>). What the model, the tools, the permission function
  and the person answer is given to a round; a refused write of the record that the code lets pass is let pass.
  A call is taken as the project folder and its marks leave it, without the marks, and what a tool says is taken with
  the lines the checks after a change put on it.
\<close>

record ending =
  en_status :: record_status
  en_line :: string
  en_by_guard :: bool

type_synonym 'a answered = "(record_error + 'a) \<times> task_run \<times> event_log"

section \<open>Ends of a task\<close>

definition every_done_line_is_proved :: "task_run \<Rightarrow> bool" where
  "every_done_line_is_proved run \<longleftrightarrow> done_check (held_record run) = Inr ()"

definition close_the_record :: "record_status \<Rightarrow> task_run \<Rightarrow> event_log \<Rightarrow> unit answered" where
  "close_the_record status run lg =
     (case set_status status (tr_keeper run) lg of (a, k, lg') \<Rightarrow> (a, run\<lparr>tr_keeper := k\<rparr>, lg'))"

text \<open>Without the review's questions and the report to the user.\<close>

definition stop_here :: "string \<Rightarrow> task_run \<Rightarrow> event_log \<Rightarrow> ending answered" where
  "stop_here line run lg =
     (if every_done_line_is_proved run
      then (case close_the_record status_done run lg of
              (Inl e, run', lg') \<Rightarrow> (Inl e, run', lg')
            | (Inr _, run', lg') \<Rightarrow> (Inr \<lparr>en_status = status_done, en_line = line, en_by_guard = False\<rparr>, run', lg'))
      else (case close_the_record status_stopped (forget_the_calls (run\<lparr>tr_stop_line := line\<rparr>)) lg of
              (Inl e, run', lg') \<Rightarrow> (Inl e, run', lg')
            | (Inr _, run', lg') \<Rightarrow> (Inr \<lparr>en_status = status_stopped, en_line = line, en_by_guard = False\<rparr>, run', lg')))"

definition stop_on_the_guard :: "string \<Rightarrow> task_run \<Rightarrow> event_log \<Rightarrow> ending answered" where
  "stop_on_the_guard line run lg =
     (case stop_here line run lg of
        (Inl e, run', lg') \<Rightarrow> (Inl e, run', lg')
      | (Inr en, run', lg') \<Rightarrow> (Inr (en\<lparr>en_by_guard := en_status en = status_stopped\<rparr>), run', lg'))"

definition stop_taken_as_the_finish :: "(nat \<Rightarrow> bool) \<Rightarrow> string \<Rightarrow> string" where
  "stop_taken_as_the_finish printable line =
     ''The task is done: every line of the done list points at the result that proves it. '' @ ''The stop line ''
       @ quoted printable line @ '' fired as well and was taken as the finish rather than a stop, ''
       @ ''because a task whose done list is all proved has nothing to stop for.''"

section \<open>The guard before a call\<close>

definition three_options :: string where
  "three_options = ''You can answer the user, ask one question, or try different arguments.''"

definition refused_result :: "tool_call \<Rightarrow> string \<Rightarrow> tool_result" where
  "refused_result call reason =
     \<lparr>tt_call = tc_id call, tt_label = [], tt_text = reason @ [newline] @ three_options, tt_failed = True, tt_picture = []\<rparr>"

datatype verdict = Let_through | Turned_down string | Had_enough string

definition guard_call :: "loop_machine \<Rightarrow> tool_call \<Rightarrow> task_run \<Rightarrow> verdict \<times> task_run" where
  "guard_call m call run =
     (if tr_rewind_due run
      then (Turned_down ''The conversation is being cleared after this reply, so this call was not run.'', run)
      else if the_closed_line m (tr_rounds_used run) (tr_closed run) call \<noteq> []
      then (Turned_down (the_closed_line m (tr_rounds_used run) (tr_closed run) call), run)
      else (case detector_refuses m call (tr_recent run) of
              ((words, enough), recent) \<Rightarrow>
                let run1 = run\<lparr>tr_recent := recent\<rparr> in
                if enough \<and> tr_rewinds_used run < rewinds_allowed
                then (Turned_down words, run1\<lparr>tr_rewinds_used := tr_rewinds_used run + 1, tr_rewind_due := True,
                        tr_stall_text := ''stalled: asked for '' @ tc_name call @ '' '' @ what_the_call_says call
                          @ '' over and over, so the conversation was cleared'',
                        tr_stall_mark := mark_of m call\<rparr>)
                else if enough then (Had_enough words, run1)
                else if words \<noteq> [] then (Turned_down words, run1)
                else (Let_through, run1)))"

section \<open>A call that runs\<close>

text \<open>
  What came of a call: the ruling, what the tool answered with the lines the harness puts on it, the change of
  the record a call of the task tool asks for, and the line it says came true.
\<close>

record tool_answer =
  ta_allowed :: bool
  ta_reason :: string
  ta_stops :: bool
  ta_text :: string
  ta_shown :: string
  ta_failed :: bool
  ta_picture :: string
  ta_write :: "update option"
  ta_stop_now :: string

definition fields_written :: "string \<Rightarrow> string" where
  "fields_written answer =
     (case json_members (case str_index answer ''{'' of None \<Rightarrow> answer | Some i \<Rightarrow> drop i answer) of
        None \<Rightarrow> ''one change''
      | Some [] \<Rightarrow> ''nothing''
      | Some written \<Rightarrow> join '', '' (sort (remdups (map fst written))))"

definition line_starting_with :: "string \<Rightarrow> string \<Rightarrow> string" where
  "line_starting_with shown start =
     (case find (prefix start) (split_on shown [newline]) of None \<Rightarrow> [] | Some line \<Rightarrow> line)"

definition the_tests_after_a_change :: string where "the_tests_after_a_change = ''tests after this change: ''"

definition summary_of_result :: "loop_machine \<Rightarrow> string \<Rightarrow> string \<Rightarrow> bool \<Rightarrow> string" where
  "summary_of_result m name shown failed =
     (let plain = (if first_line shown \<noteq> [] then name @ '': '' @ first_line shown else name @ '': nothing came back'') in
      if failed then name @ '' was refused: '' @ first_line shown
      else if name = tool_task then ''updated the record: '' @ fields_written shown
      else if name = tool_shell
      then (case test_state_in shown of Some st \<Rightarrow> tests_line (lm_printable m) st | None \<Rightarrow> plain)
      else if (name = tool_write \<or> name = tool_edit) \<and> line_starting_with shown the_tests_after_a_change \<noteq> []
      then name @ '': '' @ line_starting_with shown the_tests_after_a_change @ ''; '' @ first_line shown
      else plain)"

text \<open>\<open>applyRecordWrite\<close>: the call's own text when the record takes the change.\<close>

definition apply_record_write ::
  "loop_machine \<Rightarrow> tool_call \<Rightarrow> tool_answer \<Rightarrow> task_run \<Rightarrow> event_log \<Rightarrow> (string \<times> bool) \<times> task_run \<times> event_log" where
  "apply_record_write m call ans run lg =
     (case ta_write ans of
        None \<Rightarrow> ((ta_shown ans, ta_failed ans), run, lg)
      | Some up \<Rightarrow>
          (case keeper_apply (lm_unicode m) up (tr_keeper run) lg of
             (Inl e, k, lg') \<Rightarrow> ((ta_shown ans, True), run\<lparr>tr_keeper := k\<rparr>, lg')
           | (Inr _, k, lg') \<Rightarrow>
               ((tc_input call, False),
                run\<lparr>tr_keeper := k, tr_had_failure := tr_had_failure run \<or> up_failure up \<noteq> None\<rparr>, lg')))"

definition run_and_record ::
  "loop_machine \<Rightarrow> tool_call \<Rightarrow> tool_answer \<Rightarrow> task_run \<Rightarrow> event_log \<Rightarrow> (tool_result \<times> ending option) answered" where
  "run_and_record m call ans run lg =
     (case apply_record_write m call ans run lg of ((shown, failed), run1, lg1) \<Rightarrow>
        let run2 = (remember_the_test_command call (ta_text ans) run1)\<lparr>tr_recent := note_the_result m shown (tr_recent run1)\<rparr>;
            run3 = (if is_a_poll_or_tail call then run2
                    else run2\<lparr>tr_wall := note_on_the_wall m (mark_of m call) shown (tr_wall run2)\<rparr>)
        in (case add_result_of_call (tc_id call) (summary_of_result m (tc_name call) shown failed) shown (tr_keeper run3) lg1 of
              (Inl e, k, lg2) \<Rightarrow> (Inl e, run3\<lparr>tr_keeper := k\<rparr>, lg2)
            | (Inr label, k, lg2) \<Rightarrow>
                (case write_what_the_tests_show m call shown label
                        (note_what_the_result_shows m call shown failed (run3\<lparr>tr_keeper := k\<rparr>)) lg2 of (run4, lg3) \<Rightarrow>
                   let run5 = count_the_probe m call run4;
                       result = \<lparr>tt_call = tc_id call, tt_label = label,
                         tt_text = (if failed then shown @ [newline] @ three_options else shown),
                         tt_failed = failed, tt_picture = ta_picture ans\<rparr>;
                       line = (if ta_stop_now ans \<noteq> [] then ta_stop_now ans
                               else if tc_name call = tool_task then []
                               else stop_line_fired_by m (r_stop_when (r_rules (held_record run5))) (tc_name call) shown)
                   in if line = [] then (Inr (result, None), run5, lg3)
                      else (case stop_here line run5 lg3 of
                              (Inl e, run6, lg4) \<Rightarrow> (Inl e, run6, lg4)
                            | (Inr en, run6, lg4) \<Rightarrow> (Inr (result, Some en), run6, lg4)))))"

definition one_call ::
  "loop_machine \<Rightarrow> tool_call \<times> tool_answer \<Rightarrow> task_run \<Rightarrow> event_log \<Rightarrow> (tool_result \<times> ending option) answered" where
  "one_call m ca run lg =
     (case ca of (call, ans) \<Rightarrow>
      case log_event (keeper_id (tr_keeper run)) event_tool_call lg of
        (Inl e, lg1) \<Rightarrow> (Inl e, run, lg1)
      | (Inr _, lg1) \<Rightarrow>
          (case guard_call m call run of
             (Turned_down words, run1) \<Rightarrow> (Inr (refused_result call words, None), run1, lg1)
           | (Had_enough words, run1) \<Rightarrow>
               (case stop_on_the_guard ''the model asked for the same thing over and over'' run1 lg1 of
                  (Inl e, run2, lg2) \<Rightarrow> (Inl e, run2, lg2)
                | (Inr en, run2, lg2) \<Rightarrow> (Inr (refused_result call words, Some en), run2, lg2))
           | (Let_through, run1) \<Rightarrow>
               (case log_event (keeper_id (tr_keeper run1)) event_permission lg1 of
                  (Inl e, lg2) \<Rightarrow> (Inl e, run1, lg2)
                | (Inr _, lg2) \<Rightarrow>
                    if ta_allowed ans then run_and_record m call ans run1 lg2
                    else if ta_stops ans
                    then (case stop_here (''this needed a yes from the user and the run is unattended: '' @ ta_reason ans) run1 lg2 of
                            (Inl e, run2, lg3) \<Rightarrow> (Inl e, run2, lg3)
                          | (Inr en, run2, lg3) \<Rightarrow> (Inr (refused_result call (ta_reason ans), Some en), run2, lg3))
                    else (Inr (refused_result call (ta_reason ans), None), run1, lg2))))"

fun each_call ::
  "loop_machine \<Rightarrow> (tool_call \<times> tool_answer) list \<Rightarrow> task_run \<Rightarrow> event_log \<Rightarrow> (tool_result list \<times> ending option) answered" where
  "each_call m [] run lg = (Inr ([], None), run, lg)"
| "each_call m (ca # cas) run lg =
     (case one_call m ca run lg of
        (Inl e, run1, lg1) \<Rightarrow> (Inl e, run1, lg1)
      | (Inr (result, Some en), run1, lg1) \<Rightarrow> (Inr ([result], Some en), run1, lg1)
      | (Inr (result, None), run1, lg1) \<Rightarrow>
          (case each_call m cas run1 lg1 of
             (Inl e, run2, lg2) \<Rightarrow> (Inl e, run2, lg2)
           | (Inr (results, ended), run2, lg2) \<Rightarrow> (Inr (result # results, ended), run2, lg2)))"

end
