(* ===== verification/Loop_Meter.thy ===== *)
theory Loop_Meter
  imports Loop_Rounds
begin

text \<open>
  The end of a round: the meter (\<open>progress.go\<close>), the wall (\<open>samewall.go\<close>), the rewind and the rethink
  (\<open>guard.go\<close>, \<open>rethink.go\<close>), the fresh window (\<open>freshwindow.go\<close>) and the situation
  (\<open>situation.go\<close>), and the rounds of a task one after another.
\<close>

section \<open>The meter\<close>

definition nudge_after :: nat where "nudge_after = 10"
definition stalls_before_stop :: nat where "stalls_before_stop = 4"
definition rewind_after :: nat where "rewind_after = 20"
definition rounds_after_all_marked :: nat where "rounds_after_all_marked = 3"
definition calls_before_the_finish_nudge :: nat where "calls_before_the_finish_nudge = 100"

definition the_stall_line :: string where
  "the_stall_line = ''That is ten rounds in which no test went green, no plan step or done line was marked, no page changed under an action, no new file was written and nothing new was read. Write what these rounds showed into the record as a failure with its cause. Then name the symptom in one line, name two causes that could explain it, and make your next call the one that tells those two apart; more of the same will not move the count.''"

definition the_stall_line_after_a_failure :: string where
  "the_stall_line_after_a_failure = ''That is ten rounds in which no test went green, no plan step or done line was marked, no page changed under an action, no new file was written and nothing new was read, and the record already holds ''"

definition the_all_marked_line :: string where
  "the_all_marked_line = ''Every done line and every plan step is marked done. Answer the user now to end this task; anything more belongs to the next task, or to a new done line.''"

definition the_finish_nudge_line :: string where
  "the_finish_nudge_line = ''This task has made 100 calls. If its done lines are met, run the suite and finish. If not, write what blocks you as a failure and finish.''"

definition marks_made :: "record_of_work \<Rightarrow> nat" where
  "marks_made held = length (filter ps_done (w_plan (r_work held))) + length (filter dl_done (g_done_when (r_goal held)))"

definition all_marked :: "record_of_work \<Rightarrow> bool" where
  "all_marked held \<longleftrightarrow> g_done_when (r_goal held) \<noteq> [] \<and> list_all dl_done (g_done_when (r_goal held))
     \<and> list_all ps_done (w_plan (r_work held))"

definition note_all_marked :: "task_run \<Rightarrow> task_run" where
  "note_all_marked run =
     (if \<not> all_marked (held_record run) then run\<lparr>tr_all_marked := 0\<rparr>
      else let run1 = run\<lparr>tr_all_marked := tr_all_marked run + 1\<rparr> in
        if tr_all_marked run1 = rounds_after_all_marked then say the_all_marked_line run1 else run1)"

definition note_the_calls :: "tool_call list \<Rightarrow> task_run \<Rightarrow> task_run" where
  "note_the_calls calls run =
     (let run1 = run\<lparr>tr_calls_made := tr_calls_made run + length calls\<rparr> in
      if tr_finish_nudged run1 \<or> tr_calls_made run1 < calls_before_the_finish_nudge
         \<or> max_messages_kept < length (tr_messages run1) + 1 then run1
      else say the_finish_nudge_line (run1\<lparr>tr_finish_nudged := True\<rparr>))"

definition the_nudge :: "task_run \<Rightarrow> string" where
  "the_nudge run =
     (let failures = l_failures (r_lessons (held_record run)) in
      if nudge_after + 2 < tr_since_a_failure run \<or> failures = [] then the_stall_line
      else the_stall_line_after_a_failure @ fa_id (last failures)
        @ (if fa_cause (last failures) = [] then []
           else '', whose cause is '' @ [CHR 0x22] @ fa_cause (last failures) @ [CHR 0x22])
        @ ''. Write no more failures: make the change it calls for, in the file it names, and run the tests.'')"

definition the_progress_line :: "task_run \<Rightarrow> string" where
  "the_progress_line run = (if tr_idle run = 0 then [] else ''rounds since progress: '' @ itoa (int (tr_idle run)))"

text \<open>A stall on the budget the meter and the wall share.\<close>

definition stall_due :: "loop_machine \<Rightarrow> string \<Rightarrow> tool_call list \<Rightarrow> task_run \<Rightarrow> task_run" where
  "stall_due m said calls run =
     run\<lparr>tr_stalls := tr_stalls run + 1, tr_rewind_due := True, tr_stall_text := said,
         tr_stall_mark := the_mark_to_close m (tr_test_command run) calls\<rparr>"

definition the_wall_stop :: string where
  "the_wall_stop = ''the same result came back '' @ itoa (int same_wall_recurrences)
     @ '' times and nothing the model changed moved it, '' @ itoa (int stalls_before_stop) @ '' times over''"

definition the_wall_stall :: string where
  "the_wall_stall = ''stalled: the same result came back '' @ itoa (int same_wall_recurrences)
     @ '' times while the model kept working on other things, so it has hit a wall and nothing it changed has moved it''"

definition the_meter_stop :: string where
  "the_meter_stop = itoa (int rewind_after) @ '' rounds without progress, '' @ itoa (int stalls_before_stop) @ '' times over''"

definition the_meter_stall :: string where
  "the_meter_stall = ''stalled: '' @ itoa (int rewind_after)
     @ '' rounds in which no test went green, no step or done line was marked, no page changed, no new file was written and nothing new was read, so those rounds were cut from the conversation''"

definition ended_by_the_guard :: "string \<Rightarrow> task_run \<Rightarrow> event_log \<Rightarrow> (ending option) answered" where
  "ended_by_the_guard line run lg =
     (case stop_on_the_guard line run lg of
        (Inl e, run', lg') \<Rightarrow> (Inl e, run', lg') | (Inr en, run', lg') \<Rightarrow> (Inr (Some en), run', lg'))"

text \<open>\<open>None\<close> when the wall did not fire.\<close>

definition wall_stalls :: "loop_machine \<Rightarrow> tool_call list \<Rightarrow> task_run \<Rightarrow> event_log \<Rightarrow> (ending option) answered option" where
  "wall_stalls m calls run lg =
     (if tr_rewind_due run \<or> tr_since_a_mark run < same_wall_recurrences \<or> wall_hit (tr_wall run) = None then None
      else let run1 = run\<lparr>tr_wall := []\<rparr> in
        if stalls_before_stop - 1 \<le> tr_stalls run1 then Some (ended_by_the_guard the_wall_stop run1 lg)
        else Some (Inr None, stall_due m the_wall_stall calls run1, lg))"

definition one_more_idle :: "loop_machine \<Rightarrow> tool_call list \<Rightarrow> task_run \<Rightarrow> event_log \<Rightarrow> (ending option) answered" where
  "one_more_idle m calls run lg =
     (let run1 = run\<lparr>tr_idle := tr_idle run + 1\<rparr> in
      if tr_idle run1 = nudge_after then (Inr None, say (the_nudge run1) run1, lg)
      else if tr_idle run1 = rewind_after
      then (if stalls_before_stop - 1 \<le> tr_stalls run1 then ended_by_the_guard the_meter_stop run1 lg
            else (Inr None, stall_due m the_meter_stall calls run1, lg))
      else (Inr None, run1, lg))"

definition round_moved :: "nat \<Rightarrow> task_run \<Rightarrow> bool" where
  "round_moved marks_before run \<longleftrightarrow> tr_moved run \<or> marks_before < marks_made (held_record run)"

definition count_the_round ::
  "loop_machine \<Rightarrow> nat \<Rightarrow> tool_call list \<Rightarrow> task_run \<Rightarrow> event_log \<Rightarrow> (ending option) answered" where
  "count_the_round m marks_before calls run lg =
     (let marked = (marks_before < marks_made (held_record run));
          run1 = note_the_calls calls (note_all_marked
            (run\<lparr>tr_moved := False, tr_since_a_failure := tr_since_a_failure run + 1,
                tr_since_a_mark := (if marked then 0 else tr_since_a_mark run + 1)\<rparr>))
      in (case wall_stalls m calls run1 lg of
            Some ended \<Rightarrow> ended
          | None \<Rightarrow>
              if round_moved marks_before run
              then (Inr None, run1\<lparr>tr_idle := 0, tr_keep_through := length (tr_messages run1)\<rparr>, lg)
              else if only_polls calls then (Inr None, run1, lg)
              else one_more_idle m calls run1 lg))"

section \<open>The rewind and the rethink\<close>

text \<open>
  What is given to the end of a round: the block of bearings over the newest results, the answers to the
  question of a rethink and to the one asked once more, the ask, and the lines of the situation that are
  not kept here.
\<close>

record round_given =
  rg_bearings :: "(string \<times> string) list \<Rightarrow> string"
  rg_answer :: string
  rg_second_answer :: string
  rg_ask :: string
  rg_facts_before :: "string list"
  rg_files_line :: string
  rg_orient :: string

definition remember_the_orientation :: "round_given \<Rightarrow> task_run \<Rightarrow> event_log \<Rightarrow> task_run \<times> event_log" where
  "remember_the_orientation g run lg =
     (case newest_results (tr_keeper run) lg of (results, lg') \<Rightarrow> (say (rg_bearings g results) run, lg'))"

definition ask_once_more_if_the_causes_are_held ::
  "loop_machine \<Rightarrow> round_given \<Rightarrow> string \<Rightarrow> task_run \<Rightarrow> event_log \<Rightarrow> string \<times> event_log" where
  "ask_once_more_if_the_causes_are_held m g answer run lg =
     (if \<not> snd (the_failures_naming_the_causes (lm_unicode m) (l_failures (r_lessons (held_record run)))
                 (rt_causes (read_the_rethink answer)))
      then (answer, lg)
      else let again = trim_space (rg_second_answer g); lg' = log_the_question (keeper_id (tr_keeper run)) lg
        in (if again = [] then answer else again, lg'))"

definition write_the_rethink :: "loop_machine \<Rightarrow> rethink \<Rightarrow> task_run \<Rightarrow> event_log \<Rightarrow> task_run \<times> event_log" where
  "write_the_rethink m thought run lg =
     (case try_to_write m (failure_written (''stalled: '' @ rt_showed thought) (rt_symptom thought)) run lg of
        (run1, lg1) \<Rightarrow>
          try_to_write m (no_change\<lparr>up_decision := Some \<lparr>nd_text = ''Rethink: next '' @ rt_next thought,
            nd_reason = ''two causes: '' @ rt_causes thought\<rparr>\<rparr>) run1 lg1)"

definition close_the_stalled_call :: "string \<Rightarrow> task_run \<Rightarrow> task_run" where
  "close_the_stalled_call label run =
     run\<lparr>tr_closed := close_the_call (tr_rounds_used run) (tr_stall_mark run) label (tr_closed run), tr_stall_mark := []\<rparr>"

definition open_the_window_on_the_rethink :: "round_given \<Rightarrow> string \<Rightarrow> task_run \<Rightarrow> event_log \<Rightarrow> task_run \<times> event_log" where
  "open_the_window_on_the_rethink g answer run lg =
     (case remember_the_orientation g ((forget_the_calls run)\<lparr>tr_messages := []\<rparr>) lg of
        (run1, lg1) \<Rightarrow>
          let run2 = say (the_rethink_line @ [newline, newline] @ answer @ [newline, newline] @ the_do_the_next_line) run1
          in (run2\<lparr>tr_keep_through := length (tr_messages run2)\<rparr>, lg1))"

definition rethink_if_answered :: "loop_machine \<Rightarrow> round_given \<Rightarrow> task_run \<Rightarrow> event_log \<Rightarrow> bool \<times> task_run \<times> event_log" where
  "rethink_if_answered m g run lg =
     (case the_rethink_background (tr_tests_fact run) (tr_keeper run) lg of
        ((label, background), lg1) \<Rightarrow>
          let answer = trim_space (rg_answer g); lg2 = log_the_question (keeper_id (tr_keeper run)) lg1
          in if answer = [] then (False, run, lg2)
             else (case ask_once_more_if_the_causes_are_held m g answer run lg2 of
                     (taken, lg3) \<Rightarrow>
                       (case write_the_rethink m (read_the_rethink taken) run lg3 of
                          (run1, lg4) \<Rightarrow> (True, open_the_window_on_the_rethink g taken (close_the_stalled_call label run1) lg4))))"

definition the_rewind_line :: string where
  "the_rewind_line = ''You asked for the same thing over and over, so the rounds since your last progress were cut from the conversation; what came before them and the record are what stand. Do something different from the last few rounds: check the thing you kept re-reading another way, write what you find into the record as a failure with its cause, and go on from there. The same call again ends the task.''"

definition the_plain_cut :: "loop_machine \<Rightarrow> round_given \<Rightarrow> task_run \<Rightarrow> event_log \<Rightarrow> task_run \<times> event_log" where
  "the_plain_cut m g run lg =
     (case try_to_write m (failure_written (tr_stall_text run)
               ''nothing the last rounds returned changed what was asked next'') run lg of
        (run1, lg1) \<Rightarrow>
          (case remember_the_orientation g
                  ((forget_the_calls run1)\<lparr>tr_messages := take (tr_keep_through run1) (tr_messages run1)\<rparr>) lg1 of
             (run2, lg2) \<Rightarrow>
               let run3 = say the_rewind_line run2 in (run3\<lparr>tr_keep_through := length (tr_messages run3)\<rparr>, lg2)))"

definition rewind_if_due :: "loop_machine \<Rightarrow> round_given \<Rightarrow> task_run \<Rightarrow> event_log \<Rightarrow> task_run \<times> event_log" where
  "rewind_if_due m g run lg =
     (if \<not> tr_rewind_due run then (run, lg)
      else (case rethink_if_answered m g (run\<lparr>tr_rewind_due := False, tr_had_failure := True, tr_idle := 0\<rparr>) lg of
              (True, run1, lg1) \<Rightarrow> (run1, lg1) | (False, run1, lg1) \<Rightarrow> the_plain_cut m g run1 lg1))"

section \<open>A fresh window and the situation\<close>

definition the_fresh_window_line :: string where
  "the_fresh_window_line = ''The conversation reached its size cap, so this is a fresh window on the same task: ''
     @ ''the block above holds the newest results in full, the record holds every step and every result by its id, ''
     @ ''and \"read r7\" brings any of them back. Go on from where the record says the work stands.''"

definition reopen_the_window_if_full :: "round_given \<Rightarrow> task_run \<Rightarrow> event_log \<Rightarrow> unit answered" where
  "reopen_the_window_if_full g run lg =
     (if \<not> window_is_full (tr_messages run) then (Inr (), run, lg)
      else (case remember_the_orientation g (run\<lparr>tr_messages := []\<rparr>) lg of
              (run1, lg1) \<Rightarrow>
                let run2 = say (rg_ask g) (say the_fresh_window_line run1);
                    run3 = run2\<lparr>tr_keep_through := length (tr_messages run2)\<rparr>
                in (case log_event (keeper_id (tr_keeper run3)) event_record_change lg1 of
                      (Inl e, lg2) \<Rightarrow> (Inl e, run3, lg2) | (Inr _, lg2) \<Rightarrow> (Inr (), run3, lg2))))"

definition max_situation_line_letters :: nat where "max_situation_line_letters = 160"

definition cut_to_a_line :: "string \<Rightarrow> string" where
  "cut_to_a_line said =
     (let one = in_one_line said in
      if length (runes one) \<le> max_situation_line_letters then one
      else text_of_runes (take (max_situation_line_letters - 3) (runes one)) @ ''...'')"

definition situation_facts :: "round_given \<Rightarrow> task_run \<Rightarrow> string list" where
  "situation_facts g run =
     map cut_to_a_line (filter (\<lambda>fact. fact \<noteq> []) (rg_facts_before g))
     @ [''files changed in this task: '' @ rg_files_line g]
     @ map cut_to_a_line (filter (\<lambda>fact. fact \<noteq> []) [tr_command_fact run, tr_tests_fact run])
     @ filter (\<lambda>fact. fact \<noteq> []) [the_progress_line run]
     @ (if rg_orient g = [] then [] else [cut_to_a_line (''where the work stands: '' @ rg_orient g)])"

definition write_situation :: "round_given \<Rightarrow> task_run \<Rightarrow> event_log \<Rightarrow> unit answered" where
  "write_situation g run lg =
     (case set_situation (situation_facts g run) (tr_keeper run) lg of (a, k, lg') \<Rightarrow> (a, run\<lparr>tr_keeper := k\<rparr>, lg'))"

section \<open>A round\<close>

text \<open>
  From the model's reply on: the checkpoint of the round, its calls, the meter, the rewind, the fresh window, the
  probe line, the mark hint and the situation. A reply without calls ends or continues the task elsewhere.
\<close>

definition after_the_calls ::
  "loop_machine \<Rightarrow> round_given \<Rightarrow> nat \<Rightarrow> tool_call list \<Rightarrow> tool_result list \<times> ending option \<Rightarrow> task_run \<Rightarrow> event_log
     \<Rightarrow> (ending option) answered" where
  "after_the_calls m g marks_before calls res run lg =
     (case res of (results, ended) \<Rightarrow>
        let run1 = run\<lparr>tr_messages := remember_message \<lparr>cm_role = role_user, cm_text = [], cm_calls = [], cm_results = results\<rparr>
              (tr_messages run)\<rparr>
        in case (if ended = None then count_the_round m marks_before calls run1 lg else (Inr ended, run1, lg)) of
             (Inl e, run2, lg2) \<Rightarrow> (Inl e, run2, lg2)
           | (Inr ended2, run2, lg2) \<Rightarrow>
               (case rewind_if_due m g run2 lg2 of (run3, lg3) \<Rightarrow>
                  (case (if ended2 = None then reopen_the_window_if_full g run3 lg3 else (Inr (), run3, lg3)) of
                     (Inl e, run4, lg4) \<Rightarrow> (Inl e, run4, lg4)
                   | (Inr _, run4, lg4) \<Rightarrow>
                       (case write_situation g (say_the_mark_hint calls (say_the_probe_line run4)) lg4 of
                          (Inl e, run5, lg5) \<Rightarrow> (Inl e, run5, lg5)
                        | (Inr _, run5, lg5) \<Rightarrow> (Inr ended2, run5, lg5)))))"

definition run_the_calls ::
  "loop_machine \<Rightarrow> round_given \<Rightarrow> string \<Rightarrow> (tool_call \<times> tool_answer) list \<Rightarrow> task_run \<Rightarrow> event_log
     \<Rightarrow> (ending option) answered" where
  "run_the_calls m g said cas run lg =
     (let run1 = run\<lparr>tr_messages := remember_message
            \<lparr>cm_role = role_assistant, cm_text = said, cm_calls = map fst cas, cm_results = []\<rparr> (tr_messages run)\<rparr>
      in case each_call m cas run1 lg of
           (Inl e, run2, lg2) \<Rightarrow> (Inl e, run2, lg2)
         | (Inr res, run2, lg2) \<Rightarrow>
             after_the_calls m g (marks_made (held_record run1)) (map fst cas) res run2 lg2)"

text \<open>A task whose record has just been made, with the conversation it starts from (\<open>newRun\<close>).\<close>

definition new_run :: "keeper \<Rightarrow> chat_message list \<Rightarrow> task_run" where
  "new_run k messages =
     \<lparr>tr_keeper = k, tr_messages = messages, tr_keep_through = length messages, tr_rounds_used = 0, tr_recent = [], tr_wall = [],
      tr_rewinds_used = 0, tr_rewind_due = False, tr_stall_text = [], tr_stall_mark = [], tr_closed = (\<lambda>_. None),
      tr_idle = 0, tr_moved = False, tr_stalls = 0, tr_since_a_mark = 0, tr_since_a_failure = nudge_after + 3,
      tr_all_marked = 0, tr_calls_made = 0, tr_finish_nudged = False, tr_saw_a_test_run = False, tr_fewest_failed = 0,
      tr_last_failed = 0, tr_tests_fact = [], tr_tests_green = False, tr_failing_key = [], tr_same_failing = 0,
      tr_test_command = [], tr_read = (\<lambda>_. False), tr_said = (\<lambda>_. False), tr_files_changed = [],
      tr_changed_since_the_run = [], tr_command_fact = [], tr_probes = 0, tr_probe_line_due = False,
      tr_said_the_mark_hint = False, tr_had_failure = False, tr_stop_line = [], tr_jobs_made = [], tr_job_to_hand_to = []\<rparr>"

record task_round =
  ro_given :: round_given
  ro_said :: string
  ro_calls :: "(tool_call \<times> tool_answer) list"

definition one_round :: "loop_machine \<Rightarrow> task_round \<Rightarrow> task_run \<Rightarrow> event_log \<Rightarrow> (ending option) answered" where
  "one_round m r run lg =
     (let run1 = run\<lparr>tr_rounds_used := tr_rounds_used run + 1\<rparr> in
      case save_the_round (tr_keeper run1) lg of
        (Inl e, k, lg1) \<Rightarrow> (Inl e, run1\<lparr>tr_keeper := k\<rparr>, lg1)
      | (Inr _, k, lg1) \<Rightarrow> run_the_calls m (ro_given r) (ro_said r) (ro_calls r) (run1\<lparr>tr_keeper := k\<rparr>) lg1)"

fun play_rounds :: "loop_machine \<Rightarrow> task_round list \<Rightarrow> task_run \<Rightarrow> event_log \<Rightarrow> (ending option) answered" where
  "play_rounds m [] run lg = (Inr None, run, lg)"
| "play_rounds m (r # rs) run lg =
     (case one_round m r run lg of
        (Inr None, run1, lg1) \<Rightarrow> play_rounds m rs run1 lg1
      | ended \<Rightarrow> ended)"

end
