(* ===== verification/Loop_Ends.thy ===== *)
theory Loop_Ends
  imports Loop_Meter
begin

text \<open>
  Why a task that only goes round ends: each round that moves nothing is paid for out of a potential, which the
  stalls and the rewinds a task is allowed fill up. The bound is stated once, in a locale for steps that are
  paid for, and holds for the rounds of a task by its interpretation.
\<close>

section \<open>Steps that are paid for\<close>

fun steps_of :: "('r \<Rightarrow> 's \<Rightarrow> 's option) \<Rightarrow> 'r list \<Rightarrow> 's \<Rightarrow> 's option" where
  "steps_of step [] s = Some s"
| "steps_of step (r # rs) s = (case step r s of None \<Rightarrow> None | Some s' \<Rightarrow> steps_of step rs s')"

fun total_of :: "('r \<Rightarrow> 's \<Rightarrow> nat) \<Rightarrow> ('r \<Rightarrow> 's \<Rightarrow> 's option) \<Rightarrow> 'r list \<Rightarrow> 's \<Rightarrow> nat" where
  "total_of count step [] s = 0"
| "total_of count step (r # rs) s =
     count r s + (case step r s of None \<Rightarrow> 0 | Some s' \<Rightarrow> total_of count step rs s')"

locale paid_steps =
  fixes step :: "'r \<Rightarrow> 's \<Rightarrow> 's option"
    and sound :: "'s \<Rightarrow> bool"
    and potential :: "'s \<Rightarrow> nat"
    and cost gain :: "'r \<Rightarrow> 's \<Rightarrow> nat"
  assumes stays_sound: "sound s \<Longrightarrow> step r s = Some s' \<Longrightarrow> sound s'"
    and is_paid: "sound s \<Longrightarrow> step r s = Some s' \<Longrightarrow> cost r s + potential s' \<le> potential s + gain r s"
begin

lemma still_sound: "sound s \<Longrightarrow> steps_of step rs s = Some s' \<Longrightarrow> sound s'"
  by (induction rs arbitrary: s) (auto split: option.splits intro: stays_sound)

lemma cost_is_bounded:
  "sound s \<Longrightarrow> steps_of step rs s = Some s' \<Longrightarrow>
    total_of cost step rs s + potential s' \<le> potential s + total_of gain step rs s"
proof (induction rs arbitrary: s)
  case (Cons r rs)
  from Cons.prems(2) obtain s1 where s1: "step r s = Some s1" "steps_of step rs s1 = Some s'"
    by (auto split: option.splits)
  have "total_of cost step rs s1 + potential s' \<le> potential s1 + total_of gain step rs s1"
    using Cons.IH[OF stays_sound[OF Cons.prems(1) s1(1)] s1(2)] .
  then show ?case using is_paid[OF Cons.prems(1) s1(1)] s1(1) by simp
qed simp

end

section \<open>What counts on the meter\<close>

definition same_meter :: "task_run \<Rightarrow> task_run \<Rightarrow> bool" where
  "same_meter a b \<longleftrightarrow> tr_idle b = tr_idle a \<and> tr_stalls b = tr_stalls a \<and> tr_rewinds_used b = tr_rewinds_used a
     \<and> tr_rewind_due b = tr_rewind_due a"

lemma same_meter_refl [simp]: "same_meter a a" by (simp add: same_meter_def)

lemma same_meter_trans: "same_meter a b \<Longrightarrow> same_meter b c \<Longrightarrow> same_meter a c" by (simp add: same_meter_def)

named_theorems meter "operations that leave the meter as it is"

lemma say_meter [meter]: "same_meter a (say said run) \<longleftrightarrow> same_meter a run"
  by (simp add: say_def same_meter_def)

lemma note_progress_meter [meter]: "same_meter a (note_progress run) \<longleftrightarrow> same_meter a run"
  by (simp add: note_progress_def same_meter_def)

lemma forget_meter [meter]: "same_meter a (forget_the_calls run) \<longleftrightarrow> same_meter a run"
  by (simp add: forget_the_calls_def same_meter_def)

lemma fields_meter [meter]:
  "same_meter a (run\<lparr>tr_keeper := k\<rparr>) \<longleftrightarrow> same_meter a run"
  "same_meter a (run\<lparr>tr_messages := ms\<rparr>) \<longleftrightarrow> same_meter a run"
  "same_meter a (run\<lparr>tr_keep_through := n\<rparr>) \<longleftrightarrow> same_meter a run"
  "same_meter a (run\<lparr>tr_rounds_used := n\<rparr>) \<longleftrightarrow> same_meter a run"
  "same_meter a (run\<lparr>tr_recent := cs\<rparr>) \<longleftrightarrow> same_meter a run"
  "same_meter a (run\<lparr>tr_wall := ws\<rparr>) \<longleftrightarrow> same_meter a run"
  "same_meter a (run\<lparr>tr_stall_mark := s\<rparr>) \<longleftrightarrow> same_meter a run"
  "same_meter a (run\<lparr>tr_closed := c\<rparr>) \<longleftrightarrow> same_meter a run"
  "same_meter a (run\<lparr>tr_moved := b\<rparr>) \<longleftrightarrow> same_meter a run"
  "same_meter a (run\<lparr>tr_since_a_mark := n\<rparr>) \<longleftrightarrow> same_meter a run"
  "same_meter a (run\<lparr>tr_since_a_failure := n\<rparr>) \<longleftrightarrow> same_meter a run"
  "same_meter a (run\<lparr>tr_all_marked := n\<rparr>) \<longleftrightarrow> same_meter a run"
  "same_meter a (run\<lparr>tr_calls_made := n\<rparr>) \<longleftrightarrow> same_meter a run"
  "same_meter a (run\<lparr>tr_finish_nudged := b\<rparr>) \<longleftrightarrow> same_meter a run"
  "same_meter a (run\<lparr>tr_saw_a_test_run := b\<rparr>) \<longleftrightarrow> same_meter a run"
  "same_meter a (run\<lparr>tr_fewest_failed := i\<rparr>) \<longleftrightarrow> same_meter a run"
  "same_meter a (run\<lparr>tr_last_failed := i\<rparr>) \<longleftrightarrow> same_meter a run"
  "same_meter a (run\<lparr>tr_tests_fact := s\<rparr>) \<longleftrightarrow> same_meter a run"
  "same_meter a (run\<lparr>tr_tests_green := b\<rparr>) \<longleftrightarrow> same_meter a run"
  "same_meter a (run\<lparr>tr_failing_key := s\<rparr>) \<longleftrightarrow> same_meter a run"
  "same_meter a (run\<lparr>tr_same_failing := n\<rparr>) \<longleftrightarrow> same_meter a run"
  "same_meter a (run\<lparr>tr_test_command := s\<rparr>) \<longleftrightarrow> same_meter a run"
  "same_meter a (run\<lparr>tr_read := f\<rparr>) \<longleftrightarrow> same_meter a run"
  "same_meter a (run\<lparr>tr_said := f\<rparr>) \<longleftrightarrow> same_meter a run"
  "same_meter a (run\<lparr>tr_files_changed := ss\<rparr>) \<longleftrightarrow> same_meter a run"
  "same_meter a (run\<lparr>tr_changed_since_the_run := ss\<rparr>) \<longleftrightarrow> same_meter a run"
  "same_meter a (run\<lparr>tr_command_fact := s\<rparr>) \<longleftrightarrow> same_meter a run"
  "same_meter a (run\<lparr>tr_probes := n\<rparr>) \<longleftrightarrow> same_meter a run"
  "same_meter a (run\<lparr>tr_probe_line_due := b\<rparr>) \<longleftrightarrow> same_meter a run"
  "same_meter a (run\<lparr>tr_said_the_mark_hint := b\<rparr>) \<longleftrightarrow> same_meter a run"
  "same_meter a (run\<lparr>tr_had_failure := b\<rparr>) \<longleftrightarrow> same_meter a run"
  "same_meter a (run\<lparr>tr_stop_line := s\<rparr>) \<longleftrightarrow> same_meter a run"
  "same_meter a (run\<lparr>tr_jobs_made := ss\<rparr>) \<longleftrightarrow> same_meter a run"
  "same_meter a (run\<lparr>tr_job_to_hand_to := s\<rparr>) \<longleftrightarrow> same_meter a run"
  by (simp_all add: same_meter_def)

lemma notes_meter [meter]:
  "same_meter a (note_a_read_of_something_new call run) \<longleftrightarrow> same_meter a run"
  "same_meter a (note_a_result_that_says_something_new call shown run) \<longleftrightarrow> same_meter a run"
  "same_meter a (note_a_changed_page m shown run) \<longleftrightarrow> same_meter a run"
  "same_meter a (count_the_probe m call run) \<longleftrightarrow> same_meter a run"
  "same_meter a (say_the_probe_line run) \<longleftrightarrow> same_meter a run"
  "same_meter a (say_the_mark_hint calls run) \<longleftrightarrow> same_meter a run"
  "same_meter a (note_the_file m call failed run) \<longleftrightarrow> same_meter a run"
  "same_meter a (note_the_job_made shown run) \<longleftrightarrow> same_meter a run"
  "same_meter a (remember_the_test_command call shown run) \<longleftrightarrow> same_meter a run"
  "same_meter a (note_test_state m st run) \<longleftrightarrow> same_meter a run"
  "same_meter a (note_the_tests_improved_or_not st run) \<longleftrightarrow> same_meter a run"
  "same_meter a (note_a_stuck_test m st same run) \<longleftrightarrow> same_meter a run"
  "same_meter a (note_all_marked run) \<longleftrightarrow> same_meter a run"
  "same_meter a (note_the_calls calls run) \<longleftrightarrow> same_meter a run"
  "same_meter a (close_the_stalled_call label run) \<longleftrightarrow> same_meter a run"
  by (simp_all add: note_a_read_of_something_new_def note_a_result_that_says_something_new_def note_a_changed_page_def
      count_the_probe_def say_the_probe_line_def say_the_mark_hint_def note_the_file_def note_the_job_made_def
      remember_the_test_command_def note_test_state_def note_the_tests_improved_or_not_def note_a_stuck_test_def
      note_all_marked_def note_the_calls_def close_the_stalled_call_def Let_def meter split: option.split)

lemma note_what_the_result_shows_meter [meter]:
  "same_meter a (note_what_the_result_shows m call shown failed run) \<longleftrightarrow> same_meter a run"
  by (simp add: note_what_the_result_shows_def Let_def meter)

lemma try_to_write_meter:
  "try_to_write m up run lg = (run', lg') \<Longrightarrow> same_meter a run' \<longleftrightarrow> same_meter a run"
  by (auto simp: try_to_write_def meter split: prod.splits)

lemma write_what_the_tests_show_meter:
  "write_what_the_tests_show m call shown label run lg = (run', lg') \<Longrightarrow> same_meter a run' \<longleftrightarrow> same_meter a run"
  by (auto simp: write_what_the_tests_show_def Let_def meter dest!: try_to_write_meter split: option.splits if_splits)

lemma close_the_record_meter:
  "close_the_record status run lg = (x, run', lg') \<Longrightarrow> same_meter a run' \<longleftrightarrow> same_meter a run"
  by (auto simp: close_the_record_def meter split: prod.splits)

lemma stop_here_meter: "stop_here line run lg = (x, run', lg') \<Longrightarrow> same_meter a run' \<longleftrightarrow> same_meter a run"
  by (auto simp: stop_here_def meter dest!: close_the_record_meter[where a = a] split: prod.splits sum.splits if_splits)

lemma apply_record_write_meter:
  "apply_record_write m call ans run lg = (x, run', lg') \<Longrightarrow> same_meter a run' \<longleftrightarrow> same_meter a run"
  by (auto simp: apply_record_write_def meter split: prod.splits sum.splits option.splits)

lemma run_and_record_meter:
  assumes "run_and_record m call ans run lg = (Inr (result, None), run', lg')"
  shows "same_meter run run'"
  using assms
  by (auto simp: run_and_record_def Let_def meter split: prod.splits sum.splits if_splits
      dest!: apply_record_write_meter[where a = run] write_what_the_tests_show_meter[where a = run])

section \<open>What a call costs the meter\<close>

text \<open>The guard may make a rewind due, at the price of one of those that are left.\<close>

definition rewind_made_due :: "task_run \<Rightarrow> task_run \<Rightarrow> bool" where
  "rewind_made_due a b \<longleftrightarrow> same_meter a b
     \<or> (tr_idle b = tr_idle a \<and> tr_stalls b = tr_stalls a \<and> tr_rewind_due b \<and> \<not> tr_rewind_due a
        \<and> tr_rewinds_used b = tr_rewinds_used a + 1 \<and> tr_rewinds_used a < rewinds_allowed)"

lemma rewind_made_due_trans:
  "rewind_made_due a b \<Longrightarrow> rewind_made_due b c \<Longrightarrow> rewind_made_due a c"
  by (auto simp: rewind_made_due_def same_meter_def)

lemma guard_call_meter: "guard_call m call run = (v, run') \<Longrightarrow> rewind_made_due run run'"
  by (auto simp: guard_call_def rewind_made_due_def same_meter_def Let_def split: prod.splits if_splits)

lemma after_same_meter: "rewind_made_due a b \<Longrightarrow> same_meter b c \<Longrightarrow> rewind_made_due a c"
  by (auto simp: rewind_made_due_def same_meter_def)

lemma one_call_meter:
  assumes "one_call m ca run lg = (Inr (result, None), run', lg')"
  shows "rewind_made_due run run'"
proof -
  obtain v run1 where g: "guard_call m (fst ca) run = (v, run1)" by (cases "guard_call m (fst ca) run")
  from guard_call_meter[OF g] have "rewind_made_due run run1" .
  moreover have "run' = run1 \<or> same_meter run1 run'"
    using assms g
    by (auto simp: one_call_def split: prod.splits sum.splits verdict.splits if_splits dest: run_and_record_meter)
  ultimately show ?thesis using after_same_meter by blast
qed

lemma each_call_meter:
  "each_call m cas run lg = (Inr (results, None), run', lg') \<Longrightarrow> rewind_made_due run run'"
proof (induction cas arbitrary: run lg results)
  case Nil
  then show ?case by (simp add: rewind_made_due_def)
next
  case (Cons ca cas)
  from Cons.prems obtain result run1 lg1 more where "one_call m ca run lg = (Inr (result, None), run1, lg1)"
    "each_call m cas run1 lg1 = (Inr (more, None), run', lg')"
    by (auto split: prod.splits sum.splits option.splits)
  then show ?case using rewind_made_due_trans one_call_meter Cons.IH by blast
qed

section \<open>What the end of a round does to the meter\<close>

lemma remember_the_orientation_meter:
  "remember_the_orientation g run lg = (run', lg') \<Longrightarrow> same_meter a run' \<longleftrightarrow> same_meter a run"
  by (auto simp: remember_the_orientation_def meter split: prod.splits)

lemma open_the_window_meter:
  "open_the_window_on_the_rethink g answer run lg = (run', lg') \<Longrightarrow> same_meter a run' \<longleftrightarrow> same_meter a run"
  by (auto simp: open_the_window_on_the_rethink_def Let_def meter dest!: remember_the_orientation_meter[where a = a]
      split: prod.splits)

lemma write_the_rethink_meter:
  "write_the_rethink m thought run lg = (run', lg') \<Longrightarrow> same_meter a run' \<longleftrightarrow> same_meter a run"
  by (auto simp: write_the_rethink_def dest!: try_to_write_meter[where a = a] split: prod.splits)

lemma rethink_meter:
  "rethink_if_answered m g run lg = (b, run', lg') \<Longrightarrow> same_meter a run' \<longleftrightarrow> same_meter a run"
  by (auto simp: rethink_if_answered_def Let_def meter dest!: open_the_window_meter[where a = a]
      write_the_rethink_meter[where a = a] split: prod.splits if_splits)

lemma the_plain_cut_meter:
  "the_plain_cut m g run lg = (run', lg') \<Longrightarrow> same_meter a run' \<longleftrightarrow> same_meter a run"
  by (auto simp: the_plain_cut_def Let_def meter dest!: try_to_write_meter[where a = a]
      remember_the_orientation_meter[where a = a] split: prod.splits)

lemma rewind_meter:
  assumes "rewind_if_due m g run lg = (run', lg')"
  shows "tr_stalls run' = tr_stalls run \<and> tr_rewinds_used run' = tr_rewinds_used run \<and> \<not> tr_rewind_due run'
    \<and> tr_idle run' = (if tr_rewind_due run then 0 else tr_idle run)"
proof (cases "tr_rewind_due run")
  case True
  let ?run = "run\<lparr>tr_rewind_due := False, tr_had_failure := True, tr_idle := 0\<rparr>"
  have "same_meter ?run run'"
    using assms True the_plain_cut_meter[where a = ?run] rethink_meter[where a = ?run]
    by (auto simp: rewind_if_due_def split: prod.splits bool.splits)
  then show ?thesis using True by (simp add: same_meter_def)
qed (use assms in \<open>simp add: rewind_if_due_def\<close>)

lemma reopen_meter:
  "reopen_the_window_if_full g run lg = (x, run', lg') \<Longrightarrow> same_meter a run' \<longleftrightarrow> same_meter a run"
  by (auto simp: reopen_the_window_if_full_def Let_def meter dest!: remember_the_orientation_meter[where a = a]
      split: prod.splits sum.splits if_splits)

lemma write_situation_meter: "write_situation g run lg = (x, run', lg') \<Longrightarrow> same_meter a run' \<longleftrightarrow> same_meter a run"
  by (auto simp: write_situation_def meter split: prod.splits)

definition potential :: "task_run \<Rightarrow> nat" where
  "potential run = rewind_after * (stalls_before_stop - 1 - tr_stalls run)
     + rewind_after * (rewinds_allowed - tr_rewinds_used run) + (rewind_after - tr_idle run)"

definition meter_sound :: "task_run \<Rightarrow> bool" where
  "meter_sound run \<longleftrightarrow> tr_idle run < rewind_after \<and> tr_stalls run < stalls_before_stop
     \<and> tr_rewinds_used run \<le> rewinds_allowed \<and> \<not> tr_rewind_due run"

lemmas meter_numbers = rewind_after_def stalls_before_stop_def rewinds_allowed_def nudge_after_def

text \<open>The state the meter is in once the round is counted: what was due before it, or a stall more.\<close>

definition counted :: "bool \<Rightarrow> bool \<Rightarrow> task_run \<Rightarrow> task_run \<Rightarrow> bool" where
  "counted moved polls a b \<longleftrightarrow> tr_rewinds_used b = tr_rewinds_used a \<and>
     ((tr_stalls b = tr_stalls a + 1 \<and> tr_stalls a + 1 < stalls_before_stop \<and> tr_rewind_due b)
      \<or> (tr_stalls b = tr_stalls a \<and> tr_rewind_due b = tr_rewind_due a
         \<and> tr_idle b = (if moved then 0 else if polls then tr_idle a else tr_idle a + 1)
         \<and> (moved \<or> polls \<or> tr_idle a + 1 \<noteq> rewind_after)))"

lemma counted_from: "same_meter a a' \<Longrightarrow> counted moved polls a' b \<Longrightarrow> counted moved polls a b"
  by (cases moved; cases polls) (simp_all add: counted_def same_meter_def)

lemma round_moved_messages [simp]: "round_moved marks_before (run\<lparr>tr_messages := ms\<rparr>) = round_moved marks_before run"
  by (simp add: round_moved_def held_record_def)

lemma stall_due_counted:
  "same_meter a run \<Longrightarrow> tr_stalls run < 3 \<Longrightarrow> counted moved polls a (stall_due m said calls run)"
  by (simp add: counted_def stall_due_def same_meter_def stalls_before_stop_def)

lemma ended_by_the_guard_ends: "ended_by_the_guard line run lg \<noteq> (Inr None, run', lg')"
  by (auto simp: ended_by_the_guard_def split: prod.splits sum.splits)

lemma one_more_idle_counted:
  assumes "one_more_idle m calls run lg = (Inr None, run', lg')" "same_meter a run"
  shows "counted False False a run'"
proof -
  let ?run = "run\<lparr>tr_idle := tr_idle run + 1\<rparr>"
  have say: "tr_idle (say w ?run) = tr_idle a + 1 \<and> tr_stalls (say w ?run) = tr_stalls a
      \<and> tr_rewinds_used (say w ?run) = tr_rewinds_used a \<and> tr_rewind_due (say w ?run) = tr_rewind_due a" for w
    using assms(2) by (simp add: say_def same_meter_def)
  show ?thesis
    using assms say[of "the_nudge ?run"] ended_by_the_guard_ends[of the_meter_stop ?run lg run' lg']
    by (auto simp: one_more_idle_def Let_def counted_def same_meter_def stall_due_def meter_numbers split: if_splits)
qed

lemma count_the_round_counted:
  assumes "count_the_round m marks_before calls run lg = (Inr None, run', lg')"
  shows "counted (round_moved marks_before run) (only_polls calls) run run'"
proof -
  let ?run = "note_the_calls calls (note_all_marked (run\<lparr>tr_moved := False, tr_since_a_failure := tr_since_a_failure run + 1,
     tr_since_a_mark := (if marks_before < marks_made (held_record run) then 0 else tr_since_a_mark run + 1)\<rparr>))"
  have same: "same_meter run ?run" by (simp add: meter)
  show ?thesis
  proof (cases "wall_stalls m calls ?run lg")
    case None
    consider (moved) "round_moved marks_before run"
      | (polls) "\<not> round_moved marks_before run" "only_polls calls"
      | (idle) "\<not> round_moved marks_before run" "\<not> only_polls calls" by blast
    then show ?thesis
    proof cases
      case idle
      then show ?thesis using assms None one_more_idle_counted[OF _ same, of m calls lg run' lg']
        by (simp add: count_the_round_def Let_def)
    qed (use assms None same in \<open>auto simp: count_the_round_def Let_def counted_def same_meter_def\<close>)
  next
    case (Some ended)
    then have e: "ended = (Inr None, run', lg')" using assms by (simp add: count_the_round_def Let_def)
    have "tr_stalls ?run < 3 \<and> run' = stall_due m the_wall_stall calls (?run\<lparr>tr_wall := []\<rparr>)"
      using Some e ended_by_the_guard_ends[of the_wall_stop "?run\<lparr>tr_wall := []\<rparr>" lg run' lg']
      by (auto simp: wall_stalls_def Let_def stalls_before_stop_def split: if_splits)
    then show ?thesis using stall_due_counted[of run "?run\<lparr>tr_wall := []\<rparr>"] same by (simp add: meter)
  qed
qed

lemma after_the_calls_meter:
  assumes a: "after_the_calls m g marks_before calls (results, None) run lg = (Inr None, run', lg')"
  shows "\<exists>b. counted (round_moved marks_before run) (only_polls calls) run b
    \<and> tr_stalls run' = tr_stalls b \<and> tr_rewinds_used run' = tr_rewinds_used b \<and> \<not> tr_rewind_due run'
    \<and> tr_idle run' = (if tr_rewind_due b then 0 else tr_idle b)"
proof -
  let ?run = "run\<lparr>tr_messages := remember_message \<lparr>cm_role = role_user, cm_text = [], cm_calls = [], cm_results = results\<rparr>
              (tr_messages run)\<rparr>"
  obtain b lg2 run3 lg3 run4 lg4 where c: "count_the_round m marks_before calls ?run lg = (Inr None, b, lg2)"
    and r: "rewind_if_due m g b lg2 = (run3, lg3)" and o: "reopen_the_window_if_full g run3 lg3 = (Inr (), run4, lg4)"
    and w: "write_situation g (say_the_mark_hint calls (say_the_probe_line run4)) lg4 = (Inr (), run', lg')"
    using a by (auto simp: after_the_calls_def Let_def split: prod.splits sum.splits if_splits)
  have "same_meter run3 run'"
    using write_situation_meter[OF w, of run3] reopen_meter[OF o, of run3] by (simp add: meter)
  then have "tr_stalls run' = tr_stalls b \<and> tr_rewinds_used run' = tr_rewinds_used b \<and> \<not> tr_rewind_due run'
      \<and> tr_idle run' = (if tr_rewind_due b then 0 else tr_idle b)"
    using rewind_meter[OF r] by (simp add: same_meter_def)
  moreover have "counted (round_moved marks_before run) (only_polls calls) run b"
    using counted_from[OF _ count_the_round_counted[OF c], of run] by (simp add: meter)
  ultimately show ?thesis by blast
qed

section \<open>The rounds of a task are paid for\<close>

text \<open>A state of a task with its log, and the next one when the round neither ends nor fails.\<close>

definition goes_on :: "loop_machine \<Rightarrow> task_round \<Rightarrow> task_run \<times> event_log \<Rightarrow> (task_run \<times> event_log) option" where
  "goes_on m r s = (case one_round m r (fst s) (snd s) of (Inr None, s') \<Rightarrow> Some s' | _ \<Rightarrow> None)"

text \<open>The run when its round is counted, and the marks before it.\<close>

definition at_the_count :: "loop_machine \<Rightarrow> task_round \<Rightarrow> task_run \<times> event_log \<Rightarrow> (nat \<times> task_run) option" where
  "at_the_count m r s =
     (let run1 = (fst s)\<lparr>tr_rounds_used := tr_rounds_used (fst s) + 1\<rparr> in
      case save_the_round (tr_keeper run1) (snd s) of
        (Inl e, k, lg1) \<Rightarrow> None
      | (Inr _, k, lg1) \<Rightarrow>
          let run2 = run1\<lparr>tr_keeper := k, tr_messages := remember_message
                \<lparr>cm_role = role_assistant, cm_text = ro_said r, cm_calls = map fst (ro_calls r), cm_results = []\<rparr> (tr_messages run1)\<rparr>
          in (case each_call m (ro_calls r) run2 lg1 of
                (Inr (results, None), run3, lg2) \<Rightarrow> Some (marks_made (held_record run2), run3)
              | _ \<Rightarrow> None))"

definition moving_round :: "loop_machine \<Rightarrow> task_round \<Rightarrow> task_run \<times> event_log \<Rightarrow> bool" where
  "moving_round m r s \<longleftrightarrow> (case at_the_count m r s of None \<Rightarrow> False | Some (marks, run) \<Rightarrow> round_moved marks run)"

definition idle_round :: "loop_machine \<Rightarrow> task_round \<Rightarrow> task_run \<times> event_log \<Rightarrow> bool" where
  "idle_round m r s \<longleftrightarrow> \<not> moving_round m r s \<and> \<not> only_polls (map fst (ro_calls r))"

lemma idle_step:
  assumes "meter_sound a" "rewind_made_due a b" "counted moved polls b c" "tr_stalls d = tr_stalls c"
    "tr_rewinds_used d = tr_rewinds_used c" "\<not> tr_rewind_due d" "tr_idle d = (if tr_rewind_due c then 0 else tr_idle c)"
  shows "meter_sound d \<and>
    (if \<not> moved \<and> \<not> polls then 1 else 0) + potential d \<le> potential a + (if moved then rewind_after - 1 else 0)"
  using assms by (auto simp: meter_sound_def potential_def rewind_made_due_def same_meter_def counted_def meter_numbers
      split: if_splits)

lemma round_is_paid:
  assumes "meter_sound (fst s)" "goes_on m r s = Some s'"
  shows "meter_sound (fst s') \<and> (if idle_round m r s then 1 else 0) + potential (fst s')
    \<le> potential (fst s) + (if moving_round m r s then rewind_after - 1 else 0)"
proof -
  let ?run1 = "(fst s)\<lparr>tr_rounds_used := tr_rounds_used (fst s) + 1\<rparr>"
  obtain k lg1 where k: "save_the_round (tr_keeper (fst s)) (snd s) = (Inr (), k, lg1)"
    using assms(2) by (auto simp: goes_on_def one_round_def Let_def split: prod.splits sum.splits)
  let ?run2 = "?run1\<lparr>tr_keeper := k, tr_messages := remember_message
     \<lparr>cm_role = role_assistant, cm_text = ro_said r, cm_calls = map fst (ro_calls r), cm_results = []\<rparr> (tr_messages (fst s))\<rparr>"
  have o: "run_the_calls m (ro_given r) (ro_said r) (ro_calls r) (?run1\<lparr>tr_keeper := k\<rparr>) lg1 = (Inr None, s')"
    using assms(2) k by (auto simp: goes_on_def one_round_def Let_def split: prod.splits sum.splits option.splits)
  then obtain results ended run3 lg2 where e: "each_call m (ro_calls r) ?run2 lg1 = (Inr (results, ended), run3, lg2)"
    and f: "after_the_calls m (ro_given r) (marks_made (held_record ?run2)) (map fst (ro_calls r)) (results, ended) run3 lg2
      = (Inr None, s')"
    by (auto simp: run_the_calls_def Let_def held_record_def split: prod.splits sum.splits)
  have none: "ended = None"
    using f by (auto simp: after_the_calls_def Let_def split: prod.splits sum.splits if_splits)
  have at: "at_the_count m r s = Some (marks_made (held_record ?run2), run3)"
    using k e none by (simp add: at_the_count_def Let_def)
  have "rewind_made_due ?run2 run3" using each_call_meter e none by blast
  then have grew: "rewind_made_due (fst s) run3" by (simp add: rewind_made_due_def same_meter_def)
  obtain lg' where s': "s' = (fst s', lg')" by (cases s') simp
  obtain b where "counted (round_moved (marks_made (held_record ?run2)) run3) (only_polls (map fst (ro_calls r))) run3 b"
    "tr_stalls (fst s') = tr_stalls b" "tr_rewinds_used (fst s') = tr_rewinds_used b" "\<not> tr_rewind_due (fst s')"
    "tr_idle (fst s') = (if tr_rewind_due b then 0 else tr_idle b)"
    using after_the_calls_meter[of m "ro_given r" _ _ results run3 lg2 "fst s'" lg'] f none s' by metis
  from idle_step[OF assms(1) grew this] show ?thesis
    using at by (simp add: idle_round_def moving_round_def)
qed

interpretation rounds: paid_steps "goes_on m" "\<lambda>s. meter_sound (fst s)" "\<lambda>s. potential (fst s)"
    "\<lambda>r s. if idle_round m r s then 1 else 0" "\<lambda>r s. if moving_round m r s then rewind_after - 1 else 0" for m
  by unfold_locales (use round_is_paid in blast)+

definition idle_rounds :: "loop_machine \<Rightarrow> task_round list \<Rightarrow> task_run \<times> event_log \<Rightarrow> nat" where
  "idle_rounds m rs s = total_of (\<lambda>r s. if idle_round m r s then 1 else 0) (goes_on m) rs s"

definition moving_rounds :: "loop_machine \<Rightarrow> task_round list \<Rightarrow> task_run \<times> event_log \<Rightarrow> nat" where
  "moving_rounds m rs s = total_of (\<lambda>r s. if moving_round m r s then 1 else 0) (goes_on m) rs s"

lemma gain_of_moving:
  "total_of (\<lambda>r s. if moving_round m r s then c else 0) (goes_on m) rs s = c * moving_rounds m rs s"
  unfolding moving_rounds_def by (induction rs arbitrary: s) (auto split: option.split)

lemma play_goes_on:
  "play_rounds m rs run lg = (Inr None, run', lg') \<longleftrightarrow> steps_of (goes_on m) rs (run, lg) = Some (run', lg')"
  by (induction rs arbitrary: run lg)
    (auto simp: goes_on_def split: prod.splits sum.splits option.splits)

lemma idle_rounds_bound:
  assumes "meter_sound run" "play_rounds m rs run lg = (Inr None, run', lg')"
  shows "idle_rounds m rs (run, lg) + potential run' \<le> potential run + 19 * moving_rounds m rs (run, lg)
    \<and> meter_sound run'"
  using rounds.cost_is_bounded[of "(run, lg)" m rs "(run', lg')"] rounds.still_sound[of "(run, lg)" m rs "(run', lg')"] assms
  by (simp add: play_goes_on gain_of_moving idle_rounds_def meter_numbers)

lemma new_run_sound: "meter_sound (new_run k messages)" "potential (new_run k messages) = 140"
  by (simp_all add: meter_sound_def potential_def new_run_def meter_numbers)

lemma sound_has_potential: "meter_sound run \<Longrightarrow> 1 \<le> potential run"
  unfolding meter_sound_def potential_def by linarith

end
