(* ===== verification/Loop_Records.thy ===== *)
theory Loop_Records
  imports Loop_Ends Keeper_Life
begin

text \<open>
  What the rounds of a task do to its record goes through its keeper: every round is a chain of the steps a
  keeper and the world around it take, so that what holds in every state of a keeper holds after every round.
\<close>

definition keeps_to :: "loop_machine \<Rightarrow> start_of_record \<Rightarrow> task_run \<Rightarrow> event_log \<Rightarrow> task_run \<Rightarrow> event_log \<Rightarrow> bool" where
  "keeps_to m st run lg run' lg' \<longleftrightarrow> world_steps (lm_unicode m) st (tr_keeper run, lg) (tr_keeper run', lg')"

lemma keeps_to_refl [simp]: "tr_keeper run' = tr_keeper run \<Longrightarrow> keeps_to m st run lg run' lg"
  by (simp add: keeps_to_def)

lemma keeps_to_trans: "keeps_to m st a la b lb \<Longrightarrow> keeps_to m st b lb c lc \<Longrightarrow> keeps_to m st a la c lc"
  by (simp add: keeps_to_def)

lemma keeps_to_same:
  "keeps_to m st a la b lb \<Longrightarrow> tr_keeper a' = tr_keeper a \<Longrightarrow> tr_keeper b' = tr_keeper b \<Longrightarrow> keeps_to m st a' la b' lb"
  by (simp add: keeps_to_def)

lemma performed:
  "perform (lm_unicode m) c (tr_keeper run) lg = (a, k, lg') \<Longrightarrow> tr_keeper run' = k \<Longrightarrow> keeps_to m st run lg run' lg'"
  by (auto simp: keeps_to_def intro: moves_are_world_steps perform_moves)

lemma event_logged:
  assumes "log_event task kind lg = (x, lg')" "kind \<notin> {event_checkpoint, event_tool_result}"
    "tr_keeper run' = tr_keeper run"
  shows "keeps_to m st run lg run' lg'"
  using elsewhere[of lg "new_event task kind plain_body" x lg' st "lm_unicode m" "tr_keeper run"] assms
  by (auto simp: keeps_to_def log_event_def new_event_def)

lemma result_was_read:
  assumes "keeper_read i (tr_keeper run) lg = (x, lg')" "tr_keeper run' = tr_keeper run"
  shows "keeps_to m st run lg run' lg'"
  using performed[where m = m and st = st and c = "Read i" and run = run and lg = lg and run' = run'] assms by simp

named_theorems keeper_same "operations that leave the keeper as it is"

lemma say_keeper [keeper_same]: "tr_keeper (say said run) = tr_keeper run"
  "tr_keeper (note_progress run) = tr_keeper run" "tr_keeper (forget_the_calls run) = tr_keeper run"
  by (simp_all add: say_def note_progress_def forget_the_calls_def)

lemma notes_keeper [keeper_same]:
  "tr_keeper (note_a_read_of_something_new call run) = tr_keeper run"
  "tr_keeper (note_a_result_that_says_something_new call shown run) = tr_keeper run"
  "tr_keeper (note_a_changed_page m shown run) = tr_keeper run"
  "tr_keeper (count_the_probe m call run) = tr_keeper run"
  "tr_keeper (say_the_probe_line run) = tr_keeper run"
  "tr_keeper (say_the_mark_hint calls run) = tr_keeper run"
  "tr_keeper (note_the_file m call failed run) = tr_keeper run"
  "tr_keeper (note_the_job_made shown run) = tr_keeper run"
  "tr_keeper (remember_the_test_command call shown run) = tr_keeper run"
  "tr_keeper (note_test_state m st run) = tr_keeper run"
  "tr_keeper (note_the_tests_improved_or_not st run) = tr_keeper run"
  "tr_keeper (note_a_stuck_test m st same run) = tr_keeper run"
  "tr_keeper (note_all_marked run) = tr_keeper run"
  "tr_keeper (note_the_calls calls run) = tr_keeper run"
  "tr_keeper (close_the_stalled_call label run) = tr_keeper run"
  "tr_keeper (stall_due m said calls run) = tr_keeper run"
  by (simp_all add: note_a_read_of_something_new_def note_a_result_that_says_something_new_def note_a_changed_page_def
      count_the_probe_def say_the_probe_line_def say_the_mark_hint_def note_the_file_def note_the_job_made_def
      remember_the_test_command_def note_test_state_def note_the_tests_improved_or_not_def note_a_stuck_test_def
      note_all_marked_def note_the_calls_def close_the_stalled_call_def stall_due_def Let_def keeper_same split: option.split)

lemma note_what_the_result_shows_keeper [keeper_same]:
  "tr_keeper (note_what_the_result_shows m call shown failed run) = tr_keeper run"
  by (simp add: note_what_the_result_shows_def Let_def keeper_same)

lemma guard_call_keeper: "guard_call m call run = (v, run') \<Longrightarrow> tr_keeper run' = tr_keeper run"
  by (auto simp: guard_call_def Let_def split: prod.splits if_splits)

section \<open>Writing\<close>

lemma try_to_write_keeps:
  "try_to_write m up run lg = (run', lg') \<Longrightarrow> keeps_to m st run lg run' lg'"
  by (auto simp: try_to_write_def split: prod.splits intro!: performed[where c = "Apply up"])

lemma close_the_record_keeps:
  "close_the_record status run lg = (x, run', lg') \<Longrightarrow> keeps_to m st run lg run' lg'"
  by (auto simp: close_the_record_def split: prod.splits intro!: performed[where c = "SetStatus status"])

lemma stop_here_keeps:
  assumes "stop_here line run lg = (x, run', lg')"
  shows "keeps_to m st run lg run' lg'"
  using assms close_the_record_keeps[where run = run]
    keeps_to_same[OF close_the_record_keeps[where run = "forget_the_calls (run\<lparr>tr_stop_line := line\<rparr>)"], where a' = run, OF _ _ refl]
  by (auto simp: stop_here_def keeper_same split: prod.splits sum.splits if_splits)

lemma stop_on_the_guard_keeps:
  "stop_on_the_guard line run lg = (x, run', lg') \<Longrightarrow> keeps_to m st run lg run' lg'"
  by (auto simp: stop_on_the_guard_def split: prod.splits sum.splits dest: stop_here_keeps)

lemma write_what_the_tests_show_keeps:
  assumes "write_what_the_tests_show m call shown label run lg = (run', lg')"
  shows "keeps_to m st run lg run' lg'"
  using assms
  by (auto simp: write_what_the_tests_show_def Let_def keeper_same split: option.splits if_splits
      dest!: try_to_write_keeps[where st = st] elim!: keeps_to_same)

lemma apply_record_write_keeps:
  assumes "apply_record_write m call ans run lg = (x, run', lg')"
  shows "keeps_to m st run lg run' lg'"
  using assms
  by (auto simp: apply_record_write_def split: prod.splits sum.splits option.splits
      intro!: performed[where c = "Apply (the (ta_write ans))"])

lemma result_added:
  assumes "add_result_of_call i summary shown (tr_keeper run) lg = (x, k, lg')"
  shows "keeps_to m st run lg (run\<lparr>tr_keeper := k\<rparr>) lg'"
  using assms
  by (intro performed[where c = "AddResultOfCall i summary shown" and a = "map_sum id (\<lambda>_. ()) x"])
    (auto simp: without_answer_def)

lemma run_and_record_keeps:
  assumes "run_and_record m call ans run lg = (x, run', lg')"
  shows "keeps_to m st run lg run' lg'"
proof -
  obtain shown failed run1 lg1 where w: "apply_record_write m call ans run lg = ((shown, failed), run1, lg1)"
    by (metis prod_cases4 surj_pair)
  let ?run2 = "(remember_the_test_command call (ta_text ans) run1)\<lparr>tr_recent := note_the_result m shown (tr_recent run1)\<rparr>"
  let ?run3 = "if is_a_poll_or_tail call then ?run2
     else ?run2\<lparr>tr_wall := note_on_the_wall m (mark_of m call) shown (tr_wall ?run2)\<rparr>"
  obtain a k lg2 where r: "add_result_of_call (tc_id call) (summary_of_result m (tc_name call) shown failed) shown
      (tr_keeper ?run3) lg1 = (a, k, lg2)" by (metis prod_cases3)
  have three: "tr_keeper ?run3 = tr_keeper run1" by (simp add: keeper_same)
  have added: "keeps_to m st run lg (?run3\<lparr>tr_keeper := k\<rparr>) lg2"
    using keeps_to_trans[OF apply_record_write_keeps[OF w] keeps_to_same[OF result_added[OF r]]] three by simp
  show ?thesis
  proof (cases a)
    case (Inl e)
    then show ?thesis using assms w r added by (simp add: run_and_record_def Let_def split: if_splits)
  next
    case (Inr label)
    obtain run4 lg3 where t: "write_what_the_tests_show m call shown label
        (note_what_the_result_shows m call shown failed (?run3\<lparr>tr_keeper := k\<rparr>)) lg2 = (run4, lg3)" by (metis surj_pair)
    have four: "keeps_to m st run lg (count_the_probe m call run4) lg3"
      by (rule keeps_to_trans[OF added keeps_to_same[OF write_what_the_tests_show_keeps[OF t]]]) (simp_all add: keeper_same)
    consider "run' = count_the_probe m call run4" "lg' = lg3"
      | (stopped) y line where "stop_here line (count_the_probe m call run4) lg3 = (y, run', lg')"
      using assms w r t Inr by (auto simp: run_and_record_def Let_def split: if_splits prod.splits sum.splits)
    then show ?thesis
    proof cases
      case stopped
      then show ?thesis using keeps_to_trans[OF four stop_here_keeps[OF stopped]] by simp
    qed (use four in simp)
  qed
qed

lemma one_call_keeps:
  assumes "one_call m ca run lg = (x, run', lg')"
  shows "keeps_to m st run lg run' lg'"
proof -
  obtain call ans where ca: "ca = (call, ans)" by (cases ca)
  obtain a lg1 where e: "log_event (keeper_id (tr_keeper run)) event_tool_call lg = (a, lg1)" by (metis surj_pair)
  obtain v run1 where g: "guard_call m call run = (v, run1)" by (metis surj_pair)
  have one: "keeps_to m st run lg run2 lg1" if "tr_keeper run2 = tr_keeper run" for run2
    using event_logged[OF e _ that] by (simp add: event_kind_defs)
  note one1 = one[OF guard_call_keeper[OF g]]
  show ?thesis
  proof (cases a)
    case (Inl er)
    then show ?thesis using assms ca e one[of run] by (simp add: one_call_def)
  next
    case (Inr n)
    show ?thesis
    proof (cases v)
      case (Turned_down words)
      then show ?thesis using assms ca e g Inr one1 by (simp add: one_call_def)
    next
      case (Had_enough words)
      then have "\<exists>y. stop_on_the_guard ''the model asked for the same thing over and over'' run1 lg1 = (y, run', lg')"
        using assms ca e g Inr by (auto simp: one_call_def split: prod.splits sum.splits)
      then show ?thesis using keeps_to_trans[OF one1] stop_on_the_guard_keeps by blast
    next
      case Let_through
      obtain b lg2 where p: "log_event (keeper_id (tr_keeper run1)) event_permission lg1 = (b, lg2)" by (metis surj_pair)
      have two: "keeps_to m st run lg run1 lg2"
        using keeps_to_trans[OF one1 event_logged[OF p, of run1 run1]] by (simp add: event_kind_defs)
      consider "run' = run1" "lg' = lg2" | (ran) "run_and_record m call ans run1 lg2 = (x, run', lg')"
        | (stopped) y line where "stop_here line run1 lg2 = (y, run', lg')"
        using assms ca e g p Inr Let_through by (auto simp: one_call_def split: prod.splits sum.splits if_splits)
      then show ?thesis
      proof cases
        case ran
        then show ?thesis by (rule keeps_to_trans[OF two run_and_record_keeps])
      next
        case stopped
        then show ?thesis by (rule keeps_to_trans[OF two stop_here_keeps])
      qed (use two in simp)
    qed
  qed
qed

lemma each_call_keeps: "each_call m cas run lg = (x, run', lg') \<Longrightarrow> keeps_to m st run lg run' lg'"
proof (induction cas arbitrary: run lg x)
  case (Cons ca cas)
  obtain a run1 lg1 where o: "one_call m ca run lg = (a, run1, lg1)" by (metis prod_cases3)
  have "(run' = run1 \<and> lg' = lg1) \<or> (\<exists>y. each_call m cas run1 lg1 = (y, run', lg'))"
    using Cons.prems o by (auto split: prod.splits sum.splits option.splits)
  then show ?case using one_call_keeps[OF o] Cons.IH keeps_to_trans by blast
qed simp

section \<open>The end of a round\<close>

lemma results_read_keeps:
  "results_read (tr_keeper run) lg labels = (rs, lg') \<Longrightarrow> keeps_to m st run lg run lg'"
proof (induction labels arbitrary: lg rs)
  case (Cons label labels)
  obtain x lg1 where r: "keeper_read label (tr_keeper run) lg = (x, lg1)" by (metis surj_pair)
  obtain rs1 where "results_read (tr_keeper run) lg1 labels = (rs1, lg')"
    using Cons.prems r by (auto split: sum.splits prod.splits)
  then show ?case using keeps_to_trans[OF result_was_read[OF r refl] Cons.IH] by blast
qed simp

lemma remember_the_orientation_keeps:
  assumes "remember_the_orientation g run lg = (run', lg')"
  shows "keeps_to m st run lg run' lg'"
proof -
  have "\<exists>rs. newest_results (tr_keeper run) lg = (rs, lg')" "tr_keeper run' = tr_keeper run"
    using assms by (auto simp: remember_the_orientation_def keeper_same split: prod.splits)
  then show ?thesis
    by (auto simp: newest_results_def Let_def elim!: keeps_to_same dest!: results_read_keeps[where m = m and st = st])
qed

lemma open_the_window_keeps:
  assumes "open_the_window_on_the_rethink g answer run lg = (run', lg')"
  shows "keeps_to m st run lg run' lg'"
  using assms
  by (auto simp: open_the_window_on_the_rethink_def Let_def keeper_same split: prod.splits elim!: keeps_to_same
      dest!: remember_the_orientation_keeps[where m = m and st = st])

lemma write_the_rethink_keeps:
  "write_the_rethink m thought run lg = (run', lg') \<Longrightarrow> keeps_to m st run lg run' lg'"
  by (auto simp: write_the_rethink_def split: prod.splits dest: try_to_write_keeps intro: keeps_to_trans)

lemma question_logged: "keeps_to m st run lg run (log_the_question task lg)"
  unfolding log_the_question_def
  by (rule event_logged[where x = "fst (log_event task event_question lg)" and task = task and kind = event_question])
    (simp_all add: event_kind_defs)

lemma background_keeps:
  assumes "the_rethink_background facts (tr_keeper run) lg = (x, lg')"
  shows "keeps_to m st run lg run lg'"
proof -
  have "lg' = lg \<or> (\<exists>i y. keeper_read i (tr_keeper run) lg = (y, lg'))"
    using assms by (auto simp: the_rethink_background_def Let_def split: if_splits prod.splits sum.splits)
  then show ?thesis using result_was_read[where run' = run] by (metis keeps_to_refl)
qed

lemma rethink_keeps:
  assumes "rethink_if_answered m g run lg = (b, run', lg')"
  shows "keeps_to m st run lg run' lg'"
proof -
  obtain label background lg1 where r: "the_rethink_background (tr_tests_fact run) (tr_keeper run) lg = ((label, background), lg1)"
    by (metis surj_pair)
  let ?lg2 = "log_the_question (keeper_id (tr_keeper run)) lg1"
  have two: "keeps_to m st run lg run ?lg2" by (rule keeps_to_trans[OF background_keeps[OF r] question_logged])
  obtain taken lg3 where a: "ask_once_more_if_the_causes_are_held m g (trim_space (rg_answer g)) run ?lg2 = (taken, lg3)"
    by (metis surj_pair)
  have three: "keeps_to m st run lg run lg3"
    using a two keeps_to_trans[OF two question_logged] by (auto simp: ask_once_more_if_the_causes_are_held_def Let_def split: if_splits)
  obtain run1 lg4 where w: "write_the_rethink m (read_the_rethink taken) run lg3 = (run1, lg4)" by (metis surj_pair)
  have four: "keeps_to m st run lg (close_the_stalled_call label run1) lg4"
    by (rule keeps_to_same[OF keeps_to_trans[OF three write_the_rethink_keeps[OF w]]]) (simp_all add: keeper_same)
  show ?thesis
  proof (cases "trim_space (rg_answer g) = []")
    case True
    then have "run' = run \<and> lg' = ?lg2" using assms r by (auto simp: rethink_if_answered_def Let_def)
    then show ?thesis using two by blast
  next
    case False
    then have "open_the_window_on_the_rethink g taken (close_the_stalled_call label run1) lg4 = (run', lg')"
      using assms r a w by (simp add: rethink_if_answered_def Let_def)
    then show ?thesis by (rule keeps_to_trans[OF four open_the_window_keeps])
  qed
qed

lemma the_plain_cut_keeps:
  assumes "the_plain_cut m g run lg = (run', lg')"
  shows "keeps_to m st run lg run' lg'"
proof -
  obtain run1 lg1 where t: "try_to_write m (failure_written (tr_stall_text run)
      ''nothing the last rounds returned changed what was asked next'') run lg = (run1, lg1)" by (metis surj_pair)
  let ?run1 = "(forget_the_calls run1)\<lparr>tr_messages := take (tr_keep_through run1) (tr_messages run1)\<rparr>"
  obtain run2 lg2 where o: "remember_the_orientation g ?run1 lg1 = (run2, lg2)" by (metis surj_pair)
  have "keeps_to m st run lg run2 lg2"
    by (rule keeps_to_trans[OF try_to_write_keeps[OF t] keeps_to_same[OF remember_the_orientation_keeps[OF o]]])
      (simp_all add: keeper_same)
  then show ?thesis using assms t o by (auto simp: the_plain_cut_def Let_def keeper_same elim: keeps_to_same)
qed

lemma rewind_keeps:
  assumes "rewind_if_due m g run lg = (run', lg')"
  shows "keeps_to m st run lg run' lg'"
proof (cases "tr_rewind_due run")
  case True
  obtain b run1 lg1 where r: "rethink_if_answered m g (run\<lparr>tr_rewind_due := False, tr_had_failure := True, tr_idle := 0\<rparr>) lg
      = (b, run1, lg1)" by (metis prod_cases3)
  have one: "keeps_to m st run lg run1 lg1" by (rule keeps_to_same[OF rethink_keeps[OF r]]) simp_all
  show ?thesis
  proof (cases b)
    case True
    then have "run' = run1 \<and> lg' = lg1" using assms \<open>tr_rewind_due run\<close> r by (simp add: rewind_if_due_def)
    then show ?thesis using one by blast
  next
    case False
    then have "the_plain_cut m g run1 lg1 = (run', lg')" using assms \<open>tr_rewind_due run\<close> r by (simp add: rewind_if_due_def)
    then show ?thesis by (rule keeps_to_trans[OF one the_plain_cut_keeps])
  qed
qed (use assms in \<open>simp add: rewind_if_due_def\<close>)

lemma reopen_keeps:
  assumes "reopen_the_window_if_full g run lg = (x, run', lg')"
  shows "keeps_to m st run lg run' lg'"
proof (cases "window_is_full (tr_messages run)")
  case True
  obtain run1 lg1 where o: "remember_the_orientation g (run\<lparr>tr_messages := []\<rparr>) lg = (run1, lg1)" by (metis surj_pair)
  have one: "keeps_to m st run lg run2 lg1" if "tr_keeper run2 = tr_keeper run1" for run2
    by (rule keeps_to_same[OF remember_the_orientation_keeps[OF o]]) (use that in simp_all)
  obtain y where "log_event (keeper_id (tr_keeper run')) event_record_change lg1 = (y, lg')" "tr_keeper run' = tr_keeper run1"
    using assms True o by (auto simp: reopen_the_window_if_full_def Let_def keeper_same split: prod.splits sum.splits)
  then show ?thesis using keeps_to_trans[OF one[of run'] event_logged[of _ event_record_change lg1 y lg' run' run']]
    by (simp add: event_kind_defs)
qed (use assms in \<open>simp add: reopen_the_window_if_full_def\<close>)

lemma write_situation_keeps:
  "write_situation g run lg = (x, run', lg') \<Longrightarrow> keeps_to m st run lg run' lg'"
  by (auto simp: write_situation_def split: prod.splits intro!: performed[where c = "SetSituation (situation_facts g run)"])

lemma ended_by_the_guard_keeps:
  "ended_by_the_guard line run lg = (x, run', lg') \<Longrightarrow> keeps_to m st run lg run' lg'"
  by (auto simp: ended_by_the_guard_def split: prod.splits sum.splits dest: stop_on_the_guard_keeps)

lemma wall_stalls_keeps:
  assumes "wall_stalls m calls run lg = Some (x, run', lg')"
  shows "keeps_to m st run lg run' lg'"
  using assms keeps_to_same[OF ended_by_the_guard_keeps[of the_wall_stop "run\<lparr>tr_wall := []\<rparr>" lg x run' lg'], of run run']
  by (auto simp: wall_stalls_def Let_def keeper_same split: if_splits)

lemma one_more_idle_keeps:
  assumes "one_more_idle m calls run lg = (x, run', lg')"
  shows "keeps_to m st run lg run' lg'"
  using assms keeps_to_same[OF ended_by_the_guard_keeps[of the_meter_stop "run\<lparr>tr_idle := tr_idle run + 1\<rparr>" lg x run' lg'], of run run']
  by (auto simp: one_more_idle_def Let_def keeper_same split: if_splits)

lemma count_the_round_keeps:
  assumes "count_the_round m marks_before calls run lg = (x, run', lg')"
  shows "keeps_to m st run lg run' lg'"
proof -
  define run1 where "run1 = note_the_calls calls (note_all_marked (run\<lparr>tr_moved := False,
     tr_since_a_failure := tr_since_a_failure run + 1,
     tr_since_a_mark := (if marks_before < marks_made (held_record run) then 0 else tr_since_a_mark run + 1)\<rparr>))"
  have k: "tr_keeper run1 = tr_keeper run" by (simp add: run1_def keeper_same)
  have "wall_stalls m calls run1 lg = Some (x, run', lg') \<or> one_more_idle m calls run1 lg = (x, run', lg')
      \<or> tr_keeper run' = tr_keeper run1 \<and> lg' = lg"
    using assms unfolding count_the_round_def Let_def run1_def[symmetric] by (auto split: option.splits if_splits)
  then have "keeps_to m st run1 lg run' lg'" using wall_stalls_keeps one_more_idle_keeps keeps_to_refl by metis
  then show ?thesis by (rule keeps_to_same) (simp_all add: k)
qed

section \<open>Rounds\<close>

lemma after_the_calls_keeps:
  assumes "after_the_calls m g marks_before calls res run lg = (x, run', lg')"
  shows "keeps_to m st run lg run' lg'"
proof -
  obtain results ended where res: "res = (results, ended)" by (cases res)
  let ?run1 = "run\<lparr>tr_messages := remember_message \<lparr>cm_role = role_user, cm_text = [], cm_calls = [], cm_results = results\<rparr>
              (tr_messages run)\<rparr>"
  obtain a run2 lg2 where c: "(if ended = None then count_the_round m marks_before calls ?run1 lg else (Inr ended, ?run1, lg))
      = (a, run2, lg2)" by (metis prod_cases3)
  have two: "keeps_to m st run lg run2 lg2"
    using c keeps_to_same[OF count_the_round_keeps[of m marks_before calls ?run1 lg a run2 lg2], of run run2]
    by (auto split: if_splits)
  show ?thesis
  proof (cases a)
    case (Inl e)
    then show ?thesis using assms res c two by (simp add: after_the_calls_def Let_def)
  next
    case (Inr ended2)
    obtain run3 lg3 where r: "rewind_if_due m g run2 lg2 = (run3, lg3)" by (metis surj_pair)
    obtain b run4 lg4 where o: "(if ended2 = None then reopen_the_window_if_full g run3 lg3 else (Inr (), run3, lg3))
        = (b, run4, lg4)" by (metis prod_cases3)
    have four: "keeps_to m st run lg run4 lg4"
      using keeps_to_trans[OF two rewind_keeps[OF r]] o keeps_to_trans reopen_keeps by (auto split: if_splits)
    obtain d run5 lg5 where w: "write_situation g (say_the_mark_hint calls (say_the_probe_line run4)) lg4 = (d, run5, lg5)"
      by (metis prod_cases3)
    have five: "keeps_to m st run lg run5 lg5"
      by (rule keeps_to_trans[OF four keeps_to_same[OF write_situation_keeps[OF w]]]) (simp_all add: keeper_same)
    show ?thesis using assms res c Inr r o w four five
      by (auto simp: after_the_calls_def Let_def split: sum.splits if_splits)
  qed
qed

lemma one_round_keeps:
  assumes "one_round m r run lg = (x, run', lg')"
  shows "keeps_to m st run lg run' lg'"
proof -
  let ?run1 = "run\<lparr>tr_rounds_used := tr_rounds_used run + 1\<rparr>"
  obtain a k lg1 where s: "save_the_round (tr_keeper run) lg = (a, k, lg1)" by (metis prod_cases3)
  have saved: "keeps_to m st run lg run2 lg1" if "tr_keeper run2 = k" for run2
    using s that by (intro performed[where c = SaveTheRound and a = a]) simp_all
  let ?said = "\<lparr>cm_role = role_assistant, cm_text = ro_said r, cm_calls = map fst (ro_calls r), cm_results = []\<rparr>"
  let ?run2 = "?run1\<lparr>tr_keeper := k, tr_messages := remember_message ?said (tr_messages run)\<rparr>"
  obtain b run3 lg2 where e: "each_call m (ro_calls r) ?run2 lg1 = (b, run3, lg2)" by (metis prod_cases3)
  have two: "keeps_to m st run lg run3 lg2" by (rule keeps_to_trans[OF saved each_call_keeps[OF e]]) simp
  consider "tr_keeper run' = k" "lg' = lg1" | "run' = run3" "lg' = lg2"
    | (after) res where "after_the_calls m (ro_given r) (marks_made (held_record ?run2)) (map fst (ro_calls r)) res run3 lg2 = (x, run', lg')"
    using assms s e
    by (auto simp: one_round_def run_the_calls_def Let_def held_record_def split: sum.splits)
  then show ?thesis
  proof cases
    case after
    then show ?thesis by (rule keeps_to_trans[OF two after_the_calls_keeps])
  qed (use saved two in simp_all)
qed

lemma play_rounds_keeps: "play_rounds m rs run lg = (x, run', lg') \<Longrightarrow> keeps_to m st run lg run' lg'"
proof (induction rs arbitrary: run lg)
  case (Cons r rs)
  obtain a run1 lg1 where o: "one_round m r run lg = (a, run1, lg1)" by (metis prod_cases3)
  have "(run' = run1 \<and> lg' = lg1) \<or> play_rounds m rs run1 lg1 = (x, run', lg')"
    using Cons.prems o by (auto split: prod.splits sum.splits option.splits)
  then show ?case using one_round_keeps[OF o] Cons.IH keeps_to_trans by blast
qed simp

lemma rounds_keep_the_run:
  assumes "keeper_run (lm_unicode m) st (tr_keeper run) lg" "play_rounds m rs run lg = (x, run', lg')"
  shows "keeper_run (lm_unicode m) st (tr_keeper run') lg'"
  using world_steps_run[of "lm_unicode m" st "(tr_keeper run, lg)" "(tr_keeper run', lg')"] play_rounds_keeps[OF assms(2)] assms(1)
  by (simp add: keeps_to_def)

end
