(* ===== verification/Loop_Finish.thy ===== *)
theory Loop_Finish
  imports Loop_Records
begin

text \<open>
  How a task's rounds end: an ending closes the record, as done only when its done-check passes, and what is still
  written after it (the failure of a rewind, the situation) leaves it closed so.
\<close>

definition closed_as :: "record_status \<Rightarrow> record_of_work \<Rightarrow> bool" where
  "closed_as status r \<longleftrightarrow> h_status (r_header r) = status \<and> (status = status_done \<longrightarrow> done_check r = Inr ())"

definition ended_rightly :: "ending \<Rightarrow> task_run \<Rightarrow> bool" where
  "ended_rightly en run \<longleftrightarrow> en_status en \<in> {status_done, status_stopped} \<and> closed_as (en_status en) (held_record run)
     \<and> (en_by_guard en \<longrightarrow> en_status en = status_stopped)"

lemma ended_rightly_same: "ended_rightly en run \<Longrightarrow> tr_keeper run' = tr_keeper run \<Longrightarrow> ended_rightly en run'"
  by (simp add: ended_rightly_def held_record_def)

section \<open>Closing\<close>

lemma close_the_record_closes:
  assumes "close_the_record status run lg = (Inr x, run', lg')"
  shows "closed_as status (held_record run')"
proof -
  obtain k where s: "set_status status (tr_keeper run) lg = (Inr (), k, lg')" "run' = run\<lparr>tr_keeper := k\<rparr>"
    using assms by (auto simp: close_the_record_def split: prod.splits)
  then show ?thesis
    using status_set[OF s(1)] set_done_passes[of "tr_keeper run" lg k lg']
    by (auto simp: closed_as_def held_record_def trimmed_parts set_header_def)
qed

lemma stop_here_ends_rightly:
  "stop_here line run lg = (Inr en, run', lg') \<Longrightarrow> ended_rightly en run' \<and> \<not> en_by_guard en"
  by (auto simp: stop_here_def ended_rightly_def dest!: close_the_record_closes split: prod.splits sum.splits if_splits)

lemma stop_on_the_guard_ends_rightly:
  "stop_on_the_guard line run lg = (Inr en, run', lg') \<Longrightarrow> ended_rightly en run'"
  by (auto simp: stop_on_the_guard_def ended_rightly_def dest!: stop_here_ends_rightly split: prod.splits sum.splits)

lemma run_and_record_ends_rightly:
  "run_and_record m call ans run lg = (Inr (result, Some en), run', lg') \<Longrightarrow> ended_rightly en run'"
  by (auto simp: run_and_record_def Let_def dest: stop_here_ends_rightly split: prod.splits sum.splits if_splits)

lemma one_call_ends_rightly:
  assumes "one_call m ca run lg = (Inr (result, Some en), run', lg')"
  shows "ended_rightly en run'"
  using assms
  by (auto simp: one_call_def split: prod.splits sum.splits verdict.splits if_splits
      dest: run_and_record_ends_rightly stop_here_ends_rightly stop_on_the_guard_ends_rightly)

lemma each_call_ends_rightly:
  "each_call m cas run lg = (Inr (results, Some en), run', lg') \<Longrightarrow> ended_rightly en run'"
proof (induction cas arbitrary: run lg results)
  case (Cons ca cas)
  then consider result where "one_call m ca run lg = (Inr (result, Some en), run', lg')"
    | run1 lg1 later where "each_call m cas run1 lg1 = (Inr (later, Some en), run', lg')"
    by (auto split: prod.splits sum.splits option.splits)
  then show ?case using Cons.IH one_call_ends_rightly by cases blast+
qed simp

lemma count_the_round_ends_rightly:
  "count_the_round m marks_before calls run lg = (Inr (Some en), run', lg') \<Longrightarrow> ended_rightly en run'"
  by (auto simp: count_the_round_def wall_stalls_def one_more_idle_def ended_by_the_guard_def Let_def
      dest!: stop_on_the_guard_ends_rightly split: option.splits if_splits prod.splits sum.splits)

section \<open>What is written afterwards\<close>

text \<open>A change that leaves the header, the goal and the results as they are leaves a record closed.\<close>

lemma closed_stays:
  assumes "closed_as status r" "reads_back c" "r_header c = r_header r" "r_goal c = r_goal r"
    "w_results (r_work c) = w_results (r_work r)"
  shows "closed_as status (trim_the_results_to_fit c)"
proof -
  have "same_results r c" using assms(3,5) by (simp add: same_results_def)
  then have holds: "record_holds_result r i \<Longrightarrow> record_holds_result (trim_the_results_to_fit c) i" for i
    using held_result_stays trim_keeps_proof[OF reads_back_holds[OF assms(2)]] by metis
  have "done_check (trim_the_results_to_fit c) = Inr ()" if "done_check r = Inr ()"
    by (rule done_check_kept[OF that _ holds]) (simp_all add: trimmed_parts assms(4))
  then show ?thesis using assms(1,3) by (simp add: closed_as_def trimmed_parts)
qed

lemma lessons_written:
  assumes "apply_update u r (no_change\<lparr>up_decision := d, up_failure := f\<rparr>) = Inr c"
  shows "r_header c = r_header r \<and> r_goal c = r_goal r \<and> r_work c = r_work r"
  using assms
  by (auto simp: apply_update_def and_then_Inr_iff apply_defs no_change_def put_failures_def
      put_decisions_def Let_def split: if_splits option.splits)

lemma try_to_write_leaves_closed:
  assumes "try_to_write m (no_change\<lparr>up_decision := d, up_failure := f\<rparr>) run lg = (run', lg')"
    "closed_as status (held_record run)"
  shows "closed_as status (held_record run')"
proof -
  obtain a k where a: "keeper_apply (lm_unicode m) (no_change\<lparr>up_decision := d, up_failure := f\<rparr>) (tr_keeper run) lg = (a, k, lg')"
    "run' = run\<lparr>tr_keeper := k\<rparr>"
    using assms(1) by (auto simp: try_to_write_def split: prod.splits)
  show ?thesis
    using apply_effect[OF a(1)] assms(2) closed_stays lessons_written unfolding a(2) held_record_def
    by (metis (no_types, lifting) task_run.select_convs(1) task_run.surjective task_run.update_convs(1))
qed

lemma failure_leaves_closed:
  "try_to_write m (failure_written said cause) run lg = (run', lg') \<Longrightarrow> closed_as status (held_record run) \<Longrightarrow>
    closed_as status (held_record run')"
  using try_to_write_leaves_closed[where d = None and m = m and f = "Some \<lparr>nf_text = said, nf_cause = cause\<rparr>"]
  by (simp add: failure_written_def no_change_def)

lemma decision_leaves_closed:
  "try_to_write m (no_change\<lparr>up_decision := Some d\<rparr>) run lg = (run', lg') \<Longrightarrow> closed_as status (held_record run) \<Longrightarrow>
    closed_as status (held_record run')"
  using try_to_write_leaves_closed[where d = "Some d" and f = None and m = m] by (simp add: no_change_def)

lemma write_the_rethink_leaves_closed:
  "write_the_rethink m thought run lg = (run', lg') \<Longrightarrow> closed_as status (held_record run) \<Longrightarrow>
    closed_as status (held_record run')"
  by (auto simp: write_the_rethink_def split: prod.splits dest: failure_leaves_closed decision_leaves_closed)

lemma remember_the_orientation_record:
  "remember_the_orientation g run lg = (run', lg') \<Longrightarrow> held_record run' = held_record run"
  by (auto simp: remember_the_orientation_def held_record_def keeper_same split: prod.splits)

lemma open_the_window_record:
  "open_the_window_on_the_rethink g answer run lg = (run', lg') \<Longrightarrow> held_record run' = held_record run"
  by (auto simp: open_the_window_on_the_rethink_def Let_def held_record_def keeper_same split: prod.splits
      dest!: remember_the_orientation_record)

lemma rethink_leaves_closed:
  "rethink_if_answered m g run lg = (b, run', lg') \<Longrightarrow> closed_as status (held_record run) \<Longrightarrow>
    closed_as status (held_record run')"
  by (auto simp: rethink_if_answered_def Let_def close_the_stalled_call_def held_record_def split: prod.splits if_splits
      dest!: open_the_window_record write_the_rethink_leaves_closed[unfolded held_record_def])

lemma the_plain_cut_leaves_closed:
  "the_plain_cut m g run lg = (run', lg') \<Longrightarrow> closed_as status (held_record run) \<Longrightarrow>
    closed_as status (held_record run')"
  by (auto simp: the_plain_cut_def Let_def held_record_def keeper_same split: prod.splits
      dest!: remember_the_orientation_record failure_leaves_closed[unfolded held_record_def])

lemma rewind_leaves_closed:
  assumes "rewind_if_due m g run lg = (run', lg')" "closed_as status (held_record run)"
  shows "closed_as status (held_record run')"
proof (cases "tr_rewind_due run")
  case True
  obtain b run1 lg1 where r: "rethink_if_answered m g (run\<lparr>tr_rewind_due := False, tr_had_failure := True, tr_idle := 0\<rparr>) lg
      = (b, run1, lg1)" by (metis prod_cases3)
  have "closed_as status (held_record run1)" by (rule rethink_leaves_closed[OF r]) (use assms(2) in \<open>simp add: held_record_def\<close>)
  then show ?thesis using assms(1) True r the_plain_cut_leaves_closed[of m g run1 lg1 run' lg' status]
    by (cases b) (auto simp: rewind_if_due_def)
qed (use assms in \<open>simp add: rewind_if_due_def\<close>)

lemma write_situation_leaves_closed:
  assumes "write_situation g run lg = (x, run', lg')" "closed_as status (held_record run)"
  shows "closed_as status (held_record run')"
proof -
  let ?f = "\<lambda>r. if [] \<in> set (situation_facts g run) then Inl Unnamed else Inr (put_situation (situation_facts g run) r)"
  obtain k where s: "change_or_wait ?f (kp_once_per_round (tr_keeper run)) (tr_keeper run) lg = (x, k, lg')" "run' = run\<lparr>tr_keeper := k\<rparr>"
    using assms(1) by (auto simp: write_situation_def set_situation_def change_it_now_def split: prod.splits)
  from change_effect[OF s(1)] show ?thesis
  proof
    assume "x = Inr () \<and> went_through ?f (kp_record (tr_keeper run)) (kp_record k)"
    then have "kp_record k = trim_the_results_to_fit (put_situation (situation_facts g run) (kp_record (tr_keeper run)))"
      "reads_back (put_situation (situation_facts g run) (kp_record (tr_keeper run)))"
      by (auto simp: went_through_def split: if_splits)
    then show ?thesis
      using closed_stays[OF assms(2), of "put_situation (situation_facts g run) (kp_record (tr_keeper run))"] s(2)
      by (simp add: held_record_def put_situation_def)
  next
    assume "(\<exists>e. x = Inl e) \<and> kp_record k = kp_record (tr_keeper run)"
    then show ?thesis using assms(2) s(2) by (simp add: held_record_def)
  qed
qed

section \<open>Rounds\<close>

lemma after_the_calls_ends_rightly:
  assumes "after_the_calls m g marks_before calls (results, ended) run lg = (Inr (Some en), run', lg')"
    "\<And>en. ended = Some en \<Longrightarrow> ended_rightly en run"
  shows "ended_rightly en run'"
proof -
  let ?run1 = "run\<lparr>tr_messages := remember_message \<lparr>cm_role = role_user, cm_text = [], cm_calls = [], cm_results = results\<rparr>
              (tr_messages run)\<rparr>"
  obtain run2 lg2 where c: "(if ended = None then count_the_round m marks_before calls ?run1 lg else (Inr ended, ?run1, lg))
      = (Inr (Some en), run2, lg2)"
    using assms(1) by (auto simp: after_the_calls_def Let_def split: prod.splits sum.splits if_splits)
  have two: "ended_rightly en run2"
    using c assms(2) count_the_round_ends_rightly ended_rightly_same[of en run run2] by (auto split: if_splits)
  obtain run3 lg3 where r: "rewind_if_due m g run2 lg2 = (run3, lg3)" by (metis surj_pair)
  have w: "write_situation g (say_the_mark_hint calls (say_the_probe_line run3)) lg3 = (Inr (), run', lg')"
    using assms(1) c r by (auto simp: after_the_calls_def Let_def split: prod.splits sum.splits if_splits)
  have "closed_as (en_status en) (held_record run3)"
    using rewind_leaves_closed[OF r] two by (simp add: ended_rightly_def)
  then have "closed_as (en_status en) (held_record run')"
    by (intro write_situation_leaves_closed[OF w]) (simp add: held_record_def keeper_same)
  then show ?thesis using two by (simp add: ended_rightly_def)
qed

lemma one_round_ends_rightly:
  assumes "one_round m r run lg = (Inr (Some en), run', lg')"
  shows "ended_rightly en run'"
proof -
  obtain run2 lg1 results ended run3 lg2 where e: "each_call m (ro_calls r) run2 lg1 = (Inr (results, ended), run3, lg2)"
    and a: "after_the_calls m (ro_given r) (marks_made (held_record run2)) (map fst (ro_calls r)) (results, ended) run3 lg2
      = (Inr (Some en), run', lg')"
    using assms by (auto simp: one_round_def run_the_calls_def Let_def split: prod.splits sum.splits)
  show ?thesis by (rule after_the_calls_ends_rightly[OF a]) (use e each_call_ends_rightly in blast)
qed

lemma rounds_end_rightly:
  "play_rounds m rs run lg = (Inr (Some en), run', lg') \<Longrightarrow> ended_rightly en run'"
proof (induction rs arbitrary: run lg)
  case (Cons r rs)
  then show ?case using one_round_ends_rightly by (auto split: prod.splits sum.splits option.splits)
qed simp

end
