(* ===== verification/Loop_Circles.thy ===== *)
theory Loop_Circles
  imports Loop_Guards
begin

text \<open>
  What the two detectors come to over a run of calls: how often one call asked again and again is run, and what
  the counting of results on the wall finds.
\<close>

section \<open>One call asked again and again\<close>

text \<open>
  The same call asked with nothing else in between, each time it runs answered by the next of the answers. How
  often it ran, and whether the detector said the turn has to end.
\<close>

fun asked_in_a_row :: "loop_machine \<Rightarrow> tool_call \<Rightarrow> string list \<Rightarrow> past_call list \<Rightarrow> nat \<times> bool" where
  "asked_in_a_row m call [] recent = (0, False)"
| "asked_in_a_row m call (answer # answers) recent =
     (case detector_refuses m call recent of
        ((words, True), recent1) \<Rightarrow> (0, True)
      | ((words, False), recent1) \<Rightarrow>
          if words \<noteq> [] then asked_in_a_row m call answers recent1
          else (case asked_in_a_row m call answers (note_the_result m answer recent1) of (runs, ended) \<Rightarrow> (runs + 1, ended)))"

text \<open>So many of the newest past calls are of one kind.\<close>

definition newest_of_a_kind :: "(past_call \<Rightarrow> bool) \<Rightarrow> past_call list \<Rightarrow> nat" where
  "newest_of_a_kind P recent = length (takeWhile P (rev recent))"

lemma same_call_run_kind: "same_call_run mark recent = newest_of_a_kind (\<lambda>past. pc_mark past = mark) recent"
  by (simp add: same_call_run_def newest_of_a_kind_def)

lemma newest_of_a_kind_snoc:
  "newest_of_a_kind P (recent @ [past]) = (if P past then newest_of_a_kind P recent + 1 else 0)"
  by (simp add: newest_of_a_kind_def)

lemma newest_of_a_kind_in_window:
  "newest_of_a_kind P (drop (length recent - k) recent) = min k (newest_of_a_kind P recent)"
proof (induction recent arbitrary: k rule: rev_induct)
  case (snoc past recent)
  show ?case
  proof (cases k)
    case (Suc j)
    have "drop (length (recent @ [past]) - k) (recent @ [past]) = drop (length recent - j) recent @ [past]"
      using Suc by simp
    then show ?thesis using snoc Suc by (auto simp: newest_of_a_kind_snoc)
  qed (simp add: newest_of_a_kind_def)
qed (simp add: newest_of_a_kind_def)

lemma newest_of_a_kind_remembered:
  assumes "P \<lparr>pc_mark = mark, pc_result = []\<rparr>"
  shows "newest_of_a_kind P (remember_call window mark recent) = min window (newest_of_a_kind P recent + 1)"
proof -
  let ?grown = "recent @ [\<lparr>pc_mark = mark, pc_result = []\<rparr>]"
  have "remember_call window mark recent = drop (length ?grown - window) ?grown"
    by (simp add: remember_call_def Let_def)
  then show ?thesis using assms by (simp only: newest_of_a_kind_in_window newest_of_a_kind_snoc if_True)
qed

lemma newest_of_a_kind_answered:
  assumes "0 < newest_of_a_kind P recent"
    "P ((last recent)\<lparr>pc_result := fingerprint_of_text m said\<rparr>)"
  shows "newest_of_a_kind P (note_the_result m said recent) = newest_of_a_kind P recent"
  using assms
  by (cases recent rule: rev_cases) (auto simp: note_the_result_def newest_of_a_kind_def split: if_splits)

lemma last_of_a_kind: "0 < newest_of_a_kind P recent \<Longrightarrow> P (last recent)"
  by (cases recent rule: rev_cases) (auto simp: newest_of_a_kind_def split: if_splits)

subsection \<open>The same answer\<close>

text \<open>Asks of one call that were answered, if at all, by one answer.\<close>

definition asks_with_one_answer :: "string \<Rightarrow> string \<Rightarrow> past_call \<Rightarrow> bool" where
  "asks_with_one_answer mark print past \<longleftrightarrow> pc_mark past = mark \<and> (pc_result past = [] \<or> pc_result past = print)"

lemma streak_of_asks:
  assumes "\<forall>past \<in> set asks. pc_mark past = mark \<and> (pc_result past = [] \<or> pc_result past = newest)"
  shows "case foldl (after_past_call mark newest) (s, p, c, seen) asks of
    (s', p', c', seen') \<Rightarrow> asks \<noteq> [] \<longrightarrow> length asks \<le> s' \<and> c' = [] \<and> seen' \<and> (2 \<le> length asks \<longrightarrow> p' = [])"
  using assms
proof (induction asks rule: rev_induct)
  case (snoc past asks)
  obtain s1 p1 c1 seen1 where f: "foldl (after_past_call mark newest) (s, p, c, seen) asks = (s1, p1, c1, seen1)"
    by (metis prod_cases4)
  have "foldl (after_past_call mark newest) (s, p, c, seen) (asks @ [past]) = after_past_call mark newest (s1, p1, c1, seen1) past"
    using f by simp
  moreover have "pc_mark past = mark \<and> (pc_result past = [] \<or> pc_result past = newest)" using snoc.prems by simp
  ultimately have step: "foldl (after_past_call mark newest) (s, p, c, seen) (asks @ [past])
      = (if \<not> seen1 then 1 else if p1 = [] \<or> c1 = [] \<or> c1 = p1 then s1 + 1 else 1, c1, [], True)"
    by (simp add: after_past_call_def)
  show ?case
  proof (cases "asks = []")
    case True
    then show ?thesis unfolding step by simp
  next
    case False
    have "length asks \<le> s1 \<and> c1 = [] \<and> seen1" using snoc f False by simp
    then show ?thesis unfolding step by simp
  qed
qed simp

lemma found_there: "find P xs = Some x \<Longrightarrow> x \<in> set xs \<and> P x"
  by (induction xs) (auto split: if_splits)

lemma newest_answer_of_asks:
  assumes "list_all (asks_with_one_answer mark print) asks" "past \<in> set asks"
  shows "pc_result past = [] \<or> pc_result past = newest_answer_to mark (earlier @ asks)"
proof (cases "pc_result past = []")
  case False
  have "find (\<lambda>past. pc_mark past = mark \<and> pc_result past \<noteq> []) (rev asks) \<noteq> None"
    using assms False by (auto simp: find_None_iff asks_with_one_answer_def list_all_iff)
  then obtain found where f: "find (\<lambda>past. pc_mark past = mark \<and> pc_result past \<noteq> []) (rev asks) = Some found" by blast
  then have "found \<in> set asks" "pc_result found \<noteq> []" using found_there[OF f] by simp_all
  then have "pc_result found = print" "pc_result past = print"
    using assms False by (auto simp: asks_with_one_answer_def list_all_iff)
  moreover have "find P (xs @ ys) = (case find P xs of None \<Rightarrow> find P ys | Some x \<Rightarrow> Some x)" for P and xs ys :: "past_call list"
    by (induction xs) simp_all
  ultimately show ?thesis using f by (simp add: newest_answer_to_def)
qed simp

lemma same_answers_count:
  assumes "n \<le> newest_of_a_kind (asks_with_one_answer mark print) recent" "2 \<le> n"
  shows "n \<le> same_result_streak mark recent"
proof -
  define asks where "asks = rev (takeWhile (asks_with_one_answer mark print) (rev recent))"
  define earlier where "earlier = rev (dropWhile (asks_with_one_answer mark print) (rev recent))"
  have r: "recent = earlier @ asks"
    unfolding asks_def earlier_def by (metis rev_append rev_rev_ident takeWhile_dropWhile_id)
  have n: "n \<le> length asks" using assms(1) by (simp add: newest_of_a_kind_def asks_def)
  have all: "list_all (asks_with_one_answer mark print) asks"
    by (auto simp: asks_def list_all_iff dest: set_takeWhileD)
  have a: "\<forall>past \<in> set asks. pc_mark past = mark \<and> (pc_result past = [] \<or> pc_result past = newest_answer_to mark recent)"
    using all newest_answer_of_asks[OF all, of _ earlier] r by (auto simp: asks_with_one_answer_def list_all_iff)
  obtain s p c seen where e: "foldl (after_past_call mark (newest_answer_to mark recent)) (0, [], [], False) earlier
      = (s, p, c, seen)" by (metis prod_cases4)
  have "foldl (after_past_call mark (newest_answer_to mark recent)) (0, [], [], False) recent
      = foldl (after_past_call mark (newest_answer_to mark recent)) (s, p, c, seen) asks"
    using e by (subst (2) r) simp
  then show ?thesis
    using streak_of_asks[OF a, of s p c seen] n assms(2) unfolding same_result_streak_def
    by (auto split: prod.splits)
qed

subsection \<open>How often it runs\<close>

lemma detector_lets_through:
  "detector_refuses m call recent = (([], enough), recent1) \<Longrightarrow>
    \<not> enough \<and> same_result_streak (mark_of m call) recent < 2 \<and> same_call_run (mark_of m call) recent < 6
    \<and> recent1 = remember_call (lm_window m) (mark_of m call) recent"
  by (auto simp: detector_refuses_def identical_calls_allowed_def same_call_hard_cap_def Let_def split: if_splits)

lemma detector_remembers:
  "detector_refuses m call recent = (w, recent1) \<Longrightarrow> recent1 = remember_call (lm_window m) (mark_of m call) recent"
  by (auto simp: detector_refuses_def Let_def)

text \<open>A window of fewer calls than the cap never holds enough of them for it.\<close>

lemma the_cap_needs_its_window:
  "same_call_run mark (remember_call window mark recent) \<le> window"
  using newest_of_a_kind_remembered[of "\<lambda>past. pc_mark past = mark" mark window recent]
  by (simp add: same_call_run_kind)

lemma detector_goes_on:
  "detector_refuses m call recent = ((words, False), recent1) \<Longrightarrow>
    same_result_streak (mark_of m call) recent \<le> 2 \<and> same_call_run (mark_of m call) recent \<le> 7"
  by (auto simp: detector_refuses_def identical_calls_allowed_def same_call_hard_cap_def Let_def split: if_splits)

text \<open>Of a kind the asks are of, whatever comes of them, there is one more after each.\<close>

lemma one_more_of_a_kind:
  assumes "P \<lparr>pc_mark = mark_of m call, pc_result = []\<rparr>"
    "P \<lparr>pc_mark = mark_of m call, pc_result = fingerprint_of_text m answer\<rparr>" "0 < lm_window m"
    "detector_refuses m call recent = (w, recent1)" "recent2 = recent1 \<or> recent2 = note_the_result m answer recent1"
  shows "newest_of_a_kind P recent2 = min (lm_window m) (newest_of_a_kind P recent + 1)"
proof -
  have one: "newest_of_a_kind P recent1 = min (lm_window m) (newest_of_a_kind P recent + 1)"
    using detector_remembers[OF assms(4)] newest_of_a_kind_remembered[of P, OF assms(1)] by simp
  have "last recent1 = \<lparr>pc_mark = mark_of m call, pc_result = []\<rparr>"
    using detector_remembers[OF assms(4)] assms(3) by (simp add: remember_call_def Let_def)
  then have "newest_of_a_kind P (note_the_result m answer recent1) = newest_of_a_kind P recent1"
    using one assms(2,3) by (intro newest_of_a_kind_answered) simp_all
  then show ?thesis using one assms(5) by auto
qed

lemma asked_in_a_row_bounds:
  assumes "8 \<le> lm_window m" "asked_in_a_row m call answers recent = (runs, ended)"
    "n \<le> same_call_run (mark_of m call) recent" "n \<le> 8"
  shows "runs \<le> 6 - n \<and> (8 - n < length answers \<longrightarrow> ended)"
  using assms(2-)
proof (induction answers arbitrary: recent runs n)
  case (Cons answer answers)
  obtain words enough recent1 where d: "detector_refuses m call recent = ((words, enough), recent1)"
    by (metis prod.exhaust_sel)
  show ?case
  proof (cases enough)
    case True
    then show ?thesis using Cons.prems d by simp
  next
    case False
    let ?recent2 = "if words \<noteq> [] then recent1 else note_the_result m answer recent1"
    obtain runs2 where a: "asked_in_a_row m call answers ?recent2 = (runs2, ended)"
      "runs = (if words \<noteq> [] then runs2 else runs2 + 1)"
      using Cons.prems(1) d False by (auto split: prod.splits if_splits)
    have n: "n \<le> 7" using detector_goes_on[of m call recent words recent1] d False Cons.prems(2) by simp
    have "same_call_run (mark_of m call) ?recent2 = min (lm_window m) (same_call_run (mark_of m call) recent + 1)"
      unfolding same_call_run_kind by (rule one_more_of_a_kind[OF _ _ _ d]) (use assms(1) in auto)
    then have "runs2 \<le> 6 - (n + 1) \<and> (8 - (n + 1) < length answers \<longrightarrow> ended)"
      using Cons.IH[OF a(1), of "n + 1"] Cons.prems(2) n assms(1) by simp
    moreover have "words = [] \<longrightarrow> n < 6" using detector_lets_through[of m call recent enough recent1] d Cons.prems(2) by auto
    ultimately show ?thesis using a(2) n by auto
  qed
qed simp

lemma asked_in_a_row_one_answer:
  assumes "3 \<le> lm_window m" "set answers \<subseteq> {said}" "asked_in_a_row m call answers recent = (runs, ended)"
    "n \<le> newest_of_a_kind (asks_with_one_answer (mark_of m call) (fingerprint_of_text m said)) recent" "n \<le> 3"
  shows "runs \<le> 2 - n \<and> (3 - n < length answers \<longrightarrow> ended)"
  using assms(2-)
proof (induction answers arbitrary: recent runs n)
  case (Cons answer answers)
  let ?P = "asks_with_one_answer (mark_of m call) (fingerprint_of_text m said)"
  obtain words enough recent1 where d: "detector_refuses m call recent = ((words, enough), recent1)"
    by (metis prod.exhaust_sel)
  show ?case
  proof (cases enough)
    case True
    then show ?thesis using Cons.prems d by simp
  next
    case False
    let ?recent2 = "if words \<noteq> [] then recent1 else note_the_result m answer recent1"
    obtain runs2 where a: "asked_in_a_row m call answers ?recent2 = (runs2, ended)"
      "runs = (if words \<noteq> [] then runs2 else runs2 + 1)"
      using Cons.prems(2) d False by (auto split: prod.splits if_splits)
    have streak: "n \<le> 2 \<or> n \<le> same_result_streak (mark_of m call) recent"
      using same_answers_count[OF Cons.prems(3)] by linarith
    have n: "n \<le> 2" using streak detector_goes_on[of m call recent words recent1] d False by auto
    have "newest_of_a_kind ?P ?recent2 = min (lm_window m) (newest_of_a_kind ?P recent + 1)"
      by (rule one_more_of_a_kind[OF _ _ _ d]) (use assms(1) Cons.prems(1) in \<open>auto simp: asks_with_one_answer_def\<close>)
    then have "runs2 \<le> 2 - (n + 1) \<and> (3 - (n + 1) < length answers \<longrightarrow> ended)"
      using Cons.IH[OF _ a(1), of "n + 1"] Cons.prems n assms(1) by simp
    moreover have "words = [] \<longrightarrow> n < 2"
      using detector_lets_through[of m call recent enough recent1] d same_answers_count[OF Cons.prems(3)] by fastforce
    ultimately show ?thesis using a(2) n by auto
  qed
qed simp

section \<open>The wall\<close>

lemma wall_hit_from_counts:
  "wall_hit_from counts recent \<noteq> None \<longleftrightarrow>
    (\<exists>past \<in> set recent. same_wall_recurrences \<le> counts (wall_key past) + count_list (map wall_key recent) (wall_key past))"
proof (induction recent arbitrary: counts)
  case (Cons past recent)
  let ?seen = "counts (wall_key past) + 1"
  let ?often = "\<lambda>q. same_wall_recurrences \<le> counts (wall_key q) + count_list (map wall_key (past # recent)) (wall_key q)"
  show ?case
  proof (cases "same_wall_recurrences \<le> ?seen")
    case True
    then show ?thesis by (auto simp: Let_def)
  next
    case False
    then have "wall_hit_from counts (past # recent) \<noteq> None \<longleftrightarrow> (\<exists>q \<in> set recent.
        same_wall_recurrences \<le> (counts(wall_key past := ?seen)) (wall_key q) + count_list (map wall_key recent) (wall_key q))"
      using Cons.IH by (simp add: Let_def)
    also have "\<dots> \<longleftrightarrow> (\<exists>q \<in> set recent. ?often q)" (is "?later \<longleftrightarrow> _")
      by (intro bex_cong refl) simp
    also have "\<dots> \<longleftrightarrow> (\<exists>q \<in> set (past # recent). ?often q)"
    proof -
      have "\<exists>q \<in> set recent. ?often q" if "?often past"
      proof -
        have "wall_key past \<in> set (map wall_key recent)"
          using that False count_notin[of "wall_key past" "map wall_key recent"] by (cases "wall_key past \<in> set (map wall_key recent)") simp_all
        then obtain q where "q \<in> set recent" "wall_key q = wall_key past" by auto
        then show ?thesis using that by (intro bexI[of _ q]) simp_all
      qed
      moreover have "set (past # recent) = insert past (set recent)" by (rule list.set)
      ultimately show ?thesis by (metis insert_iff)
    qed
    finally show ?thesis .
  qed
qed simp

text \<open>The results of so many calls, noted one after another, and the keys they are noted under.\<close>

definition results_noted :: "loop_machine \<Rightarrow> (string \<times> string) list \<Rightarrow> walled_result list" where
  "results_noted m results = foldl (\<lambda>wall (mark, said). note_on_the_wall m mark said wall) [] results"

definition walled_key :: "loop_machine \<Rightarrow> string \<times> string \<Rightarrow> string" where
  "walled_key m result = fst result @ [CHR 0x00] @ lm_sha256 m (normalize_volatile (snd result))"

definition newest :: "nat \<Rightarrow> 'a list \<Rightarrow> 'a list" where
  "newest n xs = drop (length xs - n) xs"

lemma newest_snoc: "0 < n \<Longrightarrow> newest n (newest n xs @ [x]) = newest n (xs @ [x])"
  by (cases "n \<le> length xs") (auto simp: newest_def Suc_diff_le)

lemma results_noted_newest:
  "map wall_key (results_noted m results) = map (walled_key m) (newest same_wall_window results)"
proof (induction results rule: rev_induct)
  case (snoc result results)
  obtain mark said where r: "result = (mark, said)" by (cases result)
  have w: "map wall_key (note_on_the_wall m mark said wall) = newest same_wall_window (map wall_key wall @ [walled_key m result])"
    for wall
    by (simp add: note_on_the_wall_def Let_def newest_def drop_map r wall_key_def walled_key_def normalized_fingerprint_def
        same_wall_window_def)
  have n: "map f (newest k xs) = newest k (map f xs)" for f :: "string \<times> string \<Rightarrow> string" and k xs
    by (simp add: newest_def drop_map)
  have "map wall_key (results_noted m (results @ [result]))
      = newest same_wall_window (map wall_key (results_noted m results) @ [walled_key m result])"
    by (simp add: results_noted_def r w)
  also have "\<dots> = newest same_wall_window (newest same_wall_window (map (walled_key m) results) @ [walled_key m result])"
    using snoc n by simp
  finally show ?case by (simp add: newest_snoc same_wall_window_def n)
qed (simp add: results_noted_def newest_def)

lemma wall_hit_counts:
  "wall_hit recent \<noteq> None \<longleftrightarrow> (\<exists>key. same_wall_recurrences \<le> count_list (map wall_key recent) key)"
proof -
  have "key \<in> wall_key ` set recent" if "same_wall_recurrences \<le> count_list (map wall_key recent) key" for key
    using that count_notin[of key "map wall_key recent"] by (cases "key \<in> wall_key ` set recent") (simp_all add: same_wall_recurrences_def)
  then have "(\<exists>past \<in> set recent. same_wall_recurrences \<le> count_list (map wall_key recent) (wall_key past))
      \<longleftrightarrow> (\<exists>key. same_wall_recurrences \<le> count_list (map wall_key recent) key)" by blast
  then show ?thesis using wall_hit_from_counts[of "\<lambda>_. 0" recent] by (simp add: wall_hit_def)
qed

end
