(* ===== verification/Test_Properties.thy ===== *)
theory Test_Properties
  imports Test_Reports Examples
begin

text \<open>
  What holds of every run read off a report, whoever printed it: the names of failing tests are there once each,
  and the counts agree with the names and with the exit code. The report of a Go run gives back its failing tests.
\<close>

section \<open>The names\<close>

definition names_sound :: "test_state \<Rightarrow> bool" where
  "names_sound st \<longleftrightarrow> distinct (ts_failing st) \<and> [] \<notin> set (ts_failing st)"

named_theorems names "operations that keep the names of failing tests sound"

lemma names_of_no_tests [names]: "names_sound no_tests"
  by (simp add: names_sound_def no_tests_def)

lemma names_after_adding [names]: "names_sound st \<Longrightarrow> names_sound (add_failing name st)"
  by (auto simp: names_sound_def add_failing_def)

lemma names_of_fields [names]:
  "names_sound (st\<lparr>ts_total := n\<rparr>) \<longleftrightarrow> names_sound st"
  "names_sound (st\<lparr>ts_failed := n\<rparr>) \<longleftrightarrow> names_sound st"
  "names_sound (st\<lparr>ts_files_failed := n\<rparr>) \<longleftrightarrow> names_sound st"
  "names_sound (st\<lparr>ts_files_total := n\<rparr>) \<longleftrightarrow> names_sound st"
  "names_sound (st\<lparr>ts_summary := s\<rparr>) \<longleftrightarrow> names_sound st"
  "names_sound (st\<lparr>ts_exit_code := n\<rparr>) \<longleftrightarrow> names_sound st"
  by (simp_all add: names_sound_def)

lemma names_after_each:
  assumes "\<And>st x. names_sound st \<Longrightarrow> names_sound (step st x)" "names_sound st"
  shows "names_sound (foldl step st xs)"
  using assms(2) by (induction xs arbitrary: st) (auto intro: assms(1))

lemma names_in_jest [names]: "names_sound st \<Longrightarrow> names_sound (read_jest_summary line st)"
  unfolding read_jest_summary_def by (rule names_after_each) (auto simp: names split: list.split option.split)

lemma names_in_pytest [names]: "names_sound st \<Longrightarrow> names_sound (read_pytest_summary line st)"
  by (simp add: read_pytest_summary_def names split: prod.split)

lemma names_in_go: "read_go line st = (st', b) \<Longrightarrow> names_sound st \<Longrightarrow> names_sound st'"
  by (auto simp: read_go_def names split: if_splits)

lemma names_in_scripting: "read_scripting line sc st = (sc', st', b) \<Longrightarrow> names_sound st \<Longrightarrow> names_sound st'"
  by (auto simp: read_scripting_def names split: if_splits prod.splits bool.splits)

section \<open>The runners that know their line\<close>

text \<open>A reader of a line that keeps the names sound, whatever the line.\<close>

locale line_reader =
  fixes reader :: runner_line
  assumes keeps: "names_sound st \<Longrightarrow> names_sound (fst (reader line st))"
begin

lemma read: "reader line st = (st', b) \<Longrightarrow> names_sound st \<Longrightarrow> names_sound st'"
  using keeps[of st line] by simp

end

interpretation google_test: line_reader read_google_test
  by unfold_locales (simp add: read_google_test_def names Let_def split: prod.split bool.split)

interpretation ctest: line_reader read_ctest
  by unfold_locales (simp add: read_ctest_def names split: option.split)

interpretation catch2: line_reader read_catch2
proof
  fix st line
  assume s: "names_sound st"
  have "names_sound (foldl (\<lambda>st part. case text_fields part of
      [count, which] \<Rightarrow> if which = ''failed'' then st\<lparr>ts_failed := atoi_whatever count\<rparr> else st | _ \<Rightarrow> st) t parts)"
    if "names_sound t" for t parts
    by (rule names_after_each) (use that in \<open>auto simp: names split: list.split\<close>)
  then show "names_sound (fst (read_catch2 line st))" using s by (simp add: read_catch2_def names)
qed

interpretation unity: line_reader read_unity
  by unfold_locales (auto simp: read_unity_def read_unity_counts_def names split: list.split)

interpretation check: line_reader read_check
  by unfold_locales (auto simp: read_check_def names split: list.split)

interpretation minitest: line_reader read_minitest
  by unfold_locales (auto simp: read_minitest_def names split: prod.split)

interpretation rspec: line_reader read_rspec
  by unfold_locales (auto simp: read_rspec_def names split: prod.split bool.split)

text \<open>The readers in turn are a reader again.\<close>

lemma names_in_turn:
  assumes "list_all (\<lambda>reader. line_reader reader) readers" "names_sound st"
  shows "names_sound (fst (first_reader readers line st))"
  using assms
proof (induction readers arbitrary: st)
  case (Cons reader readers)
  obtain st' b where r: "reader line st = (st', b)" by (metis surj_pair)
  have "names_sound st'" using line_reader.keeps[of reader st line] r Cons.prems by simp
  then show ?case using Cons r by (cases b) simp_all
qed simp

interpretation others: line_reader read_other_runners
proof
  fix st line
  assume "names_sound st"
  then show "names_sound (fst (read_other_runners line st))"
    unfolding read_other_runners_def
    by (intro names_in_turn) (simp_all add: google_test.line_reader_axioms ctest.line_reader_axioms
        catch2.line_reader_axioms unity.line_reader_axioms check.line_reader_axioms minitest.line_reader_axioms
        rspec.line_reader_axioms)
qed

section \<open>A whole run\<close>

lemma names_in_a_line:
  assumes "names_sound (fst (snd so_far))"
  shows "names_sound (fst (snd (read_report_line so_far raw)))"
proof -
  obtain sc st found where s: "so_far = (sc, st, found)" by (metis surj_pair)
  then have st: "names_sound st" using assms by simp
  obtain st1 b1 where g: "read_go (trim_space raw) st = (st1, b1)" by (metis surj_pair)
  obtain sc2 st2 b2 where c: "read_scripting (trim_space raw) sc st1 = (sc2, st2, b2)" by (metis surj_pair)
  obtain st3 b3 where o: "read_other_runners (trim_space raw) st2 = (st3, b3)" by (metis surj_pair)
  have "names_sound st1" "names_sound st2" "names_sound st3"
    using names_in_go[OF g st] names_in_scripting[OF c] others.read[OF o] by blast+
  then show ?thesis using st g c o
    by (simp add: s read_report_line_def Let_def names split: prod.split bool.split)
qed

lemma names_in_lines:
  "names_sound (fst (snd so_far)) \<Longrightarrow> names_sound (fst (snd (foldl read_report_line so_far raws)))"
  by (induction raws arbitrary: so_far) (simp_all add: names_in_a_line)

lemma names_in_generic:
  assumes "generic_test_state_in said = Some st"
  shows "names_sound st"
proof -
  have "names_sound (fst (foldl read_generic_line so_far raws))" if "names_sound (fst so_far)" for so_far raws
    using that
    by (induction raws arbitrary: so_far) (auto simp: read_generic_line_def Let_def names split: prod.split option.split)
  from this[of "(no_tests, False)" "split_on said [newline]"] show ?thesis
    using assms by (simp add: generic_test_state_in_def names split: prod.splits bool.splits)
qed

lemma names_after_mocha [names]: "names_sound st \<Longrightarrow> names_sound (finish_scripting said sc st)"
  by (auto simp: finish_scripting_def names intro!: names_after_each)

lemma settle_names [simp]: "ts_failing (settle st) = ts_failing st" "ts_exit_code (settle st) = ts_exit_code st"
  by (simp_all add: settle_def names_counted_def files_counted_def Let_def)

lemma settled_counts:
  "int (length (ts_failing st)) \<le> ts_failed (settle st)"
  "ts_failed (settle st) = 0 \<Longrightarrow> ts_exit_code st = 0 \<and> ts_failing st = [] \<and> ts_files_failed st \<le> 0"
  by (auto simp: settle_def names_counted_def files_counted_def Let_def split: if_splits)

lemma read_run_is_settled:
  assumes "test_state_in said = Some st"
  shows "\<exists>st0. st = settle st0 \<and> names_sound st0 \<and> ts_exit_code st0 = exit_code_of said"
proof -
  obtain sc st1 found where f: "foldl read_report_line
      (\<lparr>sc_unittest_ran = False, sc_mocha_passing = 0, sc_mocha_seen = False\<rparr>, no_tests, False)
      (split_on said [newline]) = (sc, st1, found)" by (metis surj_pair)
  have "names_sound st1"
    using names_in_lines[of "(\<lparr>sc_unittest_ran = False, sc_mocha_passing = 0, sc_mocha_seen = False\<rparr>, no_tests, False)"
        "split_on said [newline]"] f by (simp add: names)
  then have m: "names_sound (finish_scripting said sc st1)" by (rule names_after_mocha)
  have fin: "finish_reading said (finish_scripting said sc st1, found) = Some st"
    using assms f by (simp add: test_state_in_def)
  obtain st2 where "names_sound st2" "st = settle (st2\<lparr>ts_exit_code := exit_code_of said\<rparr>)"
  proof (cases found)
    case True
    let ?fs = "finish_scripting said sc st1"
    let ?st2 = "if ts_total ?fs = 0 then (case generic_summary_in said of None \<Rightarrow> ?fs
        | Some (all, failed, line) \<Rightarrow> ?fs\<lparr>ts_failed := failed, ts_total := all, ts_summary := line\<rparr>) else ?fs"
    have "names_sound ?st2" using m by (simp add: names split: option.split)
    moreover have "st = settle (?st2\<lparr>ts_exit_code := exit_code_of said\<rparr>)"
      using fin True by (simp add: finish_reading_def)
    ultimately show ?thesis by (rule that)
  next
    case False
    then show ?thesis using fin names_in_generic that
      by (auto simp: finish_reading_def split: option.splits)
  qed
  then show ?thesis by (intro exI[of _ "st2\<lparr>ts_exit_code := exit_code_of said\<rparr>"]) (simp add: names)
qed

section \<open>The report of a Go run\<close>

definition go_failure_line :: "string \<Rightarrow> string" where
  "go_failure_line name = ''--- FAIL: '' @ name @ '' (0.00s)''"

text \<open>What the shell tool answers when \<open>go test\<close> fails: the exit code, the tests that fail, and the verdict.\<close>

definition go_report :: "string list \<Rightarrow> string" where
  "go_report failing = join [newline] (''finished with exit code 1'' # map go_failure_line failing @ [''FAIL''])"

definition go_test_name :: "string \<Rightarrow> bool" where
  "go_test_name name \<longleftrightarrow> name \<noteq> [] \<and> CHR '' '' \<notin> set name \<and> newline \<notin> set name"

lemma trim_space_between:
  assumes "byte c < 128" "byte d < 128" "\<not> is_space (byte c)" "\<not> is_space (byte d)"
  shows "trim_space (c # s @ [d]) = c # s @ [d]"
  using assms rune_chunks_append_ascii[of d s "[]"]
  by (simp add: trim_space_def trim_runes_def chunk_text_def)
    (metis chunk_text_def chunk_text_rune_chunks)

lemma go_failure_line_trimmed: "trim_space (go_failure_line name) = go_failure_line name"
  using trim_space_between[of "CHR ''-''" "CHR '')''" "''-- FAIL: '' @ name @ '' (0.00s''"]
  by (simp add: go_failure_line_def is_space_def)

lemma marks_written:
  "mark 10006 = [CHR 0xE2, CHR 0x9C, CHR 0x96, CHR '' '']" "mark 10005 = [CHR 0xE2, CHR 0x9C, CHR 0x95, CHR '' '']"
  "mark 10007 = [CHR 0xE2, CHR 0x9C, CHR 0x97, CHR '' '']" "mark 10008 = [CHR 0xE2, CHR 0x9C, CHR 0x98, CHR '' '']"
  "mark 215 = [CHR 0xC3, CHR 0x97, CHR '' '']" "mark 9679 = [CHR 0xE2, CHR 0x97, CHR 0x8F, CHR '' '']"
  "mark 10004 = [CHR 0xE2, CHR 0x9C, CHR 0x94, CHR '' '']" "mark 10003 = [CHR 0xE2, CHR 0x9C, CHR 0x93, CHR '' '']"
  "mark 8505 = [CHR 0xE2, CHR 0x84, CHR 0xB9, CHR '' '']"
  by code_simp+

lemma marks_are_not_ascii:
  "prefix (mark 10006) (CHR ''-'' # s) = False" "prefix (mark 10005) (CHR ''-'' # s) = False"
  "prefix (mark 10007) (CHR ''-'' # s) = False" "prefix (mark 10008) (CHR ''-'' # s) = False"
  "prefix (mark 215) (CHR ''-'' # s) = False" "prefix (mark 9679) (CHR ''-'' # s) = False"
  "prefix (mark 10004) (CHR ''-'' # s) = False" "prefix (mark 10003) (CHR ''-'' # s) = False"
  "prefix (mark 8505 @ t) (CHR ''-'' # s) = False"
  by (simp_all add: marks_written)

lemma go_failure_line_read:
  assumes "go_test_name name"
  shows "read_report_line (sc, st, found) (go_failure_line name) = (sc, add_failing name st, True)"
proof -
  have "fst (cut (name @ '' (0.00s)'') '' '') = name"
    using assms cut_char[of "CHR '' ''" name "''(0.00s)''"] by (simp add: go_test_name_def)
  then show ?thesis
    unfolding read_report_line_def Let_def go_failure_line_trimmed prod.case
    by (simp add: go_failure_line_def marks_are_not_ascii read_go_def trim_prefix_def)
qed

lemma go_failure_lines_read:
  assumes "list_all go_test_name failing" "distinct (ts_failing st @ failing)"
  shows "foldl read_report_line (sc, st, found) (map go_failure_line failing)
    = (sc, st\<lparr>ts_failing := ts_failing st @ failing\<rparr>, found \<or> failing \<noteq> [])"
  using assms
  by (induction failing arbitrary: st found) (auto simp: go_failure_line_read add_failing_def go_test_name_def)

lemma go_failure_line_no_counts: "generic_counts (trim_space (go_failure_line name)) = None"
proof -
  have "\<exists>words. text_fields (punctuation_out (go_failure_line name)) = ''---'' # words"
    by (simp add: go_failure_line_def punctuation_out_def text_fields_def fields_func_def is_space_def chunk_text_def)
  then obtain words where w: "text_fields (punctuation_out (go_failure_line name)) = ''---'' # words" by blast
  have "atoi ''---'' = None" by code_simp
  then show ?thesis unfolding go_failure_line_trimmed
    by (cases words) (simp_all add: generic_counts_def w)
qed

lemma go_failure_lines_no_counts:
  "first_counts (map go_failure_line failing @ rest) = first_counts rest"
  by (induction failing) (simp_all add: go_failure_line_no_counts)

lemma go_verdict_lines:
  "read_report_line (sc, st, found) ''finished with exit code 1'' = (sc, st, found)"
  "read_report_line (sc, st, found) ''FAIL'' = (sc, st, True)"
proof -
  have t: "trim_space ''finished with exit code 1'' = ''finished with exit code 1''" "trim_space ''FAIL'' = ''FAIL''"
    by code_simp+
  have f: "text_fields ''finished with exit code 1'' = [''finished'', ''with'', ''exit'', ''code'', ''1'']" by code_simp
  have n: "unittest_ran ''finished with exit code 1'' = None" "unittest_failed ''finished with exit code 1'' = None"
    "unittest_name ''finished with exit code 1'' = []" "mocha_count ''finished with exit code 1'' = None"
    "bun_ran ''finished with exit code 1'' = None" "bun_failed ''finished with exit code 1'' = None"
    "bun_name ''finished with exit code 1'' = []" "deno_summary ''finished with exit code 1'' = None"
    "deno_name ''finished with exit code 1'' = []"
    by code_simp+
  show "read_report_line (sc, st, found) ''FAIL'' = (sc, st, True)"
    by (simp add: read_report_line_def Let_def t marks_written read_go_def)
  have "read_scripting ''finished with exit code 1'' sc st = (sc, st, False)" by (simp add: read_scripting_def n)
  moreover have "read_other_runners ''finished with exit code 1'' st = (st, False)"
  proof -
    have o: "ctest_listed_failure ''finished with exit code 1'' = None" "split_on ''finished with exit code 1'' '':'' = [''finished with exit code 1'']"
      "cut ''finished with exit code 1'' '' ['' = (''finished with exit code 1'', [], False)"
      "contains_text ''finished with exit code 1'' '' Test #'' = False" "contains_text ''finished with exit code 1'' ''% tests passed, '' = False"
      "contains_text ''finished with exit code 1'' ''%: Checks: '' = False" "contains_text ''finished with exit code 1'' '' runs, '' = False"
      "suffix '' FAILED TEST'' ''finished with exit code 1'' = False" "suffix '' FAILED TESTS'' ''finished with exit code 1'' = False"
      "contains_text ''finished with exit code 1'' '' examples, '' = False" "contains_text ''finished with exit code 1'' '' example, '' = False"
      by code_simp+
    show ?thesis
      by (simp add: read_other_runners_def read_google_test_def read_ctest_def read_catch2_def read_unity_def
          read_unity_counts_def read_check_def read_minitest_def read_rspec_def o f)
  qed
  moreover have "read_go ''finished with exit code 1'' st = (st, False)" by (simp add: read_go_def)
  ultimately show "read_report_line (sc, st, found) ''finished with exit code 1'' = (sc, st, found)"
    by (simp add: read_report_line_def Let_def t marks_written)
qed

lemma go_report_lines:
  assumes "list_all go_test_name failing"
  shows "split_on (go_report failing) [newline] = ''finished with exit code 1'' # map go_failure_line failing @ [''FAIL'']"
  unfolding go_report_def
  by (rule split_on_join_char) (use assms in \<open>auto simp: go_failure_line_def go_test_name_def list_all_iff\<close>)

lemma go_report_exit_code: "exit_code_of (go_report failing) = 1"
proof -
  obtain rest where r: "go_report failing = ''finished with exit code 1'' @ newline # rest @ [CHR ''L'']"
  proof
    show "go_report failing = ''finished with exit code 1'' @ newline
        # (if failing = [] then ''FAI'' else join [newline] (map go_failure_line failing) @ newline # ''FAI'') @ [CHR ''L'']"
      by (simp add: go_report_def join_Cons join_append)
  qed
  have "trim_space (go_report failing) = go_report failing"
    using trim_space_between[of "CHR ''f''" "CHR ''L''" "''inished with exit code 1'' @ newline # rest"]
    by (simp add: r is_space_def)
  moreover have "cut (go_report failing) [newline] = (''finished with exit code 1'', rest @ ''L'', True)"
    unfolding r by (rule cut_char) simp
  moreover have "count_read (hd (text_fields ''1 x'')) = 1" by code_simp
  ultimately show ?thesis by (simp add: exit_code_of_def)
qed

lemma go_report_read:
  assumes "list_all go_test_name failing" "distinct failing" "failing \<noteq> []"
  shows "test_state_in (go_report failing)
    = Some (no_tests\<lparr>ts_failed := int (length failing), ts_failing := failing, ts_exit_code := 1\<rparr>)"
proof -
  have no_counts: "generic_counts (trim_space ''finished with exit code 1'') = None" "generic_counts (trim_space ''FAIL'') = None"
    by code_simp+
  have "generic_summary_in (go_report failing) = None"
    by (simp add: generic_summary_in_def go_report_lines[OF assms(1)] no_counts go_failure_lines_no_counts)
  then show ?thesis
    using assms
    by (simp add: test_state_in_def go_report_lines go_verdict_lines go_failure_lines_read no_tests_def
        finish_scripting_def finish_reading_def go_report_exit_code settle_def names_counted_def files_counted_def Let_def)
qed

end
