(* ===== verification/Loop_Claims.thy ===== *)
theory Loop_Claims
  imports Loop_Finish Loop_Circles Test_Properties Keeper_Claims
begin


















text \<open>C8: the wall fires exactly when one call with one result, apart from clock times, process numbers, ports, addresses and
  temporary paths, is at least six times among the newest twenty-four results.\<close>

theorem the_wall_is_six_of_the_newest:
  "wall_hit (results_noted m results) \<noteq> None \<longleftrightarrow>
     (\<exists>key. 6 \<le> count_list (map (walled_key m) (newest 24 results)) key)"
  by (simp only: wall_hit_counts results_noted_newest) (simp add: same_wall_recurrences_def same_wall_window_def)

text \<open>C9: of every run that is read off a report, whichever runner printed it, the failing tests are named once each, there are
  no more of them than tests that failed, and a run with nothing failed has no failing test, no failed file and exit code
  nought.\<close>

theorem a_read_run_is_sound:
  assumes "test_state_in said = Some st"
  shows "distinct (ts_failing st) \<and> [] \<notin> set (ts_failing st) \<and> int (length (ts_failing st)) \<le> ts_failed st
    \<and> ts_exit_code st = exit_code_of said
    \<and> (ts_failed st = 0 \<longrightarrow> ts_failing st = [] \<and> exit_code_of said = 0 \<and> ts_files_failed st \<le> 0)"
proof -
  obtain st0 where st0: "st = settle st0" "names_sound st0" "ts_exit_code st0 = exit_code_of said"
    using read_run_is_settled[OF assms] by blast
  moreover have "ts_files_failed (settle st0) = ts_files_failed st0"
    by (simp add: settle_def names_counted_def files_counted_def Let_def)
  ultimately show ?thesis using settled_counts[of st0] by (auto simp: names_sound_def)
qed

theorem a_read_run_is_sound_witness:
  "\<exists>st. test_state_in (go_report [''TestA'', ''TestB'']) = Some st \<and> distinct (ts_failing st) \<and> ts_exit_code st = 1"
proof -
  have "test_state_in (go_report [''TestA'', ''TestB''])
      = Some (no_tests\<lparr>ts_failed := int 2, ts_failing := [''TestA'', ''TestB''], ts_exit_code := 1\<rparr>)" (is "_ = Some ?st")
    by (subst go_report_read) (simp_all add: go_test_name_def)
  then show ?thesis using a_read_run_is_sound[of "go_report [''TestA'', ''TestB'']" ?st] by simp
qed



end
