(* ===== verification/Spec2Isabelle.thy ===== *)
theory Spec2Isabelle
  imports Record_Claims Keeper_Claims Permission_Claims Job_Properties Loop_Claims
begin

text \<open>
  A verification library for nerdgenie, an agent that works for one user: it keeps a record of each piece
  of work, rules on each call of a tool, and works through jobs of many tasks. Modelled are the parts that
  decide what is remembered, what may run, what is worked on next, and when work that goes round in circles ends.

  \<^bold>\<open>The parts, and how they meet.\<close>  A piece of work has a record: a header, goals, rules, work and
  lessons, printed as text and read back from it. A keeper (\<open>internal/record\<close>) owns one record. Each of its
  methods changes the record in hand, checks that it still reads back from its own text and fits its size,
  and writes a checkpoint into the event log (\<open>internal/log\<close>), a table of events that only grows; a
  restart loads the latest checkpoint. A job (\<open>internal/job\<close>) is a record whose plan is a list of tasks,
  with a state beside it that goes into the same log as snapshots, and a table of claims the processes of one
  machine share. The permission function (\<open>internal/permission\<close>) reads a call of a tool into a readable
  form, matches it against the user's rules and the ask-me-first list, and answers allow, ask, deny or stop.
  The loop (\<open>internal/loop\<close>) plays a task in rounds: the calls of a reply go through its guards and the permission
  function, their results go into the record through its keeper, and the meter, the wall and the rewinds decide
  whether the task goes on.
  A call of \<open>internal/job\<close> uses the keeper and the log through their methods only, so the theories of the
  jobs rest on \<open>record_change\<close>, \<open>keeper_move\<close> and the interfaces below.

  \<^bold>\<open>Theories and sources.\<close>
  \<^item> Prelude. \<open>Go_Base\<close>, \<open>Go_Strings\<close>, \<open>Go_Runes\<close>: Go's strings as bytes, its 64-bit integers with
    their wrap-around, UTF-8, and the functions of \<open>strings\<close>, \<open>strconv\<close> and \<open>unicode/utf8\<close> the
    sources use. \<open>Json_Read\<close>: reading JSON.
  \<^item> Records. \<open>Identifier\<close> (\<open>contract/identifier.go\<close>), \<open>Record_Types\<close> (\<open>contract/record.go\<close>),
    \<open>Record_Text\<close>, \<open>Record_Print\<close>, \<open>Record_Parse\<close> (\<open>text.go\<close>, \<open>print.go\<close>,
    \<open>parse.go\<close>, \<open>parseitems.go\<close>), \<open>Record_Rules\<close> (\<open>model.go\<close>, \<open>size.go\<close>,
    \<open>lessons.go\<close>, \<open>sameness.go\<close>, \<open>proof.go\<close>, \<open>donecheck.go\<close>), \<open>Workorder_Check\<close>
    (\<open>workorder/check.go\<close>). \<open>Record_Lists\<close> to \<open>Record_Invariants\<close> prove the round trip,
    \<open>Record_Update\<close> what an update keeps.
  \<^item> Log and keeper. \<open>Event_Log\<close> (\<open>internal/log\<close>), \<open>Record_Keeper\<close> (\<open>keeper.go\<close>,
    \<open>checkpoint.go\<close>, \<open>harness.go\<close>, \<open>reports.go\<close>). \<open>Keeper_Changes\<close>, \<open>Keeper_Runs\<close>,
    \<open>Keeper_Checkpoints\<close> and \<open>Keeper_Life\<close> follow a keeper through any calls, restarts and windings
    back, among others who write into the same log. The properties are in \<open>Record_Claims\<close> and
    \<open>Keeper_Claims\<close>.
  \<^item> Permission. \<open>Permission_Types\<close>, \<open>Shell_Words\<close>, \<open>Command_Flags\<close>, \<open>Command_Reduce\<close>,
    \<open>Rulebook\<close>, \<open>Read_Only\<close>, \<open>Permission_Preview\<close>, \<open>Standing_Approvals\<close> and \<open>Permission\<close>
    model the files of \<open>internal/permission\<close>. \<open>Shell_Reading\<close> is the specification the reader of shell
    lines is held against, \<open>Rulebook_Globs\<close> the one of patterns; \<open>Readable_Form\<close>, \<open>Shipped_List\<close>,
    \<open>Permission_Rulings\<close> and \<open>Permission_Session\<close> carry the properties of \<open>Permission_Claims\<close>.
  \<^item> Jobs. \<open>Job_Types\<close> (\<open>contract/job.go\<close>, the types of \<open>state.go\<close>), \<open>Job_Schedule\<close>
    (\<open>schedule.go\<close>), \<open>Schedule_Words\<close> (\<open>words.go\<close>, \<open>cronwords.go\<close>), \<open>Job_Notes\<close>
    (\<open>notepad.go\<close>), \<open>Restart_Guard\<close> (\<open>guard.go\<close>), \<open>Job_Claims\<close> (\<open>claims.go\<close>),
    \<open>Job_Store\<close> (\<open>job.go\<close>, \<open>state.go\<close>, \<open>list.go\<close>, \<open>timing.go\<close>), \<open>Job_Work\<close>
    (\<open>create.go\<close>, \<open>finish.go\<close>, \<open>provedone.go\<close>, \<open>folder.go\<close>, \<open>control.go\<close>) and
    \<open>Job_Scheduler\<close> (\<open>next.go\<close>, \<open>interrupted.go\<close>, opening a store). A method is one step on the
    record \<open>job_store\<close>, which holds the jobs, the log and the table of claims; it gives its answer and the
    store afterwards, also when it fails half way. \<open>Job_Moves\<close> takes every method apart into small moves,
    \<open>Job_Invariants\<close>, \<open>Job_Restart\<close> and \<open>Job_Calls\<close> prove what all moves keep, \<open>Job_Leases\<close> is
    the contract of the claims, and \<open>Job_Effects\<close>, \<open>Job_Reports\<close>, \<open>Job_Ticks\<close> and
    \<open>Job_Progress\<close> say what single methods do. The properties are in \<open>Job_Properties\<close>.
  \<^item> The loop. \<open>Loop_Types\<close> (\<open>contract/model.go\<close>, \<open>situation.go\<close>, \<open>toolline.go\<close>),
    \<open>Loop_Guards\<close> (\<open>guard.go\<close>, \<open>samewall.go\<close>, \<open>resultnorm.go\<close>, \<open>closedcalls.go\<close>),
    \<open>Loop_Rethink\<close> (\<open>window.go\<close>, \<open>picture.go\<close>, \<open>rethink.go\<close>, \<open>freshwindow.go\<close>),
    \<open>Test_Runners\<close> and \<open>Test_Reports\<close> (\<open>teststate.go\<close> and its three siblings), \<open>Loop_Run\<close>
    (\<open>run.go\<close>, \<open>probes.go\<close>, \<open>progress.go\<close>), \<open>Loop_Rounds\<close> (\<open>calls.go\<close>, \<open>stopdone.go\<close>) and
    \<open>Loop_Meter\<close> (\<open>progress.go\<close>, \<open>calls.go\<close>). A task in flight is the record \<open>task_run\<close>; a call, a round and the
    rounds of a task are functions of it and of the event log. \<open>Loop_Ends\<close> bounds the rounds in which nothing moves,
    \<open>Loop_Records\<close> follows the record through rounds, \<open>Loop_Finish\<close> follows an ending, \<open>Loop_Circles\<close> the two
    detectors, \<open>Test_Properties\<close> the reading of reports. The properties are in \<open>Loop_Claims\<close>.

  \<^bold>\<open>Interfaces.\<close>  \<open>label_scheme\<close>: a writer and a reader of labels that undo each other, for results,
  tasks, reports and the labels of one record. \<open>record_list\<close>: a list of a record as the printer writes and
  the reader collects it, for all ten lists. \<open>event_store\<close>: what a keeper relies on of the log. \<open>budget\<close>:
  uses that only go down, for standing approvals. \<open>leases\<close>: a claim that nobody takes before it ends unless
  it is given up, for the table of claims. \<open>paid_steps\<close>: steps whose cost a potential pays for, for the rounds of a task.
  \<open>line_reader\<close>: a reader of a line of a test report that keeps the names of failing tests, for every runner. Each is interpreted on the definitions of the model.

  \<^bold>\<open>What is shown.\<close>  Of records: the round trip through text, what any text that is read must hold, and
  that the model's update marks nothing done without proof. Of keepers: the invariant of every reachable state,
  restart, winding back, and that a text stays readable under its label. Of the permission function: why a call
  may run, that a refusal stands, that sudo is put to the user, that standing approvals keep to their limit, and
  that the capped reader of shell lines and the compiled patterns agree with their specifications. Of jobs: the
  invariant of every store, when a job is closed and when it stays stopped, that one process at a time holds a task,
  what is handed out and that work which may start is started, what ticks and reports do, that a restart gives the
  same jobs, and what the guard on the words of a job refuses and does not see. Of the loop: that its rounds keep the record in
  order, that a task ends done only with its proof, that rounds without progress and repeated calls are bounded, when the
  wall fires, and that a test run is read soundly. A few properties state what the
  code does where its comments say otherwise.

  \<^bold>\<open>Parameters and hypotheses.\<close>  The Unicode tables outside ASCII, the file system, \<open>net/url\<close>, the
  moment, SHA-256, the cron library, the zones, the formats of moments and lengths of time, and whether a process
  runs are parameters (\<open>unicode_tables\<close>, \<open>machine\<close>, \<open>job_machine\<close>, \<open>loop_machine\<close>), and so is
  what the model, the tools, the permission function and the person answer in a round. Of the cron library one
  thing is assumed where needed, \<open>cron_moves_on\<close>: \<open>Next\<close> gives a later moment or none. Whether the
  database answers is a script of answers in the log and in the table of claims, and the theorems hold for every
  script. Where a property asks for a log that answers, \<open>takes_more\<close> and \<open>can_be_read_back\<close> say so.
  The restart of the jobs is proved of runs in which no making of a job failed half way (\<open>clean_run\<close>), because
  such a failure leaves a checkpoint behind under the number the next job gets.

  \<^bold>\<open>Bounds and loops.\<close>  No definition has fuel that can run out early: loops are structural recursions, or
  \<open>function\<close>s with a measure (the words left, the bytes left, the results left to drop). Where the code counts
  its own rounds, as for wrappers of a command, the count is the code's. The rounds of a task are a
  list, and the bound on those without progress (139, and 19 for each that moved) is proved, not assumed. Numbers of Go's \<open>int\<close> wrap at 64 bits
  where the code adds to them. Moments are integers without a zone, and zero is the zero time.

  \<^bold>\<open>Not modelled.\<close>  The words of errors: an error is the rule it names, or none. Opening files and the schema
  of the database; locks, since a method holds the one lock of its store from its first line to its last, and so is one
  step; the goroutine of a wait, whose ends are an argument. The listings of \<open>job/command.go\<close>. Of the loop,
  the replies without calls with the loop's own done check, budgets, marks on calls, the checks it makes after a change by
  running commands or looking at pages, the review, the driver of jobs and picking up. The working context, the readers of work orders and of broken tool calls, tools, providers, channels, the screen, the
  browser and the desktop, memory, reliability, sandbox, vault and skills: they drive processes, sockets and files, or
  compose the parts above through interfaces.
\<close>

end
